(* ===== verification/Prelude.thy ===== *)
theory Prelude
  imports
    Main
    "HOL-Library.Word"
    "HOL-Library.Char_ord"
    "HOL-Library.List_Lexorder"
    "HOL-Library.Product_Lexorder"
    "HOL-Library.Multiset"
begin

text \<open>
  Shared vocabulary of the development: the machine integers, the model of the C++
  standard containers and strings the program uses, and the lemmas every component needs.

  \<^item> \<open>std::string\<close> is \<open>string\<close>, a list of bytes. The order of \<open>std::string\<close> (bytes compared
    as unsigned, lexicographically) is the order of \<open>List_Lexorder\<close> over \<open>Char_ord\<close>; the
    order of \<open>std::pair\<close> / \<open>std::tuple\<close> is \<open>Product_Lexorder\<close>.
  \<^item> \<open>std::map\<close> is \<open>omap\<close>, an association list in strictly ascending key order: iterating
    the map is traversing the list. \<open>std::set\<close> is a HOL set where the code only tests
    membership, and a list in strictly ascending order where it iterates.
  \<^item> \<open>std::vector\<close> is a list; a pointer into a vector is the index of the element.
\<close>

unbundle bit_operations_syntax

type_synonym u8 = "8 word"
type_synonym u32 = "32 word"
type_synonym u64 = "64 word"

named_theorems str_simps \<open>rewriting the string helpers\<close>
named_theorems om_simps \<open>rewriting the ordered-map operations\<close>

subsection \<open>Strings\<close>

definition starts_with :: "string \<Rightarrow> string \<Rightarrow> bool" where
  "starts_with s p \<longleftrightarrow> take (length p) s = p"

definition ends_with :: "string \<Rightarrow> string \<Rightarrow> bool" where
  "ends_with s p \<longleftrightarrow> length p \<le> length s \<and> drop (length s - length p) s = p"

text \<open>\<open>s.substr(pos, n)\<close> and \<open>s.substr(pos)\<close> for \<open>pos\<close> within the string.\<close>

definition substr :: "string \<Rightarrow> nat \<Rightarrow> nat \<Rightarrow> string" where
  "substr s pos n = take n (drop pos s)"

text \<open>\<open>s.find(pat)\<close> and \<open>s.rfind(pat)\<close>: the first and the last position, \<open>None\<close> for \<open>npos\<close>.\<close>

fun find_sub :: "string \<Rightarrow> string \<Rightarrow> nat option" where
  "find_sub pat [] = (if pat = [] then Some 0 else None)"
| "find_sub pat (c # s) =
     (if starts_with (c # s) pat then Some 0 else map_option Suc (find_sub pat s))"

fun rfind_sub :: "string \<Rightarrow> string \<Rightarrow> nat option" where
  "rfind_sub pat [] = (if pat = [] then Some 0 else None)"
| "rfind_sub pat (c # s) =
     (case rfind_sub pat s of
        Some i \<Rightarrow> Some (Suc i)
      | None \<Rightarrow> if starts_with (c # s) pat then Some 0 else None)"

lemma starts_with_append [simp, str_simps]: "starts_with (p @ s) p"
  by (simp add: starts_with_def)

lemma starts_with_Nil [simp, str_simps]: "starts_with s []"
  by (simp add: starts_with_def)

lemma starts_with_Cons [simp, str_simps]:
  "starts_with (c # s) (d # p) \<longleftrightarrow> c = d \<and> starts_with s p"
  "\<not> starts_with [] (d # p)"
  by (auto simp: starts_with_def)

lemma starts_with_iff: "starts_with s p \<longleftrightarrow> (\<exists>r. s = p @ r)"
proof
  assume "starts_with s p"
  then have "s = p @ drop (length p) s"
    unfolding starts_with_def by (metis append_take_drop_id)
  then show "\<exists>r. s = p @ r" ..
qed auto

lemma ends_with_append [simp, str_simps]: "ends_with (s @ p) p"
  by (simp add: ends_with_def)

lemma ends_with_iff: "ends_with s p \<longleftrightarrow> (\<exists>r. s = r @ p)"
proof
  assume "ends_with s p"
  then have "s = take (length s - length p) s @ p"
    unfolding ends_with_def by (metis append_take_drop_id)
  then show "\<exists>r. s = r @ p" ..
qed auto

lemma find_sub_Some: "find_sub pat s = Some i \<Longrightarrow> i + length pat \<le> length s \<and> starts_with (drop i s) pat"
proof (induction s arbitrary: i)
  case Nil
  then show ?case by (simp split: if_splits)
next
  case (Cons c s)
  show ?case
  proof (cases "starts_with (c # s) pat")
    case True
    then have "length pat \<le> length (c # s)" unfolding starts_with_iff by (metis length_append le_add1)
    then show ?thesis using True Cons.prems by simp
  next
    case False
    with Cons.prems obtain j where "find_sub pat s = Some j" "i = Suc j" by auto
    with Cons.IH show ?thesis by fastforce
  qed
qed

lemma find_sub_None: "find_sub pat s = None \<longleftrightarrow> (\<forall>u v. s \<noteq> u @ pat @ v)"
proof (induction s)
  case Nil
  then show ?case by auto
next
  case (Cons c s)
  show ?case
  proof (cases "starts_with (c # s) pat")
    case True
    then obtain r where "c # s = pat @ r" by (auto simp: starts_with_iff)
    then have "\<exists>u v. c # s = u @ pat @ v" by (metis append_Nil)
    then show ?thesis using True by simp
  next
    case False
    have "(\<forall>u v. s \<noteq> u @ pat @ v) \<longleftrightarrow> (\<forall>u v. c # s \<noteq> u @ pat @ v)"
    proof (intro iffI allI notI)
      fix u v assume a: "\<forall>u v. s \<noteq> u @ pat @ v" and e: "c # s = u @ pat @ v"
      show False
      proof (cases u)
        case Nil
        then show ?thesis using e False by (auto simp: starts_with_iff)
      next
        case (Cons d u')
        then show ?thesis using e a by simp
      qed
    next
      fix u v assume a: "\<forall>u v. c # s \<noteq> u @ pat @ v" and "s = u @ pat @ v"
      then have "c # s = (c # u) @ pat @ v" by simp
      with a show False by blast
    qed
    then show ?thesis using False Cons.IH by simp
  qed
qed

lemma rfind_sub_None: "rfind_sub pat s = None \<longleftrightarrow> find_sub pat s = None"
  by (induction s) (auto split: option.splits)

lemma rfind_sub_Some:
  "rfind_sub pat s = Some i \<Longrightarrow> i + length pat \<le> length s \<and> starts_with (drop i s) pat"
proof (induction s arbitrary: i)
  case Nil
  then show ?case by (simp split: if_splits)
next
  case (Cons c s)
  show ?case
  proof (cases "rfind_sub pat s")
    case None
    with Cons.prems have st: "starts_with (c # s) pat" and "i = 0" by (auto split: if_splits)
    then have "length pat \<le> length (c # s)" unfolding starts_with_iff by (metis length_append le_add1)
    with st \<open>i = 0\<close> show ?thesis by simp
  next
    case (Some j)
    with Cons.IH Cons.prems show ?thesis by auto
  qed
qed

text \<open>The last occurrence is found where no later one starts.\<close>

lemma rfind_sub_last:
  assumes "pat \<noteq> []" and "find_sub pat (tl (pat @ v)) = None"
  shows "rfind_sub pat (u @ pat @ v) = Some (length u)"
proof (induction u)
  case Nil
  obtain c p where p: "pat = c # p" using assms(1) by (cases pat) auto
  have "rfind_sub pat (p @ v) = None"
    using assms(2) by (simp add: p rfind_sub_None)
  then show ?case using starts_with_append [of pat v] by (simp add: p)
next
  case (Cons c u)
  then show ?case by simp
qed

subsection \<open>Decimal and hexadecimal digits\<close>

definition digit :: "nat \<Rightarrow> char" where
  "digit n = char_of (n + (if n < 10 then 48 else 87))"

text \<open>\<open>std::to_string\<close> and the stream insertion of an unsigned value.\<close>

fun dec :: "nat \<Rightarrow> string" where
  "dec n = (if n < 10 then [digit n] else dec (n div 10) @ [digit (n mod 10)])"

declare dec.simps [simp del]

text \<open>The printf conversions \<open>%02x\<close> and \<open>%x\<close> of a byte.\<close>

definition hex02 :: "u8 \<Rightarrow> string" where
  "hex02 b = [digit (unat b div 16), digit (unat b mod 16)]"

definition hex_byte :: "u8 \<Rightarrow> string" where
  "hex_byte b = (if unat b < 16 then [digit (unat b)] else hex02 b)"

lemma of_char_digit: "n < 16 \<Longrightarrow> of_char (digit n) = (n + (if n < 10 then 48 else 87) :: nat)"
  by (simp add: digit_def)

lemma digit_inject:
  assumes "m < 16" and "n < 16"
  shows "digit m = digit n \<longleftrightarrow> m = n"
proof
  assume "digit m = digit n"
  then have "(of_char (digit m) :: nat) = of_char (digit n)" by simp
  then show "m = n" using assms by (auto simp: of_char_digit split: if_splits)
qed simp

end
