(* ===== verification/Ordered_Map.thy ===== *)
theory Ordered_Map
  imports Prelude
begin

text \<open>
  \<open>std::map\<close> as an association list in strictly ascending key order, the interface the
  clients use (\<open>keyed_store\<close>: lookup after insertion and erasure, the invariant), and the
  one fact every group-by loop of the program rests on: folding an upsert over a list, the
  entry of a key is the fold over the elements that carry this key.
\<close>

type_synonym ('k, 'v) omap = "('k \<times> 'v) list"

definition om_ok :: "('k::linorder, 'v) omap \<Rightarrow> bool" where
  "om_ok m \<longleftrightarrow> sorted_wrt (<) (map fst m)"

abbreviation om_get :: "('k, 'v) omap \<Rightarrow> 'k \<Rightarrow> 'v option" where
  "om_get m k \<equiv> map_of m k"

text \<open>\<open>m[k] = v\<close>\<close>

fun om_put :: "'k::linorder \<Rightarrow> 'v \<Rightarrow> ('k, 'v) omap \<Rightarrow> ('k, 'v) omap" where
  "om_put k v [] = [(k, v)]"
| "om_put k v (e # m) =
     (if k < fst e then (k, v) # e # m
      else if k = fst e then (k, v) # m
      else e # om_put k v m)"

text \<open>\<open>m.erase(k)\<close>\<close>

fun om_del :: "'k \<Rightarrow> ('k, 'v) omap \<Rightarrow> ('k, 'v) omap" where
  "om_del k [] = []"
| "om_del k (e # m) = (if fst e = k then m else e # om_del k m)"

text \<open>\<open>m[k]\<close> read and written through the reference: a missing key starts from \<open>d\<close>.\<close>

definition om_upd :: "'k::linorder \<Rightarrow> 'v \<Rightarrow> ('v \<Rightarrow> 'v) \<Rightarrow> ('k, 'v) omap \<Rightarrow> ('k, 'v) omap" where
  "om_upd k d f m = om_put k (f (case om_get m k of None \<Rightarrow> d | Some v \<Rightarrow> v)) m"

lemma om_ok_Nil [simp]: "om_ok []"
  by (simp add: om_ok_def)

lemma om_ok_Cons: "om_ok (e # m) \<longleftrightarrow> (\<forall>k \<in> fst ` set m. fst e < k) \<and> om_ok m"
  by (simp add: om_ok_def)

lemma om_ok_distinct: "om_ok m \<Longrightarrow> distinct (map fst m)"
  by (simp add: om_ok_def strict_sorted_iff)

lemma fst_set_om_put [simp]: "fst ` set (om_put k v m) = insert k (fst ` set m)"
  by (induction m) auto

lemma set_om_put: "e \<in> set (om_put k v m) \<Longrightarrow> e = (k, v) \<or> e \<in> set m"
proof (induction m)
  case (Cons d m)
  then show ?case by (cases "k < fst d"; cases "k = fst d") auto
qed simp

lemma om_ok_put [intro, simp]: "om_ok m \<Longrightarrow> om_ok (om_put k v m)"
  by (induction m) (auto simp: om_ok_Cons)

lemma om_get_put [simp]: "om_ok m \<Longrightarrow> om_get (om_put k v m) j = (if j = k then Some v else om_get m j)"
proof (induction m)
  case Nil
  then show ?case by simp
next
  case (Cons e m)
  then have "k < fst e \<Longrightarrow> map_of (e # m) k = None"
    by (auto simp: om_ok_Cons map_of_eq_None_iff)
  with Cons show ?case by (cases e) (auto simp: om_ok_Cons)
qed

lemma set_om_del: "set (om_del k m) \<subseteq> set m"
  by (induction m) auto

lemma om_ok_del [intro, simp]: "om_ok m \<Longrightarrow> om_ok (om_del k m)"
  by (induction m) (use set_om_del in \<open>fastforce simp: om_ok_Cons\<close>)+

lemma om_get_del [simp]: "om_ok m \<Longrightarrow> om_get (om_del k m) j = (if j = k then None else om_get m j)"
proof (induction m)
  case Nil
  then show ?case by simp
next
  case (Cons e m)
  then have "fst e = k \<Longrightarrow> map_of m k = None"
    by (auto simp: om_ok_Cons map_of_eq_None_iff)
  with Cons show ?case by (cases e) (auto simp: om_ok_Cons)
qed

lemma om_keys: "om_ok m \<Longrightarrow> fst ` set m = {k. om_get m k \<noteq> None}"
  by (auto simp: map_of_eq_None_iff image_iff)

text \<open>Two ordered maps with the same entries are the same list.\<close>

lemma om_rebuild:
  assumes "om_ok m"
  shows "map (\<lambda>k. (k, the (om_get m k))) (map fst m) = m"
proof (rule nth_equalityI)
  fix i assume "i < length (map (\<lambda>k. (k, the (om_get m k))) (map fst m))"
  then have i: "i < length m" by simp
  then have "om_get m (fst (m ! i)) = Some (snd (m ! i))"
    using om_ok_distinct [OF assms] by (metis map_of_eq_Some_iff nth_mem prod.collapse)
  then show "map (\<lambda>k. (k, the (om_get m k))) (map fst m) ! i = m ! i"
    using i by simp
qed simp

lemma om_ext:
  assumes "om_ok m" "om_ok n" "\<And>k. om_get m k = om_get n k"
  shows "m = n"
proof -
  have "set (map fst m) = set (map fst n)"
    using assms by (simp add: om_keys)
  then have k: "map fst m = map fst n"
    using assms(1,2) by (simp add: om_ok_def strict_sorted_equal)
  have "m = map (\<lambda>k. (k, the (om_get n k))) (map fst n)"
    using om_rebuild [OF assms(1)] unfolding assms(3) k by simp
  also have "\<dots> = n" by (rule om_rebuild [OF assms(2)])
  finally show ?thesis .
qed

subsection \<open>The interface of a keyed store\<close>

locale keyed_store =
  fixes get :: "'m \<Rightarrow> 'k \<Rightarrow> 'v option"
    and put :: "'k \<Rightarrow> 'v \<Rightarrow> 'm \<Rightarrow> 'm"
    and del :: "'k \<Rightarrow> 'm \<Rightarrow> 'm"
    and ok :: "'m \<Rightarrow> bool"
  assumes get_put: "ok m \<Longrightarrow> get (put k v m) j = (if j = k then Some v else get m j)"
    and get_del: "ok m \<Longrightarrow> get (del k m) j = (if j = k then None else get m j)"
    and ok_put: "ok m \<Longrightarrow> ok (put k v m)"
    and ok_del: "ok m \<Longrightarrow> ok (del k m)"
begin

text \<open>
  The loop \<open>for (x : xs) m[key(x)] = f(x, m[key(x)])\<close>, where \<open>f\<close> gets \<open>None\<close> for a key that
  is not there yet.
\<close>

lemma ok_fold_put:
  "ok m \<Longrightarrow> ok (fold (\<lambda>x m. put (key x) (f x (get m (key x))) m) xs m)"
  by (induction xs arbitrary: m) (auto intro: ok_put)

lemma get_fold_put:
  "ok m \<Longrightarrow>
   get (fold (\<lambda>x m. put (key x) (f x (get m (key x))) m) xs m) k =
   fold (\<lambda>x r. Some (f x r)) (filter (\<lambda>x. key x = k) xs) (get m k)"
proof (induction xs arbitrary: m)
  case Nil
  then show ?case by simp
next
  case (Cons x xs)
  then show ?case by (simp add: ok_put get_put)
qed

lemma get_fold_put_None:
  "ok m \<Longrightarrow> get m k = None \<Longrightarrow>
   get (fold (\<lambda>x m. put (key x) (f x (get m (key x))) m) xs m) k = None
   \<longleftrightarrow> (\<forall>x \<in> set xs. key x \<noteq> k)"
proof -
  have "fold (\<lambda>x r. Some (f x r)) ys (None :: 'v option) = None \<longleftrightarrow> ys = []" for ys
    by (cases ys rule: rev_cases) auto
  then show "ok m \<Longrightarrow> get m k = None \<Longrightarrow> ?thesis"
    by (auto simp: get_fold_put filter_empty_conv)
qed

end

interpretation om: keyed_store om_get om_put om_del om_ok
  by unfold_locales (auto split: if_splits)

lemma om_ok_upd [intro, simp]: "om_ok m \<Longrightarrow> om_ok (om_upd k d f m)"
  by (simp add: om_upd_def)

lemma om_get_upd [simp]:
  "om_ok m \<Longrightarrow> om_get (om_upd k d f m) j =
     (if j = k then Some (f (case om_get m k of None \<Rightarrow> d | Some v \<Rightarrow> v)) else om_get m j)"
  by (simp add: om_upd_def)

text \<open>The group-by loop with \<open>operator[]\<close>.\<close>

lemma om_ok_fold_upd: "om_ok m \<Longrightarrow> om_ok (fold (\<lambda>x. om_upd (key x) d (f x)) xs m)"
  unfolding om_upd_def
  by (rule om.ok_fold_put [where f = "\<lambda>x r. f x (case r of None \<Rightarrow> d | Some v \<Rightarrow> v)"])

lemma fold_Some: "fold (\<lambda>x r. Some (f x (case r of None \<Rightarrow> d | Some v \<Rightarrow> v))) ys (Some v)
    = Some (fold f ys v)"
  by (induction ys arbitrary: v) auto

lemma om_get_fold_upd:
  assumes "om_ok m"
  shows "om_get (fold (\<lambda>x. om_upd (key x) d (f x)) xs m) k =
    (case om_get m k of
       Some v \<Rightarrow> Some (fold f (filter (\<lambda>x. key x = k) xs) v)
     | None \<Rightarrow> (if \<exists>x \<in> set xs. key x = k
                then Some (fold f (filter (\<lambda>x. key x = k) xs) d) else None))"
proof -
  let ?ys = "filter (\<lambda>x. key x = k) xs"
  have "om_get (fold (\<lambda>x. om_upd (key x) d (f x)) xs m) k =
      fold (\<lambda>x r. Some (f x (case r of None \<Rightarrow> d | Some v \<Rightarrow> v))) ?ys (om_get m k)"
    unfolding om_upd_def
    using om.get_fold_put [OF assms, where f = "\<lambda>x r. f x (case r of None \<Rightarrow> d | Some v \<Rightarrow> v)"]
    by blast
  then show ?thesis
    by (cases "om_get m k"; cases ?ys) (auto simp: fold_Some filter_empty_conv
        dest: filter_eq_ConsD split: if_splits)
qed

end
