(* ===== verification/Double.thy ===== *)
theory Double
  imports Complex_Main "HOL-Library.Log_Nat" Prelude
begin

text \<open>
  The C++ \<open>double\<close>: IEEE 754 binary64 with round-to-nearest-even. A finite value is the
  rational it denotes; the two zeros are one value (nothing modelled here divides by zero or
  reads a sign bit). Every operation computes the exact result and rounds it once, comparisons
  with a NaN are false, and \<open>std::min\<close> / \<open>std::max\<close> keep the argument order of the library.
\<close>

datatype double = Fin rat | PInf | NInf | NaN

text \<open>The exponent of a positive rational: the largest \<open>e\<close> with \<open>2 powi e \<le> x\<close>.\<close>

definition flog2 :: "rat \<Rightarrow> int" where
  "flog2 x =
     (let (p, q) = quotient_of x;
          e = bitlen p - bitlen q
      in if 2 powi e \<le> x then e else e - 1)"

definition round_half_even :: "rat \<Rightarrow> int" where
  "round_half_even y =
     (let n = \<lfloor>y\<rfloor>; d = y - of_int n
      in if d < 1 / 2 then n
         else if 1 / 2 < d then n + 1
         else if even n then n else n + 1)"

text \<open>
  Rounding: 53 bits of significand, the smallest quantum \<open>2 powi -1074\<close>, overflow to an
  infinity from \<open>2 powi 1024\<close> on.
\<close>

definition rnd :: "rat \<Rightarrow> double" where
  "rnd x =
     (if x = 0 then Fin 0
      else let quantum = 2 powi (max (flog2 \<bar>x\<bar> - 52) (- 1074));
               r = of_int (round_half_even (\<bar>x\<bar> / quantum)) * quantum
           in if 2 powi 1024 \<le> r then (if x < 0 then NInf else PInf)
              else Fin (if x < 0 then - r else r))"

fun d_neg :: "double \<Rightarrow> double" where
  "d_neg (Fin a) = Fin (- a)"
| "d_neg PInf = NInf"
| "d_neg NInf = PInf"
| "d_neg NaN = NaN"

fun d_add :: "double \<Rightarrow> double \<Rightarrow> double" where
  "d_add (Fin a) (Fin b) = rnd (a + b)"
| "d_add NaN b = NaN"
| "d_add a NaN = NaN"
| "d_add PInf NInf = NaN"
| "d_add NInf PInf = NaN"
| "d_add PInf b = PInf"
| "d_add NInf b = NInf"
| "d_add a PInf = PInf"
| "d_add a NInf = NInf"

definition d_sub :: "double \<Rightarrow> double \<Rightarrow> double" where
  "d_sub a b = d_add a (d_neg b)"

fun d_lt :: "double \<Rightarrow> double \<Rightarrow> bool" where
  "d_lt (Fin a) (Fin b) = (a < b)"
| "d_lt NaN b = False"
| "d_lt a NaN = False"
| "d_lt a NInf = False"
| "d_lt NInf b = True"
| "d_lt PInf b = False"
| "d_lt a PInf = True"

definition d_le :: "double \<Rightarrow> double \<Rightarrow> bool" where
  "d_le a b \<longleftrightarrow> a \<noteq> NaN \<and> b \<noteq> NaN \<and> \<not> d_lt b a"

text \<open>\<open>a * b\<close> and \<open>a / b\<close>\<close>

definition d_sign :: "double \<Rightarrow> int" where
  "d_sign a = (case a of Fin x \<Rightarrow> (if x < 0 then - 1 else if x = 0 then 0 else 1)
      | PInf \<Rightarrow> 1 | NInf \<Rightarrow> - 1 | NaN \<Rightarrow> 0)"

definition d_inf :: "int \<Rightarrow> double" where
  "d_inf s = (if s < 0 then NInf else if s = 0 then NaN else PInf)"

fun d_mul :: "double \<Rightarrow> double \<Rightarrow> double" where
  "d_mul (Fin a) (Fin b) = rnd (a * b)"
| "d_mul NaN b = NaN"
| "d_mul a NaN = NaN"
| "d_mul a b = d_inf (d_sign a * d_sign b)"

fun d_div :: "double \<Rightarrow> double \<Rightarrow> double" where
  "d_div (Fin a) (Fin b) = (if b = 0 then d_inf (d_sign (Fin a)) else rnd (a / b))"
| "d_div NaN b = NaN"
| "d_div a NaN = NaN"
| "d_div (Fin a) b = Fin 0"
| "d_div a (Fin b) = d_inf (d_sign a * (if b < 0 then - 1 else 1))"
| "d_div a b = NaN"

text \<open>\<open>std::min(a, b)\<close> is \<open>b < a ? b : a\<close>, \<open>std::max(a, b)\<close> is \<open>a < b ? b : a\<close>.\<close>

definition d_min :: "double \<Rightarrow> double \<Rightarrow> double" where
  "d_min a b = (if d_lt b a then b else a)"

definition d_max :: "double \<Rightarrow> double \<Rightarrow> double" where
  "d_max a b = (if d_lt a b then b else a)"

text \<open>\<open>static_cast<double>(n)\<close> of an unsigned value.\<close>

definition d_of_nat :: "nat \<Rightarrow> double" where
  "d_of_nat n = rnd (of_nat n)"

text \<open>The values that are not below zero and not a NaN.\<close>

definition d_nonneg :: "double \<Rightarrow> bool" where
  "d_nonneg a \<longleftrightarrow> (case a of Fin x \<Rightarrow> 0 \<le> x | PInf \<Rightarrow> True | _ \<Rightarrow> False)"

lemma d_lt_irrefl [simp]: "\<not> d_lt a a"
  by (cases a) auto

lemma d_lt_trans: "d_lt a b \<Longrightarrow> d_lt b c \<Longrightarrow> d_lt a c"
  by (cases a; cases b; cases c) auto

lemma d_lt_asym: "d_lt a b \<Longrightarrow> \<not> d_lt b a"
  using d_lt_trans d_lt_irrefl by blast

lemma round_half_even_nonneg: "0 \<le> y \<Longrightarrow> 0 \<le> round_half_even y"
  by (auto simp: round_half_even_def Let_def)

lemma round_half_even_of_int [simp]: "round_half_even (of_int n) = n"
  by (simp add: round_half_even_def)

lemma rnd_0 [simp]: "rnd 0 = Fin 0"
  by (simp add: rnd_def)

lemma rnd_nonneg: "0 \<le> x \<Longrightarrow> d_nonneg (rnd x)"
  by (auto simp: rnd_def Let_def d_nonneg_def intro!: mult_nonneg_nonneg
      round_half_even_nonneg divide_nonneg_nonneg)

lemma d_nonneg_add: "d_nonneg a \<Longrightarrow> d_nonneg b \<Longrightarrow> d_nonneg (d_add a b)"
  by (cases a; cases b) (auto simp: d_nonneg_def dest: rnd_nonneg [unfolded d_nonneg_def]
      intro!: rnd_nonneg [unfolded d_nonneg_def])

lemma d_nonneg_max_0 [simp]: "d_nonneg (d_max (Fin 0) a)"
  by (cases a) (auto simp: d_max_def d_nonneg_def)

lemma d_nonneg_0 [simp]: "d_nonneg (Fin 0)"
  by (simp add: d_nonneg_def)

text \<open>Integers up to \<open>2^53\<close> are exact.\<close>

lemma quotient_of_of_nat: "quotient_of (of_nat n :: rat) = (int n, 1)"
  using quotient_of_int [of "int n"] by (simp add: of_rat_of_nat_eq Rat.of_int_def)

lemma bitlen_of_nat: "bitlen (int n) = int (floorlog 2 n)"
  by (simp add: bitlen_def)

lemma flog2_of_nat:
  assumes "0 < n"
  shows "flog2 (of_nat n) < int (floorlog 2 n)"
  by (simp add: flog2_def quotient_of_of_nat bitlen_of_nat) (simp add: bitlen_def floorlog_def Let_def)

lemma rnd_of_nat:
  assumes "n < 2 ^ 53"
  shows "rnd (of_nat n) = Fin (of_nat n)"
proof (cases "n = 0")
  case False
  define e where "e = max (flog2 (of_nat n) - 52) (- 1074)"
  have "floorlog 2 n \<le> 53"
    using assms False by (simp add: floorlog_le_iff)
  then have "e \<le> 0"
    using flog2_of_nat [of n] False by (simp add: e_def)
  then obtain k where k: "e = - int k" by (metis nonneg_int_cases neg_0_le_iff_le minus_minus)
  have "of_nat n / (2 powi e :: rat) = of_int (int n * 2 ^ k)"
    by (simp add: k power_int_minus divide_inverse)
  then have r: "of_int (round_half_even (of_nat n / (2 powi e))) * (2 powi e :: rat) = of_nat n"
    by (simp only: round_half_even_of_int) (simp add: k power_int_minus)
  have "rat_of_nat n < of_nat (2 ^ 1024)"
    using assms by (subst of_nat_less_iff) (simp add: less_trans)
  then have "\<not> 2 powi 1024 \<le> rat_of_nat n"
    by simp
  then show ?thesis
    using False r by (simp add: rnd_def e_def [symmetric] Let_def)
qed simp

end
