(* ===== verification/Ros_Names.thy ===== *)
theory Ros_Names
  imports Ordered_Map Double
begin

text \<open>
  The rmw_fastrtps name mangling and the ROS node names
  (\<open>include/fastdds_transport_viz/ros_names.hpp\<close>, \<open>src/ros_names.cpp\<close>): DDS topic and type
  names back to ROS names, the REP-2011 type hash out of USER_DATA, the members of an action,
  and the table of node names fed by the \<open>ros_discovery_info\<close> samples.
\<close>

datatype ros_entity_kind = NotRos | RosTopic | ServiceRequest | ServiceReply

record ros_name =
  rn_kind :: ros_entity_kind
  rn_name :: string

definition demangle_topic :: "string \<Rightarrow> ros_name" where
  "demangle_topic t =
     (if starts_with t ''rt/'' then \<lparr>rn_kind = RosTopic, rn_name = ''/'' @ drop 3 t\<rparr>
      else if starts_with t ''rq/'' \<and> ends_with t ''Request'' then
        \<lparr>rn_kind = ServiceRequest, rn_name = ''/'' @ substr t 3 (length t - 3 - 7)\<rparr>
      else if starts_with t ''rr/'' \<and> ends_with t ''Reply'' then
        \<lparr>rn_kind = ServiceReply, rn_name = ''/'' @ substr t 3 (length t - 3 - 5)\<rparr>
      else \<lparr>rn_kind = NotRos, rn_name = []\<rparr>)"

subsection \<open>Type hash\<close>

definition hash_char_ok :: "char \<Rightarrow> bool" where
  "hash_char_ok ch \<longleftrightarrow> (CHR ''0'' \<le> ch \<and> ch \<le> CHR ''9'') \<or> (CHR ''a'' \<le> ch \<and> ch \<le> CHR ''f'')"

text \<open>
  The fields of the USER_DATA: the loop takes the text up to the next \<open>;\<close> and goes on behind
  it, until the position reaches the end (so no field follows a final \<open>;\<close>).
\<close>

function user_fields :: "string \<Rightarrow> string list" where
  "user_fields s =
     (if s = [] then []
      else takeWhile (\<lambda>c. c \<noteq> CHR '';'') s # user_fields (drop 1 (dropWhile (\<lambda>c. c \<noteq> CHR '';'') s)))"
  by pat_completeness auto
termination
proof (relation "measure length")
  fix s :: string
  assume "s \<noteq> []"
  have "length (dropWhile (\<lambda>c. c \<noteq> CHR '';'') s) \<le> length s"
    by (rule length_dropWhile_le)
  with \<open>s \<noteq> []\<close> show "(drop 1 (dropWhile (\<lambda>c. c \<noteq> CHR '';'') s), s) \<in> measure length"
    by (simp, cases s) auto
qed simp

declare user_fields.simps [simp del]

definition hash_value_ok :: "string \<Rightarrow> bool" where
  "hash_value_ok v \<longleftrightarrow> length v = length ''RIHS01_'' + 64 \<and> starts_with v ''RIHS01_'' \<and>
     list_all hash_char_ok (drop (length ''RIHS01_'') v)"

text \<open>The first field with the key decides, well formed or not.\<close>

definition parse_type_hash :: "string \<Rightarrow> string" where
  "parse_type_hash user_data =
     (case find (\<lambda>f. starts_with f ''typehash='') (user_fields user_data) of
        None \<Rightarrow> []
      | Some f \<Rightarrow> (let v = drop (length ''typehash='') f in if hash_value_ok v then v else []))"

subsection \<open>Type names\<close>

text \<open>Every \<open>::\<close> becomes a slash, left to right.\<close>

fun colons_to_slash :: "string \<Rightarrow> string" where
  "colons_to_slash (c # d # s) =
     (if c = CHR '':'' \<and> d = CHR '':'' then CHR ''/'' # colons_to_slash s
      else c # colons_to_slash (d # s))"
| "colons_to_slash s = s"

definition demangle_type :: "string \<Rightarrow> string" where
  "demangle_type t =
     (case find_sub ''::dds_::'' t of
        None \<Rightarrow> []
      | Some pos \<Rightarrow>
          (if \<not> ends_with t ''_'' then []
           else colons_to_slash (take pos t) @ ''/'' @ butlast (drop (pos + length ''::dds_::'') t)))"

subsection \<open>Action members\<close>

record action_member =
  am_matched :: bool
  am_action :: string
  am_suffix :: string
  am_type_ok :: bool
  am_action_type :: string

definition action_member0 :: action_member where
  "action_member0 = \<lparr>am_matched = False, am_action = [], am_suffix = [], am_type_ok = False,
     am_action_type = []\<rparr>"

definition action_type_from :: "string \<Rightarrow> string \<Rightarrow> string" where
  "action_type_from t tail =
     (case find_sub ''::action::dds_::'' t of
        None \<Rightarrow> []
      | Some pos \<Rightarrow>
          (let pkg = take pos t; rest = drop (pos + length ''::action::dds_::'') t
           in if pkg = [] \<or> CHR '':'' \<in> set pkg then []
              else if \<not> ends_with rest tail \<or> length rest = length tail then []
              else pkg @ ''/action/'' @ take (length rest - length tail) rest))"

record member_spec =
  ms_suffix :: string
  ms_kind :: ros_entity_kind
  ms_type :: string
  ms_names_action :: bool

definition member :: "string \<Rightarrow> ros_entity_kind \<Rightarrow> string \<Rightarrow> bool \<Rightarrow> member_spec" where
  "member s k t n = \<lparr>ms_suffix = s, ms_kind = k, ms_type = t, ms_names_action = n\<rparr>"

definition kMembers :: "member_spec list" where
  "kMembers =
     [member ''send_goal'' ServiceRequest ''_SendGoal_Request_'' True,
      member ''send_goal'' ServiceReply ''_SendGoal_Response_'' True,
      member ''get_result'' ServiceRequest ''_GetResult_Request_'' True,
      member ''get_result'' ServiceReply ''_GetResult_Response_'' True,
      member ''feedback'' RosTopic ''_FeedbackMessage_'' True,
      member ''cancel_goal'' ServiceRequest ''action_msgs::srv::dds_::CancelGoal_Request_'' False,
      member ''cancel_goal'' ServiceReply ''action_msgs::srv::dds_::CancelGoal_Response_'' False,
      member ''status'' RosTopic ''action_msgs::msg::dds_::GoalStatusArray_'' False]"

definition kActionSep :: string where
  "kActionSep = ''/_action/''"

definition parse_action_member :: "string \<Rightarrow> string \<Rightarrow> action_member" where
  "parse_action_member topic ty =
     (let ros = demangle_topic topic; n = rn_name ros
      in if rn_kind ros = NotRos then action_member0
         else case rfind_sub kActionSep n of
           None \<Rightarrow> action_member0
         | Some sep \<Rightarrow>
             (if sep = 0 then action_member0
              else let suffix = drop (sep + length kActionSep) n
                   in if CHR ''/'' \<in> set suffix then action_member0
                      else case find (\<lambda>m. ms_kind m = rn_kind ros \<and> suffix = ms_suffix m) kMembers of
                        None \<Rightarrow> action_member0
                      | Some m \<Rightarrow>
                          (if ms_names_action m
                           then (let a = action_type_from ty (ms_type m)
                                 in \<lparr>am_matched = True, am_action = take sep n, am_suffix = suffix,
                                     am_type_ok = (a \<noteq> []), am_action_type = a\<rparr>)
                           else \<lparr>am_matched = True, am_action = take sep n, am_suffix = suffix,
                                 am_type_ok = (ty = ms_type m), am_action_type = []\<rparr>)))"

subsection \<open>Node names\<close>

definition kUnknownNodeName :: string where
  "kUnknownNodeName = ''_NODE_NAMESPACE_UNKNOWN_/_NODE_NAME_UNKNOWN_''"

definition normalize_node_name :: "string \<Rightarrow> string" where
  "normalize_node_name n = (if n = kUnknownNodeName then [] else n)"

definition fully_qualified_node_name :: "string \<Rightarrow> string \<Rightarrow> string" where
  "fully_qualified_node_name ns n = (if ns = [] \<or> ns = ''/'' then ''/'' @ n else ns @ ''/'' @ n)"

definition merge_node_name :: "string \<Rightarrow> string \<Rightarrow> string" where
  "merge_node_name graph_name discovery_name =
     (let n = normalize_node_name graph_name
      in if n = [] then normalize_node_name discovery_name else n)"

definition kGraphRefreshGraceSeconds :: double where
  "kGraphRefreshGraceSeconds = Fin 5"

definition should_refresh_graph :: "bool \<Rightarrow> nat \<Rightarrow> nat \<Rightarrow> double \<Rightarrow> bool" where
  "should_refresh_graph refreshed_before events events_at_last_refresh seconds_since_last_event \<longleftrightarrow>
     \<not> refreshed_before \<or> events \<noteq> events_at_last_refresh \<or>
     d_le seconds_since_last_event kGraphRefreshGraceSeconds"

type_synonym endpoint_gid = "u8 list"         \<comment> \<open>16 bytes\<close>
type_synonym participant_prefix = "u8 list"   \<comment> \<open>12 bytes\<close>

record node_entities =
  ne_namespace :: string
  ne_name :: string
  ne_reader_gids :: "endpoint_gid list"
  ne_writer_gids :: "endpoint_gid list"

type_synonym node_name_table = "(participant_prefix, (endpoint_gid, string) omap) omap"

text \<open>\<open>NodeNameTable::update\<close>: the participant's row is cleared and filled again.\<close>

definition node_gids :: "node_entities \<Rightarrow> (endpoint_gid \<times> string) list" where
  "node_gids n = map (\<lambda>g. (g, fully_qualified_node_name (ne_namespace n) (ne_name n)))
     (ne_reader_gids n @ ne_writer_gids n)"

definition nt_row :: "node_entities list \<Rightarrow> (endpoint_gid, string) omap" where
  "nt_row nodes = fold (\<lambda>(g, nm). om_put g nm) (concat (map node_gids nodes)) []"

definition nt_update ::
  "participant_prefix \<Rightarrow> node_entities list \<Rightarrow> node_name_table \<Rightarrow> node_name_table" where
  "nt_update p nodes table = om_put p (nt_row nodes) table"

fun nt_lookup :: "node_name_table \<Rightarrow> endpoint_gid \<Rightarrow> string" where
  "nt_lookup [] gid = []"
| "nt_lookup (kv # table) gid =
     (case om_get (snd kv) gid of Some nm \<Rightarrow> nm | None \<Rightarrow> nt_lookup table gid)"

definition announced_by_participant ::
  "node_name_table \<Rightarrow> (participant_prefix, endpoint_gid list) omap" where
  "announced_by_participant table = map (\<lambda>kv. (fst kv, map fst (snd kv))) table"

definition nt_size :: "node_name_table \<Rightarrow> nat" where
  "nt_size table = sum_list (map (\<lambda>kv. length (snd kv)) table)"

end
