(* ===== verification/Ros_Names_Props.thy ===== *)
theory Ros_Names_Props
  imports Ros_Names
begin

text \<open>
  Properties of the ROS name mangling: demangling inverts the rmw's mangling of topics and
  types, the type hash of a USER_DATA is the first well-formed one, every topic rcl_action
  creates is recognised as a member of its action, and the table of node names answers from
  the latest sample of a participant.
\<close>

subsection \<open>Topics\<close>

text \<open>What rmw_fastrtps makes of a ROS name: the spec the demangling inverts.\<close>

definition mangle :: "ros_name \<Rightarrow> string" where
  "mangle rn = (case rn_kind rn of
      RosTopic \<Rightarrow> ''rt'' @ rn_name rn
    | ServiceRequest \<Rightarrow> ''rq'' @ rn_name rn @ ''Request''
    | ServiceReply \<Rightarrow> ''rr'' @ rn_name rn @ ''Reply''
    | NotRos \<Rightarrow> rn_name rn)"

lemma no_overlap_request: "starts_with t ''rq/'' \<Longrightarrow> ends_with t ''Request'' \<Longrightarrow> \<exists>n. t = ''rq/'' @ n @ ''Request''"
proof -
  assume "starts_with t ''rq/''" "ends_with t ''Request''"
  then obtain u v where "t = ''rq/'' @ u" "t = v @ ''Request''"
    unfolding starts_with_iff ends_with_iff by blast
  then show ?thesis by (auto simp: append_eq_append_conv2 Cons_eq_append_conv append_eq_Cons_conv)
qed

lemma no_overlap_reply: "starts_with t ''rr/'' \<Longrightarrow> ends_with t ''Reply'' \<Longrightarrow> \<exists>n. t = ''rr/'' @ n @ ''Reply''"
proof -
  assume "starts_with t ''rr/''" "ends_with t ''Reply''"
  then obtain u v where "t = ''rr/'' @ u" "t = v @ ''Reply''"
    unfolding starts_with_iff ends_with_iff by blast
  then show ?thesis by (auto simp: append_eq_append_conv2 Cons_eq_append_conv append_eq_Cons_conv)
qed

lemma ends_with_Cons: "ends_with s p \<Longrightarrow> ends_with (c # s) p"
  by (auto simp: ends_with_iff)

lemma demangle_request: "demangle_topic (''rq/'' @ n @ ''Request'') = \<lparr>rn_kind = ServiceRequest, rn_name = ''/'' @ n\<rparr>"
  by (simp add: demangle_topic_def substr_def ends_with_Cons)

lemma demangle_reply: "demangle_topic (''rr/'' @ n @ ''Reply'') = \<lparr>rn_kind = ServiceReply, rn_name = ''/'' @ n\<rparr>"
  by (simp add: demangle_topic_def substr_def ends_with_Cons)

lemma demangle_rt: "demangle_topic (''rt/'' @ n) = \<lparr>rn_kind = RosTopic, rn_name = ''/'' @ n\<rparr>"
  by (simp add: demangle_topic_def)

lemma demangle_mangle:
  "k \<noteq> NotRos \<Longrightarrow> demangle_topic (mangle \<lparr>rn_kind = k, rn_name = ''/'' @ n\<rparr>) = \<lparr>rn_kind = k, rn_name = ''/'' @ n\<rparr>"
  using demangle_rt [of n] demangle_request [of n] demangle_reply [of n] by (cases k) (simp_all add: mangle_def)

lemma mangle_demangle:
  assumes "rn_kind (demangle_topic t) \<noteq> NotRos"
  shows "mangle (demangle_topic t) = t"
proof -
  consider n where "t = ''rt/'' @ n" | n where "t = ''rq/'' @ n @ ''Request''"
    | n where "t = ''rr/'' @ n @ ''Reply''"
    using assms no_overlap_request [of t] no_overlap_reply [of t]
    by (auto simp: demangle_topic_def starts_with_iff split: if_splits)
  then show ?thesis
    by cases (simp_all only: demangle_rt demangle_request demangle_reply, simp_all add: mangle_def)
qed

text \<open>
  \<open>demangle_topic\<close> inverts the rmw's mangling: a mangled topic, request or reply name comes
  back as its kind and ROS name, and a DDS name that demangles to a ROS name is the mangling
  of that name.
\<close>

theorem demangle_topic_roundtrip:
  "(rn_kind (demangle_topic t) \<noteq> NotRos \<longrightarrow> mangle (demangle_topic t) = t) \<and>
   (k \<noteq> NotRos \<longrightarrow>
     demangle_topic (mangle \<lparr>rn_kind = k, rn_name = ''/'' @ n\<rparr>) = \<lparr>rn_kind = k, rn_name = ''/'' @ n\<rparr>)"
  using mangle_demangle [of t] demangle_mangle [of k n] by blast

theorem demangle_topic_roundtrip_witness:
  "rn_kind (demangle_topic ''rq/addRequest'') = ServiceRequest \<and>
   mangle (demangle_topic ''rq/addRequest'') = ''rq/addRequest''"
proof -
  have "rn_kind (demangle_topic ''rq/addRequest'') = ServiceRequest"
    by (simp add: demangle_topic_def starts_with_def ends_with_def)
  then show ?thesis using demangle_topic_roundtrip [of "''rq/addRequest''" NotRos "[]"] by simp
qed

subsection \<open>Type hash\<close>

lemma fields_Cons:
  assumes "CHR '';'' \<notin> set f"
  shows "user_fields (f @ CHR '';'' # s) = f # user_fields s"
proof -
  have "takeWhile (\<lambda>c. c \<noteq> CHR '';'') (f @ CHR '';'' # s) = f"
    "dropWhile (\<lambda>c. c \<noteq> CHR '';'') (f @ CHR '';'' # s) = CHR '';'' # s"
    using assms by (induction f) auto
  then show ?thesis by (simp add: user_fields.simps [of "f @ CHR '';'' # s"])
qed

lemma fields_no_sep: "f \<in> set (user_fields s) \<Longrightarrow> CHR '';'' \<notin> set f"
proof (induction s rule: user_fields.induct)
  case (1 s)
  then show ?case
    by (subst (asm) (2) user_fields.simps) (auto split: if_splits dest: set_takeWhileD)
qed

lemma fields_append:
  "\<forall>f \<in> set fs. CHR '';'' \<notin> set f \<Longrightarrow> user_fields (concat (map (\<lambda>f. f @ '';'') fs) @ s) = fs @ user_fields s"
  by (induction fs) (simp_all add: fields_Cons)

lemma hash_value_ok_no_sep: "hash_value_ok v \<Longrightarrow> CHR '';'' \<notin> set v"
proof -
  assume v: "hash_value_ok v"
  then obtain r where r: "v = ''RIHS01_'' @ r" "list_all hash_char_ok r"
    by (auto simp: hash_value_ok_def starts_with_iff)
  have "\<not> hash_char_ok CHR '';''" by (simp add: hash_char_ok_def less_eq_char_def)
  with r(2) have "CHR '';'' \<notin> set r" by (auto simp: list_all_iff)
  with r(1) show ?thesis by simp
qed

lemma find_append_skip: "\<forall>x \<in> set xs. \<not> P x \<Longrightarrow> find P (xs @ ys) = find P ys"
  by (induction xs) auto

text \<open>
  \<open>parse_type_hash\<close> returns the hash the rmw wrote: behind any fields with other keys, a
  well-formed value under \<open>typehash\<close> is returned whatever follows it; and what it returns is
  empty or a well-formed hash that stands under that key in the USER_DATA.
\<close>

theorem parse_type_hash_correct:
  "(hash_value_ok v \<and> (\<forall>f \<in> set fs. CHR '';'' \<notin> set f \<and> \<not> starts_with f ''typehash='') \<longrightarrow>
     parse_type_hash (concat (map (\<lambda>f. f @ '';'') fs) @ ''typehash='' @ v @ '';'' @ rest) = v) \<and>
   (parse_type_hash u = [] \<or>
     hash_value_ok (parse_type_hash u) \<and> ''typehash='' @ parse_type_hash u \<in> set (user_fields u))"
proof (intro conjI impI)
  assume a: "hash_value_ok v \<and> (\<forall>f \<in> set fs. CHR '';'' \<notin> set f \<and> \<not> starts_with f ''typehash='')"
  have "user_fields ((''typehash='' @ v) @ CHR '';'' # rest) = (''typehash='' @ v) # user_fields rest"
    by (rule fields_Cons) (simp add: a hash_value_ok_no_sep)
  moreover have "user_fields (concat (map (\<lambda>f. f @ '';'') fs) @ ((''typehash='' @ v) @ CHR '';'' # rest))
      = fs @ user_fields ((''typehash='' @ v) @ CHR '';'' # rest)"
    using a by (intro fields_append) blast
  ultimately have "user_fields (concat (map (\<lambda>f. f @ '';'') fs) @ ''typehash='' @ v @ '';'' @ rest)
      = fs @ (''typehash='' @ v) # user_fields rest" by simp
  moreover have "find (\<lambda>f. starts_with f ''typehash='') (fs @ (''typehash='' @ v) # user_fields rest)
      = Some (''typehash='' @ v)"
    using a by (subst find_append_skip) auto
  ultimately show "parse_type_hash (concat (map (\<lambda>f. f @ '';'') fs) @ ''typehash='' @ v @ '';'' @ rest) = v"
    using a by (simp add: parse_type_hash_def Let_def del: append_Cons)
next
  show "parse_type_hash u = [] \<or>
     hash_value_ok (parse_type_hash u) \<and> ''typehash='' @ parse_type_hash u \<in> set (user_fields u)"
    by (auto simp: parse_type_hash_def Let_def find_Some_iff starts_with_iff in_set_conv_nth
        split: option.split)
qed

theorem parse_type_hash_correct_witness:
  "parse_type_hash (''enclave=/;'' @ ''typehash='' @ (''RIHS01_'' @ replicate 64 CHR ''a'') @ '';'') =
     ''RIHS01_'' @ replicate 64 CHR ''a''"
proof -
  have "hash_value_ok (''RIHS01_'' @ replicate 64 CHR ''a'')"
    by (simp add: hash_value_ok_def starts_with_def hash_char_ok_def list_all_iff less_eq_char_def)
  then show ?thesis
    using parse_type_hash_correct [of "''RIHS01_'' @ replicate 64 CHR ''a''" "[''enclave=/'']" "[]" "[]"]
    by (simp add: starts_with_def)
qed

subsection \<open>Type names\<close>

lemma find_sub_first:
  "\<forall>k < length u. \<not> starts_with (drop k (u @ pat @ v)) pat \<Longrightarrow> find_sub pat (u @ pat @ v) = Some (length u)"
proof (induction u)
  case Nil
  have "starts_with (pat @ v) pat" by simp
  then show ?case by (cases "pat @ v") (simp_all)
next
  case (Cons c u)
  have "\<not> starts_with (c # u @ pat @ v) pat" using Cons.prems [rule_format, of 0] by simp
  moreover have "find_sub pat (u @ pat @ v) = Some (length u)"
    using Cons.prems by (intro Cons.IH) (metis Suc_less_eq append_Cons drop_Suc_Cons length_Cons)
  ultimately show ?case by simp
qed

lemma find_sub_skip:
  assumes "CHR '':'' \<notin> set u"
  shows "find_sub (CHR '':'' # p) (u @ s) =
    (case find_sub (CHR '':'' # p) s of None \<Rightarrow> None | Some i \<Rightarrow> Some (length u + i))"
  using assms by (induction u) (auto split: option.splits)

lemma colons_to_slash_id: "CHR '':'' \<notin> set u \<Longrightarrow> colons_to_slash u = u"
  by (induction u rule: colons_to_slash.induct) auto

lemma colons_to_slash_skip:
  "CHR '':'' \<notin> set u \<Longrightarrow> colons_to_slash (u @ ''::'' @ s) = u @ ''/'' @ colons_to_slash s"
proof (induction u)
  case Nil
  then show ?case by simp
next
  case (Cons c u)
  then show ?case by (cases u) auto
qed

lemma not_dds: "CHR '':'' \<notin> set ns \<Longrightarrow> ns \<noteq> ''dds_'' \<Longrightarrow> \<not> starts_with (ns @ ''::'' @ s) ''dds_::''"
proof
  assume a: "CHR '':'' \<notin> set ns" "ns \<noteq> ''dds_''" and "starts_with (ns @ ''::'' @ s) ''dds_::''"
  then obtain r where r: "ns @ ''::'' @ s = ''dds_'' @ ''::'' @ r"
    by (auto simp: starts_with_iff)
  have "takeWhile (\<lambda>c. c \<noteq> CHR '':'') (ns @ ''::'' @ s) = ns" using a(1) by (induction ns) auto
  moreover have "takeWhile (\<lambda>c. c \<noteq> CHR '':'') (''dds_'' @ ''::'' @ r) = ''dds_''" by simp
  ultimately show False using a(2) r by metis
qed

text \<open>
  A ROS type name survives the rmw's mangling: \<open>pkg::ns::dds_::Name_\<close> demangles to
  \<open>pkg/ns/Name\<close>, for every package and namespace without a colon (and a namespace other than
  \<open>dds_\<close> itself).
\<close>

theorem demangle_type_roundtrip:
  assumes "CHR '':'' \<notin> set pkg" "CHR '':'' \<notin> set ns" "ns \<noteq> ''dds_''"
  shows "demangle_type (pkg @ ''::'' @ ns @ ''::dds_::'' @ nm @ ''_'') = pkg @ ''/'' @ ns @ ''/'' @ nm"
proof -
  let ?p = "CHR '':'' # '':dds_::''"
  have "starts_with (''::dds_::'' @ nm @ ''_'') ?p" by simp
  then have d: "find_sub ?p (''::dds_::'' @ nm @ ''_'') = Some 0" by simp
  have "\<not> starts_with (ns @ ''::dds_::'' @ nm @ ''_'') ''dds_::''"
    using not_dds [OF assms(2,3), of "''dds_::'' @ nm @ ''_''"] by simp
  moreover have "\<not> starts_with (ns @ ''::dds_::'' @ nm @ ''_'') (CHR '':'' # x)" if "x \<noteq> ''''" "hd x \<noteq> CHR '':''" for x
    using assms(2) that by (cases ns; cases x) auto
  ultimately have f: "find_sub ?p (''::'' @ ns @ ''::dds_::'' @ nm @ ''_'') = Some (2 + length ns)"
    using find_sub_skip [OF assms(2), of "'':dds_::''" "''::dds_::'' @ nm @ ''_''"] d by simp
  have "find_sub ?p (pkg @ ''::'' @ ns @ ''::dds_::'' @ nm @ ''_'') = Some (length pkg + (2 + length ns))"
    using find_sub_skip [OF assms(1), of "'':dds_::''" "''::'' @ ns @ ''::dds_::'' @ nm @ ''_''"] f by simp
  moreover have "ends_with (pkg @ ''::'' @ ns @ ''::dds_::'' @ nm @ ''_'') ''_''"
    using ends_with_append [of "pkg @ ''::'' @ ns @ ''::dds_::'' @ nm" "''_''"] by simp
  moreover have "colons_to_slash (pkg @ ''::'' @ ns) = pkg @ ''/'' @ ns"
    using colons_to_slash_skip [OF assms(1), of ns] colons_to_slash_id [OF assms(2)] by simp
  moreover have "drop (length pkg + (2 + length ns) + length ''::dds_::'')
      (pkg @ ''::'' @ ns @ ''::dds_::'' @ nm @ ''_'') = nm @ ''_''"
    using append_eq_conv_conj [of "pkg @ ''::'' @ ns @ ''::dds_::''" "nm @ ''_''"
        "pkg @ ''::'' @ ns @ ''::dds_::'' @ nm @ ''_''"] by (simp add: numeral_eq_Suc)
  moreover have "take (length pkg + (2 + length ns)) (pkg @ ''::'' @ ns @ ''::dds_::'' @ nm @ ''_'')
      = pkg @ ''::'' @ ns"
    by simp
  ultimately show ?thesis
    unfolding demangle_type_def by (simp only: option.case simp_thms if_False butlast_append) simp
qed

theorem demangle_type_roundtrip_witness:
  "demangle_type ''std_msgs::msg::dds_::String_'' = ''std_msgs/msg/String''"
  using demangle_type_roundtrip [of "''std_msgs''" "''msg''" "''String''"] by simp

subsection \<open>Actions\<close>

lemma kMembers_suffix:
  "m \<in> set kMembers \<Longrightarrow> ms_suffix m \<in> {''send_goal'', ''get_result'', ''feedback'', ''cancel_goal'', ''status''}"
  by (auto simp: kMembers_def member_def)

lemma suffix_no_sep:
  assumes "x \<in> {''send_goal'', ''get_result'', ''feedback'', ''cancel_goal'', ''status''}"
  shows "find_sub kActionSep (tl (kActionSep @ x)) = None" and "CHR ''/'' \<notin> set x"
  using assms by (elim insertE emptyE; simp add: kActionSep_def)+

lemma find_member:
  assumes "m \<in> set kMembers"
  shows "find (\<lambda>m'. ms_kind m' = ms_kind m \<and> ms_suffix m = ms_suffix m') kMembers = Some m"
  using assms unfolding kMembers_def member_def set_simps
  by (elim insertE emptyE; simp)

text \<open>
  The topics rcl_action creates are recognised: for every action name and every one of the
  eight members, the mangled name of \<open><action>/_action/<suffix>\<close> is a member of that action
  with that suffix, also where the action name contains the separator itself.
\<close>

theorem parse_action_member_complete:
  assumes "m \<in> set kMembers"
  shows "let am = parse_action_member
           (mangle \<lparr>rn_kind = ms_kind m, rn_name = (''/'' @ a) @ ''/_action/'' @ ms_suffix m\<rparr>) ty
    in am_matched am \<and> am_action am = ''/'' @ a \<and> am_suffix am = ms_suffix m"
proof -
  let ?n = "(''/'' @ a) @ kActionSep @ ms_suffix m"
  have k: "ms_kind m \<noteq> NotRos" using assms by (auto simp: kMembers_def member_def)
  have d: "demangle_topic (mangle \<lparr>rn_kind = ms_kind m, rn_name = ?n\<rparr>) = \<lparr>rn_kind = ms_kind m, rn_name = ?n\<rparr>"
    using demangle_mangle [OF k, of "a @ kActionSep @ ms_suffix m"] by simp
  have "kActionSep \<noteq> []" by (simp add: kActionSep_def)
  then have r: "rfind_sub kActionSep ?n = Some (Suc (length a))"
    using rfind_sub_last [OF _ suffix_no_sep(1) [OF kMembers_suffix [OF assms]], of "''/'' @ a"] by simp
  have s: "drop (Suc (length a) + length kActionSep) ?n = ms_suffix m"
    "take (Suc (length a)) ?n = ''/'' @ a" by simp_all
  have "CHR ''/'' \<notin> set (ms_suffix m)" using suffix_no_sep(2) [OF kMembers_suffix [OF assms]] .
  then show ?thesis
    using d k r s find_member [OF assms]
    unfolding kActionSep_def [symmetric]
    by (simp add: parse_action_member_def Let_def)
qed

theorem parse_action_member_complete_witness:
  "am_action (parse_action_member ''rt/fib/_action/feedback'' ''x'') = ''/fib''"
proof -
  have "member ''feedback'' RosTopic ''_FeedbackMessage_'' True \<in> set kMembers"
    by (simp add: kMembers_def)
  from parse_action_member_complete [OF this, of "''fib''" "''x''"] show ?thesis
    by (simp add: Let_def member_def mangle_def)
qed

subsection \<open>Node names\<close>

lemma fold_put_get:
  "om_ok m \<Longrightarrow> om_ok (fold (\<lambda>(k, v). om_put k v) xs m) \<and>
   om_get (fold (\<lambda>(k, v). om_put k v) xs m) k =
     (case map_of (rev xs) k of Some v \<Rightarrow> Some v | None \<Rightarrow> om_get m k)"
proof (induction xs arbitrary: m)
  case Nil
  then show ?case by simp
next
  case (Cons x xs)
  obtain a b where x: "x = (a, b)" by (cases x)
  have "om_ok (om_put a b m)" using Cons.prems by simp
  then show ?case using Cons.IH [of "om_put a b m"] Cons.prems
    by (auto simp: x map_add_def split: option.splits)
qed

lemma nt_row_get: "om_get (nt_row nodes) g = map_of (rev (concat (map node_gids nodes))) g"
  using fold_put_get [of "[]" "concat (map node_gids nodes)" g]
  by (simp add: nt_row_def split: option.splits)

lemma nt_row_ok: "om_ok (nt_row nodes)"
  using fold_put_get [of "[]" "concat (map node_gids nodes)"] by (simp add: nt_row_def)

lemma nt_lookup_only:
  "distinct (map fst T) \<Longrightarrow> (p, row) \<in> set T \<Longrightarrow>
   (\<forall>q r. (q, r) \<in> set T \<longrightarrow> q \<noteq> p \<longrightarrow> om_get r g = None) \<Longrightarrow>
   nt_lookup T g = (case om_get row g of Some nm \<Rightarrow> nm | None \<Rightarrow> [])"
proof (induction T)
  case Nil
  then show ?case by simp
next
  case (Cons kv T)
  obtain q r where kv: "kv = (q, r)" by (cases kv)
  have none: "nt_lookup T g = []" if "\<forall>q r. (q, r) \<in> set T \<longrightarrow> om_get r g = None"
    using that
  proof (induction T)
    case (Cons kv T)
    obtain q r where "kv = (q, r)" by (cases kv)
    with Cons show ?case by auto
  qed simp
  show ?case
  proof (cases "q = p")
    case True
    then have "r = row" "\<forall>q' r'. (q', r') \<in> set T \<longrightarrow> q' \<noteq> p"
      using Cons.prems(1,2) kv by (auto simp: image_iff)
    then show ?thesis using Cons.prems(3) none kv True by (fastforce split: option.split)
  next
    case False
    then have "om_get r g = None" "(p, row) \<in> set T" using Cons.prems(2,3) kv by auto
    then show ?thesis using Cons kv by auto
  qed
qed

lemma om_put_entry: "om_ok m \<Longrightarrow> (k, v) \<in> set (om_put j w m) \<longleftrightarrow> (if k = j then v = w else (k, v) \<in> set m)"
  by (metis (no_types, lifting) map_of_eq_Some_iff om_get_put om_ok_distinct om_ok_put option.inject)

text \<open>
  After a participant's \<open>ros_discovery_info\<close> sample, the node of an endpoint no other
  participant announces is the one the sample names last for it, and an endpoint the sample
  no longer lists has no node: the sample replaces everything the participant said before.
\<close>

theorem nt_update_lookup:
  assumes "om_ok table" and "\<forall>q row. (q, row) \<in> set table \<and> q \<noteq> p \<longrightarrow> om_get row gid = None"
  shows "nt_lookup (nt_update p nodes table) gid =
    (case map_of (rev (concat (map node_gids nodes))) gid of Some nm \<Rightarrow> nm | None \<Rightarrow> [])"
proof -
  have "nt_lookup (nt_update p nodes table) gid =
      (case om_get (nt_row nodes) gid of Some nm \<Rightarrow> nm | None \<Rightarrow> [])"
    unfolding nt_update_def
  proof (rule nt_lookup_only)
    show "distinct (map fst (om_put p (nt_row nodes) table))" using assms(1) by (simp add: om_ok_distinct)
    show "(p, nt_row nodes) \<in> set (om_put p (nt_row nodes) table)" using assms(1) by (simp add: om_put_entry)
    show "\<forall>q r. (q, r) \<in> set (om_put p (nt_row nodes) table) \<longrightarrow> q \<noteq> p \<longrightarrow> om_get r gid = None"
      using assms by (simp add: om_put_entry)
  qed
  then show ?thesis by (simp add: nt_row_get)
qed

theorem nt_update_lookup_witness:
  "nt_lookup (nt_update [1] [\<lparr>ne_namespace = ''/'', ne_name = ''talker'', ne_reader_gids = [], ne_writer_gids = [[7]]\<rparr>]
     [([1], [([8], ''/old'')])]) [7] = ''/talker''"
  using nt_update_lookup [of "[([1::u8], [([8::u8], ''/old'')])]" "[1]" "[7]"
      "[\<lparr>ne_namespace = ''/'', ne_name = ''talker'', ne_reader_gids = [], ne_writer_gids = [[7]]\<rparr>]"]
  by (simp add: om_ok_def node_gids_def fully_qualified_node_name_def)

end
