(* ===== verification/Model.thy ===== *)
theory Model
  imports Ordered_Map Double
begin

text \<open>
  The data model shared by the observers, the decision logic and the renderers
  (\<open>include/fastdds_transport_viz/model.hpp\<close>) and the spellings of its enumerations
  (\<open>src/model.cpp\<close>). A struct is a record with the code's default member values as the
  constant named \<open><record>0\<close>; a \<open>const Endpoint *\<close> is the index of the endpoint in the
  snapshot's \<open>endpoints\<close> vector.
\<close>

subsection \<open>Locators and endpoints\<close>

datatype locator_kind = LocInvalid | LocUDPv4 | LocUDPv6 | LocTCPv4 | LocTCPv6 | LocSHM

record locator =
  loc_kind :: locator_kind
  loc_address :: string
  loc_port :: u32

definition locator0 :: locator where
  "locator0 = \<lparr>loc_kind = LocInvalid, loc_address = [], loc_port = 0\<rparr>"

datatype data_sharing_kind = DsUnknown | DsOff | DsOn | DsAuto

record endpoint_qos =
  reliability :: string
  durability :: string
  data_sharing :: data_sharing_kind
  data_sharing_domains :: "u64 list"
  deadline_s :: double
  liveliness :: string
  liveliness_lease_s :: double
  ownership :: string
  partitions :: "string list"

definition endpoint_qos0 :: endpoint_qos where
  "endpoint_qos0 = \<lparr>reliability = [], durability = [], data_sharing = DsUnknown,
     data_sharing_domains = [], deadline_s = PInf, liveliness = ''AUTOMATIC'',
     liveliness_lease_s = PInf, ownership = ''SHARED'', partitions = []\<rparr>"

type_synonym host_id = "u8 list" \<comment> \<open>4 bytes\<close>

datatype shm_visibility = Unprobed | Visible | NotVisible

datatype port_lock = LockUnprobed | LockHeld | LockOwn | LockAbsent | LockStale | LockUnknown

record shm_port =
  sp_port :: u32
  sp_lock :: port_lock
  sp_announced_by :: nat
  sp_proof :: bool

record participant =
  pt_guid_prefix :: string
  pt_host_id :: host_id
  pt_host_name :: string
  pt_own :: bool
  pt_shm_ports :: "shm_port list"
  pt_shm_visibility :: shm_visibility
  pt_discovery_protocol :: string
  pt_name :: string
  pt_vendor :: string
  pt_metatraffic_locators :: "locator list"
  pt_discovery_server :: "string option"

record participant_data =
  pd_host_id :: host_id
  pd_discovery_protocol :: string
  pd_name :: string
  pd_vendor :: string
  pd_metatraffic_locators :: "locator list"

record endpoint =
  is_writer :: bool
  guid :: string
  guid_bytes :: "u8 list" \<comment> \<open>16 bytes\<close>
  ep_host_id :: host_id
  participant_guid_prefix :: string
  dds_topic :: string
  dds_type :: string
  ros_topic :: string
  ros_type :: string
  type_hash :: string
  type_information_hash :: string
  type_information_minimal_hash :: string
  node_name :: string
  host_name :: string
  process :: string
  unicast :: "locator list"
  multicast :: "locator list"
  qos :: endpoint_qos
  same_host_locators_filtered :: bool
  datasharing_history_available :: bool
  datasharing_history_bytes :: u64
  participant_shm_ports :: "u32 set"
  participant_shm_visibility :: shm_visibility
  datasharing_segment_visibility :: shm_visibility
  buffer_parent_guid :: string
  buffer_companion_guids :: "string list"

definition endpoint0 :: endpoint where
  "endpoint0 = \<lparr>is_writer = False, guid = [], guid_bytes = replicate 16 0,
     ep_host_id = replicate 4 0, participant_guid_prefix = [], dds_topic = [], dds_type = [],
     ros_topic = [], ros_type = [], type_hash = [], type_information_hash = [],
     type_information_minimal_hash = [], node_name = [], host_name = [], process = [],
     unicast = [], multicast = [], qos = endpoint_qos0, same_host_locators_filtered = False,
     datasharing_history_available = False, datasharing_history_bytes = 0,
     participant_shm_ports = {}, participant_shm_visibility = Unprobed,
     datasharing_segment_visibility = Unprobed, buffer_parent_guid = [],
     buffer_companion_guids = []\<rparr>"

type_synonym ep_ref = nat \<comment> \<open>a \<open>const Endpoint *\<close> into the snapshot's vector\<close>

subsection \<open>Verdicts and measurements\<close>

datatype transport = UDPv4 | UDPv6 | TCPv4 | TCPv6 | SHM | DataSharing | NoTransport

datatype confidence = Certain | Likely

datatype topic_kind = TkTopic | TkService | TkAction | TkOther

datatype group_direction = DirNone | ToServer | ToClient

record verdict =
  v_transport :: transport
  v_confidence :: confidence
  v_locator :: locator
  v_locator_multicast :: bool
  v_reasons :: "string list"
  v_warnings :: "string list"

definition verdict0 :: verdict where
  "verdict0 = \<lparr>v_transport = NoTransport, v_confidence = Certain, v_locator = locator0,
     v_locator_multicast = False, v_reasons = [], v_warnings = []\<rparr>"

record latency_stat =
  lat_sum :: double
  lat_min :: double
  lat_max :: double
  lat_last :: double
  lat_samples :: u64

definition latency_stat0 :: latency_stat where
  "latency_stat0 = \<lparr>lat_sum = Fin 0, lat_min = PInf, lat_max = NInf, lat_last = Fin 0,
     lat_samples = 0\<rparr>"

definition lat_mean :: "latency_stat \<Rightarrow> double" where
  "lat_mean l = (if lat_samples l \<noteq> 0 then d_div (lat_sum l) (d_of_nat (unat (lat_samples l)))
     else Fin 0)"

definition lat_add :: "latency_stat \<Rightarrow> double \<Rightarrow> latency_stat" where
  "lat_add l v = \<lparr>lat_sum = d_add (lat_sum l) v,
     lat_min = (if d_lt v (lat_min l) then v else lat_min l),
     lat_max = (if d_lt (lat_max l) v then v else lat_max l),
     lat_last = v, lat_samples = lat_samples l + 1\<rparr>"

record reliability_stat =
  rel_available :: bool
  rel_lost_available :: bool
  rel_lost_packets :: u64
  rel_resent :: u64
  rel_heartbeats :: u64
  rel_gaps :: u64
  rel_acknacks :: u64
  rel_nackfrags :: u64

definition reliability_stat0 :: reliability_stat where
  "reliability_stat0 = \<lparr>rel_available = False, rel_lost_available = False, rel_lost_packets = 0,
     rel_resent = 0, rel_heartbeats = 0, rel_gaps = 0, rel_acknacks = 0, rel_nackfrags = 0\<rparr>"

record measured_locator =
  ml_locator :: locator
  ml_packets :: u64
  ml_bytes :: double

record measurement =
  m_available :: bool
  m_transports :: "transport list"
  m_locators :: "measured_locator list"
  m_packets :: u64
  m_bytes :: double
  m_packets_total :: u64
  m_bytes_total :: double
  m_latency_available :: bool
  m_latency :: latency_stat
  m_delivered :: bool
  m_delivered_samples :: u64
  m_rate_available :: bool
  m_delivered_per_s :: double
  m_rate_lower_bound :: bool
  m_rate_window_s :: double
  m_reliability :: reliability_stat
  m_data_count_available :: bool
  m_data_submessages :: u64

definition measurement0 :: measurement where
  "measurement0 = \<lparr>m_available = False, m_transports = [], m_locators = [], m_packets = 0,
     m_bytes = Fin 0, m_packets_total = 0, m_bytes_total = Fin 0, m_latency_available = False,
     m_latency = latency_stat0, m_delivered = False, m_delivered_samples = 0,
     m_rate_available = False, m_delivered_per_s = Fin 0, m_rate_lower_bound = False,
     m_rate_window_s = Fin 0, m_reliability = reliability_stat0,
     m_data_count_available = False, m_data_submessages = 0\<rparr>"

record pair =
  p_writer :: ep_ref
  p_reader :: ep_ref
  p_verdict :: verdict
  p_measured :: measurement

record topic_summary =
  t_dds_topic :: string
  t_display_topic :: string
  t_display_type :: string
  t_dds_type :: string
  t_is_ros_topic :: bool
  t_kind :: topic_kind
  t_group :: string
  t_direction :: group_direction
  t_writers :: "ep_ref list"
  t_readers :: "ep_ref list"
  t_pairs :: "pair list"
  t_unmatched_reasons :: "string list"
  t_latency_available :: bool
  t_latency :: double
  t_reliability_available :: bool
  t_lost_available :: bool
  t_lost_packets :: u64
  t_resent :: u64

definition topic_summary0 :: topic_summary where
  "topic_summary0 = \<lparr>t_dds_topic = [], t_display_topic = [], t_display_type = [],
     t_dds_type = [], t_is_ros_topic = False, t_kind = TkOther, t_group = [],
     t_direction = DirNone, t_writers = [], t_readers = [], t_pairs = [],
     t_unmatched_reasons = [], t_latency_available = False, t_latency = Fin 0,
     t_reliability_available = False, t_lost_available = False, t_lost_packets = 0,
     t_resent = 0\<rparr>"

end
