(* ===== verification/Snapshot_Model.thy ===== *)
theory Snapshot_Model
  imports Model
begin

text \<open>
  The second half of \<open>model.hpp\<close>: the statistics data (\<open>--stats\<close>), the shared-memory figures,
  the frame-to-frame changes, the completeness of an observation and the snapshot that holds
  them all. \<open>std::map\<close> members are \<open>omap\<close>s; the sets of the statistics data are only tested
  for membership and are HOL sets.
\<close>

subsection \<open>Statistics\<close>

record host_info =
  hi_host :: string
  hi_user :: string
  hi_process :: string

record traffic_sample =
  src_participant_prefix :: string
  ts_dst :: locator
  ts_packets :: u64
  ts_bytes :: double
  ts_packets_first :: u64
  ts_bytes_first :: double
  ts_samples :: u64
  reporter_participant_prefix :: string

definition traffic_sample0 :: traffic_sample where
  "traffic_sample0 = \<lparr>src_participant_prefix = [], ts_dst = locator0, ts_packets = 0,
     ts_bytes = Fin 0, ts_packets_first = 0, ts_bytes_first = Fin 0, ts_samples = 0,
     reporter_participant_prefix = []\<rparr>"

record data_count_sample =
  dc_first :: u64
  dc_last :: u64
  dc_samples :: u64

definition data_count_sample0 :: data_count_sample where
  "data_count_sample0 = \<lparr>dc_first = 0, dc_last = 0, dc_samples = 0\<rparr>"

definition kStatsDataCountTopic :: string where
  "kStatsDataCountTopic = ''_fastdds_statistics_data_count''"

definition kStatsRtpsLostTopic :: string where
  "kStatsRtpsLostTopic = ''_fastdds_statistics_rtps_lost''"

record delivery_window =
  dw_samples :: u64
  dw_first_s :: double
  dw_last_s :: double

definition delivery_window0 :: delivery_window where
  "delivery_window0 = \<lparr>dw_samples = 0, dw_first_s = Fin 0, dw_last_s = Fin 0\<rparr>"

record stats_data =
  enabled :: bool
  physical :: "(string, host_info) omap"
  traffic :: "traffic_sample list"
  delivered :: "(string \<times> string, u64) omap"
  latency :: "(string \<times> string, latency_stat) omap"
  delivery_windows :: "(string \<times> string, delivery_window) omap"
  latency_gaps :: "(string, u64) omap"
  rate_window_s :: double
  data_count :: "(string, data_count_sample) omap"
  lost :: "traffic_sample list"
  resent_datas :: "(string, data_count_sample) omap"
  heartbeats :: "(string, data_count_sample) omap"
  gaps :: "(string, data_count_sample) omap"
  acknacks :: "(string, data_count_sample) omap"
  nackfrags :: "(string, data_count_sample) omap"
  statistics_writers :: "(string \<times> string) set"
  participants_with_stats :: "string set"
  local_addresses :: "string set"
  writer_instance_limit :: bool
  samples :: u64
  samples_lost :: u64
  samples_lost_latency :: u64
  samples_lost_at_start :: u64
  samples_rejected :: u64
  writers_incompatible_qos :: u64
  writers_announced :: u64
  writers_heard :: u64
  measured_instances :: u64
  measurable_pairs :: u64
  settled :: bool
  settled_at_s :: double
  pairs_delivered :: u64
  pairs_delivered_unmeasured :: u64
  pairs_delivered_absent :: u64
  stats_warnings :: "string list"

definition stats_data0 :: stats_data where
  "stats_data0 = \<lparr>enabled = False, physical = [], traffic = [], delivered = [], latency = [],
     delivery_windows = [], latency_gaps = [], rate_window_s = Fin 0, data_count = [],
     lost = [], resent_datas = [], heartbeats = [], gaps = [], acknacks = [], nackfrags = [],
     statistics_writers = {}, participants_with_stats = {}, local_addresses = {},
     writer_instance_limit = True, samples = 0, samples_lost = 0, samples_lost_latency = 0,
     samples_lost_at_start = 0, samples_rejected = 0, writers_incompatible_qos = 0,
     writers_announced = 0, writers_heard = 0, measured_instances = 0, measurable_pairs = 0,
     settled = False, settled_at_s = Fin (- 1), pairs_delivered = 0,
     pairs_delivered_unmeasured = 0, pairs_delivered_absent = 0, stats_warnings = []\<rparr>"

subsection \<open>Shared memory of the tool's environment\<close>

record shm_info =
  shm_available :: bool
  shm_path :: string
  total_bytes :: u64
  used_bytes :: u64
  free_bytes :: u64
  fastdds_bytes :: u64
  segments :: u64
  stale_segments :: u64
  ports :: u64
  stale_ports :: u64
  datasharing_histories :: u64
  datasharing_unmatched :: u64
  datasharing_notifications :: u64
  checked_ports :: "u32 list"
  missing_ports :: "u32 list"
  unknown_ports :: "u32 list"
  port_locks :: "(u32, port_lock) omap"
  other_host_participants :: u64
  nodes_visible :: bool
  shm_warnings :: "string list"
  datasharing_by_writer :: "(string, u64) omap"
  datasharing_notification_readers :: "string set"
  shm_listed :: bool

definition shm_info0 :: shm_info where
  "shm_info0 = \<lparr>shm_available = False, shm_path = [], total_bytes = 0, used_bytes = 0,
     free_bytes = 0, fastdds_bytes = 0, segments = 0, stale_segments = 0, ports = 0,
     stale_ports = 0, datasharing_histories = 0, datasharing_unmatched = 0,
     datasharing_notifications = 0, checked_ports = [], missing_ports = [],
     unknown_ports = [], port_locks = [], other_host_participants = 0, nodes_visible = True,
     shm_warnings = [], datasharing_by_writer = [], datasharing_notification_readers = {},
     shm_listed = False\<rparr>"

subsection \<open>Frame-to-frame changes\<close>

record pair_key =
  pk_topic :: string
  pk_writer_guid :: string
  pk_reader_guid :: string
  pk_writer_node :: string
  pk_reader_node :: string

text \<open>
  \<open>PairKey::operator<\<close> and \<open>operator==\<close> look at the topic and the two GUIDs only, so a
  \<open>std::map<PairKey, V>\<close> is ordered and looked up by this identity.
\<close>

definition pk_ident :: "pair_key \<Rightarrow> string \<times> string \<times> string" where
  "pk_ident k = (pk_topic k, pk_writer_guid k, pk_reader_guid k)"

record pair_state =
  ps_transport :: transport
  ps_confidence :: confidence
  ps_measured :: "transport list"
  ps_locator :: locator
  ps_measured_locators :: "locator list"
  ps_warnings :: "string list"

record pair_change =
  pc_key :: pair_key
  pc_from :: pair_state
  pc_to :: pair_state
  pc_before_key :: pair_key

datatype key_mode = KmGuid | KmNode

record snapshot_ref =
  sr_observed_at :: string
  sr_domain :: int

record changes =
  ch_added :: "pair_key list"
  ch_removed :: "pair_key list"
  ch_changed :: "pair_change list"
  ch_key :: key_mode
  ch_before :: "snapshot_ref option"

definition changes0 :: changes where
  "changes0 = \<lparr>ch_added = [], ch_removed = [], ch_changed = [], ch_key = KmGuid,
     ch_before = None\<rparr>"

definition ch_empty :: "changes \<Rightarrow> bool" where
  "ch_empty c \<longleftrightarrow> ch_added c = [] \<and> ch_removed c = [] \<and> ch_changed c = []"

subsection \<open>Completeness of the observation and the snapshot\<close>

record discovery_status =
  ds_complete :: "bool option"
  ds_stopped_on :: string
  ds_events :: nat
  ds_endpoints :: nat
  announced_not_discovered :: nat
  participants_incomplete :: nat
  announced_by_incomplete :: nat
  ds_observer_protocol :: string
  ds_discovery_servers :: "locator list"
  ds_discovery_server_env :: string
  ds_easy_mode :: string

definition discovery_status0 :: discovery_status where
  "discovery_status0 = \<lparr>ds_complete = None, ds_stopped_on = [], ds_events = 0,
     ds_endpoints = 0, announced_not_discovered = 0, participants_incomplete = 0,
     announced_by_incomplete = 0, ds_observer_protocol = ''SIMPLE'',
     ds_discovery_servers = [], ds_discovery_server_env = [], ds_easy_mode = []\<rparr>"

record snapshot =
  sn_domain :: int
  sn_observed_at :: string
  sn_observation_seconds :: double
  sn_local_host_id :: host_id
  sn_endpoints :: "endpoint list"
  sn_participants :: "participant list"
  sn_topics :: "topic_summary list"
  sn_stats :: stats_data
  sn_shm :: shm_info
  sn_discovery :: discovery_status
  sn_has_changes :: bool
  sn_changes :: changes

end
