(* ===== verification/Decide.thy ===== *)
theory Decide
  imports Snapshot_Model
begin

text \<open>
  The prediction (\<open>src/decision.cpp\<close>, \<open>decide\<close> and what it calls): which transport Fast DDS
  uses between a discovered writer and reader, and why. \<open>fnmatch(3)\<close> belongs to the C library
  of the host and is the parameter \<open>fnm\<close>: \<open>fnm p s\<close> holds where \<open>fnmatch(p, s, 0) == 0\<close>.
  The theory states what a verdict promises about the two endpoints for each transport, and
  an abstract decision table the code refines.
\<close>

subsection \<open>Locators\<close>

definition has_kind :: "endpoint \<Rightarrow> locator_kind \<Rightarrow> bool" where
  "has_kind e k \<longleftrightarrow> list_ex (\<lambda>l. loc_kind l = k) (unicast e) \<or>
     list_ex (\<lambda>l. loc_kind l = k) (multicast e)"

definition find_locator :: "endpoint \<Rightarrow> locator_kind \<Rightarrow> locator option" where
  "find_locator e k =
     (case find (\<lambda>l. loc_kind l = k) (unicast e) of
        Some l \<Rightarrow> Some l
      | None \<Rightarrow> find (\<lambda>l. loc_kind l = k) (multicast e))"

definition network_kinds :: "locator_kind list" where
  "network_kinds = [LocUDPv4, LocUDPv6, LocTCPv4, LocTCPv6]"

definition ip_addresses :: "endpoint \<Rightarrow> string set" where
  "ip_addresses e = set (map loc_address (filter (\<lambda>l. loc_kind l = LocUDPv4 \<or>
     loc_kind l = LocUDPv6 \<or> loc_kind l = LocTCPv4 \<or> loc_kind l = LocTCPv6) (unicast e)))"

fun transport_for :: "locator_kind \<Rightarrow> transport" where
  "transport_for LocUDPv4 = UDPv4"
| "transport_for LocUDPv6 = UDPv6"
| "transport_for LocTCPv4 = TCPv4"
| "transport_for LocTCPv6 = TCPv6"
| "transport_for LocSHM = SHM"
| "transport_for LocInvalid = NoTransport"

fun reason_for :: "locator_kind \<Rightarrow> string" where
  "reason_for LocUDPv4 = ''common-udpv4-locator''"
| "reason_for LocUDPv6 = ''common-udpv6-locator''"
| "reason_for LocTCPv4 = ''common-tcpv4-locator''"
| "reason_for LocTCPv6 = ''common-tcpv6-locator''"
| "reason_for _ = ''no-common-transport''"

text \<open>
  The reader's unicast locators in announced order, then its multicast ones; the flag says
  from which list the locator came.
\<close>

definition pick_network_locator :: "endpoint \<Rightarrow> endpoint \<Rightarrow> (locator \<times> bool) option" where
  "pick_network_locator w r =
     (let usable = (\<lambda>l. loc_kind l \<in> set network_kinds \<and> has_kind w (loc_kind l))
      in case find usable (unicast r) of
           Some l \<Rightarrow> Some (l, False)
         | None \<Rightarrow> map_option (\<lambda>l. (l, True)) (find usable (multicast r)))"

definition domains_intersect :: "u64 list \<Rightarrow> u64 list \<Rightarrow> bool" where
  "domains_intersect a b \<longleftrightarrow> list_ex (\<lambda>x. List.member b x) a"

subsection \<open>Request/offer QoS\<close>

definition durability_rank :: "string \<Rightarrow> int" where
  "durability_rank d =
     (if d = ''VOLATILE'' then 0 else if d = ''TRANSIENT_LOCAL'' then 1
      else if d = ''TRANSIENT'' then 2 else if d = ''PERSISTENT'' then 3 else - 1)"

definition liveliness_rank :: "string \<Rightarrow> int" where
  "liveliness_rank l =
     (if l = ''AUTOMATIC'' then 0 else if l = ''MANUAL_BY_PARTICIPANT'' then 1
      else if l = ''MANUAL_BY_TOPIC'' then 2 else - 1)"

definition partitions_match ::
  "(string \<Rightarrow> string \<Rightarrow> bool) \<Rightarrow> string list \<Rightarrow> string list \<Rightarrow> bool" where
  "partitions_match fnm w r =
     (let ws = (if w = [] then [''''] else w); rs = (if r = [] then [''''] else r)
      in list_ex (\<lambda>a. list_ex (\<lambda>b. a = b \<or> fnm a b \<or> fnm b a) rs) ws)"

definition qos_incompatibilities ::
  "(string \<Rightarrow> string \<Rightarrow> bool) \<Rightarrow> endpoint \<Rightarrow> endpoint \<Rightarrow> string list" where
  "qos_incompatibilities fnm writer reader =
     (let w = qos writer; r = qos reader
      in (if reliability w = ''BEST_EFFORT'' \<and> reliability r = ''RELIABLE''
          then [''reliability''] else []) @
         (if 0 \<le> durability_rank (durability w) \<and> 0 \<le> durability_rank (durability r) \<and>
             durability_rank (durability w) < durability_rank (durability r)
          then [''durability''] else []) @
         (if d_lt (deadline_s r) (deadline_s w) then [''deadline''] else []) @
         (if (0 \<le> liveliness_rank (liveliness w) \<and> 0 \<le> liveliness_rank (liveliness r) \<and>
              liveliness_rank (liveliness w) < liveliness_rank (liveliness r)) \<or>
             d_lt (liveliness_lease_s r) (liveliness_lease_s w)
          then [''liveliness''] else []) @
         (if ownership w \<noteq> ownership r then [''ownership''] else []) @
         (if \<not> partitions_match fnm (partitions w) (partitions r) then [''partition''] else []))"

subsection \<open>Two IPC namespaces\<close>

definition shm_ports :: "endpoint \<Rightarrow> u32 set" where
  "shm_ports e = participant_shm_ports e \<union>
     set (map loc_port (filter (\<lambda>l. loc_kind l = LocSHM) (unicast e)))"

definition ipc_split_reasons :: "endpoint \<Rightarrow> endpoint \<Rightarrow> string list" where
  "ipc_split_reasons writer reader =
     (if participant_guid_prefix writer = participant_guid_prefix reader then []
      else
        (if \<exists>p \<in> shm_ports writer. p \<in> shm_ports reader then [''shm-port-collision''] else []) @
        (let wv = participant_shm_visibility writer; rv = participant_shm_visibility reader
         in if wv = Visible \<and> rv = NotVisible then [''shm-reader-port-not-visible'']
            else if wv = NotVisible \<and> rv = Visible then [''shm-writer-port-not-visible'']
            else []))"

definition datasharing_split_reasons :: "endpoint \<Rightarrow> endpoint \<Rightarrow> string list" where
  "datasharing_split_reasons writer reader =
     (if participant_guid_prefix writer = participant_guid_prefix reader then []
      else
        (let wv = datasharing_segment_visibility writer; rv = datasharing_segment_visibility reader
         in if wv = Visible \<and> rv = NotVisible then [''datasharing-reader-segment-not-visible'']
            else if wv = NotVisible \<and> rv = Visible then [''datasharing-writer-segment-not-visible'']
            else []))"

fun replace_code :: "string list \<Rightarrow> string \<Rightarrow> string \<Rightarrow> string list" where
  "replace_code [] from to = [to]"
| "replace_code (c # codes) from to =
     (if c = from then to # codes else c # replace_code codes from to)"

subsection \<open>The verdict of a matched pair\<close>

definition reason :: "string \<Rightarrow> verdict \<Rightarrow> verdict" where
  "reason c v = v\<lparr>v_reasons := v_reasons v @ [c]\<rparr>"

definition reasons :: "string list \<Rightarrow> verdict \<Rightarrow> verdict" where
  "reasons cs v = v\<lparr>v_reasons := v_reasons v @ cs\<rparr>"

definition warning :: "string \<Rightarrow> verdict \<Rightarrow> verdict" where
  "warning c v = v\<lparr>v_warnings := v_warnings v @ [c]\<rparr>"

text \<open>
  The body of \<open>decide_same_type\<close> in the order of the code. A block that may return early
  gives \<open>Inl\<close> of the returned verdict, or \<open>Inr\<close> of the verdict it hands on.
\<close>

definition qos_verdict :: "string list \<Rightarrow> verdict" where
  "qos_verdict incompatible =
     warning ''qos-incompatible''
       (reasons (map (\<lambda>p. ''qos-incompatible-'' @ p) incompatible)
         (verdict0\<lparr>v_transport := NoTransport, v_confidence := Certain\<rparr>))"

definition ip_block :: "endpoint \<Rightarrow> endpoint \<Rightarrow> verdict \<Rightarrow> verdict" where
  "ip_block writer reader v =
     (let wip = ip_addresses writer; rip = ip_addresses reader
      in if wip \<noteq> {} \<and> rip \<noteq> {} \<and> \<not> (\<exists>a \<in> wip. a \<in> rip)
         then warning ''host-id-match-but-ip-differs'' v else v)"

definition data_sharing_block :: "endpoint \<Rightarrow> endpoint \<Rightarrow> verdict \<Rightarrow> verdict + verdict" where
  "data_sharing_block writer reader v =
     (let w = qos writer; r = qos reader; wd = data_sharing w; rd = data_sharing r
      in if wd = DsOff then Inr (reason ''datasharing-disabled-writer'' v)
         else if rd = DsOff then Inr (reason ''datasharing-disabled-reader'' v)
         else if wd = DsUnknown \<or> rd = DsUnknown then Inr (reason ''datasharing-qos-unknown'' v)
         else
           (let have_domains = data_sharing_domains w \<noteq> [] \<and> data_sharing_domains r \<noteq> []
            in if have_domains \<and>
                  \<not> domains_intersect (data_sharing_domains w) (data_sharing_domains r)
               then Inr (reason ''datasharing-domain-ids-mismatch'' v)
               else
                 (let v1 = reason (if have_domains then ''datasharing-domain-ids-match''
                                   else ''datasharing-domain-ids-unknown'')
                             (reason ''datasharing-qos-enabled-both'' v);
                      both_shm = has_kind writer LocSHM \<and> has_kind reader LocSHM;
                      split = (if both_shm then ipc_split_reasons writer reader else []) @
                              datasharing_split_reasons writer reader
                  in if split \<noteq> [] then
                       Inl (warning ''shm-ipc-namespace-split''
                         (reasons ((if both_shm then [''both-shm-locators''] else []) @ split)
                           (v1\<lparr>v_transport := NoTransport, v_confidence := Certain\<rparr>)))
                     else
                       Inl (reason ''datasharing-unverified-by-traffic''
                         (v1\<lparr>v_transport := DataSharing, v_confidence := Likely\<rparr>)))))"

definition shm_block :: "endpoint \<Rightarrow> endpoint \<Rightarrow> verdict \<Rightarrow> verdict + verdict" where
  "shm_block writer reader v =
     (let w_shm = has_kind writer LocSHM; r_shm = has_kind reader LocSHM
      in if w_shm \<and> r_shm then
           (let v1 = reason ''both-shm-locators'' v; split = ipc_split_reasons writer reader
            in if split \<noteq> [] then
                 Inl (warning ''shm-ipc-namespace-split''
                   (reasons split (v1\<lparr>v_transport := NoTransport, v_confidence := Certain\<rparr>)))
               else
                 Inl (case find_locator reader LocSHM of
                        Some l \<Rightarrow> v1\<lparr>v_transport := SHM, v_locator := l\<rparr>
                      | None \<Rightarrow> v1\<lparr>v_transport := SHM\<rparr>))
         else
           Inr (reasons ((if \<not> w_shm then [''writer-no-shm-locator''] else []) @
                         (if \<not> r_shm then [''reader-no-shm-locator''] else [])) v))"

definition other_host_block :: "endpoint \<Rightarrow> endpoint \<Rightarrow> verdict \<Rightarrow> verdict" where
  "other_host_block writer reader v =
     (let v1 = reason ''different-host'' v
      in if has_kind writer LocSHM \<and> has_kind reader LocSHM
         then reason ''shm-locators-ignored-across-hosts'' v1 else v1)"

definition locators_hidden :: "endpoint \<Rightarrow> endpoint \<Rightarrow> bool" where
  "locators_hidden writer reader \<longleftrightarrow>
     ep_host_id writer = ep_host_id reader \<and>
     (same_host_locators_filtered writer \<or> same_host_locators_filtered reader) \<and>
     has_kind writer LocSHM \<noteq> has_kind reader LocSHM"

definition network_block :: "endpoint \<Rightarrow> endpoint \<Rightarrow> verdict \<Rightarrow> verdict" where
  "network_block writer reader v =
     (case pick_network_locator writer reader of
        Some (l, mc) \<Rightarrow>
          reason (reason_for (loc_kind l))
            (v\<lparr>v_transport := transport_for (loc_kind l), v_locator := l,
               v_locator_multicast := mc\<rparr>)
      | None \<Rightarrow>
          (if locators_hidden writer reader
           then reason ''same-host-locators-hidden''
                  (v\<lparr>v_transport := UDPv4, v_confidence := Likely\<rparr>)
           else reason ''no-common-transport'' (v\<lparr>v_transport := NoTransport\<rparr>)))"

definition decide_same_type ::
  "(string \<Rightarrow> string \<Rightarrow> bool) \<Rightarrow> endpoint \<Rightarrow> endpoint \<Rightarrow> verdict" where
  "decide_same_type fnm writer reader =
     (let incompatible = qos_incompatibilities fnm writer reader
      in if incompatible \<noteq> [] then qos_verdict incompatible
         else if ep_host_id writer = ep_host_id reader then
           (case data_sharing_block writer reader
                   (ip_block writer reader (reason ''same-host-guid'' verdict0)) of
              Inl v \<Rightarrow> v
            | Inr v \<Rightarrow>
                (case shm_block writer reader v of
                   Inl v \<Rightarrow> v
                 | Inr v \<Rightarrow> network_block writer reader v))
         else network_block writer reader (other_host_block writer reader verdict0))"

subsection \<open>Intra-process pairs and type matching\<close>

definition intra_process_pair :: "endpoint \<Rightarrow> endpoint \<Rightarrow> bool" where
  "intra_process_pair writer reader \<longleftrightarrow>
     take 2 (guid_bytes writer) = [0x01, 0x0f] \<and>
     take 8 (guid_bytes writer) = take 8 (guid_bytes reader)"

datatype type_match = TiUnknown | TiSame | TiDifferent

definition type_information_match :: "endpoint \<Rightarrow> endpoint \<Rightarrow> type_match" where
  "type_information_match writer reader =
     (let announced = (\<lambda>e. type_information_hash e \<noteq> [] \<or> type_information_minimal_hash e \<noteq> []);
          eq = (\<lambda>a b. a \<noteq> [] \<and> a = b)
      in if \<not> announced writer \<or> \<not> announced reader then TiUnknown
         else if eq (type_information_hash writer) (type_information_hash reader) \<or>
                 eq (type_information_minimal_hash writer) (type_information_minimal_hash reader)
         then TiSame else TiDifferent)"

definition ros_hashes_differ :: "endpoint \<Rightarrow> endpoint \<Rightarrow> bool" where
  "ros_hashes_differ writer reader \<longleftrightarrow>
     dds_type writer = dds_type reader \<and> type_hash writer \<noteq> [] \<and> type_hash reader \<noteq> [] \<and>
     type_hash writer \<noteq> type_hash reader"

definition has_code :: "string list \<Rightarrow> string \<Rightarrow> bool" where
  "has_code codes c \<longleftrightarrow> List.member codes c"

definition type_verdict :: "endpoint \<Rightarrow> endpoint \<Rightarrow> verdict" where
  "type_verdict writer reader =
     (let v = reason (if dds_type writer \<noteq> dds_type reader then ''type-name-mismatch''
                      else ''type-information-mismatch'')
                (verdict0\<lparr>v_transport := NoTransport, v_confidence := Certain\<rparr>)
      in if ros_hashes_differ writer reader then warning ''type-hash-mismatch'' v else v)"

definition types_unmatched :: "endpoint \<Rightarrow> endpoint \<Rightarrow> bool" where
  "types_unmatched writer reader \<longleftrightarrow>
     (let m = type_information_match writer reader
      in m = TiDifferent \<or> (m = TiUnknown \<and> dds_type writer \<noteq> dds_type reader))"

definition decide :: "(string \<Rightarrow> string \<Rightarrow> bool) \<Rightarrow> endpoint \<Rightarrow> endpoint \<Rightarrow> verdict" where
  "decide fnm writer reader =
     (if types_unmatched writer reader then type_verdict writer reader
      else
        (let v = decide_same_type fnm writer reader;
             v = (if dds_type writer \<noteq> dds_type reader
                  then reason ''type-names-differ-same-type'' v else v);
             v = (if intra_process_pair writer reader \<and>
                     \<not> has_code (v_warnings v) ''qos-incompatible''
                  then v\<lparr>v_reasons := replace_code (v_reasons v)
                           ''datasharing-unverified-by-traffic'' ''intra-process''\<rparr>
                  else v)
         in if ros_hashes_differ writer reader then warning ''type-hash-mismatch'' v else v))"

end
