(* ===== verification/Decide_Spec.thy ===== *)
theory Decide_Spec
  imports Decide
begin

text \<open>
  What \<open>decide\<close> promises: an abstract decision table over the locators, QoS and namespaces of
  the two endpoints (\<open>outcome_rel\<close>, one rule per kind of verdict, written with sets and
  quantifiers instead of the code's loops and early returns), the proof that the code's
  verdict is the table's outcome, and the consequences for each transport.
\<close>

subsection \<open>Rewriting verdicts\<close>

named_theorems verdict_simps \<open>selectors of the verdict-building steps\<close>

lemma reason_sel [simp, verdict_simps]:
  "v_transport (reason c v) = v_transport v"
  "v_confidence (reason c v) = v_confidence v"
  "v_locator (reason c v) = v_locator v"
  "v_locator_multicast (reason c v) = v_locator_multicast v"
  "v_reasons (reason c v) = v_reasons v @ [c]"
  "v_warnings (reason c v) = v_warnings v"
  by (simp_all add: reason_def)

lemma reasons_sel [simp, verdict_simps]:
  "v_transport (reasons cs v) = v_transport v"
  "v_confidence (reasons cs v) = v_confidence v"
  "v_locator (reasons cs v) = v_locator v"
  "v_locator_multicast (reasons cs v) = v_locator_multicast v"
  "v_reasons (reasons cs v) = v_reasons v @ cs"
  "v_warnings (reasons cs v) = v_warnings v"
  by (simp_all add: reasons_def)

lemma warning_sel [simp, verdict_simps]:
  "v_transport (warning c v) = v_transport v"
  "v_confidence (warning c v) = v_confidence v"
  "v_locator (warning c v) = v_locator v"
  "v_locator_multicast (warning c v) = v_locator_multicast v"
  "v_reasons (warning c v) = v_reasons v"
  "v_warnings (warning c v) = v_warnings v @ [c]"
  by (simp_all add: warning_def)

lemma verdict0_sel [simp, verdict_simps]:
  "v_transport verdict0 = NoTransport" "v_confidence verdict0 = Certain"
  "v_locator verdict0 = locator0" "v_locator_multicast verdict0 = False"
  "v_reasons verdict0 = []" "v_warnings verdict0 = []"
  by (simp_all add: verdict0_def)

lemma locator0_kind [simp]: "loc_kind locator0 = LocInvalid"
  by (simp add: locator0_def)

lemma has_code_iff [simp]: "has_code cs c \<longleftrightarrow> c \<in> set cs"
  by (simp add: has_code_def)

lemma set_replace_code:
  "set (replace_code cs a b) \<subseteq> insert b (set cs)"
  "b \<in> set (replace_code cs a b)"
  "x \<noteq> a \<Longrightarrow> x \<in> set cs \<Longrightarrow> x \<in> set (replace_code cs a b)"
  by (induction cs) auto

definition core :: "verdict \<Rightarrow> transport \<times> confidence \<times> locator \<times> bool" where
  "core v = (v_transport v, v_confidence v, v_locator v, v_locator_multicast v)"

subsection \<open>The abstract decision table\<close>

definition announces :: "endpoint \<Rightarrow> locator \<Rightarrow> bool" where
  "announces e l \<longleftrightarrow> l \<in> set (unicast e) \<union> set (multicast e)"

definition speaks :: "endpoint \<Rightarrow> locator_kind \<Rightarrow> bool" where
  "speaks e k \<longleftrightarrow> (\<exists>l. announces e l \<and> loc_kind l = k)"

definition reachable_by :: "endpoint \<Rightarrow> locator \<Rightarrow> bool" where
  "reachable_by w l \<longleftrightarrow> loc_kind l \<notin> {LocInvalid, LocSHM} \<and> speaks w (loc_kind l)"

definition first_such :: "('a \<Rightarrow> bool) \<Rightarrow> 'a list \<Rightarrow> 'a \<Rightarrow> bool" where
  "first_such P xs x \<longleftrightarrow> (\<exists>us vs. xs = us @ x # vs \<and> P x \<and> (\<forall>u \<in> set us. \<not> P u))"

definition same_host :: "endpoint \<Rightarrow> endpoint \<Rightarrow> bool" where
  "same_host w r \<longleftrightarrow> ep_host_id w = ep_host_id r"

definition both_shm :: "endpoint \<Rightarrow> endpoint \<Rightarrow> bool" where
  "both_shm w r \<longleftrightarrow> speaks w LocSHM \<and> speaks r LocSHM"

definition ds_ready :: "endpoint \<Rightarrow> endpoint \<Rightarrow> bool" where
  "ds_ready w r \<longleftrightarrow>
     {data_sharing (qos w), data_sharing (qos r)} \<subseteq> {DsOn, DsAuto} \<and>
     (data_sharing_domains (qos w) = [] \<or> data_sharing_domains (qos r) = [] \<or>
      set (data_sharing_domains (qos w)) \<inter> set (data_sharing_domains (qos r)) \<noteq> {})"

definition ipc_split :: "endpoint \<Rightarrow> endpoint \<Rightarrow> bool" where
  "ipc_split w r \<longleftrightarrow> participant_guid_prefix w \<noteq> participant_guid_prefix r \<and>
     (shm_ports w \<inter> shm_ports r \<noteq> {} \<or>
      {participant_shm_visibility w, participant_shm_visibility r} = {Visible, NotVisible})"

definition ds_split :: "endpoint \<Rightarrow> endpoint \<Rightarrow> bool" where
  "ds_split w r \<longleftrightarrow> participant_guid_prefix w \<noteq> participant_guid_prefix r \<and>
     {datasharing_segment_visibility w, datasharing_segment_visibility r} = {Visible, NotVisible}"

definition matched :: "(string \<Rightarrow> string \<Rightarrow> bool) \<Rightarrow> endpoint \<Rightarrow> endpoint \<Rightarrow> bool" where
  "matched fnm w r \<longleftrightarrow> \<not> types_unmatched w r \<and> qos_incompatibilities fnm w r = []"

datatype outcome =
    OutUnmatched | OutSplit | OutDataSharing | OutShm locator | OutNet locator bool
  | OutHidden | OutNone

inductive outcome_rel ::
  "(string \<Rightarrow> string \<Rightarrow> bool) \<Rightarrow> endpoint \<Rightarrow> endpoint \<Rightarrow> outcome \<Rightarrow> bool"
  for fnm w r where
  unmatched: "\<not> matched fnm w r \<Longrightarrow> outcome_rel fnm w r OutUnmatched"
| ds_lost: "matched fnm w r \<Longrightarrow> same_host w r \<Longrightarrow> ds_ready w r \<Longrightarrow>
    both_shm w r \<and> ipc_split w r \<or> ds_split w r \<Longrightarrow> outcome_rel fnm w r OutSplit"
| ds: "matched fnm w r \<Longrightarrow> same_host w r \<Longrightarrow> ds_ready w r \<Longrightarrow>
    \<not> (both_shm w r \<and> ipc_split w r) \<Longrightarrow> \<not> ds_split w r \<Longrightarrow> outcome_rel fnm w r OutDataSharing"
| shm_lost: "matched fnm w r \<Longrightarrow> same_host w r \<Longrightarrow> \<not> ds_ready w r \<Longrightarrow> both_shm w r \<Longrightarrow>
    ipc_split w r \<Longrightarrow> outcome_rel fnm w r OutSplit"
| shm: "matched fnm w r \<Longrightarrow> same_host w r \<Longrightarrow> \<not> ds_ready w r \<Longrightarrow> both_shm w r \<Longrightarrow>
    \<not> ipc_split w r \<Longrightarrow> first_such (\<lambda>l. loc_kind l = LocSHM) (unicast r @ multicast r) l \<Longrightarrow>
    outcome_rel fnm w r (OutShm l)"
| net: "matched fnm w r \<Longrightarrow> \<not> (same_host w r \<and> (ds_ready w r \<or> both_shm w r)) \<Longrightarrow>
    first_such (reachable_by w) (unicast r @ multicast r) l \<Longrightarrow>
    outcome_rel fnm w r (OutNet l (\<not> (\<exists>u \<in> set (unicast r). reachable_by w u)))"
| hidden: "matched fnm w r \<Longrightarrow> \<not> (same_host w r \<and> (ds_ready w r \<or> both_shm w r)) \<Longrightarrow>
    \<not> (\<exists>l. announces r l \<and> reachable_by w l) \<Longrightarrow> locators_hidden w r \<Longrightarrow>
    outcome_rel fnm w r OutHidden"
| none: "matched fnm w r \<Longrightarrow> \<not> (same_host w r \<and> (ds_ready w r \<or> both_shm w r)) \<Longrightarrow>
    \<not> (\<exists>l. announces r l \<and> reachable_by w l) \<Longrightarrow> \<not> locators_hidden w r \<Longrightarrow>
    outcome_rel fnm w r OutNone"

text \<open>The part of a verdict the outcome fixes: transport, confidence, locator, multicast flag.\<close>

fun outcome_core :: "outcome \<Rightarrow> transport \<times> confidence \<times> locator \<times> bool" where
  "outcome_core OutUnmatched = (NoTransport, Certain, locator0, False)"
| "outcome_core OutSplit = (NoTransport, Certain, locator0, False)"
| "outcome_core OutDataSharing = (DataSharing, Likely, locator0, False)"
| "outcome_core (OutShm l) = (SHM, Certain, l, False)"
| "outcome_core (OutNet l mc) = (transport_for (loc_kind l), Certain, l, mc)"
| "outcome_core OutHidden = (UDPv4, Likely, locator0, False)"
| "outcome_core OutNone = (NoTransport, Certain, locator0, False)"

subsection \<open>The code's helpers in the table's terms\<close>

lemma has_kind_speaks: "has_kind e k \<longleftrightarrow> speaks e k"
  by (auto simp: has_kind_def speaks_def announces_def list_ex_iff)

lemma find_first_such: "find P xs = Some x \<longleftrightarrow> first_such P xs x"
proof
  assume "find P xs = Some x"
  then obtain i where i: "i < length xs" "P (xs ! i)" "x = xs ! i" "\<forall>j<i. \<not> P (xs ! j)"
    by (auto simp: find_Some_iff)
  have "xs = take i xs @ x # drop (Suc i) xs"
    using i by (simp add: id_take_nth_drop)
  moreover have "\<forall>u \<in> set (take i xs). \<not> P u"
    using i by (auto simp: in_set_conv_nth)
  ultimately show "first_such P xs x"
    using i unfolding first_such_def by blast
next
  assume "first_such P xs x"
  then obtain us vs where "xs = us @ x # vs" "P x" "\<forall>u \<in> set us. \<not> P u"
    unfolding first_such_def by blast
  then show "find P xs = Some x"
    by (induction us arbitrary: xs) auto
qed

lemma find_append: "find P (xs @ ys) = (case find P xs of Some x \<Rightarrow> Some x | None \<Rightarrow> find P ys)"
  by (induction xs) auto

lemma find_locator_eq: "find_locator e k = find (\<lambda>l. loc_kind l = k) (unicast e @ multicast e)"
  by (simp add: find_locator_def find_append split: option.split)

lemma usable_reachable:
  "loc_kind l \<in> set network_kinds \<and> has_kind w (loc_kind l) \<longleftrightarrow> reachable_by w l"
  by (cases "loc_kind l") (auto simp: network_kinds_def reachable_by_def has_kind_speaks)

lemma pick_network_locator_eq:
  "pick_network_locator w r =
     map_option (\<lambda>l. (l, \<not> (\<exists>u \<in> set (unicast r). reachable_by w u)))
       (find (reachable_by w) (unicast r @ multicast r))"
proof -
  have "(\<exists>u \<in> set (unicast r). reachable_by w u) \<longleftrightarrow> find (reachable_by w) (unicast r) \<noteq> None"
    by (auto simp: find_None_iff)
  then show ?thesis
    unfolding pick_network_locator_def usable_reachable Let_def find_append
    by (auto split: option.split)
qed

lemma pick_network_locator_None:
  "pick_network_locator w r = None \<longleftrightarrow> \<not> (\<exists>l. announces r l \<and> reachable_by w l)"
  by (auto simp: pick_network_locator_eq find_None_iff announces_def)

lemma ipc_split_reasons_iff: "ipc_split_reasons w r \<noteq> [] \<longleftrightarrow> ipc_split w r"
  by (cases "participant_shm_visibility w"; cases "participant_shm_visibility r")
    (auto simp: ipc_split_reasons_def ipc_split_def)

lemma datasharing_split_reasons_iff: "datasharing_split_reasons w r \<noteq> [] \<longleftrightarrow> ds_split w r"
  by (cases "datasharing_segment_visibility w"; cases "datasharing_segment_visibility r")
    (auto simp: datasharing_split_reasons_def ds_split_def)

lemma domains_intersect_iff: "domains_intersect a b \<longleftrightarrow> set a \<inter> set b \<noteq> {}"
  by (auto simp: domains_intersect_def list_ex_iff)

lemma ip_block_core [simp]: "core (ip_block w r v) = core v"
  by (simp add: ip_block_def core_def Let_def)

text \<open>The warnings of a verdict, from its outcome.\<close>

definition ip_warnings :: "endpoint \<Rightarrow> endpoint \<Rightarrow> string list" where
  "ip_warnings w r =
     (if same_host w r \<and> ip_addresses w \<noteq> {} \<and> ip_addresses r \<noteq> {} \<and>
         ip_addresses w \<inter> ip_addresses r = {}
      then [''host-id-match-but-ip-differs''] else [])"

fun outcome_warnings :: "endpoint \<Rightarrow> endpoint \<Rightarrow> outcome \<Rightarrow> string list" where
  "outcome_warnings w r OutUnmatched = [''qos-incompatible'']"
| "outcome_warnings w r OutSplit = ip_warnings w r @ [''shm-ipc-namespace-split'']"
| "outcome_warnings w r out = ip_warnings w r"

lemma ip_block_warnings: "same_host w r \<Longrightarrow> v_warnings (ip_block w r v) = v_warnings v @ ip_warnings w r"
  by (auto simp: ip_block_def ip_warnings_def Let_def)

lemma qos_verdict_core:
  "core (qos_verdict ps) = outcome_core OutUnmatched"
  "v_warnings (qos_verdict ps) = [''qos-incompatible'']"
  by (simp_all add: qos_verdict_def core_def)

text \<open>The data-sharing block: go on with the verdict's core unchanged, or return.\<close>

lemma data_sharing_block_go:
  assumes "\<not> ds_ready w r"
  shows "\<exists>v'. data_sharing_block w r v = Inr v' \<and> core v' = core v \<and> v_warnings v' = v_warnings v"
  using assms
  by (cases "data_sharing (qos w)"; cases "data_sharing (qos r)")
    (auto simp: data_sharing_block_def ds_ready_def domains_intersect_iff core_def Let_def)

lemma data_sharing_block_return:
  assumes "ds_ready w r" and "core v = outcome_core OutNone"
  shows "\<exists>v'. data_sharing_block w r v = Inl v' \<and>
    core v' = outcome_core (if both_shm w r \<and> ipc_split w r \<or> ds_split w r
      then OutSplit else OutDataSharing) \<and>
    v_warnings v' = v_warnings v @ (if both_shm w r \<and> ipc_split w r \<or> ds_split w r
      then [''shm-ipc-namespace-split''] else [])"
proof -
  have nd: "\<not> (data_sharing_domains (qos w) \<noteq> [] \<and> data_sharing_domains (qos r) \<noteq> [] \<and>
      \<not> domains_intersect (data_sharing_domains (qos w)) (data_sharing_domains (qos r)))"
    and k: "data_sharing (qos w) \<noteq> DsOff" "data_sharing (qos r) \<noteq> DsOff"
      "data_sharing (qos w) \<noteq> DsUnknown" "data_sharing (qos r) \<noteq> DsUnknown"
    using assms(1) by (auto simp: ds_ready_def domains_intersect_iff)
  have s: "((if has_kind w LocSHM \<and> has_kind r LocSHM then ipc_split_reasons w r else []) @
      datasharing_split_reasons w r \<noteq> []) \<longleftrightarrow> both_shm w r \<and> ipc_split w r \<or> ds_split w r"
    using ipc_split_reasons_iff [of w r] datasharing_split_reasons_iff [of w r]
    by (auto simp: both_shm_def has_kind_speaks)
  show ?thesis
    using nd k s assms(2) by (simp add: data_sharing_block_def core_def Let_def)
qed

lemma shm_block_return:
  assumes "both_shm w r" and "core v = outcome_core OutNone"
  shows "\<exists>v'. shm_block w r v = Inl v' \<and>
    (if ipc_split w r
     then core v' = outcome_core OutSplit \<and> v_warnings v' = v_warnings v @ [''shm-ipc-namespace-split'']
     else \<exists>l. v_warnings v' = v_warnings v \<and> first_such (\<lambda>l. loc_kind l = LocSHM) (unicast r @ multicast r) l \<and>
       core v' = outcome_core (OutShm l))"
proof -
  have "\<exists>l \<in> set (unicast r @ multicast r). loc_kind l = LocSHM"
    using assms(1) by (auto simp: both_shm_def speaks_def announces_def)
  then obtain l where l: "find_locator r LocSHM = Some l"
    by (metis (mono_tags, lifting) find_None_iff find_locator_eq not_Some_eq)
  have k: "has_kind w LocSHM" "has_kind r LocSHM"
    using assms(1) by (simp_all add: both_shm_def has_kind_speaks)
  show ?thesis
    using assms(2) l k ipc_split_reasons_iff [of w r] find_first_such [THEN iffD1, OF l [unfolded find_locator_eq]]
    by (auto simp: shm_block_def core_def Let_def)
qed

lemma shm_block_go:
  assumes "\<not> both_shm w r"
  shows "\<exists>v'. shm_block w r v = Inr v' \<and> core v' = core v \<and> v_warnings v' = v_warnings v"
  using assms by (auto simp: shm_block_def both_shm_def has_kind_speaks core_def Let_def)

lemma network_block_core:
  assumes "matched fnm w r" "\<not> (same_host w r \<and> (ds_ready w r \<or> both_shm w r))"
    and "core v = outcome_core OutNone" "v_warnings v = ip_warnings w r"
  shows "\<exists>out. outcome_rel fnm w r out \<and> core (network_block w r v) = outcome_core out \<and>
    v_warnings (network_block w r v) = outcome_warnings w r out"
proof (cases "pick_network_locator w r")
  case None
  then have n: "\<not> (\<exists>l. announces r l \<and> reachable_by w l)"
    by (simp add: pick_network_locator_None)
  show ?thesis
  proof (cases "locators_hidden w r")
    case True
    then have "outcome_rel fnm w r OutHidden" using assms(1,2) n by (rule outcome_rel.hidden [rotated 3])
    then show ?thesis using None True assms(3,4)
      by (intro exI [of _ OutHidden]) (simp add: network_block_def core_def)
  next
    case False
    then have "outcome_rel fnm w r OutNone" using assms(1,2) n by (rule outcome_rel.none [rotated 3])
    then show ?thesis using None False assms(3,4)
      by (intro exI [of _ OutNone]) (simp add: network_block_def core_def)
  qed
next
  case (Some p)
  then obtain l where l: "first_such (reachable_by w) (unicast r @ multicast r) l"
    and p: "p = (l, \<not> (\<exists>u \<in> set (unicast r). reachable_by w u))"
    by (auto simp: pick_network_locator_eq find_first_such)
  have "outcome_rel fnm w r (OutNet l (\<not> (\<exists>u \<in> set (unicast r). reachable_by w u)))"
    using assms(1,2) l by (rule outcome_rel.net)
  then show ?thesis using Some p assms(3,4)
    by (intro exI [of _ "OutNet l (\<not> (\<exists>u \<in> set (unicast r). reachable_by w u))"])
      (simp add: network_block_def core_def)
qed

subsection \<open>The code refines the table\<close>

lemma same_host_refines:
  fixes fnm w r
  defines "v0 \<equiv> ip_block w r (reason ''same-host-guid'' verdict0)"
  assumes m: "matched fnm w r" and sh: "same_host w r"
  defines "v \<equiv> (case data_sharing_block w r v0 of Inl v \<Rightarrow> v
    | Inr v \<Rightarrow> (case shm_block w r v of Inl v \<Rightarrow> v | Inr v \<Rightarrow> network_block w r v))"
  shows "\<exists>out. outcome_rel fnm w r out \<and> core v = outcome_core out \<and>
    v_warnings v = outcome_warnings w r out"
proof -
  have v0: "core v0 = outcome_core OutNone" "v_warnings v0 = ip_warnings w r"
    by (simp add: v0_def, simp add: core_def) (simp add: v0_def ip_block_warnings [OF sh])
  show ?thesis
  proof (cases "ds_ready w r")
    case True
    define out where "out = (if both_shm w r \<and> ipc_split w r \<or> ds_split w r
      then OutSplit else OutDataSharing)"
    have "outcome_rel fnm w r out"
      using m sh True by (auto simp: out_def intro: outcome_rel.ds_lost outcome_rel.ds)
    with data_sharing_block_return [OF True v0(1)] v0(2) show ?thesis
      by (intro exI [of _ out]) (auto simp: v_def out_def)
  next
    case nds: False
    then obtain v1 where v1: "data_sharing_block w r v0 = Inr v1" "core v1 = outcome_core OutNone"
      "v_warnings v1 = ip_warnings w r"
      using data_sharing_block_go [OF nds, of v0] v0 by auto
    show ?thesis
    proof (cases "both_shm w r")
      case True
      show ?thesis
      proof (cases "ipc_split w r")
        case split: True
        then have "outcome_rel fnm w r OutSplit" using m sh nds True by (intro outcome_rel.shm_lost)
        with shm_block_return [OF True v1(2)] split v1(1,3) show ?thesis
          by (intro exI [of _ OutSplit]) (auto simp: v_def)
      next
        case no_split: False
        then obtain l v' where "shm_block w r v1 = Inl v'" "v_warnings v' = v_warnings v1"
          "core v' = outcome_core (OutShm l)"
          and l: "first_such (\<lambda>l. loc_kind l = LocSHM) (unicast r @ multicast r) l"
          using shm_block_return [OF True v1(2)] by auto
        moreover have "outcome_rel fnm w r (OutShm l)"
          using m sh nds True no_split l by (rule outcome_rel.shm)
        ultimately show ?thesis using v1(1,3) by (intro exI [of _ "OutShm l"]) (simp add: v_def)
      qed
    next
      case False
      then obtain v2 where "shm_block w r v1 = Inr v2" "core v2 = outcome_core OutNone"
        "v_warnings v2 = ip_warnings w r"
        using shm_block_go [OF False, of v1] v1 by auto
      with network_block_core [OF m, of v2] nds False v1(1) show ?thesis
        by (auto simp: v_def)
    qed
  qed
qed

lemma decide_same_type_refines:
  assumes "\<not> types_unmatched w r"
  shows "\<exists>out. outcome_rel fnm w r out \<and> core (decide_same_type fnm w r) = outcome_core out \<and>
    v_warnings (decide_same_type fnm w r) = outcome_warnings w r out"
proof (cases "qos_incompatibilities fnm w r = []")
  case False
  then have "outcome_rel fnm w r OutUnmatched" by (simp add: outcome_rel.unmatched matched_def)
  then show ?thesis using False
    by (intro exI [of _ OutUnmatched]) (simp add: decide_same_type_def qos_verdict_core)
next
  case True
  with assms have m: "matched fnm w r" by (simp add: matched_def)
  show ?thesis
  proof (cases "same_host w r")
    case False
    then have "core (other_host_block w r verdict0) = outcome_core OutNone"
      "v_warnings (other_host_block w r verdict0) = ip_warnings w r"
      by (simp_all add: other_host_block_def core_def ip_warnings_def Let_def)
    with network_block_core [OF m] False show ?thesis
      using True by (auto simp: decide_same_type_def same_host_def)
  next
    case True
    then show ?thesis
      using same_host_refines [OF m True] \<open>qos_incompatibilities fnm w r = []\<close>
      by (simp add: decide_same_type_def same_host_def)
  qed
qed

lemma decide_core:
  "core (decide fnm w r) =
     (if types_unmatched w r then outcome_core OutUnmatched else core (decide_same_type fnm w r))"
  by (simp add: decide_def type_verdict_def core_def Let_def)

lemma decide_warnings:
  "v_warnings (decide fnm w r) =
     (if types_unmatched w r then [] else v_warnings (decide_same_type fnm w r)) @
     (if ros_hashes_differ w r then [''type-hash-mismatch''] else [])"
  by (simp add: decide_def type_verdict_def Let_def)

lemma decide_refines:
  "\<exists>out. outcome_rel fnm w r out \<and> core (decide fnm w r) = outcome_core out \<and>
    v_warnings (decide fnm w r) =
      (if types_unmatched w r then [] else outcome_warnings w r out) @
      (if ros_hashes_differ w r then [''type-hash-mismatch''] else [])"
proof (cases "types_unmatched w r")
  case True
  then have "outcome_rel fnm w r OutUnmatched" by (simp add: outcome_rel.unmatched matched_def)
  then show ?thesis using True by (auto simp: decide_core decide_warnings)
next
  case False
  then show ?thesis using decide_same_type_refines [OF False, of fnm]
    by (simp add: decide_core decide_warnings)
qed

lemma first_such_unique: "first_such P xs x \<Longrightarrow> first_such P xs y \<Longrightarrow> x = y"
  by (metis find_first_such option.inject)

lemma first_such_ex: "first_such P xs x \<Longrightarrow> x \<in> set xs \<and> P x"
  by (auto simp: first_such_def)

inductive_cases outcome_relE: "outcome_rel fnm w r out"

lemma first_such_announced:
  "first_such P (unicast r @ multicast r) l \<Longrightarrow> announces r l \<and> P l"
  by (drule first_such_ex) (simp add: announces_def)

lemma outcome_rel_unique: "outcome_rel fnm w r a \<Longrightarrow> outcome_rel fnm w r b \<Longrightarrow> a = b"
  by (elim outcome_relE) (auto dest: first_such_unique first_such_announced)

end
