(* ===== verification/Decide_Props.thy ===== *)
theory Decide_Props
  imports Decide_Spec
begin

text \<open>
  The properties of the prediction: refinement of the decision table, what each transport of
  a verdict promises, when a same-host pair is judged lost, and what the reasons of an
  intra-process pair say.
\<close>

subsection \<open>The reason codes of a prediction\<close>

text \<open>Every code \<open>decide_same_type\<close> can give, less \<open>datasharing-unverified-by-traffic\<close>.\<close>

definition base_codes :: "string list" where
  "base_codes =
     [''same-host-guid'', ''different-host'', ''shm-locators-ignored-across-hosts'',
      ''datasharing-disabled-writer'', ''datasharing-disabled-reader'',
      ''datasharing-qos-unknown'', ''datasharing-domain-ids-mismatch'',
      ''datasharing-qos-enabled-both'', ''datasharing-domain-ids-match'',
      ''datasharing-domain-ids-unknown'', ''both-shm-locators'', ''shm-port-collision'',
      ''shm-reader-port-not-visible'', ''shm-writer-port-not-visible'',
      ''datasharing-reader-segment-not-visible'', ''datasharing-writer-segment-not-visible'',
      ''writer-no-shm-locator'', ''reader-no-shm-locator'',
      ''common-udpv4-locator'', ''common-udpv6-locator'', ''common-tcpv4-locator'',
      ''common-tcpv6-locator'', ''same-host-locators-hidden'', ''no-common-transport'',
      ''qos-incompatible-reliability'', ''qos-incompatible-durability'',
      ''qos-incompatible-deadline'', ''qos-incompatible-liveliness'',
      ''qos-incompatible-ownership'', ''qos-incompatible-partition'']"

abbreviation unverified :: string where
  "unverified \<equiv> ''datasharing-unverified-by-traffic''"

text \<open>\<open>unverified\<close> comes last and once, or not at all.\<close>

definition tidy :: "string list \<Rightarrow> bool" where
  "tidy cs \<longleftrightarrow> (\<exists>xs. set xs \<subseteq> set base_codes \<and> (cs = xs \<or> cs = xs @ [unverified]))"

lemma ipc_split_reasons_codes: "set (ipc_split_reasons w r) \<subseteq> set base_codes"
  by (auto simp: ipc_split_reasons_def base_codes_def Let_def)

lemma datasharing_split_reasons_codes: "set (datasharing_split_reasons w r) \<subseteq> set base_codes"
  by (auto simp: datasharing_split_reasons_def base_codes_def Let_def)

lemma ip_block_reasons [simp]: "v_reasons (ip_block w r v) = v_reasons v"
  by (simp add: ip_block_def Let_def)

lemma qos_verdict_reasons: "set (v_reasons (qos_verdict (qos_incompatibilities fnm w r))) \<subseteq> set base_codes"
proof -
  have "set (qos_incompatibilities fnm w r) \<subseteq> {''reliability'', ''durability'', ''deadline'',
      ''liveliness'', ''ownership'', ''partition''}"
    by (auto simp: qos_incompatibilities_def Let_def)
  then have "(\<lambda>p. ''qos-incompatible-'' @ p) ` set (qos_incompatibilities fnm w r) \<subseteq>
      (\<lambda>p. ''qos-incompatible-'' @ p) ` {''reliability'', ''durability'', ''deadline'',
        ''liveliness'', ''ownership'', ''partition''}"
    by (rule image_mono)
  also have "\<dots> \<subseteq> set base_codes" by (simp add: base_codes_def)
  finally show ?thesis by (simp add: qos_verdict_def)
qed

lemma base_codes_mem [simp]:
  "''same-host-guid'' \<in> set base_codes" "''different-host'' \<in> set base_codes"
  "''shm-locators-ignored-across-hosts'' \<in> set base_codes"
  "''datasharing-disabled-writer'' \<in> set base_codes"
  "''datasharing-disabled-reader'' \<in> set base_codes"
  "''datasharing-qos-unknown'' \<in> set base_codes"
  "''datasharing-domain-ids-mismatch'' \<in> set base_codes"
  "''datasharing-qos-enabled-both'' \<in> set base_codes"
  "''datasharing-domain-ids-match'' \<in> set base_codes"
  "''datasharing-domain-ids-unknown'' \<in> set base_codes"
  "''both-shm-locators'' \<in> set base_codes"
  "''writer-no-shm-locator'' \<in> set base_codes" "''reader-no-shm-locator'' \<in> set base_codes"
  "''same-host-locators-hidden'' \<in> set base_codes" "''no-common-transport'' \<in> set base_codes"
  "reason_for k \<in> set base_codes"
  by (simp_all add: base_codes_def) (cases k; simp)

lemma tidy_base: "set xs \<subseteq> set base_codes \<Longrightarrow> tidy xs"
  by (auto simp: tidy_def)

lemma tidy_unverified: "set xs \<subseteq> set base_codes \<Longrightarrow> tidy (xs @ [unverified])"
  by (auto simp: tidy_def)

lemma data_sharing_block_codes:
  assumes "set (v_reasons v) \<subseteq> set base_codes"
  shows "data_sharing_block w r v = Inl v' \<Longrightarrow> tidy (v_reasons v')"
    and "data_sharing_block w r v = Inr v' \<Longrightarrow> set (v_reasons v') \<subseteq> set base_codes"
  using assms ipc_split_reasons_codes [of w r] datasharing_split_reasons_codes [of w r]
  unfolding data_sharing_block_def Let_def
  by (simp_all split: if_splits)
    (hypsubst, simp add: tidy_base tidy_unverified del: append_assoc)+

lemma shm_block_codes:
  assumes "set (v_reasons v) \<subseteq> set base_codes"
  shows "shm_block w r v = Inl v' \<Longrightarrow> set (v_reasons v') \<subseteq> set base_codes"
    and "shm_block w r v = Inr v' \<Longrightarrow> set (v_reasons v') \<subseteq> set base_codes"
  using assms ipc_split_reasons_codes [of w r]
  unfolding shm_block_def Let_def
  by (auto split: if_splits option.splits)

lemma network_block_codes:
  assumes "set (v_reasons v) \<subseteq> set base_codes"
  shows "set (v_reasons (network_block w r v)) \<subseteq> set base_codes"
  using assms unfolding network_block_def by (auto split: option.split)

lemma decide_same_type_tidy: "tidy (v_reasons (decide_same_type fnm w r))"
proof (cases "qos_incompatibilities fnm w r = []")
  case False
  then show ?thesis
    by (simp add: decide_same_type_def qos_verdict_reasons tidy_base)
next
  case True
  let ?v0 = "ip_block w r (reason ''same-host-guid'' verdict0)"
  have h: "set (v_reasons ?v0) \<subseteq> set base_codes" by simp
  have o: "set (v_reasons (other_host_block w r verdict0)) \<subseteq> set base_codes"
    by (simp add: other_host_block_def Let_def)
  have n: "tidy (v_reasons (network_block w r (other_host_block w r verdict0)))"
    by (rule tidy_base [OF network_block_codes [OF o]])
  show ?thesis
  proof (cases "data_sharing_block w r ?v0")
    case (Inl v)
    have "tidy (v_reasons v)" by (rule data_sharing_block_codes(1) [OF h Inl])
    with n show ?thesis using True Inl by (simp add: decide_same_type_def)
  next
    case (Inr v)
    have v: "set (v_reasons v) \<subseteq> set base_codes" by (rule data_sharing_block_codes(2) [OF h Inr])
    show ?thesis
    proof (cases "shm_block w r v")
      case s: (Inl v')
      have "tidy (v_reasons v')" by (rule tidy_base [OF shm_block_codes(1) [OF v s]])
      with n show ?thesis using True Inr s by (simp add: decide_same_type_def)
    next
      case s: (Inr v')
      have "tidy (v_reasons (network_block w r v'))"
        by (rule tidy_base [OF network_block_codes [OF shm_block_codes(2) [OF v s]]])
      with n show ?thesis using True Inr s by (simp add: decide_same_type_def)
    qed
  qed
qed

lemma replace_code_absent: "a \<notin> set cs \<Longrightarrow> replace_code cs a b = cs @ [b]"
  by (induction cs) auto

lemma replace_code_present: "a \<notin> set xs \<Longrightarrow> replace_code (xs @ a # ys) a b = xs @ b # ys"
  by (induction xs) auto

lemma not_base:
  "unverified \<notin> set base_codes" "''intra-process'' \<notin> set base_codes"
  "''type-names-differ-same-type'' \<notin> set base_codes"
  by (simp_all add: base_codes_def)

text \<open>Tidy reasons after the replacement: \<open>intra-process\<close> is there, \<open>unverified\<close> is not.\<close>

lemma tidy_replace:
  assumes "tidy cs" and "unverified \<notin> set ys"
  shows "''intra-process'' \<in> set (replace_code (cs @ ys) unverified ''intra-process'')"
    and "unverified \<notin> set (replace_code (cs @ ys) unverified ''intra-process'')"
proof -
  obtain xs where xs: "set xs \<subseteq> set base_codes" "cs = xs \<or> cs = xs @ [unverified]"
    using assms(1) by (auto simp: tidy_def)
  then have "unverified \<notin> set xs" using not_base by auto
  with xs(2) assms(2)
  show "''intra-process'' \<in> set (replace_code (cs @ ys) unverified ''intra-process'')"
    and "unverified \<notin> set (replace_code (cs @ ys) unverified ''intra-process'')"
    by (auto simp: replace_code_absent replace_code_present)
qed

lemma qos_incompatible_warned:
  assumes "\<not> types_unmatched w r"
  shows "''qos-incompatible'' \<in> set (v_warnings (decide_same_type fnm w r)) \<longleftrightarrow> \<not> matched fnm w r"
proof -
  obtain out where o: "outcome_rel fnm w r out"
    "v_warnings (decide_same_type fnm w r) = outcome_warnings w r out"
    using decide_same_type_refines [OF assms] by blast
  then show ?thesis
    by (elim outcome_relE) (auto simp: ip_warnings_def matched_def)
qed

lemma decide_reasons:
  assumes "\<not> types_unmatched w r"
  shows "v_reasons (decide fnm w r) =
    (let cs = v_reasons (decide_same_type fnm w r) @
         (if dds_type w \<noteq> dds_type r then [''type-names-differ-same-type''] else [])
     in if intra_process_pair w r \<and> matched fnm w r
        then replace_code cs unverified ''intra-process'' else cs)"
  using assms qos_incompatible_warned [OF assms, of fnm] by (simp add: decide_def Let_def)

subsection \<open>The reasons of an outcome\<close>

text \<open>What speaks for two IPC namespaces, and what the data-sharing QoS of the endpoints say.\<close>

definition shm_evidence :: "endpoint \<Rightarrow> endpoint \<Rightarrow> string list" where
  "shm_evidence w r =
     (if shm_ports w \<inter> shm_ports r \<noteq> {} then [''shm-port-collision''] else []) @
     (case (participant_shm_visibility w, participant_shm_visibility r) of
        (Visible, NotVisible) \<Rightarrow> [''shm-reader-port-not-visible'']
      | (NotVisible, Visible) \<Rightarrow> [''shm-writer-port-not-visible'']
      | _ \<Rightarrow> [])"

definition ds_evidence :: "endpoint \<Rightarrow> endpoint \<Rightarrow> string list" where
  "ds_evidence w r =
     (case (datasharing_segment_visibility w, datasharing_segment_visibility r) of
        (Visible, NotVisible) \<Rightarrow> [''datasharing-reader-segment-not-visible'']
      | (NotVisible, Visible) \<Rightarrow> [''datasharing-writer-segment-not-visible'']
      | _ \<Rightarrow> [])"

definition other_participants :: "endpoint \<Rightarrow> endpoint \<Rightarrow> bool" where
  "other_participants w r \<longleftrightarrow> participant_guid_prefix w \<noteq> participant_guid_prefix r"

fun ds_refusal :: "data_sharing_kind \<times> data_sharing_kind \<Rightarrow> string" where
  "ds_refusal (DsOff, _) = ''datasharing-disabled-writer''"
| "ds_refusal (_, DsOff) = ''datasharing-disabled-reader''"
| "ds_refusal (DsUnknown, _) = ''datasharing-qos-unknown''"
| "ds_refusal (_, DsUnknown) = ''datasharing-qos-unknown''"
| "ds_refusal _ = ''datasharing-domain-ids-mismatch''"

definition ds_agreed :: "endpoint \<Rightarrow> endpoint \<Rightarrow> string list" where
  "ds_agreed w r = [''datasharing-qos-enabled-both'',
     if [] \<in> {data_sharing_domains (qos w), data_sharing_domains (qos r)}
     then ''datasharing-domain-ids-unknown'' else ''datasharing-domain-ids-match'']"

text \<open>How far the code got before it looked at shared memory or the network.\<close>

definition way_there :: "endpoint \<Rightarrow> endpoint \<Rightarrow> string list" where
  "way_there w r =
     (if \<not> same_host w r
      then ''different-host'' # (if both_shm w r then [''shm-locators-ignored-across-hosts''] else [])
      else ''same-host-guid'' #
        (if ds_ready w r then ds_agreed w r
         else ds_refusal (data_sharing (qos w), data_sharing (qos r)) #
           (if both_shm w r then [''both-shm-locators'']
            else (if speaks w LocSHM then [] else [''writer-no-shm-locator'']) @
                 (if speaks r LocSHM then [] else [''reader-no-shm-locator'']))))"

fun outcome_reasons :: "(string \<Rightarrow> string \<Rightarrow> bool) \<Rightarrow> endpoint \<Rightarrow> endpoint \<Rightarrow> outcome \<Rightarrow> string list" where
  "outcome_reasons fnm w r OutUnmatched = map ((@) ''qos-incompatible-'') (qos_incompatibilities fnm w r)"
| "outcome_reasons fnm w r OutSplit = way_there w r @
     (if ds_ready w r
      then (if both_shm w r then ''both-shm-locators'' # (if other_participants w r then shm_evidence w r else []) else []) @
           (if other_participants w r then ds_evidence w r else [])
      else shm_evidence w r)"
| "outcome_reasons fnm w r OutDataSharing = way_there w r @
     [if intra_process_pair w r then ''intra-process'' else unverified]"
| "outcome_reasons fnm w r (OutShm l) = way_there w r"
| "outcome_reasons fnm w r (OutNet l mc) = way_there w r @ [reason_for (loc_kind l)]"
| "outcome_reasons fnm w r OutHidden = way_there w r @ [''same-host-locators-hidden'']"
| "outcome_reasons fnm w r OutNone = way_there w r @ [''no-common-transport'']"

definition table_reasons :: "(string \<Rightarrow> string \<Rightarrow> bool) \<Rightarrow> endpoint \<Rightarrow> endpoint \<Rightarrow> outcome \<Rightarrow> string list" where
  "table_reasons fnm w r out =
     (if types_unmatched w r
      then [if dds_type w = dds_type r then ''type-information-mismatch'' else ''type-name-mismatch'']
      else outcome_reasons fnm w r out @
        (if dds_type w = dds_type r then [] else [''type-names-differ-same-type'']) @
        (if intra_process_pair w r \<and> matched fnm w r \<and> out \<noteq> OutDataSharing then [''intra-process''] else []))"

definition table_warnings :: "endpoint \<Rightarrow> endpoint \<Rightarrow> outcome \<Rightarrow> string list" where
  "table_warnings w r out =
     (if types_unmatched w r then [] else outcome_warnings w r out) @
     (if ros_hashes_differ w r then [''type-hash-mismatch''] else [])"

lemma evidence_eq:
  "ipc_split_reasons w r = (if other_participants w r then shm_evidence w r else [])"
  "datasharing_split_reasons w r = (if other_participants w r then ds_evidence w r else [])"
  by (cases "participant_shm_visibility w"; cases "participant_shm_visibility r";
      auto simp: ipc_split_reasons_def shm_evidence_def other_participants_def)
    (cases "datasharing_segment_visibility w"; cases "datasharing_segment_visibility r";
      simp add: datasharing_split_reasons_def ds_evidence_def other_participants_def)

lemma data_sharing_block_refuses:
  assumes "\<not> ds_ready w r"
  shows "data_sharing_block w r v = Inr (reason (ds_refusal (data_sharing (qos w), data_sharing (qos r))) v)"
  using assms
  by (cases "data_sharing (qos w)"; cases "data_sharing (qos r)")
    (auto simp: data_sharing_block_def ds_ready_def domains_intersect_iff Let_def)

lemma data_sharing_block_agrees:
  assumes "ds_ready w r"
  shows "\<exists>v'. data_sharing_block w r v = Inl v' \<and> v_reasons v' = v_reasons v @ ds_agreed w r @
    (if both_shm w r \<and> ipc_split w r \<or> ds_split w r
     then (if both_shm w r then ''both-shm-locators'' # ipc_split_reasons w r else []) @ datasharing_split_reasons w r
     else [unverified])"
proof -
  have nd: "\<not> (data_sharing_domains (qos w) \<noteq> [] \<and> data_sharing_domains (qos r) \<noteq> [] \<and>
      \<not> domains_intersect (data_sharing_domains (qos w)) (data_sharing_domains (qos r)))"
    and k: "data_sharing (qos w) \<noteq> DsOff" "data_sharing (qos r) \<noteq> DsOff"
      "data_sharing (qos w) \<noteq> DsUnknown" "data_sharing (qos r) \<noteq> DsUnknown"
    using assms by (auto simp: ds_ready_def domains_intersect_iff)
  have s: "((if has_kind w LocSHM \<and> has_kind r LocSHM then ipc_split_reasons w r else []) @
      datasharing_split_reasons w r \<noteq> []) \<longleftrightarrow> both_shm w r \<and> ipc_split w r \<or> ds_split w r"
    using ipc_split_reasons_iff [of w r] datasharing_split_reasons_iff [of w r]
    by (auto simp: both_shm_def has_kind_speaks)
  show ?thesis using nd k s by (auto simp: data_sharing_block_def ds_agreed_def both_shm_def has_kind_speaks Let_def)
qed

lemma shm_block_reasons:
  "both_shm w r \<Longrightarrow> \<exists>v'. shm_block w r v = Inl v' \<and>
     v_reasons v' = v_reasons v @ ''both-shm-locators'' # ipc_split_reasons w r"
  "\<not> both_shm w r \<Longrightarrow> shm_block w r v = Inr (reasons ((if speaks w LocSHM then [] else [''writer-no-shm-locator'']) @
     (if speaks r LocSHM then [] else [''reader-no-shm-locator''])) v)"
  by (auto simp: shm_block_def both_shm_def has_kind_speaks Let_def split: option.split)

lemma matched_blocks:
  assumes "matched fnm w r"
  shows "decide_same_type fnm w r =
    (if same_host w r
     then (case data_sharing_block w r (ip_block w r (reason ''same-host-guid'' verdict0)) of
             Inl v \<Rightarrow> v
           | Inr v \<Rightarrow> (case shm_block w r v of Inl v \<Rightarrow> v | Inr v \<Rightarrow> network_block w r v))
     else network_block w r (other_host_block w r verdict0))"
  using assms by (simp add: decide_same_type_def matched_def same_host_def)

lemma shm_reasons_here:
  assumes "matched fnm w r" "same_host w r" "\<not> ds_ready w r" "both_shm w r"
  shows "v_reasons (decide_same_type fnm w r) = way_there w r @ ipc_split_reasons w r"
  using assms shm_block_reasons(1) [of w r "reason (ds_refusal (data_sharing (qos w), data_sharing (qos r)))
      (ip_block w r (reason ''same-host-guid'' verdict0))"]
  by (auto simp: matched_blocks data_sharing_block_refuses way_there_def)

lemma ds_reasons_here:
  assumes "matched fnm w r" "same_host w r" "ds_ready w r"
  shows "v_reasons (decide_same_type fnm w r) = way_there w r @
    (if both_shm w r \<and> ipc_split w r \<or> ds_split w r
     then (if both_shm w r then ''both-shm-locators'' # ipc_split_reasons w r else []) @ datasharing_split_reasons w r
     else [unverified])"
  using assms(2,3) data_sharing_block_agrees [OF assms(3), of "ip_block w r (reason ''same-host-guid'' verdict0)"]
  by (auto simp: matched_blocks [OF assms(1)] way_there_def)

lemma network_here:
  assumes "matched fnm w r" "\<not> (same_host w r \<and> (ds_ready w r \<or> both_shm w r))"
  shows "\<exists>v. decide_same_type fnm w r = network_block w r v \<and> v_reasons v = way_there w r"
proof (cases "same_host w r")
  case True
  then have no: "\<not> ds_ready w r" "\<not> both_shm w r" using assms(2) by auto
  define v where "v = reasons ((if speaks w LocSHM then [] else [''writer-no-shm-locator'']) @
      (if speaks r LocSHM then [] else [''reader-no-shm-locator'']))
    (reason (ds_refusal (data_sharing (qos w), data_sharing (qos r))) (ip_block w r (reason ''same-host-guid'' verdict0)))"
  have "decide_same_type fnm w r = network_block w r v"
    using True no by (simp add: matched_blocks [OF assms(1)] data_sharing_block_refuses shm_block_reasons(2) v_def)
  moreover have "v_reasons v = way_there w r" using True no by (simp add: v_def way_there_def)
  ultimately show ?thesis by blast
next
  case False
  then show ?thesis
    by (auto simp: matched_blocks [OF assms(1)] other_host_block_def way_there_def both_shm_def has_kind_speaks Let_def)
qed

lemma same_type_reasons:
  assumes "outcome_rel fnm w r out" "\<not> types_unmatched w r"
  shows "v_reasons (decide_same_type fnm w r) =
    (if out = OutDataSharing then way_there w r @ [unverified] else outcome_reasons fnm w r out)"
  using assms(1)
proof cases
  case unmatched
  then have "qos_incompatibilities fnm w r \<noteq> []" using assms(2) by (simp add: matched_def)
  then show ?thesis using unmatched by (simp add: decide_same_type_def qos_verdict_def)
next
  case ds_lost
  then show ?thesis by (auto simp: ds_reasons_here evidence_eq ds_split_def other_participants_def)
next
  case ds
  then show ?thesis by (auto simp: ds_reasons_here)
next
  case shm_lost
  then show ?thesis by (simp add: shm_reasons_here evidence_eq ipc_split_def other_participants_def)
next
  case (shm l)
  then show ?thesis using ipc_split_reasons_iff [of w r] by (simp add: shm_reasons_here)
next
  case (net l)
  obtain v where "decide_same_type fnm w r = network_block w r v" "v_reasons v = way_there w r"
    using network_here [OF net(2,3)] by blast
  moreover have "pick_network_locator w r = Some (l, \<not> (\<exists>u \<in> set (unicast r). reachable_by w u))"
    using net(4) by (simp add: pick_network_locator_eq find_first_such)
  ultimately show ?thesis using net(1) by (simp add: network_block_def)
next
  case hidden
  obtain v where "decide_same_type fnm w r = network_block w r v" "v_reasons v = way_there w r"
    using network_here [OF hidden(2,3)] by blast
  moreover have "pick_network_locator w r = None" using hidden(4) by (simp add: pick_network_locator_None)
  ultimately show ?thesis using hidden by (simp add: network_block_def)
next
  case none
  obtain v where "decide_same_type fnm w r = network_block w r v" "v_reasons v = way_there w r"
    using network_here [OF none(2,3)] by blast
  moreover have "pick_network_locator w r = None" using none(4) by (simp add: pick_network_locator_None)
  ultimately show ?thesis using none by (simp add: network_block_def)
qed

lemma unverified_not_there:
  "unverified \<notin> set (way_there w r)" "out \<noteq> OutDataSharing \<Longrightarrow> unverified \<notin> set (outcome_reasons fnm w r out)"
proof -
  have refusal: "unverified \<noteq> ds_refusal k" for k by (induction k rule: ds_refusal.induct) auto
  then show way: "unverified \<notin> set (way_there w r)" by (auto simp: way_there_def ds_agreed_def)
  have "unverified \<noteq> reason_for k" for k by (cases k) auto
  moreover have "unverified \<notin> set (shm_evidence w r)" "unverified \<notin> set (ds_evidence w r)"
    by (auto simp: shm_evidence_def ds_evidence_def split: shm_visibility.splits if_splits)
  ultimately show "unverified \<notin> set (outcome_reasons fnm w r out)" if "out \<noteq> OutDataSharing"
    using way that by (cases out) auto
qed

lemma decide_reasons_table:
  assumes "outcome_rel fnm w r out"
  shows "v_reasons (decide fnm w r) = table_reasons fnm w r out"
proof (cases "types_unmatched w r")
  case True
  then show ?thesis by (simp add: decide_def type_verdict_def table_reasons_def Let_def)
next
  case False
  show ?thesis
  proof (cases "out = OutDataSharing")
    case True
    then have "matched fnm w r" using assms by (auto elim: outcome_relE)
    then show ?thesis using True False same_type_reasons [OF assms False] unverified_not_there
      by (simp add: decide_reasons table_reasons_def replace_code_present Let_def)
  next
    case no: False
    then show ?thesis using False same_type_reasons [OF assms False] unverified_not_there(2) [OF no, of fnm w r]
      by (simp add: decide_reasons table_reasons_def replace_code_absent Let_def)
  qed
qed

subsection \<open>Properties\<close>

text \<open>Two endpoints of one participant pair the samples and witnesses below use.\<close>

definition udp :: "string \<Rightarrow> u32 \<Rightarrow> locator" where
  "udp a p = \<lparr>loc_kind = LocUDPv4, loc_address = a, loc_port = p\<rparr>"

definition shm_loc :: "u32 \<Rightarrow> locator" where
  "shm_loc p = \<lparr>loc_kind = LocSHM, loc_address = [], loc_port = p\<rparr>"

definition sample :: "bool \<Rightarrow> u8 \<Rightarrow> u8 \<Rightarrow> locator list \<Rightarrow> endpoint" where
  "sample wr host part ls = endpoint0\<lparr>is_writer := wr,
     guid_bytes := [0x01, 0x0f, host, 0, part, 0, 0, 0, 0, 0, 0, 0, 0, 0, 3, 3],
     ep_host_id := [0x01, 0x0f, host, 0], participant_guid_prefix := hex02 part,
     guid := hex02 part @ (if wr then ''w'' else ''r''),
     dds_topic := ''rt/chatter'', dds_type := ''T'', unicast := ls\<rparr>"

lemmas sample_defs = sample_def udp_def shm_loc_def endpoint0_def endpoint_qos0_def locator0_def

text \<open>
  C1. The verdict of \<open>decide\<close> is the outcome of the abstract decision table: for any two
  endpoints exactly one rule of the table applies, and transport, confidence, selected
  locator, multicast flag, the list of reasons and the list of warnings of the code's verdict
  are the ones that rule gives, code by code and in their order.
\<close>

theorem decide_refines_table:
  "\<exists>out. {o'. outcome_rel fnm w r o'} = {out} \<and> core (decide fnm w r) = outcome_core out \<and>
     v_reasons (decide fnm w r) = table_reasons fnm w r out \<and>
     v_warnings (decide fnm w r) = table_warnings w r out"
proof -
  obtain out where out: "outcome_rel fnm w r out" "core (decide fnm w r) = outcome_core out"
    "v_warnings (decide fnm w r) = table_warnings w r out"
    using decide_refines [of fnm w r] unfolding table_warnings_def by blast
  moreover have "{o'. outcome_rel fnm w r o'} = {out}" using out(1) outcome_rel_unique by blast
  ultimately show ?thesis using decide_reasons_table [OF out(1)] by blast
qed

text \<open>
  C27. A verdict SHM is only given between two matched endpoints on one host that both announce
  a SHM locator, are not ready for data-sharing, and show no evidence of two IPC namespaces;
  it is certain and names a SHM locator the reader announced.
\<close>

theorem decide_shm_sound:
  assumes "v_transport (decide fnm w r) = SHM"
  shows "matched fnm w r \<and> same_host w r \<and> both_shm w r \<and> \<not> ds_ready w r \<and> \<not> ipc_split w r \<and>
    v_confidence (decide fnm w r) = Certain \<and>
    announces r (v_locator (decide fnm w r)) \<and> loc_kind (v_locator (decide fnm w r)) = LocSHM"
proof -
  obtain out where o: "outcome_rel fnm w r out" "core (decide fnm w r) = outcome_core out"
    using decide_refines by blast
  have n: "first_such (reachable_by w) xs l \<Longrightarrow> SHM = transport_for (loc_kind l) \<Longrightarrow> False" for xs l
    by (cases "loc_kind l") (auto simp: reachable_by_def first_such_def)
  from o show ?thesis using assms
    by (elim outcome_relE) (auto simp: core_def dest: first_such_announced n)
qed

theorem decide_shm_sound_witness:
  "v_transport (decide (\<lambda>_ _. False) (sample True 1 1 [shm_loc 7411]) (sample False 1 2 [shm_loc 7413])) = SHM \<and>
   both_shm (sample True 1 1 [shm_loc 7411]) (sample False 1 2 [shm_loc 7413])"
proof -
  have "v_transport (decide (\<lambda>_ _. False) (sample True 1 1 [shm_loc 7411]) (sample False 1 2 [shm_loc 7413])) = SHM"
    by (simp add: decide_def types_unmatched_def type_information_match_def decide_same_type_def
        qos_incompatibilities_def partitions_match_def durability_rank_def liveliness_rank_def
        ip_block_def data_sharing_block_def shm_block_def has_kind_def find_locator_def
        ipc_split_reasons_def shm_ports_def intra_process_pair_def ros_hashes_differ_def
        sample_defs hex02_def digit_def Let_def)
  then show ?thesis using decide_shm_sound by blast
qed

text \<open>
  A certain verdict for a network transport names a locator the reader announced, of the
  kind of the transport and spoken by the writer; it is the first such locator of the reader
  in announced order, unicast before multicast, and the multicast flag tells which.
\<close>

theorem decide_network_sound:
  assumes "v_transport (decide fnm w r) \<in> {UDPv4, UDPv6, TCPv4, TCPv6}"
    and "v_confidence (decide fnm w r) = Certain"
  shows "matched fnm w r \<and>
    first_such (reachable_by w) (unicast r @ multicast r) (v_locator (decide fnm w r)) \<and>
    transport_for (loc_kind (v_locator (decide fnm w r))) = v_transport (decide fnm w r) \<and>
    speaks w (loc_kind (v_locator (decide fnm w r))) \<and>
    (v_locator_multicast (decide fnm w r) \<longleftrightarrow> \<not> (\<exists>u \<in> set (unicast r). reachable_by w u))"
proof -
  obtain out where o: "outcome_rel fnm w r out" "core (decide fnm w r) = outcome_core out"
    using decide_refines by blast
  then show ?thesis using assms
    by (elim outcome_relE) (auto simp: core_def reachable_by_def dest: first_such_announced)
qed

theorem decide_network_sound_witness:
  "v_locator (decide (\<lambda>_ _. False) (sample True 1 1 [udp ''10.0.0.1'' 7411]) (sample False 2 2 [udp ''10.0.0.2'' 7413]))
     = udp ''10.0.0.2'' 7413 \<and>
   matched (\<lambda>_ _. False) (sample True 1 1 [udp ''10.0.0.1'' 7411]) (sample False 2 2 [udp ''10.0.0.2'' 7413])"
proof -
  let ?v = "decide (\<lambda>_ _. False) (sample True 1 1 [udp ''10.0.0.1'' 7411]) (sample False 2 2 [udp ''10.0.0.2'' 7413])"
  have "v_transport ?v = UDPv4 \<and> v_confidence ?v = Certain \<and> v_locator ?v = udp ''10.0.0.2'' 7413"
    by (simp add: decide_def types_unmatched_def type_information_match_def decide_same_type_def
        qos_incompatibilities_def partitions_match_def durability_rank_def liveliness_rank_def
        other_host_block_def network_block_def pick_network_locator_def network_kinds_def
        has_kind_def intra_process_pair_def ros_hashes_differ_def
        sample_defs hex02_def digit_def Let_def)
  then show ?thesis using decide_network_sound [of "\<lambda>_ _. False"] by simp
qed

text \<open>
  The warning \<open>shm-ipc-namespace-split\<close>, and with it the verdict NONE, is given exactly to
  the matched same-host pairs whose delivery path goes through shared memory in two IPC
  namespaces: data-sharing pairs with SHM or data-sharing evidence, other SHM pairs with
  SHM evidence.
\<close>

theorem decide_split_iff:
  "''shm-ipc-namespace-split'' \<in> set (v_warnings (decide fnm w r)) \<longleftrightarrow>
     matched fnm w r \<and> same_host w r \<and>
     (if ds_ready w r then both_shm w r \<and> ipc_split w r \<or> ds_split w r
      else both_shm w r \<and> ipc_split w r)"
proof -
  obtain out where o: "outcome_rel fnm w r out"
    "v_warnings (decide fnm w r) = (if types_unmatched w r then [] else outcome_warnings w r out) @
      (if ros_hashes_differ w r then [''type-hash-mismatch''] else [])"
    using decide_refines [of fnm w r] by blast
  have "''shm-ipc-namespace-split'' \<in> set (v_warnings (decide fnm w r)) \<longleftrightarrow>
      \<not> types_unmatched w r \<and> out = OutSplit"
    using o(2) by (cases out) (auto simp: ip_warnings_def)
  with o(1) show ?thesis
    by (elim outcome_relE) (auto simp: matched_def)
qed

text \<open>
  A pair gets the reason \<open>intra-process\<close> exactly when the endpoints match and live in one
  process, and then never the reason \<open>datasharing-unverified-by-traffic\<close>, whose verification
  could not come.
\<close>

theorem decide_intra_process_iff:
  "(''intra-process'' \<in> set (v_reasons (decide fnm w r)) \<longleftrightarrow>
      matched fnm w r \<and> intra_process_pair w r) \<and>
   \<not> (''intra-process'' \<in> set (v_reasons (decide fnm w r)) \<and>
      unverified \<in> set (v_reasons (decide fnm w r)))"
proof (cases "types_unmatched w r")
  case True
  then show ?thesis by (auto simp: decide_def type_verdict_def matched_def Let_def)
next
  case False
  let ?cs = "v_reasons (decide_same_type fnm w r)"
  let ?ys = "if dds_type w \<noteq> dds_type r then [''type-names-differ-same-type''] else []"
  have "''intra-process'' \<notin> set (?cs @ ?ys)"
    using decide_same_type_tidy [of fnm w r] not_base by (auto simp: tidy_def)
  moreover have "unverified \<notin> set ?ys" by simp
  ultimately show ?thesis
    using tidy_replace [OF decide_same_type_tidy [of fnm w r], of ?ys]
    by (auto simp: decide_reasons [OF False] Let_def)
qed

text \<open>
  A request is compatible with an identical offer: no policy of an endpoint paired with
  one of the same QoS is reported, whatever \<open>fnmatch\<close> says of its partition names.
\<close>

theorem qos_self_compatible: "qos w = qos r \<Longrightarrow> qos_incompatibilities fnm w r = []"
  by (cases "partitions (qos r)") (auto simp: qos_incompatibilities_def partitions_match_def Let_def)

theorem qos_self_compatible_witness:
  "qos_incompatibilities (\<lambda>_ _. False) (sample True 1 1 []) (sample False 2 2 []) = []"
proof -
  have "qos (sample True 1 1 []) = qos (sample False 2 2 [])" by (simp add: sample_defs)
  then show ?thesis by (rule qos_self_compatible)
qed

text \<open>
  Living in one process is symmetric and transitive, as a property of the eProsima
  processes behind the GUIDs must be.
\<close>

theorem intra_process_pair_equiv:
  "intra_process_pair a b \<Longrightarrow>
     intra_process_pair b a \<and> (intra_process_pair b c \<longrightarrow> intra_process_pair a c)"
proof -
  have k: "take 2 (guid_bytes x) = take 2 (guid_bytes y)"
    if "take 8 (guid_bytes x) = take 8 (guid_bytes y)" for x y
    using arg_cong [OF that, of "take 2"] by simp
  assume ab: "intra_process_pair a b"
  then have e: "take 8 (guid_bytes a) = take 8 (guid_bytes b)" and "take 2 (guid_bytes a) = [1, 15]"
    unfolding intra_process_pair_def by blast+
  then have b: "take 2 (guid_bytes b) = [1, 15]" using k [OF e] by simp
  show ?thesis
    unfolding intra_process_pair_def e using b \<open>take 2 (guid_bytes a) = [1, 15]\<close> by blast
qed

theorem intra_process_pair_equiv_witness:
  "intra_process_pair (sample False 1 1 []) (sample True 1 1 [])"
proof -
  have "intra_process_pair (sample True 1 1 []) (sample False 1 1 [])"
    by (simp add: intra_process_pair_def sample_defs)
  then show ?thesis using intra_process_pair_equiv by blast
qed

end
