(* ===== verification/Buffer_Links.thy ===== *)
theory Buffer_Links
  imports Decide
begin

text \<open>
  The native-buffer companions of rmw_fastrtps_cpp (\<open>link_buffer_companions\<close> of
  \<open>src/decision.cpp\<close>): an endpoint on \<open><topic>/_buf_cpu\<close> is linked to the one endpoint of the
  parent topic it carries the data of. The endpoints vector is updated in place, one index
  after the other, as the loop does.
\<close>

definition kBufferCompanionSuffix :: string where
  "kBufferCompanionSuffix = ''/_buf_cpu''"

definition is_buffer_companion_topic :: "string \<Rightarrow> bool" where
  "is_buffer_companion_topic t \<longleftrightarrow>
     length kBufferCompanionSuffix < length t \<and> ends_with t kBufferCompanionSuffix"

definition entity_key :: "endpoint \<Rightarrow> u32" where
  "entity_key e =
     push_bit 16 (ucast (guid_bytes e ! 12)) OR push_bit 8 (ucast (guid_bytes e ! 13)) OR
     ucast (guid_bytes e ! 14)"

definition buffer_codes :: "endpoint list \<Rightarrow> string list" where
  "buffer_codes es =
     (if list_ex (\<lambda>e. buffer_companion_guids e \<noteq> []) es then [''buffer-companion-folded''] else []) @
     (if list_ex (\<lambda>e. buffer_parent_guid e \<noteq> []) es then [''buffer-companion''] else []) @
     (if list_ex (\<lambda>e. buffer_parent_guid e = [] \<and> is_buffer_companion_topic (dds_topic e)) es
      then [''buffer-companion-unmatched''] else [])"

definition clear_links :: "endpoint \<Rightarrow> endpoint" where
  "clear_links e = e\<lparr>buffer_parent_guid := [], buffer_companion_guids := []\<rparr>"

definition parent_candidates :: "endpoint list \<Rightarrow> nat \<Rightarrow> nat list" where
  "parent_candidates eps i =
     (let c = eps ! i;
          parent_topic = take (length (dds_topic c) - length kBufferCompanionSuffix) (dds_topic c)
      in filter (\<lambda>j. let p = eps ! j in
             j \<noteq> i \<and> is_writer p = is_writer c \<and>
             participant_guid_prefix p = participant_guid_prefix c \<and> dds_type p = dds_type c \<and>
             dds_topic p = parent_topic) [0..<length eps])"

definition parent_of :: "endpoint list \<Rightarrow> nat \<Rightarrow> nat option" where
  "parent_of eps i =
     (if \<not> is_buffer_companion_topic (dds_topic (eps ! i)) then None
      else (case parent_candidates eps i of
              [] \<Rightarrow> None
            | [j] \<Rightarrow> Some j
            | js \<Rightarrow> find (\<lambda>j. entity_key (eps ! j) + 1 = entity_key (eps ! i) \<and>
                guid_bytes (eps ! j) ! 15 = guid_bytes (eps ! i) ! 15) js))"

definition link_step :: "nat \<Rightarrow> endpoint list \<Rightarrow> endpoint list" where
  "link_step i eps =
     (case parent_of eps i of
        None \<Rightarrow> eps
      | Some j \<Rightarrow>
          (let eps1 = eps[i := (eps ! i)\<lparr>buffer_parent_guid := guid (eps ! j)\<rparr>]
           in eps1[j := (eps1 ! j)\<lparr>buffer_companion_guids :=
                buffer_companion_guids (eps1 ! j) @ [guid (eps1 ! i)]\<rparr>]))"

definition link_buffer_companions :: "endpoint list \<Rightarrow> endpoint list" where
  "link_buffer_companions eps = fold link_step [0..<length eps] (map clear_links eps)"

subsection \<open>What the loop computes\<close>

lemma parent_candidates_cong:
  assumes "length xs = length ys" "\<And>j. j < length xs \<Longrightarrow> clear_links (xs ! j) = clear_links (ys ! j)"
    and "i < length xs"
  shows "parent_candidates xs i = parent_candidates ys i"
proof -
  have f: "is_writer (xs ! j) = is_writer (ys ! j) \<and> dds_type (xs ! j) = dds_type (ys ! j) \<and>
      participant_guid_prefix (xs ! j) = participant_guid_prefix (ys ! j) \<and>
      dds_topic (xs ! j) = dds_topic (ys ! j)" if "j < length xs" for j
    using assms(2) [OF that] by (cases "xs ! j"; cases "ys ! j") (simp add: clear_links_def)
  show ?thesis
    using f assms(1,3) by (auto simp: parent_candidates_def Let_def intro!: filter_cong)
qed

lemma parent_candidates_bound: "j \<in> set (parent_candidates eps i) \<Longrightarrow> j < length eps \<and> j \<noteq> i"
  by (auto simp: parent_candidates_def Let_def)

lemma parent_of_candidate: "parent_of eps i = Some j \<Longrightarrow> j \<in> set (parent_candidates eps i)"
  by (auto simp: parent_of_def find_Some_iff split: if_splits list.splits)

lemma parent_of_cong:
  assumes "length xs = length ys" "\<And>j. j < length xs \<Longrightarrow> clear_links (xs ! j) = clear_links (ys ! j)"
    and "i < length xs"
  shows "parent_of xs i = parent_of ys i"
proof -
  have f: "dds_topic (xs ! j) = dds_topic (ys ! j) \<and> guid_bytes (xs ! j) = guid_bytes (ys ! j)"
    if "j < length xs" for j
    using assms(2) [OF that] by (cases "xs ! j"; cases "ys ! j") (simp add: clear_links_def)
  then have e: "entity_key (xs ! j) = entity_key (ys ! j)" if "j < length xs" for j
    using that by (simp add: entity_key_def)
  have "find (\<lambda>j. entity_key (xs ! j) + 1 = entity_key (xs ! i) \<and>
        guid_bytes (xs ! j) ! 15 = guid_bytes (xs ! i) ! 15) (parent_candidates ys i) =
      find (\<lambda>j. entity_key (ys ! j) + 1 = entity_key (ys ! i) \<and>
        guid_bytes (ys ! j) ! 15 = guid_bytes (ys ! i) ! 15) (parent_candidates ys i)"
    using f e assms(1,3) by (intro find_cong) (auto dest: parent_candidates_bound)
  then show ?thesis
    using f [OF assms(3)] parent_candidates_cong [OF assms]
    unfolding parent_of_def by (auto split: list.split)
qed

text \<open>The vector after the first \<open>k\<close> steps.\<close>

definition linked_upto :: "endpoint list \<Rightarrow> nat \<Rightarrow> endpoint list" where
  "linked_upto eps k = map (\<lambda>i. (eps ! i)\<lparr>
       buffer_parent_guid := (if i < k then (case parent_of eps i of None \<Rightarrow> [] | Some j \<Rightarrow> guid (eps ! j)) else []),
       buffer_companion_guids := map (\<lambda>c. guid (eps ! c)) (filter (\<lambda>c. parent_of eps c = Some i) [0..<k])\<rparr>)
     [0..<length eps]"

lemma linked_upto_0: "linked_upto eps 0 = map clear_links eps"
  by (rule nth_equalityI) (simp_all add: linked_upto_def clear_links_def)

lemma length_linked_upto [simp]: "length (linked_upto eps k) = length eps"
  by (simp add: linked_upto_def)

lemma clear_linked_upto: "j < length eps \<Longrightarrow> clear_links (linked_upto eps k ! j) = clear_links (eps ! j)"
  by (simp add: linked_upto_def clear_links_def)

lemma parent_of_linked_upto: "i < length eps \<Longrightarrow> parent_of (linked_upto eps k) i = parent_of eps i"
  by (rule parent_of_cong) (simp_all add: clear_linked_upto)

lemma linked_upto_nth:
  "i < length eps \<Longrightarrow> linked_upto eps k ! i = (eps ! i)\<lparr>
     buffer_parent_guid := (if i < k then (case parent_of eps i of None \<Rightarrow> [] | Some j \<Rightarrow> guid (eps ! j)) else []),
     buffer_companion_guids := map (\<lambda>c. guid (eps ! c)) (filter (\<lambda>c. parent_of eps c = Some i) [0..<k])\<rparr>"
  by (simp add: linked_upto_def)

lemma link_step_upto:
  assumes "k < length eps"
  shows "link_step k (linked_upto eps k) = linked_upto eps (Suc k)"
proof (cases "parent_of eps k")
  case None
  then have "link_step k (linked_upto eps k) = linked_upto eps k"
    by (simp add: link_step_def parent_of_linked_upto assms)
  also have "\<dots> = linked_upto eps (Suc k)"
    by (rule nth_equalityI) (auto simp: linked_upto_nth None less_Suc_eq)
  finally show ?thesis .
next
  case (Some j)
  then have j: "j < length eps" "j \<noteq> k"
    using parent_candidates_bound parent_of_candidate by blast+
  let ?x = "linked_upto eps k"
  have "link_step k ?x = ?x[k := (?x ! k)\<lparr>buffer_parent_guid := guid (eps ! j)\<rparr>,
      j := (?x ! j)\<lparr>buffer_companion_guids := buffer_companion_guids (?x ! j) @ [guid (eps ! k)]\<rparr>]"
    using j assms by (simp add: link_step_def parent_of_linked_upto Some Let_def linked_upto_nth)
  also have "\<dots> = linked_upto eps (Suc k)"
    using j assms Some
    by (intro nth_equalityI) (auto simp: nth_list_update linked_upto_nth less_Suc_eq)
  finally show ?thesis .
qed

lemma fold_link_step: "k \<le> length eps \<Longrightarrow> fold link_step [0..<k] (map clear_links eps) = linked_upto eps k"
  by (induction k) (simp_all add: linked_upto_0 link_step_upto)

lemma link_buffer_companions_eq: "link_buffer_companions eps = linked_upto eps (length eps)"
  by (simp add: link_buffer_companions_def fold_link_step)

lemma parent_of_sound:
  assumes "parent_of eps i = Some j"
  shows "j < length eps \<and> j \<noteq> i \<and> is_writer (eps ! j) = is_writer (eps ! i) \<and>
    participant_guid_prefix (eps ! j) = participant_guid_prefix (eps ! i) \<and>
    dds_type (eps ! j) = dds_type (eps ! i) \<and>
    dds_topic (eps ! i) = dds_topic (eps ! j) @ kBufferCompanionSuffix"
proof -
  have c: "j \<in> set (parent_candidates eps i)" using assms by (rule parent_of_candidate)
  have "is_buffer_companion_topic (dds_topic (eps ! i))"
    using assms by (auto simp: parent_of_def split: if_splits)
  then have "dds_topic (eps ! i) =
      take (length (dds_topic (eps ! i)) - length kBufferCompanionSuffix) (dds_topic (eps ! i)) @
      kBufferCompanionSuffix"
    by (auto simp: is_buffer_companion_topic_def ends_with_iff)
  with c show ?thesis by (simp add: parent_candidates_def Let_def)
qed

subsection \<open>Properties\<close>

text \<open>
  Linking is exact: every endpoint names the parent the candidate rule gives it, a parent
  lists precisely its companions in discovery order, nothing else of any endpoint changes, and
  a parent is another endpoint of the same participant, direction and type on the topic the
  companion's name extends.
\<close>

theorem link_buffer_companions_exact:
  assumes "i < length eps"
  shows "let e = link_buffer_companions eps ! i in
    clear_links e = clear_links (eps ! i) \<and>
    buffer_parent_guid e = (case parent_of eps i of None \<Rightarrow> [] | Some j \<Rightarrow> guid (eps ! j)) \<and>
    buffer_companion_guids e =
      map (\<lambda>c. guid (eps ! c)) (filter (\<lambda>c. parent_of eps c = Some i) [0..<length eps]) \<and>
    (\<forall>j. parent_of eps i = Some j \<longrightarrow>
      j < length eps \<and> j \<noteq> i \<and> is_writer (eps ! j) = is_writer (eps ! i) \<and>
      participant_guid_prefix (eps ! j) = participant_guid_prefix (eps ! i) \<and>
      dds_type (eps ! j) = dds_type (eps ! i) \<and>
      dds_topic (eps ! i) = dds_topic (eps ! j) @ kBufferCompanionSuffix)"
  using assms parent_of_sound [of eps i]
  by (auto simp: link_buffer_companions_eq clear_linked_upto Let_def) (simp_all add: linked_upto_def)

definition buf_eps :: "endpoint list" where
  "buf_eps = [endpoint0\<lparr>guid := ''p'', dds_topic := ''rt/a''\<rparr>,
              endpoint0\<lparr>guid := ''c'', dds_topic := ''rt/a/_buf_cpu''\<rparr>]"

theorem link_buffer_companions_exact_witness:
  "buffer_parent_guid (link_buffer_companions buf_eps ! 1) = ''p''"
proof -
  have "parent_of buf_eps 1 = Some 0"
    by (simp add: parent_of_def parent_candidates_def is_buffer_companion_topic_def
        kBufferCompanionSuffix_def ends_with_def buf_eps_def endpoint0_def numeral_2_eq_2)
  moreover have "1 < length buf_eps" and "guid (buf_eps ! 0) = ''p''"
    by (simp_all add: buf_eps_def)
  ultimately show ?thesis
    using link_buffer_companions_exact [of 1 buf_eps] unfolding Let_def by (simp only: option.case)
qed

text \<open>
  Linking again changes nothing: the links are recomputed from the endpoints and not
  accumulated, so the function can be called on every frame.
\<close>

theorem link_buffer_companions_idem:
  "link_buffer_companions (link_buffer_companions eps) = link_buffer_companions eps"
proof -
  let ?l = "linked_upto eps (length eps)"
  have p: "i < length eps \<Longrightarrow> parent_of ?l i = parent_of eps i" for i
    by (rule parent_of_linked_upto)
  have g: "i < length eps \<Longrightarrow> guid (?l ! i) = guid (eps ! i)" for i
    by (simp add: linked_upto_def)
  have "linked_upto ?l (length eps) = ?l"
  proof (rule nth_equalityI)
    fix i assume "i < length (linked_upto ?l (length eps))"
    then have i: "i < length eps" by simp
    have f: "filter (\<lambda>c. parent_of ?l c = Some i) [0..<length eps] =
        filter (\<lambda>c. parent_of eps c = Some i) [0..<length eps]"
      by (rule filter_cong) (simp_all add: p)
    have m: "map (\<lambda>c. guid (?l ! c)) (filter (\<lambda>c. parent_of eps c = Some i) [0..<length eps]) =
        map (\<lambda>c. guid (eps ! c)) (filter (\<lambda>c. parent_of eps c = Some i) [0..<length eps])"
      by (rule map_cong) (simp_all add: g)
    have q: "(case parent_of eps i of None \<Rightarrow> [] | Some j \<Rightarrow> guid (?l ! j)) =
        (case parent_of eps i of None \<Rightarrow> [] | Some j \<Rightarrow> guid (eps ! j))"
      using parent_of_sound [of eps i] g by (auto split: option.split)
    have "linked_upto ?l (length eps) ! i = (?l ! i)\<lparr>
        buffer_parent_guid := (case parent_of eps i of None \<Rightarrow> [] | Some j \<Rightarrow> guid (eps ! j)),
        buffer_companion_guids := map (\<lambda>c. guid (eps ! c)) (filter (\<lambda>c. parent_of eps c = Some i) [0..<length eps])\<rparr>"
      using i by (subst linked_upto_def) (simp add: p f m q)
    also have "\<dots> = ?l ! i" using i by (simp add: linked_upto_def)
    finally show "linked_upto ?l (length eps) ! i = ?l ! i" .
  qed simp
  then show ?thesis by (simp add: link_buffer_companions_eq)
qed

end
