(* ===== verification/Topics.thy ===== *)
theory Topics
  imports Buffer_Links Ros_Names
begin

text \<open>
  From endpoints to topics (\<open>summarize\<close>, \<open>classify_topics\<close>, \<open>filter_by_node\<close> and the default
  view of \<open>src/decision.cpp\<close>). An endpoint is the index of its entry in the snapshot's vector
  \<open>eps\<close>. \<open>std::sort\<close> leaves the order of equal keys open, so \<open>summarize\<close> takes the sorting
  function as its argument \<open>srt\<close>; \<open>sorts_by\<close> is what the library promises of it.
\<close>

definition sorts_by :: "('a \<Rightarrow> 'k::linorder) \<Rightarrow> ('a list \<Rightarrow> 'a list) \<Rightarrow> bool" where
  "sorts_by key srt \<longleftrightarrow>
     (\<forall>xs. mset (srt xs) = mset xs \<and> sorted (map key (srt xs)))"

lemma sorts_by_sort_key: "sorts_by key (sort_key key)"
  by (simp add: sorts_by_def)

subsection \<open>Summaries\<close>

definition add_endpoint :: "nat \<Rightarrow> endpoint \<Rightarrow> topic_summary \<Rightarrow> topic_summary" where
  "add_endpoint i e t =
     (let t = (if t_dds_topic t = [] then
                 t\<lparr>t_dds_topic := dds_topic e,
                   t_is_ros_topic := ros_topic e \<noteq> [],
                   t_display_topic := (if ros_topic e \<noteq> [] then ros_topic e else dds_topic e),
                   t_display_type := (if ros_type e \<noteq> [] then ros_type e else dds_type e),
                   t_dds_type := dds_type e\<rparr>
               else t)
      in if is_writer e then t\<lparr>t_writers := t_writers t @ [i]\<rparr>
         else t\<lparr>t_readers := t_readers t @ [i]\<rparr>)"

definition by_topic :: "endpoint list \<Rightarrow> (string, topic_summary) omap" where
  "by_topic eps =
     fold (\<lambda>x. om_upd (dds_topic (snd x)) topic_summary0 (add_endpoint (fst x) (snd x)))
       (enumerate 0 eps) []"

definition new_pair ::
  "(string \<Rightarrow> string \<Rightarrow> bool) \<Rightarrow> endpoint list \<Rightarrow> ep_ref \<Rightarrow> ep_ref \<Rightarrow> pair" where
  "new_pair fnm eps w r =
     \<lparr>p_writer = w, p_reader = r,
      p_verdict = reasons (buffer_codes [eps ! w, eps ! r]) (decide fnm (eps ! w) (eps ! r)),
      p_measured = measurement0\<rparr>"

definition unmatched_reasons_of :: "endpoint list \<Rightarrow> topic_summary \<Rightarrow> string list" where
  "unmatched_reasons_of eps t =
     (if t_writers t = [] then [''no-matching-writer''] else []) @
     (if t_readers t = [] then [''no-matching-reader''] else []) @
     (if t_pairs t = [] then buffer_codes (map ((!) eps) (t_writers t @ t_readers t)) else [])"

definition finish_topic ::
  "(string \<Rightarrow> string \<Rightarrow> bool) \<Rightarrow> endpoint list \<Rightarrow> topic_summary \<Rightarrow> topic_summary" where
  "finish_topic fnm eps t =
     (let t1 = t\<lparr>t_pairs := t_pairs t @
            concat (map (\<lambda>w. map (new_pair fnm eps w) (t_readers t)) (t_writers t))\<rparr>
      in t1\<lparr>t_unmatched_reasons := t_unmatched_reasons t1 @ unmatched_reasons_of eps t1\<rparr>)"

subsection \<open>Classification\<close>

definition base_class :: "topic_summary \<Rightarrow> topic_summary" where
  "base_class t =
     (let ros = demangle_topic (t_dds_topic t)
      in (case rn_kind ros of
            RosTopic \<Rightarrow> t\<lparr>t_group := [], t_direction := DirNone, t_kind := TkTopic\<rparr>
          | ServiceRequest \<Rightarrow> t\<lparr>t_group := rn_name ros, t_direction := ToServer, t_kind := TkService\<rparr>
          | ServiceReply \<Rightarrow> t\<lparr>t_group := rn_name ros, t_direction := ToClient, t_kind := TkService\<rparr>
          | NotRos \<Rightarrow> t\<lparr>t_group := [], t_direction := DirNone, t_kind := TkOther\<rparr>))"

record class_state =
  candidates :: "(string, nat list) omap"
  every_member_type_ok :: "(string, bool) omap"
  named_types :: "(string, string set) omap"

definition action_of :: "topic_summary \<Rightarrow> action_member" where
  "action_of t = parse_action_member (t_dds_topic t) (t_dds_type t)"

definition collect_member :: "nat \<times> topic_summary \<Rightarrow> class_state \<Rightarrow> class_state" where
  "collect_member x st =
     (let m = action_of (snd x)
      in if \<not> am_matched m then st
         else st\<lparr>candidates := om_upd (am_action m) [] (\<lambda>is. is @ [fst x]) (candidates st),
                 every_member_type_ok :=
                   om_upd (am_action m) True (\<lambda>b. b \<and> am_type_ok m) (every_member_type_ok st),
                 named_types :=
                   (if am_action_type m \<noteq> []
                    then om_upd (am_action m) {} (insert (am_action_type m)) (named_types st)
                    else named_types st)\<rparr>)"

definition is_action :: "class_state \<Rightarrow> string \<Rightarrow> bool" where
  "is_action st a \<longleftrightarrow>
     om_get (every_member_type_ok st) a = Some True \<and>
     (case om_get (named_types st) a of None \<Rightarrow> False | Some s \<Rightarrow> card s = 1)"

definition mark_action :: "string \<Rightarrow> topic_summary \<Rightarrow> topic_summary" where
  "mark_action a t = t\<lparr>t_kind := TkAction, t_group := a,
     t_direction := (if rn_kind (demangle_topic (t_dds_topic t)) = ServiceRequest
                     then ToServer else ToClient)\<rparr>"

definition mark_members :: "class_state \<Rightarrow> string \<times> nat list \<Rightarrow> topic_summary list \<Rightarrow> topic_summary list" where
  "mark_members st kv ts =
     (if is_action st (fst kv)
      then fold (\<lambda>i ts. ts[i := mark_action (fst kv) (ts ! i)]) (snd kv) ts else ts)"

definition classify_topics :: "topic_summary list \<Rightarrow> topic_summary list" where
  "classify_topics topics =
     (let st = fold collect_member (enumerate 0 topics)
            \<lparr>candidates = [], every_member_type_ok = [], named_types = []\<rparr>
      in fold (mark_members st) (candidates st) (map base_class topics))"

definition summarize ::
  "(string \<Rightarrow> string \<Rightarrow> bool) \<Rightarrow> (topic_summary list \<Rightarrow> topic_summary list) \<Rightarrow>
   endpoint list \<Rightarrow> topic_summary list" where
  "summarize fnm srt eps =
     classify_topics (srt (map (\<lambda>kv. finish_topic fnm eps (snd kv)) (by_topic eps)))"

definition member_label :: "topic_summary \<Rightarrow> string" where
  "member_label t =
     (if t_kind t = TkAction \<and> am_matched (action_of t) then am_suffix (action_of t)
      else if t_kind t \<noteq> TkService \<and> t_kind t \<noteq> TkAction then []
      else if t_direction t = ToServer then ''request'' else ''reply'')"

subsection \<open>Views\<close>

definition in_default_view :: "endpoint list \<Rightarrow> topic_summary \<Rightarrow> bool" where
  "in_default_view eps t \<longleftrightarrow>
     (if \<not> t_is_ros_topic t \<or> \<not> starts_with (t_dds_topic t) ''rt/'' then False
      else if t_writers t = [] \<and> t_readers t = [] then True
      else \<not> (list_all (\<lambda>i. buffer_parent_guid (eps ! i) \<noteq> []) (t_writers t) \<and>
              list_all (\<lambda>i. buffer_parent_guid (eps ! i) \<noteq> []) (t_readers t)))"

definition filter_topic ::
  "(endpoint \<Rightarrow> bool) \<Rightarrow> endpoint list \<Rightarrow> topic_summary \<Rightarrow> topic_summary option" where
  "filter_topic node_matches eps t =
     (let matching = {i \<in> set (t_writers t) \<union> set (t_readers t). node_matches (eps ! i)};
          pairs = filter (\<lambda>p. p_writer p \<in> matching \<or> p_reader p \<in> matching) (t_pairs t);
          keep = matching \<union> (p_writer ` set pairs \<union> p_reader ` set pairs)
      in if keep = {} then None
         else
           (let t1 = t\<lparr>t_writers := filter (\<lambda>i. i \<in> keep) (t_writers t),
                       t_readers := filter (\<lambda>i. i \<in> keep) (t_readers t),
                       t_pairs := pairs\<rparr>
            in Some (t1\<lparr>t_unmatched_reasons := unmatched_reasons_of eps t1\<rparr>)))"

definition filter_by_node ::
  "(endpoint \<Rightarrow> bool) \<Rightarrow> endpoint list \<Rightarrow> topic_summary list \<Rightarrow> topic_summary list" where
  "filter_by_node node_matches eps topics = List.map_filter (filter_topic node_matches eps) topics"

end
