(* ===== verification/Topics_Props.thy ===== *)
theory Topics_Props
  imports Topics Decide_Props
begin

text \<open>
  Properties of the grouping: every endpoint is in exactly one topic, a topic's pairs are its
  writers times its readers, the classification follows its declarative rule, and the node
  filter keeps what it must and is idempotent.
\<close>

subsection \<open>Grouping by topic\<close>

definition refs_of :: "endpoint list \<Rightarrow> string \<Rightarrow> bool \<Rightarrow> ep_ref list" where
  "refs_of eps topic wr = filter (\<lambda>i. dds_topic (eps ! i) = topic \<and> is_writer (eps ! i) = wr) [0..<length eps]"

lemma add_endpoint_sel:
  "t_writers (add_endpoint i e t) = t_writers t @ (if is_writer e then [i] else [])"
  "t_readers (add_endpoint i e t) = t_readers t @ (if is_writer e then [] else [i])"
  "t_pairs (add_endpoint i e t) = t_pairs t"
  "t_unmatched_reasons (add_endpoint i e t) = t_unmatched_reasons t"
  "t_dds_topic (add_endpoint i e t) = (if t_dds_topic t = [] then dds_topic e else t_dds_topic t)"
  by (auto simp: add_endpoint_def Let_def)

lemma fold_add_endpoint:
  "(let t' = fold (\<lambda>x. add_endpoint (fst x) (snd x)) xs t in
    t_writers t' = t_writers t @ map fst (filter (\<lambda>x. is_writer (snd x)) xs) \<and>
    t_readers t' = t_readers t @ map fst (filter (\<lambda>x. \<not> is_writer (snd x)) xs) \<and>
    t_pairs t' = t_pairs t \<and> t_unmatched_reasons t' = t_unmatched_reasons t)"
  by (induction xs arbitrary: t) (auto simp: add_endpoint_sel Let_def)

lemma fold_add_endpoint_topic:
  "\<forall>x \<in> set xs. dds_topic (snd x) = topic \<Longrightarrow> t_dds_topic t \<in> {[], topic} \<Longrightarrow> xs \<noteq> [] \<Longrightarrow>
   t_dds_topic (fold (\<lambda>x. add_endpoint (fst x) (snd x)) xs t) = topic"
proof (induction xs arbitrary: t)
  case Nil
  then show ?case by simp
next
  case (Cons x xs)
  then have "t_dds_topic (add_endpoint (fst x) (snd x) t) = topic"
    by (auto simp: add_endpoint_sel)
  with Cons show ?case by (cases xs) auto
qed

lemma enumerate_filter:
  "map fst (filter (\<lambda>x. P (snd x)) (enumerate 0 xs)) = filter (\<lambda>i. P (xs ! i)) [0..<length xs]"
proof -
  have "enumerate 0 xs = map (\<lambda>i. (i, xs ! i)) [0..<length xs]"
    by (rule nth_equalityI) (simp_all add: nth_enumerate_eq)
  then show ?thesis by (simp add: filter_map comp_def)
qed

lemma enumerate_ex:
  "(\<exists>t \<in> set ts. Q t \<and> P t) \<longleftrightarrow> (\<exists>x \<in> set (filter (\<lambda>x. Q (snd x)) (enumerate 0 ts)). P (snd x))"
proof -
  have "set ts = snd ` set (enumerate 0 ts)"
    by (metis list.set_map map_snd_enumerate)
  then have "(\<exists>t \<in> set ts. Q t \<and> P t) \<longleftrightarrow> (\<exists>x \<in> set (enumerate 0 ts). Q (snd x) \<and> P (snd x))"
    by (metis (no_types, lifting) image_iff)
  also have "\<dots> \<longleftrightarrow> (\<exists>x \<in> set (filter (\<lambda>x. Q (snd x)) (enumerate 0 ts)). P (snd x))"
    unfolding set_filter by blast
  finally show ?thesis .
qed

lemma by_topic_ok: "om_ok (by_topic eps)"
  unfolding by_topic_def by (rule om_ok_fold_upd) simp

lemma by_topic_get:
  "om_get (by_topic eps) topic =
     (if \<exists>e \<in> set eps. dds_topic e = topic
      then Some (fold (\<lambda>x. add_endpoint (fst x) (snd x))
             (filter (\<lambda>x. dds_topic (snd x) = topic) (enumerate 0 eps)) topic_summary0)
      else None)"
proof -
  have "(\<exists>x \<in> set (enumerate 0 eps). dds_topic (snd x) = topic) \<longleftrightarrow> (\<exists>e \<in> set eps. dds_topic e = topic)"
    by (metis (no_types, lifting) image_iff list.set_map map_snd_enumerate)
  then show ?thesis
    unfolding by_topic_def
    by (subst om_get_fold_upd [where key = "\<lambda>x. dds_topic (snd x)" and f = "\<lambda>x. add_endpoint (fst x) (snd x)"])
      simp_all
qed

lemma by_topic_entry:
  assumes "om_get (by_topic eps) topic = Some t"
  shows "t_dds_topic t = topic \<and> t_writers t = refs_of eps topic True \<and>
    t_readers t = refs_of eps topic False \<and> t_pairs t = [] \<and> t_unmatched_reasons t = []"
proof -
  let ?xs = "filter (\<lambda>x. dds_topic (snd x) = topic) (enumerate 0 eps)"
  have ex: "\<exists>e \<in> set eps. dds_topic e = topic" and
    t: "t = fold (\<lambda>x. add_endpoint (fst x) (snd x)) ?xs topic_summary0"
    using assms by (auto simp: by_topic_get split: if_splits)
  obtain e where "e \<in> snd ` set (enumerate 0 eps)" "dds_topic e = topic"
    using ex by (metis list.set_map map_snd_enumerate)
  then have "?xs \<noteq> []" by (auto simp: filter_empty_conv)
  then have "t_dds_topic t = topic"
    unfolding t by (intro fold_add_endpoint_topic) (auto simp: topic_summary0_def)
  moreover have "map fst (filter (\<lambda>x. is_writer (snd x)) ?xs) = refs_of eps topic True"
    "map fst (filter (\<lambda>x. \<not> is_writer (snd x)) ?xs) = refs_of eps topic False"
    using enumerate_filter [of "\<lambda>e. dds_topic e = topic \<and> is_writer e" eps]
      enumerate_filter [of "\<lambda>e. dds_topic e = topic \<and> \<not> is_writer e" eps]
    by (simp_all add: refs_of_def conj_commute)
  ultimately show ?thesis
    using fold_add_endpoint [of ?xs topic_summary0] unfolding t [symmetric] Let_def
    by (simp add: topic_summary0_def)
qed

subsection \<open>Classification\<close>

definition same_identity :: "topic_summary \<Rightarrow> topic_summary \<Rightarrow> bool" where
  "same_identity t u \<longleftrightarrow>
     t\<lparr>t_kind := TkOther, t_group := [], t_direction := DirNone\<rparr> =
     u\<lparr>t_kind := TkOther, t_group := [], t_direction := DirNone\<rparr>"

lemma base_class_identity: "same_identity (base_class t) t"
  by (simp add: same_identity_def base_class_def Let_def split: ros_entity_kind.split)

lemma mark_action_identity: "same_identity (mark_action a t) t"
  by (simp add: same_identity_def mark_action_def)

lemma same_identity_trans: "same_identity t u \<Longrightarrow> same_identity u v \<Longrightarrow> same_identity t v"
  by (simp add: same_identity_def)

lemma same_identity_sel:
  assumes "same_identity t u"
  shows "t_dds_topic t = t_dds_topic u" "t_dds_type t = t_dds_type u"
    "t_writers t = t_writers u" "t_readers t = t_readers u" "t_pairs t = t_pairs u"
    "t_display_topic t = t_display_topic u" "t_unmatched_reasons t = t_unmatched_reasons u"
  using assms by (cases t; cases u; simp add: same_identity_def)+

text \<open>The members of an action among the topics, and the rule for an action.\<close>

definition member_of :: "string \<Rightarrow> topic_summary \<Rightarrow> bool" where
  "member_of a t \<longleftrightarrow> am_matched (action_of t) \<and> am_action (action_of t) = a"

definition genuine_action :: "topic_summary list \<Rightarrow> string \<Rightarrow> bool" where
  "genuine_action ts a \<longleftrightarrow>
     (\<forall>t \<in> set ts. member_of a t \<longrightarrow> am_type_ok (action_of t)) \<and>
     (\<exists>ty. {am_action_type (action_of t) | t. t \<in> set ts \<and> member_of a t} - {[]} = {ty})"

abbreviation class_state0 :: class_state where
  "class_state0 \<equiv> \<lparr>candidates = [], every_member_type_ok = [], named_types = []\<rparr>"

definition hits :: "string \<Rightarrow> (nat \<times> topic_summary) list \<Rightarrow> (nat \<times> topic_summary) list" where
  "hits a xs = filter (\<lambda>x. member_of a (snd x)) xs"

definition named_by :: "(nat \<times> topic_summary) list \<Rightarrow> string set" where
  "named_by xs = (\<lambda>x. am_action_type (action_of (snd x))) ` set xs - {[]}"

lemma hits_snoc: "hits a (xs @ [x]) = hits a xs @ (if member_of a (snd x) then [x] else [])"
  by (simp add: hits_def)

lemma named_by_snoc: "named_by (xs @ [x]) =
    (if am_action_type (action_of (snd x)) = [] then named_by xs
     else insert (am_action_type (action_of (snd x))) (named_by xs))"
  by (auto simp: named_by_def)

lemma named_by_Nil: "named_by [] = {}"
  by (simp add: named_by_def)

lemma collect_inv:
  "let st = fold collect_member xs class_state0 in
   om_ok (candidates st) \<and> om_ok (every_member_type_ok st) \<and> om_ok (named_types st) \<and>
   (\<forall>a. om_get (candidates st) a = (if hits a xs = [] then None else Some (map fst (hits a xs)))) \<and>
   (\<forall>a. om_get (every_member_type_ok st) a =
      (if hits a xs = [] then None else Some (list_all (\<lambda>x. am_type_ok (action_of (snd x))) (hits a xs)))) \<and>
   (\<forall>a. om_get (named_types st) a =
      (if named_by (hits a xs) = {} then None else Some (named_by (hits a xs))))"
proof (induction xs rule: rev_induct)
  case Nil
  then show ?case by (simp add: hits_def named_by_def)
next
  case (snoc x xs)
  define st where "st = fold collect_member xs class_state0"
  let ?m = "action_of (snd x)"
  have eq: "fold collect_member (xs @ [x]) class_state0 = collect_member x st"
    by (simp add: st_def)
  note IH = snoc [unfolded Let_def, folded st_def]
  show ?case
  proof (cases "am_matched ?m")
    case False
    then have "\<not> member_of a (snd x)" for a by (simp add: member_of_def)
    with IH False show ?thesis
      unfolding eq Let_def by (simp add: collect_member_def hits_snoc Let_def)
  next
    case True
    have hit: "member_of a (snd x) \<longleftrightarrow> a = am_action ?m" for a
      using True by (auto simp: member_of_def)
    show ?thesis
      using IH True unfolding eq Let_def
      by (simp add: collect_member_def hits_snoc hit Let_def named_by_snoc named_by_Nil)
  qed
qed

lemma fold_mark:
  assumes "\<forall>(a, i) \<in> set ps. a = act i \<and> i < length ts"
  shows "length (fold (\<lambda>(a, i) ts. ts[i := mark_action a (ts ! i)]) ps ts) = length ts \<and>
    (\<forall>i < length ts. fold (\<lambda>(a, i) ts. ts[i := mark_action a (ts ! i)]) ps ts ! i =
      (if i \<in> snd ` set ps then mark_action (act i) (ts ! i) else ts ! i))"
  using assms
proof (induction ps arbitrary: ts)
  case Nil
  then show ?case by simp
next
  case (Cons p ps)
  obtain a i where p: "p = (a, i)" by (cases p)
  have m: "mark_action a (mark_action a t) = mark_action a t" for a t by (simp add: mark_action_def)
  have "a = act i" "i < length ts" using Cons.prems p by auto
  with Cons.IH [of "ts[i := mark_action a (ts ! i)]"] Cons.prems show ?case
    by (auto simp: p m nth_list_update)
qed

lemma fold_mark_members:
  "fold (mark_members st) kvs ts =
   fold (\<lambda>(a, i) ts. ts[i := mark_action a (ts ! i)])
     (concat (map (\<lambda>kv. if is_action st (fst kv) then map (Pair (fst kv)) (snd kv) else []) kvs)) ts"
proof (induction kvs arbitrary: ts)
  case Nil
  then show ?case by simp
next
  case (Cons kv kvs)
  then show ?case by (simp add: mark_members_def fold_map comp_def)
qed

text \<open>The classification, topic by topic.\<close>

lemma classify_topics_nth:
  "length (classify_topics ts) = length ts \<and>
   (\<forall>i < length ts. classify_topics ts ! i =
     (if am_matched (action_of (ts ! i)) \<and> genuine_action ts (am_action (action_of (ts ! i)))
      then mark_action (am_action (action_of (ts ! i))) (base_class (ts ! i))
      else base_class (ts ! i)))"
proof -
  define st where "st = fold collect_member (enumerate 0 ts) class_state0"
  define act where "act = (\<lambda>i. am_action (action_of (ts ! i)))"
  let ?hits = "\<lambda>a. hits a (enumerate 0 ts)"
  have en: "x \<in> set (enumerate 0 ts) \<longleftrightarrow> fst x < length ts \<and> snd x = ts ! fst x" for x
    by (cases x) (auto simp: in_set_enumerate_eq)
  have st: "om_ok (candidates st)"
    "\<And>a. om_get (candidates st) a = (if ?hits a = [] then None else Some (map fst (?hits a)))"
    "\<And>a. om_get (every_member_type_ok st) a =
      (if ?hits a = [] then None else Some (list_all (\<lambda>x. am_type_ok (action_of (snd x))) (?hits a)))"
    "\<And>a. om_get (named_types st) a =
      (if named_by (?hits a) = {} then None else Some (named_by (?hits a)))"
    using collect_inv [of "enumerate 0 ts"] unfolding st_def Let_def by blast+
  have snds: "(\<exists>x \<in> set (?hits a). P (snd x)) \<longleftrightarrow> (\<exists>t \<in> set ts. member_of a t \<and> P t)" for a P
    unfolding hits_def by (rule enumerate_ex [symmetric])
  have tys: "named_by (?hits a) =
      {am_action_type (action_of t) | t. t \<in> set ts \<and> member_of a t} - {[]}" for a
  proof (rule set_eqI)
    fix y
    show "y \<in> named_by (?hits a) \<longleftrightarrow>
        y \<in> {am_action_type (action_of t) | t. t \<in> set ts \<and> member_of a t} - {[]}"
      using snds [of a "\<lambda>t. y = am_action_type (action_of t)"] unfolding named_by_def by blast
  qed
  have oks: "list_all (\<lambda>x. am_type_ok (action_of (snd x))) (?hits a) \<longleftrightarrow>
      (\<forall>t \<in> set ts. member_of a t \<longrightarrow> am_type_ok (action_of t))" for a
    using snds [of a "\<lambda>t. \<not> am_type_ok (action_of t)"] unfolding list_all_iff by blast
  have is_act: "is_action st a \<longleftrightarrow> genuine_action ts a" if "?hits a \<noteq> []" for a
  proof -
    have "is_action st a \<longleftrightarrow> list_all (\<lambda>x. am_type_ok (action_of (snd x))) (?hits a) \<and>
        card (named_by (?hits a)) = 1"
      using that by (simp add: is_action_def st)
    then show ?thesis by (simp add: genuine_action_def oks tys card_1_singleton_iff)
  qed
  define ps where "ps = concat (map (\<lambda>kv. if is_action st (fst kv) then map (Pair (fst kv)) (snd kv) else []) (candidates st))"
  have ps: "(a, i) \<in> set ps \<longleftrightarrow> i < length ts \<and> member_of a (ts ! i) \<and> genuine_action ts a" for a i
  proof -
    have "(a, i) \<in> set ps \<longleftrightarrow> (\<exists>is. (a, is) \<in> set (candidates st) \<and> is_action st a \<and> i \<in> set is)"
      by (auto simp: ps_def split: if_splits) force
    also have "\<dots> \<longleftrightarrow> (\<exists>is. om_get (candidates st) a = Some is \<and> is_action st a \<and> i \<in> set is)"
      by (simp add: map_of_eq_Some_iff om_ok_distinct st(1))
    also have "\<dots> \<longleftrightarrow> ?hits a \<noteq> [] \<and> genuine_action ts a \<and> i \<in> fst ` set (?hits a)"
      using is_act by (auto simp: st(2))
    also have "\<dots> \<longleftrightarrow> i < length ts \<and> member_of a (ts ! i) \<and> genuine_action ts a"
      unfolding hits_def filter_empty_conv set_filter image_iff using en by force
    finally show ?thesis .
  qed
  have "classify_topics ts = fold (\<lambda>(a, i) ts. ts[i := mark_action a (ts ! i)]) ps (map base_class ts)"
    by (simp add: classify_topics_def st_def [symmetric] Let_def fold_mark_members ps_def)
  moreover have "\<forall>(a, i) \<in> set ps. a = act i \<and> i < length (map base_class ts)"
    by (auto simp: ps member_of_def act_def)
  moreover have "i \<in> snd ` set ps \<longleftrightarrow>
      am_matched (action_of (ts ! i)) \<and> genuine_action ts (act i)" if "i < length ts" for i
  proof -
    have "i \<in> snd ` set ps \<longleftrightarrow> (\<exists>a. (a, i) \<in> set ps)" by force
    then show ?thesis using that by (auto simp: ps member_of_def act_def)
  qed
  ultimately show ?thesis
    using fold_mark [of ps act "map base_class ts"] by (simp add: act_def)
qed

lemma classify_identity:
  assumes "i < length ts"
  shows "same_identity (classify_topics ts ! i) (ts ! i)"
proof -
  have "same_identity (mark_action a (base_class t)) t" for a t
    by (rule same_identity_trans [OF mark_action_identity base_class_identity])
  then show ?thesis using classify_topics_nth [of ts] assms base_class_identity by simp
qed

lemma base_class_kind: "t_kind (base_class t) \<noteq> TkAction"
  by (simp add: base_class_def Let_def split: ros_entity_kind.split)

lemma base_class_reset:
  "base_class t = base_class (t\<lparr>t_kind := TkOther, t_group := [], t_direction := DirNone\<rparr>)"
  by (simp add: base_class_def Let_def split: ros_entity_kind.split)

lemma base_class_cong: "same_identity t u \<Longrightarrow> base_class t = base_class u"
  unfolding same_identity_def
  by (subst (1 2) base_class_reset) (rule arg_cong [where f = base_class])

lemma action_of_cong: "same_identity t u \<Longrightarrow> action_of t = action_of u"
  by (simp add: action_of_def same_identity_sel)

lemma genuine_action_cong:
  assumes "length ts = length us" "\<And>i. i < length ts \<Longrightarrow> action_of (ts ! i) = action_of (us ! i)"
  shows "genuine_action ts a = genuine_action us a"
proof -
  have m: "map action_of ts = map action_of us"
    using assms by (intro nth_equalityI) auto
  have g: "genuine_action vs a \<longleftrightarrow>
     (\<forall>m \<in> set (map action_of vs). am_matched m \<and> am_action m = a \<longrightarrow> am_type_ok m) \<and>
     (\<exists>ty. {am_action_type m | m. m \<in> set (map action_of vs) \<and> am_matched m \<and> am_action m = a} - {[]} = {ty})"
    for vs
  proof -
    have "{am_action_type (action_of t) | t. t \<in> set vs \<and> member_of a t} =
      {am_action_type m | m. m \<in> set (map action_of vs) \<and> am_matched m \<and> am_action m = a}"
      by (auto simp: member_of_def)
    then show ?thesis unfolding genuine_action_def by (simp add: member_of_def)
  qed
  show ?thesis unfolding g m ..
qed

text \<open>
  The classification of a topic. A topic is a member of an action exactly when its name
  and type parse as an action member and every member that names the same action is of the
  right type and they agree on one action type; otherwise its kind, group and direction are
  those of its name alone. Nothing else of the topic changes.
\<close>

theorem classify_topics_rule:
  assumes "i < length ts"
  shows "same_identity (classify_topics ts ! i) (ts ! i) \<and>
    (t_kind (classify_topics ts ! i) = TkAction \<longleftrightarrow>
       am_matched (action_of (ts ! i)) \<and> genuine_action ts (am_action (action_of (ts ! i)))) \<and>
    (t_kind (classify_topics ts ! i) = TkAction \<longrightarrow>
       t_group (classify_topics ts ! i) = am_action (action_of (ts ! i))) \<and>
    (t_kind (classify_topics ts ! i) \<noteq> TkAction \<longrightarrow>
       classify_topics ts ! i = base_class (ts ! i))"
proof -
  have "t_kind (mark_action a t) = TkAction" "t_group (mark_action a t) = a" for a t
    by (simp_all add: mark_action_def)
  then show ?thesis
    using classify_topics_nth [of ts] classify_identity [OF assms] base_class_kind assms by auto
qed

definition sample_topics :: "topic_summary list" where
  "sample_topics = [topic_summary0\<lparr>t_dds_topic := ''rt/f/_action/feedback'',
     t_dds_type := ''p::action::dds_::F_FeedbackMessage_''\<rparr>]"

theorem classify_topics_rule_witness:
  "t_kind (classify_topics sample_topics ! 0) = TkAction \<and>
   t_group (classify_topics sample_topics ! 0) = ''/f''"
proof -
  have act: "action_of (hd sample_topics) = \<lparr>am_matched = True, am_action = ''/f'',
      am_suffix = ''feedback'', am_type_ok = True, am_action_type = ''p/action/F''\<rparr>"
    by (simp add: sample_topics_def action_of_def topic_summary0_def parse_action_member_def
        demangle_topic_def Let_def kMembers_def member_def kActionSep_def action_type_from_def
        ends_with_def)
  have "genuine_action sample_topics ''/f''"
    using act by (auto simp: genuine_action_def member_of_def sample_topics_def)
  moreover have "0 < length sample_topics" "sample_topics ! 0 = hd sample_topics"
    by (simp_all add: sample_topics_def)
  ultimately show ?thesis using classify_topics_rule [of 0 sample_topics] act by simp
qed

text \<open>Classifying twice changes nothing: the rule reads only names and types.\<close>

theorem classify_topics_idem: "classify_topics (classify_topics ts) = classify_topics ts"
proof (rule nth_equalityI)
  define cs where "cs = classify_topics ts"
  have len: "length cs = length ts" "length (classify_topics cs) = length ts"
    using classify_topics_nth [of ts] classify_topics_nth [of cs] by (simp_all add: cs_def)
  then show "length (classify_topics (classify_topics ts)) = length (classify_topics ts)"
    by (simp add: cs_def)
  fix i assume "i < length (classify_topics (classify_topics ts))"
  then have i: "i < length ts" "i < length cs" by (simp_all add: len flip: cs_def)
  have act: "action_of (cs ! j) = action_of (ts ! j)" if "j < length cs" for j
    using that classify_identity [of j ts] len by (simp add: action_of_cong flip: cs_def)
  have gen: "genuine_action cs a = genuine_action ts a" for a
    using len act by (intro genuine_action_cong) simp_all
  have base: "base_class (cs ! i) = base_class (ts ! i)"
    unfolding cs_def by (rule base_class_cong [OF classify_identity [OF i(1)]])
  have "classify_topics cs ! i = (if am_matched (action_of (ts ! i)) \<and> genuine_action ts (am_action (action_of (ts ! i)))
      then mark_action (am_action (action_of (ts ! i))) (base_class (ts ! i)) else base_class (ts ! i))"
    using classify_topics_nth [of cs] i by (simp add: act gen base)
  also have "\<dots> = cs ! i"
    using classify_topics_nth [of ts] i by (simp add: cs_def)
  finally show "classify_topics (classify_topics ts) ! i = classify_topics ts ! i"
    by (simp add: cs_def)
qed

subsection \<open>The summaries\<close>

lemma finish_topic_sel:
  "t_dds_topic (finish_topic fnm eps t) = t_dds_topic t"
  "t_writers (finish_topic fnm eps t) = t_writers t"
  "t_readers (finish_topic fnm eps t) = t_readers t"
  "t_pairs (finish_topic fnm eps t) =
     t_pairs t @ concat (map (\<lambda>w. map (new_pair fnm eps w) (t_readers t)) (t_writers t))"
  by (simp_all add: finish_topic_def Let_def)

lemma map_classify:
  assumes "\<And>t u. same_identity t u \<Longrightarrow> f t = f u"
  shows "map f (classify_topics ts) = map f ts"
  using classify_topics_nth [of ts] classify_identity [of _ ts] assms
  by (intro nth_equalityI) simp_all

text \<open>
  C24. The summary has one topic for each DDS topic name among the endpoints, in the order of
  the displayed name; its writers and readers are the endpoints of that topic in snapshot order,
  and its pairs are every writer with every reader, each with its own verdict.
\<close>

theorem summarize_groups:
  assumes "sorts_by t_display_topic srt"
  shows "distinct (map t_dds_topic (summarize fnm srt eps)) \<and>
    set (map t_dds_topic (summarize fnm srt eps)) = dds_topic ` set eps \<and>
    sorted (map t_display_topic (summarize fnm srt eps)) \<and>
    (\<forall>t \<in> set (summarize fnm srt eps).
       t_writers t = refs_of eps (t_dds_topic t) True \<and>
       t_readers t = refs_of eps (t_dds_topic t) False \<and>
       t_pairs t = concat (map (\<lambda>w. map (new_pair fnm eps w) (t_readers t)) (t_writers t)))"
proof -
  define fin where "fin = map (\<lambda>kv. finish_topic fnm eps (snd kv)) (by_topic eps)"
  define good where "good = (\<lambda>t :: topic_summary. t_writers t = refs_of eps (t_dds_topic t) True \<and>
       t_readers t = refs_of eps (t_dds_topic t) False \<and>
       t_pairs t = concat (map (\<lambda>w. map (new_pair fnm eps w) (t_readers t)) (t_writers t)))"
  have S: "summarize fnm srt eps = classify_topics (srt fin)"
    by (simp add: summarize_def fin_def)
  have srt: "mset (srt fin) = mset fin" "sorted (map t_display_topic (srt fin))"
    using assms by (simp_all add: sorts_by_def)
  have entry: "by_topic_e \<in> set (by_topic eps) \<Longrightarrow> om_get (by_topic eps) (fst by_topic_e) = Some (snd by_topic_e)" for by_topic_e
    using om_ok_distinct [OF by_topic_ok] by (metis map_of_eq_Some_iff prod.collapse)
  have row: "t_dds_topic (snd kv) = fst kv \<and> t_writers (snd kv) = refs_of eps (fst kv) True \<and>
      t_readers (snd kv) = refs_of eps (fst kv) False \<and> t_pairs (snd kv) = []"
    if "kv \<in> set (by_topic eps)" for kv
    using by_topic_entry [OF entry [OF that]] by simp
  have topics: "map t_dds_topic fin = map fst (by_topic eps)"
    using row by (simp add: fin_def finish_topic_sel)
  have "\<forall>t \<in> set fin. good t"
    using row by (simp add: fin_def good_def finish_topic_sel)
  moreover have "map good (classify_topics (srt fin)) = map good (srt fin)"
    by (rule map_classify) (simp add: good_def same_identity_sel)
  ultimately have "\<forall>t \<in> set (summarize fnm srt eps). good t"
    using S srt(1) by (metis (no_types, lifting) imageE image_eqI list.set_map mset_eq_setD)
  moreover have "map t_dds_topic (summarize fnm srt eps) = map t_dds_topic (srt fin)"
    "map t_display_topic (summarize fnm srt eps) = map t_display_topic (srt fin)"
    unfolding S by (rule map_classify; simp add: same_identity_sel)+
  moreover have "mset (map t_dds_topic (srt fin)) = mset (map fst (by_topic eps))"
    unfolding topics [symmetric] using srt(1) by simp
  then have "distinct (map t_dds_topic (srt fin)) \<and>
      set (map t_dds_topic (srt fin)) = fst ` set (by_topic eps)"
    using om_ok_distinct [OF by_topic_ok] using mset_eq_imp_distinct_iff mset_eq_setD by (metis list.set_map)
  moreover have "fst ` set (by_topic eps) = dds_topic ` set eps"
    unfolding om_keys [OF by_topic_ok] by (auto simp: by_topic_get)
  ultimately show ?thesis using srt(2) unfolding good_def by simp
qed

theorem summarize_groups_witness:
  "sorted (map t_display_topic (summarize (\<lambda>_ _. False) (sort_key t_display_topic) buf_eps))"
  using summarize_groups [OF sorts_by_sort_key, of "\<lambda>_ _. False" buf_eps] by simp

subsection \<open>The node filter\<close>

lemma filter_topic_Some:
  "filter_topic m eps t = Some t' \<Longrightarrow> filter_topic m eps t' = Some t'"
proof -
  assume a: "filter_topic m eps t = Some t'"
  define matching where "matching = {i \<in> set (t_writers t) \<union> set (t_readers t). m (eps ! i)}"
  define ps where "ps = filter (\<lambda>p. p_writer p \<in> matching \<or> p_reader p \<in> matching) (t_pairs t)"
  define keep where "keep = matching \<union> (p_writer ` set ps \<union> p_reader ` set ps)"
  have keep: "keep \<noteq> {}"
    using a by (auto simp: filter_topic_def Let_def matching_def ps_def keep_def split: if_splits)
  define t1 where "t1 = t\<lparr>t_writers := filter (\<lambda>i. i \<in> keep) (t_writers t),
    t_readers := filter (\<lambda>i. i \<in> keep) (t_readers t), t_pairs := ps\<rparr>"
  have "filter_topic m eps t =
      (if keep = {} then None else Some (t1\<lparr>t_unmatched_reasons := unmatched_reasons_of eps t1\<rparr>))"
    by (simp only: filter_topic_def Let_def matching_def ps_def keep_def t1_def)
  with a keep have eq: "t' = t1\<lparr>t_unmatched_reasons := unmatched_reasons_of eps t1\<rparr>" by simp
  have t': "t_writers t' = filter (\<lambda>i. i \<in> keep) (t_writers t)"
    "t_readers t' = filter (\<lambda>i. i \<in> keep) (t_readers t)" "t_pairs t' = ps"
    "t_unmatched_reasons t' = unmatched_reasons_of eps t'"
    unfolding eq by (simp_all add: t1_def unmatched_reasons_of_def)
  have m': "{i \<in> set (t_writers t') \<union> set (t_readers t'). m (eps ! i)} = matching"
    unfolding t' by (auto simp: matching_def keep_def)
  have p': "filter (\<lambda>p. p_writer p \<in> matching \<or> p_reader p \<in> matching) (t_pairs t') = ps"
    unfolding t' ps_def by simp
  have w': "filter (\<lambda>i. i \<in> keep) (t_writers t') = t_writers t'"
    "filter (\<lambda>i. i \<in> keep) (t_readers t') = t_readers t'" unfolding t' by simp_all
  have "filter_topic m eps t' = Some (let t1 = t'\<lparr>t_writers := t_writers t', t_readers := t_readers t', t_pairs := ps\<rparr>
     in t1\<lparr>t_unmatched_reasons := unmatched_reasons_of eps t1\<rparr>)"
    unfolding filter_topic_def Let_def m' p' keep_def [symmetric] w' using keep by simp
  also have "\<dots> = Some t'"
    using t'(3,4) by (cases t') (simp add: Let_def)
  finally show "filter_topic m eps t' = Some t'" .
qed

text \<open>Filtering by node twice changes nothing: what a node matches stays with its partners.\<close>

theorem filter_by_node_idem:
  "filter_by_node m eps (filter_by_node m eps topics) = filter_by_node m eps topics"
proof -
  have "List.map_filter (filter_topic m eps) us = us"
    if "\<forall>u \<in> set us. filter_topic m eps u = Some u" for us
    using that by (induction us) (auto simp: List.map_filter_simps)
  moreover have "\<forall>u \<in> set (filter_by_node m eps topics). filter_topic m eps u = Some u"
    by (auto simp: filter_by_node_def List.map_filter_def intro: filter_topic_Some)
  ultimately show ?thesis unfolding filter_by_node_def by blast
qed

text \<open>
  What the node filter keeps of a topic whose pairs join its own writers and readers: a
  writer stays exactly when it matches or is paired with a matching reader, and likewise a
  reader; a pair stays exactly when one of its ends matches; the topic goes when nothing matches.
\<close>

theorem filter_by_node_exact:
  assumes "\<forall>p \<in> set (t_pairs t). p_writer p \<in> set (t_writers t) \<and> p_reader p \<in> set (t_readers t)"
  shows "case filter_by_node m eps [t] of
      [] \<Rightarrow> \<forall>i \<in> set (t_writers t) \<union> set (t_readers t). \<not> m (eps ! i)
    | t' # _ \<Rightarrow>
        t_pairs t' = filter (\<lambda>p. m (eps ! p_writer p) \<or> m (eps ! p_reader p)) (t_pairs t) \<and>
        (\<forall>i. i \<in> set (t_writers t') \<union> set (t_readers t') \<longleftrightarrow>
           i \<in> set (t_writers t) \<union> set (t_readers t) \<and>
           (m (eps ! i) \<or> (\<exists>p \<in> set (t_pairs t'). i = p_writer p \<or> i = p_reader p)))"
proof -
  define matching where "matching = {i \<in> set (t_writers t) \<union> set (t_readers t). m (eps ! i)}"
  define ps where "ps = filter (\<lambda>p. p_writer p \<in> matching \<or> p_reader p \<in> matching) (t_pairs t)"
  define keep where "keep = matching \<union> (p_writer ` set ps \<union> p_reader ` set ps)"
  have ps: "ps = filter (\<lambda>p. m (eps ! p_writer p) \<or> m (eps ! p_reader p)) (t_pairs t)"
    unfolding ps_def using assms by (intro filter_cong) (auto simp: matching_def)
  have eq: "filter_topic m eps t = (if keep = {} then None
      else let t1 = t\<lparr>t_writers := filter (\<lambda>i. i \<in> keep) (t_writers t),
                      t_readers := filter (\<lambda>i. i \<in> keep) (t_readers t), t_pairs := ps\<rparr>
        in Some (t1\<lparr>t_unmatched_reasons := unmatched_reasons_of eps t1\<rparr>))"
    by (simp add: filter_topic_def Let_def matching_def ps_def keep_def)
  show ?thesis
  proof (cases "keep = {}")
    case True
    then show ?thesis
      by (auto simp: filter_by_node_def List.map_filter_simps eq keep_def matching_def)
  next
    case False
    have "i \<in> keep \<longleftrightarrow> i \<in> matching \<or> (\<exists>p \<in> set ps. i = p_writer p \<or> i = p_reader p)" for i
      by (auto simp: keep_def)
    then show ?thesis
      using False ps by (auto simp: filter_by_node_def List.map_filter_simps eq Let_def matching_def)
  qed
qed

theorem filter_by_node_exact_witness:
  "case filter_by_node (\<lambda>e. node_name e = ''a'') [endpoint0] [topic_summary0\<lparr>t_writers := [0]\<rparr>] of
     [] \<Rightarrow> \<forall>i \<in> {0}. node_name ([endpoint0] ! i) \<noteq> ''a''
   | t' # _ \<Rightarrow> t_pairs t' = []"
  using filter_by_node_exact [of "topic_summary0\<lparr>t_writers := [0]\<rparr>" "\<lambda>e. node_name e = ''a''" "[endpoint0]"]
  by (auto simp: topic_summary0_def split: list.splits)

end
