(* ===== verification/Rows.thy ===== *)
theory Rows
  imports Topics
begin

text \<open>
  The rows of the table (\<open>display_rows\<close> of \<open>src/decision.cpp\<close>): a plain topic is a row of its
  own, the members of a service or an action are grouped by group name, client participant and
  server participant. A topic is its index in \<open>topics\<close>, a pair the index of its topic and its
  own index there.
\<close>

definition service_type_stem :: "string \<Rightarrow> string" where
  "service_type_stem ty =
     (case find (\<lambda>tail. length tail < length ty \<and> ends_with ty tail)
             [''_Request_'', ''_Response_'', ''_Request'', ''_Response''] of
        Some tail \<Rightarrow> take (length ty - length tail) ty
      | None \<Rightarrow> ty)"

definition add_distinct :: "string list \<Rightarrow> string \<Rightarrow> string list" where
  "add_distinct out value = (if value \<noteq> [] \<and> \<not> List.member out value then out @ [value] else out)"

definition add_member :: "nat list \<Rightarrow> nat \<Rightarrow> nat list" where
  "add_member out t = (if \<not> List.member out t then out @ [t] else out)"

record display_row =
  row_kind :: topic_kind
  row_name :: string
  row_type :: string
  row_topic :: "nat option"
  row_client :: "ep_ref option"
  row_server :: "ep_ref option"
  row_requester :: string
  row_replier :: string
  row_to_server :: "(nat \<times> nat) list"
  row_to_client :: "(nat \<times> nat) list"
  row_members :: "nat list"
  row_unpaired_members :: "nat list"
  row_unpaired_endpoints :: "ep_ref list"

definition display_row0 :: display_row where
  "display_row0 = \<lparr>row_kind = TkTopic, row_name = [], row_type = [], row_topic = None,
     row_client = None, row_server = None, row_requester = [], row_replier = [],
     row_to_server = [], row_to_client = [], row_members = [], row_unpaired_members = [],
     row_unpaired_endpoints = []\<rparr>"

fun join_bar :: "string list \<Rightarrow> string" where
  "join_bar [] = []"
| "join_bar [p] = p"
| "join_bar (p # q # ps) = p @ ''|'' @ join_bar (q # ps)"

definition group_type :: "topic_summary list \<Rightarrow> display_row \<Rightarrow> string" where
  "group_type topics row =
     join_bar (fold (\<lambda>i parts.
         add_distinct parts
           (if row_kind row = TkAction then am_action_type (action_of (topics ! i))
            else service_type_stem (t_display_type (topics ! i))))
       (row_members row) [])"

type_synonym row_key = "string \<times> string \<times> string"

definition row_sort_key :: "display_row \<Rightarrow> row_key" where
  "row_sort_key row = (row_name row, row_requester row, row_replier row)"

record rows_state =
  rs_out :: "display_row list"
  rs_index :: "(row_key, nat) omap"

definition prefix_of :: "endpoint list \<Rightarrow> ep_ref option \<Rightarrow> string" where
  "prefix_of eps e = (case e of None \<Rightarrow> [] | Some i \<Rightarrow> participant_guid_prefix (eps ! i))"

text \<open>The lambda \<open>row_for\<close>: the position of the row, created when it is not there.\<close>

definition row_for :: "endpoint list \<Rightarrow> topic_summary \<Rightarrow> ep_ref option \<Rightarrow> ep_ref option \<Rightarrow>
    rows_state \<Rightarrow> nat \<times> rows_state" where
  "row_for eps t client server st =
     (let requester = prefix_of eps client; replier = prefix_of eps server;
          key = (t_group t, requester, replier)
      in case om_get (rs_index st) key of
           Some n \<Rightarrow> (n, st)
         | None \<Rightarrow> (length (rs_out st),
             \<lparr>rs_out = rs_out st @ [display_row0\<lparr>row_kind := t_kind t, row_name := t_group t,
                row_requester := requester, row_replier := replier, row_client := client,
                row_server := server\<rparr>],
              rs_index = om_put key (length (rs_out st)) (rs_index st)\<rparr>))"

text \<open>A step of the two inner loops: find the row, then write through the reference.\<close>

definition on_row :: "endpoint list \<Rightarrow> topic_summary \<Rightarrow> ep_ref option \<Rightarrow> ep_ref option \<Rightarrow>
    (display_row \<Rightarrow> display_row) \<Rightarrow> rows_state \<Rightarrow> rows_state" where
  "on_row eps t client server f st =
     (let (n, st) = row_for eps t client server st
      in st\<lparr>rs_out := (rs_out st)[n := f (rs_out st ! n)]\<rparr>)"

definition is_group :: "topic_summary \<Rightarrow> bool" where
  "is_group t \<longleftrightarrow> t_kind t = TkService \<or> t_kind t = TkAction"

definition put_pair :: "bool \<Rightarrow> nat \<Rightarrow> nat \<Rightarrow> display_row \<Rightarrow> display_row" where
  "put_pair to_server i j row =
     (let row = (if to_server then row\<lparr>row_to_server := row_to_server row @ [(i, j)]\<rparr>
                 else row\<lparr>row_to_client := row_to_client row @ [(i, j)]\<rparr>)
      in row\<lparr>row_members := add_member (row_members row) i\<rparr>)"

definition pair_step :: "endpoint list \<Rightarrow> nat \<Rightarrow> topic_summary \<Rightarrow> nat \<times> pair \<Rightarrow> rows_state \<Rightarrow> rows_state" where
  "pair_step eps i t jp =
     (let to_server = t_direction t = ToServer;
          client = (if to_server then p_writer (snd jp) else p_reader (snd jp));
          server = (if to_server then p_reader (snd jp) else p_writer (snd jp))
      in on_row eps t (Some client) (Some server) (put_pair to_server i (fst jp)))"

definition put_unpaired :: "nat \<Rightarrow> ep_ref \<Rightarrow> display_row \<Rightarrow> display_row" where
  "put_unpaired i e row =
     row\<lparr>row_members := add_member (row_members row) i,
         row_unpaired_members := add_member (row_unpaired_members row) i,
         row_unpaired_endpoints := row_unpaired_endpoints row @ [e]\<rparr>"

definition unpaired_step :: "endpoint list \<Rightarrow> nat \<Rightarrow> topic_summary \<Rightarrow> ep_ref \<Rightarrow> rows_state \<Rightarrow> rows_state" where
  "unpaired_step eps i t e =
     (let to_server = t_direction t = ToServer;
          is_client = (if to_server then is_writer (eps ! e) else \<not> is_writer (eps ! e))
      in on_row eps t (if is_client then Some e else None) (if is_client then None else Some e)
           (put_unpaired i e))"

definition plain_row :: "nat \<Rightarrow> topic_summary \<Rightarrow> display_row" where
  "plain_row i t = display_row0\<lparr>row_kind := t_kind t, row_name := t_display_topic t,
     row_type := t_display_type t, row_topic := Some i, row_members := [i]\<rparr>"

definition topic_step :: "endpoint list \<Rightarrow> nat \<times> topic_summary \<Rightarrow> rows_state \<Rightarrow> rows_state" where
  "topic_step eps it st =
     (let i = fst it; t = snd it
      in if \<not> is_group t then st\<lparr>rs_out := rs_out st @ [plain_row i t]\<rparr>
         else if t_pairs t \<noteq> [] then fold (pair_step eps i t) (enumerate 0 (t_pairs t)) st
         else fold (unpaired_step eps i t) (t_writers t @ t_readers t) st)"

definition set_type :: "topic_summary list \<Rightarrow> display_row \<Rightarrow> display_row" where
  "set_type topics row = (if row_topic row = None then row\<lparr>row_type := group_type topics row\<rparr> else row)"

definition display_rows :: "endpoint list \<Rightarrow> topic_summary list \<Rightarrow> display_row list" where
  "display_rows eps topics =
     sort_key row_sort_key (map (set_type topics)
       (rs_out (fold (topic_step eps) (enumerate 0 topics) \<lparr>rs_out = [], rs_index = []\<rparr>)))"

subsection \<open>The invariant of the loop\<close>

text \<open>
  The index holds exactly the group rows, under their keys; \<open>rows_hold\<close> says which pairs and
  which unpaired endpoints the rows hold, each once; a row holds a pair only where the pair
  belongs.
\<close>

definition row_pairs :: "display_row \<Rightarrow> (nat \<times> nat) list" where
  "row_pairs r = row_to_server r @ row_to_client r"

definition rows_index_ok :: "rows_state \<Rightarrow> bool" where
  "rows_index_ok st \<longleftrightarrow> om_ok (rs_index st) \<and>
     (\<forall>k n. om_get (rs_index st) k = Some n \<longleftrightarrow>
        n < length (rs_out st) \<and> row_topic (rs_out st ! n) = None \<and> row_sort_key (rs_out st ! n) = k)"

definition rows_hold :: "rows_state \<Rightarrow> (nat \<times> nat) multiset \<Rightarrow> ep_ref multiset \<Rightarrow> nat multiset \<Rightarrow> bool" where
  "rows_hold st ps us ts \<longleftrightarrow>
     mset (concat (map row_pairs (rs_out st))) = ps \<and>
     mset (concat (map row_unpaired_endpoints (rs_out st))) = us \<and>
     mset (List.map_filter row_topic (rs_out st)) = ts"

definition pair_belongs :: "endpoint list \<Rightarrow> topic_summary list \<Rightarrow> display_row \<Rightarrow> bool" where
  "pair_belongs eps topics r \<longleftrightarrow>
     (row_topic r \<noteq> None \<longrightarrow> row_pairs r = []) \<and>
     (\<forall>(i, j) \<in> set (row_to_server r). t_direction (topics ! i) = ToServer \<and>
        row_sort_key r = (t_group (topics ! i),
          participant_guid_prefix (eps ! p_writer (t_pairs (topics ! i) ! j)),
          participant_guid_prefix (eps ! p_reader (t_pairs (topics ! i) ! j)))) \<and>
     (\<forall>(i, j) \<in> set (row_to_client r). t_direction (topics ! i) \<noteq> ToServer \<and>
        row_sort_key r = (t_group (topics ! i),
          participant_guid_prefix (eps ! p_reader (t_pairs (topics ! i) ! j)),
          participant_guid_prefix (eps ! p_writer (t_pairs (topics ! i) ! j))))"

lemma mset_concat_update:
  assumes "n < length xs" "mset (g x) = mset (g (xs ! n)) + A"
  shows "mset (concat (map g (xs[n := x]))) = mset (concat (map g xs)) + A"
proof -
  have "xs = take n xs @ xs ! n # drop (Suc n) xs" using assms(1) by (simp add: id_take_nth_drop)
  then have "mset (concat (map g xs)) =
      mset (concat (map g (take n xs))) + mset (g (xs ! n)) + mset (concat (map g (drop (Suc n) xs)))"
    by (metis (no_types, lifting) concat.simps(2) concat_append list.simps(9) map_append mset_append add.assoc)
  then show ?thesis using assms by (simp add: upd_conv_take_nth_drop)
qed

text \<open>What \<open>row_for\<close> promises: a group row with the key at the position, nothing else changed.\<close>

lemma row_for_ok:
  assumes "rows_index_ok st" "row_for eps t c s st = (n, st')"
  shows "rows_index_ok st' \<and> n < length (rs_out st') \<and> row_topic (rs_out st' ! n) = None \<and>
    row_sort_key (rs_out st' ! n) = (t_group t, prefix_of eps c, prefix_of eps s) \<and>
    (rows_hold st ps us ts \<longrightarrow> rows_hold st' ps us ts) \<and>
    (list_all (pair_belongs eps topics) (rs_out st) \<longrightarrow> list_all (pair_belongs eps topics) (rs_out st'))"
proof (cases "om_get (rs_index st) (t_group t, prefix_of eps c, prefix_of eps s)")
  case (Some m)
  then have "n = m" "st' = st" using assms(2) by (simp_all add: row_for_def Let_def)
  moreover have "m < length (rs_out st) \<and> row_topic (rs_out st ! m) = None \<and>
      row_sort_key (rs_out st ! m) = (t_group t, prefix_of eps c, prefix_of eps s)"
    using Some assms(1) unfolding rows_index_ok_def by blast
  ultimately show ?thesis using assms(1) by simp
next
  case None
  let ?k = "(t_group t, prefix_of eps c, prefix_of eps s)"
  let ?r = "display_row0\<lparr>row_kind := t_kind t, row_name := t_group t,
     row_requester := prefix_of eps c, row_replier := prefix_of eps s, row_client := c, row_server := s\<rparr>"
  have st': "n = length (rs_out st)" "rs_out st' = rs_out st @ [?r]"
    "rs_index st' = om_put ?k (length (rs_out st)) (rs_index st)"
    using None assms(2) by (auto simp: row_for_def Let_def)
  have r: "row_topic ?r = None" "row_sort_key ?r = ?k" "row_pairs ?r = []"
    "row_unpaired_endpoints ?r = []" "pair_belongs eps topics ?r"
    by (simp_all add: display_row0_def row_sort_key_def row_pairs_def pair_belongs_def)
  have "\<nexists>m. m < length (rs_out st) \<and> row_topic (rs_out st ! m) = None \<and> row_sort_key (rs_out st ! m) = ?k"
    using None assms(1) unfolding rows_index_ok_def by (metis option.distinct(1))
  then have "rows_index_ok st'"
    using assms(1) r(1,2) unfolding rows_index_ok_def st'
    by (auto simp: nth_append less_Suc_eq)
  then show ?thesis
    using r by (auto simp: st' rows_hold_def List.map_filter_def)
qed

lemma map_filter_id: "List.map_filter f xs = List.map_filter id (map f xs)"
  by (induction xs) (auto simp: List.map_filter_simps split: option.split)

lemma on_row_ok:
  assumes "rows_index_ok st" "rows_hold st ps us ts" "list_all (pair_belongs eps topics) (rs_out st)"
    and f: "\<And>r. row_topic (f r) = row_topic r \<and> row_sort_key (f r) = row_sort_key r \<and>
      mset (row_pairs (f r)) = mset (row_pairs r) + A \<and>
      mset (row_unpaired_endpoints (f r)) = mset (row_unpaired_endpoints r) + B"
    and belongs: "\<And>r. pair_belongs eps topics r \<Longrightarrow> row_topic r = None \<Longrightarrow>
      row_sort_key r = (t_group t, prefix_of eps c, prefix_of eps s) \<Longrightarrow> pair_belongs eps topics (f r)"
  shows "rows_index_ok (on_row eps t c s f st) \<and> rows_hold (on_row eps t c s f st) (ps + A) (us + B) ts \<and>
    list_all (pair_belongs eps topics) (rs_out (on_row eps t c s f st))"
proof -
  obtain n st' where e: "row_for eps t c s st = (n, st')" by fastforce
  note ok = row_for_ok [OF assms(1) e, of ps us ts topics]
  have on: "rs_out (on_row eps t c s f st) = (rs_out st')[n := f (rs_out st' ! n)]"
    "rs_index (on_row eps t c s f st) = rs_index st'"
    by (simp_all add: on_row_def e)
  have n: "n < length (rs_out st')" using ok by simp
  have keep: "row_topic ((rs_out st')[n := f (rs_out st' ! n)] ! m) = row_topic (rs_out st' ! m)"
    "row_sort_key ((rs_out st')[n := f (rs_out st' ! n)] ! m) = row_sort_key (rs_out st' ! m)" for m
    using n f by (cases "m = n"; simp)+
  have "rows_index_ok (on_row eps t c s f st)"
    using ok unfolding rows_index_ok_def on by (simp add: keep)
  moreover have "map row_topic ((rs_out st')[n := f (rs_out st' ! n)]) = map row_topic (rs_out st')"
    using keep by (intro nth_equalityI) simp_all
  then have "List.map_filter row_topic ((rs_out st')[n := f (rs_out st' ! n)]) = List.map_filter row_topic (rs_out st')"
    by (metis map_filter_id)
  then have "rows_hold (on_row eps t c s f st) (ps + A) (us + B) ts"
    using ok assms(2) f n unfolding rows_hold_def on
    by (simp add: mset_concat_update [where g = row_pairs and A = A]
        mset_concat_update [where g = row_unpaired_endpoints and A = B] del: mset_concat map_update)
  moreover have "list_all (pair_belongs eps topics) ((rs_out st')[n := f (rs_out st' ! n)])"
    using ok assms(3) belongs n by (auto simp: list_all_length nth_list_update)
  ultimately show ?thesis by (simp add: on)
qed

text \<open>The loop over the pairs of a group topic, and the loop over its unpaired endpoints.\<close>

definition rows_inv :: "endpoint list \<Rightarrow> topic_summary list \<Rightarrow> (nat \<times> nat) multiset \<Rightarrow> ep_ref multiset \<Rightarrow>
    nat multiset \<Rightarrow> rows_state \<Rightarrow> bool" where
  "rows_inv eps topics ps us ts st \<longleftrightarrow>
     rows_index_ok st \<and> rows_hold st ps us ts \<and> list_all (pair_belongs eps topics) (rs_out st)"

lemma pair_step_ok:
  assumes "rows_inv eps topics ps us ts st" "topics ! i = t" "t_pairs t ! fst jp = snd jp"
  shows "rows_inv eps topics (ps + {#(i, fst jp)#}) us ts (pair_step eps i t jp st)"
proof -
  obtain j p where jp: "jp = (j, p)" by (cases jp)
  let ?ts = "t_direction t = ToServer"
  let ?c = "if ?ts then p_writer p else p_reader p" and ?s = "if ?ts then p_reader p else p_writer p"
  have "rows_index_ok (on_row eps t (Some ?c) (Some ?s) (put_pair ?ts i j) st) \<and>
    rows_hold (on_row eps t (Some ?c) (Some ?s) (put_pair ?ts i j) st) (ps + {#(i, j)#}) (us + {#}) ts \<and>
    list_all (pair_belongs eps topics) (rs_out (on_row eps t (Some ?c) (Some ?s) (put_pair ?ts i j) st))"
  proof (rule on_row_ok)
    show "row_topic (put_pair ?ts i j r) = row_topic r \<and> row_sort_key (put_pair ?ts i j r) = row_sort_key r \<and>
      mset (row_pairs (put_pair ?ts i j r)) = mset (row_pairs r) + {#(i, j)#} \<and>
      mset (row_unpaired_endpoints (put_pair ?ts i j r)) = mset (row_unpaired_endpoints r) + {#}" for r
      by (simp add: put_pair_def row_sort_key_def row_pairs_def Let_def)
    show "pair_belongs eps topics (put_pair ?ts i j r)"
      if "pair_belongs eps topics r" "row_topic r = None"
        "row_sort_key r = (t_group t, prefix_of eps (Some ?c), prefix_of eps (Some ?s))" for r
      using that assms(2,3)
      by (auto simp: jp pair_belongs_def put_pair_def row_sort_key_def prefix_of_def Let_def)
  qed (use assms(1) in \<open>simp_all add: rows_inv_def\<close>)
  then show ?thesis
    by (cases ?ts) (simp_all add: rows_inv_def pair_step_def jp Let_def)
qed

lemma unpaired_step_ok:
  assumes "rows_inv eps topics ps us ts st"
  shows "rows_inv eps topics ps (us + {#e#}) ts (unpaired_step eps i t e st)"
proof -
  have "rows_index_ok (on_row eps t c s (put_unpaired i e) st) \<and>
    rows_hold (on_row eps t c s (put_unpaired i e) st) (ps + {#}) (us + {#e#}) ts \<and>
    list_all (pair_belongs eps topics) (rs_out (on_row eps t c s (put_unpaired i e) st))" for c s
    using assms
    by (intro on_row_ok)
      (simp_all add: rows_inv_def put_unpaired_def row_sort_key_def row_pairs_def pair_belongs_def)
  then show ?thesis by (simp add: rows_inv_def unpaired_step_def Let_def)
qed

lemma pair_fold_ok:
  "rows_inv eps topics ps us ts st \<Longrightarrow> topics ! i = t \<Longrightarrow>
   \<forall>jp \<in> set jps. t_pairs t ! fst jp = snd jp \<Longrightarrow>
   rows_inv eps topics (ps + mset (map (\<lambda>jp. (i, fst jp)) jps)) us ts (fold (pair_step eps i t) jps st)"
proof (induction jps arbitrary: ps st)
  case Nil
  then show ?case by simp
next
  case (Cons jp jps)
  from Cons.IH [OF pair_step_ok [OF Cons.prems(1,2), of jp]] Cons.prems show ?case by simp
qed

lemma unpaired_fold_ok:
  "rows_inv eps topics ps us ts st \<Longrightarrow>
   rows_inv eps topics ps (us + mset es) ts (fold (unpaired_step eps i t) es st)"
proof (induction es arbitrary: us st)
  case Nil
  then show ?case by simp
next
  case (Cons e es)
  from Cons.IH [OF unpaired_step_ok [OF Cons.prems]] show ?case by simp
qed

lemma plain_row_ok:
  "rows_inv eps topics ps us ts st \<Longrightarrow>
   rows_inv eps topics ps us (ts + {#i#}) (st\<lparr>rs_out := rs_out st @ [plain_row i t]\<rparr>)"
  by (auto simp: rows_inv_def rows_index_ok_def rows_hold_def plain_row_def display_row0_def
      row_pairs_def pair_belongs_def List.map_filter_def nth_append less_Suc_eq)

text \<open>What one topic adds.\<close>

definition topic_pairs :: "nat \<times> topic_summary \<Rightarrow> (nat \<times> nat) list" where
  "topic_pairs it = (if is_group (snd it) then map (Pair (fst it)) [0..<length (t_pairs (snd it))] else [])"

definition topic_unpaired :: "nat \<times> topic_summary \<Rightarrow> ep_ref list" where
  "topic_unpaired it =
     (if is_group (snd it) \<and> t_pairs (snd it) = [] then t_writers (snd it) @ t_readers (snd it) else [])"

definition topic_plain :: "nat \<times> topic_summary \<Rightarrow> nat list" where
  "topic_plain it = (if is_group (snd it) then [] else [fst it])"

lemma topic_step_ok:
  assumes "rows_inv eps topics ps us ts st" "topics ! fst it = snd it"
  shows "rows_inv eps topics (ps + mset (topic_pairs it)) (us + mset (topic_unpaired it))
    (ts + mset (topic_plain it)) (topic_step eps it st)"
proof -
  obtain i t where it: "it = (i, t)" by (cases it)
  have e: "map (\<lambda>jp. (i, fst jp)) (enumerate 0 xs) = map (Pair i) [0..<length xs]" for xs :: "pair list"
    by (rule nth_equalityI) (simp_all add: nth_enumerate_eq)
  consider "\<not> is_group t" | "is_group t" "t_pairs t \<noteq> []" | "is_group t" "t_pairs t = []" by blast
  then show ?thesis
  proof cases
    case 1
    then show ?thesis using plain_row_ok [OF assms(1)]
      by (simp add: it topic_step_def topic_pairs_def topic_unpaired_def topic_plain_def)
  next
    case 2
    have "\<forall>jp \<in> set (enumerate 0 (t_pairs t)). t_pairs t ! fst jp = snd jp"
      by (auto simp: in_set_enumerate_eq)
    from pair_fold_ok [OF assms(1) _ this, of i, unfolded e] assms(2) 2 show ?thesis
      by (simp add: it topic_step_def topic_pairs_def topic_unpaired_def topic_plain_def del: mset_map)
  next
    case 3
    then show ?thesis using unpaired_fold_ok [OF assms(1)]
      by (simp add: it topic_step_def topic_pairs_def topic_unpaired_def topic_plain_def del: fold_append mset_append)
  qed
qed

lemma topic_fold_ok:
  "rows_inv eps topics ps us ts st \<Longrightarrow> \<forall>it \<in> set its. topics ! fst it = snd it \<Longrightarrow>
   rows_inv eps topics (ps + mset (concat (map topic_pairs its)))
     (us + mset (concat (map topic_unpaired its))) (ts + mset (concat (map topic_plain its)))
     (fold (topic_step eps) its st)"
proof (induction its arbitrary: ps us ts st)
  case Nil
  then show ?case by simp
next
  case (Cons it its)
  from Cons.IH [OF topic_step_ok [OF Cons.prems(1), of it]] Cons.prems show ?case
    by (simp add: add.assoc)
qed

lemma display_rows_loop:
  "rows_inv eps topics (mset (concat (map topic_pairs (enumerate 0 topics))))
     (mset (concat (map topic_unpaired (enumerate 0 topics))))
     (mset (concat (map topic_plain (enumerate 0 topics))))
     (fold (topic_step eps) (enumerate 0 topics) \<lparr>rs_out = [], rs_index = []\<rparr>)"
proof -
  have "rows_inv eps topics {#} {#} {#} \<lparr>rs_out = [], rs_index = []\<rparr>"
    by (simp add: rows_inv_def rows_index_ok_def rows_hold_def List.map_filter_def)
  moreover have "\<forall>it \<in> set (enumerate 0 topics). topics ! fst it = snd it"
    by (auto simp: in_set_enumerate_eq)
  ultimately show ?thesis
    using topic_fold_ok [of eps topics "{#}" "{#}" "{#}"] unfolding add_0 by blast
qed

end
