(* ===== verification/Rows_Props.thy ===== *)
theory Rows_Props
  imports Rows Topics_Props
begin

text \<open>
  Properties of the table rows: nothing is lost or doubled, a row holds what its name and its
  two participants say, and the documented claim that an endpoint of a service is in exactly one
  row is refuted by a client with two servers.
\<close>

lemma set_type_sel:
  "row_topic (set_type topics r) = row_topic r"
  "row_sort_key (set_type topics r) = row_sort_key r"
  "row_pairs (set_type topics r) = row_pairs r"
  "row_unpaired_endpoints (set_type topics r) = row_unpaired_endpoints r"
  "pair_belongs eps topics (set_type topics r) = pair_belongs eps topics r"
  by (simp_all add: set_type_def row_sort_key_def row_pairs_def pair_belongs_def)

lemma mset_concat_map_eq:
  "mset xs = mset ys \<Longrightarrow> mset (concat (map f xs)) = mset (concat (map f ys))"
proof -
  assume "mset xs = mset ys"
  moreover have "mset (concat (map f zs)) = \<Sum>\<^sub># (image_mset (mset \<circ> f) (mset zs))" for zs
    by (induction zs) simp_all
  ultimately show ?thesis by simp
qed

lemma mset_map_filter_eq:
  "mset xs = mset ys \<Longrightarrow> mset (List.map_filter f xs) = mset (List.map_filter f ys)"
  by (simp add: List.map_filter_def)

abbreviation rows_of :: "endpoint list \<Rightarrow> topic_summary list \<Rightarrow> display_row list" where
  "rows_of eps topics \<equiv>
     rs_out (fold (topic_step eps) (enumerate 0 topics) \<lparr>rs_out = [], rs_index = []\<rparr>)"

lemma display_rows_hold:
  "mset (concat (map row_pairs (display_rows eps topics))) = mset (concat (map topic_pairs (enumerate 0 topics)))"
  "mset (concat (map row_unpaired_endpoints (display_rows eps topics))) =
     mset (concat (map topic_unpaired (enumerate 0 topics)))"
  "mset (List.map_filter row_topic (display_rows eps topics)) = mset (concat (map topic_plain (enumerate 0 topics)))"
proof -
  have h: "rows_hold (fold (topic_step eps) (enumerate 0 topics) \<lparr>rs_out = [], rs_index = []\<rparr>)
      (mset (concat (map topic_pairs (enumerate 0 topics))))
      (mset (concat (map topic_unpaired (enumerate 0 topics))))
      (mset (concat (map topic_plain (enumerate 0 topics))))"
    using display_rows_loop unfolding rows_inv_def by blast
  have m: "mset (display_rows eps topics) = mset (map (set_type topics) (rows_of eps topics))"
    by (simp add: display_rows_def)
  have c: "map row_topic (map (set_type topics) rs) = map row_topic rs"
    "map row_pairs (map (set_type topics) rs) = map row_pairs rs"
    "map row_unpaired_endpoints (map (set_type topics) rs) = map row_unpaired_endpoints rs" for rs
    by (simp_all add: set_type_sel)
  have k: "List.map_filter row_topic (map (set_type topics) rs) = List.map_filter row_topic rs" for rs
    by (simp only: map_filter_id [of row_topic] c(1))
  show "mset (concat (map row_pairs (display_rows eps topics))) = mset (concat (map topic_pairs (enumerate 0 topics)))"
    "mset (concat (map row_unpaired_endpoints (display_rows eps topics))) =
       mset (concat (map topic_unpaired (enumerate 0 topics)))"
    "mset (List.map_filter row_topic (display_rows eps topics)) = mset (concat (map topic_plain (enumerate 0 topics)))"
    using h unfolding rows_hold_def mset_concat_map_eq [OF m] mset_map_filter_eq [OF m] c(2,3) k by blast+
qed

text \<open>
  C14. The rows lose nothing and double nothing: every pair of a service or action topic is in
  exactly one row, once; every endpoint of such a topic without pairs is listed as unpaired in
  exactly one row, once; every other topic is one row of its own. The rows are sorted by name,
  requester and replier.
\<close>

theorem display_rows_total:
  "mset (concat (map row_pairs (display_rows eps topics))) =
     mset (concat (map topic_pairs (enumerate 0 topics))) \<and>
   mset (concat (map row_unpaired_endpoints (display_rows eps topics))) =
     mset (concat (map topic_unpaired (enumerate 0 topics))) \<and>
   mset (List.map_filter row_topic (display_rows eps topics)) =
     mset (concat (map topic_plain (enumerate 0 topics))) \<and>
   sorted (map row_sort_key (display_rows eps topics))"
  using display_rows_hold by (simp add: display_rows_def)

text \<open>
  Two rows of services and actions never share name and participants, and a row holds a pair
  only where it belongs: the group of the pair's topic is the row's name, the participant of the
  pair's client the requester, that of its server the replier, and the direction of the topic
  decides the side.
\<close>

theorem display_rows_grouping:
  "distinct (map row_sort_key (filter (\<lambda>r. row_topic r = None) (display_rows eps topics))) \<and>
   list_all (pair_belongs eps topics) (display_rows eps topics)"
proof -
  let ?st = "fold (topic_step eps) (enumerate 0 topics) \<lparr>rs_out = [], rs_index = []\<rparr>"
  let ?P = "\<lambda>r. row_topic r = None"
  have inv: "rows_index_ok ?st" "list_all (pair_belongs eps topics) (rs_out ?st)"
    using display_rows_loop unfolding rows_inv_def by blast+
  have uniq: "m = n" if "m < length (rs_out ?st)" "n < length (rs_out ?st)"
      "?P (rs_out ?st ! m)" "?P (rs_out ?st ! n)"
      "row_sort_key (rs_out ?st ! m) = row_sort_key (rs_out ?st ! n)" for m n
    using inv(1) that unfolding rows_index_ok_def by (metis option.inject)
  have "distinct (map row_sort_key (map (nth (rs_out ?st)) (filter (\<lambda>i. ?P (rs_out ?st ! i)) [0..<length (rs_out ?st)])))"
    using uniq by (auto simp: distinct_map inj_on_def)
  also have "map (nth (rs_out ?st)) (filter (\<lambda>i. ?P (rs_out ?st ! i)) [0..<length (rs_out ?st)])
      = filter ?P (map (nth (rs_out ?st)) [0..<length (rs_out ?st)])"
    by (simp add: filter_map comp_def)
  finally have d: "distinct (map row_sort_key (filter ?P (rs_out ?st)))" by (simp add: map_nth)
  have "map row_sort_key (filter ?P (map (set_type topics) (rs_out ?st))) = map row_sort_key (filter ?P (rs_out ?st))"
    by (simp add: filter_map comp_def set_type_sel)
  moreover have "mset (map row_sort_key (filter ?P (display_rows eps topics)))
      = mset (map row_sort_key (filter ?P (map (set_type topics) (rs_out ?st))))"
    by (simp add: display_rows_def)
  ultimately have "distinct (map row_sort_key (filter ?P (display_rows eps topics)))"
    using d mset_eq_imp_distinct_iff by metis
  moreover have "list_all (pair_belongs eps topics) (display_rows eps topics)"
    using inv(2) by (simp add: display_rows_def list_all_iff set_type_sel)
  ultimately show ?thesis by blast
qed

subsection \<open>One client, two servers\<close>

definition two_servers :: "endpoint list" where
  "two_servers =
     [endpoint0\<lparr>is_writer := True, participant_guid_prefix := ''c''\<rparr>,
      endpoint0\<lparr>participant_guid_prefix := ''s''\<rparr>,
      endpoint0\<lparr>participant_guid_prefix := ''t''\<rparr>]"

definition two_server_topic :: topic_summary where
  "two_server_topic = topic_summary0\<lparr>t_kind := TkService, t_group := ''/add'',
     t_direction := ToServer, t_writers := [0], t_readers := [1, 2],
     t_pairs := [\<lparr>p_writer = 0, p_reader = 1, p_verdict = verdict0, p_measured = measurement0\<rparr>,
                 \<lparr>p_writer = 0, p_reader = 2, p_verdict = verdict0, p_measured = measurement0\<rparr>]\<rparr>"

text \<open>
  A client called against two servers is the client of two rows, so an endpoint of a service
  is not in exactly one row.
\<close>

theorem client_in_two_rows:
  "map (\<lambda>r. (row_requester r, row_replier r, row_client r)) (display_rows two_servers [two_server_topic])
   = [(''c'', ''s'', Some 0), (''c'', ''t'', Some 0)]"
  by (simp add: display_rows_def two_servers_def two_server_topic_def topic_summary0_def
      topic_step_def is_group_def pair_step_def on_row_def row_for_def prefix_of_def Let_def
      put_pair_def add_member_def display_row0_def endpoint0_def set_type_def group_type_def
      row_sort_key_def)

end
