(* ===== verification/Measure.thy ===== *)
theory Measure
  imports Topics Snapshot_Model
begin

text \<open>
  Measurements (\<open>apply_stats\<close> of \<open>src/decision.cpp\<close>): what the statistics topics say about each
  pair, the loss totals of each topic, and the verdict judged against them. The pairs of a topic
  are processed in order and updated in place, so the verdicts a pair looks at are the new ones
  for the pairs before it and the old ones for those after it.
\<close>

subsection \<open>Locators\<close>

definition same_locator :: "locator \<Rightarrow> locator \<Rightarrow> bool" where
  "same_locator a b \<longleftrightarrow> loc_kind a = loc_kind b \<and> loc_port a = loc_port b \<and>
     (loc_kind a = LocSHM \<or> loc_address a = loc_address b)"

definition is_loopback :: "string \<Rightarrow> bool" where
  "is_loopback address \<longleftrightarrow> address = ''127.0.0.1'' \<or> address = ''::1''"

definition same_locator_local :: "locator \<Rightarrow> locator \<Rightarrow> string set \<Rightarrow> bool" where
  "same_locator_local a b loc \<longleftrightarrow>
     (if same_locator a b then True
      else if loc_kind a \<noteq> loc_kind b \<or> loc_port a \<noteq> loc_port b then False
      else (is_loopback (loc_address a) \<and> loc_address b \<in> loc) \<or>
           (is_loopback (loc_address b) \<and> loc_address a \<in> loc))"

definition reader_has_locator :: "endpoint \<Rightarrow> locator \<Rightarrow> string set \<Rightarrow> bool" where
  "reader_has_locator reader l loc \<longleftrightarrow>
     list_ex (\<lambda>rl. same_locator_local rl l loc) (unicast reader) \<or>
     list_ex (\<lambda>rl. same_locator_local rl l loc) (multicast reader)"

definition reader_has_unicast_locator :: "endpoint \<Rightarrow> locator \<Rightarrow> string set \<Rightarrow> bool" where
  "reader_has_unicast_locator reader l loc \<longleftrightarrow>
     list_ex (\<lambda>rl. same_locator_local rl l loc) (unicast reader)"

fun transport_for_kind :: "locator_kind \<Rightarrow> transport" where
  "transport_for_kind LocUDPv4 = UDPv4"
| "transport_for_kind LocUDPv6 = UDPv6"
| "transport_for_kind LocTCPv4 = TCPv4"
| "transport_for_kind LocTCPv6 = TCPv6"
| "transport_for_kind LocSHM = SHM"
| "transport_for_kind LocInvalid = NoTransport"

fun measured_reason :: "transport \<Rightarrow> string" where
  "measured_reason UDPv4 = ''measured-udpv4-traffic''"
| "measured_reason UDPv6 = ''measured-udpv6-traffic''"
| "measured_reason TCPv4 = ''measured-tcpv4-traffic''"
| "measured_reason TCPv6 = ''measured-tcpv6-traffic''"
| "measured_reason SHM = ''measured-shm-traffic''"
| "measured_reason _ = ''measured-unknown-traffic''"

definition kStatsWriterInstanceLimit :: nat where
  "kStatsWriterInstanceLimit = 10"

definition entity_guids :: "endpoint \<Rightarrow> string list" where
  "entity_guids e = guid e # buffer_companion_guids e"

definition is_datasharing_split :: "verdict \<Rightarrow> bool" where
  "is_datasharing_split v \<longleftrightarrow> has_code (v_warnings v) ''shm-ipc-namespace-split'' \<and>
     has_code (v_reasons v) ''datasharing-qos-enabled-both''"

definition count_per_source :: "traffic_sample list \<Rightarrow> (string, nat) omap" where
  "count_per_source ss = fold (\<lambda>s. om_upd (src_participant_prefix s) 0 Suc) ss []"

text \<open>\<open>last - std::min(last, first)\<close> of a cumulative counter\<close>

definition counter_delta :: "u64 \<Rightarrow> u64 \<Rightarrow> u64" where
  "counter_delta latest earliest = latest - min latest earliest"

subsection \<open>Delivery, latency and rate\<close>

text \<open>The two nested loops over the GUIDs of writer and reader.\<close>

definition guid_pairs :: "endpoint \<Rightarrow> endpoint \<Rightarrow> (string \<times> string) list" where
  "guid_pairs w r = List.product (entity_guids w) (entity_guids r)"

record delivery_acc =
  da_found :: bool
  da_delivered :: u64
  da_latency :: latency_stat

definition lat_merge :: "latency_stat \<Rightarrow> latency_stat \<Rightarrow> latency_stat" where
  "lat_merge a l = \<lparr>lat_sum = d_add (lat_sum a) (lat_sum l),
     lat_min = d_min (lat_min a) (lat_min l), lat_max = d_max (lat_max a) (lat_max l),
     lat_last = lat_last l, lat_samples = lat_samples a + lat_samples l\<rparr>"

definition delivery_step :: "stats_data \<Rightarrow> string \<times> string \<Rightarrow> delivery_acc \<Rightarrow> delivery_acc" where
  "delivery_step stats k a =
     (let a = (case om_get (delivered stats) k of
                 None \<Rightarrow> a
               | Some d \<Rightarrow> a\<lparr>da_found := True, da_delivered := da_delivered a + d\<rparr>)
      in case om_get (latency stats) k of
           None \<Rightarrow> a
         | Some l \<Rightarrow> if 0 < lat_samples l then a\<lparr>da_latency := lat_merge (da_latency a) l\<rparr> else a)"

definition measure_delivery :: "stats_data \<Rightarrow> endpoint \<Rightarrow> endpoint \<Rightarrow> measurement \<Rightarrow> measurement" where
  "measure_delivery stats w r m =
     (let a = fold (delivery_step stats) (guid_pairs w r)
                \<lparr>da_found = False, da_delivered = 0, da_latency = latency_stat0\<rparr>;
          m = (if da_found a
               then m\<lparr>m_delivered_samples := da_delivered a, m_delivered := 0 < da_delivered a\<rparr>
               else m)
      in if 0 < lat_samples (da_latency a)
         then m\<lparr>m_latency_available := True, m_latency := da_latency a\<rparr> else m)"

definition window_step :: "stats_data \<Rightarrow> string \<times> string \<Rightarrow> delivery_window \<Rightarrow> delivery_window" where
  "window_step stats k w =
     (case om_get (delivery_windows stats) k of
        None \<Rightarrow> w
      | Some d \<Rightarrow>
          (if dw_samples d = 0 then w
           else if dw_samples w = 0 then d
           else \<lparr>dw_samples = dw_samples w + dw_samples d,
                 dw_first_s = d_min (dw_first_s w) (dw_first_s d),
                 dw_last_s = d_max (dw_last_s w) (dw_last_s d)\<rparr>))"

definition measure_rate :: "stats_data \<Rightarrow> endpoint \<Rightarrow> endpoint \<Rightarrow> measurement \<Rightarrow> measurement" where
  "measure_rate stats wr r m =
     (let w = fold (window_step stats) (guid_pairs wr r) delivery_window0;
          m = m\<lparr>m_rate_window_s := rate_window_s stats\<rparr>
      in if 2 \<le> dw_samples w \<and> d_lt (dw_first_s w) (dw_last_s w)
         then m\<lparr>m_rate_available := True,
                m_delivered_per_s := d_div (d_of_nat (unat (dw_samples w - 1)))
                                       (d_sub (dw_last_s w) (dw_first_s w)),
                m_rate_lower_bound :=
                  om_get (latency_gaps stats) (participant_guid_prefix r) \<noteq> None\<rparr>
         else m)"

subsection \<open>Reliability\<close>

definition delta_step :: "(string, data_count_sample) omap \<Rightarrow> string \<Rightarrow> bool \<times> u64 \<Rightarrow> bool \<times> u64" where
  "delta_step mp g a =
     (case om_get mp g of
        None \<Rightarrow> a
      | Some s \<Rightarrow> (True, snd a + counter_delta (dc_last s) (dc_first s)))"

definition guid_delta :: "(string, data_count_sample) omap \<Rightarrow> string list \<Rightarrow> bool \<times> u64" where
  "guid_delta mp guids = fold (delta_step mp) guids (False, 0)"

definition entity_counters :: "stats_data \<Rightarrow> endpoint \<Rightarrow> endpoint \<Rightarrow> reliability_stat \<Rightarrow> reliability_stat" where
  "entity_counters stats w r rel =
     (let wg = entity_guids w; rg = entity_guids r;
          d1 = guid_delta (resent_datas stats) wg; d2 = guid_delta (heartbeats stats) wg;
          d3 = guid_delta (gaps stats) wg; d4 = guid_delta (acknacks stats) rg;
          d5 = guid_delta (nackfrags stats) rg
      in rel\<lparr>rel_available := rel_available rel \<or> fst d1 \<or> fst d2 \<or> fst d3 \<or> fst d4 \<or> fst d5,
             rel_resent := snd d1, rel_heartbeats := snd d2, rel_gaps := snd d3,
             rel_acknacks := snd d4, rel_nackfrags := snd d5\<rparr>)"

text \<open>Whether an RTPS_LOST entry is about packets from this writer's to this reader's participant.\<close>

definition lost_matches :: "stats_data \<Rightarrow> endpoint \<Rightarrow> endpoint \<Rightarrow> traffic_sample \<Rightarrow> bool" where
  "lost_matches stats w r s \<longleftrightarrow>
     reporter_participant_prefix s = participant_guid_prefix r \<and>
     src_participant_prefix s = participant_guid_prefix w \<and>
     reader_has_unicast_locator r (ts_dst s) (local_addresses stats)"

definition lost_packets_of :: "traffic_sample \<Rightarrow> u64" where
  "lost_packets_of s = counter_delta (ts_packets s) (ts_packets_first s)"

record lost_acc =
  la_rel :: reliability_stat
  la_topic :: u64
  la_seen :: "nat set"

definition lost_step :: "stats_data \<Rightarrow> endpoint \<Rightarrow> endpoint \<Rightarrow> nat \<times> traffic_sample \<Rightarrow> lost_acc \<Rightarrow> lost_acc" where
  "lost_step stats w r x a =
     (if \<not> lost_matches stats w r (snd x) then a
      else
        (let packets = lost_packets_of (snd x); rel = la_rel a
         in a\<lparr>la_rel := rel\<lparr>rel_lost_available := True,
                            rel_lost_packets := rel_lost_packets rel + packets\<rparr>,
              la_topic := (if fst x \<in> la_seen a then la_topic a else la_topic a + packets),
              la_seen := insert (fst x) (la_seen a)\<rparr>))"

text \<open>The state of the loop over the pairs: the topic and \<open>topic_lost\<close>.\<close>

record topic_state =
  ts_topic :: topic_summary
  ts_seen :: "nat set"

definition reliability_block ::
  "stats_data \<Rightarrow> endpoint \<Rightarrow> endpoint \<Rightarrow> pair \<times> topic_state \<Rightarrow> pair \<times> topic_state" where
  "reliability_block stats w r ps =
     (let p = fst ps; st = snd ps; t = ts_topic st; m = p_measured p;
          rel = entity_counters stats w r (m_reliability m);
          rel = rel\<lparr>rel_lost_available :=
                 (participant_guid_prefix r, kStatsRtpsLostTopic) \<in> statistics_writers stats\<rparr>;
          a = fold (lost_step stats w r) (enumerate 0 (lost stats))
                \<lparr>la_rel = rel, la_topic = t_lost_packets t, la_seen = ts_seen st\<rparr>;
          rel = (la_rel a)\<lparr>rel_available := rel_available (la_rel a) \<or> rel_lost_available (la_rel a)\<rparr>;
          t = t\<lparr>t_lost_packets := la_topic a\<rparr>;
          p = p\<lparr>p_measured := m\<lparr>m_reliability := rel\<rparr>\<rparr>
      in if rel_available rel then
           (if 0 < rel_lost_packets rel
              then p\<lparr>p_verdict := warning ''rtps-packets-lost'' (p_verdict p)\<rparr> else p,
            \<lparr>ts_topic = t\<lparr>t_reliability_available := True,
                t_lost_available := t_lost_available t \<or> rel_lost_available rel,
                t_resent := t_resent t + rel_resent rel\<rparr>,
             ts_seen = la_seen a\<rparr>)
         else (p, \<lparr>ts_topic = t, ts_seen = la_seen a\<rparr>))"

definition latency_block :: "pair \<times> topic_state \<Rightarrow> pair \<times> topic_state" where
  "latency_block ps =
     (let p = fst ps; st = snd ps; t = ts_topic st; m = p_measured p; mean = lat_mean (m_latency m)
      in if m_latency_available m then
           (if d_lt mean (Fin 0)
              then p\<lparr>p_verdict := warning ''latency-clock-skew-suspected'' (p_verdict p)\<rparr> else p,
            st\<lparr>ts_topic := t\<lparr>
                t_latency := (if \<not> t_latency_available t \<or> d_lt (t_latency t) mean then mean
                              else t_latency t),
                t_latency_available := True\<rparr>\<rparr>)
         else ps)"

subsection \<open>Traffic\<close>

definition data_count_step :: "stats_data \<Rightarrow> string \<Rightarrow> measurement \<Rightarrow> measurement" where
  "data_count_step stats g m =
     (case om_get (data_count stats) g of
        None \<Rightarrow> m
      | Some dc \<Rightarrow> m\<lparr>m_data_count_available := True,
          m_data_submessages := m_data_submessages m + counter_delta (dc_last dc) (dc_first dc)\<rparr>)"

definition measure_data_count :: "stats_data \<Rightarrow> endpoint \<Rightarrow> measurement \<Rightarrow> measurement" where
  "measure_data_count stats w m =
     (let m = fold (data_count_step stats) (entity_guids w) m
      in if \<not> m_data_count_available m \<and>
            (participant_guid_prefix w, kStatsDataCountTopic) \<in> statistics_writers stats
         then m\<lparr>m_data_count_available := True\<rparr> else m)"

definition traffic_step :: "stats_data \<Rightarrow> endpoint \<Rightarrow> endpoint \<Rightarrow> traffic_sample \<Rightarrow> measurement \<Rightarrow> measurement" where
  "traffic_step stats w r s m =
     (if src_participant_prefix s \<noteq> participant_guid_prefix w \<or>
         \<not> reader_has_locator r (ts_dst s) (local_addresses stats) then m
      else if ts_packets s = 0 then m
      else
        (let tr = transport_for_kind (loc_kind (ts_dst s));
             packets = counter_delta (ts_packets s) (ts_packets_first s);
             bytes = d_max (Fin 0) (d_sub (ts_bytes s) (ts_bytes_first s))
         in m\<lparr>m_transports := (if List.member (m_transports m) tr then m_transports m
                               else m_transports m @ [tr]),
              m_locators := m_locators m @
                [\<lparr>ml_locator = ts_dst s, ml_packets = packets, ml_bytes = bytes\<rparr>],
              m_packets := m_packets m + packets,
              m_bytes := d_add (m_bytes m) bytes,
              m_packets_total := m_packets_total m + ts_packets s,
              m_bytes_total := d_add (m_bytes_total m) (ts_bytes s)\<rparr>))"

definition measure_traffic :: "stats_data \<Rightarrow> endpoint \<Rightarrow> endpoint \<Rightarrow> measurement \<Rightarrow> measurement" where
  "measure_traffic stats w r m = fold (traffic_step stats w r) (traffic stats) m"

subsection \<open>Judging the verdict\<close>

definition judge_unmatched :: "measurement \<Rightarrow> verdict \<Rightarrow> verdict" where
  "judge_unmatched m v =
     (if m_delivered m then
        warning (if has_code (v_warnings v) ''qos-incompatible'' then ''qos-incompatible-but-delivered''
                 else if has_code (v_reasons v) ''type-name-mismatch'' then ''type-name-mismatch-but-delivered''
                 else ''type-information-mismatch-but-delivered'') v
      else v)"

definition judge_split :: "measurement \<Rightarrow> verdict \<Rightarrow> verdict" where
  "judge_split m v =
     (let v = reasons (map measured_reason (m_transports m)) v;
          v = (if m_delivered m then warning ''shm-ipc-namespace-split-but-delivered'' v else v);
          both_shm = has_code (v_reasons v) ''both-shm-locators''
      in if both_shm \<and>
            list_ex (\<lambda>l. loc_kind (ml_locator l) \<noteq> LocSHM \<and> 0 < ml_packets l) (m_locators m)
         then warning ''shm-ipc-namespace-split-but-non-shm-traffic'' v else v)"

definition ds_code :: "string \<Rightarrow> verdict \<Rightarrow> verdict" where
  "ds_code c v = v\<lparr>v_reasons := replace_code (v_reasons v) ''datasharing-unverified-by-traffic'' c\<rparr>"

definition judge_datasharing :: "bool \<Rightarrow> measurement \<Rightarrow> verdict \<Rightarrow> verdict" where
  "judge_datasharing all_readers_datasharing m v =
     (if m_delivered m \<and> m_transports m = [] then
        ds_code ''datasharing-confirmed-no-traffic'' (v\<lparr>v_confidence := Certain\<rparr>)
      else if m_delivered m \<and> m_data_count_available m then
        (if \<not> all_readers_datasharing then ds_code ''datasharing-ambiguous-mixed-readers'' v
         else if m_data_submessages m = 0 then
           ds_code ''datasharing-confirmed-no-data-submessages'' (v\<lparr>v_confidence := Certain\<rparr>)
         else
           warning ''datasharing-not-used''
             (reasons (map measured_reason (m_transports m))
               (ds_code ''datasharing-data-submessages-sent''
                 (v\<lparr>v_transport := (if m_transports m = [] then SHM else hd (m_transports m)),
                    v_confidence := (if m_transports m = [] then Likely else Certain)\<rparr>))))
      else if m_transports m \<noteq> [] then ds_code ''datasharing-ambiguous-participant-traffic'' v
      else ds_code ''datasharing-no-delivery-observed'' v)"

definition judge_transport :: "stats_data \<Rightarrow> nat \<Rightarrow> measurement \<Rightarrow> verdict \<Rightarrow> verdict" where
  "judge_transport stats n_locators m v =
     (if m_transports m = [] then
        warning (if writer_instance_limit stats \<and> kStatsWriterInstanceLimit \<le> n_locators
                 then ''stats-writer-instance-limit-suspected''
                 else if m_delivered m then ''delivered-without-measured-traffic''
                 else ''no-traffic-observed'') v
      else
        (let matches = List.member (m_transports m) (v_transport v);
             v = reasons (map measured_reason (m_transports m)) v;
             v = (if matches then v\<lparr>v_confidence := Certain\<rparr>
                  else warning ''measured-transport-mismatch'' v);
             v = (if m_packets m = 0 \<and> m_delivered m
                  then warning ''delivered-without-measured-traffic'' v else v)
         in if matches \<and> loc_kind (v_locator v) \<noteq> LocInvalid \<and>
               \<not> list_ex (\<lambda>ml. same_locator_local (ml_locator ml) (v_locator v) (local_addresses stats))
                    (m_locators m)
            then warning ''measured-locator-mismatch'' v else v))"

definition unmatched_pair :: "verdict \<Rightarrow> bool" where
  "unmatched_pair v \<longleftrightarrow> has_code (v_warnings v) ''qos-incompatible'' \<or>
     has_code (v_reasons v) ''type-name-mismatch'' \<or>
     has_code (v_reasons v) ''type-information-mismatch''"

definition judge :: "stats_data \<Rightarrow> nat \<Rightarrow> bool \<Rightarrow> measurement \<Rightarrow> verdict \<Rightarrow> verdict" where
  "judge stats n_locators all_readers_datasharing m v =
     (if unmatched_pair v then judge_unmatched m v
      else if has_code (v_warnings v) ''shm-ipc-namespace-split'' then judge_split m v
      else if \<not> m_available m then warning ''stats-not-enabled-on-writer'' v
      else if has_code (v_reasons v) ''intra-process'' \<and> m_packets m = 0 then
        (if \<not> m_delivered m then warning ''no-traffic-observed'' v else v)
      else
        (let v = v\<lparr>v_reasons := filter (\<lambda>c. c \<noteq> ''intra-process'') (v_reasons v)\<rparr>
         in if v_transport v = DataSharing then judge_datasharing all_readers_datasharing m v
            else judge_transport stats n_locators m v))"

definition all_datasharing :: "ep_ref \<Rightarrow> pair list \<Rightarrow> bool" where
  "all_datasharing w pairs \<longleftrightarrow>
     list_all (\<lambda>q. if p_writer q \<noteq> w then True
                   else v_transport (p_verdict q) = DataSharing \<or> is_datasharing_split (p_verdict q)) pairs"

subsection \<open>The loops\<close>

definition measure_pair :: "endpoint list \<Rightarrow> stats_data \<Rightarrow> nat \<Rightarrow> topic_state \<Rightarrow> topic_state" where
  "measure_pair eps stats j st =
     (let p = t_pairs (ts_topic st) ! j;
          w = eps ! p_writer p; r = eps ! p_reader p; src = participant_guid_prefix w;
          m = (p_measured p)\<lparr>m_available := src \<in> participants_with_stats stats\<rparr>;
          m = measure_rate stats w r (measure_delivery stats w r m);
          (p, st) = latency_block (reliability_block stats w r (p\<lparr>p_measured := m\<rparr>, st));
          m = measure_traffic stats w r (measure_data_count stats w (p_measured p));
          p = p\<lparr>p_measured := m\<rparr>;
          n = (case om_get (count_per_source (traffic stats)) src of None \<Rightarrow> 0 | Some n \<Rightarrow> n);
          ds = all_datasharing (p_writer p) ((t_pairs (ts_topic st))[j := p]);
          p = p\<lparr>p_verdict := judge stats n ds m (p_verdict p)\<rparr>
      in st\<lparr>ts_topic := (ts_topic st)\<lparr>t_pairs := (t_pairs (ts_topic st))[j := p]\<rparr>\<rparr>)"

definition reset_topic :: "topic_summary \<Rightarrow> topic_summary" where
  "reset_topic t = t\<lparr>t_latency := Fin 0, t_latency_available := False,
     t_reliability_available := False, t_lost_available := False, t_lost_packets := 0,
     t_resent := 0\<rparr>"

definition measure_topic :: "endpoint list \<Rightarrow> stats_data \<Rightarrow> topic_summary \<Rightarrow> topic_summary" where
  "measure_topic eps stats t =
     ts_topic (fold (measure_pair eps stats) [0..<length (t_pairs t)]
       \<lparr>ts_topic = reset_topic t, ts_seen = {}\<rparr>)"

definition apply_stats :: "endpoint list \<Rightarrow> stats_data \<Rightarrow> topic_summary list \<Rightarrow> topic_summary list" where
  "apply_stats eps stats topics =
     (if \<not> enabled stats then topics else map (measure_topic eps stats) topics)"

end
