(* ===== verification/Measure_Props.thy ===== *)
theory Measure_Props
  imports Measure Decide_Props
begin

text \<open>
  Properties of the measurements: the measured part of a pair depends on its endpoints and the
  statistics alone, its totals are those of its locators, the losses of a topic count every
  statistics entry once, and the judgement moves a verdict only on evidence. One theorem shows
  that the judgement of data-sharing pairs depends on their order.
\<close>

subsection \<open>What the loops add up to\<close>

text \<open>The measurement of one pair, without the topic around it.\<close>

definition reliability_of :: "stats_data \<Rightarrow> endpoint \<Rightarrow> endpoint \<Rightarrow> reliability_stat \<Rightarrow> reliability_stat" where
  "reliability_of stats w r rel =
     (let rel = entity_counters stats w r rel;
          ls = filter (lost_matches stats w r) (lost stats);
          la = (participant_guid_prefix r, kStatsRtpsLostTopic) \<in> statistics_writers stats \<or> ls \<noteq> []
      in rel\<lparr>rel_lost_available := la,
             rel_lost_packets := rel_lost_packets rel + sum_list (map lost_packets_of ls),
             rel_available := rel_available rel \<or> la\<rparr>)"

definition measure_of :: "stats_data \<Rightarrow> endpoint \<Rightarrow> endpoint \<Rightarrow> measurement \<Rightarrow> measurement" where
  "measure_of stats w r m =
     (let m = measure_rate stats w r (measure_delivery stats w r
                (m\<lparr>m_available := participant_guid_prefix w \<in> participants_with_stats stats\<rparr>));
          m = m\<lparr>m_reliability := reliability_of stats w r (m_reliability m)\<rparr>
      in measure_traffic stats w r (measure_data_count stats w m))"

lemma lost_fold:
  "distinct (map fst xs) \<Longrightarrow>
   (let a' = fold (lost_step stats w r) xs a; ys = filter (\<lambda>x. lost_matches stats w r (snd x)) xs in
    la_seen a' = la_seen a \<union> fst ` set ys \<and>
    la_topic a' = la_topic a + (\<Sum>x \<leftarrow> filter (\<lambda>x. fst x \<notin> la_seen a) ys. lost_packets_of (snd x)) \<and>
    la_rel a' = (la_rel a)\<lparr>rel_lost_available := rel_lost_available (la_rel a) \<or> ys \<noteq> [],
      rel_lost_packets := rel_lost_packets (la_rel a) + (\<Sum>x \<leftarrow> ys. lost_packets_of (snd x))\<rparr>)"
proof (induction xs arbitrary: a)
  case Nil
  then show ?case by simp
next
  case (Cons x xs)
  let ?a = "lost_step stats w r x a"
  have IH: "distinct (map fst xs)" "fst x \<notin> fst ` set xs" using Cons.prems by auto
  show ?case
  proof (cases "lost_matches stats w r (snd x)")
    case False
    then show ?thesis using Cons.IH [OF IH(1), of a] by (simp add: lost_step_def)
  next
    case True
    have "filter (\<lambda>y. fst y \<notin> insert (fst x) (la_seen a)) (filter (\<lambda>x. lost_matches stats w r (snd x)) xs)
        = filter (\<lambda>y. fst y \<notin> la_seen a) (filter (\<lambda>x. lost_matches stats w r (snd x)) xs)"
      using IH(2) by (auto intro!: filter_cong) (metis fst_conv image_eqI)
    then show ?thesis
      using True Cons.IH [OF IH(1), of ?a]
      by (auto simp: lost_step_def Let_def add_ac)
  qed
qed

lemma filter_snd_enumerate: "map snd (filter (\<lambda>x. P (snd x)) (enumerate n xs)) = filter P xs"
  by (induction xs arbitrary: n) auto

lemma lost_fold_enumerate:
  "(let a' = fold (lost_step stats w r) (enumerate 0 (lost stats)) a;
        ys = filter (\<lambda>x. lost_matches stats w r (snd x)) (enumerate 0 (lost stats)) in
    la_seen a' = la_seen a \<union> fst ` set ys \<and>
    la_topic a' = la_topic a + (\<Sum>x \<leftarrow> filter (\<lambda>x. fst x \<notin> la_seen a) ys. lost_packets_of (snd x)) \<and>
    la_rel a' = (la_rel a)\<lparr>rel_lost_available := rel_lost_available (la_rel a) \<or> filter (lost_matches stats w r) (lost stats) \<noteq> [],
      rel_lost_packets := rel_lost_packets (la_rel a) + sum_list (map lost_packets_of (filter (lost_matches stats w r) (lost stats)))\<rparr>)"
proof -
  let ?ys = "filter (\<lambda>x. lost_matches stats w r (snd x)) (enumerate 0 (lost stats))"
  have ys: "map snd ?ys = filter (lost_matches stats w r) (lost stats)"
    by (rule filter_snd_enumerate)
  have m: "map (\<lambda>x. lost_packets_of (snd x)) ?ys = map lost_packets_of (filter (lost_matches stats w r) (lost stats))"
    unfolding ys [symmetric] by simp
  have e: "?ys = [] \<longleftrightarrow> filter (lost_matches stats w r) (lost stats) = []"
    unfolding ys [symmetric] by simp
  have d: "distinct (map fst (enumerate 0 (lost stats)))" by simp
  show ?thesis
    using lost_fold [OF d, of stats w r a] unfolding Let_def m e .
qed

text \<open>The blocks that touch the topic, projected.\<close>

lemma lost_fold_rel:
  "la_rel (fold (lost_step stats w r) (enumerate 0 (lost stats)) a) =
     (la_rel a)\<lparr>rel_lost_available := rel_lost_available (la_rel a) \<or> filter (lost_matches stats w r) (lost stats) \<noteq> [],
       rel_lost_packets := rel_lost_packets (la_rel a) +
         sum_list (map lost_packets_of (filter (lost_matches stats w r) (lost stats)))\<rparr>"
  using lost_fold_enumerate [of stats w r a] unfolding Let_def by blast

lemma latency_block_sel:
  "p_writer (fst (latency_block ps)) = p_writer (fst ps)"
  "p_reader (fst (latency_block ps)) = p_reader (fst ps)"
  "p_measured (fst (latency_block ps)) = p_measured (fst ps)"
  "t_pairs (ts_topic (snd (latency_block ps))) = t_pairs (ts_topic (snd ps))"
  "t_lost_packets (ts_topic (snd (latency_block ps))) = t_lost_packets (ts_topic (snd ps))"
  "ts_seen (snd (latency_block ps)) = ts_seen (snd ps)"
  by (auto simp: latency_block_def Let_def)

lemma reliability_block_sel:
  "p_writer (fst (reliability_block stats w r ps)) = p_writer (fst ps)"
  "p_reader (fst (reliability_block stats w r ps)) = p_reader (fst ps)"
  "t_pairs (ts_topic (snd (reliability_block stats w r ps))) = t_pairs (ts_topic (snd ps))"
  by (auto simp: reliability_block_def Let_def)

lemma reliability_block_measured:
  "p_measured (fst (reliability_block stats w r ps)) =
   (p_measured (fst ps))\<lparr>m_reliability := reliability_of stats w r (m_reliability (p_measured (fst ps)))\<rparr>"
  by (simp add: reliability_block_def reliability_of_def Let_def lost_fold_rel)

lemma reliability_block_lost:
  "let ys = filter (\<lambda>x. lost_matches stats w r (snd x)) (enumerate 0 (lost stats)) in
   ts_seen (snd (reliability_block stats w r ps)) = ts_seen (snd ps) \<union> fst ` set ys \<and>
   t_lost_packets (ts_topic (snd (reliability_block stats w r ps))) =
     t_lost_packets (ts_topic (snd ps)) +
     (\<Sum>x \<leftarrow> filter (\<lambda>x. fst x \<notin> ts_seen (snd ps)) ys. lost_packets_of (snd x))"
  using lost_fold_enumerate [of stats w r]
  by (auto simp: reliability_block_def Let_def)

subsection \<open>One pair, and all pairs\<close>

definition pair_writer :: "endpoint list \<Rightarrow> pair \<Rightarrow> endpoint" where
  "pair_writer eps p = eps ! p_writer p"

definition pair_reader :: "endpoint list \<Rightarrow> pair \<Rightarrow> endpoint" where
  "pair_reader eps p = eps ! p_reader p"

definition pair_lost :: "endpoint list \<Rightarrow> stats_data \<Rightarrow> pair \<Rightarrow> traffic_sample \<Rightarrow> bool" where
  "pair_lost eps stats p s \<longleftrightarrow> lost_matches stats (pair_writer eps p) (pair_reader eps p) s"

definition measured_pair :: "endpoint list \<Rightarrow> stats_data \<Rightarrow> pair \<Rightarrow> ep_ref \<times> ep_ref \<times> measurement" where
  "measured_pair eps stats p = (p_writer p, p_reader p,
     measure_of stats (pair_writer eps p) (pair_reader eps p) (p_measured p))"

definition pair_view :: "pair \<Rightarrow> ep_ref \<times> ep_ref \<times> measurement" where
  "pair_view p = (p_writer p, p_reader p, p_measured p)"

lemma measure_pair_shape:
  "let st' = measure_pair eps stats j st; p = t_pairs (ts_topic st) ! j;
       ys = filter (\<lambda>x. pair_lost eps stats p (snd x)) (enumerate 0 (lost stats)) in
   (\<exists>p'. t_pairs (ts_topic st') = (t_pairs (ts_topic st))[j := p'] \<and>
      pair_view p' = measured_pair eps stats p) \<and>
   ts_seen st' = ts_seen st \<union> fst ` set ys \<and>
   t_lost_packets (ts_topic st') = t_lost_packets (ts_topic st) +
     (\<Sum>x \<leftarrow> filter (\<lambda>x. fst x \<notin> ts_seen st) ys. lost_packets_of (snd x))"
proof -
  define p where "p = t_pairs (ts_topic st) ! j"
  define w where "w = eps ! p_writer p"
  define r where "r = eps ! p_reader p"
  define m where "m = measure_rate stats w r (measure_delivery stats w r
    ((p_measured p)\<lparr>m_available := participant_guid_prefix w \<in> participants_with_stats stats\<rparr>))"
  define ps where "ps = latency_block (reliability_block stats w r (p\<lparr>p_measured := m\<rparr>, st))"
  define m2 where "m2 = measure_traffic stats w r (measure_data_count stats w (p_measured (fst ps)))"
  define v where "v = judge stats
      (case om_get (count_per_source (traffic stats)) (participant_guid_prefix w) of None \<Rightarrow> 0 | Some n \<Rightarrow> n)
      (all_datasharing (p_writer (fst ps)) ((t_pairs (ts_topic (snd ps)))[j := (fst ps)\<lparr>p_measured := m2\<rparr>]))
      m2 (p_verdict (fst ps))"
  have ps: "p_writer (fst ps) = p_writer p" "p_reader (fst ps) = p_reader p"
    "p_measured (fst ps) = m\<lparr>m_reliability := reliability_of stats w r (m_reliability m)\<rparr>"
    "t_pairs (ts_topic (snd ps)) = t_pairs (ts_topic st)"
    by (simp_all add: ps_def latency_block_sel reliability_block_sel reliability_block_measured)
  have eq: "measure_pair eps stats j st =
      (snd ps)\<lparr>ts_topic := (ts_topic (snd ps))\<lparr>t_pairs := (t_pairs (ts_topic (snd ps)))
         [j := (fst ps)\<lparr>p_measured := m2, p_verdict := v\<rparr>]\<rparr>\<rparr>"
    unfolding measure_pair_def p_def [symmetric] w_def [symmetric] r_def [symmetric] Let_def
      m_def [symmetric]
    by (simp add: ps_def [symmetric] case_prod_beta m2_def v_def)
  have "m2 = measure_of stats w r (p_measured p)"
    by (simp add: m2_def ps measure_of_def Let_def m_def)
  then have "\<exists>p'. t_pairs (ts_topic (measure_pair eps stats j st)) = (t_pairs (ts_topic st))[j := p'] \<and>
      pair_view p' = measured_pair eps stats p"
    by (intro exI [where x = "(fst ps)\<lparr>p_measured := m2, p_verdict := v\<rparr>"])
      (simp add: eq ps measured_pair_def pair_view_def pair_writer_def pair_reader_def w_def r_def)
  moreover have "pair_lost eps stats p s \<longleftrightarrow> lost_matches stats w r s" for s
    by (simp add: pair_lost_def pair_writer_def pair_reader_def w_def r_def)
  then have "ts_seen (measure_pair eps stats j st) = ts_seen st \<union>
        fst ` set (filter (\<lambda>x. pair_lost eps stats p (snd x)) (enumerate 0 (lost stats))) \<and>
      t_lost_packets (ts_topic (measure_pair eps stats j st)) = t_lost_packets (ts_topic st) +
        (\<Sum>x \<leftarrow> filter (\<lambda>x. fst x \<notin> ts_seen st)
           (filter (\<lambda>x. pair_lost eps stats p (snd x)) (enumerate 0 (lost stats))). lost_packets_of (snd x))"
    using reliability_block_lost [of stats w r "(p\<lparr>p_measured := m\<rparr>, st)"]
    by (simp add: eq ps_def latency_block_sel Let_def)
  ultimately show ?thesis unfolding p_def [symmetric] Let_def by blast
qed

text \<open>Entries seen by any of the first pairs, each counted when first seen.\<close>

lemma sum_filter_split:
  "(\<Sum>x \<leftarrow> filter P xs. f x) + (\<Sum>x \<leftarrow> filter (\<lambda>x. \<not> P x) (filter Q xs). f x) =
   (\<Sum>x \<leftarrow> filter (\<lambda>x. P x \<or> Q x) xs. f x :: u64)"
  by (induction xs) (auto simp: add_ac)

lemma measure_fold:
  assumes "k \<le> length (t_pairs t)" "t_lost_packets t = 0"
  shows "let st = fold (measure_pair eps stats) [0..<k] \<lparr>ts_topic = t, ts_seen = {}\<rparr>;
      hit = (\<lambda>x. list_ex (\<lambda>p. pair_lost eps stats p (snd x)) (take k (t_pairs t))) in
    length (t_pairs (ts_topic st)) = length (t_pairs t) \<and>
    map pair_view (take k (t_pairs (ts_topic st))) = map (measured_pair eps stats) (take k (t_pairs t)) \<and>
    drop k (t_pairs (ts_topic st)) = drop k (t_pairs t) \<and>
    ts_seen st = fst ` set (filter hit (enumerate 0 (lost stats))) \<and>
    t_lost_packets (ts_topic st) = (\<Sum>x \<leftarrow> filter hit (enumerate 0 (lost stats)). lost_packets_of (snd x))"
  using assms(1)
proof (induction k)
  case 0
  then show ?case using assms(2) by simp
next
  case (Suc k)
  define st where "st = fold (measure_pair eps stats) [0..<k] \<lparr>ts_topic = t, ts_seen = {}\<rparr>"
  define hit where "hit = (\<lambda>x :: nat \<times> traffic_sample. list_ex (\<lambda>p. pair_lost eps stats p (snd x)) (take k (t_pairs t)))"
  define p where "p = t_pairs t ! k"
  have k: "k < length (t_pairs t)" using Suc.prems by simp
  note IH = Suc.IH [OF less_imp_le [OF k], folded st_def hit_def, unfolded Let_def]
  have d: "drop k (t_pairs (ts_topic st)) = drop k (t_pairs t)" using IH by blast
  then have pk: "t_pairs (ts_topic st) ! k = p"
    using k IH by (metis p_def hd_drop_conv_nth)
  obtain p' where p': "t_pairs (ts_topic (measure_pair eps stats k st)) = (t_pairs (ts_topic st))[k := p']"
    "pair_view p' = measured_pair eps stats p"
    using measure_pair_shape [of eps stats k st] unfolding pk Let_def by blast
  have seen: "ts_seen (measure_pair eps stats k st) = ts_seen st \<union>
        fst ` set (filter (\<lambda>x. pair_lost eps stats p (snd x)) (enumerate 0 (lost stats)))"
    "t_lost_packets (ts_topic (measure_pair eps stats k st)) = t_lost_packets (ts_topic st) +
        (\<Sum>x \<leftarrow> filter (\<lambda>x. fst x \<notin> ts_seen st)
           (filter (\<lambda>x. pair_lost eps stats p (snd x)) (enumerate 0 (lost stats))). lost_packets_of (snd x))"
    using measure_pair_shape [of eps stats k st] unfolding pk Let_def by blast+
  have hit': "list_ex (\<lambda>p. pair_lost eps stats p (snd x)) (take (Suc k) (t_pairs t)) \<longleftrightarrow>
      hit x \<or> pair_lost eps stats p (snd x)" for x
    using k by (simp add: hit_def take_Suc_conv_app_nth p_def)
  have notin: "fst x \<notin> ts_seen st \<longleftrightarrow> \<not> hit x" if "x \<in> set (enumerate 0 (lost stats))" for x
    using that IH by (auto simp: in_set_enumerate_eq hit_def)
  have "filter (\<lambda>x. fst x \<notin> ts_seen st) (filter (\<lambda>x. pair_lost eps stats p (snd x)) (enumerate 0 (lost stats)))
      = filter (\<lambda>x. \<not> hit x) (filter (\<lambda>x. pair_lost eps stats p (snd x)) (enumerate 0 (lost stats)))"
    using notin by (intro filter_cong) simp_all
  moreover have "t_lost_packets (ts_topic st) = (\<Sum>x \<leftarrow> filter hit (enumerate 0 (lost stats)). lost_packets_of (snd x))"
    using IH by blast
  ultimately have lost: "t_lost_packets (ts_topic (measure_pair eps stats k st)) =
      (\<Sum>x \<leftarrow> filter (\<lambda>x. hit x \<or> pair_lost eps stats p (snd x)) (enumerate 0 (lost stats)). lost_packets_of (snd x))"
    unfolding seen(2) by (simp only: sum_filter_split)
  have fold: "fold (measure_pair eps stats) [0..<Suc k] \<lparr>ts_topic = t, ts_seen = {}\<rparr> = measure_pair eps stats k st"
    by (simp add: st_def)
  have pairs: "map pair_view (take (Suc k) ((t_pairs (ts_topic st))[k := p'])) =
      map (measured_pair eps stats) (take (Suc k) (t_pairs t))"
    using IH k p'(2) by (simp add: take_Suc_conv_app_nth p_def)
  have dr: "drop (Suc k) ((t_pairs (ts_topic st))[k := p']) = drop (Suc k) (t_pairs t)"
  proof -
    have "drop (Suc k) xs = tl (drop k xs)" for xs :: "pair list" by (simp add: drop_Suc tl_drop)
    then have "drop (Suc k) (t_pairs (ts_topic st)) = drop (Suc k) (t_pairs t)" by (simp only: d)
    then show ?thesis by simp
  qed
  show ?case
    unfolding fold Let_def hit' p'(1) lost seen(1)
    using IH pairs dr by auto
qed

lemma measure_topic_fold:
  "map pair_view (t_pairs (measure_topic eps stats t)) = map (measured_pair eps stats) (t_pairs t) \<and>
   t_lost_packets (measure_topic eps stats t) =
     (\<Sum>x \<leftarrow> filter (\<lambda>x. list_ex (\<lambda>p. pair_lost eps stats p (snd x)) (t_pairs t)) (enumerate 0 (lost stats)).
        lost_packets_of (snd x))"
proof -
  define st where "st = fold (measure_pair eps stats) [0..<length (t_pairs t)] \<lparr>ts_topic = reset_topic t, ts_seen = {}\<rparr>"
  have t: "t_pairs (reset_topic t) = t_pairs t" "t_lost_packets (reset_topic t) = 0"
    by (simp_all add: reset_topic_def)
  have m: "measure_topic eps stats t = ts_topic st" by (simp add: measure_topic_def st_def)
  note f = measure_fold [of "length (t_pairs t)" "reset_topic t" eps stats, unfolded t, folded st_def, unfolded Let_def]
  have "length (t_pairs (ts_topic st)) = length (t_pairs t)" using f by simp
  then have tk: "take (length (t_pairs t)) (t_pairs (ts_topic st)) = t_pairs (ts_topic st)" by simp
  show ?thesis using f unfolding m tk by simp
qed

text \<open>
  C11. Which pairs a topic has and what is measured for each depends on the statistics and the
  endpoints of the pair alone: the loop over the pairs measures every pair independently of the
  others, of the order and of the verdicts.
\<close>

theorem measure_topic_pointwise:
  "map pair_view (t_pairs (measure_topic eps stats t)) = map (measured_pair eps stats) (t_pairs t)"
  using measure_topic_fold by blast

text \<open>
  C13. The lost packets of a topic: every RTPS_LOST entry that concerns some pair of the topic
  counts exactly once, however many pairs share it.
\<close>

theorem topic_lost_counted_once:
  "t_lost_packets (measure_topic eps stats t) =
   sum_list (map lost_packets_of
     (filter (\<lambda>s. list_ex (\<lambda>p. pair_lost eps stats p s) (t_pairs t)) (lost stats)))"
proof -
  have "map (\<lambda>x. lost_packets_of (snd x)) (filter (\<lambda>x. P (snd x)) (enumerate 0 xs))
      = map lost_packets_of (filter P xs)" for P and xs
    unfolding filter_snd_enumerate [of P 0 xs, symmetric] by simp
  from this [of "\<lambda>s. list_ex (\<lambda>p. pair_lost eps stats p s) (t_pairs t)"] show ?thesis
    using measure_topic_fold [of eps stats t] by simp
qed

subsection \<open>Accounting\<close>

text \<open>A measurement whose totals are those of its locators.\<close>

definition measured_ok :: "endpoint \<Rightarrow> string set \<Rightarrow> measurement \<Rightarrow> bool" where
  "measured_ok r loc m \<longleftrightarrow>
     m_packets m = sum_list (map ml_packets (m_locators m)) \<and>
     m_bytes m = fold (\<lambda>l b. d_add b (ml_bytes l)) (m_locators m) (Fin 0) \<and>
     distinct (m_transports m) \<and>
     set (m_transports m) = (\<lambda>l. transport_for_kind (loc_kind (ml_locator l))) ` set (m_locators m) \<and>
     list_all (\<lambda>l. reader_has_locator r (ml_locator l) loc) (m_locators m)"

lemma traffic_step_ok:
  "measured_ok r (local_addresses stats) m \<Longrightarrow> measured_ok r (local_addresses stats) (traffic_step stats w r s m)"
  by (auto simp: measured_ok_def traffic_step_def Let_def)

lemma fold_inv: "P a \<Longrightarrow> (\<And>x a. P a \<Longrightarrow> P (f x a)) \<Longrightarrow> P (fold f xs a)"
  by (induction xs arbitrary: a) auto

lemma measure_traffic_ok:
  "measured_ok r (local_addresses stats) m \<Longrightarrow>
   measured_ok r (local_addresses stats) (measure_traffic stats w r m)"
  unfolding measure_traffic_def
  by (rule fold_inv [where P = "measured_ok r (local_addresses stats)"]) (auto intro: traffic_step_ok)

lemma measure_of_ok:
  assumes "measured_ok r (local_addresses stats) m"
  shows "measured_ok r (local_addresses stats) (measure_of stats w r m)"
proof -
  have d: "measured_ok r loc (data_count_step stats g m) = measured_ok r loc m" for g m loc
    by (simp add: measured_ok_def data_count_step_def split: option.split)
  have f: "measured_ok r loc (fold (data_count_step stats) gs m) = measured_ok r loc m" for gs m loc
    by (induction gs arbitrary: m) (simp_all add: d)
  have s: "measured_ok r loc (m\<lparr>m_data_count_available := b\<rparr>) = measured_ok r loc m"
    "measured_ok r loc (m\<lparr>m_reliability := x\<rparr>) = measured_ok r loc m"
    "measured_ok r loc (m\<lparr>m_available := b\<rparr>) = measured_ok r loc m" for m loc b x
    by (simp_all add: measured_ok_def)
  have dc: "measured_ok r loc (measure_data_count stats w m) = measured_ok r loc m" for m loc
    by (simp add: measure_data_count_def Let_def f s)
  have de: "measured_ok r loc (measure_delivery stats w r m) = measured_ok r loc m"
    "measured_ok r loc (measure_rate stats w r m) = measured_ok r loc m" for m loc
    by (simp_all add: measured_ok_def measure_delivery_def measure_rate_def Let_def)
  show ?thesis
    unfolding measure_of_def Let_def
    by (rule measure_traffic_ok) (simp add: dc s de assms)
qed

text \<open>
  The totals of a pair are those of its locators: after the measurement of a topic whose
  measurements were empty, the packets and the bytes of every pair are the sums over its
  locators, its transports are the distinct kinds of these, and each of them is a locator the
  reader announces.
\<close>

theorem measured_totals:
  assumes "list_all (\<lambda>p. p_measured p = measurement0) (t_pairs t)"
  shows "list_all (\<lambda>p. measured_ok (eps ! p_reader p) (local_addresses stats) (p_measured p))
    (t_pairs (measure_topic eps stats t))"
proof -
  define ok where "ok = (\<lambda>x :: ep_ref \<times> ep_ref \<times> measurement.
    measured_ok (eps ! fst (snd x)) (local_addresses stats) (snd (snd x)))"
  have "measured_ok r loc measurement0" for r loc
    by (simp add: measured_ok_def measurement0_def)
  then have "list_all ok (map (measured_pair eps stats) (t_pairs t))"
    using assms by (auto simp: list_all_iff ok_def measured_pair_def pair_reader_def intro: measure_of_ok)
  then have "list_all ok (map pair_view (t_pairs (measure_topic eps stats t)))"
    using measure_topic_fold by metis
  then show ?thesis by (simp add: list_all_iff ok_def pair_view_def)
qed

theorem measured_totals_witness:
  "list_all (\<lambda>p. measured_ok ([endpoint0, endpoint0] ! p_reader p) {} (p_measured p))
    (t_pairs (measure_topic [endpoint0, endpoint0] stats_data0
      (topic_summary0\<lparr>t_pairs := [\<lparr>p_writer = 0, p_reader = 1, p_verdict = verdict0, p_measured = measurement0\<rparr>]\<rparr>)))"
  using measured_totals [of "topic_summary0\<lparr>t_pairs := [\<lparr>p_writer = 0, p_reader = 1, p_verdict = verdict0,
    p_measured = measurement0\<rparr>]\<rparr>" "[endpoint0, endpoint0]" stats_data0]
  by (simp add: stats_data0_def)

end
