(* ===== verification/Judge_Props.thy ===== *)
theory Judge_Props
  imports Measure Decide_Props
begin

text \<open>
  Properties of the judgement of a verdict against its measurement, and the dependence of a
  data-sharing writer's pairs on their order.
\<close>

lemma code_sel:
  "v_transport (reason c v) = v_transport v" "v_confidence (reason c v) = v_confidence v"
  "v_locator (reason c v) = v_locator v" "v_locator_multicast (reason c v) = v_locator_multicast v"
  "v_warnings (reason c v) = v_warnings v" "v_reasons (reason c v) = v_reasons v @ [c]"
  "v_transport (reasons cs v) = v_transport v" "v_confidence (reasons cs v) = v_confidence v"
  "v_locator (reasons cs v) = v_locator v" "v_locator_multicast (reasons cs v) = v_locator_multicast v"
  "v_warnings (reasons cs v) = v_warnings v" "v_reasons (reasons cs v) = v_reasons v @ cs"
  "v_transport (warning c v) = v_transport v" "v_confidence (warning c v) = v_confidence v"
  "v_locator (warning c v) = v_locator v" "v_locator_multicast (warning c v) = v_locator_multicast v"
  "v_warnings (warning c v) = v_warnings v @ [c]" "v_reasons (warning c v) = v_reasons v"
  "v_transport (ds_code c v) = v_transport v" "v_confidence (ds_code c v) = v_confidence v"
  "v_locator (ds_code c v) = v_locator v" "v_locator_multicast (ds_code c v) = v_locator_multicast v"
  "v_warnings (ds_code c v) = v_warnings v"
  by (simp_all add: reason_def reasons_def warning_def ds_code_def)

text \<open>What a judgement leaves as it is.\<close>

definition judged_from :: "verdict \<Rightarrow> verdict \<Rightarrow> bool" where
  "judged_from v v' \<longleftrightarrow> v_locator v' = v_locator v \<and>
     v_locator_multicast v' = v_locator_multicast v \<and>
     take (length (v_warnings v)) (v_warnings v') = v_warnings v"

lemma judged_from_unmatched: "judged_from v (judge_unmatched m v)"
  by (simp add: judge_unmatched_def judged_from_def code_sel)

lemma judged_from_split: "judged_from v (judge_split m v)"
  by (simp add: judge_split_def judged_from_def code_sel Let_def)

lemma judged_from_datasharing: "judged_from v (judge_datasharing ds m v)"
  by (simp add: judge_datasharing_def judged_from_def code_sel)

lemma judged_from_transport: "judged_from v (judge_transport stats n m v)"
  by (simp add: judge_transport_def judged_from_def code_sel Let_def)

lemma judged_from_reasons: "judged_from (v\<lparr>v_reasons := rs\<rparr>) v' = judged_from v v'"
  by (simp add: judged_from_def)

text \<open>
  C25. A judgement never touches the predicted locator, never withdraws a warning, and changes the
  transport only for a data-sharing pair proven delivered although its writer sent data
  submessages and all its readers use data-sharing: then it is the first measured transport, or
  SHM when none was measured.
\<close>

theorem judge_keeps:
  "judged_from v (judge stats n ds m v) \<and>
   (v_transport (judge stats n ds m v) = v_transport v \<or>
    (v_transport v = DataSharing \<and> m_available m \<and> m_delivered m \<and> m_data_submessages m \<noteq> 0 \<and> ds \<and>
     v_transport (judge stats n ds m v) =
       (if m_transports m = [] then SHM else hd (m_transports m))))"
proof -
  let ?v = "v\<lparr>v_reasons := filter (\<lambda>c. c \<noteq> ''intra-process'') (v_reasons v)\<rparr>"
  have t: "v_transport (judge_unmatched m v) = v_transport v" "v_transport (judge_split m v) = v_transport v"
    "v_transport (judge_transport stats n m ?v) = v_transport v"
    by (simp_all add: judge_unmatched_def judge_split_def judge_transport_def code_sel Let_def)
  have d: "v_transport (judge_datasharing ds m ?v) = v_transport v \<or>
      (m_delivered m \<and> m_data_submessages m \<noteq> 0 \<and> ds \<and>
       v_transport (judge_datasharing ds m ?v) = (if m_transports m = [] then SHM else hd (m_transports m)))"
    by (simp add: judge_datasharing_def code_sel)
  have "judged_from v (judge_datasharing ds m ?v)" "judged_from v (judge_transport stats n m ?v)"
    using judged_from_datasharing [of ?v] judged_from_transport [of ?v] by (simp_all add: judged_from_reasons)
  moreover have "judged_from v v" "judged_from v (warning c v)" for c
    by (simp_all add: judged_from_def code_sel)
  ultimately show ?thesis
    using t d judged_from_unmatched [of v m] judged_from_split [of v m]
    unfolding judge_def Let_def by (auto simp: code_sel)
qed

text \<open>
  A likely verdict becomes certain only on evidence from the writer's own statistics: the
  predicted transport carried packets to the reader, or it is data-sharing (as predicted, or
  refuted by data submessages over a measured transport) and the delivery is proven.
\<close>

theorem judge_certain_needs_evidence:
  assumes "v_confidence v = Likely" "v_confidence (judge stats n ds m v) = Certain"
  shows "m_available m \<and> \<not> unmatched_pair v \<and>
    (if v_transport v = DataSharing
     then m_delivered m \<and> (m_transports m = [] \<or> m_data_count_available m)
     else v_transport v \<in> set (m_transports m))"
proof -
  let ?v = "v\<lparr>v_reasons := filter (\<lambda>c. c \<noteq> ''intra-process'') (v_reasons v)\<rparr>"
  have u: "v_confidence (judge_unmatched m v) = Likely" "v_confidence (judge_split m v) = Likely"
    using assms(1) by (simp_all add: judge_unmatched_def judge_split_def code_sel Let_def)
  have d: "m_delivered m \<and> (m_transports m = [] \<or> m_data_count_available m)"
    if "v_confidence (judge_datasharing ds m ?v) = Certain"
    using that assms(1) by (auto simp: judge_datasharing_def code_sel split: if_splits)
  have t: "v_transport v \<in> set (m_transports m)" if "v_confidence (judge_transport stats n m ?v) = Certain"
    using that assms(1) by (auto simp: judge_transport_def code_sel Let_def split: if_splits)
  show ?thesis
    using assms u d t unfolding judge_def Let_def by (auto simp: code_sel split: if_splits)
qed

text \<open>A measured pair: one packet over UDP to the reader's locator.\<close>

definition udp_measured :: measurement where
  "udp_measured = measurement0\<lparr>m_available := True, m_transports := [UDPv4],
     m_locators := [\<lparr>ml_locator = udp ''10.0.0.2'' 7413, ml_packets = 1, ml_bytes = Fin 64\<rparr>],
     m_packets := 1\<rparr>"

theorem judge_certain_needs_evidence_witness:
  "UDPv4 \<in> set (m_transports udp_measured)"
proof -
  let ?v = "verdict0\<lparr>v_transport := UDPv4, v_confidence := Likely\<rparr>"
  have "v_confidence (judge stats_data0 1 True udp_measured ?v) = Certain"
    by (simp add: judge_def unmatched_pair_def judge_transport_def verdict0_def udp_measured_def
        measurement0_def locator0_def code_sel Let_def)
  from judge_certain_needs_evidence [OF _ this] show ?thesis by simp
qed

subsection \<open>The order of the pairs of a data-sharing writer\<close>

definition ds_verdict :: verdict where
  "ds_verdict = verdict0\<lparr>v_transport := DataSharing, v_confidence := Likely,
     v_reasons := [''datasharing-unverified-by-traffic'']\<rparr>"

definition ds_pair :: "ep_ref \<Rightarrow> pair" where
  "ds_pair r = \<lparr>p_writer = 0, p_reader = r, p_verdict = ds_verdict, p_measured = measurement0\<rparr>"

definition ds_reader :: "string \<Rightarrow> endpoint" where
  "ds_reader g = endpoint0\<lparr>guid := g, participant_guid_prefix := ''Q'', unicast := [shm_loc 7411]\<rparr>"

definition ds_eps :: "endpoint list" where
  "ds_eps = [endpoint0\<lparr>is_writer := True, guid := ''w'', participant_guid_prefix := ''P''\<rparr>,
     ds_reader ''a'', ds_reader ''b'']"

definition ds_stats :: stats_data where
  "ds_stats = stats_data0\<lparr>enabled := True, participants_with_stats := {''P''},
     delivered := [((''w'', ''a''), 1), ((''w'', ''b''), 1)],
     data_count := [(''w'', \<lparr>dc_first = 0, dc_last = 5, dc_samples = 2\<rparr>)],
     traffic := [traffic_sample0\<lparr>src_participant_prefix := ''P'', ts_dst := shm_loc 7411, ts_packets := 5\<rparr>]\<rparr>"

text \<open>
  Two readers of one data-sharing writer with the same evidence get different verdicts: the
  first pair is corrected to the measured transport, and the second one then takes the first for
  a pair that never used data-sharing and stays data-sharing, ambiguous.
\<close>

theorem datasharing_judgement_order:
  "map (\<lambda>p. (v_transport (p_verdict p), v_reasons (p_verdict p), v_warnings (p_verdict p)))
     (t_pairs (measure_topic ds_eps ds_stats (topic_summary0\<lparr>t_pairs := [ds_pair 1, ds_pair 2]\<rparr>))) =
   [(SHM, [''datasharing-data-submessages-sent'', ''measured-shm-traffic''], [''datasharing-not-used'']),
    (DataSharing, [''datasharing-ambiguous-mixed-readers''], [])]"
  by code_simp

end
