(* ===== verification/Stats_Rules.thy ===== *)
theory Stats_Rules
  imports Measure
begin

text \<open>
  The rules of a statistics run (\<open>src/decision.cpp\<close>): when a one-shot has seen enough, when a
  lost sample belongs to a late join, which pairs count as proven but unmeasured, and the
  warnings these numbers raise.
\<close>

definition kStatsSettleMinSeconds :: double where
  "kStatsSettleMinSeconds = Fin 5"

definition kStatisticsLateJoinGraceSeconds :: double where
  "kStatisticsLateJoinGraceSeconds = Fin 5"

definition stats_settled ::
  "bool \<Rightarrow> double \<Rightarrow> u64 \<Rightarrow> u64 \<Rightarrow> u64 \<Rightarrow> u64 \<Rightarrow> double \<Rightarrow> double \<Rightarrow> bool" where
  "stats_settled discovery_quiet elapsed_seconds announced heard measurable measured
     measured_quiet_seconds quiet_window_seconds \<longleftrightarrow>
     discovery_quiet \<and> d_le kStatsSettleMinSeconds elapsed_seconds \<and> announced \<le> heard \<and>
     (announced = 0 \<or> measurable = 0 \<or> 0 < measured) \<and>
     d_le quiet_window_seconds measured_quiet_seconds"

definition watch_ready :: "bool \<Rightarrow> double \<Rightarrow> bool \<Rightarrow> bool" where
  "watch_ready discovery_quiet elapsed_seconds stats \<longleftrightarrow>
     discovery_quiet \<and> (\<not> stats \<or> d_le kStatsSettleMinSeconds elapsed_seconds)"

definition statistics_late_join_window_open :: "bool \<Rightarrow> double \<Rightarrow> bool" where
  "statistics_late_join_window_open any_writer_matched seconds_since_last_writer_match \<longleftrightarrow>
     \<not> any_writer_matched \<or> d_lt seconds_since_last_writer_match kStatisticsLateJoinGraceSeconds"

definition statistics_counter_samples_lost :: "stats_data \<Rightarrow> u64" where
  "statistics_counter_samples_lost stats =
     (if samples_lost_latency stats < samples_lost stats
      then samples_lost stats - samples_lost_latency stats else 0)"

definition statistics_samples_were_lost :: "stats_data \<Rightarrow> bool" where
  "statistics_samples_were_lost stats \<longleftrightarrow>
     0 < statistics_counter_samples_lost stats + samples_rejected stats \<and>
     pairs_delivered_absent stats < pairs_delivered_unmeasured stats"

definition dec_u64 :: "u64 \<Rightarrow> string" where
  "dec_u64 n = dec (unat n)"

definition statistics_loss_warning :: "stats_data \<Rightarrow> string" where
  "statistics_loss_warning stats =
     (if \<not> statistics_samples_were_lost stats then []
      else
        (let any_lost = statistics_counter_samples_lost stats + samples_rejected stats
         in ''warning: '' @ dec_u64 any_lost @ '' of '' @ dec_u64 (any_lost + samples stats) @
            '' statistics samples were lost (the tool could not keep up) and '' @
            dec_u64 (pairs_delivered_unmeasured stats - pairs_delivered_absent stats) @ '' of '' @
            dec_u64 (pairs_delivered stats) @
            '' pairs with proven deliveries show no measured packet - enable statistics on fewer nodes, or keep FASTDDS_STATISTICS to the aliases you need (e.g. RTPS_SENT_TOPIC;RTPS_LOST_TOPIC)''))"

definition rtps_sent_absent_warning :: "stats_data \<Rightarrow> string" where
  "rtps_sent_absent_warning stats =
     (if pairs_delivered_absent stats = 0 then []
      else ''warning: '' @ dec_u64 (pairs_delivered_absent stats) @ '' of '' @
        dec_u64 (pairs_delivered stats) @
        '' pairs with proven deliveries show no measured packet and no lost statistics sample explains it (RTPS_SENT did not arrive) - the statistics writers default to pull mode on every Fast DDS version, so their samples wait for the next heartbeat; start the observed nodes with the shipped config/statistics.xml (FASTDDS_DEFAULT_PROFILES_FILE or FASTRTPS_DEFAULT_PROFILES_FILE)'')"

text \<open>The pairs \<open>note_unmeasured_pairs\<close> counts: delivered, and expected to leave a packet.\<close>

definition counted_pair :: "pair \<Rightarrow> bool" where
  "counted_pair p \<longleftrightarrow>
     (let m = p_measured p; v = p_verdict p
      in \<not> (\<not> m_available m \<or> \<not> m_delivered m \<or> v_transport v = DataSharing \<or>
             has_code (v_reasons v) ''intra-process'' \<or> has_code (v_warnings v) ''qos-incompatible'' \<or>
             has_code (v_warnings v) ''shm-ipc-namespace-split'' \<or>
             has_code (v_warnings v) ''stats-writer-instance-limit-suspected''))"

definition note_pair :: "bool \<Rightarrow> pair \<Rightarrow> stats_data \<Rightarrow> stats_data" where
  "note_pair any_lost p stats =
     (if \<not> counted_pair p then stats
      else
        (let stats = stats\<lparr>pairs_delivered := pairs_delivered stats + 1\<rparr>; m = p_measured p
         in if m_packets m = 0 then
              (let stats = stats\<lparr>pairs_delivered_unmeasured := pairs_delivered_unmeasured stats + 1\<rparr>
               in if \<not> any_lost \<or> m_packets_total m = 0
                  then stats\<lparr>pairs_delivered_absent := pairs_delivered_absent stats + 1\<rparr>
                  else stats)
            else stats))"

definition set_code :: "string \<Rightarrow> bool \<Rightarrow> string list \<Rightarrow> string list" where
  "set_code c on codes = filter (\<lambda>d. d \<noteq> c) codes @ (if on then [c] else [])"

definition note_unmeasured_pairs :: "topic_summary list \<Rightarrow> stats_data \<Rightarrow> stats_data" where
  "note_unmeasured_pairs topics stats =
     (let stats = stats\<lparr>pairs_delivered := 0, pairs_delivered_unmeasured := 0,
                        pairs_delivered_absent := 0\<rparr>;
          any_lost = (0 < statistics_counter_samples_lost stats + samples_rejected stats);
          stats = fold (\<lambda>t. fold (note_pair any_lost) (t_pairs t)) topics stats;
          stats = stats\<lparr>stats_warnings := set_code ''stats-samples-lost''
                    (statistics_samples_were_lost stats) (stats_warnings stats)\<rparr>
      in stats\<lparr>stats_warnings := set_code ''rtps-sent-absent''
                 (0 < pairs_delivered_absent stats) (stats_warnings stats)\<rparr>)"

subsection \<open>What the numbers count\<close>

definition unmeasured_pair :: "pair \<Rightarrow> bool" where
  "unmeasured_pair p \<longleftrightarrow> counted_pair p \<and> m_packets (p_measured p) = 0"

definition absent_pair :: "bool \<Rightarrow> pair \<Rightarrow> bool" where
  "absent_pair any_lost p \<longleftrightarrow> unmeasured_pair p \<and> (\<not> any_lost \<or> m_packets_total (p_measured p) = 0)"

definition count_of :: "(pair \<Rightarrow> bool) \<Rightarrow> pair list \<Rightarrow> nat" where
  "count_of P ps = length (filter P ps)"

definition noted :: "bool \<Rightarrow> pair list \<Rightarrow> stats_data \<Rightarrow> stats_data" where
  "noted any_lost ps stats = stats\<lparr>
     pairs_delivered := pairs_delivered stats + of_nat (count_of counted_pair ps),
     pairs_delivered_unmeasured := pairs_delivered_unmeasured stats + of_nat (count_of unmeasured_pair ps),
     pairs_delivered_absent := pairs_delivered_absent stats + of_nat (count_of (absent_pair any_lost) ps)\<rparr>"

lemma fold_note_pair: "fold (note_pair any_lost) ps stats = noted any_lost ps stats"
proof (induction ps arbitrary: stats)
  case Nil
  then show ?case by (simp add: noted_def count_of_def)
next
  case (Cons p ps)
  then show ?case
    by (simp add: noted_def count_of_def note_pair_def unmeasured_pair_def absent_pair_def Let_def add_ac)
qed

lemma fold_note_topics:
  "fold (\<lambda>t. fold (note_pair any_lost) (t_pairs t)) topics stats = noted any_lost (concat (map t_pairs topics)) stats"
proof -
  have "fold (\<lambda>t. fold (note_pair any_lost) (t_pairs t)) topics stats = fold (note_pair any_lost) (concat (map t_pairs topics)) stats"
    by (induction topics arbitrary: stats) simp_all
  then show ?thesis by (simp add: fold_note_pair)
qed

lemma count_of_mono: "(\<And>p. P p \<Longrightarrow> Q p) \<Longrightarrow> count_of P ps \<le> count_of Q ps"
  by (induction ps) (auto simp: count_of_def)

definition lost_some :: "stats_data \<Rightarrow> bool" where
  "lost_some stats \<longleftrightarrow> 0 < statistics_counter_samples_lost stats + samples_rejected stats"

lemma note_unmeasured_pairs_eq:
  "note_unmeasured_pairs topics stats =
   (let ps = concat (map t_pairs topics); d = of_nat (count_of counted_pair ps);
        u = of_nat (count_of unmeasured_pair ps); a = of_nat (count_of (absent_pair (lost_some stats)) ps)
    in stats\<lparr>pairs_delivered := d, pairs_delivered_unmeasured := u, pairs_delivered_absent := a,
       stats_warnings := set_code ''rtps-sent-absent'' (0 < a)
         (set_code ''stats-samples-lost'' (lost_some stats \<and> a < u) (stats_warnings stats))\<rparr>)"
  by (simp add: note_unmeasured_pairs_def fold_note_topics noted_def lost_some_def Let_def
      statistics_counter_samples_lost_def statistics_samples_were_lost_def)

text \<open>
  The counts of a run: with fewer than \<open>2 ^ 64\<close> pairs the absent pairs are among the
  unmeasured ones and these among the delivered ones, each number is the count of its pairs, so
  the subtraction in the loss warning never wraps.
\<close>

theorem note_unmeasured_counts:
  assumes "length (concat (map t_pairs topics)) < 2 ^ 64"
  shows "let s = note_unmeasured_pairs topics stats; ps = concat (map t_pairs topics) in
    unat (pairs_delivered s) = count_of counted_pair ps \<and>
    unat (pairs_delivered_unmeasured s) = count_of unmeasured_pair ps \<and>
    unat (pairs_delivered_absent s) = count_of (absent_pair (lost_some stats)) ps \<and>
    pairs_delivered_absent s \<le> pairs_delivered_unmeasured s \<and>
    pairs_delivered_unmeasured s \<le> pairs_delivered s"
proof -
  let ?ps = "concat (map t_pairs topics)"
  have le: "count_of (absent_pair (lost_some stats)) ?ps \<le> count_of unmeasured_pair ?ps"
    "count_of unmeasured_pair ?ps \<le> count_of counted_pair ?ps"
    by (rule count_of_mono; simp add: absent_pair_def unmeasured_pair_def)+
  have "count_of P ?ps \<le> length ?ps" for P by (simp add: count_of_def)
  then have lt: "count_of P ?ps < 2 ^ LENGTH(64)" for P
    using order_le_less_trans [OF _ assms] by simp
  have u: "unat (of_nat (count_of P ?ps) :: u64) = count_of P ?ps" for P
    using lt [of P] by (simp add: unat_of_nat take_bit_nat_eq_self)
  show ?thesis
    using le u by (simp add: note_unmeasured_pairs_eq Let_def word_le_nat_alt)
qed

definition starved_topic :: topic_summary where
  "starved_topic = topic_summary0\<lparr>t_pairs := [\<lparr>p_writer = 0, p_reader = 1, p_verdict = verdict0,
     p_measured = measurement0\<lparr>m_available := True, m_delivered := True\<rparr>\<rparr>]\<rparr>"

theorem note_unmeasured_counts_witness:
  "unat (pairs_delivered_absent (note_unmeasured_pairs [starved_topic] stats_data0)) = 1"
proof -
  have "length (concat (map t_pairs [starved_topic])) < 2 ^ 64"
    "count_of (absent_pair (lost_some stats_data0)) (concat (map t_pairs [starved_topic])) = 1"
    by (simp_all add: starved_topic_def topic_summary0_def count_of_def absent_pair_def
        unmeasured_pair_def counted_pair_def has_code_def verdict0_def measurement0_def lost_some_def
        statistics_counter_samples_lost_def stats_data0_def)
  with note_unmeasured_counts [of "[starved_topic]" stats_data0] show ?thesis
    unfolding Let_def by simp
qed

text \<open>
  The counting replaces what an earlier frame left: doing it twice is doing it once, the
  warnings included.
\<close>

theorem note_unmeasured_idem:
  "note_unmeasured_pairs topics (note_unmeasured_pairs topics stats) = note_unmeasured_pairs topics stats"
proof -
  have l: "lost_some (stats\<lparr>pairs_delivered := d, pairs_delivered_unmeasured := u,
      pairs_delivered_absent := a, stats_warnings := w\<rparr>) = lost_some stats" for d u a w
    by (simp add: lost_some_def statistics_counter_samples_lost_def)
  have "set_code c x (set_code d y (set_code c x (set_code d y codes))) = set_code c x (set_code d y codes)"
    if "c \<noteq> d" for c d :: string and x y codes
    using that by (auto simp: set_code_def intro!: filter_cong)
  then show ?thesis
    by (simp add: note_unmeasured_pairs_eq l Let_def)
qed

text \<open>
  The counter losses never underflow: they are the losses without the best-effort latency
  part, or nothing when an edited document claims more of these than there are losses.
\<close>

theorem counter_losses_bounded:
  "unat (statistics_counter_samples_lost stats) =
     unat (samples_lost stats) - unat (samples_lost_latency stats) \<and>
   statistics_counter_samples_lost stats \<le> samples_lost stats"
  by (auto simp: statistics_counter_samples_lost_def unat_sub word_less_nat_alt word_le_nat_alt
      not_less less_imp_le)

end
