(* ===== verification/Discovery.thy ===== *)
theory Discovery
  imports Measure Ros_Names
begin

text \<open>
  What the observation knows about discovery (\<open>src/decision.cpp\<close>): whether every announced
  endpoint was seen, which Discovery Server serves whom, how many pairs could ever show a
  packet, and where the packets of a pair arrive. Counters of elements in memory (\<open>size_t\<close>) are
  natural numbers.
\<close>

subsection \<open>Completeness\<close>

definition missing_gids :: "endpoint_gid set \<Rightarrow> endpoint_gid list \<Rightarrow> nat" where
  "missing_gids seen gids = length (filter (\<lambda>g. g \<notin> seen) gids)"

definition complete_step :: "participant_prefix set \<Rightarrow> endpoint_gid set \<Rightarrow>
    participant_prefix \<times> endpoint_gid list \<Rightarrow> nat \<times> discovery_status \<Rightarrow> nat \<times> discovery_status" where
  "complete_step live seen row st =
     (if fst row \<notin> live then st
      else
        (let missing = missing_gids seen (snd row); out = snd st
         in (Suc (fst st),
             if 0 < missing then
               out\<lparr>announced_not_discovered := announced_not_discovered out + missing,
                   announced_by_incomplete := announced_by_incomplete out + length (snd row),
                   participants_incomplete := participants_incomplete out + 1\<rparr>
             else out)))"

definition discovery_completeness ::
  "(participant_prefix, endpoint_gid list) omap \<Rightarrow> participant_prefix set \<Rightarrow> endpoint list \<Rightarrow>
   discovery_status" where
  "discovery_completeness announced live discovered =
     (let out = discovery_status0\<lparr>ds_endpoints := length discovered\<rparr>;
          seen = guid_bytes ` set discovered;
          (compared, out) = fold (complete_step live seen) announced (0, out)
      in if compared = 0 then out
         else out\<lparr>ds_complete := Some (announced_not_discovered out = 0)\<rparr>)"

text \<open>
  The lambda \<open>longer\<close>: twice the current value, rounded up, at least \<open>least\<close>. \<open>None\<close> where the
  conversion to \<open>int64_t\<close> is undefined.
\<close>

definition longer :: "double \<Rightarrow> int \<Rightarrow> string option" where
  "longer current least =
     (case d_mul current (Fin 2) of
        Fin x \<Rightarrow> (if - (2 ^ 63) \<le> \<lceil>x\<rceil> \<and> \<lceil>x\<rceil> < 2 ^ 63 then Some (dec (nat (max least \<lceil>x\<rceil>))) else None)
      | _ \<Rightarrow> None)"

definition incomplete_discovery_warning ::
  "discovery_status \<Rightarrow> double \<Rightarrow> double \<Rightarrow> bool \<Rightarrow> string option" where
  "incomplete_discovery_warning status quiet timeout stats =
     (if ds_complete status = None \<or> ds_complete status = Some True then Some []
      else
        (let head = ''warning: discovery was still in progress ('' @
               dec (announced_not_discovered status) @ '' of '' @
               dec (announced_by_incomplete status) @ '' endpoints announced by '' @
               dec (participants_incomplete status) @
               (if participants_incomplete status = 1 then '' participant'' else '' participants'') @
               '' were not seen); '';
             advice = (if stats \<or> d_lt (Fin 0) quiet then
                 (case (longer quiet 3, longer timeout (if stats then 60 else 10)) of
                    (Some q, Some t) \<Rightarrow> Some (''pass --quiet '' @ q @ '' or --timeout '' @ t)
                  | _ \<Rightarrow> None)
               else map_option (\<lambda>t. ''pass --timeout '' @ t) (longer timeout 10))
         in map_option (\<lambda>a. head @ a @ '' for a complete view'') advice))"

subsection \<open>Discovery servers\<close>

definition is_server :: "participant \<Rightarrow> bool" where
  "is_server p \<longleftrightarrow> pt_discovery_protocol p = ''SERVER'' \<or> pt_discovery_protocol p = ''BACKUP''"

definition is_client :: "participant \<Rightarrow> bool" where
  "is_client p \<longleftrightarrow> \<not> pt_own p \<and>
     (pt_discovery_protocol p = ''CLIENT'' \<or> pt_discovery_protocol p = ''SUPER_CLIENT'')"

definition own_server :: "participant list \<Rightarrow> participant \<Rightarrow> participant list" where
  "own_server servers p =
     filter (\<lambda>s. pt_host_id s = pt_host_id p \<and> pt_name s = ''DiscoveryServerAuto'') servers"

definition server_for :: "bool \<Rightarrow> participant list \<Rightarrow> participant \<Rightarrow> string option" where
  "server_for easy_mode servers p =
     (if \<not> is_client p then None
      else if easy_mode then
        (let candidates = own_server servers p
         in if length candidates = 1 then Some (pt_guid_prefix (last candidates)) else None)
      else if length servers = 1 then Some (pt_guid_prefix (servers ! 0)) else None)"

definition attribute_discovery_servers :: "bool \<Rightarrow> participant list \<Rightarrow> participant list" where
  "attribute_discovery_servers easy_mode participants =
     (let servers = filter is_server participants
      in map (\<lambda>p. p\<lparr>pt_discovery_server := server_for easy_mode servers p\<rparr>) participants)"

subsection \<open>Pairs that could show a packet\<close>

record topic_counts =
  tc_writers :: nat
  tc_readers :: nat
  tc_by_process :: "(string, nat \<times> nat) omap"

definition topic_counts0 :: topic_counts where
  "topic_counts0 = \<lparr>tc_writers = 0, tc_readers = 0, tc_by_process = []\<rparr>"

definition process_key :: "endpoint \<Rightarrow> string" where
  "process_key e =
     (if guid_bytes e ! 0 = 0x01 \<and> guid_bytes e ! 1 = 0x0f
      then map (\<lambda>b. char_of (unat b)) (take 8 (guid_bytes e)) else guid e)"

definition count_endpoint :: "endpoint \<Rightarrow> topic_counts \<Rightarrow> topic_counts" where
  "count_endpoint e t =
     (if is_writer e then
        t\<lparr>tc_writers := tc_writers t + 1,
          tc_by_process := om_upd (process_key e) (0, 0) (\<lambda>c. (fst c + 1, snd c)) (tc_by_process t)\<rparr>
      else
        t\<lparr>tc_readers := tc_readers t + 1,
          tc_by_process := om_upd (process_key e) (0, 0) (\<lambda>c. (fst c, snd c + 1)) (tc_by_process t)\<rparr>)"

definition count_step :: "string set \<Rightarrow> endpoint \<Rightarrow> (string, topic_counts) omap \<Rightarrow> (string, topic_counts) omap" where
  "count_step own_prefixes e topics =
     (if participant_guid_prefix e \<in> own_prefixes then topics
      else om_upd (dds_topic e) topic_counts0 (count_endpoint e) topics)"

definition count_measurable_pairs :: "endpoint list \<Rightarrow> string set \<Rightarrow> nat" where
  "count_measurable_pairs endpoints own_prefixes =
     (let topics = fold (count_step own_prefixes) endpoints []
      in fold (\<lambda>kv out.
           let same_process = fold (\<lambda>pc n. n + fst (snd pc) * snd (snd pc)) (tc_by_process (snd kv)) 0
           in out + (tc_writers (snd kv) * tc_readers (snd kv) - same_process)) topics 0)"

subsection \<open>Where packets arrive\<close>

record reader_destinations =
  unicast_ports :: "(locator_kind \<times> u32) set"
  multicast_locators :: "(locator_kind \<times> string \<times> u32) set"

definition destinations_step :: "string set \<Rightarrow> endpoint \<Rightarrow> reader_destinations \<Rightarrow> reader_destinations" where
  "destinations_step own_prefixes e out =
     (if is_writer e \<or> participant_guid_prefix e \<in> own_prefixes then out
      else out\<lparr>unicast_ports := unicast_ports out \<union> (\<lambda>l. (loc_kind l, loc_port l)) ` set (unicast e),
               multicast_locators := multicast_locators out \<union>
                 (\<lambda>l. (loc_kind l, loc_address l, loc_port l)) ` set (multicast e)\<rparr>)"

definition reader_destinations_of :: "endpoint list \<Rightarrow> string set \<Rightarrow> reader_destinations" where
  "reader_destinations_of endpoints own_prefixes =
     fold (destinations_step own_prefixes) endpoints \<lparr>unicast_ports = {}, multicast_locators = {}\<rparr>"

definition measures_a_pair :: "traffic_sample \<Rightarrow> reader_destinations \<Rightarrow> bool" where
  "measures_a_pair tr readers \<longleftrightarrow>
     (if ts_packets tr \<le> ts_packets_first tr then False
      else (loc_kind (ts_dst tr), loc_port (ts_dst tr)) \<in> unicast_ports readers \<or>
           (loc_kind (ts_dst tr), loc_address (ts_dst tr), loc_port (ts_dst tr)) \<in> multicast_locators readers)"

end
