(* ===== verification/Discovery_Props.thy ===== *)
theory Discovery_Props
  imports Discovery Decide_Props
begin

text \<open>
  Properties of the discovery rules: completeness says what it counts, the number of measurable
  pairs computed per process group is the number of pairs that leave a process, and a client's
  server is the only one it can be.
\<close>

subsection \<open>Completeness\<close>

lemma complete_fold:
  "fold (complete_step live seen) rows (n, out) =
   (let mine = filter (\<lambda>r. fst r \<in> live) rows in
    (n + length mine,
     out\<lparr>announced_not_discovered := announced_not_discovered out + (\<Sum>r \<leftarrow> mine. missing_gids seen (snd r)),
         announced_by_incomplete := announced_by_incomplete out +
           (\<Sum>r \<leftarrow> filter (\<lambda>r. 0 < missing_gids seen (snd r)) mine. length (snd r)),
         participants_incomplete := participants_incomplete out +
           length (filter (\<lambda>r. 0 < missing_gids seen (snd r)) mine)\<rparr>))"
  by (induction rows arbitrary: n out) (simp_all add: complete_step_def Let_def)

lemma missing_gids_0: "missing_gids seen gids = 0 \<longleftrightarrow> set gids \<subseteq> seen"
  by (auto simp: missing_gids_def filter_empty_conv)

text \<open>
  Discovery is judged only from the participants that are alive and announced something: it
  is complete exactly when each endpoint they announce was discovered, and the number of missing
  endpoints is counted over all of them.
\<close>

theorem discovery_completeness_exact:
  "let s = discovery_completeness announced live discovered;
       mine = filter (\<lambda>r. fst r \<in> live) announced in
   ds_complete s = (if mine = [] then None
     else Some (list_all (\<lambda>r. set (snd r) \<subseteq> guid_bytes ` set discovered) mine)) \<and>
   announced_not_discovered s = (\<Sum>r \<leftarrow> mine. missing_gids (guid_bytes ` set discovered) (snd r)) \<and>
   participants_incomplete s =
     length (filter (\<lambda>r. \<not> set (snd r) \<subseteq> guid_bytes ` set discovered) mine)"
proof -
  have "0 < missing_gids seen gids \<longleftrightarrow> \<not> set gids \<subseteq> seen" for seen gids
    using missing_gids_0 by (metis neq0_conv)
  then show ?thesis
    by (simp add: discovery_completeness_def complete_fold discovery_status0_def Let_def)
      (auto simp: list_all_iff missing_gids_0)
qed

subsection \<open>Grouped sums\<close>

lemma sum_by_group:
  fixes f :: "'i \<Rightarrow> 'i \<Rightarrow> nat"
  assumes "finite I"
  shows "(\<Sum>k \<in> \<kappa> ` I. \<Sum>i \<in> {i \<in> I. \<kappa> i = k}. \<Sum>j \<in> {j \<in> I. \<kappa> j = k}. f i j) =
    (\<Sum>i \<in> I. \<Sum>j \<in> I. if \<kappa> i = \<kappa> j then f i j else 0)"
proof -
  have "(\<Sum>i \<in> I. \<Sum>j \<in> I. if \<kappa> i = \<kappa> j then f i j else 0) = (\<Sum>i \<in> I. \<Sum>j \<in> {j \<in> I. \<kappa> j = \<kappa> i}. f i j)"
  proof (rule sum.cong [OF refl])
    fix i
    show "(\<Sum>j \<in> I. if \<kappa> i = \<kappa> j then f i j else 0) = (\<Sum>j \<in> {j \<in> I. \<kappa> j = \<kappa> i}. f i j)"
      unfolding sum.inter_filter [OF assms, of "f i" "\<lambda>j. \<kappa> j = \<kappa> i"] by (simp add: eq_commute)
  qed
  also have "\<dots> = (\<Sum>k \<in> \<kappa> ` I. \<Sum>i \<in> {i \<in> I. \<kappa> i = k}. \<Sum>j \<in> {j \<in> I. \<kappa> j = \<kappa> i}. f i j)"
    by (rule sum.image_gen [OF assms])
  also have "\<dots> = (\<Sum>k \<in> \<kappa> ` I. \<Sum>i \<in> {i \<in> I. \<kappa> i = k}. \<Sum>j \<in> {j \<in> I. \<kappa> j = k}. f i j)"
    by (intro sum.cong refl) simp
  finally show ?thesis by simp
qed

lemma sum_om:
  fixes f :: "'v \<Rightarrow> nat"
  assumes "om_ok m"
  shows "(\<Sum>kv \<leftarrow> m. f (snd kv)) = (\<Sum>k \<in> fst ` set m. f (the (om_get m k)))"
proof -
  have d: "distinct (map fst m)" by (rule om_ok_distinct [OF assms])
  then have "(\<Sum>kv \<leftarrow> m. f (snd kv)) = (\<Sum>kv \<in> set m. f (snd kv))"
    by (simp add: sum_list_distinct_conv_sum_set distinct_map)
  also have "\<dots> = (\<Sum>k \<in> fst ` set m. f (the (om_get m k)))"
    using d by (subst sum.reindex) (auto simp: distinct_map intro!: sum.cong)
  finally show ?thesis .
qed

lemma fold_add: "fold (\<lambda>x n. n + g x) xs (n :: nat) = n + sum_list (map g xs)"
  by (induction xs arbitrary: n) simp_all

subsection \<open>The counters of a topic\<close>

lemma count_endpoints:
  "let t = fold count_endpoint es t0 in
   tc_writers t = tc_writers t0 + length (filter is_writer es) \<and>
   tc_readers t = tc_readers t0 + length (filter (\<lambda>e. \<not> is_writer e) es) \<and>
   tc_by_process t = fold (\<lambda>e. om_upd (process_key e) (0, 0)
     (\<lambda>c. if is_writer e then (fst c + 1, snd c) else (fst c, snd c + 1))) es (tc_by_process t0)"
  by (induction es arbitrary: t0) (simp_all add: count_endpoint_def Let_def)

lemma process_fold:
  "fold (\<lambda>e c. if is_writer e then (fst c + 1, snd c) else (fst c, snd c + 1)) es (a, b) =
   (a + length (filter is_writer es), b + length (filter (\<lambda>e. \<not> is_writer e) es))"
  by (induction es arbitrary: a b) simp_all

lemma by_process_get:
  "om_ok (tc_by_process (fold count_endpoint es topic_counts0)) \<and>
   om_get (tc_by_process (fold count_endpoint es topic_counts0)) k =
     (if \<exists>e \<in> set es. process_key e = k
      then Some (length (filter (\<lambda>e. process_key e = k \<and> is_writer e) es),
                 length (filter (\<lambda>e. process_key e = k \<and> \<not> is_writer e) es))
      else None)"
proof -
  let ?f = "\<lambda>e c :: nat \<times> nat. if is_writer e then (fst c + 1, snd c) else (fst c, snd c + 1)"
  have p: "tc_by_process (fold count_endpoint es topic_counts0) =
      fold (\<lambda>e. om_upd (process_key e) (0, 0) (?f e)) es []"
    using count_endpoints [of es topic_counts0] by (simp add: Let_def topic_counts0_def)
  show ?thesis
    unfolding p
    by (simp add: om_ok_fold_upd om_get_fold_upd [where f = ?f] process_fold conj_commute)
qed

lemma count_step_fold:
  "fold (count_step own) eps m =
   fold (\<lambda>e. om_upd (dds_topic e) topic_counts0 (count_endpoint e))
     (filter (\<lambda>e. participant_guid_prefix e \<notin> own) eps) m"
  by (induction eps arbitrary: m) (simp_all add: count_step_def)

subsection \<open>The number of measurable pairs\<close>

text \<open>The GUIDs are those of a system: 16 bytes, all different, and no GUID text has 8 characters.\<close>

definition guids_ok :: "endpoint list \<Rightarrow> bool" where
  "guids_ok eps \<longleftrightarrow> list_all (\<lambda>e. length (guid_bytes e) = 16 \<and> length (guid e) \<noteq> 8) eps \<and>
     distinct (map guid eps)"

definition measurable :: "endpoint list \<Rightarrow> string set \<Rightarrow> nat \<Rightarrow> nat \<Rightarrow> bool" where
  "measurable eps own i j \<longleftrightarrow> is_writer (eps ! i) \<and> \<not> is_writer (eps ! j) \<and>
     dds_topic (eps ! i) = dds_topic (eps ! j) \<and>
     participant_guid_prefix (eps ! i) \<notin> own \<and> participant_guid_prefix (eps ! j) \<notin> own \<and>
     \<not> intra_process_pair (eps ! i) (eps ! j)"

lemma process_key_eq:
  assumes "guids_ok eps" "i < length eps" "j < length eps" "i \<noteq> j"
  shows "process_key (eps ! i) = process_key (eps ! j) \<longleftrightarrow> intra_process_pair (eps ! i) (eps ! j)"
proof -
  let ?ep = "\<lambda>e. guid_bytes e ! 0 = 0x01 \<and> guid_bytes e ! 1 = 0x0f"
  have len: "length (guid_bytes (eps ! k)) = 16" "length (guid (eps ! k)) \<noteq> 8" if "k < length eps" for k
    using assms(1) that by (auto simp: guids_ok_def list_all_length)
  have g: "guid (eps ! i) \<noteq> guid (eps ! j)"
    using assms by (auto simp: guids_ok_def distinct_conv_nth)
  have "inj (\<lambda>b :: u8. char_of (unat b) :: char)"
  proof (rule injI)
    fix b c :: u8
    assume "(char_of (unat b) :: char) = char_of (unat c)"
    then have "(of_char (char_of (unat b)) :: nat) = of_char (char_of (unat c))" by simp
    moreover have "unat b < 256" "unat c < 256"
      using unsigned_less [of b, where ?'a = nat] unsigned_less [of c, where ?'a = nat] by simp_all
    ultimately show "b = c" by (simp add: word_unat_eq_iff)
  qed
  then have inj: "map (\<lambda>b. char_of (unat b)) bs = map (\<lambda>b. char_of (unat b)) cs \<longleftrightarrow> bs = cs" for bs cs :: "u8 list"
    by (simp add: inj_map_eq_map)
  have two: "take 2 xs = [0x01, 0x0f] \<longleftrightarrow> xs ! 0 = 0x01 \<and> xs ! 1 = 0x0f" if "length xs = 16" for xs :: "u8 list"
    using that by (cases xs; cases "tl xs") (auto simp: numeral_2_eq_2)
  have same: "?ep (eps ! j)" if "?ep (eps ! i)" "take 8 (guid_bytes (eps ! i)) = take 8 (guid_bytes (eps ! j))"
    using that by (metis nth_take zero_less_numeral one_less_numeral_iff semiring_norm(76))
  have l8: "length (map (\<lambda>b. char_of (unat b) :: char) (take 8 (guid_bytes (eps ! k)))) = 8" if "k < length eps" for k
    using len that by simp
  show ?thesis
    using g len [OF assms(2)] len [OF assms(3)] l8 [OF assms(2)] l8 [OF assms(3)] same
    unfolding process_key_def intra_process_pair_def two [OF len(1) [OF assms(2)]]
    by (auto simp: inj simp del: length_map)
qed

lemma count_index:
  "length (filter P (filter Q eps)) = (\<Sum>i \<in> {i \<in> {..<length eps}. Q (eps ! i)}. of_bool (P (eps ! i)))"
  by (simp add: length_filter_conv_card sum_of_bool_eq) (rule arg_cong [where f = card], auto)

lemma topic_value:
  fixes eps :: "endpoint list" and Q :: "endpoint \<Rightarrow> bool"
  defines "I \<equiv> {i \<in> {..<length eps}. Q (eps ! i)}"
  defines "tc \<equiv> fold count_endpoint (filter Q eps) topic_counts0"
  defines "a \<equiv> \<lambda>i. of_bool (is_writer (eps ! i)) :: nat" and "b \<equiv> \<lambda>i. of_bool (\<not> is_writer (eps ! i)) :: nat"
  defines "\<kappa> \<equiv> \<lambda>i. process_key (eps ! i)"
  shows "tc_writers tc * tc_readers tc - (\<Sum>pc \<leftarrow> tc_by_process tc. fst (snd pc) * snd (snd pc)) =
    (\<Sum>i \<in> I. \<Sum>j \<in> I. if \<kappa> i = \<kappa> j then 0 else a i * b j)"
proof -
  have fin: "finite I" by (simp add: I_def)
  have wr0: "tc_writers tc = length (filter is_writer (filter Q eps))"
    "tc_readers tc = length (filter (\<lambda>e. \<not> is_writer e) (filter Q eps))"
    using count_endpoints [of "filter Q eps" topic_counts0]
    by (simp_all add: tc_def Let_def topic_counts0_def)
  have wr: "tc_writers tc = sum a I" "tc_readers tc = sum b I"
    unfolding wr0 count_index a_def b_def I_def by (rule refl)+
  have ok: "om_ok (tc_by_process tc)" using by_process_get by (simp add: tc_def)
  have keys: "fst ` set (tc_by_process tc) = \<kappa> ` I"
    unfolding om_keys [OF ok]
    by (auto simp: tc_def by_process_get I_def \<kappa>_def in_set_conv_nth split: if_splits)
  have part: "sum f {i \<in> I. \<kappa> i = k} = (\<Sum>i \<in> {i \<in> {..<length eps}. process_key (eps ! i) = k \<and> Q (eps ! i)}. f i)"
    for f :: "nat \<Rightarrow> nat" and k
    by (rule sum.cong) (auto simp: I_def \<kappa>_def)
  have val: "the (om_get (tc_by_process tc) k) = (sum a {i \<in> I. \<kappa> i = k}, sum b {i \<in> I. \<kappa> i = k})"
    if "k \<in> \<kappa> ` I" for k
  proof -
    have "\<exists>e \<in> set (filter Q eps). process_key e = k"
      using that by (auto simp: I_def \<kappa>_def) (metis nth_mem)
    moreover have "length (filter (\<lambda>e. process_key e = k \<and> P e) (filter Q eps)) =
        (\<Sum>i \<in> {i \<in> I. \<kappa> i = k}. of_bool (P (eps ! i)))" for P
    proof -
      have "filter (\<lambda>e. process_key e = k \<and> P e) (filter Q eps) = filter P (filter (\<lambda>e. process_key e = k \<and> Q e) eps)"
        by (simp add: conj_ac)
      then show ?thesis by (simp only: count_index part)
    qed
    ultimately show ?thesis by (simp add: tc_def by_process_get a_def b_def)
  qed
  have "(\<Sum>pc \<leftarrow> tc_by_process tc. fst (snd pc) * snd (snd pc)) =
      (\<Sum>k \<in> \<kappa> ` I. \<Sum>i \<in> {i \<in> I. \<kappa> i = k}. \<Sum>j \<in> {j \<in> I. \<kappa> j = k}. a i * b j)"
    using sum_om [OF ok, of "\<lambda>c. fst c * snd c"] by (simp add: keys val sum_product)
  also have "\<dots> = (\<Sum>i \<in> I. \<Sum>j \<in> I. if \<kappa> i = \<kappa> j then a i * b j else 0)"
    by (rule sum_by_group [OF fin])
  finally have same: "(\<Sum>pc \<leftarrow> tc_by_process tc. fst (snd pc) * snd (snd pc)) = \<dots>" .
  have "sum a I * sum b I = (\<Sum>i \<in> I. \<Sum>j \<in> I. (if \<kappa> i = \<kappa> j then a i * b j else 0) + (if \<kappa> i = \<kappa> j then 0 else a i * b j))"
    unfolding sum_product by (intro sum.cong refl) auto
  then show ?thesis unfolding wr same by (simp add: sum.distrib)
qed

text \<open>
  C23. The number of measurable pairs, computed in one pass per process group, is the number of
  writer and reader pairs of one topic, outside the tool's own participants, that Fast DDS does
  not deliver inside a process.
\<close>

theorem count_measurable_pairs_exact:
  assumes "guids_ok eps"
  shows "count_measurable_pairs eps own =
    card {(i, j). i < length eps \<and> j < length eps \<and> measurable eps own i j}"
proof -
  define E where "E = filter (\<lambda>e. participant_guid_prefix e \<notin> own) eps"
  define I where "I = {i \<in> {..<length eps}. participant_guid_prefix (eps ! i) \<notin> own}"
  define \<tau> where "\<tau> = (\<lambda>i. dds_topic (eps ! i))"
  define \<kappa> where "\<kappa> = (\<lambda>i. process_key (eps ! i))"
  define w where "w = (\<lambda>i. of_bool (is_writer (eps ! i)) :: nat)"
  define r where "r = (\<lambda>i. of_bool (\<not> is_writer (eps ! i)) :: nat)"
  define T where "T = fold (count_step own) eps []"
  define g where "g = (\<lambda>tc :: topic_counts. tc_writers tc * tc_readers tc - (\<Sum>pc \<leftarrow> tc_by_process tc. fst (snd pc) * snd (snd pc)))"
  have fin: "finite I" by (simp add: I_def)
  have T: "T = fold (\<lambda>e. om_upd (dds_topic e) topic_counts0 (count_endpoint e)) E []"
    by (simp add: T_def E_def count_step_fold)
  have ok: "om_ok T" unfolding T by (rule om_ok_fold_upd) simp
  have get: "om_get T t = (if \<exists>e \<in> set E. dds_topic e = t
      then Some (fold count_endpoint (filter (\<lambda>e. dds_topic e = t) E) topic_counts0) else None)" for t
    unfolding T by (simp add: om_get_fold_upd [where f = count_endpoint])
  have keys: "fst ` set T = \<tau> ` I"
    unfolding om_keys [OF ok]
    by (auto simp: get E_def I_def \<tau>_def in_set_conv_nth split: if_splits)
  have val: "g (the (om_get T t)) = (\<Sum>i \<in> {i \<in> I. \<tau> i = t}. \<Sum>j \<in> {j \<in> I. \<tau> j = t}. if \<kappa> i = \<kappa> j then 0 else w i * r j)"
    if "t \<in> \<tau> ` I" for t
  proof -
    have "\<exists>e \<in> set E. dds_topic e = t" using that by (auto simp: E_def I_def \<tau>_def) (metis nth_mem)
    then have "the (om_get T t) = fold count_endpoint
        (filter (\<lambda>e. participant_guid_prefix e \<notin> own \<and> dds_topic e = t) eps) topic_counts0"
      by (simp add: get E_def conj_commute)
    moreover have "{i \<in> {..<length eps}. participant_guid_prefix (eps ! i) \<notin> own \<and> dds_topic (eps ! i) = t} = {i \<in> I. \<tau> i = t}"
      by (auto simp: I_def \<tau>_def)
    ultimately show ?thesis
      using topic_value [of "\<lambda>e. participant_guid_prefix e \<notin> own \<and> dds_topic e = t" eps]
      unfolding g_def \<kappa>_def w_def r_def by simp
  qed
  have "count_measurable_pairs eps own = (\<Sum>kv \<leftarrow> T. g (snd kv))"
    by (simp add: count_measurable_pairs_def T_def [symmetric] fold_add [where g = "\<lambda>pc. fst (snd pc) * snd (snd pc)"]
        fold_add [where g = "\<lambda>kv. tc_writers (snd kv) * tc_readers (snd kv) -
           (\<Sum>pc \<leftarrow> tc_by_process (snd kv). fst (snd pc) * snd (snd pc))"] g_def Let_def)
  also have "\<dots> = (\<Sum>i \<in> I. \<Sum>j \<in> I. if \<tau> i = \<tau> j then (if \<kappa> i = \<kappa> j then 0 else w i * r j) else 0)"
    using sum_om [OF ok, of g] sum_by_group [OF fin, of "\<lambda>i j. if \<kappa> i = \<kappa> j then 0 else w i * r j" \<tau>]
    by (simp add: keys val)
  also have "\<dots> = (\<Sum>i \<in> I. \<Sum>j \<in> I. of_bool (measurable eps own i j))"
  proof (intro sum.cong refl)
    fix i j assume ij: "i \<in> I" "j \<in> I"
    show "(if \<tau> i = \<tau> j then (if \<kappa> i = \<kappa> j then 0 else w i * r j) else 0) = of_bool (measurable eps own i j)"
    proof (cases "is_writer (eps ! i) \<and> \<not> is_writer (eps ! j)")
      case True
      then have "i \<noteq> j" by auto
      then have "\<kappa> i = \<kappa> j \<longleftrightarrow> intra_process_pair (eps ! i) (eps ! j)"
        using process_key_eq [OF assms, of i j] ij by (simp add: \<kappa>_def I_def)
      then show ?thesis using True ij by (simp add: measurable_def w_def r_def \<tau>_def I_def)
    qed (auto simp: measurable_def w_def r_def)
  qed
  also have "\<dots> = card {(i, j). i < length eps \<and> j < length eps \<and> measurable eps own i j}"
  proof -
    have "(I \<times> I) \<inter> {x. measurable eps own (fst x) (snd x)} = {(i, j). i < length eps \<and> j < length eps \<and> measurable eps own i j}"
      by (auto simp: I_def measurable_def)
    moreover have "(\<Sum>i \<in> I. \<Sum>j \<in> I. of_bool (measurable eps own i j)) =
        card ((I \<times> I) \<inter> {x. measurable eps own (fst x) (snd x)})"
      unfolding sum.cartesian_product case_prod_beta using fin by (subst sum_of_bool_eq) simp_all
    ultimately show ?thesis by simp
  qed
  finally show ?thesis .
qed

definition measurable_eps :: "endpoint list" where
  "measurable_eps = [endpoint0\<lparr>is_writer := True, guid := ''a''\<rparr>, endpoint0\<lparr>guid := ''b''\<rparr>]"

theorem count_measurable_pairs_exact_witness:
  "card {(i, j). i < length measurable_eps \<and> j < length measurable_eps \<and> measurable measurable_eps {} i j} = 1"
proof -
  have "count_measurable_pairs measurable_eps {} = 1" by code_simp
  moreover have "guids_ok measurable_eps"
    by (simp add: guids_ok_def measurable_eps_def endpoint0_def)
  ultimately show ?thesis using count_measurable_pairs_exact [of measurable_eps "{}"] by simp
qed

subsection \<open>Discovery servers\<close>

definition server_ok :: "bool \<Rightarrow> participant list \<Rightarrow> participant \<Rightarrow> bool" where
  "server_ok easy_mode ps p \<longleftrightarrow>
     (case pt_discovery_server p of
        None \<Rightarrow> True
      | Some g \<Rightarrow> is_client p \<and>
          (\<exists>s \<in> set ps. is_server s \<and> pt_guid_prefix s = g \<and>
             (if easy_mode then pt_host_id s = pt_host_id p \<and> pt_name s = ''DiscoveryServerAuto''
              else filter is_server ps = [s])))"

text \<open>
  Only clients outside the tool get a server; it is a discovered server, the only one there is,
  or under Easy Mode the automatic one of the client's own host. Attributing twice changes nothing.
\<close>

theorem attribute_servers_sound:
  "list_all (server_ok easy_mode ps) (attribute_discovery_servers easy_mode ps) \<and>
   attribute_discovery_servers easy_mode (attribute_discovery_servers easy_mode ps) =
     attribute_discovery_servers easy_mode ps"
proof -
  let ?ss = "filter is_server ps"
  have sel: "is_client (p\<lparr>pt_discovery_server := x\<rparr>) = is_client p"
    "is_server (p\<lparr>pt_discovery_server := x\<rparr>) = is_server p" for p x
    by (simp_all add: is_client_def is_server_def)
  have "server_ok easy_mode ps (p\<lparr>pt_discovery_server := server_for easy_mode ?ss p\<rparr>)" for p
  proof (cases "server_for easy_mode ?ss p")
    case (Some g)
    then have c: "is_client p" by (simp add: server_for_def split: if_splits)
    show ?thesis
    proof (cases easy_mode)
      case True
      let ?o = "own_server ?ss p"
      have o: "length ?o = 1" "g = pt_guid_prefix (last ?o)"
        using Some c True by (simp_all add: server_for_def Let_def split: if_splits)
      then have "last ?o \<in> set ?o" by (metis last_in_set length_0_conv zero_neq_one)
      then show ?thesis using Some True c o by (auto simp: server_ok_def sel own_server_def)
    next
      case False
      then have "length ?ss = 1" "g = pt_guid_prefix (?ss ! 0)"
        using Some c by (simp_all add: server_for_def split: if_splits)
      then obtain s where s: "?ss = [s]" "g = pt_guid_prefix s"
        by (cases ?ss) auto
      then have "s \<in> set ps" "is_server s" using filter_set [of is_server ps] by auto
      then show ?thesis using Some False c s by (auto simp: server_ok_def sel)
    qed
  qed (simp add: server_ok_def)
  moreover have "server_for easy_mode (filter is_server (attribute_discovery_servers easy_mode ps)) q =
      server_for easy_mode ?ss q" for q
  proof -
    define f where "f = (\<lambda>p. p\<lparr>pt_discovery_server := server_for easy_mode ?ss p\<rparr>)"
    have f: "is_server (f p) = is_server p" "pt_host_id (f p) = pt_host_id p"
      "pt_name (f p) = pt_name p" "pt_guid_prefix (f p) = pt_guid_prefix p" for p
      by (simp_all add: f_def sel)
    have m: "filter is_server (attribute_discovery_servers easy_mode ps) = map f ?ss"
      by (simp add: attribute_discovery_servers_def filter_map comp_def sel f_def Let_def)
    have o: "own_server (map f ss) q = map f (own_server ss q)" for ss
      by (simp add: own_server_def filter_map comp_def f)
    have l: "pt_guid_prefix (last (map f ss)) = pt_guid_prefix (last ss)" if "length ss = 1" for ss
      using that f by (cases ss) auto
    have h: "pt_guid_prefix (map f ss ! 0) = pt_guid_prefix (ss ! 0)" if "length ss = 1" for ss
      using that f by (cases ss) auto
    show ?thesis unfolding m server_for_def o Let_def length_map using l h by simp
  qed
  moreover have "server_for easy_mode ss (p\<lparr>pt_discovery_server := x\<rparr>) = server_for easy_mode ss p" for ss p x
    by (simp add: server_for_def own_server_def sel)
  ultimately show ?thesis
    by (simp add: attribute_discovery_servers_def list_all_iff Let_def)
qed

subsection \<open>Where packets arrive\<close>

lemma destinations_fold:
  "fold (destinations_step own) eps d =
   (let rs = filter (\<lambda>e. \<not> is_writer e \<and> participant_guid_prefix e \<notin> own) eps in
    \<lparr>unicast_ports = unicast_ports d \<union> (\<Union>e \<in> set rs. (\<lambda>l. (loc_kind l, loc_port l)) ` set (unicast e)),
     multicast_locators = multicast_locators d \<union>
       (\<Union>e \<in> set rs. (\<lambda>l. (loc_kind l, loc_address l, loc_port l)) ` set (multicast e))\<rparr>)"
  by (induction eps arbitrary: d) (auto simp: destinations_step_def Let_def)

definition receives_at :: "string set \<Rightarrow> locator \<Rightarrow> endpoint \<Rightarrow> bool" where
  "receives_at own dst e \<longleftrightarrow> \<not> is_writer e \<and> participant_guid_prefix e \<notin> own \<and>
     (list_ex (\<lambda>l. loc_kind l = loc_kind dst \<and> loc_port l = loc_port dst) (unicast e) \<or>
      list_ex (\<lambda>l. l = dst) (multicast e))"

text \<open>
  A traffic counter measures a pair exactly when it moved and its destination is a unicast
  port or a multicast group some reader outside the tool's participants receives on.
\<close>

theorem measures_a_pair_exact:
  "measures_a_pair tr (reader_destinations_of eps own) \<longleftrightarrow>
   ts_packets_first tr < ts_packets tr \<and> list_ex (receives_at own (ts_dst tr)) eps"
proof -
  have "l = dst \<longleftrightarrow> loc_kind l = loc_kind dst \<and> loc_address l = loc_address dst \<and> loc_port l = loc_port dst" for l dst :: locator
    by (cases l; cases dst) simp
  then show ?thesis
    by (auto simp: measures_a_pair_def reader_destinations_of_def destinations_fold receives_at_def
        list_ex_iff image_iff Let_def not_le) metis+
qed

end
