(* ===== verification/Diffing.thy ===== *)
theory Diffing
  imports Topics Snapshot_Model
begin

text \<open>
  Comparing two frames (\<open>diff\<close>, \<open>diff_snapshots\<close> of \<open>src/decision.cpp\<close>). A
  \<open>std::map<PairKey, V>\<close> is ordered by the identity of the key (\<open>pk_ident\<close>) and keeps the first
  key object it was given for an identity, so it is an \<open>omap\<close> from identities to the stored key
  and the value.
\<close>

type_synonym pair_map = "(string \<times> string \<times> string, pair_key \<times> pair_state) omap"

definition pair_key_of :: "endpoint list \<Rightarrow> topic_summary \<Rightarrow> pair \<Rightarrow> pair_key" where
  "pair_key_of eps t p = \<lparr>pk_topic = t_display_topic t, pk_writer_guid = guid (eps ! p_writer p),
     pk_reader_guid = guid (eps ! p_reader p), pk_writer_node = node_name (eps ! p_writer p),
     pk_reader_node = node_name (eps ! p_reader p)\<rparr>"

definition pair_state_of :: "pair \<Rightarrow> pair_state" where
  "pair_state_of p = \<lparr>ps_transport = v_transport (p_verdict p),
     ps_confidence = v_confidence (p_verdict p), ps_measured = m_transports (p_measured p),
     ps_locator = v_locator (p_verdict p),
     ps_measured_locators = map ml_locator (m_locators (p_measured p)),
     ps_warnings = v_warnings (p_verdict p)\<rparr>"

text \<open>\<open>out[key] = state\<close>\<close>

definition put_state :: "pair_key \<Rightarrow> pair_state \<Rightarrow> pair_map \<Rightarrow> pair_map" where
  "put_state k s m =
     om_put (pk_ident k) (case om_get m (pk_ident k) of None \<Rightarrow> (k, s) | Some e \<Rightarrow> (fst e, s)) m"

definition pair_states :: "snapshot \<Rightarrow> pair_map" where
  "pair_states snap =
     fold (\<lambda>t. fold (\<lambda>p. put_state (pair_key_of (sn_endpoints snap) t p) (pair_state_of p)) (t_pairs t))
       (sn_topics snap) []"

definition diff_added :: "pair_map \<Rightarrow> pair_map \<Rightarrow> pair_key list" where
  "diff_added previous current =
     map (\<lambda>kv. fst (snd kv)) (filter (\<lambda>kv. om_get previous (fst kv) = None) current)"

definition diff_changed ::
  "(pair_state \<Rightarrow> pair_state \<Rightarrow> bool) \<Rightarrow> pair_map \<Rightarrow> pair_map \<Rightarrow> pair_change list" where
  "diff_changed same previous current =
     List.map_filter (\<lambda>kv. case om_get previous (fst kv) of
         None \<Rightarrow> None
       | Some e \<Rightarrow>
           (if same (snd e) (snd (snd kv)) then None
            else Some \<lparr>pc_key = fst (snd kv), pc_from = snd e, pc_to = snd (snd kv),
                       pc_before_key = fst e\<rparr>)) current"

text \<open>The two loops of \<open>diff\<close> and of \<open>diff_snapshots\<close>; they differ in the comparison only.\<close>

definition diff_maps ::
  "(pair_state \<Rightarrow> pair_state \<Rightarrow> bool) \<Rightarrow> pair_map \<Rightarrow> pair_map \<Rightarrow> changes" where
  "diff_maps same previous current = changes0\<lparr>
     ch_added := diff_added previous current,
     ch_changed := diff_changed same previous current,
     ch_removed := diff_added current previous\<rparr>"

definition diff :: "pair_map \<Rightarrow> pair_map \<Rightarrow> changes" where
  "diff previous current = diff_maps (=) previous current"

subsection \<open>The node key\<close>

definition add_node :: "endpoint \<Rightarrow> (string, string list) omap \<Rightarrow> (string, string list) omap" where
  "add_node e m = (if node_name e \<noteq> [] then om_upd (node_name e) [] (\<lambda>gs. gs @ [guid e]) m else m)"

definition by_node :: "endpoint list \<Rightarrow> topic_summary \<Rightarrow> (string, string list) omap" where
  "by_node eps t =
     map (\<lambda>kv. (fst kv, sort (snd kv)))
       (fold (\<lambda>i. add_node (eps ! i)) (t_writers t @ t_readers t) [])"

text \<open>\<open>std::find(guids.begin(), guids.end(), guid) - guids.begin()\<close>\<close>

definition position :: "string list \<Rightarrow> string \<Rightarrow> nat" where
  "position guids g = length (takeWhile (\<lambda>x. x \<noteq> g) guids)"

definition identity :: "(string, string list) omap \<Rightarrow> endpoint \<Rightarrow> string" where
  "identity nodes e =
     (if node_name e = [] then ''guid:'' @ guid e
      else node_name e @ ''#'' @
        dec (position (case om_get nodes (node_name e) of None \<Rightarrow> [] | Some gs \<Rightarrow> gs) (guid e)))"

definition node_keyed :: "snapshot \<Rightarrow> pair_map" where
  "node_keyed snap =
     (let eps = sn_endpoints snap
      in fold (\<lambda>t. let nodes = by_node eps t in
           fold (\<lambda>p. om_put (t_display_topic t, identity nodes (eps ! p_writer p), identity nodes (eps ! p_reader p))
               (pair_key_of eps t p, pair_state_of p)) (t_pairs t))
         (sn_topics snap) [])"

definition strip_ports :: "pair_state \<Rightarrow> pair_state" where
  "strip_ports s = s\<lparr>ps_locator := (ps_locator s)\<lparr>loc_port := 0\<rparr>,
     ps_measured_locators := map (\<lambda>l. l\<lparr>loc_port := 0\<rparr>) (ps_measured_locators s)\<rparr>"

definition same_ignoring_ports :: "pair_state \<Rightarrow> pair_state \<Rightarrow> bool" where
  "same_ignoring_ports a b \<longleftrightarrow> strip_ports a = strip_ports b"

definition diff_snapshots :: "snapshot \<Rightarrow> snapshot \<Rightarrow> key_mode \<Rightarrow> changes" where
  "diff_snapshots before after mode =
     (case mode of
        KmGuid \<Rightarrow> (diff (pair_states before) (pair_states after))\<lparr>ch_key := mode\<rparr>
      | KmNode \<Rightarrow> (diff_maps same_ignoring_ports (node_keyed before) (node_keyed after))\<lparr>ch_key := mode\<rparr>)"

subsection \<open>The maps\<close>

lemma fold_ok: "P m \<Longrightarrow> (\<And>x m. P m \<Longrightarrow> P (f x m)) \<Longrightarrow> P (fold f xs m)"
  by (induction xs arbitrary: m) auto

lemma pair_states_ok: "om_ok (pair_states snap)"
  unfolding pair_states_def put_state_def by (intro fold_ok [where P = om_ok]) auto

lemma node_keyed_ok: "om_ok (node_keyed snap)"
  unfolding node_keyed_def Let_def by (intro fold_ok [where P = om_ok]) auto

lemma om_entry: "om_ok m \<Longrightarrow> kv \<in> set m \<longleftrightarrow> om_get m (fst kv) = Some (snd kv)"
  by (metis map_of_eq_Some_iff om_ok_distinct prod.collapse)

text \<open>The compared maps of a mode, and its comparison.\<close>

definition keyed :: "key_mode \<Rightarrow> snapshot \<Rightarrow> pair_map" where
  "keyed mode snap = (case mode of KmGuid \<Rightarrow> pair_states snap | KmNode \<Rightarrow> node_keyed snap)"

definition same_in :: "key_mode \<Rightarrow> pair_state \<Rightarrow> pair_state \<Rightarrow> bool" where
  "same_in mode = (case mode of KmGuid \<Rightarrow> (=) | KmNode \<Rightarrow> same_ignoring_ports)"

lemma keyed_ok: "om_ok (keyed mode snap)"
  by (cases mode) (simp_all add: keyed_def pair_states_ok node_keyed_ok)

lemma same_in_equiv:
  "same_in mode a a" "same_in mode a b = same_in mode b a"
  by (cases mode; auto simp: same_in_def same_ignoring_ports_def)+

lemma diff_snapshots_eq:
  "diff_snapshots a b mode = (diff_maps (same_in mode) (keyed mode a) (keyed mode b))\<lparr>ch_key := mode\<rparr>"
  by (cases mode) (simp_all add: diff_snapshots_def diff_def keyed_def same_in_def)

end
