(* ===== verification/Diffing_Props.thy ===== *)
theory Diffing_Props
  imports Diffing Decide_Props
begin

text \<open>
  Properties of the comparison: it is empty exactly when no pair appeared, went or changed; going
  back in time swaps what was added with what was removed; and a renumbering of ports, as after a
  restart, is no change under the node key.
\<close>

lemma diff_changed_empty:
  assumes "om_ok cur"
  shows "diff_changed same prev cur = [] \<longleftrightarrow>
    (\<forall>i k s k' s'. om_get prev i = Some (k, s) \<longrightarrow> om_get cur i = Some (k', s') \<longrightarrow> same s s')"
proof -
  have "diff_changed same prev cur = [] \<longleftrightarrow>
      (\<forall>kv \<in> set cur. \<forall>e. om_get prev (fst kv) = Some e \<longrightarrow> same (snd e) (snd (snd kv)))"
    by (auto simp: diff_changed_def List.map_filter_def filter_empty_conv split: option.splits if_splits)
  also have "\<dots> \<longleftrightarrow> (\<forall>i k s k' s'. om_get prev i = Some (k, s) \<longrightarrow> om_get cur i = Some (k', s') \<longrightarrow> same s s')"
    unfolding Ball_def om_entry [OF assms] by (simp add: split_paired_All) blast
  finally show ?thesis .
qed

lemma diff_added_empty:
  assumes "om_ok cur"
  shows "diff_added prev cur = [] \<longleftrightarrow> (\<forall>i. om_get cur i \<noteq> None \<longrightarrow> om_get prev i \<noteq> None)"
proof -
  have "diff_added prev cur = [] \<longleftrightarrow> (\<forall>i \<in> fst ` set cur. om_get prev i \<noteq> None)"
    by (auto simp: diff_added_def filter_empty_conv)
  then show ?thesis by (simp add: om_keys [OF assms])
qed

lemma diff_empty_keyed:
  "ch_empty (diff_snapshots a b mode) \<longleftrightarrow>
   (\<forall>i. rel_option (\<lambda>x y. same_in mode (snd x) (snd y)) (om_get (keyed mode a) i) (om_get (keyed mode b) i))"
proof -
  let ?A = "keyed mode a" and ?B = "keyed mode b"
  have r: "rel_option (\<lambda>x y. same_in mode (snd x) (snd y)) x y \<longleftrightarrow>
      (y \<noteq> None \<longrightarrow> x \<noteq> None) \<and> (x \<noteq> None \<longrightarrow> y \<noteq> None) \<and>
      (\<forall>k s k' s'. x = Some (k, s) \<longrightarrow> y = Some (k', s') \<longrightarrow> same_in mode s s')"
    for x y :: "(pair_key \<times> pair_state) option"
    by (cases x; cases y) auto
  have "ch_empty (diff_snapshots a b mode) \<longleftrightarrow>
      diff_added ?A ?B = [] \<and> diff_added ?B ?A = [] \<and> diff_changed (same_in mode) ?A ?B = []"
    by (simp add: diff_snapshots_eq diff_maps_def ch_empty_def changes0_def)
  then show ?thesis
    unfolding diff_added_empty [OF keyed_ok] diff_changed_empty [OF keyed_ok] r by blast
qed

text \<open>
  C39. A comparison reports nothing exactly when the two snapshots have the same pairs under the
  key of the mode and each pair is in the same state, where the node key ignores port numbers.
\<close>

theorem diff_empty_iff:
  "ch_empty (diff_snapshots a b mode) \<longleftrightarrow>
   (\<forall>i. rel_option (\<lambda>x y. same_in mode (snd x) (snd y)) (om_get (keyed mode a) i) (om_get (keyed mode b) i))"
  by (rule diff_empty_keyed)

definition swap_change :: "pair_change \<Rightarrow> pair_change" where
  "swap_change c = \<lparr>pc_key = pc_before_key c, pc_from = pc_to c, pc_to = pc_from c,
     pc_before_key = pc_key c\<rparr>"

text \<open>The entries of both maps, in the order of the keys.\<close>

lemma diff_changed_keys:
  assumes "om_ok cur"
  shows "diff_changed same prev cur =
    map (\<lambda>i. \<lparr>pc_key = fst (the (om_get cur i)), pc_from = snd (the (om_get prev i)),
              pc_to = snd (the (om_get cur i)), pc_before_key = fst (the (om_get prev i))\<rparr>)
      (filter (\<lambda>i. om_get prev i \<noteq> None \<and> \<not> same (snd (the (om_get prev i))) (snd (the (om_get cur i))))
        (map fst cur))"
proof -
  have "\<forall>kv \<in> set cur. om_get cur (fst kv) = Some (snd kv)" using om_entry [OF assms] by blast
  then have "diff_changed same prev kvs =
    map (\<lambda>i. \<lparr>pc_key = fst (the (om_get cur i)), pc_from = snd (the (om_get prev i)),
              pc_to = snd (the (om_get cur i)), pc_before_key = fst (the (om_get prev i))\<rparr>)
      (filter (\<lambda>i. om_get prev i \<noteq> None \<and> \<not> same (snd (the (om_get prev i))) (snd (the (om_get cur i))))
        (map fst kvs))" if "set kvs \<subseteq> set cur" for kvs
    using that
    by (induction kvs) (auto simp: diff_changed_def List.map_filter_simps split: option.splits)
  then show ?thesis by simp
qed

lemma sorted_filter_eq:
  assumes "om_ok m" "om_ok n" "\<And>i. P i \<Longrightarrow> (om_get m i \<noteq> None) = (om_get n i \<noteq> None)"
  shows "filter P (map fst m) = filter P (map fst n)"
proof (rule strict_sorted_equal)
  show "sorted_wrt (<) (filter P (map fst m))" "sorted_wrt (<) (filter P (map fst n))"
    using assms(1,2) by (simp_all add: om_ok_def sorted_wrt_filter)
  have "fst ` set m = {i. om_get m i \<noteq> None}" "fst ` set n = {i. om_get n i \<noteq> None}"
    using assms(1,2) om_keys by blast+
  then show "set (filter P (map fst m)) = set (filter P (map fst n))"
    using assms(3) unfolding set_filter set_map by blast
qed

text \<open>
  Comparing in the other direction swaps added with removed and turns every change around,
  under both keys.
\<close>

theorem diff_reverse:
  "ch_added (diff_snapshots b a mode) = ch_removed (diff_snapshots a b mode) \<and>
   ch_removed (diff_snapshots b a mode) = ch_added (diff_snapshots a b mode) \<and>
   ch_changed (diff_snapshots b a mode) = map swap_change (ch_changed (diff_snapshots a b mode))"
proof -
  let ?A = "keyed mode a" and ?B = "keyed mode b" and ?s = "same_in mode"
  let ?P = "\<lambda>i. om_get ?A i \<noteq> None \<and> om_get ?B i \<noteq> None \<and> \<not> ?s (snd (the (om_get ?A i))) (snd (the (om_get ?B i)))"
  have f: "filter (\<lambda>i. Q i \<and> R i) (map fst m) = filter (\<lambda>i. om_get m i \<noteq> None \<and> Q i \<and> R i) (map fst m)"
    if "om_ok m" for m :: pair_map and Q R
    by (rule filter_cong [OF refl]) (simp add: om_keys [OF that])
  have "filter (\<lambda>i. om_get ?B i \<noteq> None \<and> \<not> ?s (snd (the (om_get ?B i))) (snd (the (om_get ?A i)))) (map fst ?A)
      = filter ?P (map fst ?A)"
    by (subst f [OF keyed_ok]) (simp only: same_in_equiv(2))
  also have "\<dots> = filter ?P (map fst ?B)"
    by (rule sorted_filter_eq [OF keyed_ok keyed_ok]) auto
  also have "\<dots> = filter (\<lambda>i. om_get ?A i \<noteq> None \<and> \<not> ?s (snd (the (om_get ?A i))) (snd (the (om_get ?B i)))) (map fst ?B)"
    by (subst f [OF keyed_ok]) (rule filter_cong, auto)
  finally have "diff_changed ?s ?B ?A = map swap_change (diff_changed ?s ?A ?B)"
    by (simp add: diff_changed_keys [OF keyed_ok] swap_change_def)
  then show ?thesis by (simp add: diff_snapshots_eq diff_maps_def changes0_def)
qed

subsection \<open>Renumbered ports\<close>

definition renumber_pair :: "(u32 \<Rightarrow> u32) \<Rightarrow> pair \<Rightarrow> pair" where
  "renumber_pair f p = p\<lparr>
     p_verdict := (p_verdict p)\<lparr>v_locator := (v_locator (p_verdict p))
       \<lparr>loc_port := f (loc_port (v_locator (p_verdict p)))\<rparr>\<rparr>,
     p_measured := (p_measured p)\<lparr>m_locators := map (\<lambda>ml. ml\<lparr>ml_locator := (ml_locator ml)
       \<lparr>loc_port := f (loc_port (ml_locator ml))\<rparr>\<rparr>) (m_locators (p_measured p))\<rparr>\<rparr>"

definition renumber :: "(u32 \<Rightarrow> u32) \<Rightarrow> snapshot \<Rightarrow> snapshot" where
  "renumber f snap = snap\<lparr>sn_topics :=
     map (\<lambda>t. t\<lparr>t_pairs := map (renumber_pair f) (t_pairs t)\<rparr>) (sn_topics snap)\<rparr>"

lemma strip_renumber: "strip_ports (pair_state_of (renumber_pair f p)) = strip_ports (pair_state_of p)"
  by (simp add: strip_ports_def pair_state_of_def renumber_pair_def)

definition same_node_maps :: "pair_map \<Rightarrow> pair_map \<Rightarrow> bool" where
  "same_node_maps m n \<longleftrightarrow> om_ok m \<and> om_ok n \<and>
     (\<forall>i. rel_option (\<lambda>x y. same_ignoring_ports (snd x) (snd y)) (om_get m i) (om_get n i))"

lemma same_node_put:
  "same_node_maps m n \<Longrightarrow> same_ignoring_ports (snd x) (snd y) \<Longrightarrow>
   same_node_maps (om_put i x m) (om_put i y n)"
  by (simp add: same_node_maps_def)

lemma same_node_fold:
  "same_node_maps m n \<Longrightarrow>
   (\<And>p m n. same_node_maps m n \<Longrightarrow> same_node_maps (f p m) (g (h p) n)) \<Longrightarrow>
   same_node_maps (fold f ps m) (fold g (map h ps) n)"
  by (induction ps arbitrary: m n) simp_all

text \<open>
  Under the node key a renumbering of the ports of the selected and the measured locators,
  whatever it is, is no change.
\<close>

theorem node_key_ignores_ports: "ch_empty (diff_snapshots snap (renumber f snap) KmNode)"
proof -
  let ?eps = "sn_endpoints snap"
  let ?h = "\<lambda>t. t\<lparr>t_pairs := map (renumber_pair f) (t_pairs t)\<rparr>"
  have nodes: "by_node ?eps (?h t) = by_node ?eps t" for t by (simp add: by_node_def)
  have sel: "p_writer (renumber_pair f p) = p_writer p" "p_reader (renumber_pair f p) = p_reader p" for p
    by (simp_all add: renumber_pair_def)
  have "same_ignoring_ports (pair_state_of p) (pair_state_of (renumber_pair f p))" for p
    by (simp add: same_ignoring_ports_def strip_renumber)
  then have "same_node_maps (node_keyed snap) (node_keyed (renumber f snap))"
    unfolding node_keyed_def Let_def renumber_def
    by (simp, intro same_node_fold, simp add: same_node_maps_def)
      (simp add: nodes, intro same_node_fold, assumption, simp add: sel same_node_put)
  then have "\<forall>i. rel_option (\<lambda>x y. same_ignoring_ports (snd x) (snd y))
      (om_get (node_keyed snap) i) (om_get (node_keyed (renumber f snap)) i)"
    by (simp add: same_node_maps_def)
  then show ?thesis
    by (simp add: diff_empty_keyed keyed_def same_in_def)
qed

end
