(* ===== verification/Codes.thy ===== *)
theory Codes
  imports Ordered_Map
begin

text \<open>
  The reason and warning codes (\<open>explanations\<close>, \<open>explain\<close>, \<open>remedy\<close> and \<open>known_codes\<close> of
  \<open>src/decision.cpp\<close>): the description of every code and, where there is something to change,
  the remedy. The table is split as the source splits it by comments.
\<close>

record code_info =
  ci_description :: string
  ci_remedy :: "string option"

definition entry :: "string \<Rightarrow> string \<Rightarrow> string option \<Rightarrow> string \<times> code_info" where
  "entry c d r = (c, \<lparr>ci_description = d, ci_remedy = r\<rparr>)"

definition kStatsEnv :: string where
  \<open>kStatsEnv = ''FASTDDS_STATISTICS="RTPS_SENT_TOPIC;RTPS_LOST_TOPIC;HISTORY_LATENCY_TOPIC;PHYSICAL_DATA_TOPIC;DATA_COUNT_TOPIC;RESENT_DATAS_TOPIC;HEARTBEAT_COUNT_TOPIC;ACKNACK_COUNT_TOPIC;NACKFRAG_COUNT_TOPIC;GAP_COUNT_TOPIC"''\<close>

subsection \<open>Transport selection\<close>

definition selection_codes :: "(string \<times> code_info) list" where
  \<open>selection_codes = [
      entry ''same-host-guid''
        ''Writer and reader GUID prefixes share the same first 4 bytes, which is how Fast DDS decides both participants run on the same host.''
        None,
      entry ''different-host''
        ''GUID prefixes differ in the first 4 bytes, so Fast DDS treats the endpoints as being on different hosts; shared memory is not an option.''
        (Some ''For SHM between containers on one machine, run them in the host's network and IPC namespaces (--network host --ipc host); between machines only network transports apply.''),
      entry ''both-shm-locators''
        ''Both endpoints announce a SHM locator. On the same host Fast DDS then uses the shared memory transport exclusively for user data (discovery still goes over UDP).''
        None,
      entry ''writer-no-shm-locator''
        ''The writer's participant announces no SHM locator: SHM transport is not instantiated on its side (e.g. FASTDDS_BUILTIN_TRANSPORTS=UDPv4, or an XML profile without SHM).''
        (Some ''Enable SHM on the writer's participant: unset FASTDDS_BUILTIN_TRANSPORTS or set it to DEFAULT / LARGE_DATA (Fast DDS >= 2.11), or add a SHM <transport_descriptor> to its XML participant profile.''),
      entry ''reader-no-shm-locator''
        ''The reader's participant announces no SHM locator: SHM transport is not instantiated on its side (e.g. FASTDDS_BUILTIN_TRANSPORTS=UDPv4, or an XML profile without SHM).''
        (Some ''Enable SHM on the reader's participant: unset FASTDDS_BUILTIN_TRANSPORTS or set it to DEFAULT / LARGE_DATA (Fast DDS >= 2.11), or add a SHM <transport_descriptor> to its XML participant profile.''),
      entry ''shm-locators-ignored-across-hosts''
        ''Both endpoints announce SHM locators, but they are on different hosts so the SHM locators are discarded.''
        None,
      entry ''shm-ipc-namespace-split''
        ''The writer and the reader have the same host id, but their shared-memory ports or data-sharing segments are in different IPC namespaces: Fast DDS still selects SHM or data-sharing and every sample between them is lost.''
        (Some ''Put both nodes in one IPC namespace (ipc: host on both containers, or the same container), or disable SHM and data-sharing on one side (FASTDDS_BUILTIN_TRANSPORTS=UDPv4 on Fast DDS >= 2.11 or an XML transport profile, and data_sharing OFF in its QoS profile).''),
      entry ''shm-port-collision''
        ''The writer's and the reader's participants announce the same SHM port number. Only one participant per IPC namespace can listen on a port, so the two use different /dev/shm.''
        None,
      entry ''shm-reader-port-not-visible''
        ''The writer's SHM ports are open in the tool's IPC namespace and a port of the reader's is not (no lock file here, or it is one of the tool's own ports), so the two use different /dev/shm.''
        None,
      entry ''shm-writer-port-not-visible''
        ''The reader's SHM ports are open in the tool's IPC namespace and a port of the writer's is not (no lock file here, or it is one of the tool's own ports), so the two use different /dev/shm.''
        None,
      entry ''datasharing-reader-segment-not-visible''
        ''The writer's data-sharing history is in the tool's /dev/shm and the reader's notification segment is not, so the two use different /dev/shm: the reader cannot open the writer's history and rejects the writer.''
        None,
      entry ''datasharing-writer-segment-not-visible''
        ''The reader's data-sharing notification segment is in the tool's /dev/shm and the writer's history is not, so the two use different /dev/shm: the reader cannot open the writer's history and rejects the writer.''
        None,
      entry ''shm-ipc-namespace-split-but-delivered''
        ''HISTORY_LATENCY statistics prove that samples reached the reader although the writer and the reader were judged to be in different IPC namespaces: the tool's split detection is wrong for this setup. Please report this with the --json output.''
        None,
      entry ''shm-ipc-namespace-split-but-non-shm-traffic''
        ''RTPS_SENT statistics show non-SHM packets from the writer's participant to the reader's locators during the observation, although both announce SHM and were judged to be in different IPC namespaces: Fast DDS sends same-host traffic over SHM only, so the split detection may be wrong for this setup. Please report this with the --json output.''
        None,
      entry ''common-udpv4-locator''
        ''The reader announces a UDPv4 locator and the writer speaks UDPv4.''
        None,
      entry ''common-udpv6-locator''
        ''The reader announces a UDPv6 locator and the writer speaks UDPv6.''
        None,
      entry ''common-tcpv4-locator''
        ''The reader announces a TCPv4 locator and the writer speaks TCPv4.''
        None,
      entry ''common-tcpv6-locator''
        ''The reader announces a TCPv6 locator and the writer speaks TCPv6.''
        None,
      entry ''no-common-transport''
        ''No locator kind is shared by both endpoints; user data cannot flow between them.''
        (Some ''Give both participants a transport in common: the same FASTDDS_BUILTIN_TRANSPORTS value on both nodes (Fast DDS >= 2.11), or matching <transport_descriptor> entries in both XML participant profiles.''),
      entry ''host-id-match-but-ip-differs''
        ''The endpoints share a host id but announce no common IP address (typical for containers with separate network namespaces on one machine). SHM works only if /dev/shm is shared (the pair gets shm-ipc-namespace-split when the tool can tell that it is not).''
        (Some ''Share /dev/shm between the containers (--ipc host on both, or --ipc container:<name>) so that the SHM verdict holds; otherwise put them on one network for UDP.''),
      entry ''same-host-locators-hidden''
        ''Fast DDS below 2.10 (ROS 2 Humble) announces only the SHM locator of a participant on the same host to this tool, so the network locators of one side are not visible. The other side has no SHM locator, and both keep the builtin UDPv4 transport, so Fast DDS falls back to UDPv4 between them; the tool cannot see it in discovery data.''
        (Some ''Observe with Fast DDS >= 2.10 (ROS 2 Jazzy or newer) to see the network locators of same-host participants; on Humble the verdict stays 'likely'.'')]\<close>

lemma selection_codes_keys: "map fst selection_codes =
  [''same-host-guid'',
   ''different-host'',
   ''both-shm-locators'',
   ''writer-no-shm-locator'',
   ''reader-no-shm-locator'',
   ''shm-locators-ignored-across-hosts'',
   ''shm-ipc-namespace-split'',
   ''shm-port-collision'',
   ''shm-reader-port-not-visible'',
   ''shm-writer-port-not-visible'',
   ''datasharing-reader-segment-not-visible'',
   ''datasharing-writer-segment-not-visible'',
   ''shm-ipc-namespace-split-but-delivered'',
   ''shm-ipc-namespace-split-but-non-shm-traffic'',
   ''common-udpv4-locator'',
   ''common-udpv6-locator'',
   ''common-tcpv4-locator'',
   ''common-tcpv6-locator'',
   ''no-common-transport'',
   ''host-id-match-but-ip-differs'',
   ''same-host-locators-hidden'']"
  unfolding selection_codes_def entry_def list.map fst_conv by (rule refl)

subsection \<open>Data-sharing (prediction)\<close>

definition datasharing_codes :: "(string \<times> code_info) list" where
  \<open>datasharing_codes = [
      entry ''datasharing-disabled-writer''
        ''The writer announces data-sharing OFF (explicitly disabled, or AUTO resolved to OFF because the type is unbounded / the history memory policy is not preallocated).''
        (Some ''Enable data-sharing on the writer: <data_sharing><kind>ON</kind> in its data_writer XML profile, a bounded (fixed-size) message type and a PREALLOCATED or PREALLOCATED_WITH_REALLOC <historyMemoryPolicy>.''),
      entry ''datasharing-disabled-reader''
        ''The reader announces data-sharing OFF (explicitly disabled, or AUTO resolved to OFF because the type is unbounded / the history memory policy is not preallocated).''
        (Some ''Enable data-sharing on the reader: <data_sharing><kind>ON</kind> in its data_reader XML profile, a bounded (fixed-size) message type and a PREALLOCATED or PREALLOCATED_WITH_REALLOC <historyMemoryPolicy>.''),
      entry ''datasharing-qos-unknown''
        ''The data-sharing QoS of at least one endpoint could not be read from discovery data.''
        None,
      entry ''datasharing-qos-enabled-both''
        ''Both endpoints announce data-sharing ON or AUTO. Fast DDS resolves AUTO before discovery, so this means both sides consider themselves data-sharing capable.''
        None,
      entry ''datasharing-domain-ids-match''
        ''The data-sharing domain ids announced by writer and reader intersect, which is required for zero-copy delivery to be matched.''
        None,
      entry ''datasharing-domain-ids-unknown''
        ''At least one side announced no data-sharing domain id; matching cannot be confirmed from discovery data alone.''
        None,
      entry ''datasharing-domain-ids-mismatch''
        ''Both sides are data-sharing capable but their domain ids do not intersect, so Fast DDS falls back to the transports.''
        (Some ''Make the <data_sharing><domain_ids> lists of writer and reader intersect, or leave both empty so that Fast DDS derives the id from the host.''),
      entry ''datasharing-unverified-by-traffic''
        ''Zero-copy delivery produces no RTPS traffic, so discovery data alone cannot tell whether user data is sent over a transport for this pair.''
        (Some ''Run the tool with --stats (the observed nodes need FASTDDS_STATISTICS, see --help) to confirm that no user data crosses a transport.''),
      entry ''intra-process''
        ''Writer and reader live in one process (the first 8 bytes of their GUID prefixes are equal), so Fast DDS hands every sample over inside the process and sends no packet at all. That path beats data-sharing too: the writer still fills its shared-memory history, but it never notifies the reader through the segment. The statistics follow: HISTORY_LATENCY and PUBLICATION_THROUGHPUT are published, RTPS_SENT and DATA_COUNT are not, which is why such a pair shows a delivery proof and no measured packet. The transport column keeps what the locators would carry if the two ended up in different processes.''
        None]\<close>

lemma datasharing_codes_keys: "map fst datasharing_codes =
  [''datasharing-disabled-writer'',
   ''datasharing-disabled-reader'',
   ''datasharing-qos-unknown'',
   ''datasharing-qos-enabled-both'',
   ''datasharing-domain-ids-match'',
   ''datasharing-domain-ids-unknown'',
   ''datasharing-domain-ids-mismatch'',
   ''datasharing-unverified-by-traffic'',
   ''intra-process'']"
  unfolding datasharing_codes_def entry_def list.map fst_conv by (rule refl)

subsection \<open>Data-sharing (measured)\<close>

definition datasharing_measured_codes :: "(string \<times> code_info) list" where
  \<open>datasharing_measured_codes = [
      entry ''datasharing-confirmed-no-traffic''
        ''HISTORY_LATENCY statistics prove samples reached the reader while no RTPS packets went to any of its locators: zero-copy data-sharing delivery is confirmed.''
        None,
      entry ''datasharing-confirmed-no-data-submessages''
        ''HISTORY_LATENCY statistics prove samples reached the reader while the writer's DATA_COUNT did not grow: no DATA submessage left through a transport, so zero-copy data-sharing delivery is confirmed (needs DATA_COUNT_TOPIC on the observed nodes).''
        None,
      entry ''datasharing-ambiguous-mixed-readers''
        ''The writer also serves readers without data-sharing, so its DATA_COUNT mixes both delivery paths and cannot confirm zero-copy for this pair.''
        (Some ''To confirm zero-copy, observe while every reader of this writer announces data-sharing (stop or --node-filter the others), or enable data-sharing on those readers too.''),
      entry ''datasharing-data-submessages-sent''
        ''Every reader of this writer announces data-sharing, yet the writer sent DATA submessages through a transport during the observation: Fast DDS did not use zero-copy delivery.''
        (Some ''Check that writer and reader share a data-sharing domain id and that the sample fits the preallocated payload of the writer's history; otherwise Fast DDS falls back to the transport.''),
      entry ''datasharing-not-used''
        ''Data-sharing was announced by both sides but the writer's DATA_COUNT grew while it only had data-sharing readers; the verdict shows the transport that was measured instead.''
        None,
      entry ''datasharing-ambiguous-participant-traffic''
        ''The writer's participant did send packets to the reader's locators. Statistics are per participant, and reliable data-sharing endpoints still exchange heartbeats/acknacks over the transport, so this does not disprove zero-copy delivery; it just cannot confirm it.''
        (Some ''Enable DATA_COUNT_TOPIC in FASTDDS_STATISTICS on the observed nodes so that DATA submessages can be told from heartbeats and acknacks, or use BEST_EFFORT reliability on the pair.''),
      entry ''datasharing-no-delivery-observed''
        ''No HISTORY_LATENCY sample for this pair yet (needs HISTORY_LATENCY_TOPIC enabled and at least one published sample), so data-sharing remains unconfirmed.''
        (Some ''Start the observed nodes with HISTORY_LATENCY_TOPIC in FASTDDS_STATISTICS and let the writer publish at least one sample during the observation (longer --timeout).'')]\<close>

lemma datasharing_measured_codes_keys: "map fst datasharing_measured_codes =
  [''datasharing-confirmed-no-traffic'',
   ''datasharing-confirmed-no-data-submessages'',
   ''datasharing-ambiguous-mixed-readers'',
   ''datasharing-data-submessages-sent'',
   ''datasharing-not-used'',
   ''datasharing-ambiguous-participant-traffic'',
   ''datasharing-no-delivery-observed'']"
  unfolding datasharing_measured_codes_def entry_def list.map fst_conv by (rule refl)

subsection \<open>QoS request/offer\<close>

definition qos_codes :: "(string \<times> code_info) list" where
  \<open>qos_codes = [
      entry ''qos-incompatible-reliability''
        ''The writer offers BEST_EFFORT while the reader requests RELIABLE; Fast DDS does not match them.''
        (Some ''Offer RELIABLE on the writer or request BEST_EFFORT on the reader: the reliability of the QoS profile passed to create_publisher / create_subscription in ROS 2.''),
      entry ''qos-incompatible-durability''
        ''The writer offers a weaker durability (VOLATILE < TRANSIENT_LOCAL < TRANSIENT < PERSISTENT) than the reader requests; Fast DDS does not match them.''
        (Some ''Offer at least the requested durability on the writer (e.g. TRANSIENT_LOCAL) or request VOLATILE on the reader: the durability of the ROS 2 QoS profile.''),
      entry ''qos-incompatible-deadline''
        ''The writer's deadline period is longer than the one the reader requests; Fast DDS does not match them.''
        (Some ''Shorten the writer's deadline period to at most the reader's, or lengthen the reader's request: the deadline of the ROS 2 QoS profile.''),
      entry ''qos-incompatible-liveliness''
        ''The writer's liveliness kind is weaker (AUTOMATIC < MANUAL_BY_PARTICIPANT < MANUAL_BY_TOPIC) or its lease duration longer than the reader requests; Fast DDS does not match them.''
        (Some ''Offer at least the requested liveliness kind and a lease no longer than requested on the writer, or relax the reader's request: liveliness / liveliness_lease_duration of the ROS 2 QoS profile.''),
      entry ''qos-incompatible-ownership''
        ''Writer and reader announce different ownership kinds (SHARED / EXCLUSIVE); Fast DDS does not match them.''
        (Some ''Use the same ownership kind (SHARED or EXCLUSIVE) on both sides; ROS 2 does not expose it, so check the <ownership> element of the nodes' XML profiles.''),
      entry ''qos-incompatible-partition''
        ''No partition name of the writer matches one of the reader (an empty list is the default partition); Fast DDS does not match them.''
        (Some ''Give writer and reader a common partition name, or none on both; ROS 2 does not set partitions, so check the <partition> element of the nodes' XML profiles.''),
      entry ''qos-incompatible''
        ''The pair's QoS are incompatible, so the endpoints are never matched and no data flows; the ROS 2 side reports this as an incompatible QoS event.''
        None,
      entry ''qos-incompatible-but-delivered''
        ''HISTORY_LATENCY statistics prove that samples reached the reader although the QoS were judged incompatible: the tool's matching rules disagree with this Fast DDS version. Please report this with the --json output.''
        None]\<close>

lemma qos_codes_keys: "map fst qos_codes =
  [''qos-incompatible-reliability'',
   ''qos-incompatible-durability'',
   ''qos-incompatible-deadline'',
   ''qos-incompatible-liveliness'',
   ''qos-incompatible-ownership'',
   ''qos-incompatible-partition'',
   ''qos-incompatible'',
   ''qos-incompatible-but-delivered'']"
  unfolding qos_codes_def entry_def list.map fst_conv by (rule refl)

subsection \<open>Type\<close>

definition type_codes :: "(string \<times> code_info) list" where
  \<open>type_codes = [
      entry ''type-name-mismatch''
        ''The writer and the reader announce different type names, so Fast DDS never matches them and no data flows.''
        (Some ''Use the same message type (package and name) on both sides of the topic; ROS 2 announces it as <pkg>::msg::dds_::<Name>_.''),
      entry ''type-name-mismatch-but-delivered''
        ''HISTORY_LATENCY statistics prove that samples reached the reader although the two announce different type names: the tool's matching rules disagree with this Fast DDS version. Please report this with the --json output.''
        None,
      entry ''type-hash-mismatch''
        ''Both sides announce the same type name but a different ROS 2 type hash (REP-2011), so their message definitions differ. The subscription receives nothing. Fast DDS 2.x matches the pair and delivers the samples, which the rmw then drops, so there the transport of this row is what the wire does, not what the application gets. Fast DDS 3.x does not match the pair at all, which the reason type-information-mismatch says.''
        (Some ''Rebuild and reinstall every node against the same version of the message package (a stale install or a different distribution on one side is the usual cause); `ros2 topic info --verbose <topic>` prints the type hash of each endpoint.''),
      entry ''type-information-mismatch''
        ''The writer and the reader announce the same type name, but their XTypes TypeInformation describes different types: neither the complete nor the minimal type identifiers agree. Fast DDS 3.x matches on those identifiers when both sides announce them, so it never matches this pair and no data flows. A peer created with fastdds.type_propagation=minimal_bandwidth announces only the minimal identifier, which leaves out type names and annotations but not the member layout.''
        (Some ''Build both sides from the same type definition - the same members with the same names, types and order, and the same extensibility (ROS 2 generates FINAL types; a DynamicType registered in Fast DDS is APPENDABLE unless the builder says otherwise).''),
      entry ''type-information-mismatch-but-delivered''
        ''HISTORY_LATENCY statistics prove that samples reached the reader although the TypeInformation of the two describes different types: the tool's matching rules disagree with this Fast DDS version. Please report this with the --json output.''
        None,
      entry ''type-names-differ-same-type''
        ''The writer and the reader announce different type names, but their XTypes TypeInformation describes the same type (the complete or the minimal type identifiers agree). Fast DDS 3.x matches on those identifiers when both sides announce them and ignores the names, so the pair is matched.''
        None]\<close>

lemma type_codes_keys: "map fst type_codes =
  [''type-name-mismatch'',
   ''type-name-mismatch-but-delivered'',
   ''type-hash-mismatch'',
   ''type-information-mismatch'',
   ''type-information-mismatch-but-delivered'',
   ''type-names-differ-same-type'']"
  unfolding type_codes_def entry_def list.map fst_conv by (rule refl)

subsection \<open>Topics without pairs\<close>

definition unpaired_codes :: "(string \<times> code_info) list" where
  \<open>unpaired_codes = [
      entry ''no-matching-writer''
        ''No publisher was discovered for this topic.''
        (Some ''Start a publisher on this topic, or check the topic name, namespace and remappings of the node expected to publish it.''),
      entry ''no-matching-reader''
        ''No subscription was discovered for this topic.''
        (Some ''Start a subscription on this topic, or check the topic name, namespace and remappings of the node expected to subscribe to it.'')]\<close>

lemma unpaired_codes_keys: "map fst unpaired_codes =
  [''no-matching-writer'',
   ''no-matching-reader'']"
  unfolding unpaired_codes_def entry_def list.map fst_conv by (rule refl)

subsection \<open>rmw native-buffer companion topics\<close>

definition buffer_topic_codes :: "(string \<times> code_info) list" where
  \<open>buffer_topic_codes = [
      entry ''buffer-companion-folded''
        ''rmw_fastrtps_cpp (ROS 2 Lyrical and later) gives a writer or reader of a type with an unbounded uint8[] field a companion on the hidden topic <topic>/_buf_cpu and sends the samples there whenever every subscription supports native buffers; the statistics counters of the companions are added to this pair.''
        None,
      entry ''buffer-companion''
        ''This is a native-buffer companion topic (<topic>/_buf_cpu) of rmw_fastrtps_cpp: its endpoints belong to the writers and readers of the parent topic in the same participants, whose pairs also count its statistics. The default view hides it; --all shows it with its own counters.''
        None,
      entry ''buffer-companion-unmatched''
        ''An endpoint on this <topic>/_buf_cpu topic has no single writer or reader of the parent topic with the same type in its participant, so its statistics counters are not added to a parent pair.''
        (Some ''Nothing needs to change in the nodes: read the counters of this topic together with those of the writer or reader of the parent topic (the name without /_buf_cpu) in the same participant.'')]\<close>

lemma buffer_topic_codes_keys: "map fst buffer_topic_codes =
  [''buffer-companion-folded'',
   ''buffer-companion'',
   ''buffer-companion-unmatched'']"
  unfolding buffer_topic_codes_def entry_def list.map fst_conv by (rule refl)

subsection \<open>Measured traffic\<close>

definition traffic_codes :: "(string \<times> code_info) list" where
  \<open>traffic_codes = [
      entry ''measured-udpv4-traffic''
        ''Statistics show RTPS packets from the writer's participant to the reader's UDPv4 locator.''
        None,
      entry ''measured-udpv6-traffic''
        ''Statistics show RTPS packets from the writer's participant to the reader's UDPv6 locator.''
        None,
      entry ''measured-tcpv4-traffic''
        ''Statistics show RTPS packets from the writer's participant to the reader's TCPv4 locator.''
        None,
      entry ''measured-tcpv6-traffic''
        ''Statistics show RTPS packets from the writer's participant to the reader's TCPv6 locator.''
        None,
      entry ''measured-shm-traffic''
        ''Statistics show RTPS packets from the writer's participant to the reader's SHM locator.''
        None,
      entry ''measured-unknown-traffic''
        ''Statistics show RTPS packets to a locator of unknown kind.''
        None,
      entry ''measured-transport-mismatch''
        ''The transport predicted from discovery data differs from the locator kind(s) that actually carried packets. Please report this with the --json output.''
        None,
      entry ''measured-locator-mismatch''
        ''The locator the tool selected from the reader's announced locators carried no packets; the traffic went to another locator of the same kind that the reader also announced - for example a multi-homed host reached over a different interface.''
        (Some ''If one interface is intended, restrict the reader's participant to it with an <interfaceWhiteList> in the <transport_descriptor> of its XML profile; otherwise nothing needs to change.'')]\<close>

lemma traffic_codes_keys: "map fst traffic_codes =
  [''measured-udpv4-traffic'',
   ''measured-udpv6-traffic'',
   ''measured-tcpv4-traffic'',
   ''measured-tcpv6-traffic'',
   ''measured-shm-traffic'',
   ''measured-unknown-traffic'',
   ''measured-transport-mismatch'',
   ''measured-locator-mismatch'']"
  unfolding traffic_codes_def entry_def list.map fst_conv by (rule refl)

subsection \<open>Statistics availability\<close>

definition availability_codes :: "(string \<times> code_info) list" where
  \<open>availability_codes = [
      entry ''stats-writer-instance-limit-suspected''
        ''The writer's participant reports traffic to 10 or more locators but none to this reader. Before Fast DDS 3.5 the statistics DataWriter keeps the default resource limit of 10 instances (one per destination locator), so counters for further locators are never published.''
        (Some ''Start the observed nodes with FASTRTPS_DEFAULT_PROFILES_FILE (Fast DDS 2.x) or FASTDDS_DEFAULT_PROFILES_FILE (3.x, where ROS 2 nodes also accept FASTRTPS_) pointing at this package's config/statistics.xml (a data_writer profile per statistics alias whose <resourceLimitsQos> sets max_instances to 0).''),
      entry ''delivered-without-measured-traffic''
        ''HISTORY_LATENCY statistics prove that samples reached the reader, but RTPS_SENT reported no packets to any of the reader's locators during the observation, so the transport that carried them could not be measured (seen with large samples over SHM on slow machines).''
        (Some ''Repeat with a longer --timeout so that RTPS_SENT catches up with the delivery; if it persists, the transport of this pair cannot be measured.''),
      entry ''no-traffic-observed''
        ''The writer's participant publishes statistics but sent no packets to any locator of the reader during the observation window. On a large system it can also mean that the tool did not receive the samples that would have shown the traffic: the document-level stats-samples-lost warning and stats.samples_lost say whether any were lost (the counters are shared by all statistics readers, so the loss cannot be attributed to this pair).''
        (Some ''Make the writer publish during the observation (an idle topic has nothing to measure), or use a longer --timeout.''),
      entry ''stats-not-enabled-on-writer''
        ''No statistics were received from the writer's participant: it was started without FASTDDS_STATISTICS, its Fast DDS has no statistics module (ROS 2 Humble), or it has no transport in common with the tool's statistics readers, which announce no SHM locator (a participant with the SHM transport only).''
        (Some (''Start the writer's node with '' @ kStatsEnv @ '' set before it creates its participant.'')),
      entry ''latency-clock-skew-suspected''
        ''The mean HISTORY_LATENCY of this pair is negative: the reader's host clock is behind the writer's. The latency is write time on the writer's host minus notification time on the reader's host, so across hosts it includes their clock offset.''
        (Some ''Synchronize the clocks of the two hosts (chrony / PTP), or read the latency only between nodes on one host.''),
      entry ''rtps-packets-lost''
        ''The reader's participant reported RTPS packets from the writer's participant to the reader's unicast locators as lost (RTPS_LOST, sequence-number gaps) during the observation: the link drops packets. The count covers all traffic between the two participants (other topics and discovery included), so every pair between them shows it. Reliable pairs recover the samples by resends (RESENT_DATAS), best-effort pairs lose them.''
        (Some ''Check the link (Wi-Fi, MTU, switch), raise the socket buffers (<sendBufferSize> / <receiveBufferSize> of the transport descriptor, net.core.rmem_max), and use RELIABLE reliability where samples must not be lost.''),
      entry ''rtps-sent-absent''
        ''Pairs whose deliveries HISTORY_LATENCY proves show no measured packet, and no lost statistics sample explains it (stats.pairs_delivered_absent of stats.pairs_delivered): the tool never saw an RTPS_SENT instance for the pair, or no counter sample was lost at all. The RTPS_SENT samples did not arrive in time: the statistics DataWriters are created in pull mode on every Fast DDS version, so they deliver on their periodic heartbeat (3 s by default) and the counters stall for seconds (#152, #201). The tool's readers cannot change that; the writers' profile can. Pairs that cannot be measured at all - data-sharing and intra-process - are not counted here.''
        (Some ''Start the observed nodes with the installed config/statistics.xml of this package (FASTDDS_DEFAULT_PROFILES_FILE, or FASTRTPS_DEFAULT_PROFILES_FILE on older Fast DDS): it puts the statistics writers in push mode and shortens their heartbeat period. A longer --timeout also lets more of the stalled samples arrive.''),
      entry ''stats-samples-lost''
        ''The tool's statistics readers lost counter samples: the writers' keep-last history overwrote them before the tool read them, or a reader resource limit refused them - and at least one pair whose deliveries HISTORY_LATENCY proves shows no measured packet (stats.pairs_delivered_unmeasured of stats.pairs_delivered). The counters are cumulative and a measurement is last - first, so a lost sample alone costs nothing; it costs a measurement when the RTPS_SENT samples of a pair's locators did not arrive, and only a delivery proof tells that from an idle pair. The JSON document counts the losses in stats.samples_lost and stats.samples_rejected whether they warn or not. Two parts are excluded and never warn: stats.samples_lost_at_start, the burst from before the readers had matched the writers, and stats.samples_lost_latency, the gaps HISTORY_LATENCY's best-effort reader reports (#141) - those coarsen the LATENCY of a pair instead of costing its measurement.''
        (Some ''Enable statistics on fewer nodes, or keep FASTDDS_STATISTICS to the aliases you need (for example RTPS_SENT_TOPIC;RTPS_LOST_TOPIC). A longer --timeout does not help: it collects more of the loss, not less.'')]\<close>

lemma availability_codes_keys: "map fst availability_codes =
  [''stats-writer-instance-limit-suspected'',
   ''delivered-without-measured-traffic'',
   ''no-traffic-observed'',
   ''stats-not-enabled-on-writer'',
   ''latency-clock-skew-suspected'',
   ''rtps-packets-lost'',
   ''rtps-sent-absent'',
   ''stats-samples-lost'']"
  unfolding availability_codes_def entry_def list.map fst_conv by (rule refl)

subsection \<open>Shared memory of the environment\<close>

definition shm_codes :: "(string \<times> code_info) list" where
  \<open>shm_codes = [
      entry ''shm-stale-files''
        ''Fast DDS files in the shared-memory directory whose lock nobody holds: their owner process ended without cleaning up (a crash or a kill). They keep consuming /dev/shm.''
        (Some ''Run 'fastdds shm clean' to remove the files whose owner is gone.''),
      entry ''shm-nearly-full''
        ''The shared-memory directory is at least 90% full or has less than 16 MB free. Fast DDS cannot create its segment when /dev/shm is full, so participants fail to start or fall back to UDP.''
        (Some ''Free /dev/shm ('fastdds shm clean' removes stale Fast DDS files) or enlarge it; Docker's default is only 64 MB, so start the container with --shm-size or --ipc=host.''),
      entry ''shm-not-visible''
        ''Observed nodes announce SHM locators that are not open in this process's shared-memory directory (nobody holds the port's lock, the port number collides with the tool's own, or the node has another host id): they run in another IPC namespace or on another host, so the shared-memory figures describe this environment, not theirs, and SHM cannot be used between them and here. Nodes with the same host id in different IPC namespaces still pick SHM between themselves and lose every message; their pairs get shm-ipc-namespace-split when the nodes announce the same SHM port number or the tool shares the IPC namespace of one of them, and cannot be checked from here otherwise.''
        (Some ''Run the tool where the nodes run (same host and IPC namespace: the same container, or --ipc=host on both) if the shared-memory line should describe their /dev/shm.'')]\<close>

lemma shm_codes_keys: "map fst shm_codes =
  [''shm-stale-files'',
   ''shm-nearly-full'',
   ''shm-not-visible'']"
  unfolding shm_codes_def entry_def list.map fst_conv by (rule refl)

subsection \<open>The table and its lookups\<close>

definition explanation_entries :: "(string \<times> code_info) list" where
  "explanation_entries = selection_codes @ datasharing_codes @ datasharing_measured_codes @ qos_codes @ type_codes @ unpaired_codes @ buffer_topic_codes @ traffic_codes @ availability_codes @ shm_codes"

text \<open>A \<open>std::map\<close> built from a list keeps the first entry of a key.\<close>

definition insert_first :: "'k::linorder \<times> 'v \<Rightarrow> ('k, 'v) omap \<Rightarrow> ('k, 'v) omap" where
  "insert_first e m = (case om_get m (fst e) of None \<Rightarrow> om_put (fst e) (snd e) m | Some _ \<Rightarrow> m)"

definition explanations :: "(string, code_info) omap" where
  "explanations = fold insert_first explanation_entries []"

definition explain :: "string \<Rightarrow> string" where
  "explain code = (case om_get explanations code of None \<Rightarrow> ''(no description)''
     | Some i \<Rightarrow> ci_description i)"

definition remedy :: "string \<Rightarrow> string option" where
  "remedy code = (case om_get explanations code of None \<Rightarrow> None | Some i \<Rightarrow> ci_remedy i)"

definition known_codes :: "string list" where
  "known_codes = map fst explanations"

lemma insert_first_ok: "om_ok m \<Longrightarrow> om_ok (insert_first e m)"
  by (simp add: insert_first_def split: option.split)

lemma insert_first_get:
  "om_ok m \<Longrightarrow> om_get (insert_first e m) k =
     (case om_get m k of None \<Rightarrow> if k = fst e then Some (snd e) else None | Some v \<Rightarrow> Some v)"
  by (auto simp: insert_first_def split: option.split)

lemma fold_insert_first:
  "om_ok m \<Longrightarrow> om_ok (fold insert_first es m) \<and>
   om_get (fold insert_first es m) k = (case om_get m k of None \<Rightarrow> map_of es k | Some v \<Rightarrow> Some v)"
proof (induction es arbitrary: m)
  case Nil
  then show ?case by (simp split: option.split)
next
  case (Cons e es)
  then show ?case
    using Cons.IH [OF insert_first_ok [OF Cons.prems]] Cons.prems
    by (cases e) (auto simp: insert_first_get split: option.split)
qed

lemma explanations_ok: "om_ok explanations"
  and explanations_get: "om_get explanations k = map_of explanation_entries k"
  using fold_insert_first [of "[]" explanation_entries k] by (simp_all add: explanations_def)

text \<open>The known codes, as a list to compute with.\<close>

definition code_list :: "string list" where
  "code_list =
    [''same-host-guid'',
     ''different-host'',
     ''both-shm-locators'',
     ''writer-no-shm-locator'',
     ''reader-no-shm-locator'',
     ''shm-locators-ignored-across-hosts'',
     ''shm-ipc-namespace-split'',
     ''shm-port-collision'',
     ''shm-reader-port-not-visible'',
     ''shm-writer-port-not-visible'',
     ''datasharing-reader-segment-not-visible'',
     ''datasharing-writer-segment-not-visible'',
     ''shm-ipc-namespace-split-but-delivered'',
     ''shm-ipc-namespace-split-but-non-shm-traffic'',
     ''common-udpv4-locator'',
     ''common-udpv6-locator'',
     ''common-tcpv4-locator'',
     ''common-tcpv6-locator'',
     ''no-common-transport'',
     ''host-id-match-but-ip-differs'',
     ''same-host-locators-hidden'',
     ''datasharing-disabled-writer'',
     ''datasharing-disabled-reader'',
     ''datasharing-qos-unknown'',
     ''datasharing-qos-enabled-both'',
     ''datasharing-domain-ids-match'',
     ''datasharing-domain-ids-unknown'',
     ''datasharing-domain-ids-mismatch'',
     ''datasharing-unverified-by-traffic'',
     ''intra-process'',
     ''datasharing-confirmed-no-traffic'',
     ''datasharing-confirmed-no-data-submessages'',
     ''datasharing-ambiguous-mixed-readers'',
     ''datasharing-data-submessages-sent'',
     ''datasharing-not-used'',
     ''datasharing-ambiguous-participant-traffic'',
     ''datasharing-no-delivery-observed'',
     ''qos-incompatible-reliability'',
     ''qos-incompatible-durability'',
     ''qos-incompatible-deadline'',
     ''qos-incompatible-liveliness'',
     ''qos-incompatible-ownership'',
     ''qos-incompatible-partition'',
     ''qos-incompatible'',
     ''qos-incompatible-but-delivered'',
     ''type-name-mismatch'',
     ''type-name-mismatch-but-delivered'',
     ''type-hash-mismatch'',
     ''type-information-mismatch'',
     ''type-information-mismatch-but-delivered'',
     ''type-names-differ-same-type'',
     ''no-matching-writer'',
     ''no-matching-reader'',
     ''buffer-companion-folded'',
     ''buffer-companion'',
     ''buffer-companion-unmatched'',
     ''measured-udpv4-traffic'',
     ''measured-udpv6-traffic'',
     ''measured-tcpv4-traffic'',
     ''measured-tcpv6-traffic'',
     ''measured-shm-traffic'',
     ''measured-unknown-traffic'',
     ''measured-transport-mismatch'',
     ''measured-locator-mismatch'',
     ''stats-writer-instance-limit-suspected'',
     ''delivered-without-measured-traffic'',
     ''no-traffic-observed'',
     ''stats-not-enabled-on-writer'',
     ''latency-clock-skew-suspected'',
     ''rtps-packets-lost'',
     ''rtps-sent-absent'',
     ''stats-samples-lost'',
     ''shm-stale-files'',
     ''shm-nearly-full'',
     ''shm-not-visible'']"

lemma entries_keys: "map fst explanation_entries = code_list"
  unfolding explanation_entries_def map_append code_list_def
    selection_codes_keys
    datasharing_codes_keys
    datasharing_measured_codes_keys
    qos_codes_keys
    type_codes_keys
    unpaired_codes_keys
    buffer_topic_codes_keys
    traffic_codes_keys
    availability_codes_keys
    shm_codes_keys
  by simp

lemma known_codes_set: "set known_codes = set code_list"
proof -
  have "set known_codes = {k. om_get explanations k \<noteq> None}"
    by (simp add: known_codes_def om_keys [OF explanations_ok])
  also have "\<dots> = fst ` set explanation_entries"
    unfolding explanations_get by (simp add: map_of_eq_None_iff set_eq_iff)
  finally show ?thesis using entries_keys by (metis list.set_map)
qed

end
