(* ===== verification/Codes_Props.thy ===== *)
theory Codes_Props
  imports Codes Measure_Props Judge_Props Topics_Props Stats_Rules
begin

text \<open>
  Every code the decision, the measurement and the statistics rules can attach to a pair, a topic
  or the document is a known code, so it has a description; the listing of known codes is sorted
  and complete.
\<close>

lemma code_known [simp]:
  "''same-host-guid'' \<in> set known_codes"
  "''different-host'' \<in> set known_codes"
  "''both-shm-locators'' \<in> set known_codes"
  "''writer-no-shm-locator'' \<in> set known_codes"
  "''reader-no-shm-locator'' \<in> set known_codes"
  "''shm-locators-ignored-across-hosts'' \<in> set known_codes"
  "''shm-ipc-namespace-split'' \<in> set known_codes"
  "''shm-port-collision'' \<in> set known_codes"
  "''shm-reader-port-not-visible'' \<in> set known_codes"
  "''shm-writer-port-not-visible'' \<in> set known_codes"
  "''datasharing-reader-segment-not-visible'' \<in> set known_codes"
  "''datasharing-writer-segment-not-visible'' \<in> set known_codes"
  "''shm-ipc-namespace-split-but-delivered'' \<in> set known_codes"
  "''shm-ipc-namespace-split-but-non-shm-traffic'' \<in> set known_codes"
  "''common-udpv4-locator'' \<in> set known_codes"
  "''common-udpv6-locator'' \<in> set known_codes"
  "''common-tcpv4-locator'' \<in> set known_codes"
  "''common-tcpv6-locator'' \<in> set known_codes"
  "''no-common-transport'' \<in> set known_codes"
  "''host-id-match-but-ip-differs'' \<in> set known_codes"
  "''same-host-locators-hidden'' \<in> set known_codes"
  "''datasharing-disabled-writer'' \<in> set known_codes"
  "''datasharing-disabled-reader'' \<in> set known_codes"
  "''datasharing-qos-unknown'' \<in> set known_codes"
  "''datasharing-qos-enabled-both'' \<in> set known_codes"
  "''datasharing-domain-ids-match'' \<in> set known_codes"
  "''datasharing-domain-ids-unknown'' \<in> set known_codes"
  "''datasharing-domain-ids-mismatch'' \<in> set known_codes"
  "''datasharing-unverified-by-traffic'' \<in> set known_codes"
  "''intra-process'' \<in> set known_codes"
  "''datasharing-confirmed-no-traffic'' \<in> set known_codes"
  "''datasharing-confirmed-no-data-submessages'' \<in> set known_codes"
  "''datasharing-ambiguous-mixed-readers'' \<in> set known_codes"
  "''datasharing-data-submessages-sent'' \<in> set known_codes"
  "''datasharing-not-used'' \<in> set known_codes"
  "''datasharing-ambiguous-participant-traffic'' \<in> set known_codes"
  "''datasharing-no-delivery-observed'' \<in> set known_codes"
  "''qos-incompatible-reliability'' \<in> set known_codes"
  "''qos-incompatible-durability'' \<in> set known_codes"
  "''qos-incompatible-deadline'' \<in> set known_codes"
  "''qos-incompatible-liveliness'' \<in> set known_codes"
  "''qos-incompatible-ownership'' \<in> set known_codes"
  "''qos-incompatible-partition'' \<in> set known_codes"
  "''qos-incompatible'' \<in> set known_codes"
  "''qos-incompatible-but-delivered'' \<in> set known_codes"
  "''type-name-mismatch'' \<in> set known_codes"
  "''type-name-mismatch-but-delivered'' \<in> set known_codes"
  "''type-hash-mismatch'' \<in> set known_codes"
  "''type-information-mismatch'' \<in> set known_codes"
  "''type-information-mismatch-but-delivered'' \<in> set known_codes"
  "''type-names-differ-same-type'' \<in> set known_codes"
  "''no-matching-writer'' \<in> set known_codes"
  "''no-matching-reader'' \<in> set known_codes"
  "''buffer-companion-folded'' \<in> set known_codes"
  "''buffer-companion'' \<in> set known_codes"
  "''buffer-companion-unmatched'' \<in> set known_codes"
  "''measured-udpv4-traffic'' \<in> set known_codes"
  "''measured-udpv6-traffic'' \<in> set known_codes"
  "''measured-tcpv4-traffic'' \<in> set known_codes"
  "''measured-tcpv6-traffic'' \<in> set known_codes"
  "''measured-shm-traffic'' \<in> set known_codes"
  "''measured-unknown-traffic'' \<in> set known_codes"
  "''measured-transport-mismatch'' \<in> set known_codes"
  "''measured-locator-mismatch'' \<in> set known_codes"
  "''stats-writer-instance-limit-suspected'' \<in> set known_codes"
  "''delivered-without-measured-traffic'' \<in> set known_codes"
  "''no-traffic-observed'' \<in> set known_codes"
  "''stats-not-enabled-on-writer'' \<in> set known_codes"
  "''latency-clock-skew-suspected'' \<in> set known_codes"
  "''rtps-packets-lost'' \<in> set known_codes"
  "''rtps-sent-absent'' \<in> set known_codes"
  "''stats-samples-lost'' \<in> set known_codes"
  "''shm-stale-files'' \<in> set known_codes"
  "''shm-nearly-full'' \<in> set known_codes"
  "''shm-not-visible'' \<in> set known_codes"
  unfolding known_codes_set code_list_def by (simp_all only: list.set insert_iff simp_thms)

text \<open>
  The listing of the known codes is in strictly ascending order, without duplicates, it is the
  set of the codes the table describes, and only a known code has a remedy.
\<close>

theorem known_codes_exact:
  "sorted_wrt (<) known_codes \<and> set known_codes = set (map fst explanation_entries) \<and>
   {c. remedy c \<noteq> None} \<subseteq> set known_codes"
proof -
  have "sorted_wrt (<) known_codes" using explanations_ok by (simp add: known_codes_def om_ok_def)
  moreover have "set known_codes = set (map fst explanation_entries)"
    by (simp only: known_codes_set entries_keys)
  moreover have "set known_codes = {c. om_get explanations c \<noteq> None}"
    unfolding known_codes_def set_map by (rule om_keys [OF explanations_ok])
  then have "{c. remedy c \<noteq> None} \<subseteq> set known_codes"
    by (auto simp: remedy_def split: option.splits)
  ultimately show ?thesis by blast
qed

subsection \<open>Codes of a verdict\<close>

definition codes_known :: "verdict \<Rightarrow> bool" where
  "codes_known v \<longleftrightarrow> set (v_reasons v) \<union> set (v_warnings v) \<subseteq> set known_codes"

lemma codes_known_ops:
  "codes_known (reason c v) \<longleftrightarrow> c \<in> set known_codes \<and> codes_known v"
  "codes_known (warning c v) \<longleftrightarrow> c \<in> set known_codes \<and> codes_known v"
  "codes_known (reasons cs v) \<longleftrightarrow> list_all (\<lambda>c. c \<in> set known_codes) cs \<and> codes_known v"
  by (auto simp: codes_known_def code_sel list_all_iff)

lemma codes_known_fields [simp]:
  "codes_known (v\<lparr>v_transport := t\<rparr>) = codes_known v"
  "codes_known (v\<lparr>v_confidence := c\<rparr>) = codes_known v"
  "codes_known (v\<lparr>v_locator := l\<rparr>) = codes_known v"
  "codes_known (v\<lparr>v_locator_multicast := b\<rparr>) = codes_known v"
  "codes_known verdict0"
  by (simp_all add: codes_known_def verdict0_def)

lemma replace_code_set: "set (replace_code cs a b) \<subseteq> insert b (set cs)"
  by (induction cs) auto

lemma codes_known_replace:
  "codes_known v \<Longrightarrow> b \<in> set known_codes \<Longrightarrow> codes_known (v\<lparr>v_reasons := replace_code (v_reasons v) a b\<rparr>)"
  using replace_code_set [of "v_reasons v" a b] by (auto simp: codes_known_def)

lemma codes_known_filter:
  "codes_known v \<Longrightarrow> codes_known (v\<lparr>v_reasons := filter P (v_reasons v)\<rparr>)"
  by (auto simp: codes_known_def)

lemma codes_known_ds: "codes_known v \<Longrightarrow> c \<in> set known_codes \<Longrightarrow> codes_known (ds_code c v)"
  unfolding ds_code_def by (rule codes_known_replace)

lemma base_codes_known: "set base_codes \<subseteq> set known_codes"
  by (simp add: base_codes_def)

lemma transport_codes_known: "measured_reason t \<in> set known_codes" "reason_for k \<in> set known_codes"
  by (cases t; simp) (cases k; simp)

lemma qos_verdict_known: "codes_known (qos_verdict (qos_incompatibilities fnm w r))"
  using qos_verdict_reasons [of fnm w r] base_codes_known
  by (auto simp: codes_known_def qos_verdict_def code_sel verdict0_def)

lemma split_codes_known:
  "list_all (\<lambda>c. c \<in> set known_codes) (ipc_split_reasons w r)"
  "list_all (\<lambda>c. c \<in> set known_codes) (datasharing_split_reasons w r)"
  using ipc_split_reasons_codes datasharing_split_reasons_codes base_codes_known
  unfolding list_all_iff by blast+

lemma ip_block_known: "codes_known v \<Longrightarrow> codes_known (ip_block w r v)"
  by (simp add: ip_block_def codes_known_ops Let_def)

lemma data_sharing_block_known:
  "codes_known v \<Longrightarrow> case_sum codes_known codes_known (data_sharing_block w r v)"
  using split_codes_known [of w r] by (simp add: data_sharing_block_def codes_known_ops Let_def)

lemma shm_block_known: "codes_known v \<Longrightarrow> case_sum codes_known codes_known (shm_block w r v)"
  using split_codes_known [of w r]
  by (simp add: shm_block_def codes_known_ops Let_def split: option.split)

lemma network_block_known: "codes_known v \<Longrightarrow> codes_known (network_block w r v)"
  by (simp add: network_block_def codes_known_ops transport_codes_known split: option.split)

lemma decide_same_type_known: "codes_known (decide_same_type fnm w r)"
proof -
  have "codes_known (ip_block w r (reason ''same-host-guid'' verdict0))"
    by (intro ip_block_known) (simp add: codes_known_ops)
  from data_sharing_block_known [OF this] shm_block_known network_block_known qos_verdict_known
  show ?thesis
    unfolding decide_same_type_def Let_def
    by (auto simp: codes_known_ops other_host_block_def Let_def split: sum.split)
      (metis sum.case)+
qed

lemma decide_known: "codes_known (decide fnm w r)"
proof -
  have t: "codes_known (type_verdict w r)"
    by (simp add: type_verdict_def codes_known_ops Let_def)
  have "codes_known v \<Longrightarrow> codes_known (if b then reason ''type-names-differ-same-type'' v else v)"
    "codes_known v \<Longrightarrow> codes_known (if b then warning ''type-hash-mismatch'' v else v)"
    "codes_known v \<Longrightarrow> codes_known (if b then v\<lparr>v_reasons := replace_code (v_reasons v) x ''intra-process''\<rparr> else v)"
    for v b x
    by (simp_all add: codes_known_ops codes_known_replace)
  then show ?thesis
    unfolding decide_def Let_def using t decide_same_type_known by simp
qed

subsection \<open>Codes of a judged verdict\<close>

lemma reasons_known: "codes_known v \<Longrightarrow> codes_known (reasons (map measured_reason ts) v)"
  by (simp add: codes_known_ops transport_codes_known list_all_iff)

lemma judge_known:
  assumes "codes_known v"
  shows "codes_known (judge stats n ds m v)"
proof -
  have u: "codes_known (judge_unmatched m v)"
    using assms by (simp add: judge_unmatched_def codes_known_ops)
  have s: "codes_known (judge_split m v)"
    using reasons_known [OF assms] by (simp add: judge_split_def codes_known_ops Let_def)
  let ?v = "v\<lparr>v_reasons := filter (\<lambda>c. c \<noteq> ''intra-process'') (v_reasons v)\<rparr>"
  have f: "codes_known ?v" by (rule codes_known_filter [OF assms])
  then have d: "codes_known (judge_datasharing ds m ?v)"
    unfolding judge_datasharing_def by (simp add: codes_known_ds reasons_known codes_known_ops(2))
  have t: "codes_known (judge_transport stats n m ?v)"
    using f reasons_known [OF f, of "m_transports m"] by (simp add: judge_transport_def codes_known_ops(2) Let_def)
  show ?thesis
    unfolding judge_def Let_def using assms u s d t by (simp add: codes_known_ops)
qed

lemma blocks_known:
  "codes_known (p_verdict (fst ps)) \<Longrightarrow> codes_known (p_verdict (fst (reliability_block stats w r ps)))"
  "codes_known (p_verdict (fst ps)) \<Longrightarrow> codes_known (p_verdict (fst (latency_block ps)))"
  by (simp_all add: reliability_block_def latency_block_def codes_known_ops Let_def)

definition pairs_known :: "topic_summary \<Rightarrow> bool" where
  "pairs_known t \<longleftrightarrow> list_all (\<lambda>p. codes_known (p_verdict p)) (t_pairs t) \<and>
     set (t_unmatched_reasons t) \<subseteq> set known_codes"

lemma buffer_codes_known: "list_all (\<lambda>c. c \<in> set known_codes) (buffer_codes es)"
  by (simp add: buffer_codes_def Let_def)

lemma new_pair_known: "codes_known (p_verdict (new_pair fnm eps w r))"
  by (simp add: new_pair_def codes_known_ops decide_known buffer_codes_known)

lemma finish_topic_known:
  "t_pairs t = [] \<Longrightarrow> t_unmatched_reasons t = [] \<Longrightarrow> pairs_known (finish_topic fnm eps t)"
  using buffer_codes_known
  by (auto simp: pairs_known_def finish_topic_def unmatched_reasons_of_def list_all_iff new_pair_known
      Let_def split: if_splits)

lemma summarize_known:
  assumes "sorts_by t_display_topic srt"
  shows "list_all pairs_known (summarize fnm srt eps)"
proof -
  define fin where "fin = map (\<lambda>kv. finish_topic fnm eps (snd kv)) (by_topic eps)"
  have "om_get (by_topic eps) (fst kv) = Some (snd kv)" if "kv \<in> set (by_topic eps)" for kv
    using that om_ok_distinct [OF by_topic_ok] by (metis map_of_eq_Some_iff prod.collapse)
  then have "pairs_known t" if "t \<in> set fin" for t
    using that by_topic_entry by (fastforce simp: fin_def intro: finish_topic_known)
  moreover have "set (srt fin) = set fin"
    using assms by (metis sorts_by_def mset_eq_setD)
  moreover have "map pairs_known (classify_topics (srt fin)) = map pairs_known (srt fin)"
    by (rule map_classify) (simp add: pairs_known_def same_identity_sel)
  then have "pairs_known ` set (classify_topics (srt fin)) = pairs_known ` set (srt fin)"
    by (metis list.set_map)
  ultimately show ?thesis
    unfolding summarize_def fin_def [symmetric] list_all_iff by (metis (no_types, lifting) imageE image_eqI)
qed

lemma measure_pair_known:
  assumes "list_all (\<lambda>p. codes_known (p_verdict p)) (t_pairs (ts_topic st))" "j < length (t_pairs (ts_topic st))"
  shows "list_all (\<lambda>p. codes_known (p_verdict p)) (t_pairs (ts_topic (measure_pair eps stats j st))) \<and>
    length (t_pairs (ts_topic (measure_pair eps stats j st))) = length (t_pairs (ts_topic st)) \<and>
    t_unmatched_reasons (ts_topic (measure_pair eps stats j st)) = t_unmatched_reasons (ts_topic st)"
proof -
  define p where "p = t_pairs (ts_topic st) ! j"
  define w where "w = eps ! p_writer p"
  define r where "r = eps ! p_reader p"
  define m where "m = measure_rate stats w r (measure_delivery stats w r
    ((p_measured p)\<lparr>m_available := participant_guid_prefix w \<in> participants_with_stats stats\<rparr>))"
  define ps where "ps = latency_block (reliability_block stats w r (p\<lparr>p_measured := m\<rparr>, st))"
  have un: "t_unmatched_reasons (ts_topic (snd ps)) = t_unmatched_reasons (ts_topic st)"
    by (simp add: ps_def latency_block_def reliability_block_def Let_def)
  have tp: "t_pairs (ts_topic (snd ps)) = t_pairs (ts_topic st)"
    by (simp add: ps_def latency_block_sel reliability_block_sel)
  have "codes_known (p_verdict p)" using assms by (simp add: list_all_length p_def)
  then have kp: "codes_known (p_verdict (fst ps))"
    unfolding ps_def by (intro blocks_known) simp
  define m2 where "m2 = measure_traffic stats w r (measure_data_count stats w (p_measured (fst ps)))"
  define v where "v = judge stats
      (case om_get (count_per_source (traffic stats)) (participant_guid_prefix w) of None \<Rightarrow> 0 | Some n \<Rightarrow> n)
      (all_datasharing (p_writer (fst ps)) ((t_pairs (ts_topic (snd ps)))[j := (fst ps)\<lparr>p_measured := m2\<rparr>]))
      m2 (p_verdict (fst ps))"
  define p' where "p' = (fst ps)\<lparr>p_measured := m2, p_verdict := v\<rparr>"
  have p': "measure_pair eps stats j st =
      (snd ps)\<lparr>ts_topic := (ts_topic (snd ps))\<lparr>t_pairs := (t_pairs (ts_topic (snd ps)))[j := p']\<rparr>\<rparr>"
    "codes_known (p_verdict p')"
    unfolding measure_pair_def p_def [symmetric] w_def [symmetric] r_def [symmetric] Let_def m_def [symmetric]
    by (simp_all add: ps_def [symmetric] case_prod_beta m2_def v_def p'_def judge_known [OF kp])
  have "list_all (\<lambda>p. codes_known (p_verdict p)) ((t_pairs (ts_topic st))[j := p'])"
    using assms p'(2) by (simp add: list_all_length nth_list_update)
  then show ?thesis using un tp by (simp add: p'(1))
qed

lemma measure_topic_known: "pairs_known t \<Longrightarrow> pairs_known (measure_topic eps stats t)"
proof -
  assume t: "pairs_known t"
  have "k \<le> length (t_pairs t) \<Longrightarrow>
      (let t' = ts_topic (fold (measure_pair eps stats) [0..<k] \<lparr>ts_topic = reset_topic t, ts_seen = {}\<rparr>)
       in list_all (\<lambda>p. codes_known (p_verdict p)) (t_pairs t') \<and> length (t_pairs t') = length (t_pairs t) \<and>
          t_unmatched_reasons t' = t_unmatched_reasons t)" for k
  proof (induction k)
    case 0
    then show ?case using t by (simp add: pairs_known_def reset_topic_def)
  next
    case (Suc k)
    define st where "st = fold (measure_pair eps stats) [0..<k] \<lparr>ts_topic = reset_topic t, ts_seen = {}\<rparr>"
    from Suc have "list_all (\<lambda>p. codes_known (p_verdict p)) (t_pairs (ts_topic st))"
      "k < length (t_pairs (ts_topic st))" "length (t_pairs (ts_topic st)) = length (t_pairs t)"
      "t_unmatched_reasons (ts_topic st) = t_unmatched_reasons t"
      by (simp_all add: st_def Let_def)
    with measure_pair_known [of st k eps stats] show ?case by (simp add: st_def Let_def)
  qed
  from this [of "length (t_pairs t)"] t show ?thesis
    by (simp add: measure_topic_def pairs_known_def Let_def)
qed

text \<open>
  C22. Every reason and every warning of every pair, and every reason of a topic without pairs,
  from the summary through the measurement, is a known code with a description.
\<close>

theorem pipeline_codes_known:
  assumes "sorts_by t_display_topic srt"
  shows "list_all pairs_known (apply_stats eps stats (summarize fnm srt eps))"
  using summarize_known [OF assms] measure_topic_known
  by (simp add: apply_stats_def list_all_iff)

theorem pipeline_codes_known_witness:
  "list_all pairs_known (apply_stats ds_eps ds_stats (summarize (\<lambda>_ _. False) (sort_key t_display_topic) ds_eps))"
  by (rule pipeline_codes_known [OF sorts_by_sort_key])

end
