(* ===== verification/Spelling.thy ===== *)
theory Spelling
  imports Snapshot_Model
begin

text \<open>
  The spellings of the document: \<open>to_string\<close> and \<open>host_id_hex\<close> of \<open>src/model.cpp\<close>, the GUID text
  of \<open>src/discovery_observer.cpp\<close>, and the functions of \<open>src/parse_json.cpp\<close> that read them back.
  A \<open>ParseError\<close>, or the exception of \<open>std::stoul\<close> that \<open>parse_json\<close> turns into one, is \<open>Inl\<close> of
  its message.
\<close>

subsection \<open>Writing\<close>

fun locator_kind_text :: "locator_kind \<Rightarrow> string" where
  "locator_kind_text LocUDPv4 = ''UDPv4''"
| "locator_kind_text LocUDPv6 = ''UDPv6''"
| "locator_kind_text LocTCPv4 = ''TCPv4''"
| "locator_kind_text LocTCPv6 = ''TCPv6''"
| "locator_kind_text LocSHM = ''SHM''"
| "locator_kind_text LocInvalid = ''INVALID''"

fun transport_text :: "transport \<Rightarrow> string" where
  "transport_text UDPv4 = ''UDPv4''"
| "transport_text UDPv6 = ''UDPv6''"
| "transport_text TCPv4 = ''TCPv4''"
| "transport_text TCPv6 = ''TCPv6''"
| "transport_text SHM = ''SHM''"
| "transport_text DataSharing = ''DATA_SHARING''"
| "transport_text NoTransport = ''NONE''"

fun confidence_text :: "confidence \<Rightarrow> string" where
  "confidence_text Certain = ''certain''"
| "confidence_text Likely = ''likely''"

fun topic_kind_text :: "topic_kind \<Rightarrow> string" where
  "topic_kind_text TkTopic = ''topic''"
| "topic_kind_text TkService = ''service''"
| "topic_kind_text TkAction = ''action''"
| "topic_kind_text TkOther = ''other''"

fun group_direction_text :: "group_direction \<Rightarrow> string" where
  "group_direction_text ToServer = ''to_server''"
| "group_direction_text ToClient = ''to_client''"
| "group_direction_text DirNone = ''''"

fun data_sharing_text :: "data_sharing_kind \<Rightarrow> string" where
  "data_sharing_text DsOff = ''OFF''"
| "data_sharing_text DsOn = ''ON''"
| "data_sharing_text DsAuto = ''AUTO''"
| "data_sharing_text DsUnknown = ''UNKNOWN''"

fun key_mode_text :: "key_mode \<Rightarrow> string" where
  "key_mode_text KmNode = ''node''"
| "key_mode_text KmGuid = ''guid''"

fun shm_visibility_text :: "shm_visibility \<Rightarrow> string" where
  "shm_visibility_text Visible = ''visible''"
| "shm_visibility_text NotVisible = ''not-visible''"
| "shm_visibility_text Unprobed = ''unprobed''"

fun port_lock_text :: "port_lock \<Rightarrow> string" where
  "port_lock_text LockHeld = ''held''"
| "port_lock_text LockOwn = ''own''"
| "port_lock_text LockAbsent = ''absent''"
| "port_lock_text LockStale = ''stale''"
| "port_lock_text LockUnknown = ''unknown''"
| "port_lock_text LockUnprobed = ''unprobed''"

definition host_id_hex :: "host_id \<Rightarrow> string" where
  "host_id_hex hid = hex02 (hid ! 0) @ hex02 (hid ! 1) @ hex02 (hid ! 2) @ hex02 (hid ! 3)"

text \<open>The byte \<open>i\<close> of a sequence is followed by \<open>sep\<close>, the last one by \<open>fin\<close>.\<close>

fun hex_bytes :: "(u8 \<Rightarrow> string) \<Rightarrow> string \<Rightarrow> string \<Rightarrow> u8 list \<Rightarrow> string" where
  "hex_bytes f sep fin [] = []"
| "hex_bytes f sep fin [b] = f b @ fin"
| "hex_bytes f sep fin (b # c # bs) = f b @ sep @ hex_bytes f sep fin (c # bs)"

definition guid_to_string :: "u8 list \<Rightarrow> string" where
  "guid_to_string g = hex_bytes hex02 ''.'' ''|'' (take 12 g) @ hex_bytes hex02 ''.'' [] (drop 12 g)"

definition prefix_to_string :: "u8 list \<Rightarrow> string" where
  "prefix_to_string p = hex_bytes hex02 ''.'' [] p"

subsection \<open>Reading\<close>

definition parse_locator_kind :: "string \<Rightarrow> string + locator_kind" where
  "parse_locator_kind s =
     (if s = ''UDPv4'' then Inr LocUDPv4 else if s = ''UDPv6'' then Inr LocUDPv6
      else if s = ''TCPv4'' then Inr LocTCPv4 else if s = ''TCPv6'' then Inr LocTCPv6
      else if s = ''SHM'' then Inr LocSHM else if s = ''INVALID'' then Inr LocInvalid
      else Inl (''unknown locator kind '' @ [CHR 0x27] @ s @ [CHR 0x27]))"

definition parse_transport :: "string \<Rightarrow> string + transport" where
  "parse_transport s =
     (if s = ''UDPv4'' then Inr UDPv4 else if s = ''UDPv6'' then Inr UDPv6
      else if s = ''TCPv4'' then Inr TCPv4 else if s = ''TCPv6'' then Inr TCPv6
      else if s = ''SHM'' then Inr SHM else if s = ''DATA_SHARING'' then Inr DataSharing
      else if s = ''NONE'' then Inr NoTransport
      else Inl (''unknown transport '' @ [CHR 0x27] @ s @ [CHR 0x27]))"

definition parse_confidence :: "string \<Rightarrow> string + confidence" where
  "parse_confidence s =
     (if s = ''certain'' then Inr Certain else if s = ''likely'' then Inr Likely
      else Inl (''unknown confidence '' @ [CHR 0x27] @ s @ [CHR 0x27]))"

text \<open>The flag \<open>known\<close> is passed through, and cleared for a spelling of a later version.\<close>

definition parse_topic_kind :: "string \<Rightarrow> bool \<Rightarrow> topic_kind \<times> bool" where
  "parse_topic_kind s known =
     (if s = ''topic'' then (TkTopic, known) else if s = ''service'' then (TkService, known)
      else if s = ''action'' then (TkAction, known) else if s = ''other'' then (TkOther, known)
      else (TkOther, False))"

definition parse_group_direction :: "string \<Rightarrow> bool \<Rightarrow> group_direction \<times> bool" where
  "parse_group_direction s known =
     (if s = [] then (DirNone, known) else if s = ''to_server'' then (ToServer, known)
      else if s = ''to_client'' then (ToClient, known) else (DirNone, False))"

definition parse_data_sharing :: "string \<Rightarrow> data_sharing_kind" where
  "parse_data_sharing s =
     (if s = ''OFF'' then DsOff else if s = ''ON'' then DsOn else if s = ''AUTO'' then DsAuto
      else DsUnknown)"

definition parse_shm_visibility :: "string \<Rightarrow> shm_visibility" where
  "parse_shm_visibility s =
     (if s = ''visible'' then Visible else if s = ''not-visible'' then NotVisible else Unprobed)"

subsection \<open>Hexadecimal numbers\<close>

definition digit_value :: "char \<Rightarrow> nat option" where
  "digit_value c =
     (let n = of_char c in
      if 48 \<le> n \<and> n \<le> 57 then Some (n - 48)
      else if 97 \<le> n \<and> n \<le> 102 then Some (n - 87)
      else if 65 \<le> n \<and> n \<le> 70 then Some (n - 55) else None)"

definition is_xdigit :: "char \<Rightarrow> bool" where
  "is_xdigit c \<longleftrightarrow> digit_value c \<noteq> None"

definition hex_value :: "string \<Rightarrow> nat" where
  "hex_value s = foldl (\<lambda>n c. 16 * n + the (digit_value c)) 0 s"

definition is_space :: "char \<Rightarrow> bool" where
  "is_space c \<longleftrightarrow> c = CHR '' '' \<or> (9 \<le> (of_char c :: nat) \<and> (of_char c :: nat) \<le> 13)"

text \<open>
  \<open>std::stoul(s, nullptr, 16)\<close>: white space, a sign, an optional \<open>0x\<close> before a digit, then as many
  digits as follow. \<open>None\<close> for its two exceptions.
\<close>

definition strip_0x :: "string \<Rightarrow> string" where
  "strip_0x s = (case s of
     a # b # c # r \<Rightarrow> if a = CHR ''0'' \<and> (b = CHR ''x'' \<or> b = CHR ''X'') \<and> is_xdigit c then c # r else s
   | _ \<Rightarrow> s)"

definition stoul16 :: "string \<Rightarrow> u64 option" where
  "stoul16 s =
     (let t = dropWhile is_space s;
          neg = (t \<noteq> [] \<and> hd t = CHR ''-'');
          t = (if t \<noteq> [] \<and> (hd t = CHR ''-'' \<or> hd t = CHR ''+'') then tl t else t);
          ds = takeWhile is_xdigit (strip_0x t); n = hex_value ds
      in if ds = [] \<or> 2 ^ 64 \<le> n then None
         else Some (if neg then - of_nat n else of_nat n))"

definition to_byte :: "u64 \<Rightarrow> u8" where
  "to_byte n = ucast n"

definition parse_host_id :: "string \<Rightarrow> string + host_id" where
  "parse_host_id hex =
     (if length hex \<noteq> 8
      then Inl (''host id '' @ [CHR 0x27] @ hex @ [CHR 0x27] @ '' is not 8 hex digits'')
      else case (stoul16 (substr hex 0 2), stoul16 (substr hex 2 2), stoul16 (substr hex 4 2),
                 stoul16 (substr hex 6 2)) of
             (Some a, Some b, Some c, Some d) \<Rightarrow> Inr [to_byte a, to_byte b, to_byte c, to_byte d]
           | _ \<Rightarrow> Inl ''stoul'')"

text \<open>The scan of \<open>guid_bytes\<close>: \<open>None\<close> for the early return, else the bytes read, at most 16.\<close>

fun scan_guid :: "string \<Rightarrow> u8 list \<Rightarrow> u8 list option" where
  "scan_guid (a # b # s) out =
     (if 16 \<le> length out then Some out
      else if a = CHR ''.'' \<or> a = CHR ''|'' then scan_guid (b # s) out
      else if \<not> is_xdigit a \<or> \<not> is_xdigit b then None
      else scan_guid s (out @ [to_byte (of_nat (hex_value [a, b]))]))"
| "scan_guid s out = Some out"

definition parse_guid_bytes :: "string \<Rightarrow> u8 list" where
  "parse_guid_bytes g =
     (case scan_guid g [] of
        Some out \<Rightarrow> if length out = 16 then out else replicate 16 0
      | None \<Rightarrow> replicate 16 0)"

end
