(* ===== verification/Spelling_Props.thy ===== *)
theory Spelling_Props
  imports Spelling
begin

text \<open>
  Round trips of the document's spellings: enumerations, host ids and GUIDs are read back as they
  were written.
\<close>

text \<open>
  Every enumeration value that the document spells is read back as itself, and a known spelling
  does not clear the flag that keeps the stored classification.
\<close>

theorem enumerations_roundtrip:
  "parse_locator_kind (locator_kind_text lk) = Inr lk \<and>
   parse_transport (transport_text tr) = Inr tr \<and>
   parse_confidence (confidence_text co) = Inr co \<and>
   parse_topic_kind (topic_kind_text tk) known = (tk, known) \<and>
   parse_group_direction (group_direction_text gd) known = (gd, known) \<and>
   parse_data_sharing (data_sharing_text ds) = ds \<and>
   parse_shm_visibility (shm_visibility_text sv) = sv"
proof (intro conjI)
  show "parse_locator_kind (locator_kind_text lk) = Inr lk"
    by (cases lk) (simp_all add: parse_locator_kind_def)
  show "parse_transport (transport_text tr) = Inr tr"
    by (cases tr) (simp_all add: parse_transport_def)
  show "parse_confidence (confidence_text co) = Inr co"
    by (cases co) (simp_all add: parse_confidence_def)
  show "parse_topic_kind (topic_kind_text tk) known = (tk, known)"
    by (cases tk) (simp_all add: parse_topic_kind_def)
  show "parse_group_direction (group_direction_text gd) known = (gd, known)"
    by (cases gd) (simp_all add: parse_group_direction_def)
  show "parse_data_sharing (data_sharing_text ds) = ds"
    by (cases ds) (simp_all add: parse_data_sharing_def)
  show "parse_shm_visibility (shm_visibility_text sv) = sv"
    by (cases sv) (simp_all add: parse_shm_visibility_def)
qed

subsection \<open>Hexadecimal bytes\<close>

lemma digit_value_digit: "n < 16 \<Longrightarrow> digit_value (digit n) = Some n"
  by (simp add: digit_value_def of_char_digit)

lemma is_xdigit_digit: "n < 16 \<Longrightarrow> is_xdigit (digit n)"
  by (simp add: is_xdigit_def digit_value_digit)

lemma digit_neq:
  assumes "n < 16"
  shows "digit n \<noteq> CHR ''.''" "digit n \<noteq> CHR ''|''" "digit n \<noteq> CHR ''-''" "digit n \<noteq> CHR ''+''"
    "digit n \<noteq> CHR ''_''" "\<not> is_space (digit n)"
proof -
  have "(of_char (digit n) :: nat) \<ge> 48" "(of_char (digit n) :: nat) \<notin> {95, 124}"
    using assms by (auto simp: of_char_digit)
  then show "digit n \<noteq> CHR ''.''" "digit n \<noteq> CHR ''|''" "digit n \<noteq> CHR ''-''" "digit n \<noteq> CHR ''+''"
    "digit n \<noteq> CHR ''_''" "\<not> is_space (digit n)"
    by (auto simp: is_space_def)
qed

lemma byte_digits: "unat (b :: u8) div 16 < 16" "unat b mod 16 < 16"
  using unsigned_less [of b, where ?'a = nat] by simp_all

lemma hex_value_hex02: "hex_value (hex02 b) = unat b"
  by (simp add: hex_value_def hex02_def digit_value_digit byte_digits)

lemma stoul16_hex02: "stoul16 (hex02 b) = Some (of_nat (unat b))"
proof -
  have t: "takeWhile is_xdigit (strip_0x (hex02 b)) = hex02 b"
    by (simp add: hex02_def strip_0x_def is_xdigit_digit byte_digits)
  have "unat b < 2 ^ 64"
    using unsigned_less [of b, where ?'a = nat] by simp
  moreover have "dropWhile is_space (hex02 b) = hex02 b" "hd (hex02 b) \<noteq> CHR ''-''"
    "hd (hex02 b) \<noteq> CHR ''+''" "hex02 b \<noteq> []"
    by (simp_all add: hex02_def digit_neq byte_digits)
  ultimately show ?thesis
    unfolding stoul16_def Let_def by (simp add: t hex_value_hex02)
qed

lemma to_byte_ucast: "to_byte (ucast (b :: u8)) = b"
  unfolding to_byte_def by (rule bit_word_eqI) (simp add: bit_simps)

text \<open>
  A host id of four bytes, written with eight hexadecimal digits, is read back as itself.
\<close>

theorem host_id_roundtrip:
  assumes "length hid = 4"
  shows "parse_host_id (host_id_hex hid) = Inr hid"
proof -
  obtain a b c d where hid: "hid = [a, b, c, d]"
    using assms by (auto simp: length_Suc_conv numeral_eq_Suc)
  have len: "length (hex02 x) = 2" for x by (simp add: hex02_def)
  have s: "substr (host_id_hex hid) 0 2 = hex02 a" "substr (host_id_hex hid) 2 2 = hex02 b"
    "substr (host_id_hex hid) 4 2 = hex02 c" "substr (host_id_hex hid) 6 2 = hex02 d"
    by (simp_all add: hid host_id_hex_def substr_def len)
  show ?thesis
    unfolding parse_host_id_def s stoul16_hex02
    by (simp add: hid host_id_hex_def len to_byte_ucast)
qed

theorem host_id_roundtrip_witness:
  "parse_host_id (host_id_hex [1, 2, 10, 255]) = Inr [1, 2, 10, 255]"
  by (rule host_id_roundtrip) simp

subsection \<open>GUIDs\<close>

lemma scan_byte:
  assumes "length out < 16"
  shows "scan_guid (hex02 b @ s) out = scan_guid s (out @ [b])"
proof -
  have "hex_value [digit (unat b div 16), digit (unat b mod 16)] = unat b"
    using hex_value_hex02 [of b] by (simp add: hex02_def)
  then show ?thesis
    using assms by (simp add: hex02_def digit_neq byte_digits is_xdigit_digit to_byte_ucast)
qed

lemma scan_separator:
  assumes "length out < 16" "c = CHR ''.'' \<or> c = CHR ''|''" "s \<noteq> []"
  shows "scan_guid (c # s) out = scan_guid s out"
  using assms by (cases s) auto

lemma scan_bytes:
  "bs \<noteq> [] \<Longrightarrow> length out + length bs \<le> 16 \<Longrightarrow>
   scan_guid (hex_bytes hex02 ''.'' fin bs @ s) out = scan_guid (fin @ s) (out @ bs)"
proof (induction bs arbitrary: out)
  case Nil
  then show ?case by simp
next
  case (Cons b bs)
  show ?case
  proof (cases bs)
    case Nil
    then show ?thesis using Cons.prems by (simp add: scan_byte)
  next
    case (Cons c cs)
    have ne: "hex_bytes hex02 ''.'' fin (c # cs) @ s \<noteq> []" by (cases cs) (simp_all add: hex02_def)
    have "scan_guid (hex_bytes hex02 ''.'' fin (b # bs) @ s) out =
        scan_guid (''.'' @ hex_bytes hex02 ''.'' fin bs @ s) (out @ [b])"
      using Cons.prems Cons by (simp add: scan_byte)
    also have "\<dots> = scan_guid (hex_bytes hex02 ''.'' fin bs @ s) (out @ [b])"
      using Cons.prems Cons ne by (simp add: scan_separator)
    also have "\<dots> = scan_guid (fin @ s) (out @ b # bs)"
      using Cons.IH [of "out @ [b]"] Cons.prems Cons by simp
    finally show ?thesis .
  qed
qed

lemma hex_bytes_nonempty:
  assumes "bs \<noteq> []"
  shows "hex_bytes hex02 sep fin bs \<noteq> []"
proof -
  obtain b cs where "bs = b # cs" using assms by (cases bs) auto
  then show ?thesis by (cases cs) (simp_all add: hex02_def)
qed

text \<open>
  The 16 bytes of a GUID, written as the tool writes them everywhere, are read back from the
  document as themselves.
\<close>

theorem guid_roundtrip:
  assumes "length g = 16"
  shows "parse_guid_bytes (guid_to_string g) = g"
proof -
  have ne: "take 12 g \<noteq> []" "drop 12 g \<noteq> []" using assms by auto
  have e: "hex_bytes hex02 ''.'' [] (drop 12 g) \<noteq> []"
    by (rule hex_bytes_nonempty [OF ne(2)])
  have "scan_guid (guid_to_string g) [] = scan_guid (''|'' @ hex_bytes hex02 ''.'' [] (drop 12 g)) (take 12 g)"
    unfolding guid_to_string_def using scan_bytes [OF ne(1), of "[]"] assms by simp
  also have "\<dots> = scan_guid (hex_bytes hex02 ''.'' [] (drop 12 g)) (take 12 g)"
    using assms e by (simp add: scan_separator)
  also have "\<dots> = Some g"
    using scan_bytes [OF ne(2), of "take 12 g" "[]" "[]"] assms by simp
  finally show ?thesis using assms by (simp add: parse_guid_bytes_def)
qed

theorem guid_roundtrip_witness:
  "parse_guid_bytes (guid_to_string [1, 15, 64, 236, 82, 0, 134, 147, 0, 0, 0, 0, 0, 0, 20, 3])
   = [1, 15, 64, 236, 82, 0, 134, 147, 0, 0, 0, 0, 0, 0, 20, 3]"
  by (rule guid_roundtrip) simp

end
