(* ===== verification/Shm.thy ===== *)
theory Shm
  imports Spelling
begin

text \<open>
  The scan of the shared-memory directory (\<open>src/shm_info.cpp\<close>). What the operating system answers
  is the record \<open>shm_env\<close>: \<open>statvfs\<close>, the directory listing, \<open>stat\<close> (regular file, size), \<open>open\<close>
  and \<open>flock\<close> of a lock file, and the links of a directory of file descriptors.
\<close>

datatype open_result = Opened | OpenEnoent | OpenFailed

datatype flock_result = Flocked | FlockWouldBlock | FlockFailed

record shm_env =
  env_statvfs :: "string \<Rightarrow> (u64 \<times> u64 \<times> u64) option" \<comment> \<open>f_blocks, f_bavail, f_frsize\<close>
  env_readdir :: "string \<Rightarrow> string list option"
  env_stat :: "string \<Rightarrow> (bool \<times> u64) option"
  env_open :: "string \<Rightarrow> open_result"
  env_flock :: "string \<Rightarrow> flock_result"
  env_readlink :: "string \<Rightarrow> string option"

definition kSegmentPrefixes :: "string list" where
  "kSegmentPrefixes = [''fastrtps_'', ''fastdds_'']"

definition kPortPrefixes :: "string list" where
  "kPortPrefixes = [''fastrtps_port'', ''fastdds_port'']"

definition kSemPrefixes :: "string list" where
  "kSemPrefixes = [''sem.fastrtps_'', ''sem.fastdds_'']"

definition kDataSharingPrefix :: string where
  "kDataSharingPrefix = ''fast_datasharing_''"

definition kLockSuffix :: string where
  "kLockSuffix = ''_el''"

definition kNearlyFullFreeBytes :: u64 where
  "kNearlyFullFreeBytes = 16 * 1024 * 1024"

definition kNearlyFullRatio :: double where
  "kNearlyFullRatio = rnd (9 / 10)"

definition prefix_among :: "string \<Rightarrow> string list \<Rightarrow> string option" where
  "prefix_among s prefixes = find (starts_with s) prefixes"

definition is_hex :: "string \<Rightarrow> bool" where
  "is_hex s \<longleftrightarrow> s \<noteq> [] \<and>
     list_all (\<lambda>c. (CHR ''0'' \<le> c \<and> c \<le> CHR ''9'') \<or> (CHR ''a'' \<le> c \<and> c \<le> CHR ''f'')) s"

definition is_digits :: "string \<Rightarrow> bool" where
  "is_digits s \<longleftrightarrow> s \<noteq> [] \<and> list_all (\<lambda>c. \<not> (c < CHR ''0'' \<or> CHR ''9'' < c)) s"

datatype lock_state = LsHeld | LsFree | LsMissing | LsUnknown

definition probe_lock :: "shm_env \<Rightarrow> string \<Rightarrow> lock_state" where
  "probe_lock env lock_path =
     (case env_open env lock_path of
        OpenEnoent \<Rightarrow> LsMissing
      | OpenFailed \<Rightarrow> LsUnknown
      | Opened \<Rightarrow>
          (case env_flock env lock_path of
             Flocked \<Rightarrow> LsFree | FlockWouldBlock \<Rightarrow> LsHeld | FlockFailed \<Rightarrow> LsUnknown))"

definition datasharing_segment_name :: "u8 list \<Rightarrow> string" where
  "datasharing_segment_name g = kDataSharingPrefix @
     hex_bytes hex02 ''.'' ''_'' (take 12 g) @ hex_bytes hex_byte ''.'' [] (drop 12 g)"

subsection \<open>The scan\<close>

record shm_scan_input =
  si_node_ports :: "u32 list" \<comment> \<open>a \<open>std::set\<close>, ascending\<close>
  si_own_ports :: "u32 set"
  si_other_host_participants :: u64
  si_datasharing_writers :: "(string, string) omap"
  si_datasharing_readers :: "(string, string) omap"

record scan_state =
  sc_info :: shm_info
  sc_held :: "string set"
  sc_undecided :: "string set"
  sc_states :: "(string, lock_state) omap"

definition scan_port :: "shm_env \<Rightarrow> string \<Rightarrow> string \<Rightarrow> scan_state \<Rightarrow> scan_state" where
  "scan_port env full port sc =
     (if \<not> is_digits port then sc
      else
        (let st = probe_lock env (full @ kLockSuffix); info = sc_info sc
         in sc\<lparr>sc_info := info\<lparr>ports := ports info + 1,
                 stale_ports := (if st = LsFree then stale_ports info + 1 else stale_ports info)\<rparr>,
               sc_held := (if st = LsHeld then insert port (sc_held sc) else sc_held sc),
               sc_undecided := (if st = LsFree \<or> st = LsUnknown then insert port (sc_undecided sc)
                                else sc_undecided sc),
               sc_states := om_put port st (sc_states sc)\<rparr>))"

definition scan_segment :: "shm_env \<Rightarrow> string \<Rightarrow> string \<Rightarrow> scan_state \<Rightarrow> scan_state" where
  "scan_segment env full rest sc =
     (if \<not> is_hex rest then sc
      else
        (let info = sc_info sc
         in sc\<lparr>sc_info := info\<lparr>segments := segments info + 1,
              stale_segments := (if probe_lock env (full @ kLockSuffix) = LsFree
                                 then stale_segments info + 1 else stale_segments info)\<rparr>\<rparr>))"

definition scan_datasharing :: "shm_scan_input \<Rightarrow> string \<Rightarrow> u64 \<Rightarrow> scan_state \<Rightarrow> scan_state" where
  "scan_datasharing inp name sz sc =
     (let info = sc_info sc
      in case om_get (si_datasharing_readers inp) name of
           Some reader \<Rightarrow> sc\<lparr>sc_info := info\<lparr>
               datasharing_notifications := datasharing_notifications info + 1,
               datasharing_notification_readers := insert reader (datasharing_notification_readers info)\<rparr>\<rparr>
         | None \<Rightarrow>
             (case om_get (si_datasharing_writers inp) name of
                None \<Rightarrow> sc\<lparr>sc_info := info\<lparr>
                    datasharing_histories := datasharing_histories info + 1,
                    datasharing_unmatched := datasharing_unmatched info + 1\<rparr>\<rparr>
              | Some writer \<Rightarrow> sc\<lparr>sc_info := info\<lparr>
                    datasharing_histories := datasharing_histories info + 1,
                    datasharing_by_writer := om_put writer sz (datasharing_by_writer info)\<rparr>\<rparr>))"

definition is_fastdds_file :: "string \<Rightarrow> bool" where
  "is_fastdds_file name \<longleftrightarrow> prefix_among name kSegmentPrefixes \<noteq> None \<or>
     starts_with name kDataSharingPrefix \<or> prefix_among name kSemPrefixes \<noteq> None"

definition scan_entry :: "shm_env \<Rightarrow> string \<Rightarrow> shm_scan_input \<Rightarrow> string \<Rightarrow> scan_state \<Rightarrow> scan_state" where
  "scan_entry env path inp name sc =
     (if \<not> is_fastdds_file name then sc
      else
        (let full = path @ ''/'' @ name
         in case env_stat env full of
              None \<Rightarrow> sc
            | Some (regular, sz) \<Rightarrow>
                (if \<not> regular then sc
                 else
                   (let sc = sc\<lparr>sc_info := (sc_info sc)
                          \<lparr>fastdds_bytes := fastdds_bytes (sc_info sc) + sz\<rparr>\<rparr>
                    in if ends_with name kLockSuffix then sc
                       else case prefix_among name kPortPrefixes of
                         Some p \<Rightarrow> scan_port env full (drop (length p) name) sc
                       | None \<Rightarrow>
                           (case prefix_among name kSegmentPrefixes of
                              Some p \<Rightarrow> scan_segment env full (drop (length p) name) sc
                            | None \<Rightarrow> if starts_with name kDataSharingPrefix
                                      then scan_datasharing inp name sz sc else sc)))))"

definition port_text :: "u32 \<Rightarrow> string" where
  "port_text p = dec (unat p)"

fun lock_of_state :: "lock_state \<Rightarrow> port_lock" where
  "lock_of_state LsHeld = LockHeld"
| "lock_of_state LsFree = LockStale"
| "lock_of_state LsMissing = LockAbsent"
| "lock_of_state LsUnknown = LockUnknown"

definition lock_of_port :: "shm_scan_input \<Rightarrow> scan_state \<Rightarrow> u32 \<Rightarrow> port_lock" where
  "lock_of_port inp sc port =
     (if port \<in> si_own_ports inp then LockOwn
      else case om_get (sc_states sc) (port_text port) of
             Some st \<Rightarrow> lock_of_state st | None \<Rightarrow> LockAbsent)"

definition check_port :: "shm_scan_input \<Rightarrow> scan_state \<Rightarrow> u32 \<Rightarrow> shm_info \<Rightarrow> shm_info" where
  "check_port inp sc port info =
     (let own = port \<in> si_own_ports inp;
          missing = own \<or> port_text port \<notin> sc_held sc;
          unknown = missing \<and> \<not> own \<and> port_text port \<in> sc_undecided sc
      in info\<lparr>checked_ports := checked_ports info @ [port],
              missing_ports := (if missing then missing_ports info @ [port] else missing_ports info),
              unknown_ports := (if unknown then unknown_ports info @ [port] else unknown_ports info),
              port_locks := om_put port (lock_of_port inp sc port) (port_locks info)\<rparr>)"

definition add_capacity_warning :: "shm_info \<Rightarrow> shm_info" where
  "add_capacity_warning info =
     (if 0 < total_bytes info \<and>
         (free_bytes info < kNearlyFullFreeBytes \<or>
          d_le (d_mul kNearlyFullRatio (d_of_nat (unat (total_bytes info))))
               (d_of_nat (unat (used_bytes info))))
      then info\<lparr>shm_warnings := shm_warnings info @ [''shm-nearly-full'']\<rparr> else info)"

definition judge_ports :: "shm_info \<Rightarrow> shm_info" where
  "judge_ports info =
     (let info = info\<lparr>nodes_visible := missing_ports info = [] \<and> other_host_participants info = 0\<rparr>
      in if \<not> nodes_visible info then
           (let info = info\<lparr>shm_warnings := shm_warnings info @ [''shm-not-visible'']\<rparr>
            in if length (missing_ports info) = length (checked_ports info)
               then info\<lparr>stale_segments := 0, stale_ports := 0\<rparr> else info)
         else info)"

definition scan_shm :: "shm_env \<Rightarrow> string \<Rightarrow> shm_scan_input \<Rightarrow> shm_info" where
  "scan_shm env path inp =
     (let info = shm_info0\<lparr>shm_path := path\<rparr>
      in case env_statvfs env path of
           None \<Rightarrow> info
         | Some (blocks, bavail, frsize) \<Rightarrow>
             (let total = blocks * frsize; free = bavail * frsize;
                  info = info\<lparr>shm_available := True, total_bytes := total, free_bytes := free,
                    used_bytes := (if free \<le> total then total - free else 0)\<rparr>
              in case env_readdir env path of
                   None \<Rightarrow> info
                 | Some names \<Rightarrow>
                     (let sc = fold (scan_entry env path inp) names
                            \<lparr>sc_info = info\<lparr>shm_listed := True\<rparr>, sc_held = {}, sc_undecided = {},
                             sc_states = []\<rparr>;
                          info = fold (check_port inp sc) (si_node_ports inp) (sc_info sc);
                          info = judge_ports (info\<lparr>other_host_participants :=
                                   si_other_host_participants inp\<rparr>);
                          info = (if 0 < stale_segments info + stale_ports info
                                  then info\<lparr>shm_warnings := shm_warnings info @ [''shm-stale-files'']\<rparr>
                                  else info)
                      in add_capacity_warning info)))"

subsection \<open>Where a participant listens\<close>

text \<open>The loop over the ports in ascending order; \<open>Inl\<close> is the early return.\<close>

definition visibility_step :: "u32 set \<Rightarrow> shm_info \<Rightarrow> (u32, nat) omap \<Rightarrow> u32 \<Rightarrow>
    shm_visibility + (bool \<times> bool) \<Rightarrow> shm_visibility + (bool \<times> bool)" where
  "visibility_step proof_ports info per_port port st =
     (case st of
        Inl v \<Rightarrow> Inl v
      | Inr (all_held, proven) \<Rightarrow>
          (if \<not> List.member (checked_ports info) port then Inr (False, proven)
           else if List.member (missing_ports info) port then
             (if \<not> List.member (unknown_ports info) port then Inl NotVisible
              else Inr (False, proven))
           else if port \<in> proof_ports then
             Inr (all_held, proven \<or> (case om_get per_port port of None \<Rightarrow> True | Some n \<Rightarrow> n \<le> 1))
           else Inr (all_held, proven)))"

definition participant_shm_visibility ::
  "u32 list \<Rightarrow> u32 set \<Rightarrow> shm_info \<Rightarrow> (u32, nat) omap \<Rightarrow> shm_visibility" where
  "participant_shm_visibility ps proof_ports info per_port =
     (case fold (visibility_step proof_ports info per_port) ps (Inr (ps \<noteq> [], False)) of
        Inl v \<Rightarrow> v
      | Inr (all_held, proven) \<Rightarrow> if all_held \<and> proven then Visible else Unprobed)"

subsection \<open>The tool's own ports\<close>

definition base_name :: "string \<Rightarrow> string" where
  "base_name name = (case rfind_sub ''/'' name of None \<Rightarrow> name | Some i \<Rightarrow> drop (i + 1) name)"

definition decimal_value :: "string \<Rightarrow> nat" where
  "decimal_value s = foldl (\<lambda>n c. 10 * n + (of_char c - 48)) 0 s"

text \<open>\<open>static_cast<uint32_t>(std::strtoul(port))\<close>: saturated at 64 bits, then truncated.\<close>

definition port_number :: "string \<Rightarrow> u32" where
  "port_number s = of_nat (min (decimal_value s) (2 ^ 64 - 1))"

definition own_port_step :: "shm_env \<Rightarrow> string \<Rightarrow> string \<Rightarrow> u32 set \<Rightarrow> u32 set" where
  "own_port_step env fd_dir entry found =
     (case env_readlink env (fd_dir @ ''/'' @ entry) of
        None \<Rightarrow> found
      | Some target \<Rightarrow>
          (if target = [] then found
           else
             (let name = base_name target
              in case prefix_among name kPortPrefixes of
                   None \<Rightarrow> found
                 | Some p \<Rightarrow>
                     (if \<not> ends_with name kLockSuffix then found
                      else
                        (let port = substr name (length p) (length name - length p - length kLockSuffix)
                         in if is_digits port then insert (port_number port) found else found)))))"

definition held_port_locks :: "shm_env \<Rightarrow> string \<Rightarrow> u32 set option" where
  "held_port_locks env fd_dir =
     map_option (\<lambda>entries. fold (own_port_step env fd_dir) entries {}) (env_readdir env fd_dir)"

end
