(* ===== verification/Shm_Props.thy ===== *)
theory Shm_Props
  imports Shm
begin

text \<open>
  Correctness of the shared-memory scan: where a participant listens (\<open>participant_shm_visibility\<close>
  without its loop), the port checks of \<open>scan_shm\<close> from the directory listing, the warnings, and the
  names of the data-sharing segments.
\<close>

subsection \<open>Where a participant listens\<close>

definition port_missing :: "shm_info \<Rightarrow> u32 \<Rightarrow> bool" where
  "port_missing info p \<longleftrightarrow> List.member (missing_ports info) p"

definition port_elsewhere :: "shm_info \<Rightarrow> u32 \<Rightarrow> bool" where
  "port_elsewhere info p \<longleftrightarrow> List.member (checked_ports info) p \<and> port_missing info p \<and>
     \<not> List.member (unknown_ports info) p"

definition port_held :: "shm_info \<Rightarrow> u32 \<Rightarrow> bool" where
  "port_held info p \<longleftrightarrow> List.member (checked_ports info) p \<and> \<not> port_missing info p"

definition port_proves :: "u32 set \<Rightarrow> (u32, nat) omap \<Rightarrow> u32 \<Rightarrow> bool" where
  "port_proves proof_ports per_port p \<longleftrightarrow> p \<in> proof_ports \<and>
     (case om_get per_port p of None \<Rightarrow> True | Some n \<Rightarrow> n \<le> 1)"

lemmas port_predicates = port_elsewhere_def port_held_def port_proves_def port_missing_def

lemma visibility_fold_Inl:
  "fold (visibility_step proof_ports info per_port) ps (Inl v) = Inl v"
  by (induction ps) (simp_all add: visibility_step_def)

lemma visibility_step_Inr:
  "visibility_step proof_ports info per_port p (Inr (a, b)) =
   (if port_elsewhere info p then Inl NotVisible
    else Inr (a \<and> port_held info p, b \<or> (port_held info p \<and> port_proves proof_ports per_port p)))"
  by (auto simp: visibility_step_def port_predicates)

lemma visibility_fold:
  "fold (visibility_step proof_ports info per_port) ps (Inr (a, b)) =
   (if list_ex (port_elsewhere info) ps then Inl NotVisible
    else Inr (a \<and> list_all (port_held info) ps,
              b \<or> list_ex (\<lambda>p. port_held info p \<and> port_proves proof_ports per_port p) ps))"
proof (induction ps arbitrary: a b)
  case Nil
  then show ?case by simp
next
  case (Cons p ps)
  show ?case
  proof (cases "port_elsewhere info p")
    case True
    then show ?thesis by (simp add: visibility_step_Inr visibility_fold_Inl)
  next
    case False
    then show ?thesis by (simp add: visibility_step_Inr Cons.IH conj_ac disj_ac)
  qed
qed

text \<open>
  A participant is not visible exactly when one of its probed ports is missing for certain, and
  visible exactly when it has ports, all of them are held here, and one of them is a proof port that
  no other participant announces. In every other case it is left unprobed.
\<close>

theorem participant_shm_visibility_exact:
  "participant_shm_visibility ps proof_ports info per_port =
   (if list_ex (port_elsewhere info) ps then NotVisible
    else if ps \<noteq> [] \<and> list_all (port_held info) ps \<and>
            list_ex (port_proves proof_ports per_port) ps then Visible
    else Unprobed)"
proof -
  have "list_all (port_held info) ps \<Longrightarrow>
      list_ex (\<lambda>p. port_held info p \<and> port_proves proof_ports per_port p) ps \<longleftrightarrow>
      list_ex (port_proves proof_ports per_port) ps"
    by (auto simp: list_all_iff list_ex_iff)
  then show ?thesis
    unfolding participant_shm_visibility_def visibility_fold by auto
qed

subsection \<open>The port files of a listing\<close>

text \<open>The port text and lock state that one directory entry contributes.\<close>

definition port_entry :: "shm_env \<Rightarrow> string \<Rightarrow> string \<Rightarrow> (string \<times> lock_state) option" where
  "port_entry env path name =
     (if is_fastdds_file name \<and> map_option fst (env_stat env (path @ ''/'' @ name)) = Some True \<and>
         \<not> ends_with name kLockSuffix
      then case prefix_among name kPortPrefixes of
             None \<Rightarrow> None
           | Some p \<Rightarrow> (if is_digits (drop (length p) name)
                        then Some (drop (length p) name,
                                   probe_lock env ((path @ ''/'' @ name) @ kLockSuffix))
                        else None)
      else None)"

definition port_files :: "shm_env \<Rightarrow> string \<Rightarrow> string list \<Rightarrow> (string \<times> lock_state) list" where
  "port_files env path names = List.map_filter (port_entry env path) names"

lemma scan_datasharing_ports [simp]:
  "sc_held (scan_datasharing inp name sz sc) = sc_held sc"
  "sc_undecided (scan_datasharing inp name sz sc) = sc_undecided sc"
  "sc_states (scan_datasharing inp name sz sc) = sc_states sc"
  by (simp_all add: scan_datasharing_def Let_def split: option.split)

lemma scan_segment_ports [simp]:
  "sc_held (scan_segment env full rest sc) = sc_held sc"
  "sc_undecided (scan_segment env full rest sc) = sc_undecided sc"
  "sc_states (scan_segment env full rest sc) = sc_states sc"
  by (simp_all add: scan_segment_def Let_def)

definition ports_noted :: "scan_state \<Rightarrow> (string \<times> lock_state) list \<Rightarrow> scan_state \<Rightarrow> bool" where
  "ports_noted sc es sc' \<longleftrightarrow>
     sc_held sc' = sc_held sc \<union> {p. (p, LsHeld) \<in> set es} \<and>
     sc_undecided sc' = sc_undecided sc \<union> {p. (p, LsFree) \<in> set es \<or> (p, LsUnknown) \<in> set es} \<and>
     sc_states sc' = fold (\<lambda>e. om_put (fst e) (snd e)) es (sc_states sc)"

lemma ports_noted_trans:
  "ports_noted a es b \<Longrightarrow> ports_noted b fs c \<Longrightarrow> ports_noted a (es @ fs) c"
  by (auto simp: ports_noted_def)

lemma ports_noted_same:
  assumes "sc_held b = sc_held a" "sc_undecided b = sc_undecided a" "sc_states b = sc_states a"
  shows "ports_noted a [] b"
  using assms by (simp add: ports_noted_def)

lemma scan_port_noted:
  "ports_noted sc (if is_digits port then [(port, probe_lock env (full @ kLockSuffix))] else [])
     (scan_port env full port sc)"
  by (cases "probe_lock env (full @ kLockSuffix)")
    (auto simp: ports_noted_def scan_port_def Let_def)

lemma scan_entry_noted:
  "ports_noted sc (case port_entry env path name of None \<Rightarrow> [] | Some e \<Rightarrow> [e])
     (scan_entry env path inp name sc)"
proof (cases "is_fastdds_file name \<and> map_option fst (env_stat env (path @ ''/'' @ name)) = Some True \<and>
    \<not> ends_with name kLockSuffix")
  case False
  then have "ports_noted sc [] (scan_entry env path inp name sc)"
    by (intro ports_noted_same)
      (auto simp: scan_entry_def Let_def split: option.split)
  moreover have "port_entry env path name = None"
    unfolding port_entry_def by (rule if_not_P) (rule False)
  ultimately show ?thesis by simp
next
  case True
  then obtain sz where st: "env_stat env (path @ ''/'' @ name) = Some (True, sz)" by auto
  let ?sc = "sc\<lparr>sc_info := (sc_info sc)\<lparr>fastdds_bytes := fastdds_bytes (sc_info sc) + sz\<rparr>\<rparr>"
  have sc: "ports_noted sc [] ?sc" by (rule ports_noted_same) simp_all
  show ?thesis
  proof (cases "prefix_among name kPortPrefixes")
    case None
    have "ports_noted sc [] (scan_entry env path inp name sc)"
      using True st None
      by (intro ports_noted_same) (simp_all add: scan_entry_def Let_def split: option.split)
    then show ?thesis using True None by (simp add: port_entry_def)
  next
    case (Some p)
    have e: "scan_entry env path inp name sc =
        scan_port env (path @ ''/'' @ name) (drop (length p) name) ?sc"
      using True st Some by (simp add: scan_entry_def Let_def)
    show ?thesis
      using ports_noted_trans [OF sc scan_port_noted [of ?sc "drop (length p) name" env "path @ ''/'' @ name"]]
        True st Some unfolding e
      by (cases "is_digits (drop (length p) name)") (simp_all add: port_entry_def)
  qed
qed

lemma scan_entries_noted:
  "ports_noted sc (port_files env path names) (fold (scan_entry env path inp) names sc)"
proof (induction names arbitrary: sc)
  case Nil
  then show ?case by (simp add: port_files_def ports_noted_same List.map_filter_simps)
next
  case (Cons n names)
  have "port_files env path (n # names) =
      (case port_entry env path n of None \<Rightarrow> [] | Some e \<Rightarrow> [e]) @ port_files env path names"
    by (simp add: port_files_def List.map_filter_simps split: option.split)
  then show ?case
    using ports_noted_trans [OF scan_entry_noted Cons.IH] by (simp only: fold_simps)
qed

subsection \<open>The checked ports\<close>

lemma fold_check_port:
  "checked_ports (fold (check_port inp sc) ps info) = checked_ports info @ ps"
  "missing_ports (fold (check_port inp sc) ps info) = missing_ports info @
     filter (\<lambda>p. p \<in> si_own_ports inp \<or> port_text p \<notin> sc_held sc) ps"
  "unknown_ports (fold (check_port inp sc) ps info) = unknown_ports info @
     filter (\<lambda>p. p \<notin> si_own_ports inp \<and> port_text p \<notin> sc_held sc \<and> port_text p \<in> sc_undecided sc) ps"
  "port_locks (fold (check_port inp sc) ps info) =
     fold (\<lambda>p. om_put p (lock_of_port inp sc p)) ps (port_locks info)"
  by (induction ps arbitrary: info) (auto simp: check_port_def Let_def)

lemma get_fold_const:
  "om_ok m \<Longrightarrow> om_get (fold (\<lambda>p. om_put p (f p)) ps m) k =
     (if k \<in> set ps then Some (f k) else om_get m k)"
  by (induction ps arbitrary: m) auto

lemma get_fold_entries:
  "om_ok m \<Longrightarrow> distinct (map fst es) \<Longrightarrow>
   om_get (fold (\<lambda>e. om_put (fst e) (snd e)) es m) k =
     (case map_of es k of Some v \<Rightarrow> Some v | None \<Rightarrow> om_get m k)"
proof (induction es arbitrary: m)
  case Nil
  then show ?case by simp
next
  case (Cons e es)
  have "om_ok (om_put (fst e) (snd e) m)" using Cons.prems by simp
  moreover have "k = fst e \<Longrightarrow> map_of es k = None"
    using Cons.prems by (simp add: map_of_eq_None_iff)
  ultimately show ?case using Cons by (auto split: option.split)
qed

lemma add_capacity_keeps [simp]:
  "checked_ports (add_capacity_warning info) = checked_ports info"
  "missing_ports (add_capacity_warning info) = missing_ports info"
  "unknown_ports (add_capacity_warning info) = unknown_ports info"
  "port_locks (add_capacity_warning info) = port_locks info"
  by (simp_all add: add_capacity_warning_def)

lemma judge_ports_keeps [simp]:
  "checked_ports (judge_ports info) = checked_ports info"
  "missing_ports (judge_ports info) = missing_ports info"
  "unknown_ports (judge_ports info) = unknown_ports info"
  "port_locks (judge_ports info) = port_locks info"
  by (simp_all add: judge_ports_def Let_def)

subsection \<open>The scan as a whole\<close>

definition not_checked :: "shm_info \<Rightarrow> bool" where
  "not_checked info \<longleftrightarrow> checked_ports info = [] \<and> missing_ports info = [] \<and>
     unknown_ports info = [] \<and> port_locks info = [] \<and> shm_warnings info = [] \<and> shm_listed info"

lemma not_checked_datasharing:
  "not_checked (sc_info sc) \<Longrightarrow> not_checked (sc_info (scan_datasharing inp name sz sc))"
  by (simp add: not_checked_def scan_datasharing_def Let_def split: option.split)

lemma not_checked_segment:
  "not_checked (sc_info sc) \<Longrightarrow> not_checked (sc_info (scan_segment env full rest sc))"
  by (simp add: not_checked_def scan_segment_def Let_def)

lemma not_checked_port:
  "not_checked (sc_info sc) \<Longrightarrow> not_checked (sc_info (scan_port env full port sc))"
  by (simp add: not_checked_def scan_port_def Let_def)

lemma not_checked_bytes:
  "not_checked info \<Longrightarrow> not_checked (info\<lparr>fastdds_bytes := n\<rparr>)"
  by (simp add: not_checked_def)

lemma not_checked_entry:
  "not_checked (sc_info sc) \<Longrightarrow> not_checked (sc_info (scan_entry env path inp name sc))"
  by (simp add: scan_entry_def Let_def not_checked_datasharing not_checked_segment not_checked_port
      not_checked_bytes split: option.split)

lemma not_checked_entries:
  "not_checked (sc_info sc) \<Longrightarrow> not_checked (sc_info (fold (scan_entry env path inp) names sc))"
  by (induction names arbitrary: sc) (simp_all add: not_checked_entry)

definition add_stale_warning :: "shm_info \<Rightarrow> shm_info" where
  "add_stale_warning info =
     (if 0 < stale_segments info + stale_ports info
      then info\<lparr>shm_warnings := shm_warnings info @ [''shm-stale-files'']\<rparr> else info)"

lemma add_stale_keeps [simp]:
  "checked_ports (add_stale_warning info) = checked_ports info"
  "missing_ports (add_stale_warning info) = missing_ports info"
  "unknown_ports (add_stale_warning info) = unknown_ports info"
  "port_locks (add_stale_warning info) = port_locks info"
  by (simp_all add: add_stale_warning_def)

lemma scan_shm_listed:
  assumes "env_statvfs env path = Some v" "env_readdir env path = Some names"
  obtains sc where
    "scan_shm env path inp = add_capacity_warning (add_stale_warning (judge_ports
       (fold (check_port inp sc) (si_node_ports inp) (sc_info sc)
          \<lparr>other_host_participants := si_other_host_participants inp\<rparr>)))"
    "not_checked (sc_info sc)"
    "sc_held sc = {p. (p, LsHeld) \<in> set (port_files env path names)}"
    "sc_undecided sc = {p. (p, LsFree) \<in> set (port_files env path names) \<or>
                           (p, LsUnknown) \<in> set (port_files env path names)}"
    "sc_states sc = fold (\<lambda>e. om_put (fst e) (snd e)) (port_files env path names) []"
proof -
  obtain blocks bavail frsize where v: "v = (blocks, bavail, frsize)" by (cases v)
  define info where "info = shm_info0\<lparr>shm_path := path, shm_available := True,
      total_bytes := blocks * frsize, free_bytes := bavail * frsize,
      used_bytes := (if bavail * frsize \<le> blocks * frsize
                     then blocks * frsize - bavail * frsize else 0), shm_listed := True\<rparr>"
  define sc0 where "sc0 = \<lparr>sc_info = info, sc_held = {}, sc_undecided = {}, sc_states = []\<rparr>"
  define sc where "sc = fold (scan_entry env path inp) names sc0"
  have eq: "scan_shm env path inp = add_capacity_warning (add_stale_warning (judge_ports
       (fold (check_port inp sc) (si_node_ports inp) (sc_info sc)
          \<lparr>other_host_participants := si_other_host_participants inp\<rparr>)))"
    unfolding scan_shm_def assms v sc_def sc0_def info_def add_stale_warning_def Let_def by simp
  have u: "not_checked (sc_info sc)"
    unfolding sc_def by (rule not_checked_entries) (simp add: sc0_def info_def not_checked_def shm_info0_def)
  have n: "ports_noted sc0 (port_files env path names) sc"
    unfolding sc_def by (rule scan_entries_noted)
  show ?thesis
    by (rule that [OF eq u]) (use n in \<open>simp_all add: ports_noted_def sc0_def\<close>)
qed

lemma scan_shm_ports:
  assumes "env_statvfs env path = Some v" "env_readdir env path = Some names"
    and "distinct (map fst (port_files env path names))"
  defines "st \<equiv> map_of (port_files env path names)"
  shows "checked_ports (scan_shm env path inp) = si_node_ports inp"
    "missing_ports (scan_shm env path inp) =
       filter (\<lambda>p. p \<in> si_own_ports inp \<or> st (port_text p) \<noteq> Some LsHeld) (si_node_ports inp)"
    "unknown_ports (scan_shm env path inp) =
       filter (\<lambda>p. p \<notin> si_own_ports inp \<and> st (port_text p) \<in> {Some LsFree, Some LsUnknown})
         (si_node_ports inp)"
    "om_get (port_locks (scan_shm env path inp)) p =
       (if p \<in> set (si_node_ports inp)
        then Some (if p \<in> si_own_ports inp then LockOwn
                   else case st (port_text p) of Some s \<Rightarrow> lock_of_state s | None \<Rightarrow> LockAbsent)
        else None)"
proof -
  obtain sc where
    eq: "scan_shm env path inp = add_capacity_warning (add_stale_warning (judge_ports
       (fold (check_port inp sc) (si_node_ports inp) (sc_info sc)
          \<lparr>other_host_participants := si_other_host_participants inp\<rparr>)))"
    and u: "not_checked (sc_info sc)"
    and held: "sc_held sc = {p. (p, LsHeld) \<in> set (port_files env path names)}"
    and und: "sc_undecided sc = {p. (p, LsFree) \<in> set (port_files env path names) \<or>
                           (p, LsUnknown) \<in> set (port_files env path names)}"
    and sts: "sc_states sc = fold (\<lambda>e. om_put (fst e) (snd e)) (port_files env path names) []"
    by (rule scan_shm_listed [OF assms(1,2)])
  have mem: "(q, s) \<in> set (port_files env path names) \<longleftrightarrow> st q = Some s" for q s
    unfolding st_def using assms(3) by (simp add: map_of_eq_Some_iff)
  have get: "om_get (sc_states sc) q = st q" for q
    unfolding sts get_fold_entries [OF om_ok_Nil assms(3)] st_def by (simp split: option.split)
  have u': "checked_ports (sc_info sc) = []" "missing_ports (sc_info sc) = []"
    "unknown_ports (sc_info sc) = []" "port_locks (sc_info sc) = []"
    using u by (simp_all add: not_checked_def)
  show "checked_ports (scan_shm env path inp) = si_node_ports inp"
    unfolding eq by (simp add: fold_check_port u')
  show "missing_ports (scan_shm env path inp) =
       filter (\<lambda>p. p \<in> si_own_ports inp \<or> st (port_text p) \<noteq> Some LsHeld) (si_node_ports inp)"
    unfolding eq by (simp add: fold_check_port u' held mem)
  show "unknown_ports (scan_shm env path inp) =
       filter (\<lambda>p. p \<notin> si_own_ports inp \<and> st (port_text p) \<in> {Some LsFree, Some LsUnknown})
         (si_node_ports inp)"
    unfolding eq by (auto simp: fold_check_port u' held und mem intro!: filter_cong)
  show "om_get (port_locks (scan_shm env path inp)) p =
       (if p \<in> set (si_node_ports inp)
        then Some (if p \<in> si_own_ports inp then LockOwn
                   else case st (port_text p) of Some s \<Rightarrow> lock_of_state s | None \<Rightarrow> LockAbsent)
        else None)"
    unfolding eq by (simp add: fold_check_port u' get_fold_const lock_of_port_def get)
qed

text \<open>
  When no port is listed under both file names, the ports that the scan calls missing are
  exactly the checked ports whose lock is not reported as held by a node, and the undecided ones
  those whose lock is reported as stale or unreadable.
\<close>

theorem scan_ports_agree:
  assumes "env_statvfs env path = Some v" "env_readdir env path = Some names"
    and "distinct (map fst (port_files env path names))"
  shows "checked_ports (scan_shm env path inp) = si_node_ports inp \<and>
     missing_ports (scan_shm env path inp) =
       filter (\<lambda>p. om_get (port_locks (scan_shm env path inp)) p \<noteq> Some LockHeld)
         (si_node_ports inp) \<and>
     unknown_ports (scan_shm env path inp) =
       filter (\<lambda>p. om_get (port_locks (scan_shm env path inp)) p \<in> {Some LockStale, Some LockUnknown})
         (si_node_ports inp)"
proof -
  have "st \<noteq> Some LsHeld \<longleftrightarrow> (case st of Some s \<Rightarrow> lock_of_state s | None \<Rightarrow> LockAbsent) \<noteq> LockHeld"
    "st \<in> {Some LsFree, Some LsUnknown} \<longleftrightarrow>
     (case st of Some s \<Rightarrow> lock_of_state s | None \<Rightarrow> LockAbsent) \<in> {LockStale, LockUnknown}"
    for st :: "lock_state option"
    by (auto split: option.splits elim!: lock_of_state.elims)
  then show ?thesis
    unfolding scan_shm_ports [OF assms]
    by (auto simp del: insert_iff intro!: filter_cong split: option.splits)
qed

text \<open>A sample directory: the listed names, all regular files, and the ones somebody has locked.\<close>

definition sample_env :: "string list \<Rightarrow> string list \<Rightarrow> shm_env" where
  "sample_env names held = \<lparr>env_statvfs = (\<lambda>_. Some (0, 0, 4096)), env_readdir = (\<lambda>_. Some names),
     env_stat = (\<lambda>_. Some (True, 100)), env_open = (\<lambda>_. Opened),
     env_flock = (\<lambda>p. if List.member held p then FlockWouldBlock else Flocked),
     env_readlink = (\<lambda>_. None)\<rparr>"

definition sample_input :: "u32 list \<Rightarrow> shm_scan_input" where
  "sample_input ps = \<lparr>si_node_ports = ps, si_own_ports = {}, si_other_host_participants = 0,
     si_datasharing_writers = [], si_datasharing_readers = []\<rparr>"

lemmas sample_env_sel = sample_env_def shm_env.simps

theorem scan_ports_agree_witness:
  "missing_ports (scan_shm (sample_env [''fastrtps_port7411'', ''fastdds_port7413'']
       [''/s/fastrtps_port7411_el'']) ''/s'' (sample_input [7411, 7413])) = [7413]"
proof -
  let ?e = "sample_env [''fastrtps_port7411'', ''fastdds_port7413''] [''/s/fastrtps_port7411_el'']"
  let ?i = "sample_input [7411, 7413]"
  have pf: "port_files ?e ''/s'' [''fastrtps_port7411'', ''fastdds_port7413''] =
      [(''7411'', LsHeld), (''7413'', LsFree)]"
    by code_simp
  have t: "port_text 7411 = ''7411''" "port_text 7413 = ''7413''"
    by (simp_all add: port_text_def dec.simps digit_def char_of_def bit_simps)
  have d: "distinct (map fst (port_files ?e ''/s'' [''fastrtps_port7411'', ''fastdds_port7413'']))"
    unfolding pf by simp
  have e: "env_statvfs ?e ''/s'' = Some (0, 0, 4096)"
    "env_readdir ?e ''/s'' = Some [''fastrtps_port7411'', ''fastdds_port7413'']"
    by (simp_all add: sample_env_def)
  show ?thesis
    using scan_ports_agree [OF e d, of ?i] scan_shm_ports(4) [OF e d, of ?i]
    unfolding pf by (simp add: sample_input_def t)
qed

text \<open>
  A port listed under both file names is reported twice over: while a node holds the lock of the
  one file, the scan finds the port where it should be, and yet \<open>port_locks\<close> calls it stale when the
  other file comes later in the listing.
\<close>

theorem port_lock_disagrees:
  "missing_ports (scan_shm (sample_env [''fastrtps_port7411'', ''fastdds_port7411'']
       [''/s/fastrtps_port7411_el'']) ''/s'' (sample_input [7411])) = [] \<and>
   om_get (port_locks (scan_shm (sample_env [''fastrtps_port7411'', ''fastdds_port7411'']
       [''/s/fastrtps_port7411_el'']) ''/s'' (sample_input [7411]))) 7411 = Some LockStale"
proof -
  let ?e = "sample_env [''fastrtps_port7411'', ''fastdds_port7411''] [''/s/fastrtps_port7411_el'']"
  have pf: "port_files ?e ''/s'' [''fastrtps_port7411'', ''fastdds_port7411''] =
      [(''7411'', LsHeld), (''7411'', LsFree)]"
    by code_simp
  have t: "port_text 7411 = ''7411''" by (simp add: port_text_def dec.simps digit_def char_of_def bit_simps)
  have e: "env_statvfs ?e ''/s'' = Some (0, 0, 4096)"
    "env_readdir ?e ''/s'' = Some [''fastrtps_port7411'', ''fastdds_port7411'']"
    by (simp_all add: sample_env_def)
  show ?thesis
  proof (rule scan_shm_listed [OF e, of "sample_input [7411]"], unfold pf)
    fix sc
    assume *: "scan_shm ?e ''/s'' (sample_input [7411]) = add_capacity_warning (add_stale_warning
        (judge_ports (fold (check_port (sample_input [7411]) sc)
          (si_node_ports (sample_input [7411])) (sc_info sc)
          \<lparr>other_host_participants := si_other_host_participants (sample_input [7411])\<rparr>)))"
      "not_checked (sc_info sc)" "sc_held sc = {p. (p, LsHeld) \<in> set [(''7411'', LsHeld), (''7411'', LsFree)]}"
      "sc_states sc = fold (\<lambda>e. om_put (fst e) (snd e)) [(''7411'', LsHeld), (''7411'', LsFree)] []"
    have "missing_ports (sc_info sc) = []" "port_locks (sc_info sc) = []"
      using *(2) by (simp_all add: not_checked_def)
    then show ?thesis
      unfolding *(1)
      by (simp add: check_port_def *(3,4) sample_input_def t lock_of_port_def Let_def)
  qed
qed

subsection \<open>Data-sharing segments\<close>

lemma dot_code: "\<not> (48 :: nat) \<le> of_char CHR ''.''"
  by simp

lemma is_dot_digit: "n < 16 \<Longrightarrow> digit n \<noteq> CHR ''.''" "n < 16 \<Longrightarrow> CHR ''.'' \<noteq> digit n"
proof -
  have "n < 16 \<Longrightarrow> (of_char (digit n) :: nat) \<ge> 48" by (simp add: of_char_digit)
  then show "n < 16 \<Longrightarrow> digit n \<noteq> CHR ''.''" "n < 16 \<Longrightarrow> CHR ''.'' \<noteq> digit n"
    by (metis dot_code)+
qed

lemma byte_halves: "unat (b :: u8) div 16 < 16" "unat b mod 16 < 16"
  using unsigned_less [of b, where ?'a = nat] by simp_all

lemma byte_by_halves:
  assumes "unat (a :: u8) div 16 = unat b div 16" "unat a mod 16 = unat b mod 16"
  shows "a = b"
proof -
  have "unat a = unat b" using assms by (metis div_mult_mod_eq)
  then show ?thesis by (simp add: word_unat_eq_iff)
qed

lemma hex02_inject: "hex02 a @ s = hex02 b @ t \<longleftrightarrow> a = b \<and> s = t"
  by (auto simp: hex02_def digit_inject byte_halves intro: byte_by_halves)

lemma hex_byte_inject: "hex_byte a = hex_byte b \<longleftrightarrow> a = b"
proof
  assume e: "hex_byte a = hex_byte b"
  show "a = b"
  proof (cases "unat a < 16")
    case True
    then show ?thesis using e by (auto simp: hex_byte_def hex02_def digit_inject word_unat_eq_iff split: if_splits)
  next
    case False
    then show ?thesis using e hex02_inject [of a "[]" b "[]"]
      by (auto simp: hex_byte_def hex02_def split: if_splits)
  qed
qed simp

lemma hex_byte_no_dot: "list_all (\<lambda>c. c \<noteq> CHR ''.'') (hex_byte b)"
  by (simp add: hex_byte_def hex02_def is_dot_digit byte_halves)

lemma split_at_dot:
  assumes "list_all (\<lambda>c. c \<noteq> CHR ''.'') u" "list_all (\<lambda>c. c \<noteq> CHR ''.'') v"
    and "u @ CHR ''.'' # s = v @ CHR ''.'' # t"
  shows "u = v \<and> s = t"
  using assms
proof (induction u arbitrary: v)
  case Nil
  then show ?case by (cases v) auto
next
  case (Cons c u)
  then show ?case by (cases v) auto
qed

lemma hex_bytes_hex02:
  "length xs = length ys \<Longrightarrow> hex_bytes hex02 sep fin xs @ s = hex_bytes hex02 sep fin ys @ t \<Longrightarrow>
   xs = ys \<and> (xs \<noteq> [] \<longrightarrow> s = t)"
proof (induction xs ys rule: list_induct2)
  case Nil
  then show ?case by simp
next
  case (Cons x xs y ys)
  then show ?case by (cases xs; cases ys) (auto simp: hex02_inject)
qed

lemma hex_bytes_hex_byte:
  "length xs = length ys \<Longrightarrow> hex_bytes hex_byte ''.'' [] xs = hex_bytes hex_byte ''.'' [] ys \<Longrightarrow>
   xs = ys"
proof (induction xs ys rule: list_induct2)
  case Nil
  then show ?case by simp
next
  case (Cons x xs y ys)
  show ?case
  proof (cases xs)
    case Nil
    then show ?thesis using Cons by (simp add: hex_byte_inject)
  next
    case xs: (Cons x' xs')
    obtain y' ys' where ys: "ys = y' # ys'" using Cons.hyps xs by (cases ys) auto
    have "hex_byte x = hex_byte y \<and>
        hex_bytes hex_byte ''.'' [] xs = hex_bytes hex_byte ''.'' [] ys"
      using Cons.prems by (intro split_at_dot hex_byte_no_dot) (simp add: xs ys)
    then show ?thesis using Cons.IH by (simp add: hex_byte_inject)
  qed
qed

text \<open>
  Two endpoints never share a data-sharing file name: the name determines the 16 bytes of the
  GUID, although the entity id is written without zero padding.
\<close>

theorem datasharing_segment_name_inject:
  assumes "length g = 16" "length h = 16"
  shows "datasharing_segment_name g = datasharing_segment_name h \<longleftrightarrow> g = h"
proof
  assume e: "datasharing_segment_name g = datasharing_segment_name h"
  have l: "length (take 12 g) = length (take 12 h)" "length (drop 12 g) = length (drop 12 h)"
    "take 12 g \<noteq> []"
    using assms by auto
  have "hex_bytes hex02 ''.'' ''_'' (take 12 g) @ hex_bytes hex_byte ''.'' [] (drop 12 g) =
      hex_bytes hex02 ''.'' ''_'' (take 12 h) @ hex_bytes hex_byte ''.'' [] (drop 12 h)"
    using e by (simp add: datasharing_segment_name_def)
  then have t: "take 12 g = take 12 h" and
    "hex_bytes hex_byte ''.'' [] (drop 12 g) = hex_bytes hex_byte ''.'' [] (drop 12 h)"
    using hex_bytes_hex02 [OF l(1)] l(3) by blast+
  then have "drop 12 g = drop 12 h" using hex_bytes_hex_byte [OF l(2)] by blast
  then show "g = h" using t by (metis append_take_drop_id)
qed simp

theorem datasharing_segment_name_inject_witness:
  "datasharing_segment_name [1, 15, 64, 236, 82, 0, 134, 147, 0, 0, 0, 0, 0, 1, 20, 3] \<noteq>
   datasharing_segment_name [1, 15, 64, 236, 82, 0, 134, 147, 0, 0, 0, 0, 0, 18, 4, 3]"
  by (subst datasharing_segment_name_inject) simp_all

subsection \<open>The warnings of a scan\<close>

definition nearly_full :: "shm_info \<Rightarrow> bool" where
  "nearly_full info \<longleftrightarrow> 0 < total_bytes info \<and>
     (free_bytes info < kNearlyFullFreeBytes \<or>
      d_le (d_mul kNearlyFullRatio (d_of_nat (unat (total_bytes info))))
           (d_of_nat (unat (used_bytes info))))"

lemma fold_check_port_warnings [simp]:
  "shm_warnings (fold (check_port inp sc) ps info) = shm_warnings info"
  "shm_listed (fold (check_port inp sc) ps info) = shm_listed info"
  by (induction ps arbitrary: info) (simp_all add: check_port_def Let_def)

lemma nearly_full_stages [simp]:
  "nearly_full (info\<lparr>shm_warnings := ws\<rparr>) = nearly_full info"
  "nearly_full (judge_ports info) = nearly_full info"
  "nearly_full (add_stale_warning info) = nearly_full info"
  "nearly_full (add_capacity_warning info) = nearly_full info"
  by (simp_all add: nearly_full_def judge_ports_def add_stale_warning_def add_capacity_warning_def
      Let_def)

lemma add_capacity_warning_alt:
  "add_capacity_warning info =
     (if nearly_full info then info\<lparr>shm_warnings := shm_warnings info @ [''shm-nearly-full'']\<rparr>
      else info)"
  by (simp only: add_capacity_warning_def nearly_full_def)

lemma judge_ports_warnings:
  "shm_warnings (judge_ports info) =
     shm_warnings info @ (if nodes_visible (judge_ports info) then [] else [''shm-not-visible''])"
  "nodes_visible (judge_ports info) \<longleftrightarrow> missing_ports info = [] \<and> other_host_participants info = 0"
  "shm_listed (judge_ports info) = shm_listed info"
  "other_host_participants (judge_ports info) = other_host_participants info"
  by (simp_all add: judge_ports_def Let_def)

lemma add_stale_warnings:
  "shm_warnings (add_stale_warning info) = shm_warnings info @
     (if 0 < stale_segments info + stale_ports info then [''shm-stale-files''] else [])"
  "nodes_visible (add_stale_warning info) = nodes_visible info"
  "shm_listed (add_stale_warning info) = shm_listed info"
  "other_host_participants (add_stale_warning info) = other_host_participants info"
  "stale_segments (add_stale_warning info) = stale_segments info"
  "stale_ports (add_stale_warning info) = stale_ports info"
  by (simp_all add: add_stale_warning_def)

lemma add_capacity_warnings:
  "shm_warnings (add_capacity_warning info) =
     shm_warnings info @ (if nearly_full info then [''shm-nearly-full''] else [])"
  "nodes_visible (add_capacity_warning info) = nodes_visible info"
  "shm_listed (add_capacity_warning info) = shm_listed info"
  "other_host_participants (add_capacity_warning info) = other_host_participants info"
  "stale_segments (add_capacity_warning info) = stale_segments info"
  "stale_ports (add_capacity_warning info) = stale_ports info"
  by (simp_all add: add_capacity_warning_alt)

lemmas warning_stages = judge_ports_warnings add_stale_warnings add_capacity_warnings

lemma scan_not_listed:
  assumes "env_statvfs env path = None \<or> env_readdir env path = None"
  shows "shm_warnings (scan_shm env path inp) = []" "\<not> shm_listed (scan_shm env path inp)"
    "nodes_visible (scan_shm env path inp)" "missing_ports (scan_shm env path inp) = []"
    "other_host_participants (scan_shm env path inp) = 0"
  using assms
  by (auto simp: scan_shm_def shm_info0_def Let_def simp del: sub_num_simps split: option.split)

text \<open>
  A directory that cannot be opened is not warned about, however full its file system is:
  \<open>scan_shm\<close> returns before it looks at the figures it has already read.
\<close>

lemma unlisted_not_warned:
  "let info = scan_shm ((sample_env [] [])\<lparr>env_statvfs := (\<lambda>_. Some (1, 0, 4096)), env_readdir := (\<lambda>_. None)\<rparr>)
       ''/s'' (sample_input [])
   in shm_available info \<and> nearly_full info \<and> shm_warnings info = []"
  by (simp add: scan_shm_def shm_info0_def sample_env_def nearly_full_def kNearlyFullFreeBytes_def Let_def)


end
