(* ===== verification/Observer.thy ===== *)
theory Observer
  imports Spelling Discovery
begin

text \<open>
  What the tool learns from discovery: the listener of the domain participant
  (\<open>src/discovery_observer.cpp\<close>), the reader of \<open>ros_discovery_info\<close>
  (\<open>src/ros_discovery_info_observer.cpp\<close>), the names of the ROS graph
  (\<open>src/ros_graph_resolver.cpp\<close>) and the check of the middleware (\<open>src/rmw_check.cpp\<close>).

  What Fast DDS hands to a callback is a record of the announced values, as the accessors of
  \<open>fastdds_compat.hpp\<close> read them. The functions of \<open>IPLocator\<close> are the record \<open>ip_locator\<close>, a
  parameter; \<open>steady_clock::now()\<close> is an argument of every event.
\<close>

subsection \<open>Locators\<close>

datatype rtps_kind = KindUDPv4 | KindUDPv6 | KindTCPv4 | KindTCPv6 | KindSHM | KindOther

record rtps_locator =
  rl_kind :: rtps_kind
  rl_port :: u32
  rl_address :: "u8 list"

record ip_locator =
  to_ipv4_string :: "rtps_locator \<Rightarrow> string"
  to_ipv6_string :: "rtps_locator \<Rightarrow> string"
  physical_port :: "rtps_locator \<Rightarrow> u32"
  is_multicast :: "rtps_locator \<Rightarrow> bool"

definition convert_locator :: "ip_locator \<Rightarrow> rtps_locator \<Rightarrow> locator" where
  "convert_locator ip l =
     (let out = locator0\<lparr>loc_port := rl_port l\<rparr>
      in case rl_kind l of
           KindUDPv4 \<Rightarrow> out\<lparr>loc_kind := LocUDPv4, loc_address := to_ipv4_string ip l\<rparr>
         | KindUDPv6 \<Rightarrow> out\<lparr>loc_kind := LocUDPv6, loc_address := to_ipv6_string ip l\<rparr>
         | KindTCPv4 \<Rightarrow> out\<lparr>loc_kind := LocTCPv4, loc_address := to_ipv4_string ip l,
                            loc_port := physical_port ip l\<rparr>
         | KindTCPv6 \<Rightarrow> out\<lparr>loc_kind := LocTCPv6, loc_address := to_ipv6_string ip l,
                            loc_port := physical_port ip l\<rparr>
         | KindSHM \<Rightarrow> out\<lparr>loc_kind := LocSHM\<rparr>
         | KindOther \<Rightarrow> out\<lparr>loc_kind := LocInvalid\<rparr>)"

definition non_shm_unicast_locators :: "ip_locator \<Rightarrow> rtps_locator list \<Rightarrow> rtps_locator list" where
  "non_shm_unicast_locators ip listening =
     filter (\<lambda>l. rl_kind l \<noteq> KindSHM \<and> \<not> is_multicast ip l) listening"

text \<open>
  The probe reader: \<open>None\<close> when it could not be created, \<open>Some None\<close> when it did not tell its
  locators.
\<close>

definition probe_non_shm_unicast_locators ::
  "ip_locator \<Rightarrow> rtps_locator list option option \<Rightarrow> rtps_locator list" where
  "probe_non_shm_unicast_locators ip probe =
     (case probe of Some (Some listening) \<Rightarrow> non_shm_unicast_locators ip listening | _ \<Rightarrow> [])"

subsection \<open>Announced QoS\<close>

datatype reliability_kind = BestEffortReliability | Reliable

datatype durability_kind = Volatile | TransientLocal | Transient | Persistent | DurabilityOther

datatype liveliness_kind = Automatic | ManualByParticipant | ManualByTopic | LivelinessOther

datatype ownership_kind = Shared | Exclusive

datatype ds_policy_kind = PolicyOff | PolicyOn | PolicyAuto | PolicyOther

record dds_duration =
  dur_seconds :: int      \<comment> \<open>32 bits, signed\<close>
  dur_nanosec :: u32

fun reliability_to_string :: "reliability_kind \<Rightarrow> string" where
  "reliability_to_string Reliable = ''RELIABLE''"
| "reliability_to_string BestEffortReliability = ''BEST_EFFORT''"

fun durability_to_string :: "durability_kind \<Rightarrow> string" where
  "durability_to_string Volatile = ''VOLATILE''"
| "durability_to_string TransientLocal = ''TRANSIENT_LOCAL''"
| "durability_to_string Transient = ''TRANSIENT''"
| "durability_to_string Persistent = ''PERSISTENT''"
| "durability_to_string DurabilityOther = ''UNKNOWN''"

fun liveliness_to_string :: "liveliness_kind \<Rightarrow> string" where
  "liveliness_to_string Automatic = ''AUTOMATIC''"
| "liveliness_to_string ManualByParticipant = ''MANUAL_BY_PARTICIPANT''"
| "liveliness_to_string ManualByTopic = ''MANUAL_BY_TOPIC''"
| "liveliness_to_string LivelinessOther = ''UNKNOWN''"

fun ownership_to_string :: "ownership_kind \<Rightarrow> string" where
  "ownership_to_string Exclusive = ''EXCLUSIVE''"
| "ownership_to_string Shared = ''SHARED''"

fun ds_kind_of_policy :: "ds_policy_kind \<Rightarrow> data_sharing_kind" where
  "ds_kind_of_policy PolicyOff = DsOff"
| "ds_kind_of_policy PolicyOn = DsOn"
| "ds_kind_of_policy PolicyAuto = DsAuto"
| "ds_kind_of_policy PolicyOther = DsUnknown"

definition fill_data_sharing :: "ds_policy_kind \<Rightarrow> u64 list \<Rightarrow> endpoint_qos \<Rightarrow> endpoint_qos" where
  "fill_data_sharing kind domain_ids out =
     out\<lparr>data_sharing := ds_kind_of_policy kind, data_sharing_domains := domain_ids\<rparr>"

definition duration_seconds :: "dds_duration \<Rightarrow> double" where
  "duration_seconds d =
     (if dur_seconds d = 0x7fffffff \<or> dur_nanosec d = 0xffffffff then PInf
      else d_add (rnd (of_int (dur_seconds d)))
                 (d_div (d_of_nat (unat (dur_nanosec d))) (Fin 1000000000)))"

subsection \<open>Announced participants and endpoints\<close>

record participant_proxy =
  pp_prefix :: "u8 list"
  pp_properties :: "(string \<times> string) list"
  pp_name :: string
  pp_vendor :: "u8 list"
  pp_metatraffic_unicast :: "rtps_locator list"

text \<open>The discriminator of a TypeIdentifier and the hash it carries; \<open>None\<close> when not assigned.\<close>

datatype type_identifier_kind = EkComplete | EkMinimal | TkNone

record endpoint_proxy =
  px_guid :: "u8 list"
  px_topic :: string
  px_type :: string
  px_user_data :: string
  px_type_information :: "((type_identifier_kind \<times> u8 list) \<times> (type_identifier_kind \<times> u8 list)) option"
  px_unicast :: "rtps_locator list"
  px_multicast :: "rtps_locator list"
  px_reliability :: reliability_kind
  px_durability :: durability_kind
  px_data_sharing :: ds_policy_kind
  px_data_sharing_domains :: "u64 list"
  px_deadline :: dds_duration
  px_liveliness :: liveliness_kind
  px_lease :: dds_duration
  px_ownership :: ownership_kind
  px_partitions :: "string list"

definition make_participant_data :: "ip_locator \<Rightarrow> participant_proxy \<Rightarrow> participant_data" where
  "make_participant_data ip data =
     \<lparr>pd_host_id = take 4 (pp_prefix data),
      pd_discovery_protocol =
        fold (\<lambda>p proto. if fst p = ''PARTICIPANT_TYPE'' then snd p else proto) (pp_properties data) [],
      pd_name = pp_name data,
      pd_vendor = (if pp_vendor data ! 0 = 0x01 \<and> pp_vendor data ! 1 = 0x0F then ''eProsima''
                   else hex02 (pp_vendor data ! 0) @ ''.'' @ hex02 (pp_vendor data ! 1)),
      pd_metatraffic_locators = map (convert_locator ip) (pp_metatraffic_unicast data)\<rparr>"

definition disc_type_information_hash_of :: "bool \<Rightarrow> endpoint_proxy \<Rightarrow> type_identifier_kind \<Rightarrow> string" where
  "disc_type_information_hash_of v3 d kind =
     (case px_type_information d of
        None \<Rightarrow> []
      | Some (cmpl, minl) \<Rightarrow>
          (if \<not> v3 then []
           else
             (let tid = (if kind = EkComplete then cmpl else minl)
              in if fst tid \<noteq> kind then [] else concat (map hex02 (snd tid)))))"

text \<open>
  \<open>fastdds3\<close> is the build with Fast DDS 3, \<open>filtered\<close> the constant
  \<open>FTV_SAME_HOST_LOCATORS_FILTERED\<close>.
\<close>

record build =
  fastdds3 :: bool
  same_host_filtered :: bool
  stats_instance_limit :: bool

definition make_endpoint :: "build \<Rightarrow> ip_locator \<Rightarrow> endpoint_proxy \<Rightarrow> bool \<Rightarrow> endpoint" where
  "make_endpoint b ip data writer =
     (let g = px_guid data; ros = demangle_topic (px_topic data)
      in endpoint0\<lparr>is_writer := writer,
           guid := guid_to_string g,
           guid_bytes := g,
           ep_host_id := take 4 g,
           participant_guid_prefix := prefix_to_string (take 12 g),
           dds_topic := px_topic data,
           dds_type := px_type data,
           ros_topic := (if rn_kind ros \<noteq> NotRos then rn_name ros else []),
           ros_type := demangle_type (px_type data),
           type_hash := parse_type_hash (px_user_data data),
           type_information_hash := disc_type_information_hash_of (fastdds3 b) data EkComplete,
           type_information_minimal_hash := disc_type_information_hash_of (fastdds3 b) data EkMinimal,
           unicast := map (convert_locator ip) (px_unicast data),
           multicast := map (convert_locator ip) (px_multicast data),
           qos := (fill_data_sharing (px_data_sharing data) (px_data_sharing_domains data) endpoint_qos0)
             \<lparr>reliability := reliability_to_string (px_reliability data),
              durability := durability_to_string (px_durability data),
              deadline_s := duration_seconds (px_deadline data),
              liveliness := liveliness_to_string (px_liveliness data),
              liveliness_lease_s := duration_seconds (px_lease data),
              ownership := ownership_to_string (px_ownership data),
              partitions := px_partitions data\<rparr>,
           same_host_locators_filtered := same_host_filtered b\<rparr>)"

subsection \<open>The discovery observer\<close>

record discovery_observer =
  ob_endpoints :: "(string, endpoint) omap"
  ob_participants :: "(participant_prefix, participant_data) omap"
  ob_last_event :: int
  ob_event_count :: nat

definition observer0 :: "int \<Rightarrow> discovery_observer" where
  "observer0 now = \<lparr>ob_endpoints = [], ob_participants = [], ob_last_event = now, ob_event_count = 0\<rparr>"

datatype discovery_status_kind = Discovered | ChangedQos | Removed | Dropped | Ignored | OtherStatus

datatype discovery_event =
    ParticipantEvent discovery_status_kind participant_proxy
  | EndpointEvent bool discovery_status_kind endpoint_proxy

definition touch :: "int \<Rightarrow> discovery_observer \<Rightarrow> discovery_observer" where
  "touch now ob = ob\<lparr>ob_last_event := now, ob_event_count := ob_event_count ob + 1\<rparr>"

definition upsert :: "int \<Rightarrow> endpoint \<Rightarrow> discovery_observer \<Rightarrow> discovery_observer" where
  "upsert now e ob = touch now (ob\<lparr>ob_endpoints := om_put (guid e) e (ob_endpoints ob)\<rparr>)"

definition erase :: "int \<Rightarrow> string \<Rightarrow> discovery_observer \<Rightarrow> discovery_observer" where
  "erase now g ob = touch now (ob\<lparr>ob_endpoints := om_del g (ob_endpoints ob)\<rparr>)"

definition on_participant_discovery ::
  "build \<Rightarrow> ip_locator \<Rightarrow> int \<Rightarrow> discovery_status_kind \<Rightarrow> participant_proxy \<Rightarrow>
   discovery_observer \<Rightarrow> discovery_observer" where
  "on_participant_discovery b ip now status info ob =
     touch now
       (if status = Discovered \<or> status = ChangedQos
        then ob\<lparr>ob_participants :=
               om_put (pp_prefix info) (make_participant_data ip info) (ob_participants ob)\<rparr>
        else if status = Removed \<or> status = Dropped \<or> (fastdds3 b \<and> status = Ignored)
        then ob\<lparr>ob_participants := om_del (pp_prefix info) (ob_participants ob)\<rparr>
        else ob)"

definition on_endpoint_discovery ::
  "build \<Rightarrow> ip_locator \<Rightarrow> int \<Rightarrow> bool \<Rightarrow> discovery_status_kind \<Rightarrow> endpoint_proxy \<Rightarrow>
   discovery_observer \<Rightarrow> discovery_observer" where
  "on_endpoint_discovery b ip now writer status info ob =
     (if status = Discovered \<or> status = ChangedQos then upsert now (make_endpoint b ip info writer) ob
      else if status = Removed then erase now (guid_to_string (px_guid info)) ob
      else ob)"

fun on_event :: "build \<Rightarrow> ip_locator \<Rightarrow> int \<times> discovery_event \<Rightarrow> discovery_observer \<Rightarrow> discovery_observer" where
  "on_event b ip (now, ParticipantEvent status info) ob = on_participant_discovery b ip now status info ob"
| "on_event b ip (now, EndpointEvent writer status info) ob =
     on_endpoint_discovery b ip now writer status info ob"

definition observer_snapshot :: "discovery_observer \<Rightarrow> endpoint list" where
  "observer_snapshot ob = map snd (ob_endpoints ob)"

definition live_participants :: "discovery_observer \<Rightarrow> participant_prefix set" where
  "live_participants ob = set (map fst (ob_participants ob))"

definition participant_data_of :: "discovery_observer \<Rightarrow> (string, participant_data) omap" where
  "participant_data_of ob =
     fold (\<lambda>kv. om_put (prefix_to_string (fst kv)) (snd kv)) (ob_participants ob) []"

subsection \<open>Node names\<close>

text \<open>\<open>to_endpoint_gid\<close>: the first 16 bytes of an rmw gid of 24 or 16 bytes.\<close>

definition to_endpoint_gid :: "u8 list \<Rightarrow> endpoint_gid" where
  "to_endpoint_gid g = take 16 g @ replicate (16 - length g) 0"

record node_entities_msg =
  nm_namespace :: string
  nm_name :: string
  nm_reader_gids :: "u8 list list"
  nm_writer_gids :: "u8 list list"

record participant_entities_msg =
  pm_gid :: "u8 list"
  pm_nodes :: "node_entities_msg list"

definition to_node_entities :: "node_entities_msg \<Rightarrow> node_entities" where
  "to_node_entities n = \<lparr>ne_namespace = nm_namespace n, ne_name = nm_name n,
     ne_reader_gids = map to_endpoint_gid (nm_reader_gids n),
     ne_writer_gids = map to_endpoint_gid (nm_writer_gids n)\<rparr>"

text \<open>A taken sample is \<open>None\<close> when its data is not valid.\<close>

definition poll_step :: "participant_entities_msg option \<Rightarrow> node_name_table \<times> nat \<Rightarrow> node_name_table \<times> nat" where
  "poll_step s st =
     (case s of
        None \<Rightarrow> st
      | Some msg \<Rightarrow> (nt_update (take 12 (to_endpoint_gid (pm_gid msg)))
                        (map to_node_entities (pm_nodes msg)) (fst st), snd st + 1))"

definition poll_discovery_info ::
  "participant_entities_msg option list \<Rightarrow> node_name_table \<times> nat \<Rightarrow> node_name_table \<times> nat" where
  "poll_discovery_info taken st = fold poll_step taken st"

record topic_endpoint_info =
  ti_gid :: "u8 list"
  ti_namespace :: string
  ti_name :: string

record graph_resolver =
  gr_names :: "(endpoint_gid, string) omap"
  gr_refreshed :: bool
  gr_events_at_last_refresh :: nat

definition graph_resolver0 :: graph_resolver where
  "graph_resolver0 = \<lparr>gr_names = [], gr_refreshed = False, gr_events_at_last_refresh = 0\<rparr>"

text \<open>The graph query, topic by topic: publishers and subscriptions.\<close>

definition refresh_names ::
  "(topic_endpoint_info list \<times> topic_endpoint_info list) list \<Rightarrow> (endpoint_gid, string) omap" where
  "refresh_names graph =
     fold (\<lambda>topic fresh.
       fold (\<lambda>info. om_put (to_endpoint_gid (ti_gid info))
              (normalize_node_name (fully_qualified_node_name (ti_namespace info) (ti_name info))))
         (fst topic @ snd topic) fresh) graph []"

text \<open>
  \<open>Inl\<close> is the exception of the graph query; it is swallowed when the context was shut down
  (\<open>ok = False\<close>), and then the names stay.
\<close>

definition refresh_graph ::
  "(string + (topic_endpoint_info list \<times> topic_endpoint_info list) list) \<Rightarrow> bool \<Rightarrow> graph_resolver \<Rightarrow>
   string + graph_resolver" where
  "refresh_graph query ok gr =
     (case query of
        Inr graph \<Rightarrow> Inr (gr\<lparr>gr_names := refresh_names graph\<rparr>)
      | Inl e \<Rightarrow> if ok then Inl e else Inr gr)"

definition refresh_if_changed ::
  "(string + (topic_endpoint_info list \<times> topic_endpoint_info list) list) \<Rightarrow> bool \<Rightarrow> nat \<Rightarrow> double \<Rightarrow>
   graph_resolver \<Rightarrow> string + (bool \<times> graph_resolver)" where
  "refresh_if_changed query ok events seconds gr =
     (if \<not> should_refresh_graph (gr_refreshed gr) events (gr_events_at_last_refresh gr) seconds
      then Inr (False, gr)
      else case refresh_graph query ok gr of
             Inl e \<Rightarrow> Inl e
           | Inr gr \<Rightarrow> Inr (True, gr\<lparr>gr_refreshed := True, gr_events_at_last_refresh := events\<rparr>))"

definition node_for_guid :: "graph_resolver \<Rightarrow> endpoint_gid \<Rightarrow> string" where
  "node_for_guid gr g = (case om_get (gr_names gr) g of None \<Rightarrow> [] | Some n \<Rightarrow> n)"

subsection \<open>The middleware\<close>

definition kSupportedRmw :: string where
  "kSupportedRmw = ''rmw_fastrtps_cpp''"

definition kSupportedRmwDynamic :: string where
  "kSupportedRmwDynamic = ''rmw_fastrtps_dynamic_cpp''"

text \<open>\<open>Inr ()\<close> is \<open>Accept\<close>, \<open>Inl\<close> is \<open>Reject\<close> with its message.\<close>

definition rmw_verdict :: "string option \<Rightarrow> string \<Rightarrow> string \<Rightarrow> string + unit" where
  "rmw_verdict identifier requested load_error =
     (case identifier of
        None \<Rightarrow> Inl (''cannot load the RMW named by RMW_IMPLEMENTATION='' @
                 (if requested = [] then ''(unset)'' else requested) @
                 (if load_error = [] then [] else '': '' @ load_error))
      | Some name \<Rightarrow>
          (if name = kSupportedRmw \<or> name = kSupportedRmwDynamic then Inr ()
           else Inl (''RMW is '' @ name @ ''; this tool observes Fast DDS and needs '' @ kSupportedRmw @
                  '' (set RMW_IMPLEMENTATION='' @ kSupportedRmw @
                  '', see Limitations in the README)'')))"

end
