(* ===== verification/Observer_Props.thy ===== *)
theory Observer_Props
  imports Observer Spelling_Props Discovery_Props
begin

text \<open>
  The discovery observer refines its event log: what it knows of an endpoint or a participant is
  what the last event about it said. Its snapshot satisfies what the rules over endpoints assume
  of GUIDs, and the tables of participants and node names lose nothing in their string keys.
\<close>

subsection \<open>The log of events\<close>

definition run_events :: "build \<Rightarrow> ip_locator \<Rightarrow> int \<Rightarrow> (int \<times> discovery_event) list \<Rightarrow> discovery_observer" where
  "run_events b ip start evs = fold (on_event b ip) evs (observer0 start)"

text \<open>What an event says of the endpoint \<open>g\<close>: nothing, that it is gone, or what it is.\<close>

definition says_of_endpoint ::
  "build \<Rightarrow> ip_locator \<Rightarrow> string \<Rightarrow> discovery_event \<Rightarrow> endpoint option option" where
  "says_of_endpoint b ip g ev =
     (case ev of
        EndpointEvent writer status info \<Rightarrow>
          (if guid_to_string (px_guid info) \<noteq> g then None
           else if status = Discovered \<or> status = ChangedQos then Some (Some (make_endpoint b ip info writer))
           else if status = Removed then Some None else None)
      | _ \<Rightarrow> None)"

definition says_of_participant ::
  "build \<Rightarrow> ip_locator \<Rightarrow> participant_prefix \<Rightarrow> discovery_event \<Rightarrow> participant_data option option" where
  "says_of_participant b ip p ev =
     (case ev of
        ParticipantEvent status info \<Rightarrow>
          (if pp_prefix info \<noteq> p then None
           else if status = Discovered \<or> status = ChangedQos then Some (Some (make_participant_data ip info))
           else if status = Removed \<or> status = Dropped \<or> (fastdds3 b \<and> status = Ignored) then Some None
           else None)
      | _ \<Rightarrow> None)"

text \<open>The last word of a log, \<open>d\<close> when nothing was said.\<close>

definition last_word :: "('e \<Rightarrow> 'a option) \<Rightarrow> 'a \<Rightarrow> 'e list \<Rightarrow> 'a" where
  "last_word says d evs =
     last (d # List.map_filter says evs)"

lemma last_word_Nil [simp]: "last_word says d [] = d"
  by (simp add: last_word_def List.map_filter_simps)

lemma last_word_snoc [simp]:
  "last_word says d (evs @ [e]) = (case says e of None \<Rightarrow> last_word says d evs | Some w \<Rightarrow> w)"
  by (simp add: last_word_def List.map_filter_def split: option.split)

lemma run_events_snoc:
  "run_events b ip start (evs @ [e]) = on_event b ip e (run_events b ip start evs)"
  by (simp add: run_events_def)

lemma run_events_Nil: "run_events b ip start [] = observer0 start"
  by (simp add: run_events_def)

lemmas handler_defs = on_endpoint_discovery_def on_participant_discovery_def upsert_def erase_def
  touch_def

lemma guid_make_endpoint [simp]: "guid (make_endpoint b ip info writer) = guid_to_string (px_guid info)"
  by (simp add: make_endpoint_def Let_def)

lemma on_event_ok:
  assumes "om_ok (ob_endpoints ob)" "om_ok (ob_participants ob)"
  shows "om_ok (ob_endpoints (on_event b ip e ob))" "om_ok (ob_participants (on_event b ip e ob))"
  using assms by (cases "(b, ip, e, ob)" rule: on_event.cases; simp add: handler_defs)+

lemma run_events_ok:
  "om_ok (ob_endpoints (run_events b ip start evs)) \<and> om_ok (ob_participants (run_events b ip start evs))"
proof (induction evs rule: rev_induct)
  case Nil
  then show ?case by (simp add: run_events_Nil observer0_def)
next
  case (snoc e evs)
  then show ?case using on_event_ok by (simp add: run_events_snoc)
qed

lemma on_event_endpoint:
  assumes "om_ok (ob_endpoints ob)"
  shows "om_get (ob_endpoints (on_event b ip e ob)) g =
     (case says_of_endpoint b ip g (snd e) of None \<Rightarrow> om_get (ob_endpoints ob) g | Some w \<Rightarrow> w)"
  using assms
  by (cases "(b, ip, e, ob)" rule: on_event.cases)
    (auto simp: handler_defs says_of_endpoint_def)

lemma on_event_participant:
  assumes "om_ok (ob_participants ob)"
  shows "om_get (ob_participants (on_event b ip e ob)) p =
     (case says_of_participant b ip p (snd e) of None \<Rightarrow> om_get (ob_participants ob) p | Some w \<Rightarrow> w)"
  using assms
  by (cases "(b, ip, e, ob)" rule: on_event.cases)
    (auto simp: handler_defs says_of_participant_def)

text \<open>The events that count: every participant event, and the endpoint events with an effect.\<close>

definition event_counts :: "discovery_event \<Rightarrow> bool" where
  "event_counts ev =
     (case ev of EndpointEvent _ status _ \<Rightarrow> status = Discovered \<or> status = ChangedQos \<or> status = Removed
      | _ \<Rightarrow> True)"

lemma on_event_count:
  "ob_event_count (on_event b ip e ob) = ob_event_count ob + (if event_counts (snd e) then 1 else 0)"
  "ob_last_event (on_event b ip e ob) = (if event_counts (snd e) then fst e else ob_last_event ob)"
  by (cases "(b, ip, e, ob)" rule: on_event.cases; auto simp: handler_defs event_counts_def)+

text \<open>
  C12. After any sequence of discovery callbacks the observer knows of every endpoint and of every
  participant exactly what the last callback about it said; it has counted every participant callback and
  every endpoint callback that tells of a discovery, a change of QoS or a removal, whether or not a table
  changed, and it remembers the time of the last of them.
\<close>

theorem observer_refines_log:
  "om_get (ob_endpoints (run_events b ip start evs)) g =
     last_word (says_of_endpoint b ip g) None (map snd evs) \<and>
   om_get (ob_participants (run_events b ip start evs)) p =
     last_word (says_of_participant b ip p) None (map snd evs) \<and>
   ob_event_count (run_events b ip start evs) = length (filter event_counts (map snd evs)) \<and>
   ob_last_event (run_events b ip start evs) =
     last_word (\<lambda>e. if event_counts (snd e) then Some (fst e) else None) start evs"
proof (induction evs rule: rev_induct)
  case Nil
  then show ?case by (simp add: run_events_Nil observer0_def)
next
  case (snoc e evs)
  have ok: "om_ok (ob_endpoints (run_events b ip start evs))"
    "om_ok (ob_participants (run_events b ip start evs))"
    using run_events_ok by blast+
  show ?case
    using snoc
    by (simp add: run_events_snoc on_event_endpoint [OF ok(1)] on_event_participant [OF ok(2)]
        on_event_count split: option.split)
qed

subsection \<open>The snapshot\<close>

lemma length_hex_bytes:
  "xs \<noteq> [] \<Longrightarrow> length (hex_bytes hex02 sep fin xs) =
     2 * length xs + (length xs - 1) * length sep + length fin"
proof (induction xs)
  case (Cons x xs)
  then show ?case by (cases xs) (simp_all add: hex02_def)
qed simp

lemma length_guid_text: "length g = 16 \<Longrightarrow> length (guid_to_string g) = 47"
  by (subst guid_to_string_def, subst length_append, subst length_hex_bytes, force,
      subst length_hex_bytes, force, simp)

definition endpoint_of_bytes :: "endpoint \<Rightarrow> bool" where
  "endpoint_of_bytes e \<longleftrightarrow> length (guid_bytes e) = 16 \<and> guid e = guid_to_string (guid_bytes e) \<and>
     ep_host_id e = take 4 (guid_bytes e) \<and>
     participant_guid_prefix e = prefix_to_string (take 12 (guid_bytes e))"

lemma make_endpoint_of_bytes:
  "length (px_guid info) = 16 \<Longrightarrow> endpoint_of_bytes (make_endpoint b ip info writer)"
  by (simp add: endpoint_of_bytes_def make_endpoint_def Let_def)

definition guids_16 :: "(int \<times> discovery_event) list \<Rightarrow> bool" where
  "guids_16 evs \<longleftrightarrow> list_all (\<lambda>e. case snd e of EndpointEvent _ _ info \<Rightarrow> length (px_guid info) = 16
     | _ \<Rightarrow> True) evs"

definition endpoints_of_bytes :: "discovery_observer \<Rightarrow> bool" where
  "endpoints_of_bytes ob \<longleftrightarrow> list_all (\<lambda>kv. fst kv = guid (snd kv) \<and> endpoint_of_bytes (snd kv)) (ob_endpoints ob)"

lemma on_event_of_bytes:
  assumes "endpoints_of_bytes ob" "guids_16 [e]"
  shows "endpoints_of_bytes (on_event b ip e ob)"
  using assms set_om_put set_om_del
  by (cases "(b, ip, e, ob)" rule: on_event.cases)
    (fastforce simp: handler_defs endpoints_of_bytes_def list_all_iff guids_16_def
      make_endpoint_of_bytes)+

lemma run_events_of_bytes: "guids_16 evs \<Longrightarrow> endpoints_of_bytes (run_events b ip start evs)"
proof (induction evs rule: rev_induct)
  case Nil
  then show ?case by (simp add: run_events_Nil observer0_def endpoints_of_bytes_def)
next
  case (snoc e evs)
  then show ?case using on_event_of_bytes by (simp add: run_events_snoc guids_16_def)
qed

text \<open>
  Whatever was announced with 16-byte GUIDs, the snapshot lists every endpoint once, in the order
  of its GUID text, with the host id and the participant prefix of its GUID; so it satisfies what
  the counting of measurable pairs assumes.
\<close>

theorem observer_snapshot_wf:
  assumes "guids_16 evs"
  shows "sorted_wrt (<) (map guid (observer_snapshot (run_events b ip start evs))) \<and>
     list_all endpoint_of_bytes (observer_snapshot (run_events b ip start evs)) \<and>
     guids_ok (observer_snapshot (run_events b ip start evs))"
proof -
  let ?m = "ob_endpoints (run_events b ip start evs)"
  have inv: "list_all (\<lambda>kv. fst kv = guid (snd kv) \<and> endpoint_of_bytes (snd kv)) ?m"
    using run_events_of_bytes [OF assms] by (simp add: endpoints_of_bytes_def)
  then have keys: "map guid (map snd ?m) = map fst ?m"
    by (simp add: list_all_iff)
  have s: "sorted_wrt (<) (map fst ?m)"
    using run_events_ok by (simp add: om_ok_def)
  have e: "list_all endpoint_of_bytes (map snd ?m)"
    using inv by (simp add: list_all_iff)
  then have "list_all (\<lambda>e. length (guid_bytes e) = 16 \<and> length (guid e) \<noteq> 8) (map snd ?m)"
    by (auto simp: list_all_iff endpoint_of_bytes_def length_guid_text)
  moreover have "distinct (map guid (map snd ?m))"
    using s unfolding keys by (simp add: strict_sorted_iff)
  ultimately show ?thesis
    using s e unfolding keys [symmetric] by (simp add: observer_snapshot_def guids_ok_def)
qed

subsection \<open>Participants by the text of their prefix\<close>

lemma hex_text_inject:
  assumes "length p = 12" "length q = 12"
  shows "prefix_to_string p = prefix_to_string q \<longleftrightarrow> p = q"
proof
  assume e: "prefix_to_string p = prefix_to_string q"
  have s: "scan_guid (prefix_to_string r @ []) [] = Some r" if "length r = 12" for r
  proof -
    have "r \<noteq> []" using that by auto
    from scan_bytes [OF this, of "[]" "[]" "[]"] that show ?thesis
      by (simp add: prefix_to_string_def)
  qed
  show "p = q" using s [OF assms(1)] s [OF assms(2)] e by simp
qed simp

lemma get_fold_key_other:
  "om_ok m \<Longrightarrow> j \<notin> key ` set (map fst xs) \<Longrightarrow>
   om_get (fold (\<lambda>kv. om_put (key (fst kv)) (snd kv)) xs m) j = om_get m j"
  by (induction xs arbitrary: m) auto

lemma get_fold_key_put:
  assumes "om_ok m" "inj_on key (set (map fst xs))" "distinct (map fst xs)" "k \<in> set (map fst xs)"
  shows "om_get (fold (\<lambda>kv. om_put (key (fst kv)) (snd kv)) xs m) (key k) = map_of xs k"
  using assms
proof (induction xs arbitrary: m)
  case Nil
  then show ?case by simp
next
  case (Cons x xs)
  have ok: "om_ok (om_put (key (fst x)) (snd x) m)" using Cons.prems by simp
  have inj: "inj_on key (set (map fst xs))" using Cons.prems(2) by (simp add: inj_on_def)
  show ?case
  proof (cases "k = fst x")
    case True
    have "key (fst x) \<notin> key ` set (map fst xs)"
      using Cons.prems(2,3) by (auto simp: inj_on_def)
    then show ?thesis using get_fold_key_other [OF ok, of "key (fst x)" key xs] True Cons.prems(1) by simp
  next
    case False
    then have k: "k \<in> set (map fst xs)" using Cons.prems(4) by simp
    show ?thesis using Cons.IH [OF ok inj _ k] Cons.prems(3) False by simp
  qed
qed

definition prefixes_12 :: "(int \<times> discovery_event) list \<Rightarrow> bool" where
  "prefixes_12 evs \<longleftrightarrow> list_all (\<lambda>e. case snd e of ParticipantEvent _ info \<Rightarrow> length (pp_prefix info) = 12
     | _ \<Rightarrow> True) evs"

lemma run_events_prefixes:
  "prefixes_12 evs \<Longrightarrow> p \<in> live_participants (run_events b ip start evs) \<Longrightarrow> length p = 12"
proof (induction evs rule: rev_induct)
  case Nil
  then show ?case by (simp add: run_events_Nil observer0_def live_participants_def)
next
  case (snoc e evs)
  let ?ob = "run_events b ip start evs"
  have "p \<in> live_participants (on_event b ip e ?ob) \<Longrightarrow>
      p \<in> live_participants ?ob \<or> (\<exists>status info. snd e = ParticipantEvent status info \<and> p = pp_prefix info)"
    using set_om_del [of _ "ob_participants ?ob"]
    by (cases "(b, ip, e, ?ob)" rule: on_event.cases)
      (auto simp: handler_defs live_participants_def split: if_splits)
  then show ?case using snoc by (auto simp: run_events_snoc prefixes_12_def)
qed

text \<open>
  The table of participants by the text of their prefix holds what each live participant
  announced: no two prefixes share a text.
\<close>

theorem participant_data_lookup:
  assumes "prefixes_12 evs" "p \<in> live_participants (run_events b ip start evs)"
  shows "om_get (participant_data_of (run_events b ip start evs)) (prefix_to_string p) =
     last_word (says_of_participant b ip p) None (map snd evs)"
proof -
  let ?m = "ob_participants (run_events b ip start evs)"
  have "inj_on prefix_to_string (set (map fst ?m))"
    using run_events_prefixes [OF assms(1)]
    by (auto simp: inj_on_def live_participants_def hex_text_inject)
  moreover have "distinct (map fst ?m)"
    using run_events_ok om_ok_distinct by blast
  moreover have "p \<in> set (map fst ?m)"
    using assms(2) by (simp add: live_participants_def)
  ultimately have "om_get (participant_data_of (run_events b ip start evs)) (prefix_to_string p) = om_get ?m p"
    unfolding participant_data_of_def by (rule get_fold_key_put [OF om_ok_Nil])
  moreover have "om_get ?m p = last_word (says_of_participant b ip p) None (map snd evs)"
  proof (induction evs rule: rev_induct)
    case Nil
    then show ?case by (simp add: run_events_Nil observer0_def)
  next
    case (snoc e evs)
    have "om_ok (ob_participants (run_events b ip start evs))" using run_events_ok by blast
    from on_event_participant [OF this] snoc show ?case
      by (simp add: run_events_snoc split: option.split)
  qed
  ultimately show ?thesis by simp
qed

definition sample_ip :: ip_locator where
  "sample_ip = \<lparr>to_ipv4_string = (\<lambda>_. ''10.0.0.1''), to_ipv6_string = (\<lambda>_. ''::1''),
     physical_port = rl_port, is_multicast = (\<lambda>_. False)\<rparr>"

definition sample_build :: build where
  "sample_build = \<lparr>fastdds3 = True, same_host_filtered = False, stats_instance_limit = False\<rparr>"

definition sample_proxy :: "u8 \<Rightarrow> endpoint_proxy" where
  "sample_proxy n = \<lparr>px_guid = replicate 12 1 @ [0, 0, n, 3], px_topic = ''rt/chatter'',
     px_type = ''std_msgs::msg::dds_::String_'', px_user_data = [], px_type_information = None,
     px_unicast = [], px_multicast = [], px_reliability = Reliable, px_durability = Volatile,
     px_data_sharing = PolicyOff, px_data_sharing_domains = [],
     px_deadline = \<lparr>dur_seconds = 0x7fffffff, dur_nanosec = 0xffffffff\<rparr>,
     px_liveliness = Automatic, px_lease = \<lparr>dur_seconds = 0x7fffffff, dur_nanosec = 0xffffffff\<rparr>,
     px_ownership = Shared, px_partitions = []\<rparr>"

definition sample_participant :: "u8 \<Rightarrow> participant_proxy" where
  "sample_participant n = \<lparr>pp_prefix = n # replicate 11 1, pp_properties = [(''PARTICIPANT_TYPE'', ''CLIENT'')],
     pp_name = ''node'', pp_vendor = [0x01, 0x0F], pp_metatraffic_unicast = []\<rparr>"

theorem observer_snapshot_wf_witness:
  "guids_ok (observer_snapshot (run_events sample_build sample_ip 0
     [(1, EndpointEvent True Discovered (sample_proxy 1)), (2, EndpointEvent False Discovered (sample_proxy 2)),
      (3, EndpointEvent True Removed (sample_proxy 1))]))"
proof -
  have "guids_16 [(1, EndpointEvent True Discovered (sample_proxy 1)),
      (2, EndpointEvent False Discovered (sample_proxy 2)), (3, EndpointEvent True Removed (sample_proxy 1))]"
    by (simp add: guids_16_def sample_proxy_def)
  from observer_snapshot_wf [OF this] show ?thesis by blast
qed

theorem participant_data_lookup_witness:
  "om_get (participant_data_of (run_events sample_build sample_ip 0
      [(1, ParticipantEvent Discovered (sample_participant 7))])) (prefix_to_string (7 # replicate 11 1))
   = Some (make_participant_data sample_ip (sample_participant 7))"
proof -
  let ?evs = "[(1, ParticipantEvent Discovered (sample_participant 7))]"
  have "prefixes_12 ?evs" by (simp add: prefixes_12_def sample_participant_def)
  moreover have "7 # replicate 11 1 \<in> live_participants (run_events sample_build sample_ip 0 ?evs)"
    by (simp add: run_events_def live_participants_def handler_defs observer0_def sample_participant_def)
  ultimately show ?thesis
    by (subst participant_data_lookup)
      (simp_all add: last_word_def List.map_filter_simps says_of_participant_def sample_participant_def)
qed

subsection \<open>Node names\<close>

definition says_of_row :: "participant_prefix \<Rightarrow> participant_entities_msg option \<Rightarrow>
    (endpoint_gid, string) omap option option" where
  "says_of_row p s =
     (case s of None \<Rightarrow> None
      | Some msg \<Rightarrow> if take 12 (to_endpoint_gid (pm_gid msg)) = p
                    then Some (Some (nt_row (map to_node_entities (pm_nodes msg)))) else None)"

definition says_of_gid :: "endpoint_gid \<Rightarrow> topic_endpoint_info \<Rightarrow> string option option" where
  "says_of_gid g info =
     (if to_endpoint_gid (ti_gid info) = g
      then Some (Some (normalize_node_name (fully_qualified_node_name (ti_namespace info) (ti_name info))))
      else None)"

lemma poll_snoc: "poll_discovery_info (taken @ [s]) st = poll_step s (poll_discovery_info taken st)"
  by (simp add: poll_discovery_info_def)

lemma refresh_names_flat:
  "refresh_names graph =
   fold (\<lambda>info. om_put (to_endpoint_gid (ti_gid info))
          (normalize_node_name (fully_qualified_node_name (ti_namespace info) (ti_name info))))
     (concat (map (\<lambda>t. fst t @ snd t) graph)) []"
proof -
  have "fold (\<lambda>t. fold f (fst t @ snd t)) graph m = fold f (concat (map (\<lambda>t. fst t @ snd t) graph)) m"
    for f :: "topic_endpoint_info \<Rightarrow> 'm \<Rightarrow> 'm" and m
    by (induction graph arbitrary: m) simp_all
  then show ?thesis by (simp only: refresh_names_def)
qed

lemma fold_put_last_word:
  assumes "\<And>x k. says k x = (if key x = k then Some (Some (val x)) else None)"
  shows "om_ok (fold (\<lambda>x. om_put (key x) (val x)) xs []) \<and>
     om_get (fold (\<lambda>x. om_put (key x) (val x)) xs []) k = last_word (says k) None xs"
  by (induction xs rule: rev_induct) (auto simp: assms)

text \<open>
  The row of a participant in the node-name table is the one of its last valid
  \<open>ros_discovery_info\<close> sample, every valid sample is counted, the ROS graph gives an endpoint the
  name that its last entry gives, and the name shown for an endpoint is never the placeholder of the
  middleware.
\<close>

theorem node_names_refine:
  "om_get (fst (poll_discovery_info taken ([], 0))) p = last_word (says_of_row p) None taken \<and>
   snd (poll_discovery_info taken ([], 0)) = length (filter (\<lambda>s. s \<noteq> None) taken) \<and>
   om_get (refresh_names graph) g =
     last_word (says_of_gid g) None (concat (map (\<lambda>t. fst t @ snd t) graph)) \<and>
   merge_node_name (node_for_guid gr h) (nt_lookup (fst (poll_discovery_info taken ([], 0))) h)
     \<noteq> kUnknownNodeName"
proof (intro conjI)
  have "om_ok (fst (poll_discovery_info taken ([], 0))) \<and>
     om_get (fst (poll_discovery_info taken ([], 0))) p = last_word (says_of_row p) None taken \<and>
     snd (poll_discovery_info taken ([], 0)) = length (filter (\<lambda>s. s \<noteq> None) taken)"
  proof (induction taken rule: rev_induct)
    case Nil
    then show ?case by (simp add: poll_discovery_info_def)
  next
    case (snoc s taken)
    then show ?case
      by (auto simp: poll_snoc poll_step_def nt_update_def says_of_row_def split: option.split)
  qed
  then show "om_get (fst (poll_discovery_info taken ([], 0))) p = last_word (says_of_row p) None taken"
    "snd (poll_discovery_info taken ([], 0)) = length (filter (\<lambda>s. s \<noteq> None) taken)"
    by blast+
  show "om_get (refresh_names graph) g =
     last_word (says_of_gid g) None (concat (map (\<lambda>t. fst t @ snd t) graph))"
    unfolding refresh_names_flat using fold_put_last_word [of says_of_gid, OF says_of_gid_def] by blast
  show "merge_node_name (node_for_guid gr h) (nt_lookup (fst (poll_discovery_info taken ([], 0))) h)
     \<noteq> kUnknownNodeName"
    by (simp add: merge_node_name_def normalize_node_name_def Let_def kUnknownNodeName_def)
qed

end
