(* ===== verification/Stats_Observer.thy ===== *)
theory Stats_Observer
  imports Observer Stats_Rules
begin

text \<open>
  The statistics observer (\<open>src/stats_observer.cpp\<close>): its listener, the draining of the readers of
  the statistics topics, the window of the delivered rate, the settle rule's numbers and the copy
  that the rules of \<open>Stats_Rules\<close> and \<open>Measure\<close> read.

  What \<open>take_next_sample\<close> returned until it returned no sample is a list per reader; the lock that
  \<open>drain\<close> hands back and forth protects the aggregate, so a run is a sequence of samples taken one
  after the other. A reader is named by its topic.
\<close>

definition kStatsRateWindowSeconds :: int where
  "kStatsRateWindowSeconds = 5"

datatype stat_reader =
    RtpsSent | HistoryLatency | PhysicalData | DataCount | RtpsLost | ResentDatas
  | HeartbeatCount | GapCount | AcknackCount | NackfragCount

definition required_env_value :: string where
  "required_env_value =
     ''RTPS_SENT_TOPIC;RTPS_LOST_TOPIC;HISTORY_LATENCY_TOPIC;PHYSICAL_DATA_TOPIC;'' @
     ''DATA_COUNT_TOPIC;RESENT_DATAS_TOPIC;'' @
     ''HEARTBEAT_COUNT_TOPIC;ACKNACK_COUNT_TOPIC;NACKFRAG_COUNT_TOPIC;GAP_COUNT_TOPIC''"

subsection \<open>The listener\<close>

record listener =
  li_lost :: u64
  li_lost_latency :: u64
  li_event_reader :: "stat_reader option"
  li_lost_at_start :: u64
  li_rejected :: u64
  li_incompatible_qos :: u64
  li_any_match :: bool
  li_last_match_ticks :: int
  li_matched :: "stat_reader \<Rightarrow> string list" \<comment> \<open>a \<open>std::set\<close> per reader, ascending; empty for none\<close>

definition listener0 :: "int \<Rightarrow> listener" where
  "listener0 now = \<lparr>li_lost = 0, li_lost_latency = 0, li_event_reader = None, li_lost_at_start = 0,
     li_rejected = 0, li_incompatible_qos = 0, li_any_match = False, li_last_match_ticks = now,
     li_matched = (\<lambda>_. [])\<rparr>"

text \<open>
  \<open>now\<close> is \<open>steady_clock::now()\<close> in ticks and \<open>seconds_of\<close> the conversion of a duration to seconds.
  A total of a status is a signed 32-bit number, cast to 64 bits.
\<close>

definition on_sample_lost ::
  "(int \<Rightarrow> double) \<Rightarrow> int \<Rightarrow> stat_reader \<Rightarrow> int \<Rightarrow> listener \<Rightarrow> listener" where
  "on_sample_lost seconds_of now reader total_count_change li =
     (let seconds = seconds_of (now - li_last_match_ticks li); n = of_int total_count_change
      in if statistics_late_join_window_open (li_any_match li) seconds
         then li\<lparr>li_lost_at_start := li_lost_at_start li + n\<rparr>
         else li\<lparr>li_lost := li_lost li + n,
                 li_lost_latency := (if li_event_reader li = Some reader then li_lost_latency li + n
                                     else li_lost_latency li)\<rparr>)"

definition on_sample_rejected :: "int \<Rightarrow> listener \<Rightarrow> listener" where
  "on_sample_rejected total_count_change li =
     li\<lparr>li_rejected := li_rejected li + of_int total_count_change\<rparr>"

definition set_insert :: "'a::linorder \<Rightarrow> 'a list \<Rightarrow> 'a list" where
  "set_insert x xs = (if List.member xs x then xs else insort x xs)"

definition on_subscription_matched ::
  "int \<Rightarrow> stat_reader \<Rightarrow> string \<Rightarrow> int \<Rightarrow> listener \<Rightarrow> listener" where
  "on_subscription_matched now reader writer current_count_change li =
     (let li = (if 0 < current_count_change
                then li\<lparr>li_matched := (li_matched li)(reader := set_insert writer (li_matched li reader))\<rparr>
                else if current_count_change < 0
                then li\<lparr>li_matched := (li_matched li)(reader := remove1 writer (li_matched li reader))\<rparr>
                else li)
      in if current_count_change \<le> 0 then li
         else li\<lparr>li_last_match_ticks := now, li_any_match := True\<rparr>)"

definition on_requested_incompatible_qos :: "int \<Rightarrow> listener \<Rightarrow> listener" where
  "on_requested_incompatible_qos total_count_change li =
     li\<lparr>li_incompatible_qos := li_incompatible_qos li + of_int total_count_change\<rparr>"

subsection \<open>The state\<close>

record pair_second =
  pse_sec :: int
  pse_window :: delivery_window

record writer_second =
  wse_sec :: int
  wse_min_seq :: u64
  wse_max_seq :: u64
  wse_samples :: u64

type_synonym traffic_key = "string \<times> nat \<times> string \<times> u32"
type_synonym lost_key = "string \<times> string \<times> nat \<times> string \<times> u32"

record stats_observer =
  so_traffic :: "(traffic_key, traffic_sample) omap"
  so_destinations :: reader_destinations
  so_lost :: "(lost_key, traffic_sample) omap"
  so_data :: stats_data
  so_heard :: "stat_reader \<Rightarrow> string set"
  so_pair_seconds :: "(string \<times> string, pair_second list) omap"
  so_writer_seconds :: "(string, writer_second list) omap"
  so_newest_second :: int
  so_sliding :: bool

definition int64_min :: int where
  "int64_min = - (2 ^ 63)"

definition stats_observer0 :: stats_observer where
  "stats_observer0 = \<lparr>so_traffic = [],
     so_destinations = \<lparr>unicast_ports = {}, multicast_locators = {}\<rparr>, so_lost = [],
     so_data = stats_data0\<lparr>enabled := True\<rparr>, so_heard = (\<lambda>_. {}), so_pair_seconds = [],
     so_writer_seconds = [], so_newest_second = int64_min, so_sliding = False\<rparr>"

subsection \<open>Samples\<close>

record sample_info =
  sa_valid :: bool
  sa_writer :: "u8 list"      \<comment> \<open>the GUID of the statistics writer\<close>
  sa_sequence :: u64
  sa_seconds :: int           \<comment> \<open>source timestamp\<close>
  sa_nanosec :: u32

record entity_traffic =
  et_src :: "u8 list"
  et_dst :: rtps_locator
  et_packets :: u64
  et_bytes :: u64

record writer_reader_data =
  wr_writer :: "u8 list"
  wr_reader :: "u8 list"
  wr_data :: double

record entity_count =
  ec_guid :: "u8 list"
  ec_count :: u64

record physical_data =
  ph_participant :: "u8 list"
  ph_host :: string
  ph_user :: string
  ph_process :: string

fun kind_int :: "locator_kind \<Rightarrow> nat" where
  "kind_int LocInvalid = 0"
| "kind_int LocUDPv4 = 1"
| "kind_int LocUDPv6 = 2"
| "kind_int LocTCPv4 = 3"
| "kind_int LocTCPv6 = 4"
| "kind_int LocSHM = 5"

definition sample_publisher_prefix :: "sample_info \<Rightarrow> string" where
  "sample_publisher_prefix info = prefix_to_string (take 12 (sa_writer info))"

definition count_sample :: "sample_info \<Rightarrow> stats_observer \<Rightarrow> stats_observer" where
  "count_sample info st = st\<lparr>so_data := (so_data st)
     \<lparr>samples := samples (so_data st) + 1,
      participants_with_stats := insert (sample_publisher_prefix info)
        (participants_with_stats (so_data st))\<rparr>\<rparr>"

definition count_counter_sample :: "stat_reader \<Rightarrow> sample_info \<Rightarrow> stats_observer \<Rightarrow> stats_observer" where
  "count_counter_sample r info st =
     (let st = count_sample info st
      in st\<lparr>so_heard := (so_heard st)(r := insert (guid_to_string (sa_writer info)) (so_heard st r))\<rparr>)"

text \<open>The slot of a cumulative counter: the first value is the one from before the observation.\<close>

definition update_slot :: "traffic_sample \<Rightarrow> traffic_sample option \<Rightarrow> traffic_sample" where
  "update_slot s old =
     (let slot = (case old of None \<Rightarrow> traffic_sample0 | Some t \<Rightarrow> t);
          s = (if ts_samples slot = 0
               then s\<lparr>ts_packets_first := ts_packets s, ts_bytes_first := ts_bytes s\<rparr>
               else s\<lparr>ts_packets_first := ts_packets_first slot, ts_bytes_first := ts_bytes_first slot\<rparr>)
      in s\<lparr>ts_samples := ts_samples slot + 1\<rparr>)"

definition traffic_of :: "ip_locator \<Rightarrow> string \<Rightarrow> entity_traffic \<Rightarrow> traffic_sample" where
  "traffic_of ip reporter t = traffic_sample0\<lparr>
     reporter_participant_prefix := reporter,
     src_participant_prefix := prefix_to_string (take 12 (et_src t)),
     ts_dst := convert_locator ip (et_dst t),
     ts_packets := et_packets t,
     ts_bytes := d_of_nat (unat (et_bytes t))\<rparr>"

definition traffic_key_of :: "traffic_sample \<Rightarrow> traffic_key" where
  "traffic_key_of s = (src_participant_prefix s, kind_int (loc_kind (ts_dst s)),
     loc_address (ts_dst s), loc_port (ts_dst s))"

definition lost_key_of :: "traffic_sample \<Rightarrow> lost_key" where
  "lost_key_of s = (reporter_participant_prefix s, src_participant_prefix s,
     kind_int (loc_kind (ts_dst s)), loc_address (ts_dst s), loc_port (ts_dst s))"

definition take_sent :: "ip_locator \<Rightarrow> sample_info \<times> entity_traffic \<Rightarrow> stats_observer \<Rightarrow> stats_observer" where
  "take_sent ip x st =
     (if \<not> sa_valid (fst x) then st
      else
        (let st = count_counter_sample RtpsSent (fst x) st;
             s = traffic_of ip [] (snd x); k = traffic_key_of s
         in st\<lparr>so_traffic := om_put k (update_slot s (om_get (so_traffic st) k)) (so_traffic st)\<rparr>))"

definition add_to_window :: "double \<Rightarrow> delivery_window \<Rightarrow> delivery_window" where
  "add_to_window ts b = b\<lparr>dw_samples := dw_samples b + 1, dw_first_s := d_min (dw_first_s b) ts,
     dw_last_s := d_max (dw_last_s b) ts\<rparr>"

definition add_pair_second :: "int \<Rightarrow> double \<Rightarrow> pair_second list \<Rightarrow> pair_second list" where
  "add_pair_second sec ts ps =
     (if ps = [] \<or> pse_sec (last ps) < sec
      then ps @ [\<lparr>pse_sec = sec, pse_window = \<lparr>dw_samples = 1, dw_first_s = ts, dw_last_s = ts\<rparr>\<rparr>]
      else butlast ps @ [(last ps)\<lparr>pse_window := add_to_window ts (pse_window (last ps))\<rparr>])"

definition add_writer_second :: "int \<Rightarrow> u64 \<Rightarrow> writer_second list \<Rightarrow> writer_second list" where
  "add_writer_second sec seq ws =
     (if ws = [] \<or> wse_sec (last ws) < sec
      then ws @ [\<lparr>wse_sec = sec, wse_min_seq = seq, wse_max_seq = seq, wse_samples = 1\<rparr>]
      else butlast ws @ [(last ws)\<lparr>wse_samples := wse_samples (last ws) + 1,
             wse_min_seq := min (wse_min_seq (last ws)) seq,
             wse_max_seq := max (wse_max_seq (last ws)) seq\<rparr>])"

definition source_time :: "sample_info \<Rightarrow> double" where
  "source_time info = d_add (rnd (of_int (sa_seconds info)))
     (d_mul (d_of_nat (unat (sa_nanosec info))) (rnd (1 / 1000000000)))"

definition take_latency :: "sample_info \<times> writer_reader_data \<Rightarrow> stats_observer \<Rightarrow> stats_observer" where
  "take_latency x st =
     (if \<not> sa_valid (fst x) then st
      else
        (let info = fst x; st = count_sample info st; data = so_data st;
             k = (guid_to_string (wr_writer (snd x)), guid_to_string (wr_reader (snd x)));
             sec = sa_seconds info
         in st\<lparr>so_data := data\<lparr>
                 delivered := om_upd k 0 (\<lambda>n. n + 1) (delivered data),
                 latency := om_upd k latency_stat0
                   (\<lambda>l. lat_add l (d_mul (wr_data (snd x)) (rnd (1 / 1000000000)))) (latency data)\<rparr>,
               so_newest_second := (if so_newest_second st < sec then sec else so_newest_second st),
               so_pair_seconds := om_upd k [] (add_pair_second sec (source_time info)) (so_pair_seconds st),
               so_writer_seconds := om_upd (sample_publisher_prefix info) []
                 (add_writer_second sec (sa_sequence info)) (so_writer_seconds st)\<rparr>))"

definition prune_seconds :: "('s \<Rightarrow> int) \<Rightarrow> int \<Rightarrow> ('k, 's list) omap \<Rightarrow> ('k, 's list) omap" where
  "prune_seconds sec oldest m =
     filter (\<lambda>kv. snd kv \<noteq> []) (map (\<lambda>kv. (fst kv, dropWhile (\<lambda>s. sec s < oldest) (snd kv))) m)"

definition prune_rate_window :: "stats_observer \<Rightarrow> stats_observer" where
  "prune_rate_window st =
     (if \<not> so_sliding st \<or> so_newest_second st = int64_min then st
      else
        (let oldest = so_newest_second st - kStatsRateWindowSeconds + 1
         in st\<lparr>so_pair_seconds := prune_seconds pse_sec oldest (so_pair_seconds st),
               so_writer_seconds := prune_seconds wse_sec oldest (so_writer_seconds st)\<rparr>))"

definition count_data :: "u64 \<Rightarrow> data_count_sample \<Rightarrow> data_count_sample" where
  "count_data n d =
     \<lparr>dc_first = (if dc_samples d = 0 then n else dc_first d), dc_last = n, dc_samples = dc_samples d + 1\<rparr>"

text \<open>The map of \<open>StatsData\<close> that a reader of per-entity counters fills.\<close>

fun add_entity_count :: "stat_reader \<Rightarrow> string \<Rightarrow> u64 \<Rightarrow> stats_data \<Rightarrow> stats_data" where
  "add_entity_count DataCount g n data =
     data\<lparr>data_count := om_upd g data_count_sample0 (count_data n) (data_count data)\<rparr>"
| "add_entity_count ResentDatas g n data =
     data\<lparr>resent_datas := om_upd g data_count_sample0 (count_data n) (resent_datas data)\<rparr>"
| "add_entity_count HeartbeatCount g n data =
     data\<lparr>heartbeats := om_upd g data_count_sample0 (count_data n) (heartbeats data)\<rparr>"
| "add_entity_count GapCount g n data =
     data\<lparr>gaps := om_upd g data_count_sample0 (count_data n) (gaps data)\<rparr>"
| "add_entity_count AcknackCount g n data =
     data\<lparr>acknacks := om_upd g data_count_sample0 (count_data n) (acknacks data)\<rparr>"
| "add_entity_count NackfragCount g n data =
     data\<lparr>nackfrags := om_upd g data_count_sample0 (count_data n) (nackfrags data)\<rparr>"
| "add_entity_count _ g n data = data"

definition take_count :: "stat_reader \<Rightarrow> sample_info \<times> entity_count \<Rightarrow> stats_observer \<Rightarrow> stats_observer" where
  "take_count r x st =
     (if \<not> sa_valid (fst x) then st
      else
        (let st = count_counter_sample r (fst x) st
         in st\<lparr>so_data := add_entity_count r (guid_to_string (ec_guid (snd x))) (ec_count (snd x))
                 (so_data st)\<rparr>))"

definition take_lost :: "ip_locator \<Rightarrow> sample_info \<times> entity_traffic \<Rightarrow> stats_observer \<Rightarrow> stats_observer" where
  "take_lost ip x st =
     (if \<not> sa_valid (fst x) then st
      else
        (let st = count_counter_sample RtpsLost (fst x) st;
             s = traffic_of ip (sample_publisher_prefix (fst x)) (snd x); k = lost_key_of s
         in st\<lparr>so_lost := om_put k (update_slot s (om_get (so_lost st) k)) (so_lost st)\<rparr>))"

definition take_physical :: "sample_info \<times> physical_data \<Rightarrow> stats_observer \<Rightarrow> stats_observer" where
  "take_physical x st =
     (if \<not> sa_valid (fst x) then st
      else
        (let st = count_sample (fst x) st; p = snd x
         in st\<lparr>so_data := (so_data st)\<lparr>physical :=
                 om_put (prefix_to_string (take 12 (ph_participant p)))
                   \<lparr>hi_host = ph_host p, hi_user = ph_user p, hi_process = ph_process p\<rparr>
                   (physical (so_data st))\<rparr>\<rparr>))"

subsection \<open>A drain\<close>

record taken =
  tk_sent :: "(sample_info \<times> entity_traffic) list"
  tk_latency :: "(sample_info \<times> writer_reader_data) list"
  tk_data_count :: "(sample_info \<times> entity_count) list"
  tk_resent :: "(sample_info \<times> entity_count) list"
  tk_heartbeats :: "(sample_info \<times> entity_count) list"
  tk_gaps :: "(sample_info \<times> entity_count) list"
  tk_acknacks :: "(sample_info \<times> entity_count) list"
  tk_nackfrags :: "(sample_info \<times> entity_count) list"
  tk_lost :: "(sample_info \<times> entity_traffic) list"
  tk_physical :: "(sample_info \<times> physical_data) list"

text \<open>
  A drain is a sequence of steps, each of them done under the lock: another drain may come in
  between.
\<close>

datatype drain_step =
    TakeSent sample_info entity_traffic
  | TakeLatency sample_info writer_reader_data
  | PruneWindow
  | TakeCount stat_reader sample_info entity_count
  | TakeLost sample_info entity_traffic
  | TakePhysical sample_info physical_data

fun apply_step :: "ip_locator \<Rightarrow> drain_step \<Rightarrow> stats_observer \<Rightarrow> stats_observer" where
  "apply_step ip (TakeSent i x) st = take_sent ip (i, x) st"
| "apply_step ip (TakeLatency i x) st = take_latency (i, x) st"
| "apply_step ip PruneWindow st = prune_rate_window st"
| "apply_step ip (TakeCount r i x) st = take_count r (i, x) st"
| "apply_step ip (TakeLost i x) st = take_lost ip (i, x) st"
| "apply_step ip (TakePhysical i x) st = take_physical (i, x) st"

definition drain_steps :: "taken \<Rightarrow> drain_step list" where
  "drain_steps t =
     map (\<lambda>x. TakeSent (fst x) (snd x)) (tk_sent t) @
     map (\<lambda>x. TakeLatency (fst x) (snd x)) (tk_latency t) @
     [PruneWindow] @
     map (\<lambda>x. TakeCount DataCount (fst x) (snd x)) (tk_data_count t) @
     map (\<lambda>x. TakeCount ResentDatas (fst x) (snd x)) (tk_resent t) @
     map (\<lambda>x. TakeCount HeartbeatCount (fst x) (snd x)) (tk_heartbeats t) @
     map (\<lambda>x. TakeCount GapCount (fst x) (snd x)) (tk_gaps t) @
     map (\<lambda>x. TakeCount AcknackCount (fst x) (snd x)) (tk_acknacks t) @
     map (\<lambda>x. TakeCount NackfragCount (fst x) (snd x)) (tk_nackfrags t) @
     map (\<lambda>x. TakeLost (fst x) (snd x)) (tk_lost t) @
     map (\<lambda>x. TakePhysical (fst x) (snd x)) (tk_physical t)"

definition run_steps :: "ip_locator \<Rightarrow> drain_step list \<Rightarrow> stats_observer \<Rightarrow> stats_observer" where
  "run_steps ip steps st = fold (apply_step ip) steps st"

definition drain :: "ip_locator \<Rightarrow> taken \<Rightarrow> stats_observer \<Rightarrow> stats_observer" where
  "drain ip t st = run_steps ip (drain_steps t) st"

text \<open>
  The drain thread: what happens each time it wakes up. It was told to stop, it drains, or an
  exception ends the drain after \<open>n\<close> steps and is counted.
\<close>

datatype wake = Stop | Drain taken | Throw taken nat

fun drain_loop :: "ip_locator \<Rightarrow> wake list \<Rightarrow> stats_observer \<times> u64 \<Rightarrow> stats_observer \<times> u64" where
  "drain_loop ip [] st = st"
| "drain_loop ip (Stop # wakes) st = st"
| "drain_loop ip (Drain t # wakes) st = drain_loop ip wakes (drain ip t (fst st), snd st)"
| "drain_loop ip (Throw t n # wakes) st =
     drain_loop ip wakes (run_steps ip (take n (drain_steps t)) (fst st), snd st + 1)"

definition set_rate_window :: "bool \<Rightarrow> stats_observer \<Rightarrow> stats_observer" where
  "set_rate_window sliding st = prune_rate_window
     (st\<lparr>so_sliding := sliding,
         so_data := (so_data st)\<lparr>rate_window_s :=
           (if sliding then Fin (of_int kStatsRateWindowSeconds) else Fin 0)\<rparr>\<rparr>)"

definition set_reader_destinations :: "reader_destinations \<Rightarrow> stats_observer \<Rightarrow> stats_observer" where
  "set_reader_destinations destinations st = st\<lparr>so_destinations := destinations\<rparr>"

subsection \<open>The settle rule's numbers\<close>

record settle =
  se_announced :: nat
  se_heard :: nat
  se_measured_instances :: nat
  se_unheard :: "string list"

definition settle_step :: "string \<Rightarrow> string set \<Rightarrow> string \<Rightarrow> settle \<Rightarrow> settle" where
  "settle_step topic heard g out =
     (let out = out\<lparr>se_announced := se_announced out + 1\<rparr>
      in if g \<in> heard then out\<lparr>se_heard := se_heard out + 1\<rparr>
         else out\<lparr>se_unheard := se_unheard out @ [topic @ '' '' @ g]\<rparr>)"

text \<open>\<open>topic_name\<close> is the name of the RTPS_SENT topic.\<close>

definition settle_status :: "string \<Rightarrow> listener \<Rightarrow> stats_observer \<Rightarrow> settle" where
  "settle_status topic_name li st =
     fold (settle_step topic_name (so_heard st RtpsSent)) (li_matched li RtpsSent)
       \<lparr>se_announced = 0, se_heard = 0,
        se_measured_instances =
          length (filter (\<lambda>kv. measures_a_pair (snd kv) (so_destinations st)) (so_traffic st)),
        se_unheard = []\<rparr>"

subsection \<open>The copy\<close>

definition reduce_window :: "pair_second list \<Rightarrow> delivery_window" where
  "reduce_window ps = fold (\<lambda>s w.
     if dw_samples w = 0 then pse_window s
     else \<lparr>dw_samples = dw_samples w + dw_samples (pse_window s),
           dw_first_s = d_min (dw_first_s w) (dw_first_s (pse_window s)),
           dw_last_s = d_max (dw_last_s w) (dw_last_s (pse_window s))\<rparr>) ps delivery_window0"

definition reduce_windows ::
  "(string \<times> string, pair_second list) omap \<Rightarrow> (string \<times> string, delivery_window) omap" where
  "reduce_windows m = fold (\<lambda>kv out.
     let w = reduce_window (snd kv) in if 0 < dw_samples w then om_put (fst kv) w out else out) m []"

text \<open>The sequence numbers of one statistics writer: smallest, largest and number of samples.\<close>

definition reduce_sequences :: "writer_second list \<Rightarrow> u64 \<times> u64 \<times> u64" where
  "reduce_sequences ws = fold (\<lambda>s (mi, ma, n).
     let (mi, ma) = (if n = 0 then (wse_min_seq s, wse_max_seq s) else (mi, ma))
     in (min mi (wse_min_seq s), max ma (wse_max_seq s), n + wse_samples s)) ws (0, 0, 0)"

definition sequence_gaps :: "writer_second list \<Rightarrow> u64 option" where
  "sequence_gaps ws =
     (let (mi, ma, n) = reduce_sequences ws; numbered = ma - mi + 1
      in if n = 0 then None else if n < numbered then Some (numbered - n) else None)"

definition latency_gaps_of :: "(string, writer_second list) omap \<Rightarrow> (string, u64) omap" where
  "latency_gaps_of m = fold (\<lambda>kv out.
     case sequence_gaps (snd kv) of None \<Rightarrow> out | Some g \<Rightarrow> om_put (fst kv) g out) m []"

definition copy_stats :: "build \<Rightarrow> settle \<Rightarrow> listener \<Rightarrow> stats_observer \<Rightarrow> stats_data" where
  "copy_stats b settle li st = (so_data st)\<lparr>
     writer_instance_limit := stats_instance_limit b,
     writers_announced := of_nat (se_announced settle),
     writers_heard := of_nat (se_heard settle),
     measured_instances := of_nat (se_measured_instances settle),
     samples_lost := li_lost li,
     samples_lost_at_start := li_lost_at_start li,
     samples_rejected := li_rejected li,
     writers_incompatible_qos := li_incompatible_qos li,
     samples_lost_latency := li_lost_latency li,
     delivery_windows := reduce_windows (so_pair_seconds st),
     latency_gaps := latency_gaps_of (so_writer_seconds st),
     traffic := map snd (so_traffic st),
     lost := map snd (so_lost st)\<rparr>"

text \<open>
  \<open>snapshot\<close>: a drain, the settle numbers and the copy. The lock is free before each of the last
  two: the drain thread's steps \<open>between\<close> and \<open>after\<close> come in there, and the callbacks may have changed
  the listener from \<open>li\<close> to \<open>li'\<close>.
\<close>

definition stats_snapshot ::
  "build \<Rightarrow> ip_locator \<Rightarrow> string \<Rightarrow> taken \<Rightarrow> drain_step list \<Rightarrow> drain_step list \<Rightarrow> listener \<Rightarrow> listener \<Rightarrow>
   stats_observer \<Rightarrow> stats_data \<times> stats_observer" where
  "stats_snapshot b ip topic_name t between after li li' st =
     (let st = run_steps ip between (drain ip t st);
          settle = settle_status topic_name li st;
          st = run_steps ip after st
      in (copy_stats b settle li' st, st))"

end
