(* ===== verification/Stats_Observer_Props.thy ===== *)
theory Stats_Observer_Props
  imports Stats_Observer Observer_Props
begin

text \<open>
  The statistics observer after any sequence of steps, from however many drains and in whatever
  order the readers were taken: every table is a function of the samples of its key alone.
\<close>

subsection \<open>The drain thread\<close>

fun wake_steps :: "wake \<Rightarrow> drain_step list" where
  "wake_steps Stop = []"
| "wake_steps (Drain t) = drain_steps t"
| "wake_steps (Throw t n) = take n (drain_steps t)"

fun throws :: "wake \<Rightarrow> bool" where
  "throws (Throw t n) = True"
| "throws w = False"

lemma run_steps_append: "run_steps ip (xs @ ys) st = run_steps ip ys (run_steps ip xs st)"
  by (simp add: run_steps_def)

lemma run_steps_Nil [simp]: "run_steps ip [] st = st"
  by (simp add: run_steps_def)

lemma run_steps_snoc: "run_steps ip (xs @ [x]) st = apply_step ip x (run_steps ip xs st)"
  by (simp add: run_steps_def)

text \<open>
  The drain thread does the steps of its drains one after the other until it is told to stop, and
  nothing after that; a drain that throws costs only its own remaining steps and is counted.
\<close>

theorem drain_loop_refines:
  "drain_loop ip wakes (st, n) =
     (let run = takeWhile (\<lambda>w. w \<noteq> Stop) wakes
      in (run_steps ip (concat (map wake_steps run)) st, n + of_nat (length (filter throws run))))"
proof (induction wakes arbitrary: st n)
  case Nil
  then show ?case by simp
next
  case (Cons w wakes)
  then show ?case by (cases w) (simp_all add: drain_def run_steps_append Let_def)
qed

subsection \<open>Cumulative counters\<close>

fun sent_of :: "ip_locator \<Rightarrow> drain_step \<Rightarrow> traffic_sample option" where
  "sent_of ip (TakeSent i x) = (if sa_valid i then Some (traffic_of ip [] x) else None)"
| "sent_of ip _ = None"

fun lost_of :: "ip_locator \<Rightarrow> drain_step \<Rightarrow> traffic_sample option" where
  "lost_of ip (TakeLost i x) =
     (if sa_valid i then Some (traffic_of ip (sample_publisher_prefix i) x) else None)"
| "lost_of ip _ = None"

fun count_in :: "stat_reader \<Rightarrow> string \<Rightarrow> drain_step \<Rightarrow> u64 option" where
  "count_in r g (TakeCount s i x) =
     (if sa_valid i \<and> s = r \<and> guid_to_string (ec_guid x) = g then Some (ec_count x) else None)"
| "count_in r g _ = None"

fun entity_counts :: "stat_reader \<Rightarrow> stats_data \<Rightarrow> (string, data_count_sample) omap" where
  "entity_counts DataCount d = data_count d"
| "entity_counts ResentDatas d = resent_datas d"
| "entity_counts HeartbeatCount d = heartbeats d"
| "entity_counts GapCount d = gaps d"
| "entity_counts AcknackCount d = acknacks d"
| "entity_counts NackfragCount d = nackfrags d"
| "entity_counts _ d = []"

definition is_count_reader :: "stat_reader \<Rightarrow> bool" where
  "is_count_reader r \<longleftrightarrow> List.member [DataCount, ResentDatas, HeartbeatCount, GapCount, AcknackCount, NackfragCount] r"

lemmas take_defs = take_sent_def take_latency_def prune_rate_window_def take_count_def take_lost_def
  take_physical_def count_counter_sample_def count_sample_def

lemma apply_step_traffic:
  "so_traffic (apply_step ip e st) =
     (case sent_of ip e of None \<Rightarrow> so_traffic st
      | Some s \<Rightarrow> om_put (traffic_key_of s) (update_slot s (om_get (so_traffic st) (traffic_key_of s)))
                    (so_traffic st))"
  by (cases e) (simp_all add: take_defs Let_def)

lemma apply_step_lost:
  "so_lost (apply_step ip e st) =
     (case lost_of ip e of None \<Rightarrow> so_lost st
      | Some s \<Rightarrow> om_put (lost_key_of s) (update_slot s (om_get (so_lost st) (lost_key_of s))) (so_lost st))"
  by (cases e) (simp_all add: take_defs Let_def)

lemma run_steps_traffic:
  "so_traffic (run_steps ip es st) =
     fold (\<lambda>s m. om_put (traffic_key_of s) (update_slot s (om_get m (traffic_key_of s))) m)
       (List.map_filter (sent_of ip) es) (so_traffic st)"
  by (induction es arbitrary: st)
    (simp_all add: run_steps_def apply_step_traffic List.map_filter_simps split: option.split)

lemma run_steps_lost:
  "so_lost (run_steps ip es st) =
     fold (\<lambda>s m. om_put (lost_key_of s) (update_slot s (om_get m (lost_key_of s))) m)
       (List.map_filter (lost_of ip) es) (so_lost st)"
  by (induction es arbitrary: st)
    (simp_all add: run_steps_def apply_step_lost List.map_filter_simps split: option.split)

text \<open>What a slot holds after the samples \<open>xs\<close>: the last values, and the first ones as the base.\<close>

definition slot_after :: "traffic_sample list \<Rightarrow> traffic_sample option" where
  "slot_after xs =
     (if xs = [] then None
      else Some ((last xs)\<lparr>ts_packets_first := ts_packets (hd xs), ts_bytes_first := ts_bytes (hd xs),
                           ts_samples := of_nat (length xs)\<rparr>))"

definition count_after :: "u64 list \<Rightarrow> data_count_sample option" where
  "count_after ns =
     (if ns = [] then None
      else Some \<lparr>dc_first = hd ns, dc_last = last ns, dc_samples = of_nat (length ns)\<rparr>)"

lemma of_nat_u64_0: "n < 2 ^ 64 \<Longrightarrow> (of_nat n :: u64) = 0 \<longleftrightarrow> n = 0"
  by (simp add: word_of_nat_eq_0_iff) (metis dvd_imp_le not_less_zero neq0_conv leD dvd_0_right)

lemma fold_update_slot:
  "length xs < 2 ^ 64 \<Longrightarrow> fold (\<lambda>s r. Some (update_slot s r)) xs None = slot_after xs"
proof (induction xs rule: rev_induct)
  case Nil
  then show ?case by (simp add: slot_after_def)
next
  case (snoc x xs)
  then have IH: "fold (\<lambda>s r. Some (update_slot s r)) xs None = slot_after xs" by simp
  show ?case
  proof (cases "xs = []")
    case True
    then show ?thesis by (simp add: slot_after_def update_slot_def traffic_sample0_def)
  next
    case False
    then have "(of_nat (length xs) :: u64) \<noteq> 0"
      using of_nat_u64_0 [of "length xs"] snoc.prems by simp
    then show ?thesis
      using False IH by (simp add: slot_after_def update_slot_def)
  qed
qed

lemma fold_count_data:
  "length ns < 2 ^ 64 \<Longrightarrow> ns \<noteq> [] \<Longrightarrow>
   Some (fold count_data ns data_count_sample0) = count_after ns"
proof (induction ns rule: rev_induct)
  case Nil
  then show ?case by simp
next
  case (snoc x xs)
  show ?case
  proof (cases "xs = []")
    case True
    then show ?thesis by (simp add: count_after_def count_data_def data_count_sample0_def)
  next
    case False
    then have "(of_nat (length xs) :: u64) \<noteq> 0"
      using of_nat_u64_0 [of "length xs"] snoc.prems by simp
    moreover have "fold count_data xs data_count_sample0 =
        \<lparr>dc_first = hd xs, dc_last = last xs, dc_samples = of_nat (length xs)\<rparr>"
      using snoc False by (simp add: count_after_def)
    ultimately show ?thesis
      using False by (simp add: count_after_def count_data_def [of x])
  qed
qed

lemma apply_step_counts:
  assumes "is_count_reader r" "om_ok (entity_counts r (so_data st))"
  shows "om_ok (entity_counts r (so_data (apply_step ip e st)))"
    "om_get (entity_counts r (so_data (apply_step ip e st))) g =
      (case count_in r g e of None \<Rightarrow> om_get (entity_counts r (so_data st)) g
       | Some n \<Rightarrow> Some (count_data n (case om_get (entity_counts r (so_data st)) g of
                          None \<Rightarrow> data_count_sample0 | Some d \<Rightarrow> d)))"
proof -
  have "om_ok (entity_counts r (so_data (apply_step ip e st))) \<and>
    om_get (entity_counts r (so_data (apply_step ip e st))) g =
      (case count_in r g e of None \<Rightarrow> om_get (entity_counts r (so_data st)) g
       | Some n \<Rightarrow> Some (count_data n (case om_get (entity_counts r (so_data st)) g of
                          None \<Rightarrow> data_count_sample0 | Some d \<Rightarrow> d)))"
  proof (cases e)
    case (TakeCount s i x)
    then show ?thesis
      using assms by (cases s; cases r) (auto simp: take_defs Let_def is_count_reader_def)
  qed (use assms in \<open>cases r; simp add: take_defs Let_def is_count_reader_def\<close>)+
  then show "om_ok (entity_counts r (so_data (apply_step ip e st)))"
    "om_get (entity_counts r (so_data (apply_step ip e st))) g =
      (case count_in r g e of None \<Rightarrow> om_get (entity_counts r (so_data st)) g
       | Some n \<Rightarrow> Some (count_data n (case om_get (entity_counts r (so_data st)) g of
                          None \<Rightarrow> data_count_sample0 | Some d \<Rightarrow> d)))"
    by blast+
qed

lemma run_steps_counts:
  assumes "is_count_reader r"
  shows "om_ok (entity_counts r (so_data (run_steps ip es stats_observer0))) \<and>
    om_get (entity_counts r (so_data (run_steps ip es stats_observer0))) g =
      (let ns = List.map_filter (count_in r g) es
       in if ns = [] then None else Some (fold count_data ns data_count_sample0))"
proof (induction es rule: rev_induct)
  case Nil
  show ?case using assms
    by (cases r) (simp_all add: is_count_reader_def stats_observer0_def stats_data0_def List.map_filter_simps)
next
  case (snoc e es)
  have ok: "om_ok (entity_counts r (so_data (run_steps ip es stats_observer0)))" using snoc by blast
  show ?case
    using apply_step_counts [OF assms ok, of ip e] snoc
    by (auto simp: run_steps_snoc Let_def List.map_filter_def split: option.split)
qed

text \<open>
  C15. Whatever the order in which the samples of the statistics topics are taken and however many
  drains take them, a traffic, loss or entity counter holds the value of the last sample of its key
  and, as its base, the value of the first one; samples of other keys and topics do not touch it.
\<close>

theorem counters_exact:
  assumes "length es < 2 ^ 64"
  shows "om_get (so_traffic (run_steps ip es stats_observer0)) k =
      slot_after (filter (\<lambda>s. traffic_key_of s = k) (List.map_filter (sent_of ip) es)) \<and>
    om_get (so_lost (run_steps ip es stats_observer0)) j =
      slot_after (filter (\<lambda>s. lost_key_of s = j) (List.map_filter (lost_of ip) es)) \<and>
    om_get (entity_counts r (so_data (run_steps ip es stats_observer0))) g =
      (if is_count_reader r then count_after (List.map_filter (count_in r g) es) else None)"
proof (intro conjI)
  have len: "length (filter P (List.map_filter f es)) < 2 ^ 64" for P :: "'z \<Rightarrow> bool" and f
    using assms by (rule le_less_trans [rotated])
      (simp add: List.map_filter_def le_trans [OF length_filter_le])
  have lenf: "length (List.map_filter f es) < 2 ^ 64" for f :: "drain_step \<Rightarrow> u64 option"
    using assms by (rule le_less_trans [rotated]) (simp add: List.map_filter_def)
  have init: "so_traffic stats_observer0 = []" "so_lost stats_observer0 = []"
    by (simp_all add: stats_observer0_def)
  show "om_get (so_traffic (run_steps ip es stats_observer0)) k =
      slot_after (filter (\<lambda>s. traffic_key_of s = k) (List.map_filter (sent_of ip) es))"
    unfolding run_steps_traffic init
    by (subst om.get_fold_put [OF om_ok_Nil]) (simp add: fold_update_slot [OF len])
  show "om_get (so_lost (run_steps ip es stats_observer0)) j =
      slot_after (filter (\<lambda>s. lost_key_of s = j) (List.map_filter (lost_of ip) es))"
    unfolding run_steps_lost init
    by (subst om.get_fold_put [OF om_ok_Nil]) (simp add: fold_update_slot [OF len])
  show "om_get (entity_counts r (so_data (run_steps ip es stats_observer0))) g =
      (if is_count_reader r then count_after (List.map_filter (count_in r g) es) else None)"
  proof (cases "is_count_reader r")
    case True
    then show ?thesis
      using run_steps_counts [OF True, of ip es g] fold_count_data [OF lenf]
      by (simp add: Let_def count_after_def split: if_splits)
  next
    case False
    then show ?thesis by (cases r) (simp_all add: is_count_reader_def)
  qed
qed

definition sample_taken :: "u64 \<Rightarrow> int \<Rightarrow> sample_info" where
  "sample_taken seq sec = \<lparr>sa_valid = True, sa_writer = replicate 16 1, sa_sequence = seq,
     sa_seconds = sec, sa_nanosec = 0\<rparr>"

definition sample_sent :: "u64 \<Rightarrow> entity_traffic" where
  "sample_sent n = \<lparr>et_src = replicate 16 2, et_dst = \<lparr>rl_kind = KindUDPv4, rl_port = 7410, rl_address = []\<rparr>,
     et_packets = n, et_bytes = 0\<rparr>"

theorem counters_exact_witness:
  "map_option (\<lambda>s. (ts_packets s, ts_packets_first s))
     (om_get (so_traffic (run_steps sample_ip
         [TakeSent (sample_taken 1 1) (sample_sent 5), PruneWindow, TakeSent (sample_taken 2 1) (sample_sent 9)]
         stats_observer0))
       (traffic_key_of (traffic_of sample_ip [] (sample_sent 5)))) = Some (9, 5)"
proof -
  let ?es = "[TakeSent (sample_taken 1 1) (sample_sent 5), PruneWindow, TakeSent (sample_taken 2 1) (sample_sent 9)]"
  have "length ?es < 2 ^ 64" by simp
  from conjunct1 [OF counters_exact [OF this]] show ?thesis
    by (simp add: List.map_filter_simps sample_taken_def sample_sent_def traffic_of_def
        traffic_key_of_def slot_after_def)
qed

end
