(* ===== verification/Rate_Window.thy ===== *)
theory Rate_Window
  imports Stats_Observer_Props
begin

text \<open>
  The window of the delivered rate: the per-second slots of a pair count exactly its samples of the
  last seconds, and the sequence numbers of a statistics writer tell exactly how many of its samples
  the tool did not get - as long as the slots are whole.
\<close>

subsection \<open>Slots by step\<close>

definition latency_key :: "writer_reader_data \<Rightarrow> string \<times> string" where
  "latency_key x = (guid_to_string (wr_writer x), guid_to_string (wr_reader x))"

text \<open>The second and the time of the samples of a pair; the second and the number of those of a writer.\<close>

fun pair_sample :: "string \<times> string \<Rightarrow> drain_step \<Rightarrow> (int \<times> double) option" where
  "pair_sample k (TakeLatency i x) =
     (if sa_valid i \<and> latency_key x = k then Some (sa_seconds i, source_time i) else None)"
| "pair_sample k _ = None"

fun writer_sample :: "string \<Rightarrow> drain_step \<Rightarrow> (int \<times> u64) option" where
  "writer_sample p (TakeLatency i x) =
     (if sa_valid i \<and> sample_publisher_prefix i = p then Some (sa_seconds i, sa_sequence i) else None)"
| "writer_sample p _ = None"

fun second_of :: "drain_step \<Rightarrow> int option" where
  "second_of (TakeLatency i x) = (if sa_valid i then Some (sa_seconds i) else None)"
| "second_of _ = None"

definition newest_of :: "drain_step list \<Rightarrow> int" where
  "newest_of es = fold max (List.map_filter second_of es) int64_min"

lemma map_filter_snoc:
  "List.map_filter f (xs @ [x]) = List.map_filter f xs @ (case f x of None \<Rightarrow> [] | Some y \<Rightarrow> [y])"
  by (simp add: List.map_filter_def split: option.split)

lemma apply_step_sliding [simp]: "so_sliding (apply_step ip e st) = so_sliding st"
  by (cases e) (simp_all add: take_defs Let_def)

lemma apply_step_newest:
  "so_newest_second (apply_step ip e st) =
     (case second_of e of None \<Rightarrow> so_newest_second st | Some s \<Rightarrow> max (so_newest_second st) s)"
  by (cases e) (simp_all add: take_defs Let_def)

lemma run_steps_newest:
  "so_newest_second st = int64_min \<Longrightarrow> so_newest_second (run_steps ip es st) = newest_of es"
proof (induction es rule: rev_induct)
  case Nil
  then show ?case by (simp add: newest_of_def List.map_filter_simps)
next
  case (snoc e es)
  then show ?case
    by (simp add: run_steps_snoc apply_step_newest newest_of_def map_filter_snoc max.commute
        split: option.split)
qed

lemma run_steps_sliding [simp]: "so_sliding (run_steps ip es st) = so_sliding st"
  by (induction es arbitrary: st) (simp_all add: run_steps_def)

subsection \<open>Pruning\<close>

text \<open>The slots of a key, none when the key is gone.\<close>

definition slots :: "('k, 's list) omap \<Rightarrow> 'k \<Rightarrow> 's list" where
  "slots m k = (case om_get m k of None \<Rightarrow> [] | Some l \<Rightarrow> l)"

lemma om_ok_prune: "om_ok m \<Longrightarrow> om_ok (prune_seconds sec low m)"
  unfolding om_ok_def prune_seconds_def
  by (induction m) (auto simp: image_iff)

lemma slots_prune: "om_ok m \<Longrightarrow> slots (prune_seconds sec low m) k = dropWhile (\<lambda>s. sec s < low) (slots m k)"
proof (induction m)
  case Nil
  then show ?case by (simp add: slots_def prune_seconds_def)
next
  case (Cons e m)
  have "om_get m (fst e) = None"
    using om_ok_distinct [OF Cons.prems] by (simp add: map_of_eq_None_iff)
  moreover have "fst ` set (prune_seconds sec low m) \<subseteq> fst ` set m"
    by (force simp: prune_seconds_def)
  then have "om_get (prune_seconds sec low m) (fst e) = None"
    using om_ok_distinct [OF Cons.prems] unfolding map_of_eq_None_iff by auto
  moreover have "om_ok m" using Cons.prems by (simp add: om_ok_Cons)
  moreover have "prune_seconds sec low (e # m) =
      (if dropWhile (\<lambda>s. sec s < low) (snd e) = [] then prune_seconds sec low m
       else (fst e, dropWhile (\<lambda>s. sec s < low) (snd e)) # prune_seconds sec low m)"
    by (simp add: prune_seconds_def)
  ultimately show ?case
    using Cons.IH by (cases "dropWhile (\<lambda>s. sec s < low) (snd e) = []")
      (simp_all add: slots_def del: dropWhile_eq_Nil_conv)
qed

lemma slots_upd: "om_ok m \<Longrightarrow> slots (om_upd j [] f m) k = (if k = j then f (slots m k) else slots m k)"
  by (simp add: slots_def)

subsection \<open>The interface of a table of slots\<close>

text \<open>
  The two tables share the rule by which a sample enters: a new slot when its second is newer than
  the last one's, the last slot otherwise. \<open>view\<close> is the list of slots of one key.
\<close>

definition enter :: "('s \<Rightarrow> int) \<Rightarrow> ('x \<Rightarrow> int) \<Rightarrow> ('x \<Rightarrow> 's) \<Rightarrow> ('x \<Rightarrow> 's \<Rightarrow> 's) \<Rightarrow> 'x \<Rightarrow> 's list \<Rightarrow> 's list" where
  "enter sec sx new add x l =
     (if l = [] \<or> sec (last l) < sx x then l @ [new x] else butlast l @ [add x (last l)])"

lemma enter_Nil: "enter sec sx new add x [] = [new x]"
  by (simp add: enter_def)

locale second_slots =
  fixes sec :: "'s \<Rightarrow> int" and sx :: "'x \<Rightarrow> int" and new :: "'x \<Rightarrow> 's" and add :: "'x \<Rightarrow> 's \<Rightarrow> 's"
    and view :: "stats_observer \<Rightarrow> 's list" and ok :: "stats_observer \<Rightarrow> bool"
    and sample :: "drain_step \<Rightarrow> 'x option"
  assumes sec_new: "sec (new x) = sx x"
    and sec_add: "sec (add x s) = sec s"
    and ok_step: "ok st \<Longrightarrow> ok (apply_step ip e st)"
    and ok_start: "ok (set_rate_window sliding stats_observer0)"
    and view_start: "view (set_rate_window sliding stats_observer0) = []"
    and view_step: "ok st \<Longrightarrow> e \<noteq> PruneWindow \<Longrightarrow> view (apply_step ip e st) =
      (case sample e of None \<Rightarrow> view st | Some x \<Rightarrow> enter sec sx new add x (view st))"
    and view_prune: "ok st \<Longrightarrow> view (prune_rate_window st) =
      (if so_sliding st \<and> so_newest_second st \<noteq> int64_min
       then dropWhile (\<lambda>s. sec s < so_newest_second st - kStatsRateWindowSeconds + 1) (view st)
       else view st)"
    and sample_prune: "sample PruneWindow = None"
begin

lemma ok_run: "ok st \<Longrightarrow> ok (run_steps ip es st)"
  by (induction es arbitrary: st) (auto simp: run_steps_def ok_step)

lemma dropWhile_enter:
  "dropWhile (\<lambda>s. sec s < low) (enter sec sx new add x m) =
      (if dropWhile (\<lambda>s. sec s < low) m = [] then (if sx x < low then [] else [new x])
       else enter sec sx new add x (dropWhile (\<lambda>s. sec s < low) m))"
proof (cases "dropWhile (\<lambda>s. sec s < low) m = []")
  case True
  then have all: "\<forall>s \<in> set m. sec s < low" by (simp add: dropWhile_eq_Nil_conv)
  show ?thesis
  proof (cases "m = []")
    case False
    then have "\<forall>s \<in> set (butlast m). sec s < low" "sec (last m) < low"
      using all in_set_butlastD by (fastforce+)
    then show ?thesis using True all
      by (auto simp: enter_def sec_new sec_add dropWhile_append dropWhile_eq_Nil_conv)
  qed (simp add: enter_def sec_new)
next
  case False
  then obtain u d where m: "m = u @ d" and d: "dropWhile (\<lambda>s. sec s < low) m = d" "d \<noteq> []"
    and u: "\<forall>s \<in> set u. sec s < low"
    by (metis takeWhile_dropWhile_id set_takeWhileD)
  have hd: "\<not> sec (hd d) < low" using hd_dropWhile [OF False] d(1) by simp
  have e: "enter sec sx new add x m = u @ enter sec sx new add x d"
    using d(2) by (simp add: enter_def m butlast_append)
  have "dropWhile (\<lambda>s. sec s < low) (enter sec sx new add x d) = enter sec sx new add x d"
    using d(2) hd by (cases d) (auto simp: enter_def sec_new sec_add)
  then show ?thesis
    unfolding d(1) e using u d(2) by (simp add: dropWhile_append2)
qed

lemma dropWhile_enter_cong:
  "dropWhile (\<lambda>s. sec s < low) l = dropWhile (\<lambda>s. sec s < low) l' \<Longrightarrow>
   dropWhile (\<lambda>s. sec s < low) (enter sec sx new add x l) =
   dropWhile (\<lambda>s. sec s < low) (enter sec sx new add x l')"
  unfolding dropWhile_enter by simp

lemma dropWhile_further:
  "low \<le> low' \<Longrightarrow> dropWhile (\<lambda>s. sec s < low') (dropWhile (\<lambda>s. sec s < low) l) =
     dropWhile (\<lambda>s. sec s < low') l"
  by (induction l) auto

lemma newest_mono: "newest_of es \<le> newest_of (es @ [e])"
  by (simp add: newest_of_def map_filter_snoc split: option.split)

lemma start_newest: "so_newest_second (set_rate_window sliding stats_observer0) = int64_min"
  "so_sliding (set_rate_window sliding stats_observer0) = sliding"
  by (simp_all add: set_rate_window_def prune_rate_window_def stats_observer0_def)

text \<open>Without a sliding window the slots are all that ever entered.\<close>

lemma view_run_whole:
  "view (run_steps ip es (set_rate_window False stats_observer0)) =
     fold (enter sec sx new add) (List.map_filter sample es) []"
proof (induction es rule: rev_induct)
  case Nil
  then show ?case by (simp add: view_start List.map_filter_simps)
next
  case (snoc e es)
  let ?st = "run_steps ip es (set_rate_window False stats_observer0)"
  have ok: "ok ?st" by (rule ok_run [OF ok_start])
  have sl: "\<not> so_sliding ?st" using start_newest by simp
  show ?case
  proof (cases "e = PruneWindow")
    case True
    then show ?thesis using view_prune [OF ok] sl snoc
      by (simp add: run_steps_snoc map_filter_snoc sample_prune)
  next
    case False
    then show ?thesis using view_step [OF ok False] snoc
      by (simp add: run_steps_snoc map_filter_snoc split: option.split)
  qed
qed

text \<open>With one they agree with all that ever entered from the last cut on.\<close>

lemma view_run_sliding:
  "\<exists>low \<le> newest_of es - kStatsRateWindowSeconds + 1.
     dropWhile (\<lambda>s. sec s < low) (view (run_steps ip es (set_rate_window True stats_observer0))) =
     dropWhile (\<lambda>s. sec s < low) (fold (enter sec sx new add) (List.map_filter sample es) [])"
proof (induction es rule: rev_induct)
  case Nil
  then show ?case by (auto simp: view_start List.map_filter_simps)
next
  case (snoc e es)
  let ?st = "run_steps ip es (set_rate_window True stats_observer0)"
  let ?full = "fold (enter sec sx new add) (List.map_filter sample es) []"
  have ok: "ok ?st" by (rule ok_run [OF ok_start])
  obtain low where low: "low \<le> newest_of es - kStatsRateWindowSeconds + 1"
    "dropWhile (\<lambda>s. sec s < low) (view ?st) = dropWhile (\<lambda>s. sec s < low) ?full"
    using snoc by blast
  have low': "low \<le> newest_of (es @ [e]) - kStatsRateWindowSeconds + 1"
    using low(1) newest_mono [of es e] by linarith
  show ?case
  proof (cases "e = PruneWindow")
    case True
    have n: "so_newest_second ?st = newest_of es" by (rule run_steps_newest [OF start_newest(1)])
    let ?low = "newest_of es - kStatsRateWindowSeconds + 1"
    have nm: "newest_of (es @ [e]) = newest_of es" by (simp add: newest_of_def map_filter_snoc True)
    have eq: "dropWhile (\<lambda>s. sec s < ?low) (view ?st) = dropWhile (\<lambda>s. sec s < ?low) ?full"
      using low dropWhile_further [OF low(1)] by metis
    have "dropWhile (\<lambda>s. sec s < ?low) (view (run_steps ip (es @ [e]) (set_rate_window True stats_observer0))) =
        dropWhile (\<lambda>s. sec s < ?low) (view ?st)"
      using view_prune [OF ok] n dropWhile_further [OF order_refl]
      by (simp add: run_steps_snoc True)
    then show ?thesis
      using eq nm by (auto simp: map_filter_snoc True sample_prune)
  next
    case False
    then show ?thesis
      using view_step [OF ok False, of ip] low low' dropWhile_enter_cong [OF low(2)]
      by (auto simp: run_steps_snoc map_filter_snoc split: option.split intro!: exI [of _ low])
  qed
qed

text \<open>After a cut they are what a cut leaves of all that ever entered.\<close>

lemma view_run_cut:
  assumes "newest_of es \<noteq> int64_min"
  shows "view (run_steps ip (es @ [PruneWindow]) (set_rate_window True stats_observer0)) =
     dropWhile (\<lambda>s. sec s < newest_of es - kStatsRateWindowSeconds + 1)
       (fold (enter sec sx new add) (List.map_filter sample es) [])"
proof -
  let ?st = "run_steps ip es (set_rate_window True stats_observer0)"
  let ?full = "fold (enter sec sx new add) (List.map_filter sample es) []"
  have ok: "ok ?st" by (rule ok_run [OF ok_start])
  have n: "so_newest_second ?st = newest_of es" by (rule run_steps_newest [OF start_newest(1)])
  obtain low where low: "low \<le> newest_of es - kStatsRateWindowSeconds + 1"
    "dropWhile (\<lambda>s. sec s < low) (view ?st) = dropWhile (\<lambda>s. sec s < low) ?full"
    using view_run_sliding by blast
  have "view (run_steps ip (es @ [PruneWindow]) (set_rate_window True stats_observer0)) =
      dropWhile (\<lambda>s. sec s < newest_of es - kStatsRateWindowSeconds + 1) (view ?st)"
    using view_prune [OF ok] n assms start_newest by (simp add: run_steps_snoc)
  then show ?thesis using low dropWhile_further [OF low(1)] by metis
qed

text \<open>Steps that neither enter a sample nor cut keep the slots.\<close>

lemma view_run_other:
  "ok st \<Longrightarrow> list_all (\<lambda>e. e \<noteq> PruneWindow \<and> sample e = None) es \<Longrightarrow> view (run_steps ip es st) = view st"
  by (induction es arbitrary: st) (simp_all add: run_steps_def view_step ok_step)

lemma view_run_none:
  "List.map_filter sample es = [] \<Longrightarrow> view (run_steps ip es (set_rate_window sliding stats_observer0)) = []"
proof (induction es rule: rev_induct)
  case Nil
  then show ?case by (simp add: view_start)
next
  case (snoc e es)
  let ?st = "run_steps ip es (set_rate_window sliding stats_observer0)"
  have ok: "ok ?st" by (rule ok_run [OF ok_start])
  show ?case
  proof (cases "e = PruneWindow")
    case True
    then show ?thesis using view_prune [OF ok] snoc
      by (simp add: run_steps_snoc map_filter_snoc sample_prune)
  next
    case False
    then show ?thesis using view_step [OF ok False] snoc
      by (simp add: run_steps_snoc map_filter_snoc split: option.splits)
  qed
qed

text \<open>Samples in the order of their seconds: a cut keeps the slots of the samples it keeps.\<close>

lemma cut_sorted:
  "sorted (map sx xs) \<Longrightarrow> dropWhile (\<lambda>s. sec s < low) (fold (enter sec sx new add) xs []) =
     fold (enter sec sx new add) (filter (\<lambda>x. low \<le> sx x) xs) []"
proof (induction xs rule: rev_induct)
  case Nil
  then show ?case by simp
next
  case (snoc x xs)
  have IH: "dropWhile (\<lambda>s. sec s < low) (fold (enter sec sx new add) xs []) =
     fold (enter sec sx new add) (filter (\<lambda>x. low \<le> sx x) xs) []"
    using snoc by (simp add: sorted_append)
  show ?case
  proof (cases "sx x < low")
    case True
    then have "filter (\<lambda>x. low \<le> sx x) xs = []"
      using snoc.prems by (auto simp: sorted_append filter_empty_conv)
    then show ?thesis using IH True by (simp add: dropWhile_enter)
  next
    case False
    have e: "fold (enter sec sx new add) (xs @ [x]) [] =
        enter sec sx new add x (fold (enter sec sx new add) xs [])"
      by simp
    have "dropWhile (\<lambda>s. sec s < low) (fold (enter sec sx new add) (xs @ [x]) []) =
        enter sec sx new add x (dropWhile (\<lambda>s. sec s < low) (fold (enter sec sx new add) xs []))"
      unfolding e dropWhile_enter using False
      by (cases "dropWhile (\<lambda>s. sec s < low) (fold (enter sec sx new add) xs []) = []")
        (simp_all only: if_True if_False enter_Nil simp_thms)
    then show ?thesis using IH False by simp
  qed
qed

end

end
