(* ===== verification/Rate_Window_Props.thy ===== *)
theory Rate_Window_Props
  imports Rate_Window
begin

text \<open>
  The two tables of slots as instances of \<open>second_slots\<close>, and what the copy of the statistics says of
  them: the delivered samples of the window and the gaps in the sequence numbers.
\<close>

subsection \<open>The pairs' slots and the writers' slots\<close>

definition new_pair_slot :: "int \<times> double \<Rightarrow> pair_second" where
  "new_pair_slot x = \<lparr>pse_sec = fst x,
     pse_window = \<lparr>dw_samples = 1, dw_first_s = snd x, dw_last_s = snd x\<rparr>\<rparr>"

definition add_pair_slot :: "int \<times> double \<Rightarrow> pair_second \<Rightarrow> pair_second" where
  "add_pair_slot x s = s\<lparr>pse_window := add_to_window (snd x) (pse_window s)\<rparr>"

definition new_writer_slot :: "int \<times> u64 \<Rightarrow> writer_second" where
  "new_writer_slot x = \<lparr>wse_sec = fst x, wse_min_seq = snd x, wse_max_seq = snd x, wse_samples = 1\<rparr>"

definition add_writer_slot :: "int \<times> u64 \<Rightarrow> writer_second \<Rightarrow> writer_second" where
  "add_writer_slot x s = s\<lparr>wse_samples := wse_samples s + 1,
     wse_min_seq := min (wse_min_seq s) (snd x), wse_max_seq := max (wse_max_seq s) (snd x)\<rparr>"

abbreviation enter_pair :: "int \<times> double \<Rightarrow> pair_second list \<Rightarrow> pair_second list" where
  "enter_pair \<equiv> enter pse_sec fst new_pair_slot add_pair_slot"

abbreviation enter_writer :: "int \<times> u64 \<Rightarrow> writer_second list \<Rightarrow> writer_second list" where
  "enter_writer \<equiv> enter wse_sec fst new_writer_slot add_writer_slot"

lemma add_pair_second_enter: "add_pair_second sec ts = enter_pair (sec, ts)"
  by (rule ext) (simp add: add_pair_second_def enter_def new_pair_slot_def add_pair_slot_def)

lemma add_writer_second_enter: "add_writer_second sec seq = enter_writer (sec, seq)"
  by (rule ext) (simp add: add_writer_second_def enter_def new_writer_slot_def add_writer_slot_def)

definition pair_slots_ok :: "stats_observer \<Rightarrow> bool" where
  "pair_slots_ok st \<longleftrightarrow> om_ok (so_pair_seconds st)"

definition writer_slots_ok :: "stats_observer \<Rightarrow> bool" where
  "writer_slots_ok st \<longleftrightarrow> om_ok (so_writer_seconds st)"

lemmas start_defs = set_rate_window_def prune_rate_window_def stats_observer0_def

interpretation pair_slots: second_slots pse_sec fst new_pair_slot add_pair_slot
  "\<lambda>st. slots (so_pair_seconds st) k" pair_slots_ok "pair_sample k" for k
proof unfold_locales
  fix st ip e
  assume ok: "pair_slots_ok st"
  show "pair_slots_ok (apply_step ip e st)"
    using ok by (cases e) (simp_all add: take_defs Let_def pair_slots_ok_def om_ok_prune)
  assume "e \<noteq> PruneWindow"
  then show "slots (so_pair_seconds (apply_step ip e st)) k =
      (case pair_sample k e of None \<Rightarrow> slots (so_pair_seconds st) k
       | Some x \<Rightarrow> enter_pair x (slots (so_pair_seconds st) k))"
    using ok by (cases e) (simp_all add: take_defs Let_def pair_slots_ok_def slots_upd
        latency_key_def add_pair_second_enter)
next
  fix st
  assume "pair_slots_ok st"
  then show "slots (so_pair_seconds (prune_rate_window st)) k =
      (if so_sliding st \<and> so_newest_second st \<noteq> int64_min
       then dropWhile (\<lambda>s. pse_sec s < so_newest_second st - kStatsRateWindowSeconds + 1)
              (slots (so_pair_seconds st) k)
       else slots (so_pair_seconds st) k)"
    by (simp add: prune_rate_window_def Let_def pair_slots_ok_def slots_prune)
qed (simp_all add: new_pair_slot_def add_pair_slot_def start_defs pair_slots_ok_def slots_def)

interpretation writer_slots: second_slots wse_sec fst new_writer_slot add_writer_slot
  "\<lambda>st. slots (so_writer_seconds st) k" writer_slots_ok "writer_sample k" for k
proof unfold_locales
  fix st ip e
  assume ok: "writer_slots_ok st"
  show "writer_slots_ok (apply_step ip e st)"
    using ok by (cases e) (simp_all add: take_defs Let_def writer_slots_ok_def om_ok_prune)
  assume "e \<noteq> PruneWindow"
  then show "slots (so_writer_seconds (apply_step ip e st)) k =
      (case writer_sample k e of None \<Rightarrow> slots (so_writer_seconds st) k
       | Some x \<Rightarrow> enter_writer x (slots (so_writer_seconds st) k))"
    using ok by (cases e) (simp_all add: take_defs Let_def writer_slots_ok_def slots_upd
        add_writer_second_enter)
next
  fix st
  assume "writer_slots_ok st"
  then show "slots (so_writer_seconds (prune_rate_window st)) k =
      (if so_sliding st \<and> so_newest_second st \<noteq> int64_min
       then dropWhile (\<lambda>s. wse_sec s < so_newest_second st - kStatsRateWindowSeconds + 1)
              (slots (so_writer_seconds st) k)
       else slots (so_writer_seconds st) k)"
    by (simp add: prune_rate_window_def Let_def writer_slots_ok_def slots_prune)
qed (simp_all add: new_writer_slot_def add_writer_slot_def start_defs writer_slots_ok_def slots_def)

subsection \<open>The copy\<close>

lemma get_fold_some:
  "distinct (map fst m) \<Longrightarrow> om_ok out \<Longrightarrow>
   om_get (fold (\<lambda>kv out. case f (snd kv) of None \<Rightarrow> out | Some v \<Rightarrow> om_put (fst kv) v out) m out) k =
     (case om_get m k of None \<Rightarrow> om_get out k
      | Some l \<Rightarrow> (case f l of None \<Rightarrow> om_get out k | Some v \<Rightarrow> Some v))"
proof (induction m arbitrary: out)
  case Nil
  then show ?case by simp
next
  case (Cons e m)
  have "om_get m (fst e) = None" using Cons.prems by (simp add: map_of_eq_None_iff)
  then show ?case
    using Cons by (cases "f (snd e)") (auto split: option.split)
qed

definition window_of :: "pair_second list \<Rightarrow> delivery_window option" where
  "window_of l = (if 0 < dw_samples (reduce_window l) then Some (reduce_window l) else None)"

lemma window_of_Nil: "window_of [] = None"
  by (simp add: window_of_def reduce_window_def delivery_window0_def)

lemma sequence_gaps_Nil: "sequence_gaps [] = None"
  by (simp add: sequence_gaps_def reduce_sequences_def)

lemma get_reduce_windows:
  assumes "om_ok m"
  shows "om_get (reduce_windows m) k = window_of (slots m k)"
proof -
  have "reduce_windows m = fold (\<lambda>kv out. case window_of (snd kv) of None \<Rightarrow> out
      | Some v \<Rightarrow> om_put (fst kv) v out) m []"
    unfolding reduce_windows_def
    by (rule arg_cong [where f = "\<lambda>f. fold f m []"]) (auto simp: fun_eq_iff window_of_def Let_def)
  then show ?thesis
    using get_fold_some [OF om_ok_distinct [OF assms] om_ok_Nil, of window_of]
    by (simp add: slots_def window_of_Nil split: option.split)
qed

lemma get_latency_gaps:
  assumes "om_ok m"
  shows "om_get (latency_gaps_of m) k = sequence_gaps (slots m k)"
  unfolding latency_gaps_of_def
  using get_fold_some [OF om_ok_distinct [OF assms] om_ok_Nil, of sequence_gaps]
  by (simp add: slots_def sequence_gaps_Nil split: option.split)

text \<open>The steps of a drain: up to the cut, and the rest, which does not touch the slots.\<close>

definition rest_steps :: "taken \<Rightarrow> drain_step list" where
  "rest_steps t =
     map (\<lambda>x. TakeCount DataCount (fst x) (snd x)) (tk_data_count t) @
     map (\<lambda>x. TakeCount ResentDatas (fst x) (snd x)) (tk_resent t) @
     map (\<lambda>x. TakeCount HeartbeatCount (fst x) (snd x)) (tk_heartbeats t) @
     map (\<lambda>x. TakeCount GapCount (fst x) (snd x)) (tk_gaps t) @
     map (\<lambda>x. TakeCount AcknackCount (fst x) (snd x)) (tk_acknacks t) @
     map (\<lambda>x. TakeCount NackfragCount (fst x) (snd x)) (tk_nackfrags t) @
     map (\<lambda>x. TakeLost (fst x) (snd x)) (tk_lost t) @
     map (\<lambda>x. TakePhysical (fst x) (snd x)) (tk_physical t)"

definition first_steps :: "taken \<Rightarrow> drain_step list" where
  "first_steps t = map (\<lambda>x. TakeSent (fst x) (snd x)) (tk_sent t) @
     map (\<lambda>x. TakeLatency (fst x) (snd x)) (tk_latency t)"

lemma drain_steps_split: "drain_steps t = first_steps t @ [PruneWindow] @ rest_steps t"
  by (simp add: drain_steps_def first_steps_def rest_steps_def)

lemma rest_steps_quiet:
  "list_all (\<lambda>e. e \<noteq> PruneWindow \<and> pair_sample k e = None) (rest_steps t)"
  "list_all (\<lambda>e. e \<noteq> PruneWindow \<and> writer_sample p e = None) (rest_steps t)"
  "List.map_filter second_of (rest_steps t) = []"
  "List.map_filter (pair_sample k) (rest_steps t) = []"
  "List.map_filter (writer_sample p) (rest_steps t) = []"
  by (auto simp: rest_steps_def list_all_iff List.map_filter_def filter_empty_conv)

lemma map_filter_drain:
  assumes "f PruneWindow = None" "List.map_filter f (rest_steps t) = []"
  shows "List.map_filter f (es @ drain_steps t) = List.map_filter f (es @ first_steps t)"
  using assms by (simp add: drain_steps_split List.map_filter_def)

lemma newest_of_drain: "newest_of (es @ drain_steps t) = newest_of (es @ first_steps t)"
  unfolding newest_of_def by (subst map_filter_drain) (simp_all add: rest_steps_quiet)

text \<open>The copy after a run from a fresh observer, when nobody else drained meanwhile.\<close>

definition final_copy :: "build \<Rightarrow> ip_locator \<Rightarrow> string \<Rightarrow> bool \<Rightarrow> drain_step list \<Rightarrow> taken \<Rightarrow> listener \<Rightarrow> stats_data" where
  "final_copy b ip nm sliding es t li =
     fst (stats_snapshot b ip nm t [] [] li li (run_steps ip es (set_rate_window sliding stats_observer0)))"

lemma final_copy_slots:
  "om_get (delivery_windows (final_copy b ip nm sliding es t li)) k =
     window_of (slots (so_pair_seconds
       (run_steps ip (es @ drain_steps t) (set_rate_window sliding stats_observer0))) k)"
  "om_get (latency_gaps (final_copy b ip nm sliding es t li)) p =
     sequence_gaps (slots (so_writer_seconds
       (run_steps ip (es @ drain_steps t) (set_rate_window sliding stats_observer0))) p)"
proof -
  let ?st = "run_steps ip (es @ drain_steps t) (set_rate_window sliding stats_observer0)"
  have "om_ok (so_pair_seconds ?st)" "om_ok (so_writer_seconds ?st)"
    using pair_slots.ok_run [OF pair_slots.ok_start] writer_slots.ok_run [OF writer_slots.ok_start]
    by (simp_all add: pair_slots_ok_def writer_slots_ok_def)
  then show "om_get (delivery_windows (final_copy b ip nm sliding es t li)) k = window_of (slots (so_pair_seconds ?st) k)"
    "om_get (latency_gaps (final_copy b ip nm sliding es t li)) p = sequence_gaps (slots (so_writer_seconds ?st) p)"
    by (simp_all add: final_copy_def stats_snapshot_def Let_def copy_stats_def drain_def run_steps_append
        get_reduce_windows get_latency_gaps)
qed

subsection \<open>The samples of the window\<close>

definition window_samples :: "pair_second list \<Rightarrow> u64" where
  "window_samples l = sum_list (map (\<lambda>s. dw_samples (pse_window s)) l)"

lemma reduce_window_samples: "dw_samples (reduce_window l) = window_samples l"
  by (induction l rule: rev_induct)
    (simp_all add: reduce_window_def window_samples_def delivery_window0_def)

lemma window_samples_enter:
  "window_samples (enter_pair x l) = window_samples l + 1"
proof (cases "l = []")
  case False
  then have "window_samples l = window_samples (butlast l) + dw_samples (pse_window (last l))"
    by (cases l rule: rev_cases) (simp_all add: window_samples_def)
  then show ?thesis
    by (simp add: enter_def window_samples_def new_pair_slot_def add_pair_slot_def add_to_window_def)
qed (simp add: enter_def window_samples_def new_pair_slot_def)

lemma window_samples_entered: "window_samples (fold enter_pair xs l) = window_samples l + of_nat (length xs)"
  by (induction xs arbitrary: l) (simp_all add: window_samples_enter)

lemma unat_window_of:
  assumes "length xs < 2 ^ 64"
  shows "(case window_of (fold enter_pair xs []) of None \<Rightarrow> 0 | Some w \<Rightarrow> unat (dw_samples w)) = length xs"
proof -
  have "window_samples (fold enter_pair xs []) = of_nat (length xs)"
    by (simp add: window_samples_entered) (simp add: window_samples_def)
  then have "dw_samples (reduce_window (fold enter_pair xs [])) = of_nat (length xs)"
    by (simp add: reduce_window_samples)
  moreover have "unat (of_nat (length xs) :: u64) = length xs"
    using assms by (simp add: unat_of_nat take_bit_nat_eq_self)
  ultimately show ?thesis
    using of_nat_u64_0 [OF assms] by (auto simp: window_of_def word_neq_0_conv)
qed

lemma newest_of_min:
  assumes "list_all (\<lambda>s. int64_min < s) (List.map_filter second_of es)" "newest_of es = int64_min"
  shows "List.map_filter second_of es = []"
proof (rule ccontr)
  assume ne: "List.map_filter second_of es \<noteq> []"
  have base: "m \<le> fold max xs m" for m :: int and xs
    by (induction xs arbitrary: m) (auto intro: order_trans [OF max.cobounded2])
  have ge: "s \<le> fold max xs m" if "s \<in> set xs" for s m :: int and xs
    using that by (induction xs arbitrary: m) (auto intro: order_trans [OF _ base])
  obtain s where "s \<in> set (List.map_filter second_of es)" using ne by (meson last_in_set)
  then have "s \<le> int64_min" "int64_min < s"
    using assms ge [of s "List.map_filter second_of es" int64_min]
    unfolding newest_of_def list_all_iff by auto
  then show False by simp
qed

lemma length_map_filter_le: "length (List.map_filter f es) \<le> length es"
  by (simp add: List.map_filter_def)

lemma map_filter_pair_Nil:
  "List.map_filter second_of es = [] \<Longrightarrow> List.map_filter (pair_sample k) es = []"
proof (induction es)
  case (Cons e es)
  then show ?case by (cases e) (auto simp: List.map_filter_simps split: if_splits)
qed (simp add: List.map_filter_simps)

text \<open>
  C20. With \<open>--watch\<close>, the delivered samples of a pair are exactly its samples of the last five seconds,
  counted from the newest second any sample carried, when the samples of the pair arrive in the order
  of their seconds.
\<close>

theorem delivered_window_exact:
  assumes "sorted (map fst (List.map_filter (pair_sample k) (es @ drain_steps t)))"
    and "length (es @ drain_steps t) < 2 ^ 64"
    and "list_all (\<lambda>s. int64_min < s) (List.map_filter second_of (es @ drain_steps t))"
  shows "(case om_get (delivery_windows (final_copy b ip nm True es t li)) k of
            None \<Rightarrow> 0 | Some w \<Rightarrow> unat (dw_samples w)) =
    length (filter (\<lambda>x. newest_of (es @ drain_steps t) - kStatsRateWindowSeconds < fst x)
      (List.map_filter (pair_sample k) (es @ drain_steps t)))"
proof -
  let ?es = "es @ first_steps t"
  let ?xs = "List.map_filter (pair_sample k) ?es"
  let ?low = "newest_of ?es - kStatsRateWindowSeconds + 1"
  have xs: "List.map_filter (pair_sample k) (es @ drain_steps t) = ?xs"
    by (rule map_filter_drain) (simp_all add: rest_steps_quiet)
  have secs: "List.map_filter second_of (es @ drain_steps t) = List.map_filter second_of ?es"
    by (rule map_filter_drain) (simp_all add: rest_steps_quiet)
  let ?start = "set_rate_window True stats_observer0"
  let ?cut = "run_steps ip (?es @ [PruneWindow]) ?start"
  have "slots (so_pair_seconds (run_steps ip (es @ drain_steps t) ?start)) k = slots (so_pair_seconds ?cut) k"
    unfolding drain_steps_split append_assoc [symmetric] run_steps_append [of _ _ "rest_steps t"]
    by (rule pair_slots.view_run_other [OF pair_slots.ok_run [OF pair_slots.ok_start] rest_steps_quiet(1)])
  also have "\<dots> = fold enter_pair (filter (\<lambda>x. ?low \<le> fst x) ?xs) []"
  proof (cases "newest_of ?es = int64_min")
    case True
    then have "List.map_filter second_of ?es = []"
      using newest_of_min assms(3) unfolding secs by blast
    then have none: "?xs = []" by (rule map_filter_pair_Nil)
    then have "List.map_filter (pair_sample k) (?es @ [PruneWindow]) = []"
      by (simp add: List.map_filter_def)
    from pair_slots.view_run_none [OF this] none show ?thesis by simp
  next
    case False
    have "sorted (map fst ?xs)" using assms(1) unfolding xs .
    with pair_slots.view_run_cut [OF False, of ip k] pair_slots.cut_sorted show ?thesis by metis
  qed
  finally have sl: "slots (so_pair_seconds (run_steps ip (es @ drain_steps t) ?start)) k =
      fold enter_pair (filter (\<lambda>x. ?low \<le> fst x) ?xs) []" .
  have "length (filter (\<lambda>x. ?low \<le> fst x) ?xs) \<le> length ?xs" by simp
  also have "\<dots> \<le> length ?es" by (rule length_map_filter_le)
  also have "\<dots> \<le> length (es @ drain_steps t)" by (simp add: drain_steps_split)
  finally have "length (filter (\<lambda>x. ?low \<le> fst x) ?xs) \<le> length (es @ drain_steps t)" .
  then have "length (filter (\<lambda>x. ?low \<le> fst x) ?xs) < 2 ^ 64"
    using assms(2) by linarith
  moreover have "(\<lambda>x :: int \<times> double. ?low \<le> fst x) =
      (\<lambda>x. newest_of ?es - kStatsRateWindowSeconds < fst x)"
    by auto
  ultimately show ?thesis
    unfolding final_copy_slots sl xs newest_of_drain using unat_window_of by metis
qed

definition sample_latency :: "u8 \<Rightarrow> writer_reader_data" where
  "sample_latency n = \<lparr>wr_writer = replicate 16 3, wr_reader = replicate 15 1 @ [n], wr_data = Fin 0\<rparr>"

definition taken0 :: taken where
  "taken0 = \<lparr>tk_sent = [], tk_latency = [], tk_data_count = [], tk_resent = [], tk_heartbeats = [],
     tk_gaps = [], tk_acknacks = [], tk_nackfrags = [], tk_lost = [], tk_physical = []\<rparr>"

theorem delivered_window_exact_witness:
  "(case om_get (delivery_windows (final_copy sample_build sample_ip ''t'' True []
        (taken0\<lparr>tk_latency := [(sample_taken 1 1, sample_latency 4), (sample_taken 2 6, sample_latency 4),
                              (sample_taken 3 7, sample_latency 4)]\<rparr>) (listener0 0)))
      (latency_key (sample_latency 4)) of None \<Rightarrow> 0 | Some w \<Rightarrow> unat (dw_samples w)) = 2"
proof -
  let ?t = "taken0\<lparr>tk_latency := [(sample_taken 1 1, sample_latency 4), (sample_taken 2 6, sample_latency 4),
                              (sample_taken 3 7, sample_latency 4)]\<rparr>"
  let ?k = "latency_key (sample_latency 4)"
  have s: "[] @ drain_steps ?t = [TakeLatency (sample_taken 1 1) (sample_latency 4),
      TakeLatency (sample_taken 2 6) (sample_latency 4), TakeLatency (sample_taken 3 7) (sample_latency 4),
      PruneWindow]"
    by (simp add: drain_steps_def taken0_def)
  have xs: "map fst (List.map_filter (pair_sample ?k) ([] @ drain_steps ?t)) = [1, 6, 7]"
    "List.map_filter second_of ([] @ drain_steps ?t) = [1, 6, 7]"
    unfolding s by (simp_all add: List.map_filter_simps sample_taken_def)
  have h: "sorted (map fst (List.map_filter (pair_sample ?k) ([] @ drain_steps ?t)))"
    "length ([] @ drain_steps ?t) < 2 ^ 64"
    "list_all (\<lambda>s. int64_min < s) (List.map_filter second_of ([] @ drain_steps ?t))"
    unfolding xs s by (simp_all add: int64_min_def sample_taken_def)
  have n: "newest_of ([] @ drain_steps ?t) = 7"
    unfolding newest_of_def xs by (simp add: int64_min_def)
  have "length (filter (\<lambda>x. m < fst x) l) = length (filter (\<lambda>s. m < s) (map fst l))"
    for m and l :: "(int \<times> double) list"
    by (induction l) auto
  then have "length (filter (\<lambda>x. 7 - kStatsRateWindowSeconds < fst x)
      (List.map_filter (pair_sample ?k) ([] @ drain_steps ?t))) =
      length (filter (\<lambda>s. 7 - kStatsRateWindowSeconds < s) [1, 6, 7])"
    unfolding xs(1) [symmetric] .
  then show ?thesis
    unfolding delivered_window_exact [OF h] n by (simp add: kStatsRateWindowSeconds_def)
qed

subsection \<open>The gaps in the sequence numbers\<close>

definition seqs_of :: "(int \<times> u64) list \<Rightarrow> u64 set" where
  "seqs_of xs = snd ` set xs"

definition seq_step :: "writer_second \<Rightarrow> u64 \<times> u64 \<times> u64 \<Rightarrow> u64 \<times> u64 \<times> u64" where
  "seq_step s r = (case r of (mi, ma, n) \<Rightarrow>
     (let (mi, ma) = (if n = 0 then (wse_min_seq s, wse_max_seq s) else (mi, ma))
      in (min mi (wse_min_seq s), max ma (wse_max_seq s), n + wse_samples s)))"

lemma reduce_sequences_step: "reduce_sequences ws = fold seq_step ws (0, 0, 0)"
  unfolding reduce_sequences_def by (rule arg_cong [where f = "\<lambda>f. fold f ws (0, 0, 0)"])
    (auto simp: fun_eq_iff seq_step_def)

lemma seq_step_add:
  "seq_step (add_writer_slot x s) r =
     (case seq_step s r of (mi, ma, n) \<Rightarrow> (min mi (snd x), max ma (snd x), n + 1))"
  by (cases r) (auto simp: seq_step_def add_writer_slot_def Let_def min.assoc max.assoc)

lemma reduce_enter:
  assumes "reduce_sequences ws = (mi, ma, n)" "ws = [] \<longleftrightarrow> n = 0"
  shows "reduce_sequences (enter_writer x ws) =
     (if ws = [] then (snd x, snd x, 1) else (min mi (snd x), max ma (snd x), n + 1))"
proof (cases "ws = []")
  case True
  then show ?thesis
    by (simp add: enter_def reduce_sequences_step seq_step_def new_writer_slot_def)
next
  case False
  then have ws: "ws = butlast ws @ [last ws]" by simp
  have old: "seq_step (last ws) (fold seq_step (butlast ws) (0, 0, 0)) = (mi, ma, n)"
    using assms(1) by (subst (asm) ws) (simp add: reduce_sequences_step)
  show ?thesis
  proof (cases "wse_sec (last ws) < fst x")
    case True
    then show ?thesis
      using False assms by (simp add: enter_def reduce_sequences_step seq_step_def new_writer_slot_def)
  next
    case c: False
    then show ?thesis
      using False old by (simp add: enter_def reduce_sequences_step seq_step_add)
  qed
qed

lemma reduce_entered:
  assumes "xs \<noteq> []" "length xs < 2 ^ 64"
  shows "fold enter_writer xs [] \<noteq> [] \<and> reduce_sequences (fold enter_writer xs []) =
     (Min (seqs_of xs), Max (seqs_of xs), of_nat (length xs))"
  using assms
proof (induction xs rule: rev_induct)
  case Nil
  then show ?case by simp
next
  case (snoc x xs)
  have ne: "enter_writer x l \<noteq> []" for l by (simp add: enter_def)
  show ?case
  proof (cases "xs = []")
    case True
    then show ?thesis
      using reduce_enter [of "[]" 0 0 0 x] ne by (simp add: reduce_sequences_def seqs_of_def)
  next
    case False
    then have IH: "fold enter_writer xs [] \<noteq> []" "reduce_sequences (fold enter_writer xs []) =
      (Min (seqs_of xs), Max (seqs_of xs), of_nat (length xs))"
      using snoc by simp_all
    have "(of_nat (length xs) :: u64) \<noteq> 0"
      using of_nat_u64_0 [of "length xs"] snoc.prems False by simp
    then have "reduce_sequences (enter_writer x (fold enter_writer xs [])) =
        (min (Min (seqs_of xs)) (snd x), max (Max (seqs_of xs)) (snd x), of_nat (length xs) + 1)"
      using reduce_enter [OF IH(2)] IH(1) by simp
    moreover have "Min (seqs_of (xs @ [x])) = min (Min (seqs_of xs)) (snd x)"
      "Max (seqs_of (xs @ [x])) = max (Max (seqs_of xs)) (snd x)"
      using False by (simp_all add: seqs_of_def min.commute max.commute)
    ultimately show ?thesis using ne by (simp add: add.commute)
  qed
qed

text \<open>The numbers between the first and the last one received that were not received.\<close>

definition missing_seqs :: "(int \<times> u64) list \<Rightarrow> u64 set" where
  "missing_seqs xs =
     {n. (\<exists>a \<in> seqs_of xs. a \<le> n) \<and> (\<exists>b \<in> seqs_of xs. n \<le> b)} - seqs_of xs"

lemma missing_seqs_interval:
  assumes "xs \<noteq> []"
  shows "missing_seqs xs = {Min (seqs_of xs) .. Max (seqs_of xs)} - seqs_of xs"
proof -
  have "finite (seqs_of xs)" "seqs_of xs \<noteq> {}" using assms by (simp_all add: seqs_of_def)
  then have "Min (seqs_of xs) \<le> n \<longleftrightarrow> (\<exists>a \<in> seqs_of xs. a \<le> n)"
    "n \<le> Max (seqs_of xs) \<longleftrightarrow> (\<exists>b \<in> seqs_of xs. n \<le> b)" for n
    by (rule Min_le_iff, rule Max_ge_iff)
  then show ?thesis
    unfolding missing_seqs_def by (simp add: atLeastAtMost_def atLeast_def atMost_def Collect_conj_eq)
qed

lemma card_u64_interval: "(a :: u64) \<le> b \<Longrightarrow> card {a .. b} = unat b - unat a + 1"
proof -
  assume ab: "a \<le> b"
  have "unat ` {a .. b} = {unat a .. unat b}"
  proof
    show "unat ` {a .. b} \<subseteq> {unat a .. unat b}" by (auto simp: word_le_nat_alt)
    show "{unat a .. unat b} \<subseteq> unat ` {a .. b}"
    proof
      fix n assume n: "n \<in> {unat a .. unat b}"
      then have "n < 2 ^ 64" using unsigned_less [of b, where ?'a = nat] by simp
      then have "unat (of_nat n :: u64) = n" by (simp add: unat_of_nat take_bit_nat_eq_self)
      then show "n \<in> unat ` {a .. b}"
        using n by (intro image_eqI [of _ _ "of_nat n"]) (auto simp: word_le_nat_alt)
    qed
  qed
  moreover have "inj_on unat {a .. b}" by (auto intro: inj_onI simp: word_unat_eq_iff)
  ultimately have "card {a .. b} = card {unat a .. unat b}" by (metis card_image)
  then show ?thesis using ab by (simp add: word_le_nat_alt)
qed

lemma sequence_gaps_entered:
  assumes "distinct (map snd xs)" "list_all (\<lambda>x. 0 < snd x) xs" "length xs < 2 ^ 64"
  shows "sequence_gaps (fold enter_writer xs []) =
     (if missing_seqs xs = {} then None else Some (of_nat (card (missing_seqs xs))))"
proof (cases "xs = []")
  case True
  then show ?thesis by (simp add: sequence_gaps_Nil missing_seqs_def seqs_of_def)
next
  case False
  let ?S = "seqs_of xs" let ?a = "Min ?S" let ?b = "Max ?S"
  have fin: "finite ?S" "?S \<noteq> {}" using False by (simp_all add: seqs_of_def)
  have card_S: "card ?S = length xs"
    using assms(1) distinct_card [of "map snd xs"] by (simp add: seqs_of_def)
  have ab: "?a \<le> ?b" using fin by (meson Min_in Max_ge)
  have sub: "?S \<subseteq> {?a .. ?b}" using fin by auto
  have "0 < ?a" using assms(2) Min_in [OF fin] by (auto simp: seqs_of_def list_all_iff)
  then have "0 < unat ?a" by (simp add: word_less_nat_alt)
  then have small: "unat ?b - unat ?a + 1 < 2 ^ 64"
    using unsigned_less [of ?b, where ?'a = nat] by simp
  have num: "?b - ?a + 1 = of_nat (unat ?b - unat ?a + 1)"
    using ab by (simp add: word_le_nat_alt of_nat_diff)
  have c: "card (missing_seqs xs) = unat ?b - unat ?a + 1 - length xs"
    unfolding missing_seqs_interval [OF False] using card_Diff_subset [OF fin(1) sub] card_u64_interval [OF ab] card_S
    by simp
  have le: "length xs \<le> unat ?b - unat ?a + 1"
    using card_mono [OF _ sub] card_u64_interval [OF ab] card_S by simp
  have n0: "(of_nat (length xs) :: u64) \<noteq> 0" using of_nat_u64_0 [OF assms(3)] False by simp
  have lt: "(of_nat (length xs) :: u64) < of_nat (unat ?b - unat ?a + 1) \<longleftrightarrow>
      length xs < unat ?b - unat ?a + 1"
    using small assms(3) by (simp only: word_less_nat_alt unat_of_nat) (simp add: take_bit_nat_eq_self)
  have sub': "(of_nat (unat ?b - unat ?a + 1) :: u64) - of_nat (length xs) =
      of_nat (unat ?b - unat ?a + 1 - length xs)"
    using le by (simp only: of_nat_diff)
  have "sequence_gaps (fold enter_writer xs []) =
     (if length xs < unat ?b - unat ?a + 1 then Some (of_nat (card (missing_seqs xs))) else None)"
    using reduce_entered [OF False assms(3)]
    by (simp only: sequence_gaps_def Let_def prod.case num n0 if_False lt sub' c)
  moreover have "missing_seqs xs = {} \<longleftrightarrow> \<not> length xs < unat ?b - unat ?a + 1"
    using c by (metis card_eq_0_iff finite_Diff finite diff_is_0_eq not_le)
  ultimately show ?thesis by simp
qed

text \<open>
  Without a window the gaps of a statistics writer are exactly the sequence numbers between the
  first and the last received one that did not arrive, in whatever order they were taken.
\<close>

theorem latency_gaps_exact:
  assumes "distinct (map snd (List.map_filter (writer_sample p) (es @ drain_steps t)))"
    and "list_all (\<lambda>x. 0 < snd x) (List.map_filter (writer_sample p) (es @ drain_steps t))"
    and "length (es @ drain_steps t) < 2 ^ 64"
  shows "om_get (latency_gaps (final_copy b ip nm False es t li)) p =
     (let missing = missing_seqs (List.map_filter (writer_sample p) (es @ drain_steps t))
      in if missing = {} then None else Some (of_nat (card missing)))"
proof -
  have "length (List.map_filter (writer_sample p) (es @ drain_steps t)) < 2 ^ 64"
    using length_map_filter_le assms(3) by (rule le_less_trans)
  then show ?thesis
    unfolding final_copy_slots writer_slots.view_run_whole Let_def
    by (rule sequence_gaps_entered [OF assms(1,2)])
qed

definition sample_publisher :: string where
  "sample_publisher = prefix_to_string (replicate 12 1)"

lemma publisher_of_sample [simp]: "sample_publisher_prefix (sample_taken seq sec) = sample_publisher"
  by (simp add: sample_publisher_prefix_def sample_taken_def sample_publisher_def)

lemma sample_taken_sel [simp]:
  "sa_valid (sample_taken seq sec)" "sa_seconds (sample_taken seq sec) = sec"
  "sa_sequence (sample_taken seq sec) = seq"
  by (simp_all add: sample_taken_def)

text \<open>A drain that took these samples of the two pairs of one participant, pair after pair.\<close>

definition latency_drain :: "(u64 \<times> int) list \<Rightarrow> (u64 \<times> int) list \<Rightarrow> taken" where
  "latency_drain xs ys = taken0\<lparr>tk_latency :=
     map (\<lambda>x. (sample_taken (fst x) (snd x), sample_latency 4)) xs @
     map (\<lambda>y. (sample_taken (fst y) (snd y), sample_latency 7)) ys\<rparr>"

lemma writer_samples_drain:
  "List.map_filter (writer_sample sample_publisher) (es @ drain_steps (latency_drain xs ys)) =
     List.map_filter (writer_sample sample_publisher) es @ map (\<lambda>x. (snd x, fst x)) (xs @ ys)"
  by (simp add: drain_steps_def latency_drain_def taken0_def List.map_filter_def comp_def filter_map)

lemma seconds_drain:
  "List.map_filter second_of (es @ drain_steps (latency_drain xs ys)) =
     List.map_filter second_of es @ map snd (xs @ ys)"
  by (simp add: drain_steps_def latency_drain_def taken0_def List.map_filter_def comp_def filter_map)

theorem latency_gaps_exact_witness:
  "om_get (latency_gaps (final_copy sample_build sample_ip ''t'' False []
     (latency_drain [(1, 10), (4, 11)] [(2, 10)]) (listener0 0))) sample_publisher = Some 1"
proof -
  let ?t = "latency_drain [(1, 10), (4, 11)] [(2, 10)]"
  have xs: "List.map_filter (writer_sample sample_publisher) ([] @ drain_steps ?t) = [(10, 1), (11, 4), (10, 2)]"
    unfolding writer_samples_drain by (simp add: List.map_filter_simps)
  have h: "distinct (map snd (List.map_filter (writer_sample sample_publisher) ([] @ drain_steps ?t)))"
    "list_all (\<lambda>x. 0 < snd x) (List.map_filter (writer_sample sample_publisher) ([] @ drain_steps ?t))"
    unfolding xs by simp_all
  have l: "length ([] @ drain_steps ?t) < 2 ^ 64"
    by (simp add: drain_steps_def latency_drain_def taken0_def)
  have m: "missing_seqs [(10, 1), (11, 4), (10, 2)] = {3}"
  proof -
    have "n \<in> {1 .. 4} \<longleftrightarrow> n \<in> {1, 2, 3, 4}" for n :: u64
    proof -
      have "unat n \<in> {1 .. 4} \<longleftrightarrow> unat n \<in> {1, 2, 3, 4}" by auto
      then show ?thesis by (simp add: word_le_nat_alt word_unat_eq_iff)
    qed
    then have "{1 .. 4 :: u64} = {1, 2, 3, 4}" by blast
    then show ?thesis by (simp add: missing_seqs_interval seqs_of_def) auto
  qed
  show ?thesis
    unfolding latency_gaps_exact [OF h l] xs by (simp add: m)
qed

text \<open>
  With a window the gaps can be wrong: of two pairs of one participant all seven samples arrived,
  numbered 1 to 7, but the samples of the second pair that are older than the newest second entered
  the slot of that second, and when the window cuts the slots before it, the numbers that the first
  pair had there count as missing.
\<close>

theorem latency_gaps_phantom:
  "missing_seqs (List.map_filter (writer_sample sample_publisher)
      (drain_steps (latency_drain [(1, 10), (3, 10), (5, 11)] [(2, 10), (4, 10), (6, 11)]) @
       drain_steps (latency_drain [(7, 15)] []))) = {} \<and>
   om_get (latency_gaps (final_copy sample_build sample_ip ''t'' True
      (drain_steps (latency_drain [(1, 10), (3, 10), (5, 11)] [(2, 10), (4, 10), (6, 11)]))
      (latency_drain [(7, 15)] []) (listener0 0))) sample_publisher = Some 1"
proof
  let ?es = "drain_steps (latency_drain [(1, 10), (3, 10), (5, 11)] [(2, 10), (4, 10), (6, 11)])"
  let ?t = "latency_drain [(7, 15)] []"
  have first: "List.map_filter (writer_sample sample_publisher) (?es @ drain_steps ?t) =
      [(10, 1), (10, 3), (11, 5), (10, 2), (10, 4), (11, 6), (15, 7)]"
    apply (subst writer_samples_drain)
    using writer_samples_drain [of "[]" "[(1, 10), (3, 10), (5, 11)]" "[(2, 10), (4, 10), (6, 11)]"]
    by (simp add: List.map_filter_simps)
  have "n \<in> {1 .. 7} \<longleftrightarrow> n \<in> {1, 2, 3, 4, 5, 6, 7}" for n :: u64
  proof -
    have "unat n \<in> {1 .. 7} \<longleftrightarrow> unat n \<in> {1, 2, 3, 4, 5, 6, 7}" by auto
    then show ?thesis by (simp add: word_le_nat_alt word_unat_eq_iff)
  qed
  then have i: "{1 .. 7 :: u64} = {1, 2, 3, 4, 5, 6, 7}" by blast
  show "missing_seqs (List.map_filter (writer_sample sample_publisher) (?es @ drain_steps ?t)) = {}"
    unfolding first by (simp add: missing_seqs_interval seqs_of_def i)
  have secs: "List.map_filter second_of (?es @ drain_steps ?t) = [10, 10, 11, 10, 10, 11, 15]"
    apply (subst seconds_drain)
    using seconds_drain [of "[]" "[(1, 10), (3, 10), (5, 11)]" "[(2, 10), (4, 10), (6, 11)]"]
    by (simp add: List.map_filter_simps)
  have f: "List.map_filter (writer_sample sample_publisher) (?es @ first_steps ?t) =
      [(10, 1), (10, 3), (11, 5), (10, 2), (10, 4), (11, 6), (15, 7)]"
    using first by (subst (asm) map_filter_drain) (simp_all add: rest_steps_quiet)
  have n: "newest_of (?es @ first_steps ?t) = 15"
    by (subst newest_of_drain [symmetric], subst newest_of_def, subst secs) (simp add: int64_min_def)
  then have ne: "newest_of (?es @ first_steps ?t) \<noteq> int64_min" by (simp add: int64_min_def)
  let ?start = "set_rate_window True stats_observer0"
  have "slots (so_writer_seconds (run_steps sample_ip (?es @ drain_steps ?t) ?start)) sample_publisher =
      slots (so_writer_seconds (run_steps sample_ip ((?es @ first_steps ?t) @ [PruneWindow]) ?start)) sample_publisher"
    unfolding drain_steps_split [of ?t] append_assoc [symmetric] run_steps_append [of _ _ "rest_steps ?t"]
    by (rule writer_slots.view_run_other [OF writer_slots.ok_run [OF writer_slots.ok_start] rest_steps_quiet(2)])
  also have "\<dots> = [\<lparr>wse_sec = 11, wse_min_seq = 2, wse_max_seq = 6, wse_samples = 4\<rparr>,
      \<lparr>wse_sec = 15, wse_min_seq = 7, wse_max_seq = 7, wse_samples = 1\<rparr>]"
    unfolding writer_slots.view_run_cut [OF ne] n f
    by (simp add: enter_def new_writer_slot_def add_writer_slot_def kStatsRateWindowSeconds_def min_def max_def)
  finally have "slots (so_writer_seconds (run_steps sample_ip (?es @ drain_steps ?t) ?start)) sample_publisher =
    [\<lparr>wse_sec = 11, wse_min_seq = 2, wse_max_seq = 6, wse_samples = 4\<rparr>,
      \<lparr>wse_sec = 15, wse_min_seq = 7, wse_max_seq = 7, wse_samples = 1\<rparr>]" .
  then show "om_get (latency_gaps (final_copy sample_build sample_ip ''t'' True ?es ?t (listener0 0))) sample_publisher = Some 1"
    unfolding final_copy_slots
    by (simp add: sequence_gaps_def reduce_sequences_def min_def max_def)
qed

subsection \<open>The settle rule\<close>

lemma settle_fold:
  "fold (settle_step topic heard) gs out = out\<lparr>
     se_announced := se_announced out + length gs,
     se_heard := se_heard out + length (filter (\<lambda>g. g \<in> heard) gs),
     se_unheard := se_unheard out @ map (\<lambda>g. topic @ '' '' @ g) (filter (\<lambda>g. g \<notin> heard) gs)\<rparr>"
  by (induction gs arbitrary: out) (simp_all add: settle_step_def Let_def)

text \<open>
  The settle numbers are exact: a matched RTPS_SENT writer is announced, it is heard when a sample
  of it was taken, the others are listed, and the run waits for a writer exactly as long as one is
  matched and not heard.
\<close>

theorem settle_exact:
  "se_announced (settle_status nm li st) = length (li_matched li RtpsSent) \<and>
   se_unheard (settle_status nm li st) =
     map (\<lambda>g. nm @ '' '' @ g) (filter (\<lambda>g. g \<notin> so_heard st RtpsSent) (li_matched li RtpsSent)) \<and>
   se_heard (settle_status nm li st) + length (se_unheard (settle_status nm li st)) =
     se_announced (settle_status nm li st) \<and>
   (se_announced (settle_status nm li st) \<le> se_heard (settle_status nm li st)) =
     list_all (\<lambda>g. g \<in> so_heard st RtpsSent) (li_matched li RtpsSent)"
proof -
  have "length (filter P xs) + length (filter (\<lambda>x. \<not> P x) xs) = length xs" for P and xs :: "string list"
    by (rule sum_length_filter_compl)
  moreover have "length xs \<le> length (filter P xs) \<longleftrightarrow> list_all P xs" for P and xs :: "string list"
    by (metis filter_True length_filter_less list_all_iff not_le order_refl)
  ultimately show ?thesis
    unfolding settle_status_def settle_fold by simp
qed

end
