(* ===== verification/Listener_Props.thy ===== *)
theory Listener_Props
  imports Stats_Observer_Props
begin

text \<open>
  The callbacks of the statistics readers, in any order: what was lost is counted once, in one of the
  two totals, and the writers a reader is matched with are those whose last change was a match.
\<close>

datatype listener_event =
    SampleLost int stat_reader int       \<comment> \<open>now, reader, change of the total\<close>
  | SampleRejected int
  | SubscriptionMatched int stat_reader string int
  | IncompatibleQos int

fun listener_step :: "(int \<Rightarrow> double) \<Rightarrow> listener_event \<Rightarrow> listener \<Rightarrow> listener" where
  "listener_step seconds_of (SampleLost now r n) li = on_sample_lost seconds_of now r n li"
| "listener_step seconds_of (SampleRejected n) li = on_sample_rejected n li"
| "listener_step seconds_of (SubscriptionMatched now r g n) li = on_subscription_matched now r g n li"
| "listener_step seconds_of (IncompatibleQos n) li = on_requested_incompatible_qos n li"

text \<open>The listener of the program: the event reader is set before anything is received.\<close>

definition run_listener :: "(int \<Rightarrow> double) \<Rightarrow> int \<Rightarrow> listener_event list \<Rightarrow> listener" where
  "run_listener seconds_of start evs =
     fold (listener_step seconds_of) evs ((listener0 start)\<lparr>li_event_reader := Some HistoryLatency\<rparr>)"

fun lost_in :: "listener_event \<Rightarrow> u64" where
  "lost_in (SampleLost now r n) = of_int n"
| "lost_in _ = 0"

fun rejected_in :: "listener_event \<Rightarrow> u64" where
  "rejected_in (SampleRejected n) = of_int n"
| "rejected_in _ = 0"

fun incompatible_in :: "listener_event \<Rightarrow> u64" where
  "incompatible_in (IncompatibleQos n) = of_int n"
| "incompatible_in _ = 0"

text \<open>What an event says of the match between a reader and a writer.\<close>

fun says_of_match :: "stat_reader \<Rightarrow> string \<Rightarrow> listener_event \<Rightarrow> bool option" where
  "says_of_match r g (SubscriptionMatched now s h n) =
     (if s = r \<and> h = g \<and> n \<noteq> 0 then Some (0 < n) else None)"
| "says_of_match r g _ = None"

fun is_match :: "listener_event \<Rightarrow> bool" where
  "is_match (SubscriptionMatched now s h n) = (0 < n)"
| "is_match _ = False"

definition matched_ok :: "listener \<Rightarrow> bool" where
  "matched_ok li \<longleftrightarrow> (\<forall>r. sorted (li_matched li r) \<and> distinct (li_matched li r))"

lemmas callback_defs = on_sample_lost_def on_sample_rejected_def on_subscription_matched_def
  on_requested_incompatible_qos_def Let_def

lemma set_insert_set: "set (set_insert x xs) = insert x (set xs)"
  by (auto simp: set_insert_def set_insort_key)

lemma set_insert_ok:
  "sorted xs \<Longrightarrow> distinct xs \<Longrightarrow> sorted (set_insert x xs) \<and> distinct (set_insert x xs)"
  by (simp add: set_insert_def sorted_insort distinct_insort)

lemma listener_step_matched:
  assumes "matched_ok li"
  shows "matched_ok (listener_step f e li)"
    "g \<in> set (li_matched (listener_step f e li) r) \<longleftrightarrow>
       (case says_of_match r g e of None \<Rightarrow> g \<in> set (li_matched li r) | Some b \<Rightarrow> b)"
  using assms
  by (cases e; auto simp: callback_defs matched_ok_def set_insert_ok set_insert_set sorted_remove1)+

lemma listener_step_totals:
  "li_lost (listener_step f e li) + li_lost_at_start (listener_step f e li) =
     li_lost li + li_lost_at_start li + lost_in e"
  "li_rejected (listener_step f e li) = li_rejected li + rejected_in e"
  "li_incompatible_qos (listener_step f e li) = li_incompatible_qos li + incompatible_in e"
  "li_any_match (listener_step f e li) \<longleftrightarrow> li_any_match li \<or> is_match e"
  by (cases e; simp add: callback_defs)+

lemma run_listener_snoc:
  "run_listener f start (evs @ [e]) = listener_step f e (run_listener f start evs)"
  by (simp add: run_listener_def)

text \<open>Nothing is charged to the tool before the first writer matched.\<close>

lemma listener_before_match:
  "\<not> li_any_match li \<Longrightarrow> li_lost (listener_step f e li) = li_lost li"
  by (cases e) (simp_all add: callback_defs statistics_late_join_window_open_def)

text \<open>
  After any sequence of callbacks every reported loss is in exactly one of the two totals, in the
  excused one as long as no writer matched; the rejections and incompatibilities add up; and each
  reader has, sorted and once each, exactly the writers whose last change was a match.
\<close>

theorem listener_exact:
  "li_lost (run_listener f start evs) + li_lost_at_start (run_listener f start evs) =
     sum_list (map lost_in evs) \<and>
   (list_ex is_match evs \<or> li_lost (run_listener f start evs) = 0) \<and>
   li_rejected (run_listener f start evs) = sum_list (map rejected_in evs) \<and>
   li_incompatible_qos (run_listener f start evs) = sum_list (map incompatible_in evs) \<and>
   sorted (li_matched (run_listener f start evs) r) \<and>
   distinct (li_matched (run_listener f start evs) r) \<and>
   List.member (li_matched (run_listener f start evs) r) g = last_word (says_of_match r g) False evs"
proof -
  have "matched_ok (run_listener f start evs) \<and>
    (li_any_match (run_listener f start evs) \<longleftrightarrow> list_ex is_match evs) \<and>
    (list_ex is_match evs \<or> li_lost (run_listener f start evs) = 0) \<and>
    li_lost (run_listener f start evs) + li_lost_at_start (run_listener f start evs) =
      sum_list (map lost_in evs) \<and>
    li_rejected (run_listener f start evs) = sum_list (map rejected_in evs) \<and>
    li_incompatible_qos (run_listener f start evs) = sum_list (map incompatible_in evs) \<and>
    (g \<in> set (li_matched (run_listener f start evs) r)) = last_word (says_of_match r g) False evs"
  proof (induction evs rule: rev_induct)
    case Nil
    then show ?case by (simp add: run_listener_def listener0_def matched_ok_def)
  next
    case (snoc e evs)
    let ?li = "run_listener f start evs"
    have ok: "matched_ok ?li" using snoc by blast
    have "list_ex is_match evs \<or> li_lost (listener_step f e ?li) = li_lost ?li"
      using listener_before_match [of ?li f e] snoc by blast
    then show ?case
      using snoc listener_step_matched(1) [OF ok, of f e]
        listener_step_matched(2) [OF ok, of g f e r] listener_step_totals [of f e ?li]
      by (auto simp: run_listener_snoc split: option.split)
  qed
  then show ?thesis by (simp add: matched_ok_def)
qed

end
