(* ===== verification/Usage.thy ===== *)
theory Usage
  imports Prelude
begin

text \<open>
  The help of \<open>transport_viz\<close> (\<open>usage\<close> of \<open>src/main.cpp\<close>), line by line. It is printed to the standard
  output on \<open>--help\<close>, and after the message about an unknown command or option.
\<close>

definition usage_lines :: "string list" where
  "usage_lines =
    [''Usage: transport_viz [options]'',
     ''       transport_viz diff <before.json> <after.json> [options]'',
     [],
     ''Show which Fast DDS transport each ROS 2 topic is communicated over and why.'',
     ''Run it in the same environment (env vars, XML profile, network/IPC namespace)'',
     ''as the nodes you want to observe.'',
     [],
     ''Options:'',
     ''  --domain <id>      DDS domain id (default: $ROS_DOMAIN_ID or 0)'',
     ''  --timeout <sec>    max time to wait for discovery (default: 3, 30 with --stats)'',
     ''  --quiet <sec>      stop early after this many seconds without discovery events'',
     ''                     (default: 1; with --stats also once every participant with'',
     ''                     statistics has been heard from and the traffic entries measured'',
     ''                     towards a discovered reader stop growing for max(--quiet, 3) s,'',
     ''                     never before 5 s;'',
     ''                     --watch --stats draws its first frame once discovery is quiet'',
     ''                     and 5 s have passed)'',
     ''  --topic <regex>    only show topics whose (ROS) name matches the regex'',
     ''  --node <regex>     only show pairs where the writer or the reader belongs to a'',
     ''                     node whose full name matches the regex (that node's unpaired'',
     ''                     endpoints are kept too)'',
     ''  --all              include services/actions and non-ROS DDS topics; a service or an'',
     ''                     action is one SERVICE / ACTION row per client-server pair, not'',
     ''                     its raw rq/ and rr/ topics'',
     ''  -v, --verbose      expand writer -> reader pairs under each topic'',
     ''  --explain          print a legend for every reason code used'',
     ''  --locators         add a line under each pair with the locator the tool selected'',
     ''                     and the locators that actually carried packets (implies -v;'',
     ''                     ignored with --json, which always carries them)'',
     ''  --advise           add a 'fix <code>: ...' line under each pair for its reason codes'',
     ''                     that have a remedy, and the remedy under each code of the legend'',
     ''                     (implies -v and --explain; ignored with --json, which always'',
     ''                     carries them as reason_code_remedies)'',
     ''  --json             emit JSON (schema_version 1) instead of a table'',
     ''  --csv              emit CSV instead of a table: a header row, then one row per'',
     ''                     writer -> reader pair (RFC 4180 quoting, an empty cell where'',
     ''                     --json has null); with --watch the header comes once and every'',
     ''                     frame appends its rows, told apart by observed_at'',
     ''  --stats            also subscribe to the Fast DDS statistics topics and show the'',
     ''                     transport that actually carried packets; observed nodes must run'',
     ''                     with FASTDDS_STATISTICS='' @ [CHR 0x22] @ ''RTPS_SENT_TOPIC;RTPS_LOST_TOPIC;HISTORY_LATENCY_TOPIC;PHYSICAL_DATA_TOPIC;DATA_COUNT_TOPIC;'' @ ''RESENT_DATAS_TOPIC;HEARTBEAT_COUNT_TOPIC;ACKNACK_COUNT_TOPIC;NACKFRAG_COUNT_TOPIC;'' @ ''GAP_COUNT_TOPIC'' @ [CHR 0x22],
     ''  --color <mode>     auto|always|never: ANSI colors for transports and warnings'',
     ''                     (default: auto = only when stdout is a terminal; honours NO_COLOR)'',
     ''  --watch            keep observing and re-render every --interval seconds, marking'',
     ''                     added (+), changed (~) and removed (-) pairs; on a terminal, keys:'',
     ''                     q quit, p pause, v pairs, e legend, a all, l locators, f fixes.'',
     ''                     With --json, emits one'',
     ''                     compact document per line (JSON Lines) with a `changes` object'',
     ''  --interval <sec>   refresh period for --watch (default: 2)'',
     ''  --list-codes       list all reason codes with descriptions and remedies and exit'',
     ''  -h, --help         this help'',
     [],
     ''diff compares two --json documents without observing anything (a JSON Lines file of'',
     ''--watch --json counts by its last document; '-' reads one of them from stdin). It'',
     ''prints the after document with the pairs that were added (+), changed (~) or removed'',
     ''(-) marked as in --watch, or with --json the after document plus a `changes` object.'',
     ''Exit status: 0 no changes, 1 changes, 2 error. Takes --json, --color, --topic, --node,'',
     ''--all, -v, --explain, --locators, --advise and:'',
     ''  --key <mode>       node|guid: match the pairs of the two documents by (topic, writer'',
     ''                     node, reader node), which survives restarting the nodes (default;'',
     ''                     locator port numbers, renumbered by a restart, are ignored), or'',
     ''                     by their GUIDs as --watch does'',
     ''  --changes-only     only the topics with an added, changed or removed pair (with'',
     ''                     --json, `topics` is pruned the same way)'']"

definition usage_text :: string where
  "usage_text = concat (map (\<lambda>l. l @ [CHR 0x0A]) usage_lines)"

end
