(* ===== verification/Options.thy ===== *)
theory Options
  imports Topics Snapshot_Model Double Usage
begin

text \<open>
  The command line of \<open>transport_viz\<close> (\<open>src/main.cpp\<close>): the options with their defaults, the loop
  over the arguments, and the checks after it. The arguments after \<open>argv[0]\<close> are a list of strings
  without a zero byte. \<open>std::atoi\<close> and \<open>std::atof\<close> are those of glibc in the C locale; whether
  \<open>std::regex\<close> accepts a pattern, and what its exception says when not, is the parameter
  \<open>regex_error\<close>. A run ends with \<open>Exit\<close> or goes on with the parsed options.
\<close>

subsection \<open>atoi and atof\<close>

definition c_isspace :: "char \<Rightarrow> bool" where
  "c_isspace c \<longleftrightarrow> (let n = of_char c :: nat in n = 32 \<or> 9 \<le> n \<and> n \<le> 13)"

text \<open>The value of a digit; letters count from 10 in either case.\<close>

definition digit_val :: "char \<Rightarrow> nat option" where
  "digit_val c = (let n = of_char c :: nat
     in if 48 \<le> n \<and> n \<le> 57 then Some (n - 48)
        else if 97 \<le> n \<and> n \<le> 122 then Some (n - 87)
        else if 65 \<le> n \<and> n \<le> 90 then Some (n - 55)
        else None)"

definition is_digit :: "nat \<Rightarrow> char \<Rightarrow> bool" where
  "is_digit base c = (case digit_val c of Some v \<Rightarrow> v < base | None \<Rightarrow> False)"

definition digits_value :: "nat \<Rightarrow> string \<Rightarrow> nat" where
  "digits_value base s = foldl (\<lambda>v c. base * v + (case digit_val c of Some d \<Rightarrow> d | None \<Rightarrow> 0)) 0 s"

text \<open>An optional sign: whether it is a neg, and the text after it.\<close>

fun take_sign :: "string \<Rightarrow> bool \<times> string" where
  "take_sign [] = (False, [])"
| "take_sign (c # s) = (if c = CHR ''-'' then (True, s) else if c = CHR ''+'' then (False, s) else (False, c # s))"

definition apply_sign :: "bool \<Rightarrow> int \<Rightarrow> int" where
  "apply_sign neg n = (if neg then - n else n)"

definition atoi :: "string \<Rightarrow> int" where
  "atoi s =
     (let (neg, t) = take_sign (dropWhile c_isspace s);
          n = apply_sign neg (int (digits_value 10 (takeWhile (is_digit 10) t)));
          saturated = max (- (2 ^ 63)) (min (2 ^ 63 - 1) n)
      in signed_take_bit 31 saturated)"

definition c_lower :: "char \<Rightarrow> char" where
  "c_lower c = (let n = of_char c :: nat in if 65 \<le> n \<and> n \<le> 90 then char_of (n + 32) else c)"

text \<open>Digits with an optional point: the value and the text after it.\<close>

definition mantissa :: "nat \<Rightarrow> string \<Rightarrow> (rat \<times> string) option" where
  "mantissa base s =
     (let whole = takeWhile (is_digit base) s; r = dropWhile (is_digit base) s;
          (frac, r') = (if starts_with r ''.''
             then (takeWhile (is_digit base) (tl r), dropWhile (is_digit base) (tl r)) else ([], r))
      in if whole = [] \<and> frac = [] then None
         else Some (of_nat (digits_value base (whole @ frac)) / of_nat base ^ length frac, r'))"

text \<open>The exponent after its letter, which only counts with at least one digit.\<close>

definition exponent :: "char \<Rightarrow> string \<Rightarrow> int" where
  "exponent mark s =
     (case s of [] \<Rightarrow> 0
      | c # r \<Rightarrow>
          if c_lower c \<noteq> mark then 0
          else let (neg, t) = take_sign r
               in apply_sign neg (int (digits_value 10 (takeWhile (is_digit 10) t))))"

definition scan_number :: "string \<Rightarrow> double" where
  "scan_number t =
     (let l = map c_lower t in
      if starts_with l ''inf'' then PInf
      else if starts_with l ''nan'' then NaN
      else case (if starts_with l ''0x'' then mantissa 16 (drop 2 t) else None) of
             Some (m, r) \<Rightarrow> rnd (m * 2 powi exponent (CHR ''p'') r)
           | None \<Rightarrow> (case mantissa 10 t of
                 Some (m, r) \<Rightarrow> rnd (m * 10 powi exponent (CHR ''e'') r)
               | None \<Rightarrow> Fin 0))"

definition atof :: "string \<Rightarrow> double" where
  "atof s = (let (neg, t) = take_sign (dropWhile c_isspace s)
     in if neg then d_neg (scan_number t) else scan_number t)"

subsection \<open>Options\<close>

datatype color = ColorAuto | ColorAlways | ColorNever

record options =
  op_domain :: int
  op_timeout :: double
  op_stats :: bool
  op_quiet :: double
  op_json :: bool
  op_csv :: bool
  op_verbose :: bool
  op_explain :: bool
  op_locators :: bool
  op_advise :: bool
  op_all :: bool
  op_watch :: bool
  op_interval :: double
  op_topic_regex :: string
  op_node_regex :: string
  op_list_codes :: bool
  op_color :: color
  op_command :: string
  op_files :: "string list"
  op_key :: key_mode
  op_changes_only :: bool

definition options0 :: options where
  "options0 = \<lparr>op_domain = - 1, op_timeout = Fin (- 1), op_stats = False, op_quiet = Fin 1,
     op_json = False, op_csv = False, op_verbose = False, op_explain = False, op_locators = False,
     op_advise = False, op_all = False, op_watch = False, op_interval = Fin 2, op_topic_regex = [],
     op_node_regex = [], op_list_codes = False, op_color = ColorAuto, op_command = [],
     op_files = [], op_key = KmNode, op_changes_only = False\<rparr>"

text \<open>The program ends with a status, what it wrote to \<open>std::cout\<close> and the message on \<open>std::cerr\<close>.\<close>

datatype outcome = Parsed options | Exit int string string

subsection \<open>The arguments\<close>

text \<open>A flag with a value: what the value does to the options, or the message that rejects it.\<close>

definition valued :: "string \<Rightarrow> (string \<Rightarrow> options \<Rightarrow> string + options) option" where
  "valued a =
     (if a = ''--domain'' then Some (\<lambda>v ops. Inr (ops\<lparr>op_domain := atoi v\<rparr>))
      else if a = ''--timeout'' then Some (\<lambda>v ops. Inr (ops\<lparr>op_timeout := atof v\<rparr>))
      else if a = ''--quiet'' then Some (\<lambda>v ops. Inr (ops\<lparr>op_quiet := atof v\<rparr>))
      else if a = ''--topic'' then Some (\<lambda>v ops. Inr (ops\<lparr>op_topic_regex := v\<rparr>))
      else if a = ''--node'' then Some (\<lambda>v ops. Inr (ops\<lparr>op_node_regex := v\<rparr>))
      else if a = ''--interval'' then Some (\<lambda>v ops. Inr (ops\<lparr>op_interval := atof v\<rparr>))
      else if a = ''--color'' then Some (\<lambda>m ops.
        if m = ''auto'' then Inr (ops\<lparr>op_color := ColorAuto\<rparr>)
        else if m = ''always'' then Inr (ops\<lparr>op_color := ColorAlways\<rparr>)
        else if m = ''never'' then Inr (ops\<lparr>op_color := ColorNever\<rparr>)
        else Inl ''--color expects auto, always or never'')
      else if a = ''--key'' then Some (\<lambda>m ops.
        if m = ''node'' then Inr (ops\<lparr>op_key := KmNode\<rparr>)
        else if m = ''guid'' then Inr (ops\<lparr>op_key := KmGuid\<rparr>)
        else Inl ''--key expects node or guid'')
      else None)"

text \<open>A flag without a value.\<close>

definition switched :: "string \<Rightarrow> (options \<Rightarrow> options) option" where
  "switched a =
     (if a = ''--all'' then Some (\<lambda>ops. ops\<lparr>op_all := True\<rparr>)
      else if a = ''-v'' \<or> a = ''--verbose'' then Some (\<lambda>ops. ops\<lparr>op_verbose := True\<rparr>)
      else if a = ''--explain'' then Some (\<lambda>ops. ops\<lparr>op_explain := True\<rparr>)
      else if a = ''--locators'' then Some (\<lambda>ops. ops\<lparr>op_locators := True, op_verbose := True\<rparr>)
      else if a = ''--advise'' then
        Some (\<lambda>ops. ops\<lparr>op_advise := True, op_verbose := True, op_explain := True\<rparr>)
      else if a = ''--json'' then Some (\<lambda>ops. ops\<lparr>op_json := True\<rparr>)
      else if a = ''--csv'' then Some (\<lambda>ops. ops\<lparr>op_csv := True\<rparr>)
      else if a = ''--stats'' then Some (\<lambda>ops. ops\<lparr>op_stats := True\<rparr>)
      else if a = ''--watch'' then Some (\<lambda>ops. ops\<lparr>op_watch := True\<rparr>)
      else if a = ''--list-codes'' then Some (\<lambda>ops. ops\<lparr>op_list_codes := True\<rparr>)
      else if a = ''--changes-only'' then Some (\<lambda>ops. ops\<lparr>op_changes_only := True\<rparr>)
      else None)"

definition note_flag :: "string \<Rightarrow> string set \<Rightarrow> string set" where
  "note_flag a seen = (if 1 < length a \<and> starts_with a ''-'' then insert a seen else seen)"

definition is_file :: "string \<Rightarrow> string \<Rightarrow> bool" where
  "is_file command a \<longleftrightarrow> command = ''diff'' \<and> (a = ''-'' \<or> \<not> starts_with a ''-'')"

fun parse_args :: "string list \<Rightarrow> options \<Rightarrow> string set \<Rightarrow> (int \<times> string \<times> string) + (options \<times> string set)" where
  "parse_args [] ops seen = Inr (ops, seen)"
| "parse_args (a # rest) ops seen =
     (if is_file (op_command ops) a
      then parse_args rest (ops\<lparr>op_files := op_files ops @ [a]\<rparr>) (note_flag a seen)
      else case valued a of
        Some f \<Rightarrow> (case rest of
            [] \<Rightarrow> Inl (2, [], a @ '' requires a value'')
          | v # rest' \<Rightarrow> (case f v ops of
              Inl message \<Rightarrow> Inl (2, [], message)
            | Inr ops' \<Rightarrow> parse_args rest' ops' (note_flag a seen)))
      | None \<Rightarrow> (case switched a of
            Some f \<Rightarrow> parse_args rest (f ops) (note_flag a seen)
          | None \<Rightarrow>
              if a = ''-h'' \<or> a = ''--help'' then Inl (0, usage_text, [])
              else if a = ''--ros-args'' then Inr (ops, note_flag a seen)
              else Inl (2, usage_text, ''unknown option: '' @ a)))"

subsection \<open>The checks after the loop\<close>

text \<open>The first of the flags that was given.\<close>

definition given_of :: "string list \<Rightarrow> string set \<Rightarrow> string option" where
  "given_of flags seen = find (\<lambda>f. f \<in> seen) flags"

definition regex_check :: "(string \<Rightarrow> string option) \<Rightarrow> string \<times> string \<Rightarrow> string option" where
  "regex_check regex_error np =
     (if snd np = [] then None
      else case regex_error (snd np) of None \<Rightarrow> None
        | Some what \<Rightarrow> Some (fst np @ '': invalid regex '' @ [CHR 0x27] @ snd np @ [CHR 0x27] @ '': '' @ what))"

definition check_command :: "options \<Rightarrow> string set \<Rightarrow> string option" where
  "check_command ops seen =
     (if op_command ops = ''diff'' then
        if length (op_files ops) \<noteq> 2 then
          Some ''diff needs two documents: transport_viz diff <before.json> <after.json>''
        else if op_files ops ! 0 = ''-'' \<and> op_files ops ! 1 = ''-'' then
          Some ''diff: only one of the two documents can come from stdin''
        else case given_of [''--domain'', ''--timeout'', ''--quiet'', ''--interval'', ''--watch'', ''--list-codes''] seen of
          Some flag \<Rightarrow> Some (flag @ '' does not apply to diff: the documents were already observed'')
        | None \<Rightarrow> if op_csv ops then
            Some ''--csv does not apply to diff: a CSV row has no place for the changes'' else None
      else case given_of [''--key'', ''--changes-only''] seen of
        Some flag \<Rightarrow> Some (flag @ '' applies to 'transport_viz diff' only'')
      | None \<Rightarrow> None)"

definition check_options :: "(string \<Rightarrow> string option) \<Rightarrow> options \<Rightarrow> string set \<Rightarrow> string option" where
  "check_options regex_error ops seen =
     (case regex_check regex_error (''--topic'', op_topic_regex ops) of
        Some message \<Rightarrow> Some message
      | None \<Rightarrow> (case regex_check regex_error (''--node'', op_node_regex ops) of
          Some message \<Rightarrow> Some message
        | None \<Rightarrow>
            if op_json ops \<and> op_csv ops then Some ''--json and --csv are exclusive: pick one output format''
            else check_command ops seen))"

definition parse :: "(string \<Rightarrow> string option) \<Rightarrow> string list \<Rightarrow> outcome" where
  "parse regex_error argv =
     (let command = (case argv of a # _ \<Rightarrow> \<not> starts_with a ''-'' | [] \<Rightarrow> False);
          ops = (if command then options0\<lparr>op_command := hd argv\<rparr> else options0);
          args = (if command then tl argv else argv)
      in if command \<and> op_command ops \<noteq> ''diff'' then Exit 2 usage_text (''unknown command: '' @ hd argv)
         else case parse_args args ops {} of
           Inl (code, out, message) \<Rightarrow> Exit code out message
         | Inr (ops', seen) \<Rightarrow> (case check_options regex_error ops' seen of
               Some message \<Rightarrow> Exit 2 [] message
             | None \<Rightarrow> Parsed ops'))"

end
