(* ===== verification/Options_Props.thy ===== *)
theory Options_Props
  imports Options
begin

text \<open>
  What a parsed command line guarantees to the rest of the program, and that nothing more is
  refused: every set of options with these guarantees is the parse of a command line.
\<close>

lemmas starts_with_minus = starts_with_iff [of _ "''-''"]

definition regex_ok :: "(string \<Rightarrow> string option) \<Rightarrow> string \<Rightarrow> bool" where
  "regex_ok regex_error p \<longleftrightarrow> p = [] \<or> regex_error p = None"

text \<open>The flags that compare nothing, at their defaults.\<close>

definition observes_nothing :: "options \<Rightarrow> bool" where
  "observes_nothing ops \<longleftrightarrow> op_domain ops = - 1 \<and> op_timeout ops = Fin (- 1) \<and> op_quiet ops = Fin 1
     \<and> op_interval ops = Fin 2 \<and> \<not> op_watch ops \<and> \<not> op_list_codes ops \<and> \<not> op_csv ops"

definition two_documents :: "string list \<Rightarrow> bool" where
  "two_documents fs \<longleftrightarrow> length fs = 2 \<and> fs \<noteq> [''-'', ''-''] \<and> list_all (is_file ''diff'') fs"

definition options_ok :: "(string \<Rightarrow> string option) \<Rightarrow> options \<Rightarrow> bool" where
  "options_ok regex_error ops \<longleftrightarrow>
     regex_ok regex_error (op_topic_regex ops) \<and> regex_ok regex_error (op_node_regex ops)
     \<and> \<not> (op_json ops \<and> op_csv ops)
     \<and> (op_locators ops \<longrightarrow> op_verbose ops) \<and> (op_advise ops \<longrightarrow> op_verbose ops \<and> op_explain ops)
     \<and> (if op_command ops = [] then op_files ops = [] \<and> op_key ops = KmNode \<and> \<not> op_changes_only ops
        else op_command ops = ''diff'' \<and> two_documents (op_files ops) \<and> observes_nothing ops)"

subsection \<open>The loop over the arguments\<close>

text \<open>
  What the loop keeps: the implied flags, the files of \<open>diff\<close>, and the default of every option
  whose flag was not noted.
\<close>

definition noted :: "string set \<Rightarrow> string \<Rightarrow> bool \<Rightarrow> bool" where
  "noted seen flag unset \<longleftrightarrow> flag \<in> seen \<or> unset"

definition flags_noted :: "string set \<Rightarrow> options \<Rightarrow> bool" where
  "flags_noted seen ops \<longleftrightarrow>
     noted seen ''--domain'' (op_domain ops = - 1) \<and> noted seen ''--timeout'' (op_timeout ops = Fin (- 1))
     \<and> noted seen ''--quiet'' (op_quiet ops = Fin 1) \<and> noted seen ''--interval'' (op_interval ops = Fin 2)
     \<and> noted seen ''--watch'' (\<not> op_watch ops) \<and> noted seen ''--list-codes'' (\<not> op_list_codes ops)
     \<and> noted seen ''--key'' (op_key ops = KmNode) \<and> noted seen ''--changes-only'' (\<not> op_changes_only ops)"

definition args_inv :: "string set \<Rightarrow> options \<Rightarrow> bool" where
  "args_inv seen ops \<longleftrightarrow> flags_noted seen ops
     \<and> (op_locators ops \<longrightarrow> op_verbose ops) \<and> (op_advise ops \<longrightarrow> op_verbose ops \<and> op_explain ops)
     \<and> (op_command ops \<noteq> ''diff'' \<longrightarrow> op_files ops = []) \<and> list_all (is_file ''diff'') (op_files ops)"

lemma noted_note_flag: "noted seen flag unset \<Longrightarrow> noted (note_flag a seen) flag unset"
  by (auto simp: noted_def note_flag_def)

lemma noted_given: "1 < length a \<Longrightarrow> starts_with a ''-'' \<Longrightarrow> noted (note_flag a seen) a unset"
  by (simp add: noted_def note_flag_def)

lemmas args_inv_defs = args_inv_def flags_noted_def

lemma args_inv_note: "args_inv seen ops \<Longrightarrow> args_inv (note_flag a seen) ops"
  by (simp add: args_inv_defs noted_note_flag)

lemma args_inv_file:
  "args_inv seen ops \<Longrightarrow> is_file (op_command ops) a \<Longrightarrow>
     args_inv (note_flag a seen) (ops\<lparr>op_files := op_files ops @ [a]\<rparr>)"
  by (simp add: args_inv_defs noted_note_flag is_file_def)

lemma valued_inv:
  "valued a = Some f \<Longrightarrow> f v ops = Inr ops' \<Longrightarrow> args_inv seen ops \<Longrightarrow>
     args_inv (note_flag a seen) ops' \<and> op_command ops' = op_command ops"
  apply (frule args_inv_note [of seen ops a])
  apply (simp only: valued_def split: if_split_asm)
  apply (clarsimp simp: args_inv_defs noted_given split: if_split_asm)+
  done

lemma switched_inv:
  "switched a = Some f \<Longrightarrow> args_inv seen ops \<Longrightarrow>
     args_inv (note_flag a seen) (f ops) \<and> op_command (f ops) = op_command ops"
  apply (frule args_inv_note [of seen ops a])
  apply (simp only: switched_def split: if_split_asm)
  apply (clarsimp simp: args_inv_defs noted_given)+
  done

lemma parse_args_inv:
  "parse_args args ops seen = Inr (ops', seen') \<Longrightarrow> args_inv seen ops \<Longrightarrow>
     args_inv seen' ops' \<and> op_command ops' = op_command ops"
proof (induction args ops seen rule: parse_args.induct)
  case (2 a rest ops seen)
  show ?case
  proof (cases "is_file (op_command ops) a")
    case True
    then show ?thesis using 2 args_inv_file by simp
  next
    case False
    note noted = valued_inv [of a _ _ ops _ seen] switched_inv [of a _ seen ops] args_inv_note [of seen ops a]
    show ?thesis using 2 False noted by (auto split: option.splits list.splits sum.splits if_splits)
  qed
qed simp

text \<open>When the loop gives up, it was for help or with a message.\<close>

definition is_help :: "string \<Rightarrow> bool" where
  "is_help a \<longleftrightarrow> a = ''-h'' \<or> a = ''--help''"

lemma valued_message: "valued a = Some f \<Longrightarrow> f v ops = Inl message \<Longrightarrow> message \<noteq> []"
  apply (simp only: valued_def split: if_split_asm)
  apply (clarsimp split: if_split_asm)+
  done

lemma parse_args_exit:
  "parse_args args ops seen = Inl (code, out, message) \<Longrightarrow>
     (code = 0 \<and> out = usage_text \<and> message = [] \<and> list_ex is_help args) \<or>
     (code = 2 \<and> (out = usage_text \<or> out = []) \<and> message \<noteq> [])"
proof (induction args ops seen rule: parse_args.induct)
  case (2 a rest ops seen)
  show ?case
  proof (cases "is_file (op_command ops) a")
    case True
    then show ?thesis using 2 by auto
  next
    case no_file: False
    show ?thesis
    proof (cases "valued a")
      case None
      then show ?thesis using 2 no_file by (cases "switched a") (auto simp: is_help_def split: if_splits)
    next
      case (Some f)
      note valued = Some
      show ?thesis
      proof (cases rest)
        case Nil
        then show ?thesis using 2 no_file valued by auto
      next
        case (Cons v rest')
        show ?thesis
        proof (cases "f v ops")
          case (Inl m)
          then show ?thesis using 2 no_file valued Cons valued_message by simp
        next
          case (Inr ops')
          then show ?thesis using 2(3) [OF no_file valued Cons Inr] 2(4) no_file valued Cons by auto
        qed
      qed
    qed
  qed
qed simp

subsection \<open>The checks\<close>

lemma given_of_None: "given_of flags seen = None \<longleftrightarrow> (\<forall>f \<in> set flags. f \<notin> seen)"
  by (auto simp: given_of_def find_None_iff)

lemma regex_check_None: "regex_check regex_error (n, p) = None \<longleftrightarrow> regex_ok regex_error p"
  by (auto simp: regex_check_def regex_ok_def split: option.split)

lemma two_documents_iff:
  "list_all (is_file ''diff'') fs \<Longrightarrow>
     two_documents fs \<longleftrightarrow> length fs = 2 \<and> \<not> (fs ! 0 = ''-'' \<and> fs ! 1 = ''-'')"
  by (cases fs; cases "tl fs") (auto simp: two_documents_def)

lemma check_options_None:
  "check_options regex_error ops seen = None \<longleftrightarrow>
     regex_ok regex_error (op_topic_regex ops) \<and> regex_ok regex_error (op_node_regex ops)
     \<and> \<not> (op_json ops \<and> op_csv ops) \<and> check_command ops seen = None"
  using regex_check_None [of regex_error "''--topic''" "op_topic_regex ops"]
    regex_check_None [of regex_error "''--node''" "op_node_regex ops"]
  by (auto simp: check_options_def split: option.splits)

lemma check_command_diff:
  "op_command ops = ''diff'' \<Longrightarrow> args_inv seen ops \<Longrightarrow>
     check_command ops seen = None \<Longrightarrow> two_documents (op_files ops) \<and> observes_nothing ops"
  by (simp add: check_command_def args_inv_defs two_documents_iff noted_def observes_nothing_def
      given_of_None split: if_split_asm option.split_asm)

lemma check_command_observe:
  "op_command ops = [] \<Longrightarrow> args_inv seen ops \<Longrightarrow>
     check_command ops seen = None \<Longrightarrow> op_files ops = [] \<and> op_key ops = KmNode \<and> \<not> op_changes_only ops"
  by (simp add: check_command_def args_inv_defs noted_def given_of_None split: option.split_asm)

lemma check_options_ok:
  assumes "args_inv seen ops" and "op_command ops = [] \<or> op_command ops = ''diff''"
    and "check_options regex_error ops seen = None"
  shows "options_ok regex_error ops"
proof -
  have c: "check_command ops seen = None" and r: "regex_ok regex_error (op_topic_regex ops)"
      "regex_ok regex_error (op_node_regex ops)" "\<not> (op_json ops \<and> op_csv ops)"
    using assms(3) [unfolded check_options_None] by blast+
  have i: "(op_locators ops \<longrightarrow> op_verbose ops) \<and> (op_advise ops \<longrightarrow> op_verbose ops \<and> op_explain ops)"
    using assms(1) by (simp add: args_inv_def)
  show ?thesis
  proof (cases "op_command ops = []")
    case True
    then show ?thesis using r i check_command_observe [OF True assms(1) c] by (simp only: options_ok_def simp_thms if_True)
  next
    case False
    then have d: "op_command ops = ''diff''" using assms(2) by simp
    show ?thesis using r i False d check_command_diff [OF d assms(1) c]
      by (simp only: options_ok_def simp_thms if_False)
  qed
qed

lemma check_options_message: "check_options regex_error ops seen = Some message \<Longrightarrow> message \<noteq> []"
  by (auto simp: check_options_def check_command_def regex_check_def split: option.splits if_splits)

lemma args_inv_start: "args_inv {} options0" "args_inv {} (options0\<lparr>op_command := ''diff''\<rparr>)"
  by (simp_all add: args_inv_defs noted_def options0_def)

text \<open>What a command line gives.\<close>

lemma parse_result:
  "case parse regex_error argv of
     Parsed ops \<Rightarrow> options_ok regex_error ops
   | Exit code out message \<Rightarrow>
       (if code = 0 then out = usage_text \<and> message = [] \<and> list_ex is_help argv
        else code = 2 \<and> (out = usage_text \<or> out = []) \<and> message \<noteq> [])"
proof -
  define command where "command = (case argv of a # _ \<Rightarrow> \<not> starts_with a ''-'' | [] \<Rightarrow> False)"
  define ops0 where "ops0 = (if command then options0\<lparr>op_command := hd argv\<rparr> else options0)"
  define args where "args = (if command then tl argv else argv)"
  have argv: "command \<Longrightarrow> argv \<noteq> []" by (auto simp: command_def)
  show ?thesis
  proof (cases "command \<and> hd argv \<noteq> ''diff''")
    case True
    then show ?thesis by (simp add: parse_def command_def [symmetric] ops0_def [symmetric] ops0_def)
  next
    case False
    then have start: "args_inv {} ops0" "op_command ops0 = [] \<or> op_command ops0 = ''diff''"
      using args_inv_start by (cases command; simp add: ops0_def; simp add: options0_def)+
    have parse: "parse regex_error argv = (case parse_args args ops0 {} of
        Inl (code, out, message) \<Rightarrow> Exit code out message
      | Inr (ops', seen) \<Rightarrow> (case check_options regex_error ops' seen of
            Some message \<Rightarrow> Exit 2 [] message | None \<Rightarrow> Parsed ops'))"
      using False by (auto simp: parse_def command_def [symmetric] ops0_def args_def Let_def)
    have sub: "list_ex is_help args \<Longrightarrow> list_ex is_help argv"
      using argv by (cases argv) (auto simp: args_def split: if_splits)
    show ?thesis
    proof (cases "parse_args args ops0 {}")
      case (Inl e)
      then show ?thesis using parse_args_exit [of args ops0 "{}" "fst e" "fst (snd e)" "snd (snd e)"] sub
        by (cases e) (auto simp: parse)
    next
      case (Inr r)
      then have "args_inv (snd r) (fst r) \<and> op_command (fst r) = op_command ops0"
        using parse_args_inv [of args ops0 "{}" "fst r" "snd r"] start by simp
      then show ?thesis using Inr start check_options_ok [of "snd r" "fst r"] check_options_message
        by (cases r) (auto simp: parse split: option.split)
    qed
  qed
qed

text \<open>
  C26. A command line either gives options that are consistent (one output format, the flags that
  others imply, valid patterns, exactly two documents for \<open>diff\<close> and none of the flags that observe,
  and without \<open>diff\<close> none of its own), or the program ends: with status 0, the help on the standard output
  and no message only when help was asked for, with status 2 and a message otherwise.
\<close>

theorem parse_sound:
  "case parse regex_error argv of
     Parsed ops \<Rightarrow> options_ok regex_error ops
   | Exit code out message \<Rightarrow>
       (if code = 0 then out = usage_text \<and> message = [] \<and> list_ex is_help argv
        else code = 2 \<and> (out = usage_text \<or> out = []) \<and> message \<noteq> [])"
  by (rule parse_result)

subsection \<open>A command line for every set of options\<close>

definition flag_if :: "bool \<Rightarrow> string \<Rightarrow> string list" where
  "flag_if b flag = (if b then [flag] else [])"

fun color_text :: "color \<Rightarrow> string" where
  "color_text ColorAuto = ''auto''"
| "color_text ColorAlways = ''always''"
| "color_text ColorNever = ''never''"

fun key_text :: "key_mode \<Rightarrow> string" where
  "key_text KmNode = ''node''"
| "key_text KmGuid = ''guid''"

definition observe_flags :: "string \<Rightarrow> string \<Rightarrow> string \<Rightarrow> string \<Rightarrow> options \<Rightarrow> string list" where
  "observe_flags domain timeout quiet interval ops =
     [''--domain'', domain, ''--timeout'', timeout, ''--quiet'', quiet, ''--interval'', interval]
     @ flag_if (op_watch ops) ''--watch'' @ flag_if (op_list_codes ops) ''--list-codes''
     @ flag_if (op_csv ops) ''--csv''"

definition diff_flags :: "options \<Rightarrow> string list" where
  "diff_flags ops = op_files ops @ [''--key'', key_text (op_key ops)]
     @ flag_if (op_changes_only ops) ''--changes-only''"

definition view_flags :: "options \<Rightarrow> string list" where
  "view_flags ops =
     [''--topic'', op_topic_regex ops, ''--node'', op_node_regex ops, ''--color'', color_text (op_color ops)]
     @ flag_if (op_stats ops) ''--stats'' @ flag_if (op_json ops) ''--json'' @ flag_if (op_all ops) ''--all''
     @ flag_if (op_locators ops) ''--locators'' @ flag_if (op_advise ops) ''--advise''
     @ flag_if (op_verbose ops) ''--verbose'' @ flag_if (op_explain ops) ''--explain'' @ []"

text \<open>The numbers are given by texts that denote them.\<close>

definition command_line :: "string \<Rightarrow> string \<Rightarrow> string \<Rightarrow> string \<Rightarrow> options \<Rightarrow> string list" where
  "command_line domain timeout quiet interval ops =
     (if op_command ops = [] then observe_flags domain timeout quiet interval ops
      else op_command ops # diff_flags ops) @ view_flags ops"

lemma minus_no_file [simp]: "\<not> is_file command (CHR ''-'' # c # s)"
  by (simp add: is_file_def)

definition noted_if :: "bool \<Rightarrow> string \<Rightarrow> string set \<Rightarrow> string set" where
  "noted_if b flag seen = (if b then note_flag flag seen else seen)"

lemma parse_args_flag:
  "parse_args (flag_if b ''--watch'' @ rest) ops seen =
     parse_args rest (ops\<lparr>op_watch := op_watch ops \<or> b\<rparr>) (noted_if b ''--watch'' seen)"
  "parse_args (flag_if b ''--list-codes'' @ rest) ops seen =
     parse_args rest (ops\<lparr>op_list_codes := op_list_codes ops \<or> b\<rparr>) (noted_if b ''--list-codes'' seen)"
  "parse_args (flag_if b ''--csv'' @ rest) ops seen =
     parse_args rest (ops\<lparr>op_csv := op_csv ops \<or> b\<rparr>) (noted_if b ''--csv'' seen)"
  "parse_args (flag_if b ''--changes-only'' @ rest) ops seen =
     parse_args rest (ops\<lparr>op_changes_only := op_changes_only ops \<or> b\<rparr>) (noted_if b ''--changes-only'' seen)"
  "parse_args (flag_if b ''--stats'' @ rest) ops seen =
     parse_args rest (ops\<lparr>op_stats := op_stats ops \<or> b\<rparr>) (noted_if b ''--stats'' seen)"
  "parse_args (flag_if b ''--json'' @ rest) ops seen =
     parse_args rest (ops\<lparr>op_json := op_json ops \<or> b\<rparr>) (noted_if b ''--json'' seen)"
  "parse_args (flag_if b ''--all'' @ rest) ops seen =
     parse_args rest (ops\<lparr>op_all := op_all ops \<or> b\<rparr>) (noted_if b ''--all'' seen)"
  "parse_args (flag_if b ''--verbose'' @ rest) ops seen =
     parse_args rest (ops\<lparr>op_verbose := op_verbose ops \<or> b\<rparr>) (noted_if b ''--verbose'' seen)"
  "parse_args (flag_if b ''--explain'' @ rest) ops seen =
     parse_args rest (ops\<lparr>op_explain := op_explain ops \<or> b\<rparr>) (noted_if b ''--explain'' seen)"
  "parse_args (flag_if b ''--locators'' @ rest) ops seen =
     parse_args rest (ops\<lparr>op_locators := op_locators ops \<or> b, op_verbose := op_verbose ops \<or> b\<rparr>)
       (noted_if b ''--locators'' seen)"
  "parse_args (flag_if b ''--advise'' @ rest) ops seen =
     parse_args rest (ops\<lparr>op_advise := op_advise ops \<or> b, op_verbose := op_verbose ops \<or> b,
       op_explain := op_explain ops \<or> b\<rparr>) (noted_if b ''--advise'' seen)"
  by (cases b; simp add: flag_if_def noted_if_def valued_def switched_def)+

lemma parse_args_valued:
  assumes "valued flag = Some f" and "\<And>c. \<not> is_file c flag" and "f v ops = Inr ops'"
  shows "parse_args (flag # v # rest) ops seen = parse_args rest ops' (note_flag flag seen)"
  using assms by simp

lemma parse_args_files:
  "list_all (is_file ''diff'') fs \<Longrightarrow> op_command ops = ''diff'' \<Longrightarrow>
     parse_args (fs @ rest) ops seen =
       parse_args rest (ops\<lparr>op_files := op_files ops @ fs\<rparr>) (fold note_flag fs seen)"
  by (induction fs arbitrary: ops seen) auto

definition view_of :: "options \<Rightarrow> options \<Rightarrow> options" where
  "view_of v ops = ops\<lparr>op_topic_regex := op_topic_regex v, op_node_regex := op_node_regex v,
     op_color := op_color v, op_stats := op_stats ops \<or> op_stats v, op_json := op_json ops \<or> op_json v,
     op_all := op_all ops \<or> op_all v, op_locators := op_locators ops \<or> op_locators v,
     op_advise := op_advise ops \<or> op_advise v,
     op_verbose := op_verbose ops \<or> op_locators v \<or> op_advise v \<or> op_verbose v,
     op_explain := op_explain ops \<or> op_advise v \<or> op_explain v\<rparr>"

definition view_seen :: "options \<Rightarrow> string set \<Rightarrow> string set" where
  "view_seen v seen = noted_if (op_explain v) ''--explain'' (noted_if (op_verbose v) ''--verbose''
     (noted_if (op_advise v) ''--advise'' (noted_if (op_locators v) ''--locators''
     (noted_if (op_all v) ''--all'' (noted_if (op_json v) ''--json'' (noted_if (op_stats v) ''--stats''
     (note_flag ''--color'' (note_flag ''--node'' (note_flag ''--topic'' seen)))))))))"

lemma parse_color:
  "parse_args (''--color'' # color_text c # rest) ops seen =
     parse_args rest (ops\<lparr>op_color := c\<rparr>) (note_flag ''--color'' seen)"
  by (cases c) (simp_all add: valued_def)

lemma parse_key:
  "parse_args (''--key'' # key_text k # rest) ops seen =
     parse_args rest (ops\<lparr>op_key := k\<rparr>) (note_flag ''--key'' seen)"
  by (cases k) (simp_all add: valued_def)

lemma parse_values:
  "parse_args (''--topic'' # v # rest) ops seen =
     parse_args rest (ops\<lparr>op_topic_regex := v\<rparr>) (note_flag ''--topic'' seen)"
  "parse_args (''--node'' # v # rest) ops seen =
     parse_args rest (ops\<lparr>op_node_regex := v\<rparr>) (note_flag ''--node'' seen)"
  "parse_args (''--domain'' # v # rest) ops seen =
     parse_args rest (ops\<lparr>op_domain := atoi v\<rparr>) (note_flag ''--domain'' seen)"
  "parse_args (''--timeout'' # v # rest) ops seen =
     parse_args rest (ops\<lparr>op_timeout := atof v\<rparr>) (note_flag ''--timeout'' seen)"
  "parse_args (''--quiet'' # v # rest) ops seen =
     parse_args rest (ops\<lparr>op_quiet := atof v\<rparr>) (note_flag ''--quiet'' seen)"
  "parse_args (''--interval'' # v # rest) ops seen =
     parse_args rest (ops\<lparr>op_interval := atof v\<rparr>) (note_flag ''--interval'' seen)"
  by (simp_all add: valued_def)

lemma parse_view_flags:
  "parse_args (view_flags v) ops seen = Inr (view_of v ops, view_seen v seen)"
  by (simp only: view_flags_def append.simps append_assoc parse_values parse_color parse_args_flag
      parse_args.simps(1))
    (simp add: view_of_def view_seen_def)

lemma mem_note_flag: "f \<noteq> a \<Longrightarrow> f \<in> note_flag a seen \<longleftrightarrow> f \<in> seen"
  by (simp add: note_flag_def)

lemma mem_noted_if: "f \<noteq> a \<Longrightarrow> f \<in> noted_if b a seen \<longleftrightarrow> f \<in> seen"
  by (simp add: noted_if_def mem_note_flag)

lemma note_files: "list_all (is_file ''diff'') fs \<Longrightarrow> fold note_flag fs seen = seen"
  by (induction fs arbitrary: seen) (auto simp: is_file_def note_flag_def)

lemma parse_observe_flags:
  "parse_args (observe_flags d t q i v @ rest) ops seen =
     parse_args rest (ops\<lparr>op_domain := atoi d, op_timeout := atof t, op_quiet := atof q,
         op_interval := atof i, op_watch := op_watch ops \<or> op_watch v,
         op_list_codes := op_list_codes ops \<or> op_list_codes v, op_csv := op_csv ops \<or> op_csv v\<rparr>)
       (noted_if (op_csv v) ''--csv'' (noted_if (op_list_codes v) ''--list-codes''
         (noted_if (op_watch v) ''--watch'' (note_flag ''--interval'' (note_flag ''--quiet''
         (note_flag ''--timeout'' (note_flag ''--domain'' seen)))))))"
  by (simp only: observe_flags_def append.simps append_assoc parse_values parse_args_flag) simp

lemma parse_diff_flags:
  "list_all (is_file ''diff'') (op_files v) \<Longrightarrow> op_command ops = ''diff'' \<Longrightarrow>
     parse_args (diff_flags v @ rest) ops seen =
     parse_args rest (ops\<lparr>op_files := op_files ops @ op_files v, op_key := op_key v,
         op_changes_only := op_changes_only ops \<or> op_changes_only v\<rparr>)
       (noted_if (op_changes_only v) ''--changes-only'' (note_flag ''--key'' seen))"
  by (simp only: diff_flags_def append.simps append_assoc parse_args_files note_files parse_key parse_args_flag)
    simp

definition denotes :: "string \<Rightarrow> string \<Rightarrow> string \<Rightarrow> string \<Rightarrow> options \<Rightarrow> bool" where
  "denotes d t q i ops \<longleftrightarrow> op_command ops = ''diff'' \<or>
     (atoi d = op_domain ops \<and> atof t = op_timeout ops \<and> atof q = op_quiet ops \<and> atof i = op_interval ops)"

text \<open>
  C21. Every set of options with the guarantees of a parsed command line is the parse of one: nothing
  that the program could observe or compare is out of reach of its command line.
\<close>

theorem parse_complete:
  assumes "options_ok regex_error ops" and "denotes d t q i ops"
  shows "parse regex_error (command_line d t q i ops) = Parsed ops"
proof (cases "op_command ops = []")
  case True
  note ok = assms(1) [unfolded options_ok_def True]
  define seen where "seen = view_seen ops (noted_if (op_csv ops) ''--csv'' (noted_if (op_list_codes ops)
     ''--list-codes'' (noted_if (op_watch ops) ''--watch'' (note_flag ''--interval'' (note_flag ''--quiet''
     (note_flag ''--timeout'' (note_flag ''--domain'' {})))))))"
  have ops: "parse_args (command_line d t q i ops) options0 {} = Inr (ops, seen)"
  proof -
    have "view_of ops (options0\<lparr>op_domain := atoi d, op_timeout := atof t, op_quiet := atof q,
         op_interval := atof i, op_watch := op_watch options0 \<or> op_watch ops,
         op_list_codes := op_list_codes options0 \<or> op_list_codes ops,
         op_csv := op_csv options0 \<or> op_csv ops\<rparr>) = ops"
      using ok assms(2) True by (cases ops) (auto simp: view_of_def options0_def denotes_def)
    then show ?thesis
      by (simp only: command_line_def True if_True refl parse_observe_flags parse_view_flags seen_def)
  qed
  have "''--key'' \<notin> seen" "''--changes-only'' \<notin> seen"
    by (simp_all add: seen_def view_seen_def mem_note_flag mem_noted_if)
  then have "given_of [''--key'', ''--changes-only''] seen = None"
    by (simp add: given_of_None)
  then have "check_options regex_error ops seen = None"
    using ok True by (simp add: check_options_None check_command_def)
  moreover have "starts_with (hd (command_line d t q i ops)) ''-''" "command_line d t q i ops \<noteq> []"
    by (simp_all add: command_line_def True observe_flags_def)
  ultimately show ?thesis using ops by (cases "command_line d t q i ops") (simp_all add: parse_def)
next
  case False
  note ok = assms(1) [unfolded options_ok_def]
  have diff: "op_command ops = ''diff''" and docs: "two_documents (op_files ops)" "observes_nothing ops"
    using ok False by simp_all
  have files: "list_all (is_file ''diff'') (op_files ops)"
    using docs(1) by (simp add: two_documents_def)
  define seen where "seen = view_seen ops (noted_if (op_changes_only ops) ''--changes-only'' (note_flag ''--key'' {}))"
  have ops: "parse_args (diff_flags ops @ view_flags ops) (options0\<lparr>op_command := ''diff''\<rparr>) {} = Inr (ops, seen)"
  proof -
    have "view_of ops (options0\<lparr>op_command := ''diff'', op_files := op_files (options0\<lparr>op_command := ''diff''\<rparr>) @ op_files ops,
         op_key := op_key ops, op_changes_only := op_changes_only (options0\<lparr>op_command := ''diff''\<rparr>) \<or> op_changes_only ops\<rparr>) = ops"
      using ok docs diff by (cases ops) (auto simp: view_of_def options0_def observes_nothing_def)
    then show ?thesis
      using parse_diff_flags [OF files, of "options0\<lparr>op_command := ''diff''\<rparr>" "view_flags ops" "{}"]
      by (simp only: parse_view_flags seen_def) simp
  qed
  have "given_of [''--domain'', ''--timeout'', ''--quiet'', ''--interval'', ''--watch'', ''--list-codes''] seen = None"
    by (simp add: given_of_None seen_def view_seen_def mem_note_flag mem_noted_if)
  then have "check_command ops seen = None"
    using diff docs two_documents_iff [OF files] by (auto simp: check_command_def observes_nothing_def)
  then have "check_options regex_error ops seen = None" using ok by (simp add: check_options_None)
  then show ?thesis using ops diff by (simp add: command_line_def parse_def)
qed

lemma rnd_1: "rnd 1 = Fin 1" and rnd_2: "rnd 2 = Fin 2"
  using rnd_of_nat [of 1] rnd_of_nat [of 2] by simp_all

definition sample_options :: options where
  "sample_options = options0\<lparr>op_stats := True, op_verbose := True, op_locators := True,
     op_topic_regex := ''^/chatter$'', op_color := ColorNever\<rparr>"

theorem parse_complete_witness:
  "parse (\<lambda>_. None) (command_line ''-1'' ''-1'' ''1'' ''2'' sample_options) = Parsed sample_options"
proof (rule parse_complete)
  show "options_ok (\<lambda>_. None) sample_options"
    by (simp add: options_ok_def sample_options_def options0_def regex_ok_def)
  show "denotes ''-1'' ''-1'' ''1'' ''2'' sample_options"
    by (simp add: denotes_def sample_options_def options0_def atoi_def atof_def scan_number_def
        mantissa_def digits_value_def exponent_def apply_sign_def is_digit_def digit_val_def c_lower_def
        c_isspace_def of_char_def char_of_def rnd_1 rnd_2)
qed

end
