(* ===== verification/Wait.thy ===== *)
theory Wait
  imports Options Stats_Observer
begin

text \<open>
  The wait of \<open>main\<close> (\<open>src/main.cpp\<close>) that ends an observation: on discovery that has been quiet, on
  statistics that have settled, on \<open>--timeout\<close>, or when \<open>rclcpp\<close> shuts down. One round of the loop
  reads a \<open>tick\<close>: the clocks, the discovery observer and the statistics observer at that moment, and
  \<open>rclcpp::ok()\<close>. The prefixes of the tool's own participants (\<open>lookup_participants\<close> of the Fast DDS
  factory) are the argument \<open>own\<close>. The sequence of ticks never ends by itself, so the loop is a
  partial function on a function from numbers to ticks.
\<close>

record tick =
  ti_elapsed :: double
  ti_since_last :: double
  ti_event_count :: nat
  ti_snapshot :: "endpoint list"
  ti_listener :: listener
  ti_stats :: stats_observer
  ti_ok :: bool

record wait_state =
  ws_measured_instances :: nat
  ws_measured_changed_s :: double
  ws_reader_destinations_event_count :: nat
  ws_destinations :: reader_destinations
  ws_measurable_pairs :: nat

definition wait_state0 :: wait_state where
  "wait_state0 = \<lparr>ws_measured_instances = 0, ws_measured_changed_s = Fin 0,
     ws_reader_destinations_event_count = 0,
     ws_destinations = \<lparr>unicast_ports = {}, multicast_locators = {}\<rparr>, ws_measurable_pairs = 0\<rparr>"

definition kStatsMeasuredQuietSeconds :: double where
  "kStatsMeasuredQuietSeconds = Fin 3"

text \<open>The two numbers of one discovery snapshot: the destinations of the readers and the measurable pairs.\<close>

definition refresh_reader_destinations :: "endpoint list \<Rightarrow> string set \<Rightarrow> reader_destinations \<times> nat" where
  "refresh_reader_destinations endpoints own =
     (reader_destinations_of endpoints own, count_measurable_pairs endpoints own)"

definition refresh_state :: "string set \<Rightarrow> tick \<Rightarrow> wait_state \<Rightarrow> wait_state" where
  "refresh_state own t w =
     (if ti_event_count t = ws_reader_destinations_event_count w then w
      else let (destinations, measurable) = refresh_reader_destinations (ti_snapshot t) own
           in w\<lparr>ws_reader_destinations_event_count := ti_event_count t,
             ws_destinations := destinations, ws_measurable_pairs := measurable\<rparr>)"

definition tick_settle :: "string \<Rightarrow> tick \<Rightarrow> wait_state \<Rightarrow> settle" where
  "tick_settle topic t w =
     settle_status topic (ti_listener t) (set_reader_destinations (ws_destinations w) (ti_stats t))"

definition note_measured :: "double \<Rightarrow> nat \<Rightarrow> wait_state \<Rightarrow> wait_state" where
  "note_measured elapsed measured w =
     (if measured \<noteq> ws_measured_instances w
      then w\<lparr>ws_measured_instances := measured, ws_measured_changed_s := elapsed\<rparr> else w)"

definition settled_now :: "options \<Rightarrow> bool \<Rightarrow> double \<Rightarrow> settle \<Rightarrow> wait_state \<Rightarrow> bool" where
  "settled_now ops quiet_now elapsed s w \<longleftrightarrow>
     quiet_now \<and> stats_settled True elapsed (of_nat (se_announced s)) (of_nat (se_heard s))
       (of_nat (ws_measurable_pairs w)) (of_nat (se_measured_instances s))
       (d_sub elapsed (ws_measured_changed_s w)) (d_max (op_quiet ops) kStatsMeasuredQuietSeconds)"

definition quiet_tick :: "options \<Rightarrow> tick \<Rightarrow> bool" where
  "quiet_tick ops t \<longleftrightarrow> d_lt (Fin 0) (op_quiet ops) \<and> d_le (op_quiet ops) (ti_elapsed t)
     \<and> d_le (op_quiet ops) (ti_since_last t) \<and> 0 < ti_event_count t"

text \<open>What the wait ends with: \<open>stopped_on\<close> and \<open>settled_at_s\<close>.\<close>

type_synonym wait_end = "string \<times> double"

definition settle_tick :: "options \<Rightarrow> string set \<Rightarrow> string \<Rightarrow> tick \<Rightarrow> wait_state \<Rightarrow> bool \<times> wait_state" where
  "settle_tick ops own topic t w =
     (let w = refresh_state own t w;
          s = tick_settle topic t w;
          w = note_measured (ti_elapsed t) (se_measured_instances s) w
      in (settled_now ops (quiet_tick ops t) (ti_elapsed t) s w, w))"

definition wait_tick ::
  "options \<Rightarrow> string set \<Rightarrow> string \<Rightarrow> tick \<Rightarrow> wait_state \<Rightarrow> wait_end + wait_state" where
  "wait_tick ops own topic t w =
     (let elapsed = ti_elapsed t; quiet_now = quiet_tick ops t
      in if d_le (op_timeout ops) elapsed then Inl (''timeout'', Fin (- 1))
         else if \<not> op_stats ops \<and> quiet_now then Inl (''quiet'', Fin (- 1))
         else if op_watch ops \<and> quiet_now \<and> watch_ready True elapsed (op_stats ops)
           then Inl (''quiet'', Fin (- 1))
         else
           (let (settled, w) =
              (if op_stats ops \<and> \<not> op_watch ops \<and> d_lt (Fin 0) (op_quiet ops) \<and> d_le kStatsSettleMinSeconds elapsed
               then settle_tick ops own topic t w else (False, w))
            in if settled then Inl (''settled'', elapsed)
               else if \<not> ti_ok t then Inl (''timeout'', Fin (- 1))
               else Inr w))"

partial_function (option) wait_loop ::
  "options \<Rightarrow> string set \<Rightarrow> string \<Rightarrow> (nat \<Rightarrow> tick) \<Rightarrow> nat \<Rightarrow> wait_state \<Rightarrow> wait_end option" where
  "wait_loop ops own topic ticks n w =
     (case wait_tick ops own topic (ticks n) w of
        Inl r \<Rightarrow> Some r
      | Inr w' \<Rightarrow> wait_loop ops own topic ticks (Suc n) w')"

definition wait_for :: "options \<Rightarrow> string set \<Rightarrow> string \<Rightarrow> (nat \<Rightarrow> tick) \<Rightarrow> wait_end option" where
  "wait_for ops own topic ticks = wait_loop ops own topic ticks 0 wait_state0"

subsection \<open>The warning about a wait that \<open>--timeout\<close> ended\<close>

definition join_first :: "nat \<Rightarrow> string list \<Rightarrow> string" where
  "join_first n xs = foldl (\<lambda>s x. s @ (if s = [] then '': '' else '', '') @ x) [] (take n xs)"

text \<open>\<open>timeout_text\<close> is \<open>o.timeout\<close> as the stream writes it.\<close>

definition timeout_warning :: "options \<Rightarrow> string \<Rightarrow> string \<Rightarrow> nat \<Rightarrow> settle \<Rightarrow> string" where
  "timeout_warning ops stopped_on timeout_text measurable s =
     (if \<not> (op_stats ops \<and> stopped_on = ''timeout'' \<and> \<not> op_watch ops) then []
      else
        (let unheard = se_unheard s;
             unmeasured = (0 < measurable \<and> 0 < se_announced s \<and> se_measured_instances s = 0)
         in if unheard = [] \<and> \<not> unmeasured then []
            else ''warning: --timeout '' @ timeout_text @ '' ended the run with '' @
              (if unheard = [] then []
               else dec (length unheard) @ '' of '' @ dec (se_announced s) @
                 '' statistics RTPS_SENT writers not heard from'' @ join_first 5 unheard @
                 (if 5 < length unheard then '', ...'' else [])) @
              (if unheard \<noteq> [] \<and> unmeasured then '' and '' else []) @
              (if unmeasured then ''no measured RTPS_SENT entry to a discovered reader'' else []) @
              ''; their pairs may read (idle) - pass a longer --timeout''))"

end
