(* ===== verification/Wait_Props.thy ===== *)
theory Wait_Props
  imports Wait Rate_Window_Props
begin

text \<open>
  The wait ends when the clock passes \<open>--timeout\<close>, for one of the reasons it gives, and when it says
  that the statistics have settled they had.
\<close>

text \<open>The state after \<open>n\<close> rounds of a wait that has not ended.\<close>

primrec rounds :: "options \<Rightarrow> string set \<Rightarrow> string \<Rightarrow> (nat \<Rightarrow> tick) \<Rightarrow> nat \<Rightarrow> wait_state option" where
  "rounds ops own topic ticks 0 = Some wait_state0"
| "rounds ops own topic ticks (Suc n) =
     (case rounds ops own topic ticks n of
        None \<Rightarrow> None
      | Some w \<Rightarrow> (case wait_tick ops own topic (ticks n) w of Inl r \<Rightarrow> None | Inr w' \<Rightarrow> Some w'))"

definition round_ends :: "options \<Rightarrow> string set \<Rightarrow> string \<Rightarrow> (nat \<Rightarrow> tick) \<Rightarrow> nat \<Rightarrow> wait_end \<Rightarrow> bool" where
  "round_ends ops own topic ticks k r \<longleftrightarrow>
     (case rounds ops own topic ticks k of
        None \<Rightarrow> False | Some w \<Rightarrow> wait_tick ops own topic (ticks k) w = Inl r)"

lemma wait_loop_from:
  "rounds ops own topic ticks n = Some w \<Longrightarrow> wait_for ops own topic ticks = wait_loop ops own topic ticks n w"
proof (induction n arbitrary: w)
  case 0
  then show ?case by (simp add: wait_for_def)
next
  case (Suc n)
  then obtain v where v: "rounds ops own topic ticks n = Some v"
    and w: "wait_tick ops own topic (ticks n) v = Inr w"
    by (auto split: option.splits sum.splits)
  show ?case using Suc.IH [OF v] w by (subst (asm) wait_loop.simps) simp
qed

lemma round_ends_wait: "round_ends ops own topic ticks k r \<Longrightarrow> wait_for ops own topic ticks = Some r"
  using wait_loop_from [of ops own topic ticks k]
  by (auto simp: round_ends_def wait_loop.simps split: option.splits)

lemma rounds_or_ends:
  "rounds ops own topic ticks n = None \<Longrightarrow> \<exists>k<n. \<exists>r. round_ends ops own topic ticks k r"
proof (induction n)
  case (Suc n)
  show ?case
  proof (cases "rounds ops own topic ticks n")
    case None
    then show ?thesis using Suc.IH less_Suc_eq by blast
  next
    case (Some w)
    then obtain r where "wait_tick ops own topic (ticks n) w = Inl r"
      using Suc.prems by (auto split: sum.splits)
    then show ?thesis using Some by (auto simp: round_ends_def)
  qed
qed simp

lemma wait_loop_ends:
  "wait_loop ops own topic ticks n w = Some r \<Longrightarrow> rounds ops own topic ticks n = Some w \<Longrightarrow>
     \<exists>k. round_ends ops own topic ticks k r"
proof (induction rule: wait_loop.raw_induct [rotated 1, consumes 1, case_names step])
  case (step loop ops own topic ticks n w r)
  show ?case
  proof (cases "wait_tick ops own topic (ticks n) w")
    case (Inl r')
    then have "round_ends ops own topic ticks n r" using step by (simp add: round_ends_def)
    then show ?thesis ..
  next
    case (Inr w')
    then show ?thesis using step by auto
  qed
qed

lemma wait_for_iff:
  "wait_for ops own topic ticks = Some r \<longleftrightarrow> (\<exists>k. round_ends ops own topic ticks k r)"
proof
  assume "wait_for ops own topic ticks = Some r"
  then show "\<exists>k. round_ends ops own topic ticks k r"
    using wait_loop_ends [of ops own topic ticks 0 wait_state0 r] by (simp add: wait_for_def)
qed (auto intro: round_ends_wait)

lemma wait_over:
  assumes "d_le (op_timeout ops) (ti_elapsed (ticks n))"
  shows "\<exists>k r. k \<le> n \<and> round_ends ops own topic ticks k r \<and> wait_for ops own topic ticks = Some r"
proof (cases "rounds ops own topic ticks n")
  case None
  then show ?thesis using rounds_or_ends round_ends_wait less_imp_le by blast
next
  case (Some w)
  then have "round_ends ops own topic ticks n (''timeout'', Fin (- 1))"
    using assms by (simp add: round_ends_def wait_tick_def)
  then show ?thesis using round_ends_wait by blast
qed

text \<open>
  C19. When the clock has passed \<open>--timeout\<close> in some round, the wait returns, at the latest in that round and
  whatever the observers deliver.
\<close>

theorem wait_ends:
  assumes "d_le (op_timeout ops) (ti_elapsed (ticks n))"
  shows "\<exists>k r. k \<le> n \<and> round_ends ops own topic ticks k r \<and> wait_for ops own topic ticks = Some r"
  using assms by (rule wait_over)

definition sample_tick :: "nat \<Rightarrow> tick" where
  "sample_tick n = \<lparr>ti_elapsed = Fin (of_nat n / 20), ti_since_last = Fin (of_nat n / 20), ti_event_count = 0,
     ti_snapshot = [], ti_listener = listener0 0, ti_stats = stats_observer0, ti_ok = True\<rparr>"

theorem wait_ends_witness:
  "\<exists>k r. k \<le> 60 \<and> round_ends (options0\<lparr>op_timeout := Fin 3\<rparr>) {} ''t'' sample_tick k r \<and>
     wait_for (options0\<lparr>op_timeout := Fin 3\<rparr>) {} ''t'' sample_tick = Some r"
  by (rule wait_ends) (simp add: sample_tick_def d_le_def)

text \<open>
  Each round sleeps for 50 ms, so a clock reaches a fortieth of a second for each round that was done, and
  a wait with a finite \<open>--timeout\<close> returns.
\<close>

definition clock_runs :: "(nat \<Rightarrow> tick) \<Rightarrow> bool" where
  "clock_runs ticks \<longleftrightarrow> (\<forall>n. d_le (Fin (of_nat n / 40)) (ti_elapsed (ticks n)))"

lemma wait_returns:
  assumes "op_timeout ops = Fin limit" and "clock_runs ticks"
  shows "\<exists>k r. k \<le> nat \<lceil>40 * limit\<rceil> \<and> round_ends ops own topic ticks k r \<and> wait_for ops own topic ticks = Some r"
proof (rule wait_over)
  define n where "n = nat \<lceil>40 * limit\<rceil>"
  have "40 * limit \<le> of_nat n" unfolding n_def by (simp add: of_nat_ceiling)
  then have "limit \<le> of_nat n / 40" by simp
  then show "d_le (op_timeout ops) (ti_elapsed (ticks n))"
    using assms unfolding clock_runs_def d_le_def
    by (cases "ti_elapsed (ticks n)") (fastforce dest: spec [of _ n])+
qed

subsection \<open>The reasons\<close>

definition ended_for :: "options \<Rightarrow> tick \<Rightarrow> wait_end \<Rightarrow> bool" where
  "ended_for ops t r \<longleftrightarrow>
     (if fst r = ''quiet'' then quiet_tick ops t \<and> snd r = Fin (- 1)
        \<and> (op_stats ops \<longrightarrow> op_watch ops \<and> d_le kStatsSettleMinSeconds (ti_elapsed t))
      else if fst r = ''settled'' then op_stats ops \<and> \<not> op_watch ops \<and> quiet_tick ops t
        \<and> d_le kStatsSettleMinSeconds (ti_elapsed t) \<and> snd r = ti_elapsed t
      else fst r = ''timeout'' \<and> snd r = Fin (- 1) \<and> (d_le (op_timeout ops) (ti_elapsed t) \<or> \<not> ti_ok t))"

lemma wait_tick_reason: "wait_tick ops own topic t w = Inl r \<Longrightarrow> ended_for ops t r"
  by (auto simp: wait_tick_def ended_for_def Let_def watch_ready_def settle_tick_def settled_now_def
      split: if_splits prod.splits)

text \<open>
  The reason a wait ends with is true: \<open>quiet\<close> only after a quiet period in which something had been
  discovered, and with statistics only for \<open>--watch\<close> and not before five seconds; \<open>settled\<close> only for a
  one-shot run with statistics, at the time it names; \<open>timeout\<close> when the time was over or the process
  was told to stop.
\<close>

theorem wait_reason:
  "case wait_for ops own topic ticks of
     None \<Rightarrow> True
   | Some r \<Rightarrow> (\<exists>k. round_ends ops own topic ticks k r \<and> ended_for ops (ticks k) r)"
proof (cases "wait_for ops own topic ticks")
  case (Some r)
  then obtain k where "round_ends ops own topic ticks k r" by (auto simp: wait_for_iff)
  then have "round_ends ops own topic ticks k r \<and> ended_for ops (ticks k) r"
    using wait_tick_reason by (auto simp: round_ends_def split: option.splits)
  then show ?thesis using Some by auto
qed simp

subsection \<open>What settled means\<close>

text \<open>
  Each round sees the discovery observer after some callbacks of one log. The wait reads the snapshot
  only when the event count changed, which is enough: a callback that is not counted changes nothing, so
  the count tells snapshots apart.
\<close>

definition observes :: "build \<Rightarrow> ip_locator \<Rightarrow> int \<Rightarrow> (nat \<Rightarrow> int \<times> discovery_event) \<Rightarrow> (nat \<Rightarrow> tick) \<Rightarrow> bool" where
  "observes b ip start evs ticks \<longleftrightarrow>
     (\<forall>n. \<exists>seen. let ob = run_events b ip start (map evs [0 ..< seen])
        in ti_event_count (ticks n) = ob_event_count ob \<and> ti_snapshot (ticks n) = observer_snapshot ob)"

definition snapshots_by_count :: "(nat \<Rightarrow> tick) \<Rightarrow> bool" where
  "snapshots_by_count ticks \<longleftrightarrow>
     (\<forall>m n. ti_event_count (ticks m) = ti_event_count (ticks n) \<longrightarrow> ti_snapshot (ticks m) = ti_snapshot (ticks n))
     \<and> (\<forall>n. ti_event_count (ticks n) = 0 \<longrightarrow> ti_snapshot (ticks n) = [])"

lemma uncounted_event: "\<not> event_counts (snd e) \<Longrightarrow> on_event b ip e ob = ob"
  by (cases "(b, ip, e, ob)" rule: on_event.cases) (auto simp: handler_defs event_counts_def)

lemma count_tells:
  assumes ob: "\<And>k. ob k = run_events b ip start (map evs [0 ..< k])" and "k \<le> l"
  shows "ob_event_count (ob k) \<le> ob_event_count (ob l) \<and> (ob_event_count (ob k) = ob_event_count (ob l) \<longrightarrow> ob k = ob l)"
  using assms(2)
proof (induction l rule: dec_induct)
  case (step l)
  have "ob (Suc l) = on_event b ip (evs l) (ob l)" by (simp add: ob run_events_snoc)
  then show ?case using step.IH on_event_count(1) [of b ip "evs l" "ob l"] uncounted_event [of "evs l" b ip "ob l"]
    by (cases "event_counts (snd (evs l))") (simp_all only: if_True if_False, linarith, metis)
qed simp

lemma observes_by_count:
  assumes "observes b ip start evs ticks"
  shows "snapshots_by_count ticks"
proof -
  let ?ob = "\<lambda>k. run_events b ip start (map evs [0 ..< k])"
  note tells = conjunct2 [OF count_tells [of ?ob, OF refl], rule_format]
  have same: "?ob k = ?ob l" if "ob_event_count (?ob k) = ob_event_count (?ob l)" for k l
    using nat_le_linear [of k l] tells [OF _ that] tells [OF _ that [symmetric]] by metis
  obtain seen where seen: "\<And>n. ti_event_count (ticks n) = ob_event_count (?ob (seen n)) \<and>
      ti_snapshot (ticks n) = observer_snapshot (?ob (seen n))"
    using choice [OF assms [unfolded observes_def Let_def]] by blast
  have "?ob 0 = observer0 start" "ob_event_count (observer0 start) = 0" "observer_snapshot (observer0 start) = []"
    by (simp_all add: run_events_Nil observer0_def observer_snapshot_def)
  then show ?thesis unfolding snapshots_by_count_def using seen same by metis
qed

definition sizes_fit :: "string set \<Rightarrow> (nat \<Rightarrow> tick) \<Rightarrow> bool" where
  "sizes_fit own ticks \<longleftrightarrow> (\<forall>n. length (li_matched (ti_listener (ticks n)) RtpsSent) < 2 ^ 64
     \<and> count_measurable_pairs (ti_snapshot (ticks n)) own < 2 ^ 64)"

text \<open>The rounds in which the loop looks at the statistics, and the entries measured towards a reader.\<close>

definition evaluated :: "options \<Rightarrow> tick \<Rightarrow> bool" where
  "evaluated ops t \<longleftrightarrow> op_stats ops \<and> \<not> op_watch ops \<and> d_lt (Fin 0) (op_quiet ops)
     \<and> d_le kStatsSettleMinSeconds (ti_elapsed t)"

definition measured_now :: "string set \<Rightarrow> tick \<Rightarrow> nat" where
  "measured_now own t = length (filter (\<lambda>kv. measures_a_pair (snd kv) (reader_destinations_of (ti_snapshot t) own))
     (so_traffic (ti_stats t)))"

text \<open>The measured entries have been \<open>m\<close> since a round at the time \<open>since\<close>, or none since the start.\<close>

definition steady :: "options \<Rightarrow> string set \<Rightarrow> (nat \<Rightarrow> tick) \<Rightarrow> nat \<Rightarrow> double \<Rightarrow> nat \<Rightarrow> bool" where
  "steady ops own ticks n since m \<longleftrightarrow>
     (\<exists>c<n. since = ti_elapsed (ticks c)
        \<and> (\<forall>j. c \<le> j \<and> j < n \<and> evaluated ops (ticks j) \<longrightarrow> measured_now own (ticks j) = m))
     \<or> since = Fin 0 \<and> m = 0 \<and> (\<forall>j<n. evaluated ops (ticks j) \<longrightarrow> measured_now own (ticks j) = 0)"

lemma steady_Suc:
  assumes "steady ops own ticks n since m" and "evaluated ops (ticks n) \<longrightarrow> measured_now own (ticks n) = m"
  shows "steady ops own ticks (Suc n) since m"
proof -
  have n: "evaluated ops (ticks j) \<Longrightarrow> j < Suc n \<Longrightarrow> (j < n \<Longrightarrow> measured_now own (ticks j) = m) \<Longrightarrow>
      measured_now own (ticks j) = m" for j
    using assms(2) by (cases "j = n") auto
  consider (since) c where "c < n" "since = ti_elapsed (ticks c)"
        "\<And>j. c \<le> j \<Longrightarrow> j < n \<Longrightarrow> evaluated ops (ticks j) \<Longrightarrow> measured_now own (ticks j) = m"
    | (never) "since = Fin 0" "m = 0" "\<And>j. j < n \<Longrightarrow> evaluated ops (ticks j) \<Longrightarrow> measured_now own (ticks j) = 0"
    using assms(1) unfolding steady_def by blast
  then show ?thesis
  proof cases
    case since
    then have "c < Suc n \<and> since = ti_elapsed (ticks c)
        \<and> (\<forall>j. c \<le> j \<and> j < Suc n \<and> evaluated ops (ticks j) \<longrightarrow> measured_now own (ticks j) = m)"
      using n less_SucI by blast
    then show ?thesis unfolding steady_def by blast
  next
    case never
    then have "\<forall>j<Suc n. evaluated ops (ticks j) \<longrightarrow> measured_now own (ticks j) = 0"
      using n by blast
    then show ?thesis using never unfolding steady_def by blast
  qed
qed

lemma steady_now: "steady ops own ticks (Suc n) (ti_elapsed (ticks n)) (measured_now own (ticks n))"
proof -
  have "n \<le> j \<Longrightarrow> j < Suc n \<Longrightarrow> measured_now own (ticks j) = measured_now own (ticks n)" for j
    by (simp add: le_less_Suc_eq)
  then show ?thesis unfolding steady_def by blast
qed

definition refreshed :: "string set \<Rightarrow> (nat \<Rightarrow> tick) \<Rightarrow> wait_state \<Rightarrow> bool" where
  "refreshed own ticks w \<longleftrightarrow> (\<forall>m. ti_event_count (ticks m) = ws_reader_destinations_event_count w \<longrightarrow>
     ws_destinations w = reader_destinations_of (ti_snapshot (ticks m)) own
     \<and> ws_measurable_pairs w = count_measurable_pairs (ti_snapshot (ticks m)) own)"

lemma same_snapshot:
  "snapshots_by_count ticks \<Longrightarrow> ti_event_count (ticks m) = ti_event_count (ticks n) \<Longrightarrow>
     ti_snapshot (ticks m) = ti_snapshot (ticks n)"
  unfolding snapshots_by_count_def by blast

lemma refreshed_refresh:
  assumes "snapshots_by_count ticks" and "refreshed own ticks w"
  shows "refreshed own ticks (refresh_state own (ticks n) w)"
proof (cases "ti_event_count (ticks n) = ws_reader_destinations_event_count w")
  case False
  show ?thesis unfolding refreshed_def
  proof (intro allI impI)
    fix m assume "ti_event_count (ticks m) = ws_reader_destinations_event_count (refresh_state own (ticks n) w)"
    then have "ti_event_count (ticks m) = ti_event_count (ticks n)"
      using False by (simp add: refresh_state_def refresh_reader_destinations_def)
    from same_snapshot [OF assms(1) this] False
    show "ws_destinations (refresh_state own (ticks n) w) = reader_destinations_of (ti_snapshot (ticks m)) own
       \<and> ws_measurable_pairs (refresh_state own (ticks n) w) = count_measurable_pairs (ti_snapshot (ticks m)) own"
      by (simp add: refresh_state_def refresh_reader_destinations_def)
  qed
qed (simp add: refresh_state_def assms(2))

lemma refresh_now:
  assumes "refreshed own ticks w"
  shows "ws_destinations (refresh_state own (ticks n) w) = reader_destinations_of (ti_snapshot (ticks n)) own"
    "ws_measurable_pairs (refresh_state own (ticks n) w) = count_measurable_pairs (ti_snapshot (ticks n)) own"
    "ws_measured_instances (refresh_state own (ticks n) w) = ws_measured_instances w"
    "ws_measured_changed_s (refresh_state own (ticks n) w) = ws_measured_changed_s w"
  using assms by (auto simp: refresh_state_def refresh_reader_destinations_def refreshed_def)

lemma refreshed_start:
  assumes "snapshots_by_count ticks"
  shows "refreshed own ticks wait_state0"
proof -
  have "ti_event_count (ticks m) = 0 \<Longrightarrow> ti_snapshot (ticks m) = []" for m
    using assms unfolding snapshots_by_count_def by blast
  then show ?thesis
    by (simp add: refreshed_def wait_state0_def reader_destinations_of_def count_measurable_pairs_def)
qed

lemma rounds_inv:
  assumes "snapshots_by_count ticks" and "rounds ops own topic ticks n = Some w"
  shows "refreshed own ticks w
     \<and> steady ops own ticks n (ws_measured_changed_s w) (ws_measured_instances w)"
  using assms(2)
proof (induction n arbitrary: w)
  case 0
  then show ?case using refreshed_start [OF assms(1)] by (auto simp: wait_state0_def steady_def)
next
  case (Suc n)
  then obtain v where v: "rounds ops own topic ticks n = Some v"
    and w: "wait_tick ops own topic (ticks n) v = Inr w"
    by (auto split: option.splits sum.splits)
  note IH = Suc.IH [OF v]
  show ?case
  proof (cases "evaluated ops (ticks n)")
    case False
    then have "w = v" using w by (auto simp: wait_tick_def evaluated_def Let_def split: if_splits)
    then show ?thesis using IH False steady_Suc by blast
  next
    case True
    define u where "u = refresh_state own (ticks n) v"
    define m where "m = se_measured_instances (tick_settle topic (ticks n) u)"
    have w: "w = note_measured (ti_elapsed (ticks n)) m u"
      using w True by (auto simp: wait_tick_def evaluated_def settle_tick_def u_def m_def Let_def split: if_splits)
    note now = refresh_now [OF conjunct1 [OF IH], of n, folded u_def]
    have m: "m = measured_now own (ticks n)"
      by (simp add: m_def tick_settle_def settle_status_def settle_fold set_reader_destinations_def
          measured_now_def now)
    have "refreshed own ticks w"
      using refreshed_refresh [OF assms(1) conjunct1 [OF IH], of n, folded u_def]
      by (simp add: w note_measured_def refreshed_def)
    moreover have "steady ops own ticks (Suc n) (ws_measured_changed_s w) (ws_measured_instances w)"
      using steady_Suc [OF conjunct2 [OF IH]] steady_now m now by (simp add: w note_measured_def)
    ultimately show ?thesis ..
  qed
qed

lemma of_nat_le_fits: "a < 2 ^ 64 \<Longrightarrow> b < 2 ^ 64 \<Longrightarrow> (of_nat a :: u64) \<le> of_nat b \<longleftrightarrow> a \<le> b"
  by (simp add: word_le_nat_alt unat_of_nat take_bit_nat_eq_self)

lemma of_nat_eq_0_fits: "a < 2 ^ 64 \<Longrightarrow> (of_nat a :: u64) = 0 \<longleftrightarrow> a = 0"
  by (simp add: unat_eq_0 [symmetric] unat_of_nat take_bit_nat_eq_self del: unat_eq_0)

definition heard_all :: "tick \<Rightarrow> bool" where
  "heard_all t \<longleftrightarrow> list_all (\<lambda>g. g \<in> so_heard (ti_stats t) RtpsSent) (li_matched (ti_listener t) RtpsSent)"

text \<open>
  C17. When the wait says settled, every matched RTPS_SENT writer had been heard from; a measured entry
  towards a discovered reader had arrived, unless no writer is matched or no pair is measurable; and the
  number of such entries, counted against the readers discovered at each moment, had not changed for
  \<open>--quiet\<close> and three seconds.
\<close>

theorem wait_settled:
  assumes "observes b ip start evs ticks" and "sizes_fit own ticks"
    and "wait_for ops own topic ticks = Some (''settled'', s)"
  shows "\<exists>k since. ti_elapsed (ticks k) = s \<and> heard_all (ticks k)
     \<and> (li_matched (ti_listener (ticks k)) RtpsSent = [] \<or> count_measurable_pairs (ti_snapshot (ticks k)) own = 0
        \<or> 0 < measured_now own (ticks k))
     \<and> steady ops own ticks (Suc k) since (measured_now own (ticks k))
     \<and> d_le (d_max (op_quiet ops) kStatsMeasuredQuietSeconds) (d_sub s since)"
proof -
  obtain k where k: "round_ends ops own topic ticks k (''settled'', s)" using assms(3) by (auto simp: wait_for_iff)
  then obtain v where v: "rounds ops own topic ticks k = Some v"
    and end_: "wait_tick ops own topic (ticks k) v = Inl (''settled'', s)"
    by (auto simp: round_ends_def split: option.splits)
  define u where "u = refresh_state own (ticks k) v"
  define st where "st = tick_settle topic (ticks k) u"
  define w where "w = note_measured (ti_elapsed (ticks k)) (se_measured_instances st) u"
  have s: "s = ti_elapsed (ticks k)" and now: "settled_now ops (quiet_tick ops (ticks k)) s st w"
    using end_ by (auto simp: wait_tick_def settle_tick_def u_def st_def w_def Let_def split: if_splits)
  note inv = rounds_inv [OF observes_by_count [OF assms(1)] v]
  note fresh = refresh_now [OF conjunct1 [OF inv], of k, folded u_def]
  have m: "se_measured_instances st = measured_now own (ticks k)"
    by (simp add: st_def tick_settle_def settle_status_def settle_fold set_reader_destinations_def measured_now_def fresh)
  have "steady ops own ticks (Suc k) (ws_measured_changed_s w) (measured_now own (ticks k))"
    using steady_Suc [OF conjunct2 [OF inv]] steady_now [of ops own ticks k] m fresh
    by (auto simp: w_def note_measured_def)
  moreover have "d_le (d_max (op_quiet ops) kStatsMeasuredQuietSeconds) (d_sub s (ws_measured_changed_s w))"
    using now by (simp add: settled_now_def stats_settled_def)
  moreover
  define matched where "matched = li_matched (ti_listener (ticks k)) RtpsSent"
  define heard where "heard = (\<lambda>g. g \<in> so_heard (ti_stats (ticks k)) RtpsSent)"
  have st: "se_announced st = length matched" "se_heard st = length (filter heard matched)"
    by (simp_all add: st_def tick_settle_def settle_status_def settle_fold set_reader_destinations_def
        matched_def heard_def)
  have fits: "length matched < 2 ^ 64" "count_measurable_pairs (ti_snapshot (ticks k)) own < 2 ^ 64"
    using assms(2) unfolding sizes_fit_def matched_def by blast+
  have settled: "(of_nat (length matched) :: u64) \<le> of_nat (length (filter heard matched))"
      "(of_nat (length matched) :: u64) = 0 \<or> (of_nat (ws_measurable_pairs w) :: u64) = 0
        \<or> (0 :: u64) < of_nat (se_measured_instances st)"
    using now by (simp_all add: settled_now_def stats_settled_def st)
  have "length matched \<le> length (filter heard matched)"
    using settled(1) of_nat_le_fits [OF fits(1) le_less_trans [OF length_filter_le fits(1)]] by blast
  then have "list_all heard matched"
    by (metis filter_True length_filter_less list_all_iff not_le order_refl)
  then have "heard_all (ticks k)" by (simp add: heard_all_def heard_def matched_def)
  moreover have "ws_measurable_pairs w = count_measurable_pairs (ti_snapshot (ticks k)) own"
    using fresh by (simp add: w_def note_measured_def)
  then have "matched = [] \<or> count_measurable_pairs (ti_snapshot (ticks k)) own = 0
        \<or> 0 < measured_now own (ticks k)"
    using settled(2) fits m by (auto simp: of_nat_eq_0_fits intro: gr0I)
  ultimately show ?thesis using s unfolding matched_def by blast
qed

text \<open>A writer and a reader of two processes, a writer of the statistics that was heard, and a measured pair.\<close>

definition met_event :: "nat \<Rightarrow> int \<times> discovery_event" where
  "met_event n =
     (if n = 0 then (1, EndpointEvent True Discovered (sample_proxy 1))
      else (2, EndpointEvent False Discovered
        ((sample_proxy 2)\<lparr>px_guid := replicate 12 2 @ [0, 0, 2, 4],
           px_unicast := [\<lparr>rl_kind = KindUDPv4, rl_port = 7411, rl_address = []\<rparr>]\<rparr>)))"

definition met :: discovery_observer where
  "met = run_events sample_build sample_ip 0 (map met_event [0 ..< 2])"

definition met_tick :: "nat \<Rightarrow> tick" where
  "met_tick n = \<lparr>ti_elapsed = Fin (if n = 0 then 10 else 20), ti_since_last = Fin 5, ti_event_count = ob_event_count met,
     ti_snapshot = observer_snapshot met, ti_listener = (listener0 0)\<lparr>li_matched := (\<lambda>_. [''g''])\<rparr>,
     ti_stats = stats_observer0\<lparr>so_heard := (\<lambda>_. {''g''}), so_traffic := [((''p'', 1, ''10.0.0.1'', 7411), traffic_sample0\<lparr>
       ts_dst := \<lparr>loc_kind = LocUDPv4, loc_address = ''10.0.0.1'', loc_port = 7411\<rparr>, ts_packets := 5\<rparr>)]\<rparr>,
     ti_ok = True\<rparr>"

lemma met_seen: "ob_event_count met = 2" "count_measurable_pairs (observer_snapshot met) {} = 1"
  by code_simp+

lemma met_port: "(LocUDPv4, 7411) \<in> unicast_ports (reader_destinations_of (observer_snapshot met) {})"
  by code_simp

definition met_state :: wait_state where
  "met_state = \<lparr>ws_measured_instances = 1, ws_measured_changed_s = Fin 10, ws_reader_destinations_event_count = 2,
     ws_destinations = reader_destinations_of (observer_snapshot met) {}, ws_measurable_pairs = 1\<rparr>"

definition met_options :: options where
  "met_options = options0\<lparr>op_timeout := Fin 30, op_stats := True\<rparr>"

lemma rnds: "rnd 10 = Fin 10" "rnd 0 = Fin 0"
  using rnd_of_nat [of 10] rnd_of_nat [of 0] by simp_all

lemmas met_defs = wait_tick_def met_tick_def met_options_def options0_def quiet_tick_def d_le_def
  settle_tick_def refresh_state_def refresh_reader_destinations_def tick_settle_def
  settle_status_def settle_step_def note_measured_def settled_now_def stats_settled_def listener0_def
  set_reader_destinations_def stats_observer0_def kStatsSettleMinSeconds_def kStatsMeasuredQuietSeconds_def
  d_sub_def d_max_def measures_a_pair_def traffic_sample0_def

lemma met_first: "wait_tick met_options {} ''t'' (met_tick 0) wait_state0 = Inr met_state"
  using met_port by (simp add: met_defs met_seen rnds wait_state0_def met_state_def Let_def)

lemma met_second: "wait_tick met_options {} ''t'' (met_tick 1) met_state = Inl (''settled'', Fin 20)"
  using met_port by (simp add: met_defs met_seen rnds met_state_def Let_def)

lemma met_settles: "wait_for met_options {} ''t'' met_tick = Some (''settled'', Fin 20)"
  by (rule round_ends_wait [of _ _ _ _ 1]) (simp add: round_ends_def met_first met_second [simplified])

theorem wait_settled_witness:
  "\<exists>k since. ti_elapsed (met_tick k) = Fin 20 \<and> heard_all (met_tick k)
     \<and> 0 < measured_now {} (met_tick k)
     \<and> steady met_options {} met_tick (Suc k) since (measured_now {} (met_tick k))
     \<and> d_le (d_max (op_quiet met_options) kStatsMeasuredQuietSeconds) (d_sub (Fin 20) since)"
proof -
  have "observes sample_build sample_ip 0 met_event met_tick"
    unfolding observes_def met_tick_def met_def by (auto intro: exI [of _ 2] simp: Let_def)
  moreover have "sizes_fit {} met_tick" by (simp add: sizes_fit_def met_tick_def met_seen)
  moreover note met_settles
  ultimately have "\<exists>k since. ti_elapsed (met_tick k) = Fin 20 \<and> heard_all (met_tick k)
      \<and> (li_matched (ti_listener (met_tick k)) RtpsSent = []
         \<or> count_measurable_pairs (ti_snapshot (met_tick k)) {} = 0 \<or> 0 < measured_now {} (met_tick k))
      \<and> steady met_options {} met_tick (Suc k) since (measured_now {} (met_tick k))
      \<and> d_le (d_max (op_quiet met_options) kStatsMeasuredQuietSeconds) (d_sub (Fin 20) since)"
    by (rule wait_settled)
  then show ?thesis by (simp add: met_tick_def met_seen)
qed

end
