(* ===== verification/Server_Env.thy ===== *)
theory Server_Env
  imports Options Model
begin

text \<open>
  \<open>parse_discovery_server_env\<close> (\<open>src/decision.cpp\<close>) reads the list of servers of
  \<open>ROS_DISCOVERY_SERVER\<close> with three regular expressions of \<open>std::regex\<close>. They are modelled as what
  they are: \<open>rx\<close> is the part of the ECMAScript grammar the expressions use, and \<open>ways\<close> lists every way
  to match a prefix, with the captures, in the order in which the matcher tries them, so that
  \<open>regex_match\<close> is the first way that uses up the text.
\<close>

subsection \<open>Regular expressions\<close>

datatype rx =
    Chars "char \<Rightarrow> bool"
  | Seq rx rx
  | Alt rx rx
  | Rep nat "nat option" rx \<comment> \<open>greedy, at least and at most so often\<close>
  | Group nat rx

type_synonym captures = "nat \<Rightarrow> string option"

text \<open>Up to \<open>n\<close> repetitions, at least \<open>lo\<close> of them, more before fewer.\<close>

fun repeat_ways :: "(string \<times> captures \<Rightarrow> (string \<times> captures) list) \<Rightarrow> nat \<Rightarrow> nat \<Rightarrow>
    string \<times> captures \<Rightarrow> (string \<times> captures) list" where
  "repeat_ways f 0 lo s = (if lo = 0 then [s] else [])"
| "repeat_ways f (Suc n) lo s =
     concat (map (repeat_ways f n (lo - 1)) (f s)) @ (if lo = 0 then [s] else [])"

text \<open>An unbounded repetition uses up a character each time, so the length of the text bounds it.\<close>

primrec ways :: "rx \<Rightarrow> string \<times> captures \<Rightarrow> (string \<times> captures) list" where
  "ways (Chars p) s = (case fst s of [] \<Rightarrow> [] | c # r \<Rightarrow> if p c then [(r, snd s)] else [])"
| "ways (Seq a b) s = concat (map (ways b) (ways a s))"
| "ways (Alt a b) s = ways a s @ ways b s"
| "ways (Rep lo hi a) s =
     repeat_ways (ways a) (case hi of Some n \<Rightarrow> n | None \<Rightarrow> length (fst s)) lo s"
| "ways (Group i a) s =
     map (\<lambda>r. (fst r, (snd r)(i := Some (take (length (fst s) - length (fst r)) (fst s))))) (ways a s)"

definition regex_match :: "rx \<Rightarrow> string \<Rightarrow> captures option" where
  "regex_match r s = map_option snd (find (\<lambda>w. fst w = []) (ways r (s, \<lambda>_. None)))"

definition capture :: "captures \<Rightarrow> nat \<Rightarrow> string" where
  "capture m i = (case m i of Some t \<Rightarrow> t | None \<Rightarrow> [])"

subsection \<open>The three expressions\<close>

definition Lit :: "string \<Rightarrow> rx" where
  "Lit s = foldr (\<lambda>c r. Seq (Chars (\<lambda>d. d = c)) r) (butlast s) (Chars (\<lambda>d. d = last s))"

definition Opt :: "rx \<Rightarrow> rx" where
  "Opt = Rep 0 (Some 1)"

definition rx_digit :: rx where
  "rx_digit = Chars (is_digit 10)"

definition rx_hex :: rx where
  "rx_hex = Chars (is_digit 16)"

definition is_word :: "char \<Rightarrow> bool" where
  "is_word c \<longleftrightarrow> is_digit 36 c \<or> c = CHR ''_''"

text \<open>The end of all three: \<open>:?(\d+)?\<close>\<close>

definition rx_port :: rx where
  "rx_port = Seq (Opt (Lit '':'')) (Opt (Group 2 (Rep 1 None rx_digit)))"

definition rx_ipv4 :: rx where
  "rx_ipv4 = Seq
     (Opt (Group 1 (Seq (Rep 3 (Some 3) (Seq (Rep 1 (Some 3) rx_digit) (Lit ''.''))) (Rep 1 (Some 3) rx_digit))))
     rx_port"

definition rx_ipv6 :: rx where
  "rx_ipv6 = Seq (Opt (Lit ''[''))
     (Seq (Group 1 (Seq (Rep 1 (Some 7) (Seq (Rep 0 (Some 4) rx_hex) (Lit '':''))) (Rep 0 (Some 4) rx_hex)))
     (Seq (Opt (Lit '']'')) rx_port))"

definition rx_protocol :: rx where
  "rx_protocol = Alt (Seq (Lit ''UDPv'') (Opt (Chars (\<lambda>c. c = CHR ''4'' \<or> c = CHR ''6''))))
     (Seq (Lit ''TCPv'') (Opt (Chars (\<lambda>c. c = CHR ''4'' \<or> c = CHR ''6''))))"

definition rx_named :: rx where
  "rx_named = Seq
     (Group 1 (Alt
       (Seq rx_protocol (Seq (Lit '':['')
         (Seq (Rep 0 (Some 63) (Chars (\<lambda>c. is_word c \<or> c \<in> set ''.:-''))) (Lit '']''))))
       (Rep 1 (Some 63) (Chars (\<lambda>c. is_word c \<or> c \<in> set ''.-'')))))
     rx_port"

subsection \<open>The servers\<close>

text \<open>The port of a discovery server; below 420 a domain id. \<open>None\<close> rejects the entry.\<close>

definition to_port :: "string \<Rightarrow> u32 \<Rightarrow> u32 option" where
  "to_port text port =
     (if text = [] then Some port
      else let n = digits_value 10 text
        in if 65535 < n then None
           else Some (if n < 420 then of_nat (7400 + 250 * n + 2) else of_nat n))"

definition server0 :: locator where
  "server0 = \<lparr>loc_kind = LocUDPv4, loc_address = [], loc_port = 11811\<rparr>"

definition kind_of_proto :: "string \<Rightarrow> locator_kind" where
  "kind_of_proto proto = (if proto = ''TCPv4'' then LocTCPv4 else if proto = ''TCPv6'' then LocTCPv6
     else if proto = ''UDPv6'' then LocUDPv6 else LocUDPv4)"

definition named_server :: "captures \<Rightarrow> u32 \<Rightarrow> locator" where
  "named_server m port =
     (let host = capture m 1
      in case find_sub '':['' host of
           None \<Rightarrow> server0\<lparr>loc_port := port, loc_address := host\<rparr>
         | Some bracket \<Rightarrow> server0\<lparr>loc_port := port, loc_kind := kind_of_proto (substr host 0 bracket),
             loc_address := substr host (bracket + 2) (length host - bracket - 3)\<rparr>)"

definition server_entry :: "string \<Rightarrow> locator option" where
  "server_entry entry =
     (if entry = [] then None
      else case regex_match rx_ipv4 entry of
        Some m \<Rightarrow> (if m 1 = None then None
            else map_option (\<lambda>port. server0\<lparr>loc_port := port, loc_address := capture m 1\<rparr>)
              (to_port (capture m 2) (loc_port server0)))
      | None \<Rightarrow> (case regex_match rx_ipv6 entry of
            Some m \<Rightarrow> map_option
              (\<lambda>port. server0\<lparr>loc_kind := LocUDPv6, loc_port := port, loc_address := capture m 1\<rparr>)
              (to_port (capture m 2) (loc_port server0))
          | None \<Rightarrow> (case regex_match rx_named entry of
                Some m \<Rightarrow> map_option (named_server m) (to_port (capture m 2) (loc_port server0))
              | None \<Rightarrow> None)))"

text \<open>The entries between the semicolons.\<close>

fun split_on :: "char \<Rightarrow> string \<Rightarrow> string list" where
  "split_on sep [] = [[]]"
| "split_on sep (c # s) =
     (if c = sep then [] # split_on sep s
      else case split_on sep s of [] \<Rightarrow> [[c]] | e # es \<Rightarrow> (c # e) # es)"

definition parse_discovery_server_env :: "string \<Rightarrow> locator list" where
  "parse_discovery_server_env value = List.map_filter server_entry (split_on (CHR '';'') value)"

end
