(* ===== verification/Server_Env_Props.thy ===== *)
theory Server_Env_Props
  imports Server_Env
begin

text \<open>
  The matcher finds a match exactly when the text is in the language of the expression, and a list of
  servers in any of the forms of \<open>ROS_DISCOVERY_SERVER\<close> is read back.
\<close>

subsection \<open>The language of an expression\<close>

definition conc :: "string set \<Rightarrow> string set \<Rightarrow> string set" where
  "conc L M = {u @ v | u v. u \<in> L \<and> v \<in> M}"

lemma conc_prefix: "(\<exists>w \<in> conc L M. s = w @ r) \<longleftrightarrow> (\<exists>u \<in> L. \<exists>v \<in> M. s = u @ v @ r)"
proof
  assume "\<exists>w \<in> conc L M. s = w @ r"
  then show "\<exists>u \<in> L. \<exists>v \<in> M. s = u @ v @ r" unfolding conc_def by fastforce
next
  assume "\<exists>u \<in> L. \<exists>v \<in> M. s = u @ v @ r"
  then obtain u v where uv: "u \<in> L" "v \<in> M" "s = u @ v @ r" by blast
  then have "u @ v \<in> conc L M" unfolding conc_def by blast
  moreover have "s = (u @ v) @ r" using uv by simp
  ultimately show "\<exists>w \<in> conc L M. s = w @ r" by blast
qed

primrec lang :: "rx \<Rightarrow> string set" where
  "lang (Chars p) = {[c] | c. p c}"
| "lang (Seq a b) = conc (lang a) (lang b)"
| "lang (Alt a b) = lang a \<union> lang b"
| "lang (Rep lo hi a) = {concat ws | ws. lo \<le> length ws \<and> set ws \<subseteq> lang a
     \<and> (case hi of Some n \<Rightarrow> length ws \<le> n | None \<Rightarrow> True)}"
| "lang (Group i a) = lang a"

text \<open>The body of an unbounded repetition is never empty.\<close>

primrec solid :: "rx \<Rightarrow> bool" where
  "solid (Chars p) = True"
| "solid (Seq a b) = (solid a \<and> solid b)"
| "solid (Alt a b) = (solid a \<and> solid b)"
| "solid (Rep lo hi a) = (solid a \<and> (hi = None \<longrightarrow> [] \<notin> lang a))"
| "solid (Group i a) = solid a"

definition explores :: "(string \<times> captures \<Rightarrow> (string \<times> captures) list) \<Rightarrow> string set \<Rightarrow> bool" where
  "explores f L \<longleftrightarrow> (\<forall>s c r. (\<exists>d. (r, d) \<in> set (f (s, c))) \<longleftrightarrow> (\<exists>u \<in> L. s = u @ r))"

lemma exploresD: "explores f L \<Longrightarrow> (\<exists>d. (r, d) \<in> set (f (s, c))) \<longleftrightarrow> (\<exists>u \<in> L. s = u @ r)"
  unfolding explores_def by blast

lemma exploresI: "(\<And>s c r. (\<exists>d. (r, d) \<in> set (f (s, c))) \<longleftrightarrow> (\<exists>u \<in> L. s = u @ r)) \<Longrightarrow> explores f L"
  unfolding explores_def by blast

lemma explores_then:
  assumes "explores f L" and "explores g M"
  shows "explores (\<lambda>s. concat (map g (f s))) (conc L M)"
proof (rule exploresI)
  fix s c r
  have "(\<exists>d. (r, d) \<in> set (concat (map g (f (s, c))))) \<longleftrightarrow>
      (\<exists>t e. (t, e) \<in> set (f (s, c)) \<and> (\<exists>d. (r, d) \<in> set (g (t, e))))" by auto
  also have "\<dots> \<longleftrightarrow> (\<exists>t. (\<exists>e. (t, e) \<in> set (f (s, c))) \<and> (\<exists>v \<in> M. t = v @ r))"
    unfolding exploresD [OF assms(2)] by blast
  also have "\<dots> \<longleftrightarrow> (\<exists>u \<in> L. \<exists>v \<in> M. s = u @ v @ r)"
    unfolding exploresD [OF assms(1)] by blast
  finally show "(\<exists>d. (r, d) \<in> set (concat (map g (f (s, c))))) \<longleftrightarrow> (\<exists>u \<in> conc L M. s = u @ r)"
    unfolding conc_prefix .
qed

lemma explores_or: "explores f L \<Longrightarrow> explores g M \<Longrightarrow> explores (\<lambda>s. f s @ g s) (L \<union> M)"
  unfolding explores_def set_append Un_iff ex_disj_distrib bex_Un by simp

lemma explores_stop: "explores (\<lambda>s. if b then [s] else []) (if b then {[]} else {})"
  by (rule exploresI) auto

definition powers :: "string set \<Rightarrow> nat \<Rightarrow> nat \<Rightarrow> string set" where
  "powers L lo n = {concat ws | ws. lo \<le> length ws \<and> set ws \<subseteq> L \<and> length ws \<le> n}"

lemma powers_0: "powers L lo 0 = (if lo = 0 then {[]} else {})"
  by (auto simp: powers_def)

lemma powers_Suc: "powers L lo (Suc n) = conc L (powers L (lo - 1) n) \<union> (if lo = 0 then {[]} else {})"
proof (intro equalityI subsetI)
  fix s assume "s \<in> powers L lo (Suc n)"
  then obtain ws where ws: "s = concat ws" "lo \<le> length ws" "set ws \<subseteq> L" "length ws \<le> Suc n"
    unfolding powers_def by blast
  show "s \<in> conc L (powers L (lo - 1) n) \<union> (if lo = 0 then {[]} else {})"
  proof (cases ws)
    case Nil
    then show ?thesis using ws by simp
  next
    case (Cons w ws')
    then have "concat ws' \<in> powers L (lo - 1) n" "w \<in> L" "s = w @ concat ws'"
      using ws unfolding powers_def by auto
    then show ?thesis unfolding conc_def by blast
  qed
next
  fix s assume "s \<in> conc L (powers L (lo - 1) n) \<union> (if lo = 0 then {[]} else {})"
  then consider (more) u ws where "s = u @ concat ws" "u \<in> L" "lo - 1 \<le> length ws" "set ws \<subseteq> L" "length ws \<le> n"
    | (none) "s = []" "lo = 0" unfolding powers_def conc_def by (auto split: if_splits)
  then show "s \<in> powers L lo (Suc n)"
  proof cases
    case more
    then have "s = concat (u # ws)" "lo \<le> length (u # ws)" "set (u # ws) \<subseteq> L" "length (u # ws) \<le> Suc n"
      by auto
    then show ?thesis unfolding powers_def by blast
  next
    case none
    then have "s = concat []" "lo \<le> length []" "set [] \<subseteq> L" "length [] \<le> Suc n" by auto
    then show ?thesis unfolding powers_def by blast
  qed
qed

lemma explores_repeat:
  assumes "explores f L"
  shows "explores (repeat_ways f n lo) (powers L lo n)"
proof (induction n arbitrary: lo)
  case 0
  show ?case by (rule exploresI) (auto simp: powers_0)
next
  case (Suc n)
  show ?case
    using explores_or [OF explores_then [OF assms Suc.IH [of "lo - 1"]] explores_stop [of "lo = 0"]]
    by (simp add: powers_Suc explores_def)
qed

lemma concat_length: "\<forall>w \<in> set ws. w \<noteq> [] \<Longrightarrow> length ws \<le> length (concat ws)"
  by (induction ws) (auto simp: neq_Nil_conv)

text \<open>The ways to match a prefix of the text leave exactly what a word of the language leaves.\<close>

lemma explores_ways: "solid e \<Longrightarrow> explores (ways e) (lang e)"
proof (induction e)
  case (Chars p)
  show ?case by (rule exploresI) (auto split: list.split)
next
  case (Seq a b)
  then show ?case using explores_then [of "ways a" "lang a" "ways b" "lang b"] by (simp add: explores_def)
next
  case (Alt a b)
  then show ?case using explores_or [of "ways a" "lang a" "ways b" "lang b"] by (simp add: explores_def)
next
  case (Rep lo hi a)
  show ?case
  proof (rule exploresI)
    fix s r :: string and c :: captures
    define n where "n = (case hi of Some n \<Rightarrow> n | None \<Rightarrow> length s)"
    have "ways (Rep lo hi a) (s, c) = repeat_ways (ways a) n lo (s, c)"
      by (cases hi) (simp_all add: n_def)
    then have "(\<exists>d. (r, d) \<in> set (ways (Rep lo hi a) (s, c))) \<longleftrightarrow> (\<exists>u \<in> powers (lang a) lo n. s = u @ r)"
      using exploresD [OF explores_repeat] Rep by simp
    also have "\<dots> \<longleftrightarrow> (\<exists>u \<in> lang (Rep lo hi a). s = u @ r)"
    proof (cases hi)
      case (Some m)
      then show ?thesis by (simp add: powers_def n_def)
    next
      case None
      have len: "length ws \<le> length s" if "set ws \<subseteq> lang a" "s = concat ws @ r" for ws
      proof -
        have "\<forall>w \<in> set ws. w \<noteq> []" using Rep.prems None that by auto
        then show ?thesis using concat_length [of ws] that by simp
      qed
      have "s = concat ws @ r \<Longrightarrow> concat ws \<in> powers (lang a) lo n"
        if "set ws \<subseteq> lang a" "lo \<le> length ws" for ws
        using len [OF that(1)] that None unfolding powers_def n_def by (auto simp del: length_append)
      then show ?thesis using None by (fastforce simp: powers_def)
    qed
    finally show "(\<exists>d. (r, d) \<in> set (ways (Rep lo hi a) (s, c))) \<longleftrightarrow> (\<exists>u \<in> lang (Rep lo hi a). s = u @ r)" .
  qed
next
  case (Group i a)
  show ?case
  proof (rule exploresI)
    fix s c r
    have "(\<exists>d. (r, d) \<in> set (ways (Group i a) (s, c))) \<longleftrightarrow> (\<exists>d. (r, d) \<in> set (ways a (s, c)))"
      by force
    then show "(\<exists>d. (r, d) \<in> set (ways (Group i a) (s, c))) \<longleftrightarrow> (\<exists>u \<in> lang (Group i a). s = u @ r)"
      using exploresD [of "ways a" "lang a"] Group by simp
  qed
qed

lemma find_some: "find P xs \<noteq> None \<longleftrightarrow> (\<exists>x \<in> set xs. P x)"
  by (induction xs) auto

lemma find_found: "find P xs = Some x \<Longrightarrow> x \<in> set xs \<and> P x"
  by (induction xs) (auto split: if_splits)

text \<open>
  The backtracking matcher accepts exactly the language of its expression.
\<close>

lemma regex_match_lang:
  assumes "solid e"
  shows "regex_match e s \<noteq> None \<longleftrightarrow> s \<in> lang e"
proof -
  have "regex_match e s \<noteq> None \<longleftrightarrow> (\<exists>d. ([], d) \<in> set (ways e (s, \<lambda>_. None)))"
    unfolding regex_match_def option.map_disc_iff find_some by force
  then show ?thesis using exploresD [OF explores_ways [OF assms]] by simp
qed

subsection \<open>The way that is tried first\<close>

text \<open>
  The matcher prefers more repetitions to fewer and the left alternative to the right one: what it
  finds is the first way, if that uses up the text. One rule per constructor follows that way.
\<close>

definition first_way :: "rx \<Rightarrow> string \<times> captures \<Rightarrow> string \<times> captures \<Rightarrow> bool" where
  "first_way e s t \<longleftrightarrow> (\<exists>rest. ways e s = t # rest)"

lemma first_match: "first_way e (s, \<lambda>_. None) ([], d) \<Longrightarrow> regex_match e s = Some d"
  by (auto simp: first_way_def regex_match_def)

lemma first_Chars: "p c \<Longrightarrow> first_way (Chars p) (c # r, m) (r, m)"
  by (simp add: first_way_def)

lemma first_Seq: "first_way a s t \<Longrightarrow> first_way b t u \<Longrightarrow> first_way (Seq a b) s u"
  by (auto simp: first_way_def)

lemma first_left: "first_way a s t \<Longrightarrow> first_way (Alt a b) s t"
  by (auto simp: first_way_def)

lemma first_right: "ways a s = [] \<Longrightarrow> first_way b s t \<Longrightarrow> first_way (Alt a b) s t"
  by (auto simp: first_way_def)

lemma first_Group: "first_way a (u @ r, m) (r, d) \<Longrightarrow> first_way (Group i a) (u @ r, m) (r, d(i := Some u))"
  by (auto simp: first_way_def)

lemma first_taken: "first_way e s t \<Longrightarrow> first_way (Opt e) s t"
  by (auto simp: first_way_def Opt_def)

lemma first_skipped: "ways e s = [] \<Longrightarrow> first_way (Opt e) s s"
  by (simp add: first_way_def Opt_def)

lemma repeat_first:
  assumes "\<And>w s. w \<in> set ws \<Longrightarrow> \<exists>rest. f (w @ s, m) = (s, m) # rest"
    and "lo \<le> length ws" and "length ws \<le> n" and "length ws = n \<or> f (r, m) = []"
  shows "\<exists>rest. repeat_ways f n lo (concat ws @ r, m) = (r, m) # rest"
  using assms
proof (induction ws arbitrary: n lo)
  case Nil
  then show ?case by (cases n) auto
next
  case (Cons w ws)
  then obtain k where n: "n = Suc k" by (cases n) auto
  obtain rest where "f (w @ concat ws @ r, m) = (concat ws @ r, m) # rest" using Cons.prems(1) by fastforce
  moreover have "\<exists>rest. repeat_ways f k (lo - 1) (concat ws @ r, m) = (r, m) # rest"
    using Cons.prems n by (intro Cons.IH) auto
  ultimately show ?case using n by auto
qed

lemma first_Rep:
  assumes "\<And>w s. w \<in> set ws \<Longrightarrow> first_way a (w @ s, m) (s, m)"
    and "lo \<le> length ws" and "length ws \<le> (case hi of Some n \<Rightarrow> n | None \<Rightarrow> length (concat ws @ r))"
    and "hi = Some (length ws) \<or> ways a (r, m) = []"
  shows "first_way (Rep lo hi a) (concat ws @ r, m) (r, m)"
proof -
  define n where "n = (case hi of Some n \<Rightarrow> n | None \<Rightarrow> length (concat ws @ r))"
  have "length ws = n \<or> ways a (r, m) = []" using assms(4) by (auto simp: n_def)
  with repeat_first [of ws "ways a" m lo n r] assms(1-3)
  show ?thesis unfolding first_way_def ways.simps(4) fst_conv n_def by blast
qed

text \<open>A run of characters of a class ends where the next character is not in the class.\<close>

lemma first_class:
  assumes "list_all p u" and "lo \<le> length u" and "case hi of Some n \<Rightarrow> length u \<le> n | None \<Rightarrow> True"
    and "case r of [] \<Rightarrow> True | c # _ \<Rightarrow> \<not> p c"
  shows "first_way (Rep lo hi (Chars p)) (u @ r, m) (r, m)"
proof -
  let ?ws = "map (\<lambda>c. [c]) u"
  have u: "concat ?ws = u" by (induction u) auto
  have "first_way (Rep lo hi (Chars p)) (concat ?ws @ r, m) (r, m)"
  proof (rule first_Rep)
    show "first_way (Chars p) (w @ s, m) (s, m)" if "w \<in> set ?ws" for w s
      using that assms(1) by (auto simp: list_all_iff first_Chars)
    show "hi = Some (length ?ws) \<or> ways (Chars p) (r, m) = []" using assms(4) by (cases r) auto
  qed (use assms(2,3) in \<open>auto simp: u split: option.splits\<close>)
  then show ?thesis by (simp only: u)
qed

lemma first_Lit1: "first_way (Lit [c]) (c # r, m) (r, m)"
  by (simp add: Lit_def first_Chars)

subsection \<open>Texts that do not match\<close>

primrec alphabet :: "rx \<Rightarrow> char \<Rightarrow> bool" where
  "alphabet (Chars p) c = p c"
| "alphabet (Seq a b) c = (alphabet a c \<or> alphabet b c)"
| "alphabet (Alt a b) c = (alphabet a c \<or> alphabet b c)"
| "alphabet (Rep lo hi a) c = alphabet a c"
| "alphabet (Group i a) c = alphabet a c"

lemma lang_alphabet: "w \<in> lang e \<Longrightarrow> c \<in> set w \<Longrightarrow> alphabet e c"
proof (induction e arbitrary: w)
  case (Rep lo hi a)
  then obtain ws where "w = concat ws" "set ws \<subseteq> lang a" by auto
  then show ?case using Rep by auto
next
  case (Seq a b)
  then show ?case by (fastforce simp: conc_def)
qed auto

lemma no_match: "solid e \<Longrightarrow> c \<in> set s \<Longrightarrow> \<not> alphabet e c \<Longrightarrow> regex_match e s = None"
  using regex_match_lang [of e s] lang_alphabet by blast

lemma no_ways:
  assumes "solid e" and "\<And>u r. u \<in> lang e \<Longrightarrow> s = u @ r \<Longrightarrow> False"
  shows "ways e (s, m) = []"
proof -
  have "x \<notin> set (ways e (s, m))" for x
    using exploresD [OF explores_ways [OF assms(1)], of "fst x" s m] assms(2) by (cases x) auto
  then show ?thesis by (cases "ways e (s, m)") auto
qed

definition digits :: "string \<Rightarrow> bool" where
  "digits = list_all (is_digit 10)"

lemma lang_digits: "lang (Rep lo hi rx_digit) =
   {w. digits w \<and> lo \<le> length w \<and> (case hi of Some n \<Rightarrow> length w \<le> n | None \<Rightarrow> True)}"
proof (intro equalityI subsetI)
  fix w assume "w \<in> lang (Rep lo hi rx_digit)"
  then obtain ws where ws: "w = concat ws" "lo \<le> length ws" "set ws \<subseteq> {[c] | c. is_digit 10 c}"
    "case hi of Some n \<Rightarrow> length ws \<le> n | None \<Rightarrow> True"
    by (auto simp: rx_digit_def)
  have "set ws \<subseteq> {[c] | c. is_digit 10 c} \<Longrightarrow> digits (concat ws) \<and> length (concat ws) = length ws"
    by (induction ws) (auto simp: digits_def)
  then show "w \<in> {w. digits w \<and> lo \<le> length w \<and> (case hi of Some n \<Rightarrow> length w \<le> n | None \<Rightarrow> True)}"
    using ws by (cases hi) auto
next
  fix w assume w: "w \<in> {w. digits w \<and> lo \<le> length w \<and> (case hi of Some n \<Rightarrow> length w \<le> n | None \<Rightarrow> True)}"
  have "w = concat (map (\<lambda>c. [c]) w)" by (induction w) auto
  moreover have "set (map (\<lambda>c. [c]) w) \<subseteq> {[c] | c. is_digit 10 c}"
    using w by (auto simp: digits_def list_all_iff)
  moreover have "lo \<le> length (map (\<lambda>c. [c]) w)" "case hi of Some n \<Rightarrow> length (map (\<lambda>c. [c]) w) \<le> n | None \<Rightarrow> True"
    using w by (cases hi; simp)+
  ultimately show "w \<in> lang (Rep lo hi rx_digit)"
    unfolding rx_digit_def lang.simps by blast
qed

lemma lang_Lit1: "lang (Lit [c]) = {[c]}"
  by (auto simp: Lit_def)

lemma digits_no_colon: "digits w \<Longrightarrow> CHR '':'' \<notin> set w"
  by (auto simp: digits_def list_all_iff is_digit_def digit_val_def)

text \<open>The texts of a server: the four bytes of its address and its port.\<close>

definition dotted :: "nat \<times> nat \<times> nat \<times> nat \<Rightarrow> string" where
  "dotted ip = (case ip of (a, b, c, d) \<Rightarrow> dec a @ ''.'' @ dec b @ ''.'' @ dec c @ ''.'' @ dec d)"

definition byte_address :: "nat \<times> nat \<times> nat \<times> nat \<Rightarrow> bool" where
  "byte_address ip \<longleftrightarrow> (case ip of (a, b, c, d) \<Rightarrow> a < 256 \<and> b < 256 \<and> c < 256 \<and> d < 256)"

lemma digit_is_digit: "n < 10 \<Longrightarrow> digit_val (digit n) = Some n"
  by (simp add: digit_val_def of_char_digit)

lemma digits_dec: "digits (dec n)"
proof (induction n rule: dec.induct)
  case (1 n)
  have d: "is_digit 10 (digit m)" if "m < 10" for m
    using digit_is_digit [OF that] that by (simp add: is_digit_def)
  show ?case using 1 d [of n] d [of "n mod 10"] by (subst dec.simps) (auto simp: digits_def)
qed

lemma digits_value_dec: "digits_value 10 (dec n) = n"
proof (induction n rule: dec.induct)
  case (1 n)
  show ?case using 1 digit_is_digit [of n] digit_is_digit [of "n mod 10"]
    by (subst dec.simps) (auto simp: digits_value_def)
qed

lemma dec_nonempty: "dec n \<noteq> []"
  by (subst dec.simps) simp

lemma dec_length: "n < 256 \<Longrightarrow> length (dec n) \<le> 3"
proof -
  assume n: "n < 256"
  have one: "m < 10 \<Longrightarrow> length (dec m) = 1" for m by (subst dec.simps) simp
  have two: "m < 100 \<Longrightarrow> length (dec m) \<le> 2" for m using one [of "m div 10"] one [of m] by (subst dec.simps) auto
  show ?thesis using two [of "n div 10"] n by (subst dec.simps) auto
qed

lemma split_on_no_sep: "sep \<notin> set s \<Longrightarrow> split_on sep s = [s]"
  by (induction s) auto

lemma split_on_sep: "sep \<notin> set s \<Longrightarrow> split_on sep (s @ sep # t) = s # split_on sep t"
  by (induction s) auto

fun join_with :: "char \<Rightarrow> string list \<Rightarrow> string" where
  "join_with sep [] = []"
| "join_with sep [s] = s"
| "join_with sep (s # ss) = s @ sep # join_with sep ss"

lemma split_join: "list_all (\<lambda>s. sep \<notin> set s) ss \<Longrightarrow> ss \<noteq> [] \<Longrightarrow> split_on sep (join_with sep ss) = ss"
  by (induction sep ss rule: join_with.induct) (auto simp: split_on_no_sep split_on_sep)

lemma no_semicolon: "digits w \<Longrightarrow> CHR '';'' \<notin> set w"
  by (auto simp: digits_def list_all_iff is_digit_def digit_val_def)

subsection \<open>Servers\<close>

text \<open>
  The forms of a server: an IPv4 address, an IPv6 address in brackets by its groups, a host name, and an
  address or a name with its protocol; the port may be left out. An entry may be empty.
\<close>

datatype server_name = Ip4 "nat \<times> nat \<times> nat \<times> nat" | Ip6 "string list" | Host string | Via locator_kind string

fun protocol_text :: "locator_kind \<Rightarrow> string" where
  "protocol_text LocUDPv4 = ''UDPv4''"
| "protocol_text LocUDPv6 = ''UDPv6''"
| "protocol_text LocTCPv4 = ''TCPv4''"
| "protocol_text LocTCPv6 = ''TCPv6''"
| "protocol_text _ = []"

fun name_text :: "server_name \<Rightarrow> string" where
  "name_text (Ip4 ip) = dotted ip"
| "name_text (Ip6 groups) = ''['' @ join_with (CHR '':'') groups @ '']''"
| "name_text (Host h) = h"
| "name_text (Via k h) = protocol_text k @ '':['' @ h @ '']''"

definition port_part :: "nat option \<Rightarrow> string" where
  "port_part port = (case port of None \<Rightarrow> [] | Some n \<Rightarrow> '':'' @ dec n)"

definition server_text :: "server_name \<times> nat option \<Rightarrow> string" where
  "server_text s = name_text (fst s) @ port_part (snd s)"

text \<open>A number below 420 is a domain id.\<close>

definition server_port :: "nat option \<Rightarrow> u32" where
  "server_port port = (case port of None \<Rightarrow> 11811
     | Some n \<Rightarrow> if n < 420 then of_nat (7402 + 250 * n) else of_nat n)"

fun name_locator :: "server_name \<Rightarrow> locator_kind \<times> string" where
  "name_locator (Ip4 ip) = (LocUDPv4, dotted ip)"
| "name_locator (Ip6 groups) = (LocUDPv6, join_with (CHR '':'') groups)"
| "name_locator (Host h) = (LocUDPv4, h)"
| "name_locator (Via k h) = (k, h)"

definition server_locator :: "server_name \<times> nat option \<Rightarrow> locator" where
  "server_locator s = \<lparr>loc_kind = fst (name_locator (fst s)), loc_address = snd (name_locator (fst s)),
     loc_port = server_port (snd s)\<rparr>"

definition host_char :: "char \<Rightarrow> bool" where
  "host_char c \<longleftrightarrow> is_word c \<or> c \<in> set ''.-''"

text \<open>
  A host name is not read as an address: it has a character that no IPv4 address has and one that is no
  hexadecimal digit (\<open>cafe:11811\<close> is read as an IPv6 address).
\<close>

fun name_ok :: "server_name \<Rightarrow> bool" where
  "name_ok (Ip4 ip) \<longleftrightarrow> byte_address ip"
| "name_ok (Ip6 groups) \<longleftrightarrow> 2 \<le> length groups \<and> length groups \<le> 8 \<and>
     list_all (\<lambda>g. length g \<le> 4 \<and> list_all (is_digit 16) g) groups"
| "name_ok (Host h) \<longleftrightarrow> h \<noteq> [] \<and> length h \<le> 63 \<and> list_all host_char h \<and>
     list_ex (\<lambda>c. \<not> is_digit 10 c \<and> c \<noteq> CHR ''.'') h \<and> list_ex (\<lambda>c. \<not> is_digit 16 c) h"
| "name_ok (Via k h) \<longleftrightarrow> k \<in> {LocUDPv4, LocUDPv6, LocTCPv4, LocTCPv6} \<and> length h \<le> 63 \<and>
     list_all (\<lambda>c. host_char c \<or> c = CHR '':'') h"

definition server_ok :: "server_name \<times> nat option \<Rightarrow> bool" where
  "server_ok s \<longleftrightarrow> name_ok (fst s) \<and> (case snd s of None \<Rightarrow> True | Some n \<Rightarrow> n < 65536)"

subsection \<open>The port\<close>

lemma solids: "solid rx_ipv4" "solid rx_ipv6" "solid rx_named" "solid rx_protocol"
  by (simp_all add: rx_ipv4_def rx_ipv6_def rx_named_def rx_protocol_def rx_port_def Opt_def Lit_def
      rx_digit_def rx_hex_def)

definition port_taken :: "nat option \<Rightarrow> captures \<Rightarrow> captures" where
  "port_taken port m = (case port of None \<Rightarrow> m | Some n \<Rightarrow> m(2 := Some (dec n)))"

lemma first_port: "first_way rx_port (port_part port, m) ([], port_taken port m)"
proof (cases port)
  case None
  then show ?thesis
    by (simp add: first_way_def rx_port_def port_part_def port_taken_def Opt_def Lit_def rx_digit_def)
next
  case (Some n)
  have "first_way (Opt (Lit '':'')) ('':'' @ dec n, m) (dec n, m)"
    using first_taken [OF first_Lit1 [of "CHR '':''" "dec n" m]] by simp
  moreover have "first_way (Rep 1 None rx_digit) (dec n @ [], m) ([], m)"
    unfolding rx_digit_def using digits_dec dec_nonempty [of n]
    by (intro first_class) (auto simp: digits_def Suc_le_eq)
  then have "first_way (Opt (Group 2 (Rep 1 None rx_digit))) (dec n @ [], m) ([], m(2 := Some (dec n)))"
    by (intro first_taken first_Group)
  ultimately show ?thesis unfolding rx_port_def by (auto simp: Some port_part_def port_taken_def intro: first_Seq)
qed

lemma to_port_part:
  assumes "case port of None \<Rightarrow> True | Some n \<Rightarrow> n < 65536" and "m 2 = None"
  shows "to_port (capture (port_taken port m) 2) (loc_port server0) = Some (server_port port)"
  using assms by (cases port)
    (auto simp: to_port_def capture_def port_taken_def server_port_def server0_def digits_value_dec dec_nonempty)

text \<open>What stands after an address is the port, or nothing.\<close>

lemma port_part_head: "case port_part port of [] \<Rightarrow> True | c # _ \<Rightarrow> c = CHR '':''"
  by (simp add: port_part_def split: option.split)

lemma port_part_chars: "c \<in> set (port_part port) \<Longrightarrow> is_digit 10 c \<or> c = CHR '':''"
  using digits_dec by (auto simp: port_part_def digits_def list_all_iff split: option.splits)

lemma class_before_port:
  assumes "list_all p u" "lo \<le> length u" "case hi of Some n \<Rightarrow> length u \<le> n | None \<Rightarrow> True" "\<not> p (CHR '':'')"
  shows "first_way (Rep lo hi (Chars p)) (u @ port_part port, m) (port_part port, m)"
  by (rule first_class [OF assms(1-3)]) (use port_part_head [of port] assms(4) in \<open>auto split: list.splits\<close>)

subsection \<open>IPv4 addresses\<close>

lemma first_octet_dot:
  assumes "n < 256"
  shows "first_way (Seq (Rep 1 (Some 3) rx_digit) (Lit ''.'')) ((dec n @ ''.'') @ s, m) (s, m)"
proof (rule first_Seq)
  show "first_way (Rep 1 (Some 3) rx_digit) ((dec n @ ''.'') @ s, m) (''.'' @ s, m)"
    unfolding rx_digit_def append_assoc using digits_dec dec_nonempty [of n] dec_length [OF assms]
    by (intro first_class) (auto simp: digits_def Suc_le_eq is_digit_def digit_val_def)
  show "first_way (Lit ''.'') (''.'' @ s, m) (s, m)" using first_Lit1 by simp
qed

lemma first_ipv4:
  assumes "byte_address ip"
  shows "first_way rx_ipv4 (dotted ip @ port_part port, m) ([], port_taken port (m(1 := Some (dotted ip))))"
proof -
  obtain a b c d where ip: "ip = (a, b, c, d)" by (cases ip)
  have lt: "a < 256" "b < 256" "c < 256" "d < 256" using assms by (simp_all add: byte_address_def ip)
  let ?ws = "[dec a @ ''.'', dec b @ ''.'', dec c @ ''.'']" and ?p = "port_part port"
  have shape: "dotted ip = concat ?ws @ dec d" by (simp add: dotted_def ip)
  have "first_way (Rep 3 (Some 3) (Seq (Rep 1 (Some 3) rx_digit) (Lit ''.'')))
      (concat ?ws @ dec d @ ?p, m) (dec d @ ?p, m)"
    using lt by (intro first_Rep) (auto intro: first_octet_dot simp del: append_assoc One_nat_def)
  moreover have "first_way (Rep 1 (Some 3) rx_digit) (dec d @ ?p, m) (?p, m)"
    unfolding rx_digit_def using digits_dec dec_nonempty [of d] dec_length [OF lt(4)]
    by (intro class_before_port) (auto simp: digits_def Suc_le_eq is_digit_def digit_val_def)
  ultimately have "first_way (Seq (Rep 3 (Some 3) (Seq (Rep 1 (Some 3) rx_digit) (Lit ''.'')))
      (Rep 1 (Some 3) rx_digit)) (dotted ip @ ?p, m) (?p, m)"
    unfolding shape append_assoc by (rule first_Seq)
  then show ?thesis unfolding rx_ipv4_def by (intro first_Seq [OF first_taken [OF first_Group] first_port])
qed

subsection \<open>IPv6 addresses\<close>

abbreviation rx_group_colon :: rx where
  "rx_group_colon \<equiv> Seq (Rep 0 (Some 4) rx_hex) (Lit '':'')"

lemma colon_no_hex: "\<not> is_digit 16 (CHR '':'')" "\<not> is_digit 16 (CHR '']'')" "\<not> is_digit 10 (CHR '':'')"
  by (simp_all add: is_digit_def digit_val_def)

lemma first_group_colon:
  assumes "length g \<le> 4" "list_all (is_digit 16) g"
  shows "first_way rx_group_colon ((g @ '':'') @ s, m) (s, m)"
proof (rule first_Seq)
  show "first_way (Rep 0 (Some 4) rx_hex) ((g @ '':'') @ s, m) ('':'' @ s, m)"
    unfolding rx_hex_def append_assoc using assms colon_no_hex by (intro first_class) auto
  show "first_way (Lit '':'') ('':'' @ s, m) (s, m)" using first_Lit1 by simp
qed

lemma lang_class: "u \<in> lang (Rep lo hi (Chars p)) \<Longrightarrow> list_all p u"
  by (fastforce simp: list_all_iff)

lemma no_group_colon:
  assumes "list_all (is_digit 16) g"
  shows "ways rx_group_colon (g @ '']'' @ s, m) = []"
proof (rule no_ways)
  fix u r
  assume "u \<in> lang rx_group_colon" and eq: "g @ '']'' @ s = u @ r"
  then obtain h where h: "list_all (is_digit 16) h" "u = h @ '':''"
    using lang_class [of _ 0 "Some 4" "is_digit 16"] by (auto simp: rx_hex_def conc_def lang_Lit1 simp del: lang.simps(4))
  have "dropWhile (is_digit 16) (k @ c # t) = c # t" if "list_all (is_digit 16) k" "\<not> is_digit 16 c" for k c t
    using that by (induction k) auto
  then have "dropWhile (is_digit 16) (g @ '']'' @ s) = '']'' @ s" "dropWhile (is_digit 16) (u @ r) = '':'' @ r"
    using assms h colon_no_hex by simp_all
  then show False using eq by simp
qed (simp add: rx_hex_def Lit_def)

lemma join_groups: "gs \<noteq> [] \<Longrightarrow> join_with c (gs @ [g]) = concat (map (\<lambda>g. g @ [c]) gs) @ g"
proof (induction gs)
  case (Cons h gs)
  then show ?case by (cases gs) auto
qed simp

lemma first_ipv6:
  assumes "name_ok (Ip6 groups)"
  shows "first_way rx_ipv6 (name_text (Ip6 groups) @ port_part port, m)
    ([], port_taken port (m(1 := Some (join_with (CHR '':'') groups))))"
proof -
  obtain gs g where groups: "groups = gs @ [g]" using assms by (cases groups rule: rev_cases) auto
  have gs: "gs \<noteq> []" "1 \<le> length gs" "length gs \<le> 7" "\<And>h. h \<in> set gs \<Longrightarrow> length h \<le> 4 \<and> list_all (is_digit 16) h"
    and g: "length g \<le> 4" "list_all (is_digit 16) g"
    using assms by (auto simp: groups list_all_iff Suc_le_eq)
  let ?a = "join_with (CHR '':'') groups" and ?r = "'']'' @ port_part port"
  have a: "?a = concat (map (\<lambda>g. g @ '':'') gs) @ g" by (simp add: groups join_groups [OF gs(1)])
  have "first_way (Rep 1 (Some 7) rx_group_colon) (concat (map (\<lambda>g. g @ '':'') gs) @ g @ ?r, m) (g @ ?r, m)"
    using gs no_group_colon [OF g(2)]
    by (intro first_Rep) (auto intro: first_group_colon simp del: append_assoc One_nat_def)
  moreover have "first_way (Rep 0 (Some 4) rx_hex) (g @ ?r, m) (?r, m)"
    unfolding rx_hex_def using g colon_no_hex by (intro first_class) auto
  ultimately have "first_way (Seq (Rep 1 (Some 7) rx_group_colon) (Rep 0 (Some 4) rx_hex)) (?a @ ?r, m) (?r, m)"
    unfolding a append_assoc by (rule first_Seq)
  then have address: "first_way (Group 1 (Seq (Rep 1 (Some 7) rx_group_colon) (Rep 0 (Some 4) rx_hex)))
      (?a @ ?r, m) (?r, m(1 := Some ?a))" by (rule first_Group)
  have "first_way (Opt (Lit ''['')) (''['' @ ?a @ ?r, m) (?a @ ?r, m)" "first_way (Opt (Lit '']'')) (?r, d) (port_part port, d)" for d
    using first_taken [OF first_Lit1] by simp_all
  then have "first_way rx_ipv6 (''['' @ ?a @ ?r, m) ([], port_taken port (m(1 := Some ?a)))"
    unfolding rx_ipv6_def by (intro first_Seq [OF _ first_Seq [OF address first_Seq [OF _ first_port]]])
  then show ?thesis by simp
qed

subsection \<open>Names\<close>

lemma class_of_host: "(\<lambda>c. is_word c \<or> c \<in> set ''.-'') = host_char"
  "(\<lambda>c. is_word c \<or> c \<in> set ''.:-'') = (\<lambda>c. host_char c \<or> c = CHR '':'')"
  by (auto simp: host_char_def)

lemma no_host_chars: "\<not> host_char (CHR '':'')" "\<not> host_char (CHR ''['')" "\<not> host_char (CHR '']'')" "\<not> host_char (CHR '';'')"
  by (simp_all add: host_char_def is_word_def is_digit_def digit_val_def)

abbreviation rx_bracketed :: rx where
  "rx_bracketed \<equiv> Seq rx_protocol (Seq (Lit '':['') (Seq (Rep 0 (Some 63) (Chars (\<lambda>c. host_char c \<or> c = CHR '':''))) (Lit '']'')))"

lemma rx_named_eq: "rx_named = Seq (Group 1 (Alt rx_bracketed (Rep 1 (Some 63) (Chars host_char)))) rx_port"
  unfolding rx_named_def class_of_host ..

lemma concE: "w \<in> conc L M \<Longrightarrow> (\<And>u v. w = u @ v \<Longrightarrow> u \<in> L \<Longrightarrow> v \<in> M \<Longrightarrow> thesis) \<Longrightarrow> thesis"
  unfolding conc_def by blast

lemma bracket_in:
  assumes "u \<in> lang rx_bracketed"
  shows "CHR ''['' \<in> set u"
proof -
  from assms obtain v w where w: "u = v @ w"
    "w \<in> conc (lang (Lit '':['')) (lang (Seq (Rep 0 (Some 63) (Chars (\<lambda>c. host_char c \<or> c = CHR '':''))) (Lit '']'')))"
    unfolding lang.simps(2) by (rule concE)
  from w(2) obtain x y where "w = x @ y" "x \<in> lang (Lit '':['')" by (rule concE)
  moreover have "lang (Lit '':['') = {'':[''}" by (auto simp: Lit_def conc_def)
  ultimately show ?thesis using w(1) by simp
qed

lemma first_host:
  assumes "name_ok (Host h)"
  shows "first_way rx_named (h @ port_part port, m) ([], port_taken port (m(1 := Some h)))"
proof -
  have "CHR ''['' \<notin> set h" using assms no_host_chars by (auto simp: list_all_iff)
  then have no: "CHR ''['' \<notin> set (h @ port_part port)" using port_part_chars [of "CHR ''[''" port]
    by (auto simp: is_digit_def digit_val_def)
  have "ways rx_bracketed (h @ port_part port, m) = []"
  proof (rule no_ways)
    fix u r assume "u \<in> lang rx_bracketed" and eq: "h @ port_part port = u @ r"
    from bracket_in [OF this(1)] show False using no unfolding eq by simp
  qed (use solids(4) in \<open>simp add: Lit_def\<close>)
  moreover have "first_way (Rep 1 (Some 63) (Chars host_char)) (h @ port_part port, m) (port_part port, m)"
    using assms no_host_chars by (intro class_before_port) (auto simp: Suc_le_eq)
  ultimately show ?thesis unfolding rx_named_eq
    by (intro first_Seq [OF first_Group [OF first_right] first_port])
qed

lemma first_protocol:
  assumes "k \<in> {LocUDPv4, LocUDPv6, LocTCPv4, LocTCPv6}"
  shows "first_way rx_protocol (protocol_text k @ '':'' @ s, m) ('':'' @ s, m)"
  using assms by (auto simp: first_way_def rx_protocol_def Lit_def Opt_def)

lemma first_via:
  assumes "name_ok (Via k h)"
  shows "first_way rx_named (name_text (Via k h) @ port_part port, m)
    ([], port_taken port (m(1 := Some (name_text (Via k h)))))"
proof -
  let ?r = "port_part port"
  have "first_way rx_protocol (protocol_text k @ '':['' @ h @ '']'' @ ?r, m) ('':['' @ h @ '']'' @ ?r, m)"
    using first_protocol [of k "''['' @ h @ '']'' @ ?r" m] assms by simp
  moreover have "first_way (Lit '':['') ('':['' @ h @ '']'' @ ?r, m) (h @ '']'' @ ?r, m)"
    by (simp add: first_way_def Lit_def)
  moreover have "first_way (Rep 0 (Some 63) (Chars (\<lambda>c. host_char c \<or> c = CHR '':''))) (h @ '']'' @ ?r, m) ('']'' @ ?r, m)"
    using assms no_host_chars by (intro first_class) auto
  moreover have "first_way (Lit '']'') ('']'' @ ?r, m) (?r, m)" using first_Lit1 by simp
  ultimately have "first_way rx_bracketed (name_text (Via k h) @ ?r, m) (?r, m)"
    unfolding name_text.simps append_assoc by (intro first_Seq)
  then show ?thesis unfolding rx_named_eq by (intro first_Seq [OF first_Group [OF first_left] first_port])
qed

subsection \<open>An entry\<close>

lemma not_ipv4: "c \<in> set s \<Longrightarrow> \<not> is_digit 10 c \<Longrightarrow> c \<noteq> CHR ''.'' \<Longrightarrow> c \<noteq> CHR '':'' \<Longrightarrow> regex_match rx_ipv4 s = None"
  using solids(1) by (rule no_match) (simp_all add: rx_ipv4_def rx_port_def rx_digit_def Opt_def Lit_def)

lemma digit_10_16: "is_digit 10 c \<Longrightarrow> is_digit 16 c"
  by (auto simp: is_digit_def split: option.splits)

lemma not_ipv6:
  "c \<in> set s \<Longrightarrow> \<not> is_digit 16 c \<Longrightarrow> c \<notin> set ''[]:'' \<Longrightarrow> regex_match rx_ipv6 s = None"
  using solids(2) by (rule no_match)
    (use digit_10_16 in \<open>auto simp: rx_ipv6_def rx_port_def rx_digit_def rx_hex_def Opt_def Lit_def\<close>)

lemma entry_nonempty: "name_ok n \<Longrightarrow> name_text n @ port_part port \<noteq> []"
  by (cases n) (auto simp: dotted_def split: prod.splits)

lemma kind_of_protocol: "k \<in> {LocUDPv4, LocUDPv6, LocTCPv4, LocTCPv6} \<Longrightarrow> kind_of_proto (protocol_text k) = k"
  by (auto simp: kind_of_proto_def)

lemma server_entry_text:
  assumes "server_ok s"
  shows "server_entry (server_text s) = Some (server_locator s)"
proof -
  obtain n port where s: "s = (n, port)" by (cases s)
  have ok: "name_ok n" and port: "case port of None \<Rightarrow> True | Some n \<Rightarrow> n < 65536"
    using assms by (simp_all add: server_ok_def s)
  let ?t = "name_text n @ port_part port"
  have taken: "capture (port_taken port ((\<lambda>_. None)(1 := x))) 1 = (case x of None \<Rightarrow> [] | Some t \<Rightarrow> t)"
      "port_taken port ((\<lambda>_. None)(1 := x)) 1 = x" for x :: "string option"
    by (simp_all add: capture_def port_taken_def split: option.split)
  note port' = to_port_part [OF port, of "(\<lambda>_. None)(1 := x)" for x, simplified]
  have "server_entry ?t = Some (server_locator (n, port))"
  proof (cases n)
    case (Ip4 ip)
    then have "regex_match rx_ipv4 ?t = Some (port_taken port ((\<lambda>_. None)(1 := Some (dotted ip))))"
      using first_match [OF first_ipv4] ok by simp
    then show ?thesis using Ip4 entry_nonempty [OF ok] taken port'
      by (simp add: server_entry_def server_locator_def server0_def)
  next
    case (Ip6 groups)
    have "regex_match rx_ipv4 ?t = None" by (rule not_ipv4 [of "CHR ''[''"]) (simp_all add: Ip6 is_digit_def digit_val_def)
    moreover have "regex_match rx_ipv6 ?t = Some (port_taken port ((\<lambda>_. None)(1 := Some (join_with (CHR '':'') groups))))"
      using first_match [OF first_ipv6] ok Ip6 by simp
    ultimately show ?thesis using Ip6 entry_nonempty [OF ok] taken port'
      by (simp add: server_entry_def server_locator_def server0_def)
  next
    case (Host h)
    obtain c d where c: "c \<in> set h" "\<not> is_digit 10 c" "c \<noteq> CHR ''.''" and d: "d \<in> set h" "\<not> is_digit 16 d"
      using ok Host by (auto simp: list_ex_iff)
    have no: "CHR '':'' \<notin> set h" "CHR ''['' \<notin> set h" "CHR '']'' \<notin> set h"
      using ok Host no_host_chars by (auto simp: list_all_iff)
    have "regex_match rx_ipv4 ?t = None" using c no by (intro not_ipv4 [of c]) (auto simp: Host)
    moreover have "regex_match rx_ipv6 ?t = None" using d no by (intro not_ipv6 [of d]) (auto simp: Host)
    moreover have "regex_match rx_named ?t = Some (port_taken port ((\<lambda>_. None)(1 := Some h)))"
      using first_match [OF first_host] ok Host by simp
    moreover have "find_sub '':['' h = None" using no(1) by (auto simp: find_sub_None)
    ultimately show ?thesis using Host entry_nonempty [OF ok] taken port'
      by (simp add: server_entry_def named_server_def server_locator_def server0_def)
  next
    case (Via k h)
    have k: "k \<in> {LocUDPv4, LocUDPv6, LocTCPv4, LocTCPv6}" using ok Via by simp
    then have v: "CHR ''v'' \<in> set ?t" by (auto simp: Via)
    have "regex_match rx_ipv4 ?t = None" using v by (rule not_ipv4) (simp_all add: is_digit_def digit_val_def)
    moreover have "regex_match rx_ipv6 ?t = None" using v by (rule not_ipv6) (simp_all add: is_digit_def digit_val_def)
    moreover have "regex_match rx_named ?t = Some (port_taken port ((\<lambda>_. None)(1 := Some (name_text n))))"
      using first_match [OF first_via] ok Via by simp
    moreover have "find_sub '':['' (name_text n) = Some (length (protocol_text k))"
      using k by (auto simp: Via starts_with_def)
    ultimately show ?thesis using Via entry_nonempty [OF ok] taken port' kind_of_protocol [OF k]
      by (simp add: server_entry_def named_server_def server_locator_def server0_def substr_def)
  qed
  then show ?thesis by (simp add: s server_text_def)
qed

lemma text_no_semicolon: "server_ok s \<Longrightarrow> CHR '';'' \<notin> set (server_text s)"
proof -
  assume ok: "server_ok s"
  have bytes: "CHR '';'' \<notin> set (dotted ip)" for ip
    using no_semicolon [OF digits_dec] by (simp add: dotted_def split: prod.split)
  have groups: "CHR '';'' \<notin> set (join_with (CHR '':'') gs)" if "\<forall>g \<in> set gs. CHR '';'' \<notin> set g" for gs
    using that by (induction "CHR '':''" gs rule: join_with.induct) auto
  have hex: "list_all (is_digit 16) g \<Longrightarrow> CHR '';'' \<notin> set g" for g
    by (auto simp: list_all_iff is_digit_def digit_val_def)
  have "CHR '';'' \<notin> set (name_text (fst s))"
  proof (cases "fst s")
    case (Ip6 gs)
    then have "\<forall>g \<in> set gs. CHR '';'' \<notin> set g" using ok hex by (auto simp: server_ok_def list_all_iff)
    with groups Ip6 show ?thesis by simp
  next
    case (Via k h)
    then show ?thesis using ok no_host_chars by (auto simp: server_ok_def list_all_iff)
  qed (use ok bytes no_host_chars in \<open>auto simp: server_ok_def list_all_iff\<close>)
  moreover have "CHR '';'' \<notin> set (port_part (snd s))"
    using port_part_chars [of "CHR '';''" "snd s"] by (auto simp: is_digit_def digit_val_def)
  ultimately show ?thesis by (simp add: server_text_def)
qed

text \<open>An empty entry keeps the ids of the servers behind it, and names none.\<close>

definition entry_text :: "(server_name \<times> nat option) option \<Rightarrow> string" where
  "entry_text e = (case e of None \<Rightarrow> [] | Some s \<Rightarrow> server_text s)"

text \<open>
  C37. A list of servers in the forms that \<open>ROS_DISCOVERY_SERVER\<close> takes, separated by semicolons, is read back
  as the locators of these servers in their order: an IPv4 address, an IPv6 address in brackets, a host name
  that cannot be taken for an address, or an address or name in brackets behind its protocol, each with or
  without a port (11811 if there is none, the port of the domain below 420), and empty entries between them.
\<close>

theorem servers_roundtrip:
  assumes "\<forall>e \<in> set entries. case e of None \<Rightarrow> True | Some s \<Rightarrow> server_ok s"
  shows "parse_discovery_server_env (join_with (CHR '';'') (map entry_text entries)) =
    map server_locator (List.map_filter id entries)"
proof (cases "entries = []")
  case True
  then show ?thesis by (simp add: parse_discovery_server_env_def server_entry_def List.map_filter_simps)
next
  case False
  have "split_on (CHR '';'') (join_with (CHR '';'') (map entry_text entries)) = map entry_text entries"
    using assms text_no_semicolon False
    by (intro split_join) (auto simp: list_all_iff entry_text_def split: option.splits)
  moreover have "List.map_filter server_entry (map entry_text entries) = map server_locator (List.map_filter id entries)"
    using assms
  proof (induction entries)
    case (Cons e entries)
    moreover have "server_entry [] = None" by (simp add: server_entry_def)
    ultimately show ?case
      by (cases e) (simp_all add: entry_text_def server_entry_text List.map_filter_simps)
  qed (simp add: List.map_filter_simps)
  ultimately show ?thesis by (simp add: parse_discovery_server_env_def)
qed

theorem servers_roundtrip_witness:
  "parse_discovery_server_env (join_with (CHR '';'') (map entry_text
     [None, Some (Host ''server.local'', Some 11811), Some (Via LocTCPv4 ''10.0.0.5'', Some 42100),
      Some (Ip6 [''fe80'', [], ''1''], None), Some (Ip4 (10, 0, 0, 2), Some 7)])) =
   map server_locator [(Host ''server.local'', Some 11811), (Via LocTCPv4 ''10.0.0.5'', Some 42100),
     (Ip6 [''fe80'', [], ''1''], None), (Ip4 (10, 0, 0, 2), Some 7)]"
proof -
  have "\<forall>e \<in> set [None, Some (Host ''server.local'', Some 11811), Some (Via LocTCPv4 ''10.0.0.5'', Some 42100),
      Some (Ip6 [''fe80'', [], ''1''], None), Some (Ip4 (10, 0, 0, 2), Some 7)].
      case e of None \<Rightarrow> True | Some s \<Rightarrow> server_ok s"
    by (simp add: server_ok_def byte_address_def host_char_def is_word_def is_digit_def digit_val_def of_char_def)
  from servers_roundtrip [OF this] show ?thesis by (simp add: List.map_filter_simps)
qed

text \<open>
  A number below 420 is read as a domain id, also where the port of that domain is none: of the
  domains from 233 on it is larger than any UDP port.
\<close>

theorem server_port_too_large:
  "to_port ''232'' 11811 = Some 65402 \<and> to_port ''233'' 11811 = Some 65652 \<and> to_port ''65652'' 11811 = None"
  by (simp add: to_port_def digits_value_def digit_val_def of_char_def)

end
