(* ===== verification/Collect.thy ===== *)
theory Collect
  imports Wait Buffer_Links Shm Server_Env
begin

text \<open>
  \<open>collect\<close> of \<open>src/main.cpp\<close>: one frame of the observation, from the observers to the snapshot that is
  rendered. The endpoints get their node and host names, the shared memory of this environment is
  scanned for their ports, the participants are completed and put into the order of their prefixes,
  the endpoints of the view are summarized, and the statistics are applied. What the process reads of
  its surroundings (environment variables, the interfaces of the host, the resolver of host names, the
  clock, \<open>/dev/shm\<close> and \<open>/proc\<close>, \<open>std::regex_search\<close>) is the parameter \<open>surroundings\<close>.
\<close>

record surroundings =
  su_getenv :: "string \<Rightarrow> string option"
  su_own_prefixes :: "string set"
  su_local_addresses :: "string set"
  su_is_address :: "bool \<Rightarrow> string \<Rightarrow> bool" \<comment> \<open>\<open>inet_pton\<close>, of IPv6 if \<open>True\<close>\<close>
  su_lookup :: "bool \<Rightarrow> string \<Rightarrow> string option" \<comment> \<open>\<open>getaddrinfo\<close> and \<open>inet_ntop\<close> of its first address\<close>
  su_now_iso8601 :: string
  su_shm :: shm_env
  su_search :: "string \<Rightarrow> string \<Rightarrow> bool" \<comment> \<open>\<open>regex_search(name, pattern)\<close>\<close>
  su_fnmatch :: "string \<Rightarrow> string \<Rightarrow> bool"
  su_sort :: "topic_summary list \<Rightarrow> topic_summary list"

definition participant0 :: participant where
  "participant0 = \<lparr>pt_guid_prefix = [], pt_host_id = replicate 4 0, pt_host_name = [], pt_own = False,
     pt_shm_ports = [], pt_shm_visibility = Unprobed, pt_discovery_protocol = [], pt_name = [],
     pt_vendor = [], pt_metatraffic_locators = [], pt_discovery_server = None\<rparr>"

subsection \<open>How the tool takes part in discovery\<close>

definition env_is_true :: "string \<Rightarrow> bool" where
  "env_is_true value \<longleftrightarrow> map c_lower value = ''true'' \<or> map c_lower value = ''1''"

definition given_env :: "surroundings \<Rightarrow> string \<Rightarrow> string option" where
  "given_env su name = (case su_getenv su name of Some v \<Rightarrow> if v = [] then None else Some v | None \<Rightarrow> None)"

definition resolve_server :: "surroundings \<Rightarrow> locator \<Rightarrow> locator" where
  "resolve_server su l =
     (let v6 = loc_kind l = LocUDPv6 \<or> loc_kind l = LocTCPv6
      in if su_is_address su v6 (loc_address l) then l
         else case su_lookup su v6 (loc_address l) of None \<Rightarrow> l | Some a \<Rightarrow> l\<lparr>loc_address := a\<rparr>)"

definition note_environment :: "surroundings \<Rightarrow> discovery_status \<Rightarrow> discovery_status" where
  "note_environment su d =
     (let d = (case given_env su ''ROS_DISCOVERY_SERVER'' of
            None \<Rightarrow> d
          | Some servers \<Rightarrow> d\<lparr>ds_discovery_server_env := servers,
              ds_discovery_servers := map (resolve_server su) (parse_discovery_server_env servers),
              ds_observer_protocol := (case su_getenv su ''ROS_SUPER_CLIENT'' of
                  Some sc \<Rightarrow> if env_is_true sc then ''SUPER_CLIENT'' else ''CLIENT''
                | None \<Rightarrow> ''CLIENT'')\<rparr>)
      in case given_env su ''ROS2_EASY_MODE'' of
           None \<Rightarrow> d
         | Some em \<Rightarrow> d\<lparr>ds_easy_mode := em, ds_observer_protocol := ''SUPER_CLIENT''\<rparr>)"

subsection \<open>The loop over the endpoints\<close>

type_synonym ports_by = "(string, u32 list) omap" \<comment> \<open>of \<open>std::set\<close>s, ascending\<close>

definition add_port :: "string \<Rightarrow> u32 \<Rightarrow> ports_by \<Rightarrow> ports_by" where
  "add_port prefix port m = om_upd prefix [] (insort_insert port) m"

record gathering =
  ga_node_ports :: "u32 list"
  ga_own_ports :: "u32 set"
  ga_shm_ports :: ports_by
  ga_proof_ports :: ports_by
  ga_participant_ports :: ports_by
  ga_other_hosts :: "string list" \<comment> \<open>a \<open>std::set\<close>, ascending\<close>
  ga_participants :: "(string, participant) omap"
  ga_statistics_writers :: "(string \<times> string) set"
  ga_kept :: "endpoint list"

definition kBuiltinTopic :: string where
  "kBuiltinTopic = ''ros_discovery_info''"

text \<open>The node name of both sources and the host and process of the statistics.\<close>

definition name_endpoint ::
  "graph_resolver \<Rightarrow> node_name_table option \<Rightarrow> stats_data \<Rightarrow> endpoint \<Rightarrow> endpoint" where
  "name_endpoint resolver names stats e =
     (let e = e\<lparr>node_name := merge_node_name (node_for_guid resolver (guid_bytes e))
            (case names of None \<Rightarrow> [] | Some table \<Rightarrow> nt_lookup table (guid_bytes e))\<rparr>
      in case om_get (physical stats) (participant_guid_prefix e) of
           None \<Rightarrow> e
         | Some phys \<Rightarrow> e\<lparr>host_name := hi_host phys, process := hi_process phys\<rparr>)"

definition note_port :: "bool \<Rightarrow> bool \<Rightarrow> endpoint \<Rightarrow> u32 \<Rightarrow> gathering \<Rightarrow> gathering" where
  "note_port ours local e port g =
     (let prefix = participant_guid_prefix e;
          g = (if local then g\<lparr>ga_participant_ports := add_port prefix port (ga_participant_ports g)\<rparr> else g)
      in if ours then g\<lparr>ga_own_ports := insert port (ga_own_ports g)\<rparr>
         else if local then
           g\<lparr>ga_node_ports := insort_insert port (ga_node_ports g),
             ga_shm_ports := add_port prefix port (ga_shm_ports g),
             ga_proof_ports := (if is_writer e \<or> dds_topic e \<noteq> kBuiltinTopic
               then add_port prefix port (ga_proof_ports g) else ga_proof_ports g)\<rparr>
         else g)"

definition shm_unicast_ports :: "endpoint \<Rightarrow> u32 list" where
  "shm_unicast_ports e = map loc_port (filter (\<lambda>l. loc_kind l = LocSHM) (unicast e))"

text \<open>Whether an endpoint of an observed participant belongs to the view.\<close>

definition in_view :: "surroundings \<Rightarrow> options \<Rightarrow> endpoint \<Rightarrow> bool" where
  "in_view su ops e \<longleftrightarrow>
     (op_all ops \<or> ros_topic e \<noteq> [] \<and> starts_with (dds_topic e) ''rt/'')
     \<and> \<not> (dds_topic e = kBuiltinTopic \<or> starts_with (dds_topic e) ''_fastdds_'')
     \<and> (op_topic_regex ops = [] \<or>
        su_search su (if ros_topic e = [] then dds_topic e else ros_topic e) (op_topic_regex ops))"

definition note_participant :: "bool \<Rightarrow> endpoint \<Rightarrow> participant \<Rightarrow> participant" where
  "note_participant ours e p = p\<lparr>pt_guid_prefix := participant_guid_prefix e, pt_host_id := ep_host_id e,
     pt_host_name := host_name e, pt_own := ours\<rparr>"

definition note_endpoint :: "bool \<Rightarrow> endpoint \<Rightarrow> gathering \<Rightarrow> gathering" where
  "note_endpoint ours e g =
     (let prefix = participant_guid_prefix e
      in g\<lparr>ga_statistics_writers := (if is_writer e \<and> starts_with (dds_topic e) ''_fastdds_statistics_''
             then insert (prefix, dds_topic e) (ga_statistics_writers g) else ga_statistics_writers g),
           ga_participants := om_upd prefix participant0 (note_participant ours e) (ga_participants g)\<rparr>)"

definition gather_endpoint ::
  "surroundings \<Rightarrow> options \<Rightarrow> host_id \<Rightarrow> endpoint \<Rightarrow> gathering \<Rightarrow> gathering" where
  "gather_endpoint su ops local_host e g =
     (let prefix = participant_guid_prefix e;
          ours = (prefix \<in> su_own_prefixes su);
          local = (ep_host_id e = local_host);
          g = fold (note_port ours local e) (shm_unicast_ports e) (note_endpoint ours e g)
      in if ours then g
         else g\<lparr>ga_other_hosts := (if local then ga_other_hosts g else insort_insert prefix (ga_other_hosts g)),
                ga_kept := (if in_view su ops e then ga_kept g @ [e] else ga_kept g)\<rparr>)"

text \<open>Every live participant comes first, with what it announced.\<close>

definition announce_participant ::
  "string set \<Rightarrow> string \<times> participant_data \<Rightarrow> (string, participant) omap \<Rightarrow> (string, participant) omap" where
  "announce_participant own kv m = om_upd (fst kv) participant0 (\<lambda>p. p\<lparr>pt_guid_prefix := fst kv,
     pt_host_id := pd_host_id (snd kv), pt_own := (fst kv \<in> own),
     pt_discovery_protocol := pd_discovery_protocol (snd kv), pt_name := pd_name (snd kv),
     pt_vendor := pd_vendor (snd kv), pt_metatraffic_locators := pd_metatraffic_locators (snd kv)\<rparr>) m"

definition gather ::
  "surroundings \<Rightarrow> options \<Rightarrow> host_id \<Rightarrow> (string, participant_data) omap \<Rightarrow> endpoint list \<Rightarrow> stats_data \<Rightarrow> gathering" where
  "gather su ops local_host pdata endpoints stats =
     fold (gather_endpoint su ops local_host) endpoints
       \<lparr>ga_node_ports = [],
        ga_own_ports = (case held_port_locks (su_shm su) ''/proc/self/fd'' of None \<Rightarrow> {} | Some held \<Rightarrow> held),
        ga_shm_ports = [], ga_proof_ports = [], ga_participant_ports = [], ga_other_hosts = [],
        ga_participants = fold (announce_participant (su_own_prefixes su)) pdata [],
        ga_statistics_writers = statistics_writers stats, ga_kept = []\<rparr>"

subsection \<open>Shared memory\<close>

definition scan_input :: "gathering \<Rightarrow> shm_scan_input" where
  "scan_input g =
     (let by_name = (\<lambda>eps. fold (\<lambda>e. om_put (datasharing_segment_name (guid_bytes e)) (guid e)) eps [])
      in \<lparr>si_node_ports = ga_node_ports g, si_own_ports = ga_own_ports g,
          si_other_host_participants = of_nat (length (ga_other_hosts g)),
          si_datasharing_writers = by_name (filter is_writer (ga_kept g)),
          si_datasharing_readers = by_name (filter (\<lambda>e. \<not> is_writer e) (ga_kept g))\<rparr>)"

definition count_ports :: "ports_by \<Rightarrow> (u32, nat) omap" where
  "count_ports m = fold (\<lambda>port. om_upd port 0 Suc) (concat (map snd m)) []"

definition ports_of :: "ports_by \<Rightarrow> string \<Rightarrow> u32 list" where
  "ports_of m prefix = (case om_get m prefix of None \<Rightarrow> [] | Some ps \<Rightarrow> ps)"

definition see_endpoint :: "host_id \<Rightarrow> gathering \<Rightarrow> shm_info \<Rightarrow> endpoint \<Rightarrow> endpoint" where
  "see_endpoint local_host g info e =
     (let e = (case om_get (datasharing_by_writer info) (guid e) of
            None \<Rightarrow> e
          | Some bytes \<Rightarrow> e\<lparr>datasharing_history_available := True, datasharing_history_bytes := bytes\<rparr>);
          e = (if shm_listed info \<and> ep_host_id e = local_host \<and> data_sharing (qos e) \<noteq> DsOff
               then e\<lparr>datasharing_segment_visibility :=
                 (if (if is_writer e then datasharing_history_available e
                      else guid e \<in> datasharing_notification_readers info)
                  then Visible else NotVisible)\<rparr>
               else e)
      in case om_get (ga_shm_ports g) (participant_guid_prefix e) of
           None \<Rightarrow> e
         | Some ps \<Rightarrow> e\<lparr>participant_shm_ports := set ps,
             participant_shm_visibility := Shm.participant_shm_visibility ps
               (set (ports_of (ga_proof_ports g) (participant_guid_prefix e))) info (count_ports (ga_shm_ports g))\<rparr>)"

text \<open>A port of a participant, in the report.\<close>

definition report_port ::
  "(u32, nat) omap \<Rightarrow> u32 list \<Rightarrow> shm_info \<Rightarrow> participant \<Rightarrow> u32 \<Rightarrow> shm_port" where
  "report_port announcing proof_ports info p port =
     \<lparr>sp_port = port,
      sp_lock = (case om_get (port_locks info) port of
          Some lock \<Rightarrow> lock
        | None \<Rightarrow> if pt_own p \<and> shm_listed info then LockOwn else LockUnprobed),
      sp_announced_by = (case om_get announcing port of Some n \<Rightarrow> n | None \<Rightarrow> 0),
      sp_proof = (\<not> pt_own p \<and> port \<in> set proof_ports)\<rparr>"

definition see_participant :: "gathering \<Rightarrow> shm_info \<Rightarrow> participant \<Rightarrow> participant" where
  "see_participant g info p =
     (case om_get (ga_participant_ports g) (pt_guid_prefix p) of
        None \<Rightarrow> p
      | Some ps \<Rightarrow>
          (let proof_ports = ports_of (ga_proof_ports g) (pt_guid_prefix p);
               p = p\<lparr>pt_shm_ports := pt_shm_ports p @
                 map (report_port (count_ports (ga_participant_ports g)) proof_ports info p) ps\<rparr>
           in if pt_own p then p
              else p\<lparr>pt_shm_visibility := Shm.participant_shm_visibility ps (set proof_ports) info
                     (count_ports (ga_shm_ports g))\<rparr>))"

text \<open>A participant without a host name takes that of its host id: the first that names it.\<close>

definition host_names :: "participant list \<Rightarrow> (host_id, string) omap" where
  "host_names ps = fold (\<lambda>p m. if pt_host_name p = [] \<or> om_get m (pt_host_id p) \<noteq> None then m
     else om_put (pt_host_id p) (pt_host_name p) m) ps []"

definition name_host :: "(host_id, string) omap \<Rightarrow> participant \<Rightarrow> participant" where
  "name_host names p = (if pt_host_name p \<noteq> [] then p
     else case om_get names (pt_host_id p) of None \<Rightarrow> p | Some n \<Rightarrow> p\<lparr>pt_host_name := n\<rparr>)"

subsection \<open>The snapshot\<close>

definition apply_default_view :: "options \<Rightarrow> endpoint list \<Rightarrow> topic_summary list \<Rightarrow> topic_summary list" where
  "apply_default_view ops eps topics = (if op_all ops then topics else filter (in_default_view eps) topics)"

definition apply_node_filter ::
  "(string \<Rightarrow> string \<Rightarrow> bool) \<Rightarrow> options \<Rightarrow> endpoint list \<Rightarrow> topic_summary list \<Rightarrow> topic_summary list" where
  "apply_node_filter search ops eps topics =
     (if op_node_regex ops = [] then topics
      else filter_by_node (\<lambda>e. node_name e \<noteq> [] \<and> search (node_name e) (op_node_regex ops)) eps topics)"

text \<open>The statistics before the loop: \<open>None\<close> without \<open>--stats\<close>.\<close>

definition stats_of_frame :: "surroundings \<Rightarrow> endpoint list \<Rightarrow> double \<Rightarrow> stats_data option \<Rightarrow> stats_data" where
  "stats_of_frame su endpoints ended_at stats =
     (case stats of
        None \<Rightarrow> stats_data0
      | Some s \<Rightarrow> s\<lparr>local_addresses := su_local_addresses su, settled := d_le (Fin 0) ended_at, settled_at_s := ended_at,
          measurable_pairs := of_nat (count_measurable_pairs endpoints (su_own_prefixes su))\<rparr>)"

definition frame_discovery ::
  "surroundings \<Rightarrow> discovery_observer \<Rightarrow> node_name_table option \<Rightarrow> string \<Rightarrow> discovery_status" where
  "frame_discovery su ob names stopped_on =
     note_environment su
       ((discovery_completeness (case names of Some table \<Rightarrow> announced_by_participant table | None \<Rightarrow> [])
           (live_participants ob) (observer_snapshot ob))
        \<lparr>ds_stopped_on := stopped_on, ds_events := ob_event_count ob\<rparr>)"

text \<open>
  \<open>resolver\<close>, \<open>names\<close> and \<open>stats\<close> are as the polls at the start of the frame left them
  (\<open>poll_discovery_info\<close>, \<open>refresh_if_changed\<close>, \<open>stats_snapshot\<close> against the destinations of this
  snapshot); \<open>names\<close> is \<open>None\<close> when its reader could not be created.
\<close>

definition collect ::
  "surroundings \<Rightarrow> options \<Rightarrow> int \<Rightarrow> host_id \<Rightarrow> double \<Rightarrow> string \<Rightarrow> double \<Rightarrow> discovery_observer \<Rightarrow>
   graph_resolver \<Rightarrow> node_name_table option \<Rightarrow> stats_data option \<Rightarrow> snapshot" where
  "collect su ops domain local_host seconds stopped_on ended_at ob resolver names stats =
     (let endpoints = observer_snapshot ob;
          stats = stats_of_frame su endpoints ended_at stats;
          named = map (name_endpoint resolver names stats) (link_buffer_companions endpoints);
          g = gather su ops local_host (participant_data_of ob) named stats;
          stats = stats\<lparr>statistics_writers := ga_statistics_writers g\<rparr>;
          info = scan_shm (su_shm su) ''/dev/shm'' (scan_input g);
          kept = map (see_endpoint local_host g info) (ga_kept g);
          discovery = frame_discovery su ob names stopped_on;
          seen = map (see_participant g info \<circ> snd) (ga_participants g);
          participants = attribute_discovery_servers (ds_easy_mode discovery \<noteq> [])
            (map (name_host (host_names seen)) seen);
          topics = apply_node_filter (su_search su) ops kept
            (apply_default_view ops kept (summarize (su_fnmatch su) (su_sort su) kept));
          topics = apply_stats kept stats topics
      in \<lparr>sn_domain = domain, sn_observed_at = su_now_iso8601 su, sn_observation_seconds = seconds,
          sn_local_host_id = local_host, sn_endpoints = kept, sn_participants = participants,
          sn_topics = topics, sn_stats = note_unmeasured_pairs topics stats, sn_shm = info,
          sn_discovery = discovery, sn_has_changes = False, sn_changes = changes0\<rparr>)"

end
