(* ===== verification/Collect_Props.thy ===== *)
theory Collect_Props
  imports Collect Observer_Props
begin

text \<open>
  What a frame reports: exactly the endpoints of the view, every participant once in the order of the
  prefixes, and for each of them the shared-memory ports that all its endpoints announce.
\<close>

subsection \<open>One endpoint\<close>

lemma fold_note_port_frame [simp]:
  "ga_participants (fold (note_port ours local e) ps g) = ga_participants g"
  "ga_kept (fold (note_port ours local e) ps g) = ga_kept g"
  "ga_other_hosts (fold (note_port ours local e) ps g) = ga_other_hosts g"
  "ga_statistics_writers (fold (note_port ours local e) ps g) = ga_statistics_writers g"
  by (induction ps arbitrary: g) (simp_all add: note_port_def Let_def)

lemma note_endpoint_frame [simp]:
  "ga_participants (note_endpoint o' e g) =
     om_upd (participant_guid_prefix e) participant0 (note_participant o' e) (ga_participants g)"
  "ga_kept (note_endpoint o' e g) = ga_kept g"
  "ga_shm_ports (note_endpoint o' e g) = ga_shm_ports g"
  "ga_participant_ports (note_endpoint o' e g) = ga_participant_ports g"
  by (simp_all add: note_endpoint_def Let_def)

lemma note_port_ports [simp]:
  "ga_shm_ports (note_port o' l e q g) =
     (if \<not> o' \<and> l then add_port (participant_guid_prefix e) q (ga_shm_ports g) else ga_shm_ports g)"
  "ga_participant_ports (note_port o' l e q g) =
     (if l then add_port (participant_guid_prefix e) q (ga_participant_ports g) else ga_participant_ports g)"
  by (simp_all add: note_port_def Let_def)

definition ours :: "surroundings \<Rightarrow> endpoint \<Rightarrow> bool" where
  "ours su e \<longleftrightarrow> participant_guid_prefix e \<in> su_own_prefixes su"

lemma gather_endpoint_kept:
  "ga_kept (gather_endpoint su ops lh e g) = ga_kept g @ (if \<not> ours su e \<and> in_view su ops e then [e] else [])"
  by (simp add: gather_endpoint_def ours_def Let_def)

lemma gather_endpoint_participants:
  "ga_participants (gather_endpoint su ops lh e g) =
     om_upd (participant_guid_prefix e) participant0 (note_participant (ours su e) e) (ga_participants g)"
  by (simp add: gather_endpoint_def ours_def Let_def)

lemma fold_gather_kept:
  "ga_kept (fold (gather_endpoint su ops lh) es g) = ga_kept g @ filter (\<lambda>e. \<not> ours su e \<and> in_view su ops e) es"
  by (induction es arbitrary: g) (simp_all add: gather_endpoint_kept)

lemma gather_kept:
  "ga_kept (gather su ops lh pdata es stats) = filter (\<lambda>e. \<not> ours su e \<and> in_view su ops e) es"
  by (simp add: gather_def fold_gather_kept)

text \<open>Each step of naming and looking leaves the identity, the topic and the locators of an endpoint.\<close>

definition identity_of :: "endpoint \<Rightarrow> bool \<times> string \<times> u8 list \<times> host_id \<times> string \<times> string \<times> string \<times> locator list" where
  "identity_of e = (is_writer e, guid e, guid_bytes e, ep_host_id e, participant_guid_prefix e,
     dds_topic e, ros_topic e, unicast e)"

lemma name_endpoint_identity: "identity_of (name_endpoint resolver names stats e) = identity_of e"
  by (simp add: name_endpoint_def identity_of_def Let_def split: option.split)

lemma see_endpoint_identity: "identity_of (see_endpoint lh g info e) = identity_of e"
  by (simp add: see_endpoint_def identity_of_def Let_def split: option.split)

lemma in_view_identity: "identity_of d = identity_of e \<Longrightarrow> in_view su ops d = in_view su ops e \<and> ours su d = ours su e"
  by (simp add: identity_of_def in_view_def ours_def)

lemma link_keeps:
  assumes keeps: "\<And>e. h (clear_links e) = h e"
  shows "map h (link_buffer_companions eps) = map h eps"
proof (rule nth_equalityI)
  fix i assume "i < length (map h (link_buffer_companions eps))"
  then have i: "i < length eps" by (simp add: link_buffer_companions_eq)
  then show "map h (link_buffer_companions eps) ! i = map h eps ! i"
    using clear_linked_upto [OF i, of "length eps"] i keeps by (simp add: link_buffer_companions_eq) metis
qed (simp add: link_buffer_companions_eq)

lemma link_identity: "map identity_of (link_buffer_companions eps) = map identity_of eps"
  by (rule link_keeps) (simp add: identity_of_def clear_links_def)

lemma filter_identity:
  assumes "map identity_of xs = map identity_of ys"
    and "\<And>d e. identity_of d = identity_of e \<Longrightarrow> P d = P e"
  shows "map identity_of (filter P xs) = map identity_of (filter P ys)"
  using map_eq_imp_length_eq [OF assms(1)] assms(1)
proof (induction xs ys rule: list_induct2)
  case (Cons x xs y ys)
  then have "P x = P y" using assms(2) [of x y] by simp
  then show ?case using Cons by simp
qed simp

definition named_endpoints ::
  "discovery_observer \<Rightarrow> graph_resolver \<Rightarrow> node_name_table option \<Rightarrow> stats_data \<Rightarrow> endpoint list" where
  "named_endpoints ob resolver names stats =
     map (name_endpoint resolver names stats) (link_buffer_companions (observer_snapshot ob))"

lemma named_identity:
  "map identity_of (named_endpoints ob resolver names stats) = map identity_of (observer_snapshot ob)"
  using link_identity by (simp add: named_endpoints_def comp_def name_endpoint_identity)

definition frame_gathering ::
  "surroundings \<Rightarrow> options \<Rightarrow> host_id \<Rightarrow> double \<Rightarrow> discovery_observer \<Rightarrow> graph_resolver \<Rightarrow>
   node_name_table option \<Rightarrow> stats_data option \<Rightarrow> gathering" where
  "frame_gathering su ops local_host ended_at ob resolver names stats =
     (let stats = stats_of_frame su (observer_snapshot ob) ended_at stats
      in gather su ops local_host (participant_data_of ob) (named_endpoints ob resolver names stats) stats)"

lemma collect_parts:
  "sn_endpoints (collect su ops domain local_host seconds stopped_on ended_at ob resolver names stats) =
     (let g = frame_gathering su ops local_host ended_at ob resolver names stats
      in map (see_endpoint local_host g (scan_shm (su_shm su) ''/dev/shm'' (scan_input g))) (ga_kept g))"
  "sn_participants (collect su ops domain local_host seconds stopped_on ended_at ob resolver names stats) =
     (let g = frame_gathering su ops local_host ended_at ob resolver names stats;
          seen = map (see_participant g (scan_shm (su_shm su) ''/dev/shm'' (scan_input g)) \<circ> snd) (ga_participants g)
      in attribute_discovery_servers (ds_easy_mode (frame_discovery su ob names stopped_on) \<noteq> [])
        (map (name_host (host_names seen)) seen))"
  by (simp_all only: collect_def Let_def snapshot.select_convs frame_gathering_def named_endpoints_def)

text \<open>
  C16. The endpoints of a frame are, in the order of the observer and with their identity, topic and
  locators, exactly those that do not belong to the tool itself, are not on \<open>ros_discovery_info\<close> or a topic
  of Fast DDS's own (\<open>_fastdds_\<close>), are on a ROS topic (\<open>rt/\<close>) unless \<open>--all\<close> is given, and whose topic, by
  its ROS name if it has one, matches the pattern, if there is one.
\<close>

theorem collect_endpoints:
  "map identity_of (sn_endpoints (collect su ops domain local_host seconds stopped_on ended_at ob resolver names stats)) =
     map identity_of (filter (\<lambda>e.
       participant_guid_prefix e \<notin> su_own_prefixes su \<and>
       dds_topic e \<noteq> ''ros_discovery_info'' \<and> take 9 (dds_topic e) \<noteq> ''_fastdds_'' \<and>
       (op_all ops \<or> ros_topic e \<noteq> [] \<and> take 3 (dds_topic e) = ''rt/'') \<and>
       (op_topic_regex ops = [] \<or>
        su_search su (if ros_topic e = [] then dds_topic e else ros_topic e) (op_topic_regex ops)))
       (observer_snapshot ob))"
proof -
  define st where "st = stats_of_frame su (observer_snapshot ob) ended_at stats"
  define P where "P = (\<lambda>e. \<not> ours su e \<and> in_view su ops e)"
  have "map identity_of (sn_endpoints (collect su ops domain local_host seconds stopped_on ended_at ob resolver names stats)) =
      map identity_of (filter P (named_endpoints ob resolver names st))"
    unfolding collect_parts frame_gathering_def Let_def gather_kept
    by (simp add: comp_def see_endpoint_identity st_def P_def)
  also have "\<dots> = map identity_of (filter P (observer_snapshot ob))"
  proof (rule filter_identity [OF named_identity])
    fix d e assume "identity_of d = identity_of e"
    from in_view_identity [OF this, of su ops] show "P d = P e" by (simp add: P_def)
  qed
  also have "P = (\<lambda>e.
       participant_guid_prefix e \<notin> su_own_prefixes su \<and>
       dds_topic e \<noteq> ''ros_discovery_info'' \<and> take 9 (dds_topic e) \<noteq> ''_fastdds_'' \<and>
       (op_all ops \<or> ros_topic e \<noteq> [] \<and> take 3 (dds_topic e) = ''rt/'') \<and>
       (op_topic_regex ops = [] \<or>
        su_search su (if ros_topic e = [] then dds_topic e else ros_topic e) (op_topic_regex ops)))"
    by (rule ext) (auto simp: P_def ours_def in_view_def kBuiltinTopic_def starts_with_def eval_nat_numeral)
  finally show ?thesis .
qed

subsection \<open>The participants\<close>

definition entry_ok :: "string set \<Rightarrow> string \<times> participant \<Rightarrow> bool" where
  "entry_ok own kv \<longleftrightarrow> pt_guid_prefix (snd kv) = fst kv \<and> pt_own (snd kv) = (fst kv \<in> own)"

definition table_ok :: "string set \<Rightarrow> (string, participant) omap \<Rightarrow> string set \<Rightarrow> bool" where
  "table_ok own m ks \<longleftrightarrow> om_ok m \<and> fst ` set m = ks \<and> list_all (entry_ok own) m"

lemma table_ok_upd:
  assumes "table_ok own m ks" and "\<And>p. entry_ok own (k, f p)"
  shows "table_ok own (om_upd k d f m) (insert k ks)"
  using assms set_om_put by (fastforce simp: table_ok_def om_upd_def list_all_iff)

lemma announce_table: "table_ok own (fold (announce_participant own) pdata []) (fst ` set pdata)"
proof (induction pdata rule: rev_induct)
  case (snoc kv pdata)
  then show ?case
    by (simp add: announce_participant_def table_ok_upd entry_ok_def del: fun_upd_apply)
qed (simp add: table_ok_def)

lemma gather_table:
  "table_ok (su_own_prefixes su) (ga_participants (gather su ops lh pdata es stats))
     (fst ` set pdata \<union> participant_guid_prefix ` set es)"
proof -
  have "table_ok (su_own_prefixes su) (ga_participants (fold (gather_endpoint su ops lh) es g))
      (ks \<union> participant_guid_prefix ` set es)"
    if "table_ok (su_own_prefixes su) (ga_participants g) ks" for g ks
    using that
  proof (induction es arbitrary: g ks)
    case (Cons e es)
    have "table_ok (su_own_prefixes su) (ga_participants (gather_endpoint su ops lh e g))
        (insert (participant_guid_prefix e) ks)"
      unfolding gather_endpoint_participants
      by (rule table_ok_upd [OF Cons.prems]) (simp add: entry_ok_def note_participant_def ours_def)
    from Cons.IH [OF this] show ?case by simp
  qed simp
  then show ?thesis unfolding gather_def by (simp add: announce_table)
qed

lemma see_participant_keeps [simp]:
  "pt_guid_prefix (see_participant g info p) = pt_guid_prefix p" "pt_own (see_participant g info p) = pt_own p"
  by (simp_all add: see_participant_def Let_def split: option.split)

lemma name_host_keeps [simp]:
  "pt_guid_prefix (name_host names p) = pt_guid_prefix p" "pt_own (name_host names p) = pt_own p"
  by (simp_all add: name_host_def split: option.split)

lemma image_of_identity: "map identity_of xs = map identity_of ys \<Longrightarrow>
   participant_guid_prefix ` set xs = participant_guid_prefix ` set ys"
  by (induction xs ys rule: list_induct2')
    (auto simp: identity_of_def)

text \<open>
  C28. A frame lists every live participant and every participant of a discovered endpoint exactly once, in
  the order of the GUID prefixes, whatever the options show, and marks as the tool's own exactly those
  of this process.
\<close>

theorem collect_participants:
  "map pt_guid_prefix (sn_participants (collect su ops domain local_host seconds stopped_on ended_at ob resolver names stats)) =
     sorted_list_of_set (fst ` set (participant_data_of ob) \<union> participant_guid_prefix ` set (observer_snapshot ob)) \<and>
   map pt_own (sn_participants (collect su ops domain local_host seconds stopped_on ended_at ob resolver names stats)) =
     map (\<lambda>k. k \<in> su_own_prefixes su)
       (sorted_list_of_set (fst ` set (participant_data_of ob) \<union> participant_guid_prefix ` set (observer_snapshot ob)))"
proof -
  define st where "st = stats_of_frame su (observer_snapshot ob) ended_at stats"
  define es where "es = named_endpoints ob resolver names st"
  define m where "m = ga_participants (gather su ops local_host (participant_data_of ob) es st)"
  define K where "K = fst ` set (participant_data_of ob) \<union> participant_guid_prefix ` set (observer_snapshot ob)"
  have "table_ok (su_own_prefixes su) m K"
    using gather_table [of su ops local_host "participant_data_of ob" es st]
      image_of_identity [OF named_identity [of ob resolver names st]]
    by (simp add: m_def K_def es_def)
  then have m: "om_ok m" "fst ` set m = K" "list_all (entry_ok (su_own_prefixes su)) m"
    by (simp_all add: table_ok_def)
  have keys: "map fst m = sorted_list_of_set K"
    using m(1,2) sorted_list_of_set.idem_if_sorted_distinct [of "map fst m"]
    by (simp add: om_ok_def strict_sorted_iff)
  have "map (pt_guid_prefix \<circ> snd) m = map fst m" "map (pt_own \<circ> snd) m = map (\<lambda>k. k \<in> su_own_prefixes su) (map fst m)"
    using m(3) by (auto simp: list_all_iff entry_ok_def)
  then show ?thesis
    unfolding K_def [symmetric] keys [symmetric]
    unfolding collect_parts frame_gathering_def Let_def attribute_discovery_servers_def
    by (simp add: comp_def st_def es_def m_def)
qed

subsection \<open>The ports\<close>

text \<open>A table of ports that holds, per participant, the sorted list of the set \<open>f\<close> gives.\<close>

definition ports_table :: "ports_by \<Rightarrow> (string \<Rightarrow> u32 set) \<Rightarrow> bool" where
  "ports_table m f \<longleftrightarrow> om_ok m \<and> (\<forall>k. finite (f k)
     \<and> om_get m k = (if f k = {} then None else Some (sorted_list_of_set (f k))))"

lemma sorted_insert_set: "finite A \<Longrightarrow> insort_insert x (sorted_list_of_set A) = sorted_list_of_set (insert x A)"
  by (cases "x \<in> A") (auto simp: insort_insert_key_def insert_absorb)

lemma ports_table_add:
  assumes "ports_table m f"
  shows "ports_table (add_port k q m) (f(k := insert q (f k)))"
proof -
  have f: "finite (f j)" and get: "om_get m j = (if f j = {} then None else Some (sorted_list_of_set (f j)))" for j
    using assms unfolding ports_table_def by blast+
  have "insort_insert q (case om_get m k of None \<Rightarrow> [] | Some v \<Rightarrow> v) = sorted_list_of_set (insert q (f k))"
    using get [of k] sorted_insert_set [OF f [of k], of q] by (auto simp: insort_insert_key_def)
  then show ?thesis using assms f get by (simp add: ports_table_def add_port_def)
qed

lemma ports_table_fold:
  assumes "\<And>q g. sel (note_port o' l e q g) = (if b then add_port k q (sel g) else sel g)"
    and "ports_table (sel g) f"
  shows "ports_table (sel (fold (note_port o' l e) ps g)) (if b then f(k := f k \<union> set ps) else f)"
  using assms(2)
proof (induction ps arbitrary: g f)
  case (Cons q ps)
  have "ports_table (sel (note_port o' l e q g)) (if b then f(k := insert q (f k)) else f)"
    using ports_table_add [OF Cons.prems] Cons.prems by (simp add: assms(1))
  from Cons.IH [OF this] show ?case by (cases b) simp_all
qed simp

text \<open>The SHM ports that the endpoints which satisfy \<open>P\<close> announce for a participant.\<close>

definition ports_where :: "(endpoint \<Rightarrow> bool) \<Rightarrow> endpoint list \<Rightarrow> string \<Rightarrow> u32 set" where
  "ports_where P es k = (\<Union>e \<in> {e \<in> set es. participant_guid_prefix e = k \<and> P e}. set (shm_unicast_ports e))"

lemma ports_where_snoc: "ports_where P (es @ [e]) =
   (if P e then (ports_where P es)(participant_guid_prefix e :=
      ports_where P es (participant_guid_prefix e) \<union> set (shm_unicast_ports e)) else ports_where P es)"
  by (rule ext) (auto simp: ports_where_def)

lemma gather_ports:
  assumes "\<And>o' l e q g. sel (note_port o' l e q g) =
      (if b o' l e then add_port (participant_guid_prefix e) q (sel g) else sel g)"
    and "\<And>e g. sel (gather_endpoint su ops lh e g) =
      sel (fold (note_port (ours su e) (ep_host_id e = lh) e) (shm_unicast_ports e) (note_endpoint (ours su e) e g))"
    and "\<And>o' e g. sel (note_endpoint o' e g) = sel g"
    and "sel g = []"
  shows "ports_table (sel (fold (gather_endpoint su ops lh) es g))
     (ports_where (\<lambda>e. b (ours su e) (ep_host_id e = lh) e) es)"
proof (induction es rule: rev_induct)
  case Nil
  then show ?case using assms(4) by (simp add: ports_table_def ports_where_def)
next
  case (snoc e es)
  have "ports_table (sel (fold (note_port (ours su e) (ep_host_id e = lh) e) (shm_unicast_ports e)
      (note_endpoint (ours su e) e (fold (gather_endpoint su ops lh) es g))))
     (if b (ours su e) (ep_host_id e = lh) e
      then (ports_where (\<lambda>e. b (ours su e) (ep_host_id e = lh) e) es)(participant_guid_prefix e :=
        ports_where (\<lambda>e. b (ours su e) (ep_host_id e = lh) e) es (participant_guid_prefix e) \<union> set (shm_unicast_ports e))
      else ports_where (\<lambda>e. b (ours su e) (ep_host_id e = lh) e) es)"
    using snoc.IH by (intro ports_table_fold [where sel = sel] assms(1)) (simp add: assms(3))
  then show ?case by (simp add: assms(2) ports_where_snoc)
qed

text \<open>The endpoints whose ports the nodes of this host listen on, and all of this host.\<close>

definition of_node_here :: "surroundings \<Rightarrow> host_id \<Rightarrow> endpoint \<Rightarrow> bool" where
  "of_node_here su local_host e \<longleftrightarrow> \<not> ours su e \<and> ep_host_id e = local_host"

definition of_host :: "host_id \<Rightarrow> endpoint \<Rightarrow> bool" where
  "of_host local_host e \<longleftrightarrow> ep_host_id e = local_host"

lemma gather_shm_ports:
  "ports_table (ga_shm_ports (gather su ops lh pdata es stats)) (ports_where (of_node_here su lh) es)"
  "ports_table (ga_participant_ports (gather su ops lh pdata es stats)) (ports_where (of_host lh) es)"
  unfolding gather_def of_node_here_def [abs_def] of_host_def [abs_def]
  using gather_ports [where sel = ga_shm_ports and b = "\<lambda>o' l e. \<not> o' \<and> l" and su = su and ops = ops and lh = lh]
    gather_ports [where sel = ga_participant_ports and b = "\<lambda>o' l e. l" and su = su and ops = ops and lh = lh]
  by (simp_all add: gather_endpoint_def ours_def Let_def)

lemma ports_where_sub:
  assumes "map identity_of xs = map identity_of ys" and "\<And>d e. identity_of d = identity_of e \<Longrightarrow> P d = P e"
  shows "ports_where P xs k \<subseteq> ports_where P ys k"
proof
  fix q assume "q \<in> ports_where P xs k"
  then obtain d where d: "d \<in> set xs" "participant_guid_prefix d = k" "P d" "q \<in> set (shm_unicast_ports d)"
    unfolding ports_where_def by blast
  have "identity_of d \<in> identity_of ` set ys" using d(1) assms(1) by (metis image_eqI list.set_map)
  then obtain e where e: "e \<in> set ys" "identity_of d = identity_of e" by blast
  then have "participant_guid_prefix e = k" "q \<in> set (shm_unicast_ports e)" "P e"
    using d assms(2) [OF e(2)] by (simp_all add: identity_of_def shm_unicast_ports_def)
  then show "q \<in> ports_where P ys k" unfolding ports_where_def using e(1) by blast
qed

lemma ports_where_identity:
  assumes "map identity_of xs = map identity_of ys" and "\<And>d e. identity_of d = identity_of e \<Longrightarrow> P d = P e"
  shows "ports_where P xs k = ports_where P ys k"
  by (rule equalityI [OF ports_where_sub ports_where_sub]; (rule assms | rule assms [symmetric]); assumption?)

lemma see_endpoint_ports:
  assumes "ports_table (ga_shm_ports g) f" and "f (participant_guid_prefix e) \<noteq> {}"
  shows "participant_shm_ports (see_endpoint lh g info e) = f (participant_guid_prefix e)"
proof -
  have "om_get (ga_shm_ports g) (participant_guid_prefix e) = Some (sorted_list_of_set (f (participant_guid_prefix e)))"
    and "finite (f (participant_guid_prefix e))"
    using assms unfolding ports_table_def by simp_all
  then show ?thesis by (simp add: see_endpoint_def Let_def split: option.split)
qed

lemma see_endpoint_no_ports:
  assumes "ports_table (ga_shm_ports g) f" and "f (participant_guid_prefix e) = {}"
  shows "participant_shm_ports (see_endpoint lh g info e) = participant_shm_ports e"
proof -
  have "om_get (ga_shm_ports g) (participant_guid_prefix e) = None" using assms unfolding ports_table_def by simp
  then show ?thesis by (simp add: see_endpoint_def Let_def split: option.split)
qed

lemma named_ports:
  assumes "n \<in> set (named_endpoints ob resolver names st)"
  obtains d where "d \<in> set (observer_snapshot ob)" "identity_of d = identity_of n"
    "participant_shm_ports d = participant_shm_ports n"
proof -
  define h where "h = (\<lambda>e. (identity_of e, participant_shm_ports e))"
  have "participant_shm_ports (name_endpoint resolver names st e) = participant_shm_ports e" for e
    by (simp add: name_endpoint_def Let_def split: option.split)
  then have named: "h (name_endpoint resolver names st e) = h e" for e by (simp add: h_def name_endpoint_identity)
  have "h (clear_links e) = h e" for e by (simp add: h_def identity_of_def clear_links_def)
  then have "map h (link_buffer_companions (observer_snapshot ob)) = map h (observer_snapshot ob)" by (rule link_keeps)
  then have "map h (named_endpoints ob resolver names st) = map h (observer_snapshot ob)"
    by (simp add: named_endpoints_def comp_def named)
  then have "h n \<in> h ` set (observer_snapshot ob)" using assms by (metis image_eqI list.set_map)
  then obtain d where "d \<in> set (observer_snapshot ob)" "h d = h n" by force
  then show ?thesis using that by (simp add: h_def)
qed

lemma see_participant_ports:
  assumes "ports_table (ga_participant_ports g) f" and "pt_shm_ports p = []"
  shows "map sp_port (pt_shm_ports (see_participant g info p)) = sorted_list_of_set (f (pt_guid_prefix p))"
proof -
  have "om_get (ga_participant_ports g) (pt_guid_prefix p) = (if f (pt_guid_prefix p) = {} then None
      else Some (sorted_list_of_set (f (pt_guid_prefix p))))"
    using assms(1) unfolding ports_table_def by blast
  then show ?thesis using assms(2) by (simp add: see_participant_def Let_def comp_def report_port_def)
qed

lemma no_ports_yet: "list_all (\<lambda>kv. pt_shm_ports (snd kv) = []) (ga_participants (gather su ops lh pdata es stats))"
proof -
  have upd: "list_all (\<lambda>kv. pt_shm_ports (snd kv) = []) (om_upd k participant0 f m)"
    if "list_all (\<lambda>kv. pt_shm_ports (snd kv) = []) m" "\<And>p. pt_shm_ports (f p) = pt_shm_ports p" for k f m
  proof -
    have "om_get m k = Some p \<Longrightarrow> pt_shm_ports p = []" for p
      using that(1) map_of_SomeD [of m k p] by (auto simp: list_all_iff)
    then show ?thesis using that set_om_put
      by (fastforce simp: om_upd_def list_all_iff participant0_def split: option.split)
  qed
  have start: "list_all (\<lambda>kv. pt_shm_ports (snd kv) = []) (fold (announce_participant own) pdata [])" for own
    by (induction pdata rule: rev_induct) (simp_all add: announce_participant_def upd)
  have "list_all (\<lambda>kv. pt_shm_ports (snd kv) = []) (ga_participants (fold (gather_endpoint su ops lh) es g))"
    if "list_all (\<lambda>kv. pt_shm_ports (snd kv) = []) (ga_participants g)" for g
    using that
    by (induction es arbitrary: g) (simp_all add: gather_endpoint_participants upd note_participant_def)
  then show ?thesis unfolding gather_def by (simp add: start)
qed

text \<open>
  C38. Every endpoint of a frame carries the SHM ports that all endpoints of its participant announce, also
  those the options hide, when they run on this host and are not the tool's own, and keeps what it had
  before where there are none; and every participant lists, in ascending order, the ports its endpoints
  announce on this host.
\<close>

theorem collect_ports:
  "list_all (\<lambda>e. \<exists>d. d \<in> set (observer_snapshot ob) \<and> identity_of d = identity_of e \<and>
       participant_shm_ports e =
         (let ports = ports_where (of_node_here su local_host) (observer_snapshot ob) (participant_guid_prefix e)
          in if ports = {} then participant_shm_ports d else ports))
     (sn_endpoints (collect su ops domain local_host seconds stopped_on ended_at ob resolver names stats)) \<and>
   list_all (\<lambda>p. map sp_port (pt_shm_ports p) =
       sorted_list_of_set (ports_where (of_host local_host) (observer_snapshot ob) (pt_guid_prefix p)))
     (sn_participants (collect su ops domain local_host seconds stopped_on ended_at ob resolver names stats))"
proof -
  define g where "g = frame_gathering su ops local_host ended_at ob resolver names stats"
  define info where "info = scan_shm (su_shm su) ''/dev/shm'' (scan_input g)"
  have same: "ports_where P (named_endpoints ob resolver names st) = ports_where P (observer_snapshot ob)"
    if "P = of_node_here su local_host \<or> P = of_host local_host" for P st
    using that by (intro ext ports_where_identity [OF named_identity])
      (auto simp: of_node_here_def of_host_def ours_def identity_of_def)
  have shm: "ports_table (ga_shm_ports g) (ports_where (of_node_here su local_host) (observer_snapshot ob))"
    and host: "ports_table (ga_participant_ports g) (ports_where (of_host local_host) (observer_snapshot ob))"
    unfolding g_def frame_gathering_def Let_def using gather_shm_ports same by (metis (no_types))+
  note parts = collect_parts [of su ops domain local_host seconds stopped_on ended_at ob resolver names stats,
      folded g_def, unfolded Let_def, folded info_def]
  have "pt_shm_ports p = []" if "p \<in> snd ` set (ga_participants g)" for p
    using no_ports_yet that unfolding g_def frame_gathering_def Let_def list_all_iff by blast
  then have ports: "map sp_port (pt_shm_ports (see_participant g info p)) =
      sorted_list_of_set (ports_where (of_host local_host) (observer_snapshot ob) (pt_guid_prefix p))"
    if "p \<in> snd ` set (ga_participants g)" for p
    using see_participant_ports [OF host] that by blast
  have names: "pt_shm_ports (name_host m p) = pt_shm_ports p" for m p
    by (simp add: name_host_def split: option.split)
  have endpoint: "\<exists>d. d \<in> set (observer_snapshot ob) \<and> identity_of d = identity_of (see_endpoint local_host g info n) \<and>
      participant_shm_ports (see_endpoint local_host g info n) =
        (let ports = ports_where (of_node_here su local_host) (observer_snapshot ob)
           (participant_guid_prefix (see_endpoint local_host g info n))
         in if ports = {} then participant_shm_ports d else ports)" if "n \<in> set (ga_kept g)" for n
  proof -
    have "n \<in> set (named_endpoints ob resolver names (stats_of_frame su (observer_snapshot ob) ended_at stats))"
      using that by (simp add: g_def frame_gathering_def gather_kept Let_def)
    then obtain d where d: "d \<in> set (observer_snapshot ob)" "identity_of d = identity_of n"
      "participant_shm_ports d = participant_shm_ports n" by (rule named_ports)
    have "participant_guid_prefix (see_endpoint local_host g info n) = participant_guid_prefix n"
      using see_endpoint_identity [of local_host g info n] by (simp add: identity_of_def)
    then show ?thesis
      using d see_endpoint_ports [OF shm, of n local_host info] see_endpoint_no_ports [OF shm, of n local_host info]
      by (auto simp: see_endpoint_identity Let_def intro!: exI [of _ d])
  qed
  show ?thesis
    unfolding parts list_all_iff
    using endpoint ports by (auto simp: attribute_discovery_servers_def names)
qed

end
