(* ===== verification/Text.thy ===== *)
theory Text
  imports Spelling Double
begin

text \<open>
  Text on a terminal (\<open>src/render_table.cpp\<close>): the visible width of a text with ANSI escapes in
  UTF-8, cutting it to a width, painting, and the numbers of the table the way \<open>printf\<close> writes them.
  A text is its bytes.
\<close>

subsection \<open>Width\<close>

definition ESC :: char where
  "ESC = CHR 0x1B"

text \<open>What follows the escape sequence that has begun: the text after the next \<open>m\<close>.\<close>

definition after_escape :: "string \<Rightarrow> string" where
  "after_escape s = tl (dropWhile (\<lambda>c. c \<noteq> CHR ''m'') s)"

text \<open>A byte that begins a UTF-8 character.\<close>

definition is_lead :: "char \<Rightarrow> bool" where
  "is_lead c \<longleftrightarrow> ((of_char c :: u8) AND 0xC0) \<noteq> 0x80"

function visible_width :: "string \<Rightarrow> nat" where
  "visible_width [] = 0"
| "visible_width (c # s) =
     (if c = ESC then visible_width (after_escape s) else (if is_lead c then 1 else 0) + visible_width s)"
  by pat_completeness auto
termination
  by (relation "measure length")
    (auto simp: after_escape_def less_Suc_eq_le intro: le_trans [OF diff_le_self length_dropWhile_le])

text \<open>The loop of \<open>truncate_visible\<close>: \<open>n\<close> characters are out, \<open>esc\<close> inside an escape sequence.\<close>

fun truncate_from :: "nat \<Rightarrow> nat \<Rightarrow> bool \<Rightarrow> string \<Rightarrow> string" where
  "truncate_from width n esc [] = []"
| "truncate_from width n esc (c # s) =
     (if esc \<or> c = ESC then c # truncate_from width n (c \<noteq> CHR ''m'') s
      else if is_lead c \<and> n + 1 \<ge> width then []
      else c # truncate_from width (if is_lead c then n + 1 else n) False s)"

definition kEllipsis :: string where
  "kEllipsis = [CHR 0xE2, CHR 0x80, CHR 0xA6, ESC] @ ''[0m''"

definition truncate_visible :: "string \<Rightarrow> nat \<Rightarrow> string" where
  "truncate_visible s width =
     (if width = 0 \<or> visible_width s \<le> width then s else truncate_from width 0 False s @ kEllipsis)"

subsection \<open>Colours\<close>

definition ansi :: "string \<Rightarrow> string" where
  "ansi n = ESC # ''['' @ n @ ''m''"

fun ansi_for :: "transport \<Rightarrow> string" where
  "ansi_for UDPv4 = ansi ''34''"
| "ansi_for UDPv6 = ansi ''36''"
| "ansi_for TCPv4 = ansi ''35''"
| "ansi_for TCPv6 = ansi ''35''"
| "ansi_for SHM = ansi ''32''"
| "ansi_for DataSharing = ansi ''33''"
| "ansi_for NoTransport = ansi ''2''"

definition RED :: string where "RED = ansi ''31''"

definition GREEN :: string where "GREEN = ansi ''32''"

definition YELLOW :: string where "YELLOW = ansi ''33''"

definition DIM :: string where "DIM = ansi ''2''"

definition BOLD :: string where "BOLD = ansi ''1''"

definition paint :: "string \<Rightarrow> string \<Rightarrow> bool \<Rightarrow> string" where
  "paint text code on = (if on then code @ text @ ESC # ''[0m'' else text)"

fun join :: "string list \<Rightarrow> string \<Rightarrow> string" where
  "join [] sep = []"
| "join [x] sep = x"
| "join (x # y # xs) sep = x @ sep @ join (y # xs) sep"

subsection \<open>Numbers\<close>

text \<open>
  The conversion \<open>%.<n>f\<close>: the value in decimal, rounded half to even at the last place. An infinity
  and a NaN are written as words. \<open>snprintf\<close> into a buffer of 32 bytes keeps 31 of them.
\<close>

definition fixed_rat :: "nat \<Rightarrow> rat \<Rightarrow> string" where
  "fixed_rat n x =
     (let k = nat (round_half_even (\<bar>x\<bar> * 10 ^ n));
          whole = dec (k div 10 ^ n);
          part = dec (k mod 10 ^ n)
      in (if x < 0 then ''-'' else []) @ whole @
         (if n = 0 then [] else ''.'' @ replicate (n - length part) (CHR ''0'') @ part))"

fun fixed :: "nat \<Rightarrow> double \<Rightarrow> string" where
  "fixed n (Fin x) = fixed_rat n x"
| "fixed n PInf = ''inf''"
| "fixed n NInf = ''-inf''"
| "fixed n NaN = ''nan''"

text \<open>Dividing by 1000 until the value is below it or the units are used up.\<close>

fun scale_down :: "nat \<Rightarrow> double \<Rightarrow> nat \<Rightarrow> double \<times> nat" where
  "scale_down 0 v i = (v, i)"
| "scale_down (Suc n) v i =
     (if d_le (Fin 1000) v then scale_down n (d_div v (Fin 1000)) (i + 1) else (v, i))"

definition human_bytes :: "double \<Rightarrow> string \<Rightarrow> string" where
  "human_bytes v unit =
     (let (v, i) = scale_down 4 v 0;
          prefix = [[], ''k'', ''M'', ''G'', ''T''] ! i
      in take 31 ((if i = 0 then fixed 0 v
          else fixed (if d_lt v (Fin 10) then 2 else if d_lt v (Fin 100) then 1 else 0) v)
         @ '' '' @ prefix @ unit))"

definition d_abs :: "double \<Rightarrow> double" where
  "d_abs v = (case v of Fin x \<Rightarrow> Fin \<bar>x\<bar> | NInf \<Rightarrow> PInf | v \<Rightarrow> v)"

definition human_seconds :: "double \<Rightarrow> string" where
  "human_seconds seconds =
     (let (v, i) = scale_down 3 (d_mul (d_abs seconds) (Fin 1000000000)) 0;
          unit = [''ns'', [CHR 0xC2, CHR 0xB5] @ ''s'', ''ms'', ''s''] ! i
      in take 31 ((if d_lt seconds (Fin 0) then ''-'' else []) @
         fixed (if d_lt v (Fin 10) then 2 else if d_lt v (Fin 100) then 1 else 0) v @ '' '' @ unit))"

definition loss_label :: "bool \<Rightarrow> bool \<Rightarrow> u64 \<Rightarrow> u64 \<Rightarrow> string" where
  "loss_label available lost_available packets resent =
     (if \<not> available then ''-''
      else if lost_available \<and> packets = 0 \<and> resent = 0 then ''0''
      else
        (let s = (if \<not> lost_available then ''- lost'' else if packets \<noteq> 0 then dec (unat packets) @ '' lost'' else [])
         in if resent \<noteq> 0 then s @ (if s = [] then [] else '', '') @ dec (unat resent) @ '' resent'' else s))"

definition latency_label :: "bool \<Rightarrow> double \<Rightarrow> double \<Rightarrow> bool \<Rightarrow> string" where
  "latency_label available mean maximum with_max =
     (if \<not> available then ''-''
      else human_seconds mean @ (if with_max then '' (max '' @ human_seconds maximum @ '')'' else []))"

definition rate_label :: "bool \<Rightarrow> double \<Rightarrow> bool \<Rightarrow> string" where
  "rate_label available per_s lower_bound =
     (if \<not> available then []
      else (if lower_bound then [CHR 0xE2, CHR 0x89, CHR 0xA5] else []) @
        take 31 (fixed (if d_le (Fin 100) per_s then 0 else 1) per_s))"

subsection \<open>The width after cutting\<close>

text \<open>Whether the text ends inside an escape sequence.\<close>

fun in_escape :: "bool \<Rightarrow> string \<Rightarrow> bool" where
  "in_escape esc [] = esc"
| "in_escape esc (c # s) = in_escape ((esc \<or> c = ESC) \<and> c \<noteq> CHR ''m'') s"

text \<open>The width of the rest of a text that begins inside an escape sequence.\<close>

definition width_from :: "bool \<Rightarrow> string \<Rightarrow> nat" where
  "width_from esc s = (if esc then visible_width (after_escape s) else visible_width s)"

lemma width_from_simps [simp]:
  "width_from esc [] = 0"
  "width_from False (c # s) = (if c = ESC then width_from True s
     else (if is_lead c then 1 else 0) + width_from False s)"
  "width_from True (c # s) = width_from (c \<noteq> CHR ''m'') s"
  by (simp_all add: width_from_def after_escape_def)

lemma width_append: "\<not> in_escape esc s \<Longrightarrow> width_from esc (s @ t) = width_from esc s + visible_width t"
proof (induction s arbitrary: esc)
  case Nil
  then show ?case by (simp add: width_from_def)
next
  case (Cons c s)
  then show ?case by (cases esc) (auto simp: ESC_def split: if_splits)
qed

lemma truncate_width:
  "n \<le> width - 1 \<Longrightarrow> n + width_from esc (truncate_from width n esc s) \<le> width - 1"
proof (induction s arbitrary: n esc)
  case (Cons c s)
  show ?case
  proof (cases "esc \<or> c = ESC")
    case True
    then show ?thesis using Cons.IH [of n "c \<noteq> CHR ''m''"] Cons.prems by (cases esc) (auto simp: ESC_def)
  next
    case False
    then show ?thesis using Cons.IH [of n False] Cons.IH [of "n + 1" False] Cons.prems by auto
  qed
qed simp

text \<open>A cut that removes something ends outside an escape sequence.\<close>

lemma truncate_outside:
  "width - 1 < n + width_from esc s \<Longrightarrow> n \<le> width - 1 \<Longrightarrow> \<not> in_escape esc (truncate_from width n esc s)"
proof (induction s arbitrary: n esc)
  case (Cons c s)
  show ?case
  proof (cases "esc \<or> c = ESC")
    case True
    then show ?thesis using Cons.IH [of n "c \<noteq> CHR ''m''"] Cons.prems by (cases esc) (auto simp: ESC_def)
  next
    case False
    then show ?thesis using Cons.IH [of n False] Cons.IH [of "n + 1" False] Cons.prems by (cases width) auto
  qed
qed simp

lemma width_ellipsis: "visible_width kEllipsis = 1"
  by (simp add: kEllipsis_def ESC_def is_lead_def after_escape_def of_char_def)

lemma truncated_width:
  assumes "width \<noteq> 0"
  shows "visible_width (truncate_visible s width) \<le> width"
proof (cases "visible_width s \<le> width")
  case False
  define p where "p = truncate_from width 0 False s"
  have out: "\<not> in_escape False p"
    unfolding p_def using False by (intro truncate_outside) (auto simp: width_from_def)
  have "visible_width p \<le> width - 1"
    unfolding p_def using truncate_width [of 0 width False s] by (simp add: width_from_def)
  moreover have "visible_width (p @ kEllipsis) = visible_width p + visible_width kEllipsis"
    using width_append [OF out] by (simp add: width_from_def)
  ultimately show ?thesis
    using False assms width_ellipsis by (simp add: truncate_visible_def p_def)
qed (simp add: truncate_visible_def)

text \<open>
  A line cut to a width is not wider than that on the terminal, and a line that fits is not touched.
\<close>

theorem truncate_visible_fits:
  "if width = 0 \<or> visible_width s \<le> width then truncate_visible s width = s
   else visible_width (truncate_visible s width) \<le> width \<and>
     (\<exists>p. truncate_visible s width = p @ kEllipsis \<and> p = take (length p) s)"
proof -
  have "truncate_from width n esc t = take (length (truncate_from width n esc t)) t" for n esc t
    by (induction width n esc t rule: truncate_from.induct) auto
  then show ?thesis
    using truncated_width [of width s] by (auto simp: truncate_visible_def)
qed

end
