(* ===== verification/Watch.thy ===== *)
theory Watch
  imports Text Diffing
begin

text \<open>
  What \<open>--watch\<close> and \<open>transport_viz diff\<close> mark (\<open>render.hpp\<close>, \<open>src/render_table.cpp\<close>): the labels of
  hosts and endpoints, the rows of pairs that are gone, and the state that carries marks and ghosts
  from frame to frame. A \<open>std::map<PairKey, V>\<close> is ordered by the identity of its keys; where the
  key's node names are never read, the map is over the identities.
\<close>

record ghost_pair =
  gp_key :: pair_key
  gp_type :: string
  gp_writer_label :: string
  gp_reader_label :: string
  gp_transport_label :: string

type_synonym pair_ident = "string \<times> string \<times> string"

record watch_decorations =
  wd_marks :: "(pair_ident, char) omap"
  wd_ghosts :: "ghost_pair list"
  wd_summary :: string

definition watch_decorations0 :: watch_decorations where
  "watch_decorations0 = \<lparr>wd_marks = [], wd_ghosts = [], wd_summary = []\<rparr>"

record render_options =
  ro_verbose :: bool
  ro_explain :: bool
  ro_locators :: bool
  ro_advise :: bool
  ro_compact :: bool
  ro_csv_no_header :: bool
  ro_color :: bool
  ro_max_width :: nat
  ro_watch :: "watch_decorations option"
  ro_host_labels :: "(string, string) omap"

definition render_options0 :: render_options where
  "render_options0 = \<lparr>ro_verbose = False, ro_explain = False, ro_locators = False, ro_advise = False,
     ro_compact = False, ro_csv_no_header = False, ro_color = False, ro_max_width = 0,
     ro_watch = None, ro_host_labels = []\<rparr>"

subsection \<open>Labels\<close>

definition host_label_of :: "snapshot \<Rightarrow> host_id \<Rightarrow> string \<Rightarrow> render_options \<Rightarrow> string" where
  "host_label_of snap hid name opt =
     (if name \<noteq> [] then (case find_sub '':'' name of None \<Rightarrow> name | Some colon \<Rightarrow> substr name 0 colon)
      else case om_get (ro_host_labels opt) (host_id_hex hid) of
        Some label \<Rightarrow> label
      | None \<Rightarrow> if hid = sn_local_host_id snap then ''local'' else ''host:'' @ host_id_hex hid)"

definition host_label :: "snapshot \<Rightarrow> endpoint \<Rightarrow> render_options \<Rightarrow> string" where
  "host_label snap e opt = host_label_of snap (ep_host_id e) (host_name e) opt"

definition endpoint_label :: "snapshot \<Rightarrow> endpoint \<Rightarrow> render_options \<Rightarrow> string" where
  "endpoint_label snap e opt =
     (let who = (if node_name e = [] then ''guid:'' @ substr (guid e) 0 11 @ ''..'' else node_name e)
      in who @ ''@'' @ host_label snap e opt @ (if process e = [] then [] else ''('' @ process e @ '')''))"

definition plain_transport_label :: "verdict \<Rightarrow> string" where
  "plain_transport_label v = transport_text (v_transport v) @ (if v_confidence v = Likely then ''?'' else [])"

definition ghost_of :: "snapshot \<Rightarrow> topic_summary \<Rightarrow> pair \<Rightarrow> render_options \<Rightarrow> ghost_pair" where
  "ghost_of previous t p opt =
     (let eps = sn_endpoints previous
      in \<lparr>gp_key = pair_key_of eps t p, gp_type = t_display_type t,
          gp_writer_label = endpoint_label previous (eps ! p_writer p) opt,
          gp_reader_label = endpoint_label previous (eps ! p_reader p) opt,
          gp_transport_label = plain_transport_label (p_verdict p)\<rparr>)"

definition counted :: "string \<Rightarrow> nat \<Rightarrow> string" where
  "counted sign n = (if n = 0 then [] else sign @ dec n @ (if n = 1 then '' pair  '' else '' pairs  ''))"

definition changes_summary :: "changes \<Rightarrow> string" where
  "changes_summary c =
     (if ch_empty c then ''none''
      else rev (dropWhile (\<lambda>x. x = CHR '' '')
        (rev (counted ''+'' (length (ch_added c)) @ counted ''-'' (length (ch_removed c)) @
          (if ch_changed c = [] then [] else ''~'' @ dec (length (ch_changed c)) @ '' changed'')))))"

subsection \<open>From frame to frame\<close>

definition kHoldFrames :: int where
  "kHoldFrames = 3"

record watch_state =
  wa_last_rendered :: pair_map
  wa_last_snapshot :: snapshot
  wa_have_previous :: bool
  wa_mark_ttl :: "(pair_ident, int) omap"
  wa_ghost_ttl :: "(pair_ident, int) omap"
  wa_deco :: watch_decorations
  wa_current :: pair_map

definition drop_ghost :: "pair_ident \<Rightarrow> ghost_pair list \<Rightarrow> ghost_pair list" where
  "drop_ghost k ghosts = filter (\<lambda>g. pk_ident (gp_key g) \<noteq> k) ghosts"

text \<open>
  The loop that ages a table: a frame less to live for each entry, those with none are erased, and
  \<open>forget\<close> removes what they kept on the screen.
\<close>

definition age_step ::
  "(pair_ident \<Rightarrow> 'd \<Rightarrow> 'd) \<Rightarrow> pair_ident \<times> int \<Rightarrow> (pair_ident, int) omap \<times> 'd \<Rightarrow> (pair_ident, int) omap \<times> 'd" where
  "age_step forget kv st =
     (if snd kv - 1 \<le> 0 then (fst st, forget (fst kv) (snd st)) else (fst st @ [(fst kv, snd kv - 1)], snd st))"

definition age ::
  "(pair_ident \<Rightarrow> 'd \<Rightarrow> 'd) \<Rightarrow> (pair_ident, int) omap \<Rightarrow> 'd \<Rightarrow> (pair_ident, int) omap \<times> 'd" where
  "age forget ttl d = fold (age_step forget) ttl ([], d)"

definition put_mark :: "char \<Rightarrow> pair_key \<Rightarrow>
    (pair_ident, int) omap \<times> (pair_ident, char) omap \<Rightarrow> (pair_ident, int) omap \<times> (pair_ident, char) omap" where
  "put_mark c k st = (om_put (pk_ident k) kHoldFrames (fst st), om_put (pk_ident k) c (snd st))"

definition put_ghost :: "snapshot \<Rightarrow> render_options \<Rightarrow> pair_ident set \<Rightarrow> topic_summary \<Rightarrow> pair \<Rightarrow>
    (pair_ident, int) omap \<times> ghost_pair list \<Rightarrow> (pair_ident, int) omap \<times> ghost_pair list" where
  "put_ghost last_snapshot opt removed t p st =
     (let k = pk_ident (pair_key_of (sn_endpoints last_snapshot) t p)
      in if k \<in> removed
         then (om_put k kHoldFrames (fst st), snd st @ [ghost_of last_snapshot t p opt]) else st)"

definition put_ghosts :: "snapshot \<Rightarrow> render_options \<Rightarrow> pair_key list \<Rightarrow>
    (pair_ident, int) omap \<times> ghost_pair list \<Rightarrow> (pair_ident, int) omap \<times> ghost_pair list" where
  "put_ghosts last_snapshot opt removed st =
     (if removed = [] then st
      else
        (let ks = pk_ident ` set removed;
             st = (fst st, fold drop_ghost (map pk_ident removed) (snd st))
         in fold (\<lambda>t. fold (put_ghost last_snapshot opt ks t) (t_pairs t)) (sn_topics last_snapshot) st))"

definition watch_diff :: "snapshot \<Rightarrow> render_options \<Rightarrow> watch_state \<Rightarrow> snapshot \<times> watch_state" where
  "watch_diff snap opt w =
     (let current = pair_states snap;
          changes = (if wa_have_previous w then diff (wa_last_rendered w) current else sn_changes snap);
          deco = wa_deco w;
          (mark_ttl, marks) = age om_del (wa_mark_ttl w) (wd_marks deco);
          (ghost_ttl, ghosts) = age drop_ghost (wa_ghost_ttl w) (wd_ghosts deco);
          (mark_ttl, marks) = fold (put_mark (CHR ''+'')) (ch_added changes) (mark_ttl, marks);
          (mark_ttl, marks) = fold (put_mark (CHR ''~'')) (map pc_key (ch_changed changes)) (mark_ttl, marks);
          (ghost_ttl, ghosts) = put_ghosts (wa_last_snapshot w) opt (ch_removed changes) (ghost_ttl, ghosts);
          (ghost_ttl, ghosts) = fold (\<lambda>k st. (om_del (pk_ident k) (fst st), drop_ghost (pk_ident k) (snd st)))
            (ch_added changes) (ghost_ttl, ghosts)
      in (snap\<lparr>sn_has_changes := True, sn_changes := changes\<rparr>,
          w\<lparr>wa_current := current, wa_mark_ttl := mark_ttl, wa_ghost_ttl := ghost_ttl,
            wa_deco := \<lparr>wd_marks = marks, wd_ghosts = ghosts,
              wd_summary = (if wa_have_previous w then changes_summary changes else ''first frame'')\<rparr>\<rparr>))"

definition watch_keep :: "snapshot \<Rightarrow> watch_state \<Rightarrow> watch_state" where
  "watch_keep snap w = w\<lparr>wa_last_rendered := wa_current w, wa_last_snapshot := snap, wa_have_previous := True\<rparr>"

text \<open>A frame is \<open>diff\<close>, drawing, \<open>keep\<close>.\<close>

definition watch_frame :: "render_options \<Rightarrow> snapshot \<Rightarrow> watch_state \<Rightarrow> watch_state" where
  "watch_frame opt snap w = (let (snap, w) = watch_diff snap opt w in watch_keep snap w)"

definition snapshot0 :: snapshot where
  "snapshot0 = \<lparr>sn_domain = 0, sn_observed_at = [], sn_observation_seconds = Fin 0, sn_local_host_id = replicate 4 0,
     sn_endpoints = [], sn_participants = [], sn_topics = [], sn_stats = stats_data0, sn_shm = shm_info0,
     sn_discovery = discovery_status0, sn_has_changes = False, sn_changes = changes0\<rparr>"

definition watch_state0 :: watch_state where
  "watch_state0 = \<lparr>wa_last_rendered = [], wa_last_snapshot = snapshot0, wa_have_previous = False,
     wa_mark_ttl = [], wa_ghost_ttl = [], wa_deco = watch_decorations0, wa_current = []\<rparr>"

subsection \<open>One comparison\<close>

definition ghosts_for :: "snapshot \<Rightarrow> render_options \<Rightarrow> pair_key \<Rightarrow> ghost_pair list" where
  "ghosts_for before opt k =
     concat (map (\<lambda>t. List.map_filter (\<lambda>p.
       if pk_ident (pair_key_of (sn_endpoints before) t p) = pk_ident k then Some (ghost_of before t p opt)
       else None) (t_pairs t)) (sn_topics before))"

definition decorations_for :: "changes \<Rightarrow> snapshot \<Rightarrow> render_options \<Rightarrow> watch_decorations" where
  "decorations_for changes before opt =
     \<lparr>wd_marks = fold (\<lambda>c. om_put (pk_ident (pc_key c)) (CHR ''~'')) (ch_changed changes)
        (fold (\<lambda>k. om_put (pk_ident k) (CHR ''+'')) (ch_added changes) []),
      wd_ghosts = concat (map (ghosts_for before opt) (ch_removed changes)),
      wd_summary = changes_summary changes\<rparr>"

definition topic_changed :: "snapshot \<Rightarrow> watch_decorations \<Rightarrow> topic_summary \<Rightarrow> bool" where
  "topic_changed snap deco t \<longleftrightarrow>
     list_ex (\<lambda>p. om_get (wd_marks deco) (pk_ident (pair_key_of (sn_endpoints snap) t p)) \<noteq> None) (t_pairs t)
     \<or> list_ex (\<lambda>g. pk_topic (gp_key g) = t_display_topic t) (wd_ghosts deco)"

definition keep_changed_topics :: "snapshot \<Rightarrow> watch_decorations \<Rightarrow> snapshot" where
  "keep_changed_topics snap deco = snap\<lparr>sn_topics := filter (topic_changed snap deco) (sn_topics snap)\<rparr>"

end
