(* ===== verification/Watch_Props.thy ===== *)
theory Watch_Props
  imports Watch Diffing_Props
begin

text \<open>
  What \<open>--watch\<close> shows after any number of frames, said by the changes of the last three of them: the
  tables of times to live only serve to forget in time.
\<close>

subsection \<open>Ageing\<close>

definition aged :: "int option \<Rightarrow> int option" where
  "aged t = (case t of None \<Rightarrow> None | Some n \<Rightarrow> if n - 1 \<le> 0 then None else Some (n - 1))"

definition expired :: "int option \<Rightarrow> bool" where
  "expired t \<longleftrightarrow> (case t of None \<Rightarrow> False | Some n \<Rightarrow> n - 1 \<le> 0)"

definition aged_table :: "('k \<times> int) list \<Rightarrow> ('k \<times> int) list" where
  "aged_table ttl = map (\<lambda>kv. (fst kv, snd kv - 1)) (filter (\<lambda>kv. \<not> snd kv - 1 \<le> 0) ttl)"

definition expired_keys :: "('k \<times> int) list \<Rightarrow> 'k list" where
  "expired_keys ttl = map fst (filter (\<lambda>kv. snd kv - 1 \<le> 0) ttl)"

lemma age_eq: "age forget ttl d = (aged_table ttl, fold forget (expired_keys ttl) d)"
proof -
  have "fold (age_step forget) ttl (t, d) = (t @ aged_table ttl, fold forget (expired_keys ttl) d)" for t d
    by (induction ttl arbitrary: t d) (auto simp: age_step_def aged_table_def expired_keys_def)
  then show ?thesis by (simp add: age_def)
qed

lemma aged_table_keys: "k \<in> fst ` set (aged_table ttl) \<Longrightarrow> k \<in> fst ` set ttl"
  by (force simp: aged_table_def)

lemma om_ok_aged: "om_ok ttl \<Longrightarrow> om_ok (aged_table (ttl :: ('k :: linorder, int) omap))"
proof (induction ttl)
  case (Cons e ttl)
  have "aged_table (e # ttl) = (if snd e - 1 \<le> 0 then aged_table ttl else (fst e, snd e - 1) # aged_table ttl)"
    by (simp add: aged_table_def)
  moreover have "om_ok (aged_table ttl)" "\<forall>k \<in> fst ` set (aged_table ttl). fst e < k"
    using Cons aged_table_keys [of _ ttl] unfolding om_ok_Cons by blast+
  ultimately show ?case by (auto simp: om_ok_Cons)
qed (simp add: aged_table_def)

lemma get_aged: "om_ok ttl \<Longrightarrow> om_get (aged_table ttl) k = aged (om_get ttl k)"
proof (induction ttl)
  case (Cons e ttl)
  have fresh: "fst e = k \<Longrightarrow> om_get ttl k = None"
    using Cons.prems by (force simp: om_ok_Cons map_of_eq_None_iff)
  show ?case
    using Cons fresh by (cases "fst e = k") (auto simp: aged_table_def aged_def om_ok_Cons)
qed (simp add: aged_table_def aged_def)

lemma expired_iff: "om_ok ttl \<Longrightarrow> k \<in> set (expired_keys ttl) \<longleftrightarrow> expired (om_get ttl k)"
proof -
  assume ok: "om_ok ttl"
  have "k \<in> set (expired_keys ttl) \<longleftrightarrow> (\<exists>n. (k, n) \<in> set ttl \<and> n - 1 \<le> 0)"
    by (force simp: expired_keys_def)
  also have "\<dots> \<longleftrightarrow> (\<exists>n. om_get ttl k = Some n \<and> n - 1 \<le> 0)"
    using map_of_eq_Some_iff [OF om_ok_distinct [OF ok]] by simp
  finally show ?thesis by (simp add: expired_def split: option.split)
qed

lemma get_fold_del: "om_ok m \<Longrightarrow> om_ok (fold om_del ks m) \<and>
   om_get (fold om_del ks m) k = (if k \<in> set ks then None else om_get m k)"
  by (induction ks arbitrary: m) auto

definition shown :: "ghost_pair list \<Rightarrow> pair_ident set" where
  "shown ghosts = (\<lambda>g. pk_ident (gp_key g)) ` set ghosts"

lemma shown_drop: "shown (drop_ghost k ghosts) = shown ghosts - {k}"
  by (auto simp: shown_def drop_ghost_def)

lemma shown_fold_drop: "shown (fold drop_ghost ks ghosts) = shown ghosts - set ks"
  by (induction ks arbitrary: ghosts) (auto simp: shown_drop)

subsection \<open>The last three frames\<close>

text \<open>What the newest of the changes that say something about a key says of it.\<close>

fun recent :: "('c \<Rightarrow> 'x option) \<Rightarrow> 'c list \<Rightarrow> 'x option" where
  "recent f [] = None"
| "recent f (c # cs) = (case f c of Some x \<Rightarrow> Some x | None \<Rightarrow> recent f cs)"

fun remaining :: "nat \<Rightarrow> ('c \<Rightarrow> 'x option) \<Rightarrow> 'c list \<Rightarrow> int option" where
  "remaining n f [] = None"
| "remaining n f (c # cs) = (if n = 0 then None else if f c \<noteq> None then Some (int n) else remaining (n - 1) f cs)"

lemma remaining_None: "remaining n f cs = None \<longleftrightarrow> recent f (take n cs) = None"
  by (induction n f cs rule: remaining.induct) (auto simp: take_Cons' split: option.splits)

lemma remaining_0 [simp]: "remaining 0 f cs = None"
  by (cases cs) simp_all

lemma remaining_aged: "remaining n f cs = aged (remaining (Suc n) f cs)"
  by (induction n f cs rule: remaining.induct) (auto simp: aged_def)

lemma remaining_expired: "recent f (take n cs) = (if expired (remaining (Suc n) f cs) then None else recent f (take (Suc n) cs))"
proof (induction n f cs rule: remaining.induct)
  case (2 n f c cs)
  then show ?case by (cases n) (auto simp: expired_def split: option.splits)
qed (simp add: expired_def)

subsection \<open>The frames\<close>

definition run_frames :: "render_options \<Rightarrow> snapshot list \<Rightarrow> watch_state" where
  "run_frames opt frames = fold (watch_frame opt) frames watch_state0"

text \<open>The changes each frame shows: none in the first.\<close>

definition frame_changes :: "snapshot list \<Rightarrow> changes list" where
  "frame_changes frames = map (\<lambda>i. if i = 0 then changes0
     else diff (pair_states (frames ! (i - 1))) (pair_states (frames ! i))) [0..<length frames]"

lemma frame_changes_snoc: "frame_changes (fs @ [s]) = frame_changes fs @
   [if fs = [] then changes0 else diff (pair_states (last fs)) (pair_states s)]"
proof -
  have "map (\<lambda>i. if i = 0 then changes0
      else diff (pair_states ((fs @ [s]) ! (i - 1))) (pair_states ((fs @ [s]) ! i))) [0..<length fs] = frame_changes fs"
    by (auto simp: frame_changes_def nth_append)
  then show ?thesis
    by (simp add: frame_changes_def last_conv_nth nth_append)
qed

text \<open>What the changes of a frame say about the mark of a key, and about its ghost.\<close>

definition marks_of :: "pair_ident \<Rightarrow> changes \<Rightarrow> char option" where
  "marks_of k c = (if k \<in> pk_ident ` pc_key ` set (ch_changed c) then Some (CHR ''~'')
     else if k \<in> pk_ident ` set (ch_added c) then Some (CHR ''+'') else None)"

definition gone_of :: "pair_ident \<Rightarrow> changes \<Rightarrow> bool option" where
  "gone_of k c = (if k \<in> pk_ident ` set (ch_added c) then Some False
     else if k \<in> pk_ident ` set (ch_removed c) then Some True else None)"

lemma fold_put_mark:
  assumes "om_ok t" and "om_ok m"
  shows "om_ok (fst (fold (put_mark c) ks (t, m))) \<and> om_ok (snd (fold (put_mark c) ks (t, m)))
     \<and> om_get (fst (fold (put_mark c) ks (t, m))) k = (if k \<in> pk_ident ` set ks then Some kHoldFrames else om_get t k)
     \<and> om_get (snd (fold (put_mark c) ks (t, m))) k = (if k \<in> pk_ident ` set ks then Some c else om_get m k)"
  using assms by (induction ks arbitrary: t m) (auto simp: put_mark_def)

text \<open>The table of times to live of the ghosts.\<close>

definition ghost_ttl_of :: "pair_ident \<Rightarrow> changes list \<Rightarrow> int option" where
  "ghost_ttl_of k cs = (if recent (gone_of k) (take 3 cs) = Some True then remaining 3 (gone_of k) cs else None)"

definition marks_inv :: "changes list \<Rightarrow> watch_state \<Rightarrow> bool" where
  "marks_inv cs w \<longleftrightarrow> om_ok (wa_mark_ttl w) \<and> om_ok (wd_marks (wa_deco w))
     \<and> (\<forall>k. om_get (wa_mark_ttl w) k = remaining 3 (marks_of k) cs
       \<and> om_get (wd_marks (wa_deco w)) k = recent (marks_of k) (take 3 cs))"

definition ghosts_inv :: "changes list \<Rightarrow> watch_state \<Rightarrow> bool" where
  "ghosts_inv cs w \<longleftrightarrow> om_ok (wa_ghost_ttl w)
     \<and> (\<forall>k. om_get (wa_ghost_ttl w) k = ghost_ttl_of k cs
       \<and> (k \<in> shown (wd_ghosts (wa_deco w)) \<longleftrightarrow> recent (gone_of k) (take 3 cs) = Some True))"

lemma age_marks:
  assumes "om_ok t" and "om_ok m" and "om_get t k = remaining 3 f cs" and "om_get m k = recent f (take 3 cs)"
  shows "om_ok (fst (age om_del t m)) \<and> om_ok (snd (age om_del t m))
     \<and> om_get (fst (age om_del t m)) k = remaining 2 f cs \<and> om_get (snd (age om_del t m)) k = recent f (take 2 cs)"
  using assms om_ok_aged [OF assms(1)] get_aged [OF assms(1), of k] get_fold_del [OF assms(2), of "expired_keys t" k]
    expired_iff [OF assms(1), of k] remaining_aged [of 2 f cs] remaining_expired [of f 2 cs]
  by (simp add: age_eq numeral_3_eq_3 numeral_2_eq_2)

lemma age_ghosts:
  assumes "om_ok t" and "om_get t k = ghost_ttl_of k cs"
    and "k \<in> shown g \<longleftrightarrow> recent (gone_of k) (take 3 cs) = Some True"
  shows "om_ok (fst (age drop_ghost t g))
     \<and> om_get (fst (age drop_ghost t g)) k =
         (if recent (gone_of k) (take 2 cs) = Some True then remaining 2 (gone_of k) cs else None)
     \<and> (k \<in> shown (snd (age drop_ghost t g)) \<longleftrightarrow> recent (gone_of k) (take 2 cs) = Some True)"
proof -
  let ?f = "gone_of k"
  have two: "recent ?f (take 2 cs) = (if expired (remaining 3 ?f cs) then None else recent ?f (take 3 cs))"
    using remaining_expired [of ?f 2 cs] by (simp add: numeral_3_eq_3 numeral_2_eq_2)
  have aged: "remaining 2 ?f cs = aged (remaining 3 ?f cs)"
    using remaining_aged [of 2 ?f cs] by (simp add: numeral_3_eq_3 numeral_2_eq_2)
  have gone: "recent ?f (take 2 cs) = None \<Longrightarrow> remaining 2 ?f cs = None"
    by (simp add: remaining_None)
  have parts: "om_ok (aged_table t)" "om_get (aged_table t) k = aged (om_get t k)"
      "k \<in> set (expired_keys t) \<longleftrightarrow> expired (om_get t k)"
    by (rule om_ok_aged [OF assms(1)], rule get_aged [OF assms(1)], rule expired_iff [OF assms(1)])
  show ?thesis
  proof (cases "recent ?f (take 3 cs) = Some True")
    case True
    then have t: "om_get t k = remaining 3 ?f cs" using assms(2) by (simp add: ghost_ttl_of_def)
    show ?thesis
      using parts two aged gone True assms(3) unfolding age_eq t
      by (cases "expired (remaining 3 ?f cs)") (simp_all add: shown_fold_drop)
  next
    case False
    then have t: "om_get t k = None" using assms(2) by (simp add: ghost_ttl_of_def)
    have "recent ?f (take 2 cs) \<noteq> Some True" using False two by (simp split: if_splits)
    then show ?thesis
      using parts False assms(3) unfolding age_eq t by (simp add: shown_fold_drop aged_def expired_def)
  qed
qed

text \<open>Every pair that vanished is among the pairs of the frame before, so it leaves a ghost.\<close>

lemma pair_states_keys: "fst ` set (pair_states snap) =
   (\<Union>t \<in> set (sn_topics snap). (\<lambda>p. pk_ident (pair_key_of (sn_endpoints snap) t p)) ` set (t_pairs t))"
proof -
  have inner: "fst ` set (fold (\<lambda>p. put_state (pair_key_of eps t p) (pair_state_of p)) ps m) =
      fst ` set m \<union> (\<lambda>p. pk_ident (pair_key_of eps t p)) ` set ps" for eps t ps m
    by (induction ps arbitrary: m) (auto simp: put_state_def)
  have "fst ` set (fold (\<lambda>t. fold (\<lambda>p. put_state (pair_key_of (sn_endpoints snap) t p) (pair_state_of p)) (t_pairs t)) ts m) =
      fst ` set m \<union> (\<Union>t \<in> set ts. (\<lambda>p. pk_ident (pair_key_of (sn_endpoints snap) t p)) ` set (t_pairs t))" for ts m
    by (induction ts arbitrary: m) (auto simp: inner)
  then show ?thesis by (simp add: pair_states_def)
qed

text \<open>What pushing the ghosts of a list of keys does to the two tables.\<close>

definition pushes :: "pair_ident set \<Rightarrow> (pair_ident, int) omap \<times> ghost_pair list \<Rightarrow>
    (pair_ident, int) omap \<times> ghost_pair list \<Rightarrow> bool" where
  "pushes ks st st' \<longleftrightarrow> om_ok (fst st') \<and> shown (snd st') = shown (snd st) \<union> ks
     \<and> (\<forall>k. om_get (fst st') k = (if k \<in> ks then Some kHoldFrames else om_get (fst st) k))"

lemma pushes_trans: "pushes A s t \<Longrightarrow> pushes B t u \<Longrightarrow> pushes (A \<union> B) s u"
  by (auto simp: pushes_def)

lemma pushes_pair:
  assumes "om_ok (fst st)"
  shows "pushes (R \<inter> {pk_ident (pair_key_of (sn_endpoints snap) t p)}) st (put_ghost snap opt R t p st)"
  using assms by (auto simp: pushes_def put_ghost_def shown_def ghost_of_def Let_def)

lemma pushes_pairs:
  assumes "om_ok (fst st)"
  shows "pushes (R \<inter> (\<lambda>p. pk_ident (pair_key_of (sn_endpoints snap) t p)) ` set ps) st (fold (put_ghost snap opt R t) ps st)"
  using assms
proof (induction ps arbitrary: st)
  case (Cons p ps)
  have one: "pushes (R \<inter> {pk_ident (pair_key_of (sn_endpoints snap) t p)}) st (put_ghost snap opt R t p st)"
    by (rule pushes_pair [OF Cons.prems])
  then have "om_ok (fst (put_ghost snap opt R t p st))" by (simp add: pushes_def)
  from pushes_trans [OF one Cons.IH [OF this]] show ?case by (simp add: Int_insert_right Int_Un_distrib split: if_splits)
qed (simp add: pushes_def)

lemma pushes_topics:
  assumes "om_ok (fst st)"
  shows "pushes (R \<inter> (\<Union>t \<in> set ts. (\<lambda>p. pk_ident (pair_key_of (sn_endpoints snap) t p)) ` set (t_pairs t))) st
     (fold (\<lambda>t. fold (put_ghost snap opt R t) (t_pairs t)) ts st)"
  using assms
proof (induction ts arbitrary: st)
  case (Cons t ts)
  have one: "pushes (R \<inter> (\<lambda>p. pk_ident (pair_key_of (sn_endpoints snap) t p)) ` set (t_pairs t)) st
      (fold (put_ghost snap opt R t) (t_pairs t) st)"
    by (rule pushes_pairs [OF Cons.prems])
  then have "om_ok (fst (fold (put_ghost snap opt R t) (t_pairs t) st))" by (simp add: pushes_def)
  from pushes_trans [OF one Cons.IH [OF this]] show ?case by (simp add: Int_Un_distrib)
qed (simp add: pushes_def)

lemma put_ghosts_spec:
  assumes "om_ok (fst st)" and "pk_ident ` set removed \<subseteq> fst ` set (pair_states snap)"
  shows "pushes (pk_ident ` set removed) st (put_ghosts snap opt removed st)"
proof (cases "removed = []")
  case False
  define R where "R = pk_ident ` set removed"
  define st1 where "st1 = (fst st, fold drop_ghost (map pk_ident removed) (snd st))"
  have "R \<inter> fst ` set (pair_states snap) = R" using assms(2) by (auto simp: R_def)
  then have "pushes R st1 (put_ghosts snap opt removed st)"
    using pushes_topics [of st1 R snap "sn_topics snap" opt] assms(1) False
    by (simp add: put_ghosts_def Let_def R_def [symmetric] st1_def pair_states_keys)
  moreover have "shown (snd st1) \<union> R = shown (snd st) \<union> R"
    by (auto simp: st1_def shown_fold_drop R_def)
  ultimately show ?thesis by (simp add: pushes_def st1_def R_def)
qed (simp add: put_ghosts_def pushes_def assms(1))

lemma fold_unghost:
  assumes "om_ok t"
  shows "let st = fold (\<lambda>k st. (om_del (pk_ident k) (fst st), drop_ghost (pk_ident k) (snd st))) ks (t, g)
     in om_ok (fst st) \<and> om_get (fst st) k = (if k \<in> pk_ident ` set ks then None else om_get t k)
       \<and> shown (snd st) = shown g - pk_ident ` set ks"
  using assms by (induction ks arbitrary: t g) (auto simp: Let_def shown_drop)

lemma stored_key: "kv \<in> set (pair_states snap) \<Longrightarrow> pk_ident (fst (snd kv)) = fst kv"
proof -
  define keyed_ok :: "pair_map \<Rightarrow> bool" where "keyed_ok = list_all (\<lambda>kv. pk_ident (fst (snd kv)) = fst kv)"
  have put: "keyed_ok (put_state k s m)" if m: "keyed_ok m" for k s m
  proof -
    define e where "e = (case om_get m (pk_ident k) of None \<Rightarrow> (k, s) | Some e \<Rightarrow> (fst e, s))"
    have "om_get m (pk_ident k) = Some d \<Longrightarrow> pk_ident (fst d) = pk_ident k" for d
      using m map_of_SomeD [of m "pk_ident k" d] unfolding keyed_ok_def list_all_iff by fastforce
    then have "pk_ident (fst e) = pk_ident k" by (simp add: e_def split: option.split)
    moreover have "kv = (pk_ident k, e) \<or> kv \<in> set m" if "kv \<in> set (put_state k s m)" for kv
      using set_om_put [of kv "pk_ident k" e m] that by (simp only: put_state_def e_def [symmetric])
    ultimately show ?thesis using m unfolding keyed_ok_def list_all_iff by fastforce
  qed
  have "keyed_ok (pair_states snap)"
    unfolding pair_states_def by (intro fold_ok [where P = keyed_ok] put) (simp add: keyed_ok_def)
  then show "kv \<in> set (pair_states snap) \<Longrightarrow> pk_ident (fst (snd kv)) = fst kv"
    unfolding keyed_ok_def list_all_iff by blast
qed

lemma removed_keys: "pk_ident ` set (ch_removed (diff (pair_states a) b)) \<subseteq> fst ` set (pair_states a)"
proof -
  have "pk_ident (fst (snd kv)) \<in> fst ` set (pair_states a)" if "kv \<in> set (pair_states a)" for kv
    using stored_key [OF that] that by simp
  then show ?thesis by (auto simp: diff_def diff_maps_def diff_added_def changes0_def)
qed

text \<open>One frame, with the changes it shows.\<close>

lemma frame_marks:
  assumes "marks_inv cs w" and "ghosts_inv cs w"
    and "c = (if wa_have_previous w then diff (wa_last_rendered w) (pair_states s) else sn_changes s)"
    and "pk_ident ` set (ch_removed c) \<subseteq> fst ` set (pair_states (wa_last_snapshot w))"
  shows "marks_inv (c # cs) (watch_frame opt s w) \<and> ghosts_inv (c # cs) (watch_frame opt s w)
     \<and> wa_have_previous (watch_frame opt s w) \<and> wa_last_rendered (watch_frame opt s w) = pair_states s
     \<and> pair_states (wa_last_snapshot (watch_frame opt s w)) = pair_states s"
proof -
  define deco where "deco = wa_deco w"
  define m1 where "m1 = age om_del (wa_mark_ttl w) (wd_marks deco)"
  define g1 where "g1 = age drop_ghost (wa_ghost_ttl w) (wd_ghosts deco)"
  define m2 where "m2 = fold (put_mark (CHR ''+'')) (ch_added c) m1"
  define m3 where "m3 = fold (put_mark (CHR ''~'')) (map pc_key (ch_changed c)) m2"
  define g2 where "g2 = put_ghosts (wa_last_snapshot w) opt (ch_removed c) g1"
  define g3 where "g3 = fold (\<lambda>k st. (om_del (pk_ident k) (fst st), drop_ghost (pk_ident k) (snd st))) (ch_added c) g2"
  have frame: "wa_mark_ttl (watch_frame opt s w) = fst m3" "wd_marks (wa_deco (watch_frame opt s w)) = snd m3"
      "wa_ghost_ttl (watch_frame opt s w) = fst g3" "wd_ghosts (wa_deco (watch_frame opt s w)) = snd g3"
      "wa_have_previous (watch_frame opt s w)" "wa_last_rendered (watch_frame opt s w) = pair_states s"
      "wa_last_snapshot (watch_frame opt s w) = s\<lparr>sn_has_changes := True, sn_changes := c\<rparr>"
    by (simp_all add: watch_frame_def watch_diff_def watch_keep_def Let_def assms(3) deco_def m1_def m2_def m3_def
        g1_def g2_def g3_def case_prod_beta)
  have "pair_states (s\<lparr>sn_has_changes := True, sn_changes := c\<rparr>) = pair_states s" by (simp add: pair_states_def)
  note marks = assms(1) [unfolded marks_inv_def, folded deco_def]
  have m1: "om_ok (fst m1) \<and> om_ok (snd m1) \<and> om_get (fst m1) k = remaining 2 (marks_of k) cs
      \<and> om_get (snd m1) k = recent (marks_of k) (take 2 cs)" for k
    unfolding m1_def using marks by (intro age_marks) blast+
  have m2: "om_ok (fst m2) \<and> om_ok (snd m2)
      \<and> om_get (fst m2) k = (if k \<in> pk_ident ` set (ch_added c) then Some kHoldFrames else om_get (fst m1) k)
      \<and> om_get (snd m2) k = (if k \<in> pk_ident ` set (ch_added c) then Some (CHR ''+'') else om_get (snd m1) k)" for k
    unfolding m2_def using fold_put_mark [of "fst m1" "snd m1"] m1 by simp
  have m3: "om_ok (fst m3) \<and> om_ok (snd m3)
      \<and> om_get (fst m3) k = (if k \<in> pk_ident ` pc_key ` set (ch_changed c) then Some kHoldFrames else om_get (fst m2) k)
      \<and> om_get (snd m3) k = (if k \<in> pk_ident ` pc_key ` set (ch_changed c) then Some (CHR ''~'') else om_get (snd m2) k)" for k
    unfolding m3_def using fold_put_mark [of "fst m2" "snd m2"] m2 by simp
  have "marks_inv (c # cs) (watch_frame opt s w)"
    unfolding marks_inv_def frame using m1 m2 m3
    by (simp add: marks_of_def kHoldFrames_def take_Cons' numeral_3_eq_3 numeral_2_eq_2)
  moreover have "ghosts_inv (c # cs) (watch_frame opt s w)"
  proof -
    note ghosts = assms(2) [unfolded ghosts_inv_def, folded deco_def]
    have g1: "om_ok (fst g1)
        \<and> om_get (fst g1) k = (if recent (gone_of k) (take 2 cs) = Some True then remaining 2 (gone_of k) cs else None)
        \<and> (k \<in> shown (snd g1) \<longleftrightarrow> recent (gone_of k) (take 2 cs) = Some True)" for k
      unfolding g1_def using ghosts by (intro age_ghosts) blast+
    have "pushes (pk_ident ` set (ch_removed c)) g1 g2"
      unfolding g2_def using g1 assms(4) by (intro put_ghosts_spec) blast+
    then have g2: "om_ok (fst g2) \<and> shown (snd g2) = shown (snd g1) \<union> pk_ident ` set (ch_removed c)
        \<and> om_get (fst g2) k = (if k \<in> pk_ident ` set (ch_removed c) then Some kHoldFrames else om_get (fst g1) k)" for k
      unfolding pushes_def by blast
    have g3: "om_ok (fst g3) \<and> om_get (fst g3) k = (if k \<in> pk_ident ` set (ch_added c) then None else om_get (fst g2) k)
        \<and> shown (snd g3) = shown (snd g2) - pk_ident ` set (ch_added c)" for k
      unfolding g3_def using fold_unghost [of "fst g2" "ch_added c" "snd g2"] g2 by (simp add: Let_def)
    have "om_get (fst g3) k = ghost_ttl_of k (c # cs)
        \<and> (k \<in> shown (snd g3) \<longleftrightarrow> recent (gone_of k) (take 3 (c # cs)) = Some True)" for k
      using g1 [of k] g2 [of k] g3 [of k]
      by (cases "k \<in> pk_ident ` set (ch_added c)"; cases "k \<in> pk_ident ` set (ch_removed c)")
        (simp_all add: gone_of_def ghost_ttl_of_def kHoldFrames_def take_Cons' numeral_3_eq_3 numeral_2_eq_2)
    then show ?thesis unfolding ghosts_inv_def frame using g3 by blast
  qed
  ultimately show ?thesis using frame \<open>pair_states (s\<lparr>sn_has_changes := True, sn_changes := c\<rparr>) = pair_states s\<close> by simp
qed

lemma diff_changes0: "pk_ident ` set (ch_removed changes0) = {}"
  by (simp add: changes0_def)

lemma frames_inv:
  assumes "list_all (\<lambda>s. sn_changes s = changes0) frames"
  shows "marks_inv (rev (frame_changes frames)) (run_frames opt frames)
     \<and> ghosts_inv (rev (frame_changes frames)) (run_frames opt frames)
     \<and> wa_have_previous (run_frames opt frames) = (frames \<noteq> [])
     \<and> (frames \<noteq> [] \<longrightarrow> wa_last_rendered (run_frames opt frames) = pair_states (last frames)
       \<and> pair_states (wa_last_snapshot (run_frames opt frames)) = pair_states (last frames))"
  using assms
proof (induction frames rule: rev_induct)
  case Nil
  then show ?case
    by (simp add: run_frames_def frame_changes_def marks_inv_def ghosts_inv_def watch_state0_def
        watch_decorations0_def ghost_ttl_of_def shown_def)
next
  case (snoc s frames)
  define w where "w = run_frames opt frames"
  define c where "c = (if frames = [] then changes0 else diff (pair_states (last frames)) (pair_states s))"
  have ih: "marks_inv (rev (frame_changes frames)) w" "ghosts_inv (rev (frame_changes frames)) w"
      "wa_have_previous w = (frames \<noteq> [])"
      "frames \<noteq> [] \<Longrightarrow> wa_last_rendered w = pair_states (last frames)"
      "frames \<noteq> [] \<Longrightarrow> pair_states (wa_last_snapshot w) = pair_states (last frames)"
    using snoc by (simp_all add: w_def)
  have s: "sn_changes s = changes0" using snoc.prems by simp
  have c: "c = (if wa_have_previous w then diff (wa_last_rendered w) (pair_states s) else sn_changes s)"
    using ih s by (simp add: c_def)
  have r: "pk_ident ` set (ch_removed c) \<subseteq> fst ` set (pair_states (wa_last_snapshot w))"
    using ih(5) removed_keys [of "last frames" "pair_states s"] diff_changes0 by (simp add: c_def)
  have "run_frames opt (frames @ [s]) = watch_frame opt s w" by (simp add: run_frames_def w_def)
  moreover have "rev (frame_changes (frames @ [s])) = c # rev (frame_changes frames)"
    by (simp add: frame_changes_snoc c_def)
  ultimately show ?case using frame_marks [OF ih(1,2) c r, of opt] by simp
qed

text \<open>
  C18. After any frames of \<open>--watch\<close>, whose snapshots come without changes of their own, a pair is marked
  with what the newest of the last three comparisons that added or changed it says, and it has a ghost
  row exactly when the newest of the last three that added or removed it removed it: the tables of
  times to live, the erasing while iterating and the ghosts pushed and dropped come to that.
\<close>

theorem watch_state_exact:
  assumes "list_all (\<lambda>s. sn_changes s = changes0) frames"
  shows "om_get (wd_marks (wa_deco (run_frames opt frames))) k =
      recent (marks_of k) (take 3 (rev (frame_changes frames))) \<and>
    k \<in> shown (wd_ghosts (wa_deco (run_frames opt frames))) =
      (recent (gone_of k) (take 3 (rev (frame_changes frames))) = Some True)"
  using frames_inv [OF assms, of opt] unfolding marks_inv_def ghosts_inv_def by blast

definition sample_frame :: snapshot where
  "sample_frame = snapshot0\<lparr>sn_endpoints := [endpoint0\<lparr>guid := ''w''\<rparr>, endpoint0\<lparr>guid := ''r''\<rparr>],
     sn_topics := [topic_summary0\<lparr>t_display_topic := ''/t'', t_pairs := [\<lparr>p_writer = 0, p_reader = 1,
       p_verdict = verdict0, p_measured = measurement0\<rparr>]\<rparr>]\<rparr>"

text \<open>A pair of the first frame that the second no longer has.\<close>

theorem watch_state_exact_witness:
  "(''/t'', ''w'', ''r'') \<in> shown (wd_ghosts (wa_deco (run_frames render_options0 [sample_frame, snapshot0])))"
proof -
  let ?k = "(''/t'', ''w'', ''r'')"
  have "list_all (\<lambda>s. sn_changes s = changes0) [sample_frame, snapshot0]"
    by (simp add: sample_frame_def snapshot0_def)
  from conjunct2 [OF watch_state_exact [OF this, of render_options0 ?k]]
  have "?k \<in> shown (wd_ghosts (wa_deco (run_frames render_options0 [sample_frame, snapshot0]))) =
     (recent (gone_of ?k) (take 3 (rev (frame_changes [sample_frame, snapshot0]))) = Some True)" .
  moreover have "pair_states snapshot0 = []" by (simp add: pair_states_def snapshot0_def)
  moreover obtain key state where "pair_states sample_frame = [(?k, (key, state))]" "pk_ident key = ?k"
    by (simp add: pair_states_def sample_frame_def put_state_def pair_key_of_def pk_ident_def)
  ultimately show ?thesis
    by (simp add: frame_changes_def gone_of_def diff_def diff_maps_def diff_added_def changes0_def)
qed

end
