(* ===== verification/Json.thy ===== *)
theory Json
  imports Model
begin

text \<open>
  JSON values and the part of \<open>nlohmann::json\<close> the program uses. An object is a
  \<open>std::map\<close> from keys to values. Integers keep the kind they were stored with, which decides what
  the conversions accept; the text of a document (\<open>dump\<close>, \<open>parse\<close>) is the library's and stays outside.
\<close>

datatype json =
    JNull
  | JBool bool
  | JUnsigned u64
  | JInteger int
  | JFloat double
  | JString string
  | JArray "json list"
  | JObject "(string \<times> json) list"

text \<open>
  What reading can end with: a \<open>ParseError\<close> with its message, an exception of the library (its text
  is not the program's), or a \<open>ParseError\<close> made of a prefix and the text of such an exception.
\<close>

datatype failure = ParseError string | Thrown | Wrapped string

type_synonym 'a reading = "failure + 'a"

definition bnd :: "'e + 'a \<Rightarrow> ('a \<Rightarrow> 'e + 'b) \<Rightarrow> 'e + 'b" where
  "bnd m f = (case m of Inl e \<Rightarrow> Inl e | Inr x \<Rightarrow> f x)"

lemma bnd_simps [simp]: "bnd (Inl e) f = Inl e" "bnd (Inr x) f = f x"
  by (simp_all add: bnd_def)

fun read_each :: "('a \<Rightarrow> 'e + 'b) \<Rightarrow> 'a list \<Rightarrow> 'e + 'b list" where
  "read_each f [] = Inr []"
| "read_each f (x # xs) = bnd (f x) (\<lambda>y. bnd (read_each f xs) (\<lambda>ys. Inr (y # ys)))"

text \<open>\<open>catch (const ParseError &) {throw;} catch (const std::exception & e) {throw ParseError(p + e.what());}\<close>\<close>

definition wrapping :: "string \<Rightarrow> 'a reading \<Rightarrow> 'a reading" where
  "wrapping p r = (case r of Inl Thrown \<Rightarrow> Inl (Wrapped p) | r \<Rightarrow> r)"

subsection \<open>Building\<close>

text \<open>A braced list of keys and values: \<open>std::map::emplace\<close> keeps the first value of a key.\<close>

definition emplace :: "string \<times> json \<Rightarrow> (string, json) omap \<Rightarrow> (string, json) omap" where
  "emplace kv m = (if om_get m (fst kv) = None then om_put (fst kv) (snd kv) m else m)"

definition obj :: "(string \<times> json) list \<Rightarrow> json" where
  "obj kvs = JObject (fold emplace kvs [])"

text \<open>\<open>j[k] = v\<close>, where \<open>j\<close> is an object or null.\<close>

definition jput :: "string \<Rightarrow> json \<Rightarrow> json \<Rightarrow> json" where
  "jput k v j = (case j of JObject m \<Rightarrow> JObject (om_put k v m) | _ \<Rightarrow> JObject [(k, v)])"

definition strings :: "string list \<Rightarrow> json" where
  "strings ss = JArray (map JString ss)"

definition jsize :: "nat \<Rightarrow> json" where
  "jsize n = JUnsigned (of_nat n)"

definition ju32 :: "u32 \<Rightarrow> json" where
  "ju32 n = JUnsigned (ucast n)"

definition jif :: "bool \<Rightarrow> json \<Rightarrow> json" where
  "jif c v = (if c then v else JNull)"

subsection \<open>Looking\<close>

fun json_find :: "string \<Rightarrow> json \<Rightarrow> json option" where
  "json_find k (JObject m) = om_get m k"
| "json_find k j = None"

fun is_object :: "json \<Rightarrow> bool" where
  "is_object (JObject m) = True"
| "is_object j = False"

fun is_array :: "json \<Rightarrow> bool" where
  "is_array (JArray xs) = True"
| "is_array j = False"

fun is_number :: "json \<Rightarrow> bool" where
  "is_number (JUnsigned n) = True"
| "is_number (JInteger n) = True"
| "is_number (JFloat d) = True"
| "is_number j = False"

fun is_integer :: "json \<Rightarrow> bool" where
  "is_integer (JUnsigned n) = True"
| "is_integer (JInteger n) = True"
| "is_integer j = False"

text \<open>What a range-based \<open>for\<close> visits: a value that is no container is visited once.\<close>

fun json_elements :: "json \<Rightarrow> json list" where
  "json_elements (JArray xs) = xs"
| "json_elements (JObject m) = map snd m"
| "json_elements JNull = []"
| "json_elements j = [j]"

text \<open>\<open>items()\<close>: the elements with their keys, which are indices in an array.\<close>

fun json_items :: "json \<Rightarrow> (string \<times> json) list" where
  "json_items (JArray xs) = map (\<lambda>(i, x). (dec i, x)) (enumerate 0 xs)"
| "json_items (JObject m) = m"
| "json_items JNull = []"
| "json_items j = [([], j)]"

subsection \<open>Converting\<close>

text \<open>
  \<open>get<T>()\<close> for the types the program asks for, \<open>None\<close> where it throws. What the library does with
  values of another kind than the one asked for is its own; the laws that the program relies on for
  the values it writes are those of the locale below.
\<close>

record json_lib =
  lib_string :: "json \<Rightarrow> string option"
  lib_bool :: "json \<Rightarrow> bool option"
  lib_u64 :: "json \<Rightarrow> u64 option" \<comment> \<open>\<open>uint64_t\<close>, \<open>size_t\<close>\<close>
  lib_ull :: "json \<Rightarrow> u64 option" \<comment> \<open>\<open>unsigned long long\<close>, the type of the default \<open>0ULL\<close>\<close>
  lib_u32 :: "json \<Rightarrow> u32 option"
  lib_int :: "json \<Rightarrow> int option"
  lib_double :: "json \<Rightarrow> double option"

definition converted :: "'a option \<Rightarrow> 'a reading" where
  "converted r = (case r of None \<Rightarrow> Inl Thrown | Some x \<Rightarrow> Inr x)"

definition as_string :: "json_lib \<Rightarrow> json \<Rightarrow> string reading" where
  "as_string L j = converted (lib_string L j)"

definition as_bool :: "json_lib \<Rightarrow> json \<Rightarrow> bool reading" where
  "as_bool L j = converted (lib_bool L j)"

definition as_u64 :: "json_lib \<Rightarrow> json \<Rightarrow> u64 reading" where
  "as_u64 L j = converted (lib_u64 L j)"

definition as_ull :: "json_lib \<Rightarrow> json \<Rightarrow> u64 reading" where
  "as_ull L j = converted (lib_ull L j)"

definition as_u32 :: "json_lib \<Rightarrow> json \<Rightarrow> u32 reading" where
  "as_u32 L j = converted (lib_u32 L j)"

definition as_int :: "json_lib \<Rightarrow> json \<Rightarrow> int reading" where
  "as_int L j = converted (lib_int L j)"

definition as_double :: "json_lib \<Rightarrow> json \<Rightarrow> double reading" where
  "as_double L j = converted (lib_double L j)"

definition as_list :: "(json \<Rightarrow> 'a reading) \<Rightarrow> json \<Rightarrow> 'a list reading" where
  "as_list f j = (case j of JArray xs \<Rightarrow> read_each f xs | _ \<Rightarrow> Inl Thrown)"

text \<open>\<open>j.value(k, d)\<close>: the conversion of the value, the default where the key is missing.\<close>

definition value_or :: "(json \<Rightarrow> 'a reading) \<Rightarrow> 'a \<Rightarrow> string \<Rightarrow> json \<Rightarrow> 'a reading" where
  "value_or f d k j =
     (if \<not> is_object j then Inl Thrown
      else case json_find k j of None \<Rightarrow> Inr d | Some v \<Rightarrow> f v)"

subsection \<open>A document read back\<close>

text \<open>
  What \<open>parse\<close> makes of what \<open>dump\<close> wrote: a number that is not finite was written as \<open>null\<close>, an
  integer that is not negative comes back unsigned.
\<close>

fun reread :: "json \<Rightarrow> json" where
  "reread (JInteger i) = (if 0 \<le> i then JUnsigned (of_int i) else JInteger i)"
| "reread (JFloat d) = (case d of Fin x \<Rightarrow> JFloat d | _ \<Rightarrow> JNull)"
| "reread (JArray xs) = JArray (map reread xs)"
| "reread (JObject m) = JObject (map (\<lambda>(k, v). (k, reread v)) m)"
| "reread j = j"

subsection \<open>Lemmas\<close>

lemmas reread_float = reread.simps(2)

declare reread_float [simp del]

lemma om_ok_emplace: "om_ok m \<Longrightarrow> om_ok (fold emplace kvs m)"
  by (induction kvs arbitrary: m) (simp_all add: emplace_def)

lemma get_emplace: "om_ok m \<Longrightarrow>
  om_get (fold emplace kvs m) k = (case om_get m k of Some v \<Rightarrow> Some v | None \<Rightarrow> map_of kvs k)"
proof (induction kvs arbitrary: m)
  case (Cons kv kvs)
  then have "om_ok (emplace kv m)" by (simp add: emplace_def)
  from Cons.IH [OF this] Cons.prems show ?case
    by (cases kv) (auto simp: emplace_def split: option.split)
qed (simp split: option.split)

lemma find_obj [simp]: "json_find k (obj kvs) = map_of kvs k"
  by (simp add: obj_def get_emplace)

lemma is_object_obj [simp]: "is_object (obj kvs)"
  by (simp add: obj_def)

lemma is_object_jput [simp]: "is_object (jput k v j)"
  by (simp add: jput_def split: json.split)

definition object_ok :: "json \<Rightarrow> bool" where
  "object_ok j \<longleftrightarrow> (case j of JObject m \<Rightarrow> om_ok m | _ \<Rightarrow> False)"

lemma object_ok_obj [simp]: "object_ok (obj kvs)"
  by (simp add: obj_def object_ok_def om_ok_emplace)

lemma object_ok_jput [simp]: "object_ok j \<Longrightarrow> object_ok (jput k v j)"
  by (cases j) (simp_all add: jput_def object_ok_def)

lemma find_jput [simp]: "object_ok j \<Longrightarrow> json_find i (jput k v j) = (if i = k then Some v else json_find i j)"
  by (cases j) (simp_all add: jput_def object_ok_def)

lemma om_get_map: "om_get (map (\<lambda>(k, v). (k, f v)) m) k = map_option f (om_get m k)"
  by (induction m) auto

lemma find_reread [simp]: "json_find k (reread j) = map_option reread (json_find k j)"
  by (cases j) (simp_all add: om_get_map reread_float split: double.split)

lemma is_object_reread [simp]: "is_object (reread j) = is_object j"
  by (cases j) (simp_all add: reread_float split: double.split)

lemma object_ok_is_object [simp]: "object_ok j \<Longrightarrow> is_object j"
  by (cases j) (simp_all add: object_ok_def)

lemma reread_strings [simp]: "reread (strings ss) = strings ss"
  by (simp add: strings_def)

lemma reread_jsize [simp]: "reread (jsize n) = jsize n" "reread (ju32 p) = ju32 p"
  by (simp_all add: jsize_def ju32_def)

lemma reread_jif [simp]: "reread (jif c v) = jif c (reread v)"
  by (simp add: jif_def)

lemma read_each_map [simp]: "read_each f (map g xs) = read_each (\<lambda>x. f (g x)) xs"
  by (induction xs) simp_all

lemma read_each_ok: "(\<And>x. x \<in> set xs \<Longrightarrow> f x = Inr (g x)) \<Longrightarrow> read_each f xs = Inr (map g xs)"
  by (induction xs) simp_all

lemma read_each_Inr [simp]: "read_each Inr xs = Inr xs"
  by (induction xs) simp_all

subsection \<open>The laws of the conversions\<close>

text \<open>A value is read back as the type it was stored with.\<close>

locale json_library =
  fixes L :: json_lib
  assumes string_law: "lib_string L (JString s) = Some s"
    and bool_law: "lib_bool L (JBool b) = Some b"
    and u64_law: "lib_u64 L (JUnsigned n) = Some n"
    and ull_law: "lib_ull L (JUnsigned n) = Some n"
    and u32_law: "lib_u32 L (JUnsigned (ucast (p :: u32))) = Some p"
    and int_law: "- (2 ^ 31) \<le> i \<Longrightarrow> i < 2 ^ 31 \<Longrightarrow> lib_int L (reread (JInteger i)) = Some i"
    and double_law: "lib_double L (JFloat (Fin x)) = Some (Fin x)"

context json_library
begin

lemma conversions [simp]:
  "as_string L (JString s) = Inr s" "as_bool L (JBool b) = Inr b" "as_u64 L (JUnsigned n) = Inr n"
  "as_ull L (JUnsigned n) = Inr n" "as_u32 L (ju32 p) = Inr p" "as_double L (JFloat (Fin x)) = Inr (Fin x)"
  by (simp_all add: as_string_def as_bool_def as_u64_def as_ull_def as_u32_def as_double_def ju32_def
      converted_def string_law bool_law u64_law ull_law u32_law double_law)

lemma as_int_back: "- (2 ^ 31) \<le> i \<Longrightarrow> i < 2 ^ 31 \<Longrightarrow> as_int L (reread (JInteger i)) = Inr i"
  by (simp add: as_int_def converted_def int_law del: reread.simps(1))

lemma as_list_strings [simp]: "as_list (as_string L) (strings ss) = Inr ss"
  by (simp add: as_list_def strings_def)

lemma as_list_u64 [simp]: "as_list (as_u64 L) (JArray (map JUnsigned ns)) = Inr ns"
  by (simp add: as_list_def)

lemma as_list_u32 [simp]: "as_list (as_u32 L) (JArray (map ju32 ns)) = Inr ns"
  by (simp add: as_list_def)

end

text \<open>
  Conversions that satisfy the laws: a number is converted to any number type, a negative integer wraps
  and a floating value is cut.
\<close>

fun d_cut :: "double \<Rightarrow> int" where
  "d_cut (Fin x) = (if x < 0 then \<lceil>x\<rceil> else \<lfloor>x\<rfloor>)"
| "d_cut d = 0"

fun number_value :: "json \<Rightarrow> u64 option" where
  "number_value (JUnsigned n) = Some n"
| "number_value (JInteger i) = Some (of_int i)"
| "number_value (JFloat d) = Some (of_int (d_cut d))"
| "number_value j = None"

fun double_value :: "json \<Rightarrow> double option" where
  "double_value (JUnsigned n) = Some (d_of_nat (unat n))"
| "double_value (JInteger i) = Some (rnd (of_int i))"
| "double_value (JFloat d) = Some d"
| "double_value j = None"

definition plain_lib :: json_lib where
  "plain_lib = \<lparr>lib_string = (\<lambda>j. case j of JString s \<Rightarrow> Some s | _ \<Rightarrow> None),
     lib_bool = (\<lambda>j. case j of JBool b \<Rightarrow> Some b | _ \<Rightarrow> None),
     lib_u64 = number_value, lib_ull = number_value,
     lib_u32 = (\<lambda>j. map_option ucast (number_value j)),
     lib_int = (\<lambda>j. map_option (\<lambda>n. sint (ucast n :: u32)) (number_value j)),
     lib_double = double_value\<rparr>"

interpretation plain: json_library plain_lib
proof
  show "lib_u32 plain_lib (JUnsigned (ucast p)) = Some p" for p :: u32
    by (simp add: plain_lib_def) (transfer, simp add: take_bit_take_bit)
  show "lib_int plain_lib (reread (JInteger i)) = Some i" if "- (2 ^ 31) \<le> i" "i < 2 ^ 31" for i
  proof -
    have "sint (ucast (of_int i :: u64) :: u32) = signed_take_bit 31 i"
      by transfer (simp add: signed_take_bit_take_bit min_def)
    also have "\<dots> = i" using that by (simp add: signed_take_bit_int_eq_self)
    finally show ?thesis by (simp add: plain_lib_def)
  qed
qed (simp_all add: plain_lib_def)

end
