(* ===== verification/Parse_Json.thy ===== *)
theory Parse_Json
  imports Json Spelling Topics
begin

text \<open>
  \<open>src/parse_json.cpp\<close>: a snapshot from a document, for \<open>transport_viz diff\<close>. Every \<open>throw\<close> of the
  source and every exception of the library is a value of \<open>failure\<close>. The library's \<open>parse\<close> and
  \<open>dump\<close> are parameters; \<open>parse\<close> throws a \<open>parse_error\<close>, which the code catches, or an \<open>out_of_range\<close>
  for a number that no \<open>double\<close> holds, which it does not.
\<close>

subsection \<open>Access\<close>

definition at_key :: "json \<Rightarrow> string \<Rightarrow> string \<Rightarrow> json reading" where
  "at_key j key ctx = (case json_find key j of
     None \<Rightarrow> Inl (ParseError (ctx @ '': missing '' @ [CHR 0x27] @ key @ [CHR 0x27]))
   | Some v \<Rightarrow> Inr v)"

definition get_at :: "(json \<Rightarrow> 'a reading) \<Rightarrow> json \<Rightarrow> string \<Rightarrow> string \<Rightarrow> 'a reading" where
  "get_at f j key ctx = bnd (at_key j key ctx) f"

definition number_or :: "json_lib \<Rightarrow> double \<Rightarrow> json \<Rightarrow> double reading" where
  "number_or L fallback j = (if is_number j then as_double L j else Inr fallback)"

text \<open>\<open>j.value(key, json(nullptr))\<close>\<close>

definition value_json :: "string \<Rightarrow> json \<Rightarrow> json reading" where
  "value_json key j = value_or Inr JNull key j"

text \<open>The readers of \<open>Spelling\<close>, whose \<open>Inl\<close> is the message of a \<open>ParseError\<close>.\<close>

definition parsed :: "string + 'a \<Rightarrow> 'a reading" where
  "parsed r = (case r of Inl m \<Rightarrow> Inl (ParseError m) | Inr x \<Rightarrow> Inr x)"

definition read_host_id :: "string \<Rightarrow> host_id reading" where
  "read_host_id hex = (if length hex = 8 then (case parse_host_id hex of Inl m \<Rightarrow> Inl Thrown | Inr x \<Rightarrow> Inr x)
     else parsed (parse_host_id hex))"

subsection \<open>Endpoints\<close>

definition read_locator :: "json_lib \<Rightarrow> string \<Rightarrow> json \<Rightarrow> locator reading" where
  "read_locator L ctx j =
     bnd (get_at (\<lambda>v. bnd (as_string L v) (\<lambda>s. parsed (parse_locator_kind s))) j ''kind'' ctx) (\<lambda>k.
     bnd (get_at (as_string L) j ''address'' ctx) (\<lambda>a.
     bnd (get_at (as_u32 L) j ''port'' ctx) (\<lambda>p.
     Inr \<lparr>loc_kind = k, loc_address = a, loc_port = p\<rparr>)))"

definition read_locators :: "json_lib \<Rightarrow> string \<Rightarrow> json \<Rightarrow> locator list reading" where
  "read_locators L ctx j = read_each (read_locator L ctx) (json_elements j)"

definition read_qos :: "json_lib \<Rightarrow> string \<Rightarrow> json \<Rightarrow> endpoint_qos reading" where
  "read_qos L ctx j =
     bnd (get_at (as_string L) j ''reliability'' ctx) (\<lambda>r.
     bnd (get_at (as_string L) j ''durability'' ctx) (\<lambda>d.
     bnd (get_at (as_string L) j ''data_sharing'' ctx) (\<lambda>s.
     bnd (value_or (as_list (as_u64 L)) [] ''data_sharing_domain_ids'' j) (\<lambda>ds.
     bnd (bnd (value_json ''deadline_s'' j) (number_or L PInf)) (\<lambda>dl.
     bnd (value_or (as_string L) ''AUTOMATIC'' ''liveliness'' j) (\<lambda>l.
     bnd (bnd (value_json ''liveliness_lease_s'' j) (number_or L PInf)) (\<lambda>ll.
     bnd (value_or (as_string L) ''SHARED'' ''ownership'' j) (\<lambda>w.
     bnd (value_or (as_list (as_string L)) [] ''partitions'' j) (\<lambda>p.
     Inr \<lparr>reliability = r, durability = d, data_sharing = parse_data_sharing s, data_sharing_domains = ds,
       deadline_s = dl, liveliness = l, liveliness_lease_s = ll, ownership = w, partitions = p\<rparr>)))))))))"

text \<open>A number that is there, nothing otherwise.\<close>

definition number_at :: "(json \<Rightarrow> 'a reading) \<Rightarrow> string \<Rightarrow> json \<Rightarrow> 'a option reading" where
  "number_at f key j = (case json_find key j of
     Some v \<Rightarrow> if is_number v then bnd (f v) (\<lambda>x. Inr (Some x)) else Inr None
   | None \<Rightarrow> Inr None)"

definition read_names :: "json_lib \<Rightarrow> string \<Rightarrow> json \<Rightarrow> endpoint \<Rightarrow> endpoint reading" where
  "read_names L ctx j e =
     bnd (get_at (as_string L) j ''guid'' ctx) (\<lambda>g.
     bnd (get_at (as_string L) j ''participant_guid_prefix'' ctx) (\<lambda>p.
     bnd (get_at (\<lambda>v. bnd (as_string L v) read_host_id) j ''host_id'' ctx) (\<lambda>h.
     bnd (get_at (as_string L) j ''node'' ctx) (\<lambda>n.
     bnd (value_or (as_string L) [] ''host_name'' j) (\<lambda>hn.
     bnd (value_or (as_string L) [] ''process'' j) (\<lambda>pr.
     bnd (value_or (as_string L) [] ''buffer_parent_guid'' j) (\<lambda>b.
     Inr (e\<lparr>guid := g, guid_bytes := parse_guid_bytes g, participant_guid_prefix := p, ep_host_id := h,
       node_name := normalize_node_name n, host_name := hn, process := pr, buffer_parent_guid := b\<rparr>))))))))"

definition read_types :: "json_lib \<Rightarrow> string \<Rightarrow> json \<Rightarrow> endpoint \<Rightarrow> endpoint reading" where
  "read_types L ctx j e =
     bnd (get_at (as_string L) j ''dds_topic'' ctx) (\<lambda>dt.
     bnd (get_at (as_string L) j ''dds_type'' ctx) (\<lambda>dy.
     bnd (get_at (as_string L) j ''ros_topic'' ctx) (\<lambda>rt.
     bnd (get_at (as_string L) j ''ros_type'' ctx) (\<lambda>ry.
     bnd (value_or (as_string L) [] ''type_hash'' j) (\<lambda>th.
     bnd (value_or (as_string L) [] ''type_information_hash'' j) (\<lambda>ti.
     bnd (value_or (as_string L) [] ''type_information_minimal_hash'' j) (\<lambda>tm.
     Inr (e\<lparr>dds_topic := dt, dds_type := dy, ros_topic := rt, ros_type := ry, type_hash := th,
       type_information_hash := ti, type_information_minimal_hash := tm\<rparr>))))))))"

definition read_transports :: "json_lib \<Rightarrow> string \<Rightarrow> json \<Rightarrow> endpoint \<Rightarrow> endpoint reading" where
  "read_transports L ctx j e =
     bnd (get_at (read_locators L ctx) j ''unicast_locators'' ctx) (\<lambda>u.
     bnd (get_at (read_locators L ctx) j ''multicast_locators'' ctx) (\<lambda>m.
     bnd (number_at (as_u64 L) ''datasharing_history_bytes'' j) (\<lambda>ds.
     bnd (value_or (as_string L) ''unprobed'' ''datasharing_segment_visibility'' j) (\<lambda>v.
     bnd (get_at (read_qos L ctx) j ''qos'' ctx) (\<lambda>q.
     Inr (e\<lparr>unicast := u, multicast := m, datasharing_history_available := (ds \<noteq> None),
       datasharing_history_bytes := (case ds of None \<Rightarrow> 0 | Some n \<Rightarrow> n),
       datasharing_segment_visibility := parse_shm_visibility v, qos := q\<rparr>))))))"

definition read_endpoint :: "json_lib \<Rightarrow> bool \<Rightarrow> string \<Rightarrow> json \<Rightarrow> endpoint reading" where
  "read_endpoint L writer ctx j =
     bnd (read_names L ctx j (endpoint0\<lparr>is_writer := writer\<rparr>)) (\<lambda>e.
     bnd (read_types L ctx j e) (read_transports L ctx j))"

subsection \<open>Measurements\<close>

definition read_measured_locator :: "json_lib \<Rightarrow> string \<Rightarrow> json \<Rightarrow> measured_locator reading" where
  "read_measured_locator L ctx j =
     bnd (read_locator L ctx j) (\<lambda>l.
     bnd (value_or (as_ull L) 0 ''packets'' j) (\<lambda>p.
     bnd (value_or (as_double L) (Fin 0) ''bytes'' j) (\<lambda>b.
     Inr \<lparr>ml_locator = l, ml_packets = p, ml_bytes = b\<rparr>)))"

definition read_latency :: "json_lib \<Rightarrow> json \<Rightarrow> latency_stat reading" where
  "read_latency L j =
     bnd (value_or (as_ull L) 0 ''samples'' j) (\<lambda>n.
     bnd (value_or (as_double L) (Fin 0) ''mean'' j) (\<lambda>mean.
     bnd (value_or (as_double L) (Fin 0) ''min'' j) (\<lambda>mi.
     bnd (value_or (as_double L) (Fin 0) ''max'' j) (\<lambda>ma.
     bnd (value_or (as_double L) (Fin 0) ''last'' j) (\<lambda>l.
     Inr \<lparr>lat_sum = d_mul mean (d_of_nat (unat n)), lat_min = mi, lat_max = ma, lat_last = l,
       lat_samples = n\<rparr>)))))"

text \<open>\<open>v.is_number() ? v.get<uint64_t>() : 0\<close>, with whether it was a number.\<close>

definition counter :: "json_lib \<Rightarrow> json \<Rightarrow> (bool \<times> u64) reading" where
  "counter L v = (if is_number v then bnd (as_u64 L v) (\<lambda>n. Inr (True, n)) else Inr (False, 0))"

definition read_reliability :: "json_lib \<Rightarrow> json \<Rightarrow> reliability_stat reading" where
  "read_reliability L j =
     bnd (bnd (value_json ''lost_packets'' j) (counter L)) (\<lambda>l.
     bnd (value_or (as_ull L) 0 ''resent_datas'' j) (\<lambda>r.
     bnd (value_or (as_ull L) 0 ''heartbeats'' j) (\<lambda>h.
     bnd (value_or (as_ull L) 0 ''gaps'' j) (\<lambda>g.
     bnd (value_or (as_ull L) 0 ''acknacks'' j) (\<lambda>a.
     bnd (value_or (as_ull L) 0 ''nackfrags'' j) (\<lambda>n.
     Inr \<lparr>rel_available = True, rel_lost_available = fst l, rel_lost_packets = snd l, rel_resent = r,
       rel_heartbeats = h, rel_gaps = g, rel_acknacks = a, rel_nackfrags = n\<rparr>))))))"

definition read_traffic_part :: "json_lib \<Rightarrow> string \<Rightarrow> json \<Rightarrow> measurement \<Rightarrow> measurement reading" where
  "read_traffic_part L ctx j m =
     bnd (get_at (as_bool L) j ''available'' ctx) (\<lambda>a.
     bnd (get_at (\<lambda>v. read_each (\<lambda>t. bnd (as_string L t) (\<lambda>s. parsed (parse_transport s))) (json_elements v))
            j ''transports'' ctx) (\<lambda>ts.
     bnd (get_at (\<lambda>v. read_each (read_measured_locator L ctx) (json_elements v)) j ''locators'' ctx) (\<lambda>ls.
     bnd (get_at (as_u64 L) j ''packets'' ctx) (\<lambda>p.
     bnd (get_at (as_double L) j ''bytes'' ctx) (\<lambda>b.
     bnd (value_or (as_ull L) 0 ''packets_total'' j) (\<lambda>pt.
     bnd (value_or (as_double L) (Fin 0) ''bytes_total'' j) (\<lambda>bt.
     Inr (m\<lparr>m_available := a, m_transports := ts, m_locators := ls, m_packets := p, m_bytes := b,
       m_packets_total := pt, m_bytes_total := bt\<rparr>))))))))"

definition read_delivery_part :: "json_lib \<Rightarrow> string \<Rightarrow> json \<Rightarrow> measurement \<Rightarrow> measurement reading" where
  "read_delivery_part L ctx j m =
     bnd (value_json ''latency_s'' j) (\<lambda>latency.
     bnd (if is_object latency then read_latency L latency else Inr (m_latency m)) (\<lambda>lat.
     bnd (get_at (as_bool L) j ''delivered'' ctx) (\<lambda>d.
     bnd (value_or (as_ull L) 0 ''delivered_samples'' j) (\<lambda>ds.
     bnd (value_json ''delivered_per_s'' j) (\<lambda>rate.
     bnd (if is_number rate then as_double L rate else Inr (m_delivered_per_s m)) (\<lambda>per_s.
     bnd (value_or (as_bool L) False ''delivered_per_s_lower_bound'' j) (\<lambda>lb.
     bnd (value_or (as_double L) (Fin 0) ''delivered_per_s_window_s'' j) (\<lambda>win.
     Inr (m\<lparr>m_latency_available := is_object latency, m_latency := lat, m_delivered := d,
       m_delivered_samples := ds, m_rate_available := is_number rate, m_delivered_per_s := per_s,
       m_rate_lower_bound := lb, m_rate_window_s := win\<rparr>)))))))))"

definition read_counter_part :: "json_lib \<Rightarrow> json \<Rightarrow> measurement \<Rightarrow> measurement reading" where
  "read_counter_part L j m =
     bnd (value_json ''reliability'' j) (\<lambda>rel.
     bnd (if is_object rel then read_reliability L rel else Inr (m_reliability m)) (\<lambda>r.
     bnd (bnd (value_json ''data_submessages'' j) (counter L)) (\<lambda>s.
     Inr (m\<lparr>m_reliability := r, m_data_count_available := fst s, m_data_submessages := snd s\<rparr>))))"

definition read_measurement :: "json_lib \<Rightarrow> string \<Rightarrow> json \<Rightarrow> measurement reading" where
  "read_measurement L ctx j =
     bnd (read_traffic_part L ctx j measurement0) (\<lambda>m.
     bnd (read_delivery_part L ctx j m) (read_counter_part L j))"

subsection \<open>Statistics\<close>

definition read_traffic_sample :: "json_lib \<Rightarrow> string \<Rightarrow> string \<Rightarrow> string \<Rightarrow> json \<Rightarrow> traffic_sample reading" where
  "read_traffic_sample L prefix_key locator_key ctx j =
     bnd (get_at (as_string L) j prefix_key ctx) (\<lambda>p.
     bnd (get_at (read_locator L ctx) j locator_key ctx) (\<lambda>d.
     bnd (get_at (as_u64 L) j ''packets'' ctx) (\<lambda>n.
     bnd (get_at (as_double L) j ''bytes'' ctx) (\<lambda>b.
     bnd (value_or (as_ull L) 0 ''packets_first'' j) (\<lambda>nf.
     bnd (value_or (as_double L) (Fin 0) ''bytes_first'' j) (\<lambda>bf.
     Inr (traffic_sample0\<lparr>src_participant_prefix := p, ts_dst := d, ts_packets := n, ts_bytes := b,
       ts_packets_first := nf, ts_bytes_first := bf\<rparr>)))))))"

definition read_lost_sample :: "json_lib \<Rightarrow> json \<Rightarrow> traffic_sample reading" where
  "read_lost_sample L t =
     (let old_keys = (json_find ''src_participant_guid_prefix'' t = None
            \<and> json_find ''receiver_participant_guid_prefix'' t \<noteq> None)
      in bnd (if old_keys then read_traffic_sample L ''receiver_participant_guid_prefix'' ''from_locator'' ''stats.lost'' t
              else read_traffic_sample L ''src_participant_guid_prefix'' ''dst_locator'' ''stats.lost'' t) (\<lambda>s.
     bnd (value_or (as_string L) [] ''reporter_participant_guid_prefix'' t) (\<lambda>r.
     Inr (s\<lparr>reporter_participant_prefix := r\<rparr>))))"

definition read_host_info :: "json_lib \<Rightarrow> json \<Rightarrow> host_info reading" where
  "read_host_info L j =
     bnd (value_or (as_string L) [] ''host'' j) (\<lambda>h.
     bnd (value_or (as_string L) [] ''user'' j) (\<lambda>u.
     bnd (value_or (as_string L) [] ''process'' j) (\<lambda>p.
     Inr \<lparr>hi_host = h, hi_user = u, hi_process = p\<rparr>)))"

definition read_data_count :: "json_lib \<Rightarrow> json \<Rightarrow> data_count_sample reading" where
  "read_data_count L j =
     bnd (value_or (as_ull L) 0 ''first'' j) (\<lambda>f.
     bnd (value_or (as_ull L) 0 ''last'' j) (\<lambda>l.
     bnd (value_or (as_ull L) 0 ''samples'' j) (\<lambda>n.
     Inr \<lparr>dc_first = f, dc_last = l, dc_samples = n\<rparr>)))"

text \<open>\<open>for (kv : j.items()) {m[kv.key()] = f(kv.value());}\<close>\<close>

definition read_map :: "(json \<Rightarrow> 'v reading) \<Rightarrow> json \<Rightarrow> (string, 'v) omap reading" where
  "read_map f j =
     bnd (read_each (\<lambda>kv. bnd (f (snd kv)) (\<lambda>v. Inr (fst kv, v))) (json_items j)) (\<lambda>kvs.
     Inr (fold (\<lambda>kv. om_put (fst kv) (snd kv)) kvs []))"

definition read_statistics_writer :: "json_lib \<Rightarrow> json \<Rightarrow> (string \<times> string) reading" where
  "read_statistics_writer L w =
     bnd (value_or (as_string L) [] ''participant_guid_prefix'' w) (\<lambda>p.
     bnd (value_or (as_string L) [] ''topic'' w) (\<lambda>t. Inr (p, t)))"

definition read_stats_tables :: "json_lib \<Rightarrow> json \<Rightarrow> stats_data reading" where
  "read_stats_tables L j =
     bnd (get_at (as_bool L) j ''enabled'' ''stats'') (\<lambda>e.
     bnd (get_at (as_u64 L) j ''samples'' ''stats'') (\<lambda>n.
     bnd (get_at (\<lambda>v. read_each (as_string L) (json_elements v)) j ''participants_with_stats'' ''stats'') (\<lambda>ps.
     bnd (get_at (read_map (read_host_info L)) j ''physical'' ''stats'') (\<lambda>ph.
     bnd (get_at (\<lambda>v. read_each (read_traffic_sample L ''src_participant_guid_prefix'' ''dst_locator'' ''stats.traffic'')
            (json_elements v)) j ''traffic'' ''stats'') (\<lambda>tr.
     bnd (bnd (value_or Inr (JArray []) ''lost'' j) (\<lambda>v. read_each (read_lost_sample L) (json_elements v))) (\<lambda>lo.
     bnd (bnd (value_or Inr (JObject []) ''data_count'' j) (read_map (read_data_count L))) (\<lambda>dc.
     Inr (stats_data0\<lparr>enabled := e, samples := n, participants_with_stats := set ps, physical := ph,
       traffic := tr, lost := lo, data_count := dc\<rparr>))))))))"

definition read_stats_losses :: "json_lib \<Rightarrow> json \<Rightarrow> stats_data \<Rightarrow> stats_data reading" where
  "read_stats_losses L j s =
     bnd (value_or (as_ull L) 0 ''samples_lost'' j) (\<lambda>a.
     bnd (value_or (as_ull L) 0 ''samples_lost_at_start'' j) (\<lambda>b.
     bnd (value_or (as_ull L) 0 ''samples_rejected'' j) (\<lambda>c.
     bnd (value_or (as_ull L) 0 ''writers_incompatible_qos'' j) (\<lambda>d.
     Inr (s\<lparr>samples_lost := a, samples_lost_at_start := b, samples_rejected := c,
       writers_incompatible_qos := d\<rparr>)))))"

definition read_stats_settle :: "json_lib \<Rightarrow> json \<Rightarrow> stats_data \<Rightarrow> stats_data reading" where
  "read_stats_settle L j s =
     bnd (value_or (as_ull L) 0 ''writers_announced'' j) (\<lambda>a.
     bnd (value_or (as_ull L) 0 ''writers_heard'' j) (\<lambda>b.
     bnd (value_or (as_ull L) 0 ''measured_instances'' j) (\<lambda>c.
     bnd (value_or (as_ull L) 0 ''measurable_pairs'' j) (\<lambda>d.
     bnd (value_or (as_bool L) False ''settled'' j) (\<lambda>e.
     bnd (number_at (as_double L) ''settled_at_s'' j) (\<lambda>f.
     Inr (s\<lparr>writers_announced := a, writers_heard := b, measured_instances := c, measurable_pairs := d,
       settled := e, settled_at_s := (case f of None \<Rightarrow> settled_at_s s | Some x \<Rightarrow> x)\<rparr>)))))))"

definition read_stats_pairs :: "json_lib \<Rightarrow> json \<Rightarrow> stats_data \<Rightarrow> stats_data reading" where
  "read_stats_pairs L j s =
     bnd (value_or (as_ull L) 0 ''samples_lost_latency'' j) (\<lambda>a.
     bnd (value_or (as_ull L) 0 ''pairs_delivered'' j) (\<lambda>b.
     bnd (value_or (as_ull L) 0 ''pairs_delivered_unmeasured'' j) (\<lambda>c.
     bnd (value_or (as_ull L) 0 ''pairs_delivered_absent'' j) (\<lambda>d.
     bnd (bnd (value_or Inr (JArray []) ''warnings'' j) (\<lambda>v. read_each (as_string L) (json_elements v))) (\<lambda>w.
     bnd (bnd (value_or Inr (JArray []) ''statistics_writers'' j)
            (\<lambda>v. read_each (read_statistics_writer L) (json_elements v))) (\<lambda>sw.
     Inr (s\<lparr>samples_lost_latency := a, pairs_delivered := b, pairs_delivered_unmeasured := c,
       pairs_delivered_absent := d, stats_warnings := w, statistics_writers := set sw\<rparr>)))))))"

definition read_stats :: "json_lib \<Rightarrow> json \<Rightarrow> stats_data reading" where
  "read_stats L j =
     bnd (read_stats_tables L j) (\<lambda>s.
     bnd (read_stats_losses L j s) (\<lambda>s.
     bnd (read_stats_settle L j s) (read_stats_pairs L j)))"

subsection \<open>Shared memory and participants\<close>

definition read_shm_sizes :: "json_lib \<Rightarrow> json \<Rightarrow> shm_info reading" where
  "read_shm_sizes L j =
     bnd (get_at (as_bool L) j ''available'' ''shm'') (\<lambda>a.
     bnd (get_at (as_string L) j ''path'' ''shm'') (\<lambda>p.
     bnd (value_or (as_ull L) 0 ''total_bytes'' j) (\<lambda>tb.
     bnd (value_or (as_ull L) 0 ''used_bytes'' j) (\<lambda>ub.
     bnd (value_or (as_ull L) 0 ''free_bytes'' j) (\<lambda>fb.
     bnd (value_or (as_ull L) 0 ''fastdds_bytes'' j) (\<lambda>db.
     bnd (value_or (as_ull L) 0 ''segments'' j) (\<lambda>sg.
     bnd (value_or (as_ull L) 0 ''stale_segments'' j) (\<lambda>ss.
     Inr (shm_info0\<lparr>shm_available := a, shm_path := p, total_bytes := tb, used_bytes := ub,
       free_bytes := fb, fastdds_bytes := db, segments := sg, stale_segments := ss\<rparr>)))))))))"

definition read_shm_ports :: "json_lib \<Rightarrow> json \<Rightarrow> shm_info \<Rightarrow> shm_info reading" where
  "read_shm_ports L j s =
     bnd (value_or (as_ull L) 0 ''ports'' j) (\<lambda>po.
     bnd (value_or (as_ull L) 0 ''stale_ports'' j) (\<lambda>sp.
     bnd (value_or (as_ull L) 0 ''datasharing_histories'' j) (\<lambda>dh.
     bnd (value_or (as_ull L) 0 ''datasharing_unmatched'' j) (\<lambda>du.
     bnd (value_or (as_ull L) 0 ''datasharing_notifications'' j) (\<lambda>dn.
     bnd (value_or (as_list (as_u32 L)) [] ''checked_ports'' j) (\<lambda>c.
     bnd (value_or (as_list (as_u32 L)) [] ''missing_ports'' j) (\<lambda>m.
     bnd (value_or (as_list (as_u32 L)) [] ''unknown_ports'' j) (\<lambda>u.
     bnd (value_or (as_ull L) 0 ''other_host_participants'' j) (\<lambda>oh.
     bnd (value_or (as_bool L) True ''nodes_visible'' j) (\<lambda>nv.
     bnd (get_at (as_list (as_string L)) j ''warnings'' ''shm'') (\<lambda>w.
     Inr (s\<lparr>ports := po, stale_ports := sp, datasharing_histories := dh, datasharing_unmatched := du,
       datasharing_notifications := dn, checked_ports := c, missing_ports := m, unknown_ports := u,
       other_host_participants := oh, nodes_visible := nv, shm_warnings := w\<rparr>))))))))))))"

definition read_shm :: "json_lib \<Rightarrow> json \<Rightarrow> shm_info reading" where
  "read_shm L j = bnd (read_shm_sizes L j) (read_shm_ports L j)"

definition parse_port_lock :: "string \<Rightarrow> port_lock" where
  "parse_port_lock s =
     (if s = ''held'' then LockHeld else if s = ''own'' then LockOwn else if s = ''absent'' then LockAbsent
      else if s = ''stale'' then LockStale else if s = ''unknown'' then LockUnknown else LockUnprobed)"

definition read_shm_port :: "json_lib \<Rightarrow> string \<Rightarrow> json \<Rightarrow> shm_port reading" where
  "read_shm_port L ctx sp =
     bnd (get_at (as_u32 L) sp ''port'' ctx) (\<lambda>p.
     bnd (value_or (as_string L) ''unprobed'' ''lock'' sp) (\<lambda>l.
     bnd (value_or (as_ull L) 1 ''announced_by'' sp) (\<lambda>a.
     bnd (value_or (as_bool L) True ''proof'' sp) (\<lambda>pr.
     Inr \<lparr>sp_port = p, sp_lock = parse_port_lock l, sp_announced_by = unat a, sp_proof = pr\<rparr>))))"

definition read_participant :: "json_lib \<Rightarrow> string \<Rightarrow> json \<Rightarrow> participant reading" where
  "read_participant L ctx j =
     bnd (get_at (as_string L) j ''guid_prefix'' ctx) (\<lambda>g.
     bnd (get_at (\<lambda>v. bnd (as_string L v) read_host_id) j ''host_id'' ctx) (\<lambda>h.
     bnd (value_or (as_string L) [] ''host_name'' j) (\<lambda>hn.
     bnd (value_or (as_bool L) False ''own'' j) (\<lambda>ow.
     bnd (value_or (as_string L) ''unprobed'' ''shm_visibility'' j) (\<lambda>v.
     bnd (value_or (as_string L) [] ''discovery_protocol'' j) (\<lambda>dp.
     bnd (value_or (as_string L) [] ''name'' j) (\<lambda>n.
     bnd (value_or (as_string L) [] ''vendor'' j) (\<lambda>ve.
     bnd (case json_find ''metatraffic_locators'' j of
            Some l \<Rightarrow> if is_array l then read_locators L (ctx @ ''.metatraffic_locators'') l else Inr []
          | None \<Rightarrow> Inr []) (\<lambda>ml.
     bnd (case json_find ''discovery_server'' j of Some (JString s) \<Rightarrow> Inr (Some s) | _ \<Rightarrow> Inr None) (\<lambda>ds.
     bnd (bnd (value_or Inr (JArray []) ''shm_ports'' j)
            (\<lambda>v. read_each (read_shm_port L (ctx @ ''.shm_ports'')) (json_elements v))) (\<lambda>sp.
     Inr \<lparr>pt_guid_prefix = g, pt_host_id = h, pt_host_name = hn, pt_own = ow, pt_shm_ports = sp,
       pt_shm_visibility = parse_shm_visibility v, pt_discovery_protocol = dp, pt_name = n,
       pt_vendor = ve, pt_metatraffic_locators = ml, pt_discovery_server = ds\<rparr>)))))))))))"

subsection \<open>The endpoints of a document\<close>

definition topic_where :: "json_lib \<Rightarrow> json \<Rightarrow> string reading" where
  "topic_where L tj = bnd (value_or (as_string L) ''?'' ''topic'' tj) (\<lambda>s. Inr (''topic '' @ s))"

definition read_topic_endpoints :: "json_lib \<Rightarrow> json \<Rightarrow> (endpoint list \<times> endpoint list) reading" where
  "read_topic_endpoints L tj =
     bnd (topic_where L tj) (\<lambda>w. wrapping (w @ '': endpoint: '')
       (bnd (get_at (\<lambda>v. read_each (read_endpoint L True w) (json_elements v)) tj ''writers'' w) (\<lambda>ws.
        bnd (get_at (\<lambda>v. read_each (read_endpoint L False w) (json_elements v)) tj ''readers'' w) (\<lambda>rs.
        Inr (ws, rs)))))"

text \<open>The indices of the writers and readers of each topic in the vector all of them are pushed to.\<close>

fun topic_refs :: "nat \<Rightarrow> (endpoint list \<times> endpoint list) list \<Rightarrow> (nat list \<times> nat list) list" where
  "topic_refs n [] = []"
| "topic_refs n (e # es) =
     (let m = n + length (fst e); k = m + length (snd e)
      in ([n ..< m], [m ..< k]) # topic_refs k es)"

definition all_endpoints :: "(endpoint list \<times> endpoint list) list \<Rightarrow> endpoint list" where
  "all_endpoints es = concat (map (\<lambda>e. fst e @ snd e) es)"

text \<open>\<open>by_guid[e.guid] = &e\<close>: the last endpoint of a GUID.\<close>

definition guid_index :: "endpoint list \<Rightarrow> (string, nat) omap" where
  "guid_index eps = fold (\<lambda>(i, e). om_put (guid e) i) (enumerate 0 eps) []"

definition adopt :: "(string, nat) omap \<Rightarrow> endpoint \<Rightarrow> endpoint list \<Rightarrow> endpoint list" where
  "adopt by_guid e eps =
     (case om_get by_guid (buffer_parent_guid e) of
        Some i \<Rightarrow> if buffer_parent_guid e = [] then eps
          else eps[i := (eps ! i)\<lparr>buffer_companion_guids := buffer_companion_guids (eps ! i) @ [guid e]\<rparr>]
      | None \<Rightarrow> eps)"

definition adopt_companions :: "endpoint list \<Rightarrow> endpoint list" where
  "adopt_companions eps = fold (adopt (guid_index eps)) eps eps"

subsection \<open>Topics and pairs\<close>

definition read_verdict :: "json_lib \<Rightarrow> string \<Rightarrow> json \<Rightarrow> verdict reading" where
  "read_verdict L w pj =
     bnd (get_at (\<lambda>v. bnd (as_string L v) (\<lambda>s. parsed (parse_transport s))) pj ''transport'' w) (\<lambda>t.
     bnd (get_at (\<lambda>v. bnd (as_string L v) (\<lambda>s. parsed (parse_confidence s))) pj ''confidence'' w) (\<lambda>c.
     bnd (at_key pj ''locator'' w) (\<lambda>loc.
     bnd (if is_object loc then read_locator L w loc else Inr locator0) (\<lambda>l.
     bnd (if is_object loc then value_or (as_bool L) False ''multicast'' loc else Inr False) (\<lambda>mc.
     bnd (get_at (as_list (as_string L)) pj ''reasons'' w) (\<lambda>rs.
     bnd (get_at (as_list (as_string L)) pj ''warnings'' w) (\<lambda>ws.
     Inr \<lparr>v_transport = t, v_confidence = c, v_locator = l, v_locator_multicast = mc, v_reasons = rs,
       v_warnings = ws\<rparr>)))))))"

definition read_pair :: "json_lib \<Rightarrow> (string, nat) omap \<Rightarrow> string \<Rightarrow> json \<Rightarrow> pair reading" where
  "read_pair L by_guid w pj = wrapping (w @ '': pair: '')
     (bnd (get_at (as_string L) pj ''writer_guid'' w) (\<lambda>wguid.
      bnd (get_at (as_string L) pj ''reader_guid'' w) (\<lambda>rguid.
      case (om_get by_guid wguid, om_get by_guid rguid) of
        (Some i, Some k) \<Rightarrow>
          bnd (read_verdict L w pj) (\<lambda>v.
          bnd (get_at (read_measurement L w) pj ''measured'' w) (\<lambda>m.
          Inr \<lparr>p_writer = i, p_reader = k, p_verdict = v, p_measured = m\<rparr>))
      | _ \<Rightarrow> Inl (ParseError (w @ '': pair names an endpoint that is not listed'')))))"

definition read_topic_names :: "json_lib \<Rightarrow> string \<Rightarrow> json \<Rightarrow> topic_summary reading" where
  "read_topic_names L w tj =
     bnd (get_at (as_string L) tj ''topic'' w) (\<lambda>t.
     bnd (get_at (as_string L) tj ''dds_topic'' w) (\<lambda>dt.
     bnd (get_at (as_string L) tj ''type'' w) (\<lambda>ty.
     bnd (get_at (as_bool L) tj ''is_ros_topic'' w) (\<lambda>ros.
     bnd (get_at (as_list (as_string L)) tj ''unmatched_reasons'' w) (\<lambda>ur.
     Inr (topic_summary0\<lparr>t_display_topic := t, t_dds_topic := dt, t_display_type := ty, t_is_ros_topic := ros,
       t_unmatched_reasons := ur\<rparr>))))))"

definition read_topic_numbers :: "json_lib \<Rightarrow> json \<Rightarrow> topic_summary \<Rightarrow> topic_summary reading" where
  "read_topic_numbers L tj t =
     bnd (value_json ''latency_s'' tj) (\<lambda>latency.
     bnd (number_or L (Fin 0) latency) (\<lambda>la.
     bnd (value_json ''lost_packets'' tj) (\<lambda>lo.
     bnd (value_json ''resent_datas'' tj) (\<lambda>re.
     bnd (counter L lo) (\<lambda>l.
     bnd (counter L re) (\<lambda>r.
     Inr (t\<lparr>t_latency_available := is_number latency, t_latency := la,
       t_reliability_available := is_number re \<or> is_number lo, t_lost_available := fst l,
       t_lost_packets := snd l, t_resent := snd r\<rparr>)))))))"

text \<open>The flag says whether the document classified the topic in terms this version knows.\<close>

definition read_class :: "json_lib \<Rightarrow> json \<Rightarrow> topic_summary \<Rightarrow> (topic_summary \<times> bool) reading" where
  "read_class L tj t =
     (case (json_find ''kind'' tj, json_find ''direction'' tj) of
        (Some k, Some d) \<Rightarrow>
          bnd (as_string L k) (\<lambda>k.
          bnd (as_string L d) (\<lambda>d.
          bnd (value_or (as_string L) [] ''group'' tj) (\<lambda>g.
          let (kind, known) = parse_topic_kind k True; (dir, known) = parse_group_direction d known
          in Inr (t\<lparr>t_kind := kind, t_direction := dir, t_group := g\<rparr>, known))))
      | _ \<Rightarrow> Inr (t, False))"

definition first_type :: "endpoint list \<Rightarrow> nat list \<times> nat list \<Rightarrow> string" where
  "first_type eps refs = (case fst refs @ snd refs of [] \<Rightarrow> [] | i # _ \<Rightarrow> dds_type (eps ! i))"

definition read_topic ::
  "json_lib \<Rightarrow> endpoint list \<Rightarrow> (string, nat) omap \<Rightarrow> json \<times> (nat list \<times> nat list) \<Rightarrow> (topic_summary \<times> bool) reading" where
  "read_topic L eps by_guid tr =
     (let tj = fst tr; refs = snd tr
      in bnd (topic_where L tj) (\<lambda>w.
         bnd (read_topic_names L w tj) (\<lambda>t.
         bnd (read_topic_numbers L tj t) (\<lambda>t.
         bnd (read_class L tj (t\<lparr>t_writers := fst refs, t_readers := snd refs, t_dds_type := first_type eps refs\<rparr>))
           (\<lambda>(t, known).
         bnd (get_at (\<lambda>v. read_each (read_pair L by_guid w) (json_elements v)) tj ''pairs'' w) (\<lambda>ps.
         Inr (t\<lparr>t_pairs := ps\<rparr>, known)))))))"

subsection \<open>The sections after the topics\<close>

definition read_discovery :: "json_lib \<Rightarrow> json \<Rightarrow> discovery_status reading" where
  "read_discovery L d =
     bnd (value_json ''complete'' d) (\<lambda>c.
     bnd (value_or (as_string L) [] ''stopped_on'' d) (\<lambda>st.
     bnd (value_or (as_ull L) 0 ''events'' d) (\<lambda>ev.
     bnd (value_or (as_ull L) 0 ''endpoints'' d) (\<lambda>en.
     bnd (value_or (as_ull L) 0 ''announced_not_discovered'' d) (\<lambda>an.
     bnd (value_or (as_string L) ''SIMPLE'' ''observer_protocol'' d) (\<lambda>op.
     bnd (case json_find ''discovery_servers'' d of
            Some l \<Rightarrow> if is_array l then read_locators L ''discovery.discovery_servers'' l else Inr []
          | None \<Rightarrow> Inr []) (\<lambda>ls.
     bnd (value_or (as_string L) [] ''discovery_server_env'' d) (\<lambda>en_v.
     bnd (value_or (as_string L) [] ''easy_mode'' d) (\<lambda>em.
     Inr (discovery_status0\<lparr>ds_complete := (case c of JBool b \<Rightarrow> Some b | _ \<Rightarrow> None), ds_stopped_on := st,
       ds_events := unat ev, ds_endpoints := unat en, announced_not_discovered := unat an,
       ds_observer_protocol := op, ds_discovery_servers := ls, ds_discovery_server_env := en_v,
       ds_easy_mode := em\<rparr>))))))))))"

text \<open>A section that is read when it is there and of the right kind.\<close>

definition section_or :: "'a \<Rightarrow> (json \<Rightarrow> bool) \<Rightarrow> (json \<Rightarrow> 'a reading) \<Rightarrow> string \<Rightarrow> json \<Rightarrow> 'a reading" where
  "section_or d ok f key doc = (case json_find key doc of
     Some v \<Rightarrow> if ok v then f v else Inr d
   | None \<Rightarrow> Inr d)"

text \<open>\<open>catch (const std::exception & e)\<close> also catches a \<open>ParseError\<close>.\<close>

definition wrapping_all :: "string \<Rightarrow> 'a reading \<Rightarrow> 'a reading" where
  "wrapping_all p r = (case r of Inl Thrown \<Rightarrow> Inl (Wrapped p) | Inl (ParseError m) \<Rightarrow> Inl (ParseError (p @ m))
     | Inl (Wrapped m) \<Rightarrow> Inl (Wrapped (p @ m)) | r \<Rightarrow> r)"

definition participant_where :: "nat \<Rightarrow> string" where
  "participant_where i = ''participants['' @ dec i @ '']''"

definition read_participants :: "json_lib \<Rightarrow> json \<Rightarrow> participant list reading" where
  "read_participants L v =
     read_each (\<lambda>(i, p). wrapping (participant_where i @ '': '') (read_participant L (participant_where i) p))
       (enumerate 0 (json_elements v))"

subsection \<open>The snapshot\<close>

definition read_header :: "json_lib \<Rightarrow> (nat option \<Rightarrow> json \<Rightarrow> string option) \<Rightarrow> json \<Rightarrow> snapshot reading" where
  "read_header L dump doc =
     (if \<not> is_object doc then Inl (ParseError ''not a JSON object'')
      else
        bnd (at_key doc ''schema_version'' ''document'') (\<lambda>version.
        if \<not> is_integer version \<or> as_int L version \<noteq> Inr 1
        then (case dump None version of
            None \<Rightarrow> Inl Thrown
          | Some found \<Rightarrow> Inl (ParseError (''schema_version '' @ found @ '' is not supported (this tool reads 1)'')))
        else
          bnd (get_at (as_int L) doc ''domain'' ''document'') (\<lambda>d.
          bnd (get_at (as_string L) doc ''observed_at'' ''document'') (\<lambda>oa.
          bnd (get_at (as_double L) doc ''observation_seconds'' ''document'') (\<lambda>s.
          bnd (get_at (\<lambda>v. bnd (as_string L v) read_host_id) doc ''local_host_id'' ''document'') (\<lambda>h.
          Inr \<lparr>sn_domain = d, sn_observed_at = oa, sn_observation_seconds = s, sn_local_host_id = h,
            sn_endpoints = [], sn_participants = [], sn_topics = [], sn_stats = stats_data0,
            sn_shm = shm_info0, sn_discovery = discovery_status0, sn_has_changes = False,
            sn_changes = changes0\<rparr>))))))"

definition read_topics :: "json_lib \<Rightarrow> json \<Rightarrow> snapshot \<Rightarrow> snapshot reading" where
  "read_topics L doc snap =
     bnd (at_key doc ''topics'' ''document'') (\<lambda>topics.
     bnd (read_each (read_topic_endpoints L) (json_elements topics)) (\<lambda>es.
     let eps = adopt_companions (all_endpoints es)
     in bnd (read_each (read_topic L eps (guid_index eps)) (zip (json_elements topics) (topic_refs 0 es))) (\<lambda>ts.
        Inr (snap\<lparr>sn_endpoints := eps,
          sn_topics := (if list_all snd ts then map fst ts else classify_topics (map fst ts))\<rparr>))))"

definition read_sections :: "json_lib \<Rightarrow> json \<Rightarrow> snapshot \<Rightarrow> snapshot reading" where
  "read_sections L doc snap =
     bnd (wrapping ''stats: '' (get_at (read_stats L) doc ''stats'' ''document'')) (\<lambda>st.
     bnd (section_or discovery_status0 is_object (read_discovery L) ''discovery'' doc) (\<lambda>d.
     bnd (section_or shm_info0 is_object (\<lambda>v. wrapping_all ''shm: '' (read_shm L v)) ''shm'' doc) (\<lambda>sh.
     bnd (section_or [] is_array (read_participants L) ''participants'' doc) (\<lambda>ps.
     Inr (snap\<lparr>sn_stats := st, sn_discovery := d, sn_shm := sh, sn_participants := ps\<rparr>)))))"

definition read_snapshot :: "json_lib \<Rightarrow> (nat option \<Rightarrow> json \<Rightarrow> string option) \<Rightarrow> json \<Rightarrow> snapshot reading" where
  "read_snapshot L dump doc =
     bnd (read_header L dump doc) (\<lambda>s. bnd (read_topics L doc s) (read_sections L doc))"

subsection \<open>The text\<close>

text \<open>The lines of JSON Lines that are not blank.\<close>

fun lines_of :: "string \<Rightarrow> string \<Rightarrow> string list" where
  "lines_of line [] = (if line = [] then [] else [rev line])"
| "lines_of line (c # s) = (if c = CHR 0x0A then rev line # lines_of [] s else lines_of (c # line) s)"

definition document_lines :: "string \<Rightarrow> string list" where
  "document_lines text = filter (\<lambda>l. \<not> list_all (\<lambda>c. c \<in> {CHR '' '', CHR 0x09, CHR 0x0D}) l) (lines_of [] text)"

text \<open>
  How \<open>json::parse\<close> ends: with a document, its \<open>parse_error\<close>, or its \<open>out_of_range\<close> (\<open>1e999\<close>).
\<close>

datatype parse_result = Document json | SyntaxError | OutOfRange

text \<open>With the number of documents. Only \<open>parse_error\<close> is caught.\<close>

definition parse_text :: "(string \<Rightarrow> parse_result) \<Rightarrow> string \<Rightarrow> (json \<times> nat) reading" where
  "parse_text parse text =
     (case parse text of
        Document doc \<Rightarrow> Inr (doc, 1)
      | OutOfRange \<Rightarrow> Inl Thrown
      | SyntaxError \<Rightarrow>
          let lines = document_lines text
          in if length lines < 2 then Inl (ParseError ''not valid JSON'')
             else case parse (last lines) of
               SyntaxError \<Rightarrow> Inl (Wrapped ''last line is not valid JSON: '')
             | OutOfRange \<Rightarrow> Inl Thrown
             | Document doc \<Rightarrow> Inr (doc, length lines))"

definition parse_json ::
  "json_lib \<Rightarrow> (nat option \<Rightarrow> json \<Rightarrow> string option) \<Rightarrow> (string \<Rightarrow> parse_result) \<Rightarrow> string \<Rightarrow> (snapshot \<times> nat) reading" where
  "parse_json L dump parse text =
     bnd (parse_text parse text) (\<lambda>(doc, n).
     bnd (wrapping ''unexpected value: '' (read_snapshot L dump doc)) (\<lambda>snap. Inr (snap, n)))"

end
