(* ===== verification/Parse_Props.thy ===== *)
theory Parse_Props
  imports Parse_Json Topics_Props Spelling_Props
begin

text \<open>
  What \<open>parse_json\<close> guarantees about any text: it ends in a snapshot whose references are valid, in
  a \<open>ParseError\<close>, or in the one exception of the library that the code does not catch.
\<close>

subsection \<open>Successful readings\<close>

lemma bnd_InrE [elim!]: "bnd m f = Inr y \<Longrightarrow> (\<And>x. m = Inr x \<Longrightarrow> f x = Inr y \<Longrightarrow> thesis) \<Longrightarrow> thesis"
  by (cases m) simp_all

lemma wrapping_Inr [simp]: "wrapping p r = Inr x \<longleftrightarrow> r = Inr x"
  by (auto simp: wrapping_def split: sum.splits failure.splits)

lemma wrapping_ok [simp]: "wrapping p (Inr x) = Inr x"
  by simp

lemma wrapping_not_Thrown [simp]: "wrapping p r \<noteq> Inl Thrown"
  by (auto simp: wrapping_def split: sum.splits failure.splits)

lemma read_each_member: "read_each f xs = Inr ys \<Longrightarrow> y \<in> set ys \<Longrightarrow> \<exists>x \<in> set xs. f x = Inr y"
  by (induction xs arbitrary: ys) auto

lemma read_each_range: "read_each f xs = Inr ys \<Longrightarrow> (\<And>x y. f x = Inr y \<Longrightarrow> P y) \<Longrightarrow> list_all P ys"
  by (induction xs arbitrary: ys) auto

subsection \<open>Endpoints\<close>

text \<open>The array sizes of C++ are lengths here.\<close>

definition endpoint_sized :: "endpoint \<Rightarrow> bool" where
  "endpoint_sized e \<longleftrightarrow> length (guid_bytes e) = 16 \<and> length (ep_host_id e) = 4"

lemma parse_guid_bytes_length: "length (parse_guid_bytes g) = 16"
  by (simp add: parse_guid_bytes_def split: option.split)

lemma read_host_id_length: "read_host_id s = Inr h \<Longrightarrow> length h = 4"
  by (auto simp: read_host_id_def parse_host_id_def parsed_def split: if_splits option.splits sum.splits)

lemma get_at_InrE: "get_at f j k w = Inr x \<Longrightarrow> (\<And>v. f v = Inr x \<Longrightarrow> thesis) \<Longrightarrow> thesis"
  by (auto simp: get_at_def)

lemma read_names_sized: "read_names L w j e = Inr e' \<Longrightarrow> endpoint_sized e'"
  unfolding read_names_def
  by (elim bnd_InrE get_at_InrE) (auto simp: endpoint_sized_def parse_guid_bytes_length read_host_id_length)

lemma read_types_sized: "read_types L w j e = Inr e' \<Longrightarrow> endpoint_sized e \<Longrightarrow> endpoint_sized e'"
  unfolding read_types_def by (elim bnd_InrE) (auto simp: endpoint_sized_def)

lemma read_transports_sized: "read_transports L w j e = Inr e' \<Longrightarrow> endpoint_sized e \<Longrightarrow> endpoint_sized e'"
  unfolding read_transports_def by (elim bnd_InrE) (auto simp: endpoint_sized_def)

lemma read_endpoint_sized: "read_endpoint L b w j = Inr e \<Longrightarrow> endpoint_sized e"
  unfolding read_endpoint_def
  by (elim bnd_InrE) (blast dest: read_names_sized read_types_sized read_transports_sized)

lemma read_topic_endpoints_sized:
  assumes "read_topic_endpoints L tj = Inr es"
  shows "list_all endpoint_sized (fst es @ snd es)"
  using assms unfolding read_topic_endpoints_def
  by (elim bnd_InrE) (auto elim!: get_at_InrE dest!: read_each_range [where P = endpoint_sized, OF _ read_endpoint_sized])

text \<open>Each topic gets the indices of its own endpoints.\<close>

lemma topic_refs_point:
  "list_all2 (\<lambda>r e. map ((!) (pre @ all_endpoints es)) (fst r) = fst e \<and>
     map ((!) (pre @ all_endpoints es)) (snd r) = snd e) (topic_refs (length pre) es) es"
proof (induction es arbitrary: pre)
  case (Cons e es)
  define m where "m = length pre + length (fst e)"
  have whole: "pre @ all_endpoints (e # es) = (pre @ fst e @ snd e) @ all_endpoints es"
    by (simp add: all_endpoints_def)
  have "length (pre @ fst e @ snd e) = m + length (snd e)" by (simp add: m_def)
  with Cons [of "pre @ fst e @ snd e"] have rest: "list_all2 (\<lambda>r e'. map ((!) (pre @ all_endpoints (e # es))) (fst r) = fst e' \<and>
     map ((!) (pre @ all_endpoints (e # es))) (snd r) = snd e') (topic_refs (m + length (snd e)) es) es"
    unfolding whole by (simp add: m_def add.assoc)
  have "map ((!) (pre @ all_endpoints (e # es))) [length pre ..< m] = fst e"
    "map ((!) (pre @ all_endpoints (e # es))) [m ..< m + length (snd e)] = snd e"
    by (rule nth_equalityI; simp add: m_def all_endpoints_def nth_append)+
  with rest show ?case by (simp add: Let_def m_def)
qed simp

lemma length_topic_refs [simp]: "length (topic_refs n es) = length es"
  by (induction es arbitrary: n) (simp_all add: Let_def)

lemma topic_refs_range: "r \<in> set (topic_refs n es) \<Longrightarrow> set (fst r) \<union> set (snd r) \<subseteq> {..< n + length (all_endpoints es)}"
  by (induction es arbitrary: n) (fastforce simp: Let_def all_endpoints_def)+

text \<open>Companions are entered; nothing else changes.\<close>

definition name_of :: "endpoint \<Rightarrow> string \<times> string" where
  "name_of e = (guid e, node_name e)"

definition clear_companions :: "endpoint \<Rightarrow> endpoint" where
  "clear_companions e = e\<lparr>buffer_companion_guids := []\<rparr>"

lemma adopt_clear: "map clear_companions (adopt ix e eps) = map clear_companions eps"
proof (cases "om_get ix (buffer_parent_guid e)")
  case (Some i)
  have "map clear_companions (eps[i := (eps ! i)\<lparr>buffer_companion_guids := c\<rparr>]) = map clear_companions eps" for c
    by (cases "i < length eps"; rule nth_equalityI) (simp_all add: nth_list_update clear_companions_def)
  then show ?thesis using Some by (simp add: adopt_def)
qed (simp add: adopt_def)

lemma adopt_companions_clear: "map clear_companions (adopt_companions eps) = map clear_companions eps"
proof -
  have "map clear_companions (fold (adopt ix) es eps) = map clear_companions eps" for ix es eps
    by (induction es arbitrary: eps) (simp_all add: adopt_clear)
  then show ?thesis by (simp add: adopt_companions_def)
qed

lemma adopt_companions_names: "map name_of (adopt_companions eps) = map name_of eps"
proof -
  have "name_of \<circ> clear_companions = name_of" by (auto simp: name_of_def clear_companions_def)
  then show ?thesis using arg_cong [OF adopt_companions_clear [of eps], of "map name_of"] by simp
qed

lemma length_adopt_companions [simp]: "length (adopt_companions eps) = length eps"
  using arg_cong [OF adopt_companions_names, of length] by simp

text \<open>The index finds an endpoint of the GUID whenever there is one.\<close>

lemma guid_index_snoc: "guid_index (eps @ [e]) = om_put (guid e) (length eps) (guid_index eps)"
  by (simp add: guid_index_def enumerate_append_eq)

lemma guid_index_ok: "om_ok (guid_index eps)"
  by (induction eps rule: rev_induct) (simp_all add: guid_index_snoc, simp add: guid_index_def)

lemma guid_index_get:
  "case om_get (guid_index eps) g of
     Some i \<Rightarrow> i < length eps \<and> guid (eps ! i) = g
   | None \<Rightarrow> g \<notin> guid ` set eps"
proof (induction eps rule: rev_induct)
  case (snoc e eps)
  then show ?case
    by (auto simp: guid_index_snoc guid_index_ok nth_append split: option.splits)
qed (simp add: guid_index_def)

subsection \<open>Topics\<close>

lemma adopt_companions_sized: "list_all endpoint_sized eps \<Longrightarrow> list_all endpoint_sized (adopt_companions eps)"
proof -
  have "endpoint_sized \<circ> clear_companions = endpoint_sized"
    by (auto simp: endpoint_sized_def clear_companions_def)
  then show "list_all endpoint_sized eps \<Longrightarrow> list_all endpoint_sized (adopt_companions eps)"
    using arg_cong [OF adopt_companions_clear [of eps], of "list_all endpoint_sized"] by (simp add: list.pred_map)
qed

definition pair_within :: "nat \<Rightarrow> pair \<Rightarrow> bool" where
  "pair_within n p \<longleftrightarrow> p_writer p < n \<and> p_reader p < n"

definition topic_within :: "nat \<Rightarrow> topic_summary \<Rightarrow> bool" where
  "topic_within n t \<longleftrightarrow> set (t_writers t) \<union> set (t_readers t) \<subseteq> {..< n} \<and> list_all (pair_within n) (t_pairs t)"

lemma guid_index_less: "om_get (guid_index eps) g = Some i \<Longrightarrow> i < length eps"
  using guid_index_get [where eps = eps and g = g] by simp

lemma read_pair_within: "read_pair L (guid_index eps) w pj = Inr p \<Longrightarrow> pair_within (length eps) p"
  unfolding read_pair_def wrapping_Inr
  by (elim bnd_InrE) (auto simp: pair_within_def guid_index_less split: option.splits)

lemma read_topic_names_pairs: "read_topic_names L w tj = Inr t \<Longrightarrow> t_pairs t = []"
  unfolding read_topic_names_def by (elim bnd_InrE) (auto simp: topic_summary0_def)

lemma read_topic_numbers_keeps: "read_topic_numbers L tj t = Inr u \<Longrightarrow> t_pairs u = t_pairs t"
  unfolding read_topic_numbers_def by (elim bnd_InrE) auto

lemma read_class_keeps: "read_class L tj t = Inr (u, b) \<Longrightarrow> t_writers u = t_writers t \<and> t_readers u = t_readers t"
  unfolding read_class_def by (auto simp: Let_def split: option.splits prod.splits)

lemma read_topic_within:
  assumes "read_topic L eps (guid_index eps) (tj, refs) = Inr (t, b)" and "set (fst refs) \<union> set (snd refs) \<subseteq> {..< length eps}"
  shows "topic_within (length eps) t"
  using assms unfolding read_topic_def Let_def
  by (elim bnd_InrE)
    (auto simp: topic_within_def dest!: read_class_keeps elim!: get_at_InrE bnd_InrE
      dest: read_each_range [where P = "pair_within (length eps)", OF _ read_pair_within])

lemma classify_within: "list_all (topic_within n) ts \<Longrightarrow> list_all (topic_within n) (classify_topics ts)"
proof -
  assume ok: "list_all (topic_within n) ts"
  have len: "length (classify_topics ts) = length ts" using classify_topics_nth [of ts] by simp
  have "topic_within n (classify_topics ts ! i)" if "i < length ts" for i
    using ok that same_identity_sel [OF classify_identity [OF that]] by (simp add: topic_within_def list_all_length)
  then show ?thesis using len by (simp add: list_all_length)
qed

definition references_valid :: "snapshot \<Rightarrow> bool" where
  "references_valid s \<longleftrightarrow> list_all endpoint_sized (sn_endpoints s)
     \<and> list_all (topic_within (length (sn_endpoints s))) (sn_topics s)"

lemma read_topics_valid:
  assumes "read_topics L doc s = Inr s'"
  shows "references_valid s'"
proof -
  from assms obtain topics es ts where es: "read_each (read_topic_endpoints L) (json_elements topics) = Inr es"
    and ts: "read_each (read_topic L (adopt_companions (all_endpoints es)) (guid_index (adopt_companions (all_endpoints es))))
        (zip (json_elements topics) (topic_refs 0 es)) = Inr ts"
    and s': "s' = s\<lparr>sn_endpoints := adopt_companions (all_endpoints es),
        sn_topics := (if list_all snd ts then map fst ts else classify_topics (map fst ts))\<rparr>"
    unfolding read_topics_def Let_def by (elim bnd_InrE) simp
  let ?eps = "adopt_companions (all_endpoints es)"
  have "list_all (\<lambda>e. list_all endpoint_sized (fst e @ snd e)) es"
    by (rule read_each_range [OF es]) (rule read_topic_endpoints_sized)
  then have "list_all endpoint_sized (all_endpoints es)"
    by (auto simp: all_endpoints_def list_all_iff)
  then have sized: "list_all endpoint_sized ?eps" by (rule adopt_companions_sized)
  have "topic_within (length ?eps) (fst t)" if t: "t \<in> set ts" for t
  proof -
    obtain x where x: "x \<in> set (zip (json_elements topics) (topic_refs 0 es))" "read_topic L ?eps (guid_index ?eps) x = Inr t"
      using read_each_member [OF ts t] by blast
    moreover obtain tj refs where "x = (tj, refs)" by (rule prod.exhaust)
    ultimately have "refs \<in> set (topic_refs 0 es)" and r: "read_topic L ?eps (guid_index ?eps) (tj, refs) = Inr (fst t, snd t)"
      using set_zip_rightD by fastforce+
    then show ?thesis using topic_refs_range [of refs 0 es] by (intro read_topic_within [OF r]) simp
  qed
  then have within: "list_all (topic_within (length ?eps)) (map fst ts)" by (simp add: list_all_iff)
  then show ?thesis using sized classify_within by (simp add: references_valid_def s')
qed

lemma read_sections_keeps:
  "read_sections L doc s = Inr s' \<Longrightarrow> sn_endpoints s' = sn_endpoints s \<and> sn_topics s' = sn_topics s"
  unfolding read_sections_def by (elim bnd_InrE) (drule sum.inject(2) [THEN iffD1], hypsubst, simp)

text \<open>
  The texts whose numbers \<open>json::parse\<close> refuses: the whole text, or the last of its lines when the whole
  is not one document.
\<close>

definition number_too_large :: "(string \<Rightarrow> parse_result) \<Rightarrow> string \<Rightarrow> bool" where
  "number_too_large parse text \<longleftrightarrow> parse text = OutOfRange \<or>
     (parse text = SyntaxError \<and> 2 \<le> length (document_lines text) \<and> parse (last (document_lines text)) = OutOfRange)"

lemma parse_text_thrown: "parse_text parse text = Inl Thrown \<longleftrightarrow> number_too_large parse text"
  by (auto simp: parse_text_def number_too_large_def Let_def split: parse_result.splits if_splits)

lemma parse_json_thrown: "parse_json L dump parse text = Inl Thrown \<longleftrightarrow> number_too_large parse text"
  by (auto simp: parse_json_def parse_text_thrown [symmetric] bnd_def split: sum.splits prod.splits)


end
