(* ===== verification/Render_Json.thy ===== *)
theory Render_Json
  imports Json Watch Codes
begin

text \<open>
  \<open>src/render_json.cpp\<close>: the document of a snapshot as a JSON value, and \<open>render_json\<close> over the
  library's \<open>dump\<close>, which is a parameter.
\<close>

definition locator_fields :: "locator \<Rightarrow> (string \<times> json) list" where
  "locator_fields l = [(''kind'', JString (locator_kind_text (loc_kind l))),
     (''address'', JString (loc_address l)), (''port'', ju32 (loc_port l))]"

definition locator_json :: "locator \<Rightarrow> json" where
  "locator_json l = obj (locator_fields l)"

definition locators_json :: "locator list \<Rightarrow> json" where
  "locators_json ls = JArray (map locator_json ls)"

definition selected_locator_json :: "verdict \<Rightarrow> json" where
  "selected_locator_json v =
     (if loc_kind (v_locator v) = LocInvalid then JNull
      else jput ''multicast'' (JBool (v_locator_multicast v)) (locator_json (v_locator v)))"

definition measured_locator_json :: "measured_locator \<Rightarrow> json" where
  "measured_locator_json ml =
     jput ''bytes'' (JFloat (ml_bytes ml)) (jput ''packets'' (JUnsigned (ml_packets ml)) (locator_json (ml_locator ml)))"

definition measured_locators_json :: "measured_locator list \<Rightarrow> json" where
  "measured_locators_json ls = JArray (map measured_locator_json ls)"

definition d_isinf :: "double \<Rightarrow> bool" where
  "d_isinf d \<longleftrightarrow> d = PInf \<or> d = NInf"

definition qos_json :: "endpoint_qos \<Rightarrow> json" where
  "qos_json q = obj [
     (''reliability'', JString (reliability q)),
     (''durability'', JString (durability q)),
     (''data_sharing'', JString (data_sharing_text (data_sharing q))),
     (''data_sharing_domain_ids'', JArray (map JUnsigned (data_sharing_domains q))),
     (''deadline_s'', jif (\<not> d_isinf (deadline_s q)) (JFloat (deadline_s q))),
     (''liveliness'', JString (liveliness q)),
     (''liveliness_lease_s'', jif (\<not> d_isinf (liveliness_lease_s q)) (JFloat (liveliness_lease_s q))),
     (''ownership'', JString (ownership q)),
     (''partitions'', strings (partitions q))]"

definition endpoint_fields :: "snapshot \<Rightarrow> endpoint \<Rightarrow> render_options \<Rightarrow> (string \<times> json) list" where
  "endpoint_fields snap e opt = [
     (''guid'', JString (guid e)),
     (''participant_guid_prefix'', JString (participant_guid_prefix e)),
     (''host_id'', JString (host_id_hex (ep_host_id e))),
     (''host'', JString (host_label snap e opt)),
     (''node'', JString (node_name e)),
     (''host_name'', JString (host_name e)),
     (''process'', JString (process e)),
     (''dds_topic'', JString (dds_topic e)),
     (''dds_type'', JString (dds_type e)),
     (''ros_topic'', JString (ros_topic e)),
     (''ros_type'', JString (ros_type e)),
     (''type_hash'', JString (type_hash e)),
     (''type_information_hash'', JString (type_information_hash e)),
     (''type_information_minimal_hash'', JString (type_information_minimal_hash e)),
     (''unicast_locators'', locators_json (unicast e)),
     (''multicast_locators'', locators_json (multicast e)),
     (''datasharing_history_bytes'',
        jif (datasharing_history_available e) (JUnsigned (datasharing_history_bytes e))),
     (''datasharing_segment_visibility'', JString (shm_visibility_text (datasharing_segment_visibility e))),
     (''qos'', qos_json (qos e))]"

definition endpoint_json :: "snapshot \<Rightarrow> render_options \<Rightarrow> endpoint \<Rightarrow> json" where
  "endpoint_json snap opt e =
     (let j = obj (endpoint_fields snap e opt)
      in if buffer_parent_guid e = [] then j
         else jput ''buffer_parent_guid'' (JString (buffer_parent_guid e)) j)"

definition discovery_json :: "discovery_status \<Rightarrow> json" where
  "discovery_json d = obj [
     (''complete'', case ds_complete d of None \<Rightarrow> JNull | Some c \<Rightarrow> JBool c),
     (''stopped_on'', JString (ds_stopped_on d)),
     (''events'', jsize (ds_events d)),
     (''endpoints'', jsize (ds_endpoints d)),
     (''announced_not_discovered'', jsize (announced_not_discovered d)),
     (''observer_protocol'', JString (ds_observer_protocol d)),
     (''discovery_servers'', locators_json (ds_discovery_servers d)),
     (''discovery_server_env'', JString (ds_discovery_server_env d)),
     (''easy_mode'', JString (ds_easy_mode d))]"

subsection \<open>Pairs and topics\<close>

definition latency_json :: "latency_stat \<Rightarrow> json" where
  "latency_json l = obj [(''mean'', JFloat (lat_mean l)), (''min'', JFloat (lat_min l)),
     (''max'', JFloat (lat_max l)), (''last'', JFloat (lat_last l)), (''samples'', JUnsigned (lat_samples l))]"

definition reliability_json :: "reliability_stat \<Rightarrow> json" where
  "reliability_json r = obj [
     (''lost_packets'', jif (rel_lost_available r) (JUnsigned (rel_lost_packets r))),
     (''resent_datas'', JUnsigned (rel_resent r)),
     (''heartbeats'', JUnsigned (rel_heartbeats r)),
     (''gaps'', JUnsigned (rel_gaps r)),
     (''acknacks'', JUnsigned (rel_acknacks r)),
     (''nackfrags'', JUnsigned (rel_nackfrags r))]"

definition transports_json :: "transport list \<Rightarrow> json" where
  "transports_json ts = strings (map transport_text ts)"

definition measured_json :: "snapshot \<Rightarrow> measurement \<Rightarrow> json" where
  "measured_json snap m = obj [
     (''available'', JBool (m_available m)),
     (''transports'', transports_json (m_transports m)),
     (''locators'', measured_locators_json (m_locators m)),
     (''packets'', JUnsigned (m_packets m)),
     (''bytes'', JFloat (m_bytes m)),
     (''packets_total'', JUnsigned (m_packets_total m)),
     (''bytes_total'', JFloat (m_bytes_total m)),
     (''throughput_bytes_per_s'', JNull),
     (''latency_s'', jif (m_latency_available m) (latency_json (m_latency m))),
     (''reliability'', jif (rel_available (m_reliability m)) (reliability_json (m_reliability m))),
     (''delivered'', JBool (m_delivered m)),
     (''delivered_samples'', JUnsigned (m_delivered_samples m)),
     (''delivered_per_s'', jif (m_rate_available m) (JFloat (m_delivered_per_s m))),
     (''delivered_per_s_lower_bound'', JBool (m_rate_lower_bound m)),
     (''delivered_per_s_window_s'', JFloat (if d_lt (Fin 0) (m_rate_window_s m) then m_rate_window_s m
        else sn_observation_seconds snap)),
     (''data_submessages'', jif (m_data_count_available m) (JUnsigned (m_data_submessages m)))]"

definition pair_json :: "snapshot \<Rightarrow> render_options \<Rightarrow> pair \<Rightarrow> json" where
  "pair_json snap opt p =
     (let w = sn_endpoints snap ! p_writer p; r = sn_endpoints snap ! p_reader p; v = p_verdict p
      in obj [
       (''writer_guid'', JString (guid w)),
       (''reader_guid'', JString (guid r)),
       (''writer_node'', JString (node_name w)),
       (''reader_node'', JString (node_name r)),
       (''writer_host'', JString (host_label snap w opt)),
       (''reader_host'', JString (host_label snap r opt)),
       (''transport'', JString (transport_text (v_transport v))),
       (''locator'', selected_locator_json v),
       (''confidence'', JString (confidence_text (v_confidence v))),
       (''reasons'', strings (v_reasons v)),
       (''warnings'', strings (v_warnings v)),
       (''measured'', measured_json snap (p_measured p))])"

definition topic_json :: "snapshot \<Rightarrow> render_options \<Rightarrow> topic_summary \<Rightarrow> json" where
  "topic_json snap opt t =
     (let eps = sn_endpoints snap
      in obj [
       (''topic'', JString (t_display_topic t)),
       (''dds_topic'', JString (t_dds_topic t)),
       (''type'', JString (t_display_type t)),
       (''is_ros_topic'', JBool (t_is_ros_topic t)),
       (''kind'', JString (topic_kind_text (t_kind t))),
       (''group'', JString (t_group t)),
       (''direction'', JString (group_direction_text (t_direction t))),
       (''unmatched_reasons'', strings (t_unmatched_reasons t)),
       (''throughput_bytes_per_s'', JNull),
       (''latency_s'', jif (t_latency_available t) (JFloat (t_latency t))),
       (''lost_packets'', jif (t_lost_available t) (JUnsigned (t_lost_packets t))),
       (''resent_datas'', jif (t_reliability_available t) (JUnsigned (t_resent t))),
       (''writers'', JArray (map (\<lambda>i. endpoint_json snap opt (eps ! i)) (t_writers t))),
       (''readers'', JArray (map (\<lambda>i. endpoint_json snap opt (eps ! i)) (t_readers t))),
       (''pairs'', JArray (map (pair_json snap opt) (t_pairs t)))])"

subsection \<open>Participants, codes and changes\<close>

definition shm_port_json :: "shm_port \<Rightarrow> json" where
  "shm_port_json sp = obj [(''port'', ju32 (sp_port sp)), (''lock'', JString (port_lock_text (sp_lock sp))),
     (''announced_by'', jsize (sp_announced_by sp)), (''proof'', JBool (sp_proof sp))]"

definition participant_json :: "snapshot \<Rightarrow> render_options \<Rightarrow> participant \<Rightarrow> json" where
  "participant_json snap opt p = obj [
     (''guid_prefix'', JString (pt_guid_prefix p)),
     (''host_id'', JString (host_id_hex (pt_host_id p))),
     (''host'', JString (host_label_of snap (pt_host_id p) (pt_host_name p) opt)),
     (''host_name'', JString (pt_host_name p)),
     (''own'', JBool (pt_own p)),
     (''discovery_protocol'', JString (pt_discovery_protocol p)),
     (''name'', JString (pt_name p)),
     (''vendor'', JString (pt_vendor p)),
     (''metatraffic_locators'', locators_json (pt_metatraffic_locators p)),
     (''discovery_server'', case pt_discovery_server p of None \<Rightarrow> JNull | Some s \<Rightarrow> JString s),
     (''shm_visibility'', JString (shm_visibility_text (pt_shm_visibility p))),
     (''shm_ports'', JArray (map shm_port_json (pt_shm_ports p)))]"

text \<open>The codes of the document in the order of their \<open>std::set\<close>.\<close>

definition topic_codes :: "topic_summary \<Rightarrow> string list" where
  "topic_codes t = t_unmatched_reasons t @
     concat (map (\<lambda>p. v_reasons (p_verdict p) @ v_warnings (p_verdict p)) (t_pairs t))"

definition document_codes :: "snapshot \<Rightarrow> string list" where
  "document_codes snap =
     sort (remdups (concat (map topic_codes (sn_topics snap)) @ shm_warnings (sn_shm snap) @ stats_warnings (sn_stats snap)))"

definition remedy_json :: "string \<Rightarrow> json" where
  "remedy_json c = (case remedy c of None \<Rightarrow> JNull | Some r \<Rightarrow> JString r)"

definition key_fields :: "pair_key \<Rightarrow> (string \<times> json) list" where
  "key_fields k = [(''topic'', JString (pk_topic k)), (''writer_guid'', JString (pk_writer_guid k)),
     (''reader_guid'', JString (pk_reader_guid k)), (''writer_node'', JString (pk_writer_node k)),
     (''reader_node'', JString (pk_reader_node k))]"

definition key_json :: "pair_key \<Rightarrow> json" where
  "key_json k = obj (key_fields k)"

definition state_json :: "pair_state \<Rightarrow> json" where
  "state_json st = obj [
     (''transport'', JString (transport_text (ps_transport st))),
     (''confidence'', JString (confidence_text (ps_confidence st))),
     (''measured'', transports_json (ps_measured st)),
     (''locator'', jif (loc_kind (ps_locator st) \<noteq> LocInvalid) (locator_json (ps_locator st))),
     (''measured_locators'', locators_json (ps_measured_locators st)),
     (''warnings'', strings (ps_warnings st))]"

definition changed_json :: "pair_change \<Rightarrow> json" where
  "changed_json c =
     (let from = jput ''reader_guid'' (JString (pk_reader_guid (pc_before_key c)))
                   (jput ''writer_guid'' (JString (pk_writer_guid (pc_before_key c))) (state_json (pc_from c)))
      in jput ''to'' (state_json (pc_to c)) (jput ''from'' from (key_json (pc_key c))))"

definition changes_json :: "changes \<Rightarrow> json" where
  "changes_json c =
     (let j = obj [
       (''key'', JString (key_mode_text (ch_key c))),
       (''added_pairs'', JArray (map key_json (ch_added c))),
       (''removed_pairs'', JArray (map key_json (ch_removed c))),
       (''changed_pairs'', JArray (map changed_json (ch_changed c)))]
      in case ch_before c of None \<Rightarrow> j
         | Some b \<Rightarrow> jput ''before'' (obj [(''observed_at'', JString (sr_observed_at b)),
             (''domain'', JInteger (sr_domain b))]) j)"

subsection \<open>Statistics and shared memory\<close>

definition data_count_json :: "data_count_sample \<Rightarrow> json" where
  "data_count_json d = obj [(''first'', JUnsigned (dc_first d)), (''last'', JUnsigned (dc_last d)),
     (''samples'', JUnsigned (dc_samples d))]"

definition host_info_json :: "host_info \<Rightarrow> json" where
  "host_info_json h = obj [(''host'', JString (hi_host h)), (''user'', JString (hi_user h)),
     (''process'', JString (hi_process h))]"

definition traffic_fields :: "traffic_sample \<Rightarrow> (string \<times> json) list" where
  "traffic_fields t = [
     (''src_participant_guid_prefix'', JString (src_participant_prefix t)),
     (''dst_locator'', locator_json (ts_dst t)),
     (''packets'', JUnsigned (ts_packets t)), (''bytes'', JFloat (ts_bytes t)),
     (''packets_first'', JUnsigned (ts_packets_first t)), (''bytes_first'', JFloat (ts_bytes_first t))]"

definition traffic_json :: "traffic_sample \<Rightarrow> json" where
  "traffic_json t = obj (traffic_fields t)"

definition lost_json :: "traffic_sample \<Rightarrow> json" where
  "lost_json t = obj ((''reporter_participant_guid_prefix'', JString (reporter_participant_prefix t)) # traffic_fields t)"

definition statistics_writer_json :: "string \<times> string \<Rightarrow> json" where
  "statistics_writer_json kv =
     obj [(''participant_guid_prefix'', JString (fst kv)), (''topic'', JString (snd kv))]"

text \<open>A map written key by key.\<close>

definition map_json :: "('v \<Rightarrow> json) \<Rightarrow> (string, 'v) omap \<Rightarrow> json" where
  "map_json f m = JObject (map (\<lambda>(k, v). (k, f v)) m)"

definition stats_json :: "stats_data \<Rightarrow> json" where
  "stats_json s = obj [
     (''enabled'', JBool (enabled s)),
     (''samples'', JUnsigned (samples s)),
     (''data_count'', map_json data_count_json (data_count s)),
     (''throughput'', JObject []),
     (''participants_with_stats'', strings (sorted_list_of_set (participants_with_stats s))),
     (''statistics_writers'', JArray (map statistics_writer_json (sorted_list_of_set (statistics_writers s)))),
     (''physical'', map_json host_info_json (physical s)),
     (''traffic'', JArray (map traffic_json (traffic s))),
     (''lost'', JArray (map lost_json (lost s))),
     (''samples_lost'', JUnsigned (samples_lost s)),
     (''samples_lost_at_start'', JUnsigned (samples_lost_at_start s)),
     (''samples_rejected'', JUnsigned (samples_rejected s)),
     (''writers_incompatible_qos'', JUnsigned (writers_incompatible_qos s)),
     (''writers_announced'', JUnsigned (writers_announced s)),
     (''writers_heard'', JUnsigned (writers_heard s)),
     (''measured_instances'', JUnsigned (measured_instances s)),
     (''measurable_pairs'', JUnsigned (measurable_pairs s)),
     (''settled'', JBool (settled s)),
     (''settled_at_s'', jif (d_le (Fin 0) (settled_at_s s)) (JFloat (settled_at_s s))),
     (''samples_lost_latency'', JUnsigned (samples_lost_latency s)),
     (''pairs_delivered'', JUnsigned (pairs_delivered s)),
     (''pairs_delivered_unmeasured'', JUnsigned (pairs_delivered_unmeasured s)),
     (''pairs_delivered_absent'', JUnsigned (pairs_delivered_absent s)),
     (''warnings'', strings (stats_warnings s))]"

definition shm_figures :: "shm_info \<Rightarrow> (string \<times> json) list" where
  "shm_figures s = [
     (''total_bytes'', JUnsigned (total_bytes s)),
     (''used_bytes'', JUnsigned (used_bytes s)),
     (''free_bytes'', JUnsigned (free_bytes s)),
     (''fastdds_bytes'', JUnsigned (fastdds_bytes s)),
     (''segments'', JUnsigned (segments s)),
     (''stale_segments'', JUnsigned (stale_segments s)),
     (''ports'', JUnsigned (ports s)),
     (''stale_ports'', JUnsigned (stale_ports s)),
     (''datasharing_histories'', JUnsigned (datasharing_histories s)),
     (''datasharing_unmatched'', JUnsigned (datasharing_unmatched s)),
     (''datasharing_notifications'', JUnsigned (datasharing_notifications s)),
     (''checked_ports'', JArray (map ju32 (checked_ports s))),
     (''missing_ports'', JArray (map ju32 (missing_ports s))),
     (''unknown_ports'', JArray (map ju32 (unknown_ports s))),
     (''other_host_participants'', JUnsigned (other_host_participants s)),
     (''nodes_visible'', JBool (nodes_visible s))]"

definition shm_json :: "shm_info \<Rightarrow> json" where
  "shm_json s = obj ([(''available'', JBool (shm_available s)), (''path'', JString (shm_path s))] @
     (if shm_available s then shm_figures s else []) @ [(''warnings'', strings (shm_warnings s))])"

subsection \<open>The document\<close>

definition code_table :: "(string \<Rightarrow> json) \<Rightarrow> string list \<Rightarrow> json" where
  "code_table f codes = obj (map (\<lambda>c. (c, f c)) codes)"

definition snapshot_json :: "snapshot \<Rightarrow> render_options \<Rightarrow> json" where
  "snapshot_json snap opt = obj ([
     (''schema_version'', JInteger 1),
     (''domain'', JInteger (sn_domain snap)),
     (''observed_at'', JString (sn_observed_at snap)),
     (''observation_seconds'', JFloat (sn_observation_seconds snap)),
     (''local_host_id'', JString (host_id_hex (sn_local_host_id snap)))] @
     (if ds_stopped_on (sn_discovery snap) = [] then [] else [(''discovery'', discovery_json (sn_discovery snap))]) @
     [(''topics'', JArray (map (topic_json snap opt) (sn_topics snap)))] @
     (if sn_participants snap = [] then []
      else [(''participants'', JArray (map (participant_json snap opt) (sn_participants snap)))]) @
     [(''reason_code_descriptions'', code_table (\<lambda>c. JString (explain c)) (document_codes snap)),
      (''reason_code_remedies'', code_table remedy_json (document_codes snap))] @
     (if sn_has_changes snap then [(''changes'', changes_json (sn_changes snap))] else []) @
     [(''stats'', stats_json (sn_stats snap)), (''shm'', shm_json (sn_shm snap))])"

text \<open>
  \<open>dump indent j\<close> is \<open>json::dump\<close>, without an indentation for \<open>None\<close>; it has no result when it throws
  \<open>type_error.316\<close> on a string that is not UTF-8, which nothing catches.
\<close>

definition render_json :: "(nat option \<Rightarrow> json \<Rightarrow> string option) \<Rightarrow> snapshot \<Rightarrow> render_options \<Rightarrow> string option" where
  "render_json dump snap opt =
     map_option (\<lambda>s. s @ [CHR 0x0A]) (dump (if ro_compact opt then None else Some 2) (snapshot_json snap opt))"

end
