(* ===== verification/Json_Props.thy ===== *)
theory Json_Props
  imports Render_Json Parse_Props Diffing_Props
begin

text \<open>
  What a document carries: reading back what was written, part by part, and that a comparison of
  documents is the comparison of the snapshots they were written from.
\<close>

subsection \<open>Values read back\<close>

lemmas reading_defs = get_at_def at_key_def value_or_def value_json_def number_at_def

lemma parsed_Inr [simp]: "parsed (Inr x) = Inr x"
  by (simp add: parsed_def)

definition finite_double :: "double \<Rightarrow> bool" where
  "finite_double d \<longleftrightarrow> (case d of Fin x \<Rightarrow> True | _ \<Rightarrow> False)"

lemma reread_finite [simp]: "finite_double d \<Longrightarrow> reread (JFloat d) = JFloat d"
  by (cases d) (simp_all add: finite_double_def reread_float)

text \<open>A value that may be infinite is infinite when it comes back as \<open>null\<close>.\<close>

definition or_inf :: "double \<Rightarrow> double" where
  "or_inf d = (case d of Fin x \<Rightarrow> d | _ \<Rightarrow> PInf)"

context json_library
begin

lemma as_double_finite [simp]: "finite_double d \<Longrightarrow> as_double L (JFloat d) = Inr d"
  by (cases d) (simp_all add: finite_double_def)

lemma number_or_inf [simp]: "number_or L PInf (reread (jif (\<not> d_isinf d) (JFloat d))) = Inr (or_inf d)"
  by (cases d) (simp_all add: number_or_def jif_def d_isinf_def or_inf_def reread_float)

lemma map_reread_leaves [simp]:
  "map (reread \<circ> JUnsigned) ns = map JUnsigned ns" "map (reread \<circ> ju32) ps = map ju32 ps"
  by (simp_all add: comp_def)

lemma object_ok_locator [simp]: "object_ok (locator_json l)"
  by (simp add: locator_json_def)

lemma read_locator_I:
  assumes "json_find ''kind'' j = Some (JString (locator_kind_text (loc_kind l)))"
    and "json_find ''address'' j = Some (JString (loc_address l))"
    and "json_find ''port'' j = Some (ju32 (loc_port l))"
  shows "read_locator L w j = Inr l"
  using assms enumerations_roundtrip by (simp add: read_locator_def reading_defs)

lemma locator_back [simp]: "read_locator L w (reread (locator_json l)) = Inr l"
  by (rule read_locator_I) (simp_all add: locator_json_def locator_fields_def)

lemma locators_back [simp]: "read_locators L w (reread (locators_json ls)) = Inr ls"
  using read_each_ok [of ls "\<lambda>l. read_locator L w (reread (locator_json l))" "\<lambda>l. l"]
  by (simp add: read_locators_def locators_json_def comp_def)

end

definition kept_qos :: "endpoint_qos \<Rightarrow> endpoint_qos" where
  "kept_qos q = q\<lparr>deadline_s := or_inf (deadline_s q), liveliness_lease_s := or_inf (liveliness_lease_s q)\<rparr>"

context json_library
begin

lemma qos_back [simp]: "read_qos L w (reread (qos_json q)) = Inr (kept_qos q)"
  using enumerations_roundtrip
  by (simp add: read_qos_def qos_json_def reading_defs kept_qos_def del: reread_jif)

lemma read_host_id_back: "length h = 4 \<Longrightarrow> read_host_id (host_id_hex h) = Inr h"
  by (simp add: read_host_id_def host_id_roundtrip)

end

text \<open>What is left of an endpoint in a document.\<close>

definition kept_endpoint :: "bool \<Rightarrow> endpoint \<Rightarrow> endpoint" where
  "kept_endpoint writer e = e\<lparr>is_writer := writer, guid_bytes := parse_guid_bytes (guid e),
     node_name := normalize_node_name (node_name e), qos := kept_qos (qos e),
     same_host_locators_filtered := False,
     datasharing_history_bytes := (if datasharing_history_available e then datasharing_history_bytes e else 0),
     participant_shm_ports := {}, participant_shm_visibility := Unprobed, buffer_companion_guids := []\<rparr>"

text \<open>The keys of an endpoint, with or without the one that is optional.\<close>

lemma object_ok_endpoint [simp]: "object_ok (endpoint_json snap opt e)"
  by (simp add: endpoint_json_def Let_def)

lemma find_endpoint: "json_find k (endpoint_json snap opt e) =
   (if k = ''buffer_parent_guid'' then (if buffer_parent_guid e = [] then None else Some (JString (buffer_parent_guid e)))
    else map_of (endpoint_fields snap e opt) k)"
  by (simp add: endpoint_json_def Let_def endpoint_fields_def)

context json_library
begin

lemma names_back:
  assumes "length (ep_host_id e) = 4"
  shows "read_names L w (reread (endpoint_json snap opt e)) e0 = Inr (e0\<lparr>guid := guid e,
     guid_bytes := parse_guid_bytes (guid e), participant_guid_prefix := participant_guid_prefix e,
     ep_host_id := ep_host_id e, node_name := normalize_node_name (node_name e), host_name := host_name e,
     process := process e, buffer_parent_guid := buffer_parent_guid e\<rparr>)"
  using assms by (simp add: read_names_def reading_defs find_endpoint endpoint_fields_def read_host_id_back)

lemma types_back: "read_types L w (reread (endpoint_json snap opt e)) e0 = Inr (e0\<lparr>dds_topic := dds_topic e,
     dds_type := dds_type e, ros_topic := ros_topic e, ros_type := ros_type e, type_hash := type_hash e,
     type_information_hash := type_information_hash e,
     type_information_minimal_hash := type_information_minimal_hash e\<rparr>)"
  by (simp add: read_types_def reading_defs find_endpoint endpoint_fields_def)

lemma transports_back: "read_transports L w (reread (endpoint_json snap opt e)) e0 = Inr (e0\<lparr>unicast := unicast e,
     multicast := multicast e, datasharing_history_available := datasharing_history_available e,
     datasharing_history_bytes := (if datasharing_history_available e then datasharing_history_bytes e else 0),
     datasharing_segment_visibility := datasharing_segment_visibility e, qos := kept_qos (qos e)\<rparr>)"
  using enumerations_roundtrip
  by (simp add: read_transports_def reading_defs find_endpoint endpoint_fields_def jif_def)

lemma endpoint_back:
  assumes "length (ep_host_id e) = 4"
  shows "read_endpoint L writer w (reread (endpoint_json snap opt e)) = Inr (kept_endpoint writer e)"
  by (simp add: read_endpoint_def names_back [OF assms] types_back transports_back kept_endpoint_def endpoint0_def)

end

subsection \<open>Measurements read back\<close>

context json_library
begin

lemma measured_locator_back:
  assumes "finite_double (ml_bytes ml)"
  shows "read_measured_locator L w (reread (measured_locator_json ml)) = Inr ml"
proof -
  have "read_locator L w (reread (measured_locator_json ml)) = Inr (ml_locator ml)"
    by (rule read_locator_I) (simp_all add: measured_locator_json_def locator_json_def locator_fields_def)
  then show ?thesis
    using assms by (simp add: read_measured_locator_def reading_defs measured_locator_json_def)
qed

end

definition latency_finite :: "latency_stat \<Rightarrow> bool" where
  "latency_finite l \<longleftrightarrow> finite_double (lat_mean l) \<and> finite_double (lat_min l) \<and> finite_double (lat_max l)
     \<and> finite_double (lat_last l)"

definition measurement_finite :: "snapshot \<Rightarrow> measurement \<Rightarrow> bool" where
  "measurement_finite snap m \<longleftrightarrow> list_all (\<lambda>ml. finite_double (ml_bytes ml)) (m_locators m)
     \<and> finite_double (m_bytes m) \<and> finite_double (m_bytes_total m)
     \<and> (if m_latency_available m then latency_finite (m_latency m) else True)
     \<and> (if m_rate_available m then finite_double (m_delivered_per_s m) else True)
     \<and> finite_double (m_rate_window_s m) \<and> finite_double (sn_observation_seconds snap)"

definition kept_latency :: "latency_stat \<Rightarrow> latency_stat" where
  "kept_latency l = l\<lparr>lat_sum := d_mul (lat_mean l) (d_of_nat (unat (lat_samples l)))\<rparr>"

definition kept_reliability :: "reliability_stat \<Rightarrow> reliability_stat" where
  "kept_reliability r = (if rel_available r
     then r\<lparr>rel_lost_packets := (if rel_lost_available r then rel_lost_packets r else 0)\<rparr>
     else reliability_stat0)"

definition kept_measurement :: "snapshot \<Rightarrow> measurement \<Rightarrow> measurement" where
  "kept_measurement snap m = m\<lparr>
     m_latency := (if m_latency_available m then kept_latency (m_latency m) else latency_stat0),
     m_delivered_per_s := (if m_rate_available m then m_delivered_per_s m else Fin 0),
     m_rate_window_s := (if d_lt (Fin 0) (m_rate_window_s m) then m_rate_window_s m
        else sn_observation_seconds snap),
     m_reliability := kept_reliability (m_reliability m),
     m_data_submessages := (if m_data_count_available m then m_data_submessages m else 0)\<rparr>"

context json_library
begin

lemma latency_back:
  assumes "latency_finite l"
  shows "read_latency L (reread (latency_json l)) = Inr (kept_latency l)"
  using assms by (simp add: read_latency_def latency_json_def reading_defs kept_latency_def latency_finite_def)

lemma counter_back [simp]: "counter L (jif c (JUnsigned n)) = Inr (c, if c then n else 0)"
  by (simp add: counter_def jif_def)

lemma reliability_back:
  assumes "rel_available r"
  shows "read_reliability L (reread (reliability_json r)) = Inr (kept_reliability r)"
  using assms by (simp add: read_reliability_def reliability_json_def reading_defs kept_reliability_def)

lemma read_transports_text: "read_each (\<lambda>t. bnd (as_string L t) (\<lambda>s. parsed (parse_transport s)))
     (json_elements (transports_json ts)) = Inr ts"
  using enumerations_roundtrip read_each_ok [of ts "\<lambda>t. parsed (parse_transport (transport_text t))" "\<lambda>t. t"]
  by (simp add: transports_json_def strings_def)

lemma read_measured_locators: "list_all (\<lambda>ml. finite_double (ml_bytes ml)) mls \<Longrightarrow>
   read_each (read_measured_locator L w) (json_elements (reread (measured_locators_json mls))) = Inr mls"
  using read_each_ok [of mls "\<lambda>ml. read_measured_locator L w (reread (measured_locator_json ml))" "\<lambda>ml. ml"]
  by (simp add: measured_locators_json_def measured_locator_back list_all_iff comp_def)

lemma reread_transports [simp]: "reread (transports_json ts) = transports_json ts"
  by (simp add: transports_json_def)

lemma traffic_part_back:
  assumes "measurement_finite snap m"
  shows "read_traffic_part L w (reread (measured_json snap m)) m0 = Inr (m0\<lparr>m_available := m_available m,
     m_transports := m_transports m, m_locators := m_locators m, m_packets := m_packets m, m_bytes := m_bytes m,
     m_packets_total := m_packets_total m, m_bytes_total := m_bytes_total m\<rparr>)"
  using assms by (simp add: read_traffic_part_def measured_json_def reading_defs measurement_finite_def
      read_transports_text read_measured_locators)

lemma delivery_part_back:
  assumes "measurement_finite snap m"
  shows "read_delivery_part L w (reread (measured_json snap m)) m0 = Inr (m0\<lparr>
     m_latency_available := m_latency_available m,
     m_latency := (if m_latency_available m then kept_latency (m_latency m) else m_latency m0),
     m_delivered := m_delivered m, m_delivered_samples := m_delivered_samples m,
     m_rate_available := m_rate_available m,
     m_delivered_per_s := (if m_rate_available m then m_delivered_per_s m else m_delivered_per_s m0),
     m_rate_lower_bound := m_rate_lower_bound m,
     m_rate_window_s := (if d_lt (Fin 0) (m_rate_window_s m) then m_rate_window_s m
        else sn_observation_seconds snap)\<rparr>)"
proof -
  have lat: "is_object (reread (jif c (latency_json l))) = c" "is_number (jif c (JFloat d)) = c"
      "is_object (latency_json l)" for c l d
    by (simp_all add: jif_def latency_json_def)
  show ?thesis
    using assms latency_back [of "m_latency m"]
    by (cases "m_latency_available m"; cases "m_rate_available m")
      (simp_all add: read_delivery_part_def measured_json_def reading_defs measurement_finite_def lat jif_def)
qed

lemma counter_part_back: "read_counter_part L (reread (measured_json snap m)) m0 = Inr (m0\<lparr>
     m_reliability := (if rel_available (m_reliability m) then kept_reliability (m_reliability m) else m_reliability m0),
     m_data_count_available := m_data_count_available m,
     m_data_submessages := (if m_data_count_available m then m_data_submessages m else 0)\<rparr>)"
  using reliability_back [of "m_reliability m"]
  by (cases "rel_available (m_reliability m)")
    (simp_all add: read_counter_part_def measured_json_def reading_defs jif_def counter_def reliability_json_def)

lemma measurement_back:
  assumes "measurement_finite snap m"
  shows "read_measurement L w (reread (measured_json snap m)) = Inr (kept_measurement snap m)"
  by (simp add: read_measurement_def traffic_part_back [OF assms] delivery_part_back [OF assms] counter_part_back
      kept_measurement_def kept_reliability_def measurement0_def)

end

subsection \<open>Pairs and topics read back\<close>

definition kept_verdict :: "verdict \<Rightarrow> verdict" where
  "kept_verdict v = (if loc_kind (v_locator v) = LocInvalid
     then v\<lparr>v_locator := locator0, v_locator_multicast := False\<rparr> else v)"

context json_library
begin

lemma selected_locator_back:
  "is_object (reread (selected_locator_json v)) = (loc_kind (v_locator v) \<noteq> LocInvalid)"
  "loc_kind (v_locator v) \<noteq> LocInvalid \<Longrightarrow>
     read_locator L w (reread (selected_locator_json v)) = Inr (v_locator v)"
  "loc_kind (v_locator v) \<noteq> LocInvalid \<Longrightarrow>
     value_or (as_bool L) False ''multicast'' (reread (selected_locator_json v)) = Inr (v_locator_multicast v)"
proof -
  assume "loc_kind (v_locator v) \<noteq> LocInvalid"
  then show "read_locator L w (reread (selected_locator_json v)) = Inr (v_locator v)"
    by (intro read_locator_I) (simp_all add: selected_locator_json_def locator_json_def locator_fields_def)
qed (simp_all add: selected_locator_json_def locator_json_def value_or_def)

lemma verdict_back: "read_verdict L w (reread (pair_json snap opt p)) = Inr (kept_verdict (p_verdict p))"
proof -
  define loc where "loc = reread (selected_locator_json (p_verdict p))"
  have at: "at_key (reread (pair_json snap opt p)) ''locator'' w = Inr loc"
    by (simp add: at_key_def pair_json_def Let_def loc_def)
  have rest: "get_at (\<lambda>v. bnd (as_string L v) (\<lambda>s. parsed (parse_transport s))) (reread (pair_json snap opt p)) ''transport'' w
        = Inr (v_transport (p_verdict p))"
      "get_at (\<lambda>v. bnd (as_string L v) (\<lambda>s. parsed (parse_confidence s))) (reread (pair_json snap opt p)) ''confidence'' w
        = Inr (v_confidence (p_verdict p))"
      "get_at (as_list (as_string L)) (reread (pair_json snap opt p)) ''reasons'' w = Inr (v_reasons (p_verdict p))"
      "get_at (as_list (as_string L)) (reread (pair_json snap opt p)) ''warnings'' w = Inr (v_warnings (p_verdict p))"
    using enumerations_roundtrip by (simp_all add: pair_json_def Let_def get_at_def at_key_def)
  show ?thesis
    unfolding read_verdict_def rest at using selected_locator_back [of "p_verdict p"]
    by (cases "loc_kind (v_locator (p_verdict p)) = LocInvalid")
      (simp_all add: loc_def [symmetric] kept_verdict_def)
qed

end

definition kept_pair :: "snapshot \<Rightarrow> (string, nat) omap \<Rightarrow> pair \<Rightarrow> pair" where
  "kept_pair snap by_guid p =
     \<lparr>p_writer = the (om_get by_guid (guid (sn_endpoints snap ! p_writer p))),
      p_reader = the (om_get by_guid (guid (sn_endpoints snap ! p_reader p))),
      p_verdict = kept_verdict (p_verdict p), p_measured = kept_measurement snap (p_measured p)\<rparr>"

definition pair_listed :: "snapshot \<Rightarrow> (string, nat) omap \<Rightarrow> pair \<Rightarrow> bool" where
  "pair_listed snap by_guid p \<longleftrightarrow>
     om_get by_guid (guid (sn_endpoints snap ! p_writer p)) \<noteq> None \<and>
     om_get by_guid (guid (sn_endpoints snap ! p_reader p)) \<noteq> None"

context json_library
begin

lemma pair_back:
  assumes "pair_listed snap by_guid p" and "measurement_finite snap (p_measured p)"
  shows "read_pair L by_guid w (reread (pair_json snap opt p)) = Inr (kept_pair snap by_guid p)"
proof -
  have keys: "get_at (as_string L) (reread (pair_json snap opt p)) ''writer_guid'' w = Inr (guid (sn_endpoints snap ! p_writer p))"
      "get_at (as_string L) (reread (pair_json snap opt p)) ''reader_guid'' w = Inr (guid (sn_endpoints snap ! p_reader p))"
      "get_at (read_measurement L w) (reread (pair_json snap opt p)) ''measured'' w = Inr (kept_measurement snap (p_measured p))"
    by (simp_all add: pair_json_def Let_def get_at_def at_key_def measurement_back [OF assms(2)])
  show ?thesis
    using assms(1) unfolding read_pair_def keys
    by (auto simp: pair_listed_def keys verdict_back kept_pair_def wrapping_def)
qed

end

definition kept_topic ::
  "snapshot \<Rightarrow> endpoint list \<Rightarrow> (string, nat) omap \<Rightarrow> topic_summary \<Rightarrow> nat list \<times> nat list \<Rightarrow> topic_summary" where
  "kept_topic snap eps by_guid t refs = t\<lparr>t_writers := fst refs, t_readers := snd refs,
     t_dds_type := first_type eps refs, t_pairs := map (kept_pair snap by_guid) (t_pairs t),
     t_latency := (if t_latency_available t then t_latency t else Fin 0),
     t_reliability_available := (t_reliability_available t \<or> t_lost_available t),
     t_lost_packets := (if t_lost_available t then t_lost_packets t else 0),
     t_resent := (if t_reliability_available t then t_resent t else 0)\<rparr>"

definition topic_written :: "snapshot \<Rightarrow> topic_summary \<Rightarrow> bool" where
  "topic_written snap t \<longleftrightarrow> (if t_latency_available t then finite_double (t_latency t) else True)
     \<and> list_all (\<lambda>p. measurement_finite snap (p_measured p)) (t_pairs t)"

context json_library
begin

lemma topic_where_back: "topic_where L (reread (topic_json snap opt t)) = Inr (''topic '' @ t_display_topic t)"
  by (simp add: topic_where_def topic_json_def Let_def value_or_def)

lemma topic_names_back: "read_topic_names L w (reread (topic_json snap opt t)) = Inr (topic_summary0\<lparr>
     t_display_topic := t_display_topic t, t_dds_topic := t_dds_topic t, t_display_type := t_display_type t,
     t_is_ros_topic := t_is_ros_topic t, t_unmatched_reasons := t_unmatched_reasons t\<rparr>)"
  by (simp add: read_topic_names_def topic_json_def Let_def reading_defs)

lemma topic_numbers_back:
  assumes "topic_written snap t"
  shows "read_topic_numbers L (reread (topic_json snap opt t)) t0 = Inr (t0\<lparr>
     t_latency_available := t_latency_available t,
     t_latency := (if t_latency_available t then t_latency t else Fin 0),
     t_reliability_available := (t_reliability_available t \<or> t_lost_available t),
     t_lost_available := t_lost_available t,
     t_lost_packets := (if t_lost_available t then t_lost_packets t else 0),
     t_resent := (if t_reliability_available t then t_resent t else 0)\<rparr>)"
  using assms
  by (cases "t_latency_available t"; cases "t_lost_available t"; cases "t_reliability_available t")
    (simp_all add: read_topic_numbers_def topic_json_def Let_def reading_defs topic_written_def jif_def
      number_or_def counter_def)

lemma topic_class_back: "read_class L (reread (topic_json snap opt t)) t0 =
   Inr (t0\<lparr>t_kind := t_kind t, t_direction := t_direction t, t_group := t_group t\<rparr>, True)"
  using enumerations_roundtrip by (simp add: read_class_def topic_json_def Let_def reading_defs)

lemma topic_pairs_back:
  assumes "topic_written snap t" and "list_all (pair_listed snap by_guid) (t_pairs t)"
  shows "get_at (\<lambda>v. read_each (read_pair L by_guid w) (json_elements v)) (reread (topic_json snap opt t)) ''pairs'' w
     = Inr (map (kept_pair snap by_guid) (t_pairs t))"
proof -
  have "read_each (\<lambda>p. read_pair L by_guid w (reread (pair_json snap opt p))) (t_pairs t) =
      Inr (map (kept_pair snap by_guid) (t_pairs t))"
    using assms by (intro read_each_ok pair_back) (simp_all add: topic_written_def list_all_iff)
  then show ?thesis by (simp add: topic_json_def Let_def get_at_def at_key_def comp_def)
qed

lemma topic_back:
  assumes "topic_written snap t" and "list_all (pair_listed snap by_guid) (t_pairs t)"
  shows "read_topic L eps by_guid (reread (topic_json snap opt t), refs) = Inr (kept_topic snap eps by_guid t refs, True)"
  by (simp add: read_topic_def Let_def topic_where_back topic_names_back topic_numbers_back [OF assms(1)]
      topic_class_back topic_pairs_back [OF assms] kept_topic_def topic_summary0_def)

end

subsection \<open>The endpoints of the document\<close>

definition kept_ends :: "snapshot \<Rightarrow> topic_summary \<Rightarrow> endpoint list \<times> endpoint list" where
  "kept_ends snap t = (map (\<lambda>i. kept_endpoint True (sn_endpoints snap ! i)) (t_writers t),
     map (\<lambda>i. kept_endpoint False (sn_endpoints snap ! i)) (t_readers t))"

context json_library
begin

lemma topic_endpoints_back:
  assumes "list_all (\<lambda>i. length (ep_host_id (sn_endpoints snap ! i)) = 4) (t_writers t @ t_readers t)"
  shows "read_topic_endpoints L (reread (topic_json snap opt t)) = Inr (kept_ends snap t)"
proof -
  have side: "read_each (\<lambda>i. read_endpoint L b w (reread (endpoint_json snap opt (sn_endpoints snap ! i)))) is =
      Inr (map (\<lambda>i. kept_endpoint b (sn_endpoints snap ! i)) is)"
    if "set is \<subseteq> set (t_writers t @ t_readers t)" for b w "is"
    using assms that by (intro read_each_ok endpoint_back) (auto simp: list_all_iff)
  have "get_at (\<lambda>v. read_each (read_endpoint L True w) (json_elements v)) (reread (topic_json snap opt t)) ''writers'' w =
      Inr (fst (kept_ends snap t))"
    "get_at (\<lambda>v. read_each (read_endpoint L False w) (json_elements v)) (reread (topic_json snap opt t)) ''readers'' w =
      Inr (snd (kept_ends snap t))" for w
    by (simp_all add: topic_json_def Let_def get_at_def at_key_def comp_def side kept_ends_def)
  then show ?thesis
    by (simp add: read_topic_endpoints_def topic_where_back wrapping_def)
qed

end

subsection \<open>Statistics read back\<close>

definition sample_finite :: "traffic_sample \<Rightarrow> bool" where
  "sample_finite t \<longleftrightarrow> finite_double (ts_bytes t) \<and> finite_double (ts_bytes_first t)"

definition kept_traffic :: "traffic_sample \<Rightarrow> traffic_sample" where
  "kept_traffic t = t\<lparr>ts_samples := 0, reporter_participant_prefix := []\<rparr>"

lemma find_lost: "json_find k (lost_json t) = (if k = ''reporter_participant_guid_prefix''
   then Some (JString (reporter_participant_prefix t)) else json_find k (traffic_json t))"
  by (simp add: lost_json_def traffic_json_def)

context json_library
begin

lemma traffic_sample_I:
  assumes "sample_finite t" and "is_object j"
    and "\<And>k. k \<noteq> ''reporter_participant_guid_prefix'' \<Longrightarrow> json_find k j = map_option reread (json_find k (traffic_json t))"
  shows "read_traffic_sample L ''src_participant_guid_prefix'' ''dst_locator'' w j = Inr (kept_traffic t)"
  using assms(1,2) by (simp add: read_traffic_sample_def reading_defs assms(3) traffic_json_def traffic_fields_def
      kept_traffic_def traffic_sample0_def sample_finite_def)

lemma traffic_back: "sample_finite t \<Longrightarrow>
   read_traffic_sample L ''src_participant_guid_prefix'' ''dst_locator'' w (reread (traffic_json t)) = Inr (kept_traffic t)"
  by (rule traffic_sample_I) (simp_all add: traffic_json_def)

lemma lost_back: "sample_finite t \<Longrightarrow> read_lost_sample L (reread (lost_json t)) = Inr (t\<lparr>ts_samples := 0\<rparr>)"
proof -
  assume "sample_finite t"
  then have "read_traffic_sample L ''src_participant_guid_prefix'' ''dst_locator'' w (reread (lost_json t)) = Inr (kept_traffic t)" for w
    by (rule traffic_sample_I) (simp_all add: find_lost, simp add: lost_json_def)
  moreover have "json_find ''src_participant_guid_prefix'' (reread (lost_json t)) \<noteq> None"
    by (simp add: find_lost traffic_json_def traffic_fields_def)
  moreover have "value_or (as_string L) [] ''reporter_participant_guid_prefix'' (reread (lost_json t)) =
      Inr (reporter_participant_prefix t)"
    by (simp add: value_or_def lost_json_def)
  ultimately show ?thesis
    by (auto simp: read_lost_sample_def kept_traffic_def simp del: find_reread)
qed

lemma host_info_back [simp]: "read_host_info L (reread (host_info_json h)) = Inr h"
  by (simp add: read_host_info_def host_info_json_def reading_defs)

lemma data_count_back [simp]: "read_data_count L (reread (data_count_json d)) = Inr d"
  by (simp add: read_data_count_def data_count_json_def reading_defs)

lemma fold_put_sorted: "om_ok (m @ kvs) \<Longrightarrow> fold (\<lambda>kv. om_put (fst kv) (snd kv)) kvs m = m @ kvs"
proof (induction kvs arbitrary: m)
  case (Cons kv kvs)
  have "om_put (fst kv) (snd kv) m = m @ [kv]" if "\<forall>e \<in> set m. fst e < fst kv" for m
    using that by (induction m) auto
  moreover have "\<forall>e \<in> set m. fst e < fst kv"
    using Cons.prems by (auto simp: om_ok_def sorted_wrt_append)
  ultimately show ?case using Cons by simp
qed simp

lemma map_back:
  assumes "om_ok m" and "\<And>v. f (reread (g v)) = Inr v"
  shows "read_map f (reread (map_json g m)) = Inr m"
proof -
  have "read_each (\<lambda>kv. bnd (f (snd kv)) (\<lambda>v. Inr (fst kv, v))) (json_items (reread (map_json g m))) = Inr m"
    using assms(2) by (induction m) (simp_all add: map_json_def split_beta)
  then show ?thesis using fold_put_sorted [of "[]" m] assms(1) by (simp add: read_map_def)
qed

lemma reread_map_json [simp]: "is_object (map_json g m)"
  by (simp add: map_json_def)

lemma statistics_writer_back [simp]: "read_statistics_writer L (reread (statistics_writer_json kv)) = Inr kv"
  by (simp add: read_statistics_writer_def statistics_writer_json_def reading_defs)

end

definition stats_written :: "stats_data \<Rightarrow> bool" where
  "stats_written s \<longleftrightarrow> om_ok (physical s) \<and> om_ok (data_count s) \<and> list_all sample_finite (traffic s)
     \<and> list_all sample_finite (lost s) \<and> Finite_Set.finite (participants_with_stats s)
     \<and> Finite_Set.finite (statistics_writers s)"

definition kept_stats :: "stats_data \<Rightarrow> stats_data" where
  "kept_stats s = s\<lparr>traffic := map kept_traffic (traffic s), lost := map (\<lambda>t. t\<lparr>ts_samples := 0\<rparr>) (lost s),
     settled_at_s := (if d_le (Fin 0) (settled_at_s s) \<and> finite_double (settled_at_s s) then settled_at_s s else Fin (- 1)),
     delivered := [], latency := [], delivery_windows := [], latency_gaps := [], rate_window_s := Fin 0,
     resent_datas := [], heartbeats := [], gaps := [], acknacks := [], nackfrags := [], local_addresses := {},
     writer_instance_limit := True\<rparr>"

context json_library
begin

lemma json_elements_strings [simp]: "read_each (as_string L) (json_elements (strings ss)) = Inr ss"
  by (simp add: strings_def)

lemma stats_tables_back:
  assumes "stats_written s"
  shows "read_stats_tables L (reread (stats_json s)) = Inr (stats_data0\<lparr>enabled := enabled s, samples := samples s,
     participants_with_stats := participants_with_stats s, physical := physical s,
     traffic := map kept_traffic (traffic s), lost := map (\<lambda>t. t\<lparr>ts_samples := 0\<rparr>) (lost s),
     data_count := data_count s\<rparr>)"
proof -
  note ok = assms [unfolded stats_written_def]
  have "read_each (\<lambda>t. read_traffic_sample L ''src_participant_guid_prefix'' ''dst_locator'' ''stats.traffic'' (reread (traffic_json t)))
      (traffic s) = Inr (map kept_traffic (traffic s))"
    using ok by (intro read_each_ok traffic_back) (simp add: list_all_iff)
  moreover have "read_each (\<lambda>t. read_lost_sample L (reread (lost_json t))) (lost s) = Inr (map (\<lambda>t. t\<lparr>ts_samples := 0\<rparr>) (lost s))"
    using ok by (intro read_each_ok lost_back) (simp add: list_all_iff)
  ultimately show ?thesis
    using ok by (simp add: read_stats_tables_def stats_json_def reading_defs map_back comp_def)
qed

lemma stats_losses_back: "read_stats_losses L (reread (stats_json s)) s0 = Inr (s0\<lparr>samples_lost := samples_lost s,
     samples_lost_at_start := samples_lost_at_start s, samples_rejected := samples_rejected s,
     writers_incompatible_qos := writers_incompatible_qos s\<rparr>)"
  by (simp add: read_stats_losses_def stats_json_def reading_defs)

lemma stats_settle_back: "read_stats_settle L (reread (stats_json s)) s0 = Inr (s0\<lparr>
     writers_announced := writers_announced s, writers_heard := writers_heard s,
     measured_instances := measured_instances s, measurable_pairs := measurable_pairs s, settled := settled s,
     settled_at_s := (if d_le (Fin 0) (settled_at_s s) \<and> finite_double (settled_at_s s)
       then settled_at_s s else settled_at_s s0)\<rparr>)"
  by (cases "settled_at_s s")
    (simp_all add: read_stats_settle_def stats_json_def reading_defs jif_def finite_double_def reread_float)

lemma stats_pairs_back:
  assumes "stats_written s"
  shows "read_stats_pairs L (reread (stats_json s)) s0 = Inr (s0\<lparr>samples_lost_latency := samples_lost_latency s,
     pairs_delivered := pairs_delivered s, pairs_delivered_unmeasured := pairs_delivered_unmeasured s,
     pairs_delivered_absent := pairs_delivered_absent s, stats_warnings := stats_warnings s,
     statistics_writers := statistics_writers s\<rparr>)"
  using assms by (simp add: read_stats_pairs_def stats_json_def reading_defs comp_def stats_written_def)

lemma stats_back:
  assumes "stats_written s"
  shows "read_stats L (reread (stats_json s)) = Inr (kept_stats s)"
  by (simp add: read_stats_def stats_tables_back [OF assms] stats_losses_back stats_settle_back
      stats_pairs_back [OF assms] kept_stats_def stats_data0_def)

end

subsection \<open>The other sections read back\<close>

definition kept_shm :: "shm_info \<Rightarrow> shm_info" where
  "kept_shm s = (if shm_available s
     then s\<lparr>port_locks := [], datasharing_by_writer := [], datasharing_notification_readers := {}, shm_listed := False\<rparr>
     else shm_info0\<lparr>shm_path := shm_path s, shm_warnings := shm_warnings s\<rparr>)"

context json_library
begin

lemma shm_back: "read_shm L (reread (shm_json s)) = Inr (kept_shm s)"
proof (cases "shm_available s")
  case True
  have "read_shm_sizes L (reread (shm_json s)) = Inr (shm_info0\<lparr>shm_available := True, shm_path := shm_path s,
       total_bytes := total_bytes s, used_bytes := used_bytes s, free_bytes := free_bytes s,
       fastdds_bytes := fastdds_bytes s, segments := segments s, stale_segments := stale_segments s\<rparr>)"
    using True by (simp add: read_shm_sizes_def shm_json_def shm_figures_def reading_defs)
  moreover have "read_shm_ports L (reread (shm_json s)) s0 = Inr (s0\<lparr>ports := ports s, stale_ports := stale_ports s,
       datasharing_histories := datasharing_histories s, datasharing_unmatched := datasharing_unmatched s,
       datasharing_notifications := datasharing_notifications s, checked_ports := checked_ports s,
       missing_ports := missing_ports s, unknown_ports := unknown_ports s,
       other_host_participants := other_host_participants s, nodes_visible := nodes_visible s,
       shm_warnings := shm_warnings s\<rparr>)" for s0
    using True by (simp add: read_shm_ports_def shm_json_def shm_figures_def reading_defs)
  ultimately show ?thesis using True by (simp add: read_shm_def kept_shm_def shm_info0_def)
next
  case False
  then show ?thesis
    by (simp add: read_shm_def read_shm_sizes_def read_shm_ports_def shm_json_def reading_defs kept_shm_def shm_info0_def)
qed

lemma port_lock_back: "parse_port_lock (port_lock_text l) = l"
  by (cases l) (simp_all add: parse_port_lock_def)

end

definition kept_port :: "shm_port \<Rightarrow> shm_port" where
  "kept_port sp = sp\<lparr>sp_announced_by := unat (of_nat (sp_announced_by sp) :: u64)\<rparr>"

definition kept_participant :: "participant \<Rightarrow> participant" where
  "kept_participant p = p\<lparr>pt_shm_ports := map kept_port (pt_shm_ports p)\<rparr>"

context json_library
begin

lemma shm_port_back: "read_shm_port L w (reread (shm_port_json sp)) = Inr (kept_port sp)"
  by (simp add: read_shm_port_def shm_port_json_def reading_defs kept_port_def jsize_def port_lock_back)

lemma is_array_locators [simp]: "is_array (reread (locators_json ls))"
  by (simp add: locators_json_def)

lemma server_back: "(case map_option reread (Some (case sv of None \<Rightarrow> JNull | Some x \<Rightarrow> JString x)) of
     Some (JString s) \<Rightarrow> Inr (Some s) | _ \<Rightarrow> Inr None) = Inr sv"
  by (cases sv) simp_all

lemma participant_back:
  assumes "length (pt_host_id p) = 4"
  shows "read_participant L w (reread (participant_json snap opt p)) = Inr (kept_participant p)"
proof -
  have ps: "read_each (\<lambda>sp. read_shm_port L w (reread (shm_port_json sp))) (pt_shm_ports p) = Inr (map kept_port (pt_shm_ports p))" for w
    by (intro read_each_ok shm_port_back)
  show ?thesis
    using enumerations_roundtrip assms
    by (cases "pt_discovery_server p")
      (simp_all add: read_participant_def participant_json_def reading_defs read_host_id_back comp_def ps
        kept_participant_def)
qed

lemma participants_back:
  assumes "list_all (\<lambda>p. length (pt_host_id p) = 4) ps"
  shows "read_participants L (reread (JArray (map (participant_json snap opt) ps))) = Inr (map kept_participant ps)"
proof -
  have "read_each (\<lambda>(i, p). wrapping (participant_where i @ '': '') (read_participant L (participant_where i) p))
      (enumerate n (map (\<lambda>p. reread (participant_json snap opt p)) ps)) = Inr (map kept_participant ps)" for n
    using assms by (induction ps arbitrary: n) (simp_all add: participant_back wrapping_def)
  then show ?thesis by (simp add: read_participants_def comp_def)
qed

end

definition kept_discovery :: "discovery_status \<Rightarrow> discovery_status" where
  "kept_discovery d = (if ds_stopped_on d = [] then discovery_status0
     else d\<lparr>ds_events := unat (of_nat (ds_events d) :: u64), ds_endpoints := unat (of_nat (ds_endpoints d) :: u64),
       announced_not_discovered := unat (of_nat (announced_not_discovered d) :: u64),
       participants_incomplete := 0, announced_by_incomplete := 0\<rparr>)"

context json_library
begin

lemma discovery_back:
  assumes "ds_stopped_on d \<noteq> []"
  shows "read_discovery L (reread (discovery_json d)) = Inr (kept_discovery d)"
  using assms
  by (cases "ds_complete d")
    (simp_all add: read_discovery_def discovery_json_def reading_defs jsize_def kept_discovery_def discovery_status0_def)

end

subsection \<open>The document read back\<close>

lemma find_snapshot:
  "json_find ''schema_version'' (snapshot_json snap opt) = Some (JInteger 1)"
  "json_find ''domain'' (snapshot_json snap opt) = Some (JInteger (sn_domain snap))"
  "json_find ''observed_at'' (snapshot_json snap opt) = Some (JString (sn_observed_at snap))"
  "json_find ''observation_seconds'' (snapshot_json snap opt) = Some (JFloat (sn_observation_seconds snap))"
  "json_find ''local_host_id'' (snapshot_json snap opt) = Some (JString (host_id_hex (sn_local_host_id snap)))"
  "json_find ''topics'' (snapshot_json snap opt) = Some (JArray (map (topic_json snap opt) (sn_topics snap)))"
  "json_find ''stats'' (snapshot_json snap opt) = Some (stats_json (sn_stats snap))"
  "json_find ''shm'' (snapshot_json snap opt) = Some (shm_json (sn_shm snap))"
  "json_find ''discovery'' (snapshot_json snap opt) =
     (if ds_stopped_on (sn_discovery snap) = [] then None else Some (discovery_json (sn_discovery snap)))"
  "json_find ''participants'' (snapshot_json snap opt) = (if sn_participants snap = [] then None
     else Some (JArray (map (participant_json snap opt) (sn_participants snap))))"
  by (simp_all add: snapshot_json_def)

lemma object_snapshot [simp]: "is_object (snapshot_json snap opt)"
  by (simp add: snapshot_json_def)

context json_library
begin

end

definition topic_ok :: "snapshot \<Rightarrow> topic_summary \<Rightarrow> bool" where
  "topic_ok snap t \<longleftrightarrow> topic_written snap t
     \<and> set (t_writers t) \<union> set (t_readers t) \<subseteq> {..< length (sn_endpoints snap)}
     \<and> list_all (\<lambda>p. p_writer p \<in> set (t_writers t) \<and> p_reader p \<in> set (t_readers t)
         \<and> (loc_kind (v_locator (p_verdict p)) = LocInvalid \<longrightarrow> v_locator (p_verdict p) = locator0)) (t_pairs t)"

text \<open>
  What the program's snapshots are: host ids of four bytes, finite numbers, one endpoint per GUID,
  pairs between endpoints of their topic, no placeholder for a node name.
\<close>

definition document_ok :: "snapshot \<Rightarrow> bool" where
  "document_ok snap \<longleftrightarrow> length (sn_local_host_id snap) = 4 \<and> finite_double (sn_observation_seconds snap)
     \<and> - (2 ^ 31) \<le> sn_domain snap \<and> sn_domain snap < 2 ^ 31
     \<and> list_all (\<lambda>e. length (ep_host_id e) = 4 \<and> node_name e \<noteq> kUnknownNodeName) (sn_endpoints snap)
     \<and> distinct (map guid (sn_endpoints snap))
     \<and> list_all (topic_ok snap) (sn_topics snap)
     \<and> list_all (\<lambda>p. length (pt_host_id p) = 4) (sn_participants snap)
     \<and> stats_written (sn_stats snap)"

context json_library
begin

lemma header_back:
  assumes "document_ok snap"
  shows "read_header L dump (reread (snapshot_json snap opt)) = Inr (snap\<lparr>sn_endpoints := [], sn_participants := [],
     sn_topics := [], sn_stats := stats_data0, sn_shm := shm_info0, sn_discovery := discovery_status0,
     sn_has_changes := False, sn_changes := changes0\<rparr>)"
proof -
  have "as_int L (JUnsigned 1) = Inr 1" using as_int_back [of 1] by simp
  then show ?thesis
    using assms as_int_back [of "sn_domain snap"]
    by (simp add: read_header_def document_ok_def get_at_def at_key_def find_snapshot read_host_id_back
        del: reread.simps(1)) simp
qed

end

definition kept_snapshot_sections :: "snapshot \<Rightarrow> snapshot \<Rightarrow> snapshot" where
  "kept_snapshot_sections snap s = s\<lparr>sn_stats := kept_stats (sn_stats snap),
     sn_discovery := kept_discovery (sn_discovery snap), sn_shm := kept_shm (sn_shm snap),
     sn_participants := map kept_participant (sn_participants snap)\<rparr>"

context json_library
begin

lemma sections_back:
  assumes "document_ok snap"
  shows "read_sections L (reread (snapshot_json snap opt)) s = Inr (kept_snapshot_sections snap s)"
proof -
  have "wrapping ''stats: '' (get_at (read_stats L) (reread (snapshot_json snap opt)) ''stats'' ''document'') =
      Inr (kept_stats (sn_stats snap))"
    using assms by (simp add: get_at_def at_key_def find_snapshot stats_back document_ok_def wrapping_def)
  moreover have "section_or discovery_status0 is_object (read_discovery L) ''discovery'' (reread (snapshot_json snap opt)) =
      Inr (kept_discovery (sn_discovery snap))"
    using discovery_back [of "sn_discovery snap"]
    by (cases "ds_stopped_on (sn_discovery snap) = []")
      (simp_all add: section_or_def find_snapshot kept_discovery_def, simp add: discovery_json_def)
  moreover have "section_or shm_info0 is_object (\<lambda>v. wrapping_all ''shm: '' (read_shm L v)) ''shm'' (reread (snapshot_json snap opt)) =
      Inr (kept_shm (sn_shm snap))"
    by (simp add: section_or_def find_snapshot shm_back wrapping_all_def) (simp add: shm_json_def)
  moreover have "section_or [] is_array (read_participants L) ''participants'' (reread (snapshot_json snap opt)) =
      Inr (map kept_participant (sn_participants snap))"
    using assms participants_back [of "sn_participants snap" snap opt]
    by (simp add: section_or_def find_snapshot document_ok_def)
  ultimately show ?thesis by (simp add: read_sections_def kept_snapshot_sections_def)
qed

end

subsection \<open>What a comparison looks at\<close>

type_synonym topic_view = "string \<times> (string \<times> string) list \<times> ((string \<times> string) \<times> (string \<times> string) \<times> pair_state) list"

definition topic_view :: "endpoint list \<Rightarrow> topic_summary \<Rightarrow> topic_view" where
  "topic_view eps t = (t_display_topic t, map (\<lambda>i. name_of (eps ! i)) (t_writers t @ t_readers t),
     map (\<lambda>p. (name_of (eps ! p_writer p), name_of (eps ! p_reader p), pair_state_of p)) (t_pairs t))"

definition view_key :: "string \<Rightarrow> string \<times> string \<Rightarrow> string \<times> string \<Rightarrow> pair_key" where
  "view_key topic w r = \<lparr>pk_topic = topic, pk_writer_guid = fst w, pk_reader_guid = fst r,
     pk_writer_node = snd w, pk_reader_node = snd r\<rparr>"

lemma pair_key_view: "pair_key_of eps t p = view_key (t_display_topic t) (name_of (eps ! p_writer p)) (name_of (eps ! p_reader p))"
  by (simp add: pair_key_of_def view_key_def name_of_def)

lemma pair_states_view:
  "pair_states snap = fold (\<lambda>(topic, _, ps). fold (\<lambda>(w, r, s). put_state (view_key topic w r) s) ps)
     (map (topic_view (sn_endpoints snap)) (sn_topics snap)) []"
  by (simp add: pair_states_def fold_map comp_def topic_view_def pair_key_view)

definition view_add :: "string \<times> string \<Rightarrow> (string, string list) omap \<Rightarrow> (string, string list) omap" where
  "view_add n m = (if snd n \<noteq> [] then om_upd (snd n) [] (\<lambda>gs. gs @ [fst n]) m else m)"

definition view_nodes :: "(string \<times> string) list \<Rightarrow> (string, string list) omap" where
  "view_nodes ns = map (\<lambda>kv. (fst kv, sort (snd kv))) (fold view_add ns [])"

definition view_identity :: "(string, string list) omap \<Rightarrow> string \<times> string \<Rightarrow> string" where
  "view_identity nodes n = (if snd n = [] then ''guid:'' @ fst n
     else snd n @ ''#'' @ dec (position (case om_get nodes (snd n) of None \<Rightarrow> [] | Some gs \<Rightarrow> gs) (fst n)))"

lemma by_node_view: "by_node eps t = view_nodes (map (\<lambda>i. name_of (eps ! i)) (t_writers t @ t_readers t))"
proof -
  have "add_node e = view_add (name_of e)" for e by (rule ext) (simp add: add_node_def view_add_def name_of_def)
  then show ?thesis by (simp add: by_node_def view_nodes_def fold_map comp_def)
qed

lemma identity_view: "Diffing.identity nodes e = view_identity nodes (name_of e)"
  by (simp add: Diffing.identity_def view_identity_def name_of_def)

lemma node_keyed_view:
  "node_keyed snap = fold (\<lambda>(topic, ns, ps). fold (\<lambda>(w, r, s).
       om_put (topic, view_identity (view_nodes ns) w, view_identity (view_nodes ns) r) (view_key topic w r, s)) ps)
     (map (topic_view (sn_endpoints snap)) (sn_topics snap)) []"
  unfolding node_keyed_def Let_def by_node_view identity_view pair_key_view
  by (simp add: fold_map comp_def topic_view_def)

lemma keyed_view:
  assumes "map (topic_view (sn_endpoints a)) (sn_topics a) = map (topic_view (sn_endpoints b)) (sn_topics b)"
  shows "keyed mode a = keyed mode b"
  using assms by (cases mode) (simp_all only: keyed_def key_mode.case pair_states_view node_keyed_view)

subsection \<open>The topics read back\<close>

lemma name_of_kept [simp]: "node_name e \<noteq> kUnknownNodeName \<Longrightarrow> name_of (kept_endpoint b e) = name_of e"
  by (simp add: name_of_def kept_endpoint_def normalize_node_name_def)

lemma pair_state_kept:
  "loc_kind (v_locator (p_verdict p)) = LocInvalid \<longrightarrow> v_locator (p_verdict p) = locator0 \<Longrightarrow>
   pair_state_of (kept_pair snap ix p) = pair_state_of p"
  by (auto simp: pair_state_of_def kept_pair_def kept_verdict_def kept_measurement_def)

definition read_ends :: "snapshot \<Rightarrow> (endpoint list \<times> endpoint list) list" where
  "read_ends snap = map (kept_ends snap) (sn_topics snap)"

definition read_endpoints :: "snapshot \<Rightarrow> endpoint list" where
  "read_endpoints snap = adopt_companions (all_endpoints (read_ends snap))"

definition listed :: "snapshot \<Rightarrow> nat \<Rightarrow> bool" where
  "listed snap i \<longleftrightarrow> i < length (sn_endpoints snap) \<and> (\<exists>t \<in> set (sn_topics snap). i \<in> set (t_writers t) \<union> set (t_readers t))"

lemma names_read: "document_ok snap \<Longrightarrow>
   name_of ` set (all_endpoints (read_ends snap)) = (\<lambda>i. name_of (sn_endpoints snap ! i)) ` {i. listed snap i}"
proof -
  assume ok: "document_ok snap"
  have named: "i < length (sn_endpoints snap) \<Longrightarrow> name_of (kept_endpoint b (sn_endpoints snap ! i)) = name_of (sn_endpoints snap ! i)" for b i
    using ok by (simp add: document_ok_def list_all_length)
  have range: "t \<in> set (sn_topics snap) \<Longrightarrow> i \<in> set (t_writers t) \<union> set (t_readers t) \<Longrightarrow> i < length (sn_endpoints snap)" for t i
    using ok by (auto simp: document_ok_def list_all_iff topic_ok_def)
  have "name_of ` set (all_endpoints (read_ends snap)) = (\<Union>t \<in> set (sn_topics snap).
      (\<lambda>i. name_of (kept_endpoint True (sn_endpoints snap ! i))) ` set (t_writers t) \<union>
      (\<lambda>i. name_of (kept_endpoint False (sn_endpoints snap ! i))) ` set (t_readers t))"
    by (simp add: all_endpoints_def read_ends_def kept_ends_def image_UN image_Un image_image)
  also have "\<dots> = (\<Union>t \<in> set (sn_topics snap). (\<lambda>i. name_of (sn_endpoints snap ! i)) ` (set (t_writers t) \<union> set (t_readers t)))"
    using named range by (intro SUP_cong refl) (auto simp: image_iff)
  also have "\<dots> = (\<lambda>i. name_of (sn_endpoints snap ! i)) ` {i. listed snap i}"
    using range by (auto simp: listed_def)
  finally show ?thesis .
qed

lemma names_read_endpoints: "i < length (read_endpoints snap) \<Longrightarrow>
   name_of (read_endpoints snap ! i) = name_of (all_endpoints (read_ends snap) ! i)"
  using arg_cong [OF adopt_companions_names [of "all_endpoints (read_ends snap)"], of "\<lambda>l. l ! i"]
  by (simp add: read_endpoints_def)

lemma find_listed:
  assumes "document_ok snap" and "listed snap i"
  shows "\<exists>k. om_get (guid_index (read_endpoints snap)) (guid (sn_endpoints snap ! i)) = Some k
     \<and> name_of (read_endpoints snap ! k) = name_of (sn_endpoints snap ! i)"
proof -
  let ?E = "read_endpoints snap" and ?g = "guid (sn_endpoints snap ! i)"
  have names: "name_of ` set ?E = (\<lambda>i. name_of (sn_endpoints snap ! i)) ` {i. listed snap i}"
    using names_read [OF assms(1)] adopt_companions_names [of "all_endpoints (read_ends snap)"]
    unfolding read_endpoints_def by (metis list.set_map)
  then have "name_of (sn_endpoints snap ! i) \<in> name_of ` set ?E" using assms(2) by blast
  then have "?g \<in> guid ` set ?E" by (force simp: name_of_def)
  then obtain k where k: "om_get (guid_index ?E) ?g = Some k" "k < length ?E" "guid (?E ! k) = ?g"
    using guid_index_get [where eps = ?E and g = ?g] by (auto split: option.splits)
  have "name_of (?E ! k) \<in> (\<lambda>i. name_of (sn_endpoints snap ! i)) ` {i. listed snap i}"
    using names k(2) by force
  then obtain m where m: "listed snap m" "name_of (?E ! k) = name_of (sn_endpoints snap ! m)" by blast
  then have "guid (sn_endpoints snap ! m) = ?g" using k(3) by (simp add: name_of_def)
  then have "m = i"
    using assms m(1) nth_eq_iff_index_eq [of "map guid (sn_endpoints snap)" m i]
    by (simp add: document_ok_def listed_def)
  then show ?thesis using k(1) m(2) by blast
qed

lemma pair_ends_listed:
  assumes "topic_ok snap t" and "t \<in> set (sn_topics snap)" and "p \<in> set (t_pairs t)"
  shows "listed snap (p_writer p)" "listed snap (p_reader p)"
  using assms by (auto simp: listed_def topic_ok_def list_all_iff)

lemma topic_view_back:
  assumes "document_ok snap" and "t \<in> set (sn_topics snap)"
    and refs: "map ((!) (all_endpoints (read_ends snap))) (fst r) = fst (kept_ends snap t)"
      "map ((!) (all_endpoints (read_ends snap))) (snd r) = snd (kept_ends snap t)"
      "set (fst r) \<union> set (snd r) \<subseteq> {..< length (read_endpoints snap)}"
  shows "topic_view (read_endpoints snap) (kept_topic snap (read_endpoints snap) (guid_index (read_endpoints snap)) t r)
     = topic_view (sn_endpoints snap) t"
proof -
  have t: "topic_ok snap t" using assms(1,2) by (simp add: document_ok_def list_all_iff)
  have named: "i \<in> set (t_writers t) \<union> set (t_readers t) \<Longrightarrow> name_of (kept_endpoint b (sn_endpoints snap ! i)) = name_of (sn_endpoints snap ! i)" for b i
    using t assms(1) by (auto simp: document_ok_def list_all_length topic_ok_def)
  have side: "map (\<lambda>i. name_of (read_endpoints snap ! i)) is = map name_of (map ((!) (all_endpoints (read_ends snap))) is)"
    if "set is \<subseteq> set (fst r) \<union> set (snd r)" for "is"
    using that refs(3) names_read_endpoints by (auto simp: subset_iff)
  have ends: "map (\<lambda>i. name_of (read_endpoints snap ! i)) (fst r @ snd r) = map (\<lambda>i. name_of (sn_endpoints snap ! i)) (t_writers t @ t_readers t)"
    using named by (simp add: side refs(1,2) kept_ends_def)
  have pair: "(name_of (read_endpoints snap ! p_writer (kept_pair snap (guid_index (read_endpoints snap)) p)),
       name_of (read_endpoints snap ! p_reader (kept_pair snap (guid_index (read_endpoints snap)) p)),
       pair_state_of (kept_pair snap (guid_index (read_endpoints snap)) p)) =
      (name_of (sn_endpoints snap ! p_writer p), name_of (sn_endpoints snap ! p_reader p), pair_state_of p)"
    if "p \<in> set (t_pairs t)" for p
  proof -
    have "listed snap (p_writer p)" "listed snap (p_reader p)"
      by (rule pair_ends_listed [OF t assms(2) that])+
    then obtain i k where "om_get (guid_index (read_endpoints snap)) (guid (sn_endpoints snap ! p_writer p)) = Some i"
        "name_of (read_endpoints snap ! i) = name_of (sn_endpoints snap ! p_writer p)"
        "om_get (guid_index (read_endpoints snap)) (guid (sn_endpoints snap ! p_reader p)) = Some k"
        "name_of (read_endpoints snap ! k) = name_of (sn_endpoints snap ! p_reader p)"
      using find_listed [OF assms(1)] by meson
    moreover have "pair_state_of (kept_pair snap (guid_index (read_endpoints snap)) p) = pair_state_of p"
      using that t by (intro pair_state_kept) (simp add: topic_ok_def list_all_iff)
    ultimately show ?thesis by (simp add: kept_pair_def)
  qed
  show ?thesis
    using ends pair by (simp add: topic_view_def kept_topic_def comp_def)
qed

text \<open>The snapshot a document gives back.\<close>

definition kept_snapshot :: "snapshot \<Rightarrow> snapshot" where
  "kept_snapshot snap =
     (let eps = read_endpoints snap
      in kept_snapshot_sections snap (snap\<lparr>sn_endpoints := eps,
           sn_topics := map (\<lambda>(t, r). kept_topic snap eps (guid_index eps) t r)
             (zip (sn_topics snap) (topic_refs 0 (read_ends snap))),
           sn_has_changes := False, sn_changes := changes0\<rparr>))"

context json_library
begin

lemma topics_back:
  assumes "document_ok snap"
  shows "read_topics L (reread (snapshot_json snap opt)) s = Inr (s\<lparr>sn_endpoints := read_endpoints snap,
     sn_topics := map (\<lambda>(t, r). kept_topic snap (read_endpoints snap) (guid_index (read_endpoints snap)) t r)
       (zip (sn_topics snap) (topic_refs 0 (read_ends snap)))\<rparr>)"
proof -
  let ?eps = "read_endpoints snap" and ?docs = "map (\<lambda>t. reread (topic_json snap opt t)) (sn_topics snap)"
  have topic: "topic_ok snap t" if "t \<in> set (sn_topics snap)" for t
    using assms that by (simp add: document_ok_def list_all_iff)
  have ends: "read_each (read_topic_endpoints L) ?docs = Inr (read_ends snap)"
    unfolding read_ends_def read_each_map
  proof (rule read_each_ok)
    fix t assume "t \<in> set (sn_topics snap)"
    then have "set (t_writers t) \<union> set (t_readers t) \<subseteq> {..< length (sn_endpoints snap)}"
      using topic by (simp add: topic_ok_def)
    moreover have "i < length (sn_endpoints snap) \<Longrightarrow> length (ep_host_id (sn_endpoints snap ! i)) = 4" for i
      using assms by (simp add: document_ok_def list_all_length)
    ultimately show "read_topic_endpoints L (reread (topic_json snap opt t)) = Inr (kept_ends snap t)"
      by (intro topic_endpoints_back) (auto simp: list_all_iff)
  qed
  have each: "read_each (read_topic L ?eps (guid_index ?eps)) (zip ?docs (topic_refs 0 (read_ends snap))) =
      Inr (map (\<lambda>(t, r). (kept_topic snap ?eps (guid_index ?eps) t r, True)) (zip (sn_topics snap) (topic_refs 0 (read_ends snap))))"
    unfolding zip_map1 read_each_map
  proof (rule read_each_ok)
    fix x assume "x \<in> set (zip (sn_topics snap) (topic_refs 0 (read_ends snap)))"
    moreover obtain t r where "x = (t, r)" by (rule prod.exhaust)
    ultimately have x: "x = (t, r)" "t \<in> set (sn_topics snap)" using set_zip_leftD by fast+
    have "list_all (pair_listed snap (guid_index ?eps)) (t_pairs t)"
    proof -
      have "pair_listed snap (guid_index ?eps) p" if "p \<in> set (t_pairs t)" for p
        using find_listed [OF assms pair_ends_listed(1) [OF topic [OF x(2)] x(2) that]]
          find_listed [OF assms pair_ends_listed(2) [OF topic [OF x(2)] x(2) that]]
        by (auto simp: pair_listed_def)
      then show ?thesis by (simp add: list_all_iff)
    qed
    moreover have "topic_written snap t" using topic [OF x(2)] by (simp add: topic_ok_def)
    ultimately show "read_topic L ?eps (guid_index ?eps) (case x of (t, r) \<Rightarrow> (reread (topic_json snap opt t), r)) =
        Inr (case x of (t, r) \<Rightarrow> (kept_topic snap ?eps (guid_index ?eps) t r, True))"
      unfolding x(1) by (simp add: topic_back)
  qed
  have "at_key (reread (snapshot_json snap opt)) ''topics'' ''document'' = Inr (JArray ?docs)"
    by (simp add: at_key_def find_snapshot comp_def)
  then show ?thesis
    by (simp add: read_topics_def ends each read_endpoints_def [symmetric] list_all_iff split_beta comp_def Let_def
        del: read_each_map)
qed

lemma snapshot_back:
  assumes "document_ok snap"
  shows "read_snapshot L dump (reread (snapshot_json snap opt)) = Inr (kept_snapshot snap)"
  by (simp add: read_snapshot_def header_back [OF assms] topics_back [OF assms] sections_back [OF assms]
      kept_snapshot_def kept_snapshot_sections_def Let_def)

end

lemma keyed_back:
  assumes "document_ok snap"
  shows "keyed mode (kept_snapshot snap) = keyed mode snap"
proof (rule keyed_view)
  let ?eps = "read_endpoints snap" and ?refs = "topic_refs 0 (read_ends snap)"
  have point: "list_all2 (\<lambda>r e. map ((!) (all_endpoints (read_ends snap))) (fst r) = fst e \<and>
      map ((!) (all_endpoints (read_ends snap))) (snd r) = snd e) ?refs (read_ends snap)"
    using topic_refs_point [of "[]" "read_ends snap"] by simp
  have len: "length ?refs = length (sn_topics snap)" by (simp add: read_ends_def)
  have "topic_view ?eps (kept_topic snap ?eps (guid_index ?eps) (sn_topics snap ! n) (?refs ! n)) =
      topic_view (sn_endpoints snap) (sn_topics snap ! n)" if n: "n < length (sn_topics snap)" for n
  proof (rule topic_view_back [OF assms])
    show "sn_topics snap ! n \<in> set (sn_topics snap)" using n by simp
    show "map ((!) (all_endpoints (read_ends snap))) (fst (?refs ! n)) = fst (kept_ends snap (sn_topics snap ! n))"
      "map ((!) (all_endpoints (read_ends snap))) (snd (?refs ! n)) = snd (kept_ends snap (sn_topics snap ! n))"
      using point n len by (simp_all add: list_all2_conv_all_nth read_ends_def)
    show "set (fst (?refs ! n)) \<union> set (snd (?refs ! n)) \<subseteq> {..< length ?eps}"
      using topic_refs_range [of "?refs ! n" 0 "read_ends snap"] n len by (simp add: read_endpoints_def)
  qed
  then show "map (topic_view (sn_endpoints (kept_snapshot snap))) (sn_topics (kept_snapshot snap)) =
      map (topic_view (sn_endpoints snap)) (sn_topics snap)"
    using len by (intro nth_equalityI) (simp_all add: kept_snapshot_def kept_snapshot_sections_def Let_def)
qed

text \<open>
  C2. A snapshot of the program written as JSON and read back is accepted, with its domain and time, its
  sections and its endpoints, topic by topic, as the document keeps them (\<open>kept_\<dots>\<close>: what is not
  written has its default value again).
\<close>

theorem document_roundtrip:
  assumes "json_library L" and "document_ok snap"
    and "render_json dump snap opt = Some written" and "parse written = Document (reread (snapshot_json snap opt))"
  shows "case parse_json L dump parse written of
     Inl e \<Rightarrow> False
   | Inr (s, documents) \<Rightarrow> documents = 1 \<and> sn_domain s = sn_domain snap \<and> sn_observed_at s = sn_observed_at snap \<and>
       sn_local_host_id s = sn_local_host_id snap \<and> sn_stats s = kept_stats (sn_stats snap) \<and>
       sn_shm s = kept_shm (sn_shm snap) \<and> sn_discovery s = kept_discovery (sn_discovery snap) \<and>
       sn_participants s = map kept_participant (sn_participants snap) \<and>
       map clear_companions (sn_endpoints s) = concat (map (\<lambda>t.
         map (\<lambda>i. kept_endpoint True (sn_endpoints snap ! i)) (t_writers t) @
         map (\<lambda>i. kept_endpoint False (sn_endpoints snap ! i)) (t_readers t)) (sn_topics snap))"
proof -
  have "clear_companions (kept_endpoint b e) = kept_endpoint b e" for b e
    by (simp add: clear_companions_def kept_endpoint_def)
  then have "map clear_companions (read_endpoints snap) = concat (map (\<lambda>t.
      map (\<lambda>i. kept_endpoint True (sn_endpoints snap ! i)) (t_writers t) @
      map (\<lambda>i. kept_endpoint False (sn_endpoints snap ! i)) (t_readers t)) (sn_topics snap))"
    by (simp add: read_endpoints_def adopt_companions_clear all_endpoints_def read_ends_def kept_ends_def map_concat comp_def)
  then show ?thesis
    by (simp add: parse_json_def parse_text_def assms(4) json_library.snapshot_back [OF assms(1,2)]
        kept_snapshot_def kept_snapshot_sections_def Let_def)
qed

text \<open>
  Comparing two documents gives what comparing the snapshots they were written from gives, with
  either key: nothing a comparison looks at is lost or changed on the way through the text.
\<close>

theorem diff_of_documents:
  assumes "json_library L" and "document_ok a" and "document_ok b"
    and "render_json dump a opt = Some wa" and "parse wa = Document (reread (snapshot_json a opt))"
    and "render_json dump b opt = Some wb" and "parse wb = Document (reread (snapshot_json b opt))"
  shows "case (parse_json L dump parse wa, parse_json L dump parse wb) of
     (Inr (a', _), Inr (b', _)) \<Rightarrow> diff_snapshots a' b' mode = diff_snapshots a b mode
   | _ \<Rightarrow> False"
  by (simp add: parse_json_def parse_text_def assms(5,7) json_library.snapshot_back [OF assms(1,2)]
      json_library.snapshot_back [OF assms(1,3)] diff_snapshots_eq keyed_back [OF assms(2)] keyed_back [OF assms(3)])

subsection \<open>A document with a pair\<close>

definition sample_document :: snapshot where
  "sample_document = snapshot0\<lparr>
     sn_endpoints := [endpoint0\<lparr>guid := ''w'', node_name := ''/talker''\<rparr>, endpoint0\<lparr>guid := ''r''\<rparr>],
     sn_topics := [topic_summary0\<lparr>t_display_topic := ''/t'', t_writers := [0], t_readers := [1],
       t_pairs := [\<lparr>p_writer = 0, p_reader = 1, p_verdict = verdict0\<lparr>v_transport := UDPv4\<rparr>,
         p_measured = measurement0\<rparr>]\<rparr>]\<rparr>"

definition sample_written :: "json \<Rightarrow> string" where
  "sample_written j = (case json_find ''topics'' j of Some (JArray []) \<Rightarrow> ''empty'' | _ \<Rightarrow> ''pair'')"

definition sample_dump :: "nat option \<Rightarrow> json \<Rightarrow> string option" where
  "sample_dump indent j = Some (sample_written j)"

definition sample_parse :: "string \<Rightarrow> parse_result" where
  "sample_parse text = Document (reread (snapshot_json
     (if text = ''pair'' @ [CHR 0x0A] then sample_document else snapshot0) render_options0))"

lemma sample_documents_ok: "document_ok sample_document" "document_ok snapshot0"
  by (simp_all add: document_ok_def sample_document_def snapshot0_def topic_ok_def topic_written_def
      measurement_finite_def measurement0_def finite_double_def stats_written_def stats_data0_def endpoint0_def
      topic_summary0_def verdict0_def kUnknownNodeName_def lessThan_def)

lemma sample_texts:
  "render_json sample_dump sample_document render_options0 = Some (''pair'' @ [CHR 0x0A])"
  "sample_parse (''pair'' @ [CHR 0x0A]) = Document (reread (snapshot_json sample_document render_options0))"
  "render_json sample_dump snapshot0 render_options0 = Some (''empty'' @ [CHR 0x0A])"
  "sample_parse (''empty'' @ [CHR 0x0A]) = Document (reread (snapshot_json snapshot0 render_options0))"
  by (simp_all add: sample_parse_def render_json_def sample_dump_def sample_written_def find_snapshot)
    (simp_all add: sample_document_def snapshot0_def)

theorem document_roundtrip_witness:
  "case parse_json plain_lib sample_dump sample_parse (''pair'' @ [CHR 0x0A]) of
     Inl e \<Rightarrow> False | Inr (s, documents) \<Rightarrow> documents = 1 \<and> map guid (sn_endpoints s) = [''w'', ''r'']"
proof -
  from document_roundtrip [where parse = sample_parse and dump = sample_dump and opt = render_options0,
      OF plain.json_library_axioms sample_documents_ok(1) sample_texts(1,2)]
  obtain s where s: "parse_json plain_lib sample_dump sample_parse (''pair'' @ [CHR 0x0A]) = Inr (s, 1)"
      "map clear_companions (sn_endpoints s) = [kept_endpoint True (sn_endpoints sample_document ! 0),
         kept_endpoint False (sn_endpoints sample_document ! 1)]"
    by (auto simp: sample_document_def split: sum.splits)
  have "guid \<circ> clear_companions = guid" by (auto simp: clear_companions_def)
  with arg_cong [OF s(2), of "map guid"] have "map guid (sn_endpoints s) = [''w'', ''r'']"
    by (simp add: kept_endpoint_def sample_document_def)
  then show ?thesis unfolding s(1) by simp
qed

theorem diff_of_documents_witness:
  "case (parse_json plain_lib sample_dump sample_parse (''pair'' @ [CHR 0x0A]),
      parse_json plain_lib sample_dump sample_parse (''empty'' @ [CHR 0x0A])) of
     (Inr (a', _), Inr (b', _)) \<Rightarrow> diff_snapshots a' b' KmGuid = diff_snapshots sample_document snapshot0 KmGuid
   | _ \<Rightarrow> False"
  by (rule diff_of_documents [where parse = sample_parse and dump = sample_dump and opt = render_options0,
      OF plain.json_library_axioms sample_documents_ok sample_texts])

end
