(* ===== verification/Render_Csv.thy ===== *)
theory Render_Csv
  imports Render_Json
begin

text \<open>
  \<open>src/render_csv.cpp\<close>: one row per pair. Numbers are spelled by the JSON library's \<open>dump\<close>, which
  never throws on a number: the parameter \<open>number\<close>. The document can be read back by the rules of RFC 4180.
\<close>

definition needs_quotes :: "char \<Rightarrow> bool" where
  "needs_quotes c \<longleftrightarrow> c = CHR '','' \<or> c = CHR 0x22 \<or> c = CHR 0x0D \<or> c = CHR 0x0A"

fun double_quotes :: "string \<Rightarrow> string" where
  "double_quotes [] = []"
| "double_quotes (c # s) = (if c = CHR 0x22 then [CHR 0x22, c] else [c]) @ double_quotes s"

definition csv_field :: "string \<Rightarrow> string" where
  "csv_field s = (if \<not> list_ex needs_quotes s then s else CHR 0x22 # double_quotes s @ [CHR 0x22])"

definition csv_joined :: "string list \<Rightarrow> string" where
  "csv_joined items = fold (\<lambda>s out. out @ (if out = [] then [] else '';'') @ s) items []"

definition csv_columns :: "string list" where
  "csv_columns = [''observed_at'', ''domain'', ''topic'', ''type'',
     ''writer_node'', ''writer_host'', ''writer_guid'',
     ''reader_node'', ''reader_host'', ''reader_guid'',
     ''transport'', ''confidence'', ''reasons'', ''warnings'', ''measured_transports'',
     ''packets'', ''bytes'', ''delivered_per_s'', ''delivered_per_s_lower_bound'',
     ''latency_mean_s'', ''latency_min_s'', ''latency_max_s'', ''latency_last_s'',
     ''lost_packets'', ''resent_datas'']"

text \<open>The loop over the cells, with whether one has been written.\<close>

fun csv_cells_text :: "bool \<Rightarrow> string list \<Rightarrow> string" where
  "csv_cells_text began [] = []"
| "csv_cells_text began (x # xs) = (if began then '','' else []) @ csv_field x @ csv_cells_text True xs"

definition csv_row :: "string list \<Rightarrow> string" where
  "csv_row cells = csv_cells_text False cells @ [CHR 0x0A]"

definition csv_cells ::
  "(json \<Rightarrow> string) \<Rightarrow> snapshot \<Rightarrow> render_options \<Rightarrow> topic_summary \<Rightarrow> pair \<Rightarrow> string list" where
  "csv_cells number snap opt t p =
     (let w = sn_endpoints snap ! p_writer p; r = sn_endpoints snap ! p_reader p;
          v = p_verdict p; m = p_measured p; rel = m_reliability m;
          when = (\<lambda>c j. if c then number j else []);
          lat = m_latency_available m;
          lost = rel_available rel \<and> rel_lost_available rel
      in [sn_observed_at snap, number (JInteger (sn_domain snap)), t_display_topic t, t_display_type t,
          node_name w, host_label snap w opt, guid w,
          node_name r, host_label snap r opt, guid r,
          transport_text (v_transport v), confidence_text (v_confidence v),
          csv_joined (v_reasons v), csv_joined (v_warnings v),
          csv_joined (map transport_text (m_transports m)),
          when (m_available m) (JUnsigned (m_packets m)), when (m_available m) (JFloat (m_bytes m)),
          when (m_rate_available m) (JFloat (m_delivered_per_s m)),
          if m_rate_available m then (if m_rate_lower_bound m then ''true'' else ''false'') else [],
          when lat (JFloat (lat_mean (m_latency m))), when lat (JFloat (lat_min (m_latency m))),
          when lat (JFloat (lat_max (m_latency m))), when lat (JFloat (lat_last (m_latency m))),
          when lost (JUnsigned (rel_lost_packets rel)), when (rel_available rel) (JUnsigned (rel_resent rel))])"

definition render_csv :: "(json \<Rightarrow> string) \<Rightarrow> snapshot \<Rightarrow> render_options \<Rightarrow> string" where
  "render_csv number snap opt =
     (if ro_csv_no_header opt then [] else csv_row csv_columns) @
     concat (map (\<lambda>t. concat (map (\<lambda>p. csv_row (csv_cells number snap opt t p)) (t_pairs t))) (sn_topics snap))"

subsection \<open>Reading CSV\<close>

text \<open>
  The records of a text by RFC 4180, with LF as the line end: inside quotes two quotes are one, and
  commas and line ends belong to the field.
\<close>

fun csv_read :: "bool \<Rightarrow> string \<Rightarrow> string list \<Rightarrow> string \<Rightarrow> string list list" where
  "csv_read q cell row [] = (if cell = [] \<and> row = [] then [] else [row @ [cell]])"
| "csv_read True cell row (c # s) =
     (if c \<noteq> CHR 0x22 then csv_read True (cell @ [c]) row s
      else case s of
        d # s' \<Rightarrow> if d = CHR 0x22 then csv_read True (cell @ [d]) row s' else csv_read False cell row s
      | [] \<Rightarrow> csv_read False cell row s)"
| "csv_read False cell row (c # s) =
     (if c = CHR 0x22 then csv_read True cell row s
      else if c = CHR '','' then csv_read False [] (row @ [cell]) s
      else if c = CHR 0x0A then (row @ [cell]) # csv_read False [] [] s
      else csv_read False (cell @ [c]) row s)"

definition csv_records :: "string \<Rightarrow> string list list" where
  "csv_records text = csv_read False [] [] text"

lemma read_plain: "\<not> list_ex needs_quotes s \<Longrightarrow> csv_read False cell row (s @ rest) = csv_read False (cell @ s) row rest"
  by (induction s arbitrary: cell) (auto simp: needs_quotes_def)

lemma read_quoted:
  assumes "rest \<noteq> []" and "hd rest \<noteq> CHR 0x22"
  shows "csv_read True cell row (double_quotes s @ CHR 0x22 # rest) = csv_read False (cell @ s) row rest"
proof (induction s arbitrary: cell)
  case Nil
  then show ?case using assms by (cases rest) simp_all
qed simp

lemma read_field:
  assumes "rest \<noteq> []" and "hd rest \<noteq> CHR 0x22"
  shows "csv_read False [] row (csv_field s @ rest) = csv_read False s row rest"
  using read_plain [of s "[]" row rest] read_quoted [OF assms, of "[]" row s] by (simp add: csv_field_def)

lemma read_cells:
  "xs \<noteq> [] \<Longrightarrow> csv_read False [] row (csv_cells_text False xs @ CHR 0x0A # rest) =
     (row @ xs) # csv_read False [] [] rest"
proof (induction xs arbitrary: row)
  case (Cons x xs)
  have step: "csv_read False [] row (csv_field x @ csv_cells_text True xs @ CHR 0x0A # rest) =
      csv_read False x row (csv_cells_text True xs @ CHR 0x0A # rest)"
    by (rule read_field) (cases xs; simp)+
  show ?case
  proof (cases xs)
    case (Cons y ys)
    then have "csv_cells_text True xs = '','' @ csv_cells_text False xs" by simp
    then show ?thesis using step Cons.IH [of "row @ [x]"] Cons by simp
  qed (use step in simp)
qed simp

lemma read_row: "cells \<noteq> [] \<Longrightarrow> csv_read False [] [] (csv_row cells @ rest) = cells # csv_read False [] [] rest"
  using read_cells [of cells "[]" rest] by (simp add: csv_row_def)

lemma read_rows:
  "list_all (\<lambda>cells. cells \<noteq> []) rows \<Longrightarrow>
   csv_read False [] [] (concat (map csv_row rows) @ rest) = rows @ csv_read False [] [] rest"
  by (induction rows) (simp_all add: read_row)

lemma csv_cells_nonempty: "csv_cells number snap opt t p \<noteq> []"
  unfolding csv_cells_def Let_def by (rule list.distinct(2))

lemma csv_columns_nonempty: "csv_columns \<noteq> []"
  unfolding csv_columns_def by (rule list.distinct(2))

lemma concat_rows: "concat (map f (concat (map g ts))) = concat (map (\<lambda>t. concat (map f (g t))) ts)"
  by (induction ts) simp_all

text \<open>The rows of a snapshot below the header.\<close>

definition pair_cells_of ::
  "(json \<Rightarrow> string) \<Rightarrow> render_options \<Rightarrow> snapshot \<Rightarrow> string list list" where
  "pair_cells_of number opt snap = concat (map (\<lambda>t. map (csv_cells number snap opt t) (t_pairs t)) (sn_topics snap))"

lemma pair_cells_nonempty: "cells \<in> set (pair_cells_of number opt snap) \<Longrightarrow> cells \<noteq> []"
  by (auto simp: pair_cells_of_def csv_cells_nonempty)

lemma render_csv_rows: "render_csv number snap opt =
  concat (map csv_row ((if ro_csv_no_header opt then [] else [csv_columns]) @ pair_cells_of number opt snap))"
  by (simp add: render_csv_def pair_cells_of_def concat_rows comp_def)

lemma records_of_rows: "list_all (\<lambda>cells. cells \<noteq> []) rows \<Longrightarrow> csv_records (concat (map csv_row rows)) = rows"
  using read_rows [of rows "[]"] by (simp add: csv_records_def)

text \<open>
  C29. Reading the document back by RFC 4180 gives the header, unless it is left out, and exactly the cells
  of every pair, whatever quotes, commas and line breaks the names, hosts and codes contain.
\<close>

theorem csv_roundtrip:
  "csv_records (render_csv number snap opt) =
     (if ro_csv_no_header opt then [] else [csv_columns]) @
     concat (map (\<lambda>t. map (csv_cells number snap opt t) (t_pairs t)) (sn_topics snap))"
  unfolding render_csv_rows pair_cells_of_def [symmetric]
  by (rule records_of_rows) (auto simp: list_all_iff csv_columns_nonempty pair_cells_nonempty)

end
