(* ===== verification/Table_Cells.thy ===== *)
theory Table_Cells
  imports Watch Rows Codes
begin

text \<open>
  The cells of the table (\<open>src/render_table.cpp\<close>): transports, reasons, measurements and locators of a
  topic, a pair or a group row, the marks, and a row padded to its columns.
\<close>

text \<open>\<open>std::to_string\<close> of an \<open>int\<close>.\<close>

definition dec_int :: "int \<Rightarrow> string" where
  "dec_int i = (if i < 0 then ''-'' @ dec (nat (- i)) else dec (nat i))"

subsection \<open>Transports and reasons\<close>

definition transport_label :: "verdict \<Rightarrow> bool \<Rightarrow> string" where
  "transport_label v color = paint (plain_transport_label v) (ansi_for (v_transport v)) color"

text \<open>The labels in the order they appear first, how often each appears, and each with its colour.\<close>

record label_counts =
  lc_counts :: "(string, int) omap"
  lc_order :: "string list"
  lc_painted :: "(string, string) omap"

definition count_label :: "bool \<Rightarrow> pair \<Rightarrow> label_counts \<Rightarrow> label_counts" where
  "count_label color p st =
     (let label = transport_label (p_verdict p) False;
          st = (if om_get (lc_counts st) label = None
            then st\<lparr>lc_order := lc_order st @ [label],
              lc_painted := om_put label (transport_label (p_verdict p) color) (lc_painted st)\<rparr>
            else st)
      in st\<lparr>lc_counts := om_put label
            ((case om_get (lc_counts st) label of None \<Rightarrow> 0 | Some n \<Rightarrow> n) + 1) (lc_counts st)\<rparr>)"

definition label_part :: "label_counts \<Rightarrow> string \<Rightarrow> string" where
  "label_part st label =
     (case om_get (lc_painted st) label of None \<Rightarrow> [] | Some s \<Rightarrow> s) @ '' x'' @
     dec_int (case om_get (lc_counts st) label of None \<Rightarrow> 0 | Some n \<Rightarrow> n)"

definition aggregate_transports :: "topic_summary \<Rightarrow> bool \<Rightarrow> string" where
  "aggregate_transports t color =
     (if t_pairs t = [] then ''-''
      else
        (let st = fold (count_label color) (t_pairs t) \<lparr>lc_counts = [], lc_order = [], lc_painted = []\<rparr>
         in join (map (label_part st) (lc_order st)) '', ''))"

text \<open>The lambda \<open>add\<close>: the codes seen, and those that are out.\<close>

definition add_code :: "string \<Rightarrow> string set \<times> string list \<Rightarrow> string set \<times> string list" where
  "add_code c st = (if c \<in> fst st then st else (insert c (fst st), snd st @ [c]))"

definition verdict_codes :: "bool \<Rightarrow> pair \<Rightarrow> string list" where
  "verdict_codes color p =
     v_reasons (p_verdict p) @ map (\<lambda>w. paint (''!'' @ w) RED color) (v_warnings (p_verdict p))"

definition aggregate_reasons :: "topic_summary \<Rightarrow> bool \<Rightarrow> string" where
  "aggregate_reasons t color =
     join (snd (fold (\<lambda>p. fold add_code (verdict_codes color p)) (t_pairs t)
       (fold add_code (t_unmatched_reasons t) ({}, [])))) '',''"

subsection \<open>Measurements and locators\<close>

definition measured_label :: "pair \<Rightarrow> string" where
  "measured_label p =
     (let m = p_measured p; intra = has_code (v_reasons (p_verdict p)) ''intra-process''
      in if \<not> m_available m then ''n/a''
         else if m_transports m = [] then
           (if \<not> m_delivered m then ''none'' else if intra then ''none(intra-process)'' else ''none(delivered)'')
         else
           (let s = join (map transport_text (m_transports m)) ''+''
            in if m_packets m = 0 then
                 (if \<not> m_delivered m then s @ '' (idle)''
                  else s @ (if intra then '' (intra-process)'' else '' (unmeasured, delivered)''))
               else s @ '' '' @ dec (unat (m_packets m)) @ ''pkt '' @ human_bytes (m_bytes m) ''B''))"

definition locator_text :: "locator \<Rightarrow> bool \<Rightarrow> string" where
  "locator_text l to_group =
     locator_kind_text (loc_kind l) @
     (if loc_kind l = LocSHM then '' port '' @ dec (unat (loc_port l))
      else '' '' @ loc_address l @ '':'' @ dec (unat (loc_port l))) @
     (if to_group then '' (multicast)'' else [])"

definition fix_lines_for :: "pair \<Rightarrow> string list" where
  "fix_lines_for p =
     List.map_filter (\<lambda>c. map_option (\<lambda>r. ''fix '' @ c @ '': '' @ r) (remedy c))
       (v_reasons (p_verdict p) @ v_warnings (p_verdict p))"

definition selected_text :: "verdict \<Rightarrow> string" where
  "selected_text v =
     (if loc_kind (v_locator v) \<noteq> LocInvalid then locator_text (v_locator v) (v_locator_multicast v)
      else if has_code (v_reasons v) ''same-host-locators-hidden''
        then transport_text (v_transport v) @ '' (hidden by Fast DDS < 2.10)''
      else if v_transport v = DataSharing then ''DATA_SHARING (no locator)''
      else [])"

definition packets_text :: "measured_locator \<Rightarrow> string" where
  "packets_text ml = dec (unat (ml_packets ml)) @ '' pkt)''"

definition locators_line :: "pair \<Rightarrow> string" where
  "locators_line p =
     (let v = p_verdict p; selected = selected_text v; mls = m_locators (p_measured p)
      in if v_transport v = NoTransport then []
         else if mls = [] then (if selected = [] then [] else ''locators: '' @ selected)
         else if length mls = 1 \<and> loc_kind (v_locator v) \<noteq> LocInvalid \<and> ml_locator (hd mls) = v_locator v
           then ''locators: '' @ selected @ '' (selected = measured, '' @ packets_text (hd mls)
         else
           (let measured = ''measured '' @
                  join (map (\<lambda>ml. locator_text (ml_locator ml) False @ '' ('' @ packets_text ml) mls) '', ''
            in if selected = [] then ''locators: '' @ measured
               else ''locators: selected '' @ selected @ '' | '' @ measured))"

subsection \<open>Rows of cells\<close>

definition widen :: "nat list \<Rightarrow> string list \<Rightarrow> nat list" where
  "widen widths r = map (\<lambda>(i, w). if i < length r then max w (visible_width (r ! i)) else w) (enumerate 0 widths)"

definition column_widths :: "string list list \<Rightarrow> nat list" where
  "column_widths rows = fold (\<lambda>r ws. widen ws r) rows (replicate (if rows = [] then 0 else length (hd rows)) 0)"

text \<open>The loop over the cells from the cell with number \<open>i\<close> on: all but the last are padded.\<close>

fun padded_cells :: "nat list \<Rightarrow> nat \<Rightarrow> string list \<Rightarrow> string" where
  "padded_cells widths i [] = []"
| "padded_cells widths i [c] = c"
| "padded_cells widths i (c # d # cs) =
     (let w = (if i < length widths then widths ! i else visible_width c)
      in c @ replicate (w - min w (visible_width c) + 2) (CHR '' '') @ padded_cells widths (Suc i) (d # cs))"

definition emit_line :: "nat \<Rightarrow> string \<Rightarrow> string" where
  "emit_line max_width s = truncate_visible s max_width @ [CHR 0x0A]"

definition emit_row :: "nat list \<Rightarrow> nat \<Rightarrow> string list \<Rightarrow> string" where
  "emit_row widths max_width r = emit_line max_width (padded_cells widths 0 r)"

definition print_rows :: "string list list \<Rightarrow> nat \<Rightarrow> string" where
  "print_rows rows max_width = concat (map (emit_row (column_widths rows) max_width) rows)"

subsection \<open>Marks\<close>

definition mark_cell :: "char \<Rightarrow> bool \<Rightarrow> string" where
  "mark_cell mark color =
     (if mark = CHR ''+'' then paint ''+'' GREEN color
      else if mark = CHR ''~'' then paint ''~'' YELLOW color
      else if mark = CHR ''-'' then paint ''-'' DIM color
      else '' '')"

definition mark_rank :: "char \<Rightarrow> int" where
  "mark_rank mark =
     (if mark = CHR ''+'' then 3 else if mark = CHR ''~'' then 2 else if mark = CHR ''-'' then 1 else 0)"

definition better_mark :: "endpoint list \<Rightarrow> watch_decorations \<Rightarrow> topic_summary \<times> pair \<Rightarrow> char \<Rightarrow> char" where
  "better_mark eps w tp best =
     (case om_get (wd_marks w) (pk_ident (pair_key_of eps (fst tp) (snd tp))) of
        None \<Rightarrow> best
      | Some m \<Rightarrow> if mark_rank best < mark_rank m then m else best)"

definition topic_mark :: "endpoint list \<Rightarrow> topic_summary \<Rightarrow> watch_decorations \<Rightarrow> char" where
  "topic_mark eps t w = fold (\<lambda>p. better_mark eps w (t, p)) (t_pairs t) (CHR '' '')"

subsection \<open>Group rows\<close>

text \<open>A member of a group row is a topic and one of its pairs.\<close>

definition row_members_of :: "topic_summary list \<Rightarrow> (nat \<times> nat) list \<Rightarrow> (topic_summary \<times> pair) list" where
  "row_members_of topics ms = map (\<lambda>(i, j). (topics ! i, t_pairs (topics ! i) ! j)) ms"

definition side_label :: "endpoint list \<Rightarrow> ep_ref option \<Rightarrow> string" where
  "side_label eps e = (case e of
     None \<Rightarrow> ''-''
   | Some i \<Rightarrow> if node_name (eps ! i) \<noteq> [] then node_name (eps ! i)
       else ''prefix:'' @ substr (participant_guid_prefix (eps ! i)) 0 11 @ ''...'')"

definition group_topic_cell :: "endpoint list \<Rightarrow> display_row \<Rightarrow> string" where
  "group_topic_cell eps r =
     (if row_kind r = TkAction then ''ACTION '' else ''SERVICE '') @ row_name r @ ''  '' @
     side_label eps (row_client r) @ '' -> '' @ side_label eps (row_server r)"

definition add_transport :: "(topic_summary \<times> pair) \<Rightarrow> transport list \<Rightarrow> transport list" where
  "add_transport m order =
     (let t = v_transport (p_verdict (snd m)) in if List.member order t then order else order @ [t])"

definition direction_transports :: "(topic_summary \<times> pair) list \<Rightarrow> bool \<Rightarrow> bool \<Rightarrow> string" where
  "direction_transports members likely color =
     (if members = [] then ''-''
      else join (map (\<lambda>t. paint (transport_text t @ (if likely then ''?'' else [])) (ansi_for t) color)
        (fold add_transport members [])) ''|'')"

definition group_transports :: "topic_summary list \<Rightarrow> display_row \<Rightarrow> bool \<Rightarrow> string" where
  "group_transports topics r color =
     (let to_server = row_members_of topics (row_to_server r);
          to_client = row_members_of topics (row_to_client r);
          likely = list_ex (\<lambda>m. v_confidence (p_verdict (snd m)) = Likely) (to_server @ to_client)
      in direction_transports to_server likely color @ '' -> '' @ direction_transports to_client likely color)"

definition group_reasons :: "topic_summary list \<Rightarrow> display_row \<Rightarrow> bool \<Rightarrow> string" where
  "group_reasons topics r color =
     join (snd (fold (\<lambda>m. fold add_code (verdict_codes color (snd m)))
       (row_members_of topics (row_to_server r) @ row_members_of topics (row_to_client r))
       (fold (\<lambda>i. fold add_code (t_unmatched_reasons (topics ! i))) (row_unpaired_members r) ({}, [])))) '',''"

record group_stats =
  gs_latency_available :: bool
  gs_latency :: double
  gs_reliability_available :: bool
  gs_lost_available :: bool
  gs_lost_packets :: u64
  gs_resent :: u64

definition group_stats0 :: group_stats where
  "group_stats0 = \<lparr>gs_latency_available = False, gs_latency = Fin 0, gs_reliability_available = False,
     gs_lost_available = False, gs_lost_packets = 0, gs_resent = 0\<rparr>"

definition group_stats_step :: "measurement \<Rightarrow> group_stats \<Rightarrow> group_stats" where
  "group_stats_step m g =
     (let rel = m_reliability m;
          g = (if m_latency_available m
            then g\<lparr>gs_latency := (if \<not> gs_latency_available g \<or> d_lt (gs_latency g) (lat_mean (m_latency m))
                  then lat_mean (m_latency m) else gs_latency g),
                gs_latency_available := True\<rparr>
            else g)
      in if rel_available rel
         then g\<lparr>gs_reliability_available := True,
             gs_lost_available := gs_lost_available g \<or> rel_lost_available rel,
             gs_lost_packets := max (gs_lost_packets g) (rel_lost_packets rel),
             gs_resent := gs_resent g + rel_resent rel\<rparr>
         else g)"

definition group_stats_of :: "topic_summary list \<Rightarrow> display_row \<Rightarrow> group_stats" where
  "group_stats_of topics r =
     fold (\<lambda>m. group_stats_step (p_measured (snd m)))
       (row_members_of topics (row_to_server r) @ row_members_of topics (row_to_client r)) group_stats0"

definition row_mark :: "endpoint list \<Rightarrow> topic_summary list \<Rightarrow> display_row \<Rightarrow> watch_decorations \<Rightarrow> char" where
  "row_mark eps topics r w = (case row_topic r of
     Some i \<Rightarrow> topic_mark eps (topics ! i) w
   | None \<Rightarrow> fold (better_mark eps w)
       (row_members_of topics (row_to_server r) @ row_members_of topics (row_to_client r)) (CHR '' ''))"

end
