(* ===== verification/Render_Table.thy ===== *)
theory Render_Table
  imports Table_Cells Stats_Rules
begin

text \<open>
  \<open>render_table\<close> of \<open>src/render_table.cpp\<close>: the rows of topics and groups, the pair rows of \<open>--verbose\<close>
  with their ghosts, locator and fix lines, and the lines below the table.
\<close>

subsection \<open>Topic rows\<close>

definition header_cells :: "string list" where
  "header_cells = [''TOPIC'', ''TYPE'', ''PUBS'', ''SUBS'', ''TRANSPORT'', ''LATENCY'', ''HZ'', ''LOSS'', ''REASON'']"

definition topic_cells :: "bool \<Rightarrow> bool \<Rightarrow> topic_summary \<Rightarrow> string list" where
  "topic_cells stats color t =
     [t_display_topic t, t_display_type t, dec (length (t_writers t)), dec (length (t_readers t)),
      aggregate_transports t color,
      latency_label (stats \<and> t_latency_available t) (t_latency t) (t_latency t) False,
      [],
      loss_label (stats \<and> t_reliability_available t) (t_lost_available t) (t_lost_packets t) (t_resent t),
      aggregate_reasons t color]"

definition group_cells :: "snapshot \<Rightarrow> bool \<Rightarrow> display_row \<Rightarrow> string list" where
  "group_cells snap color r =
     (let g = group_stats_of (sn_topics snap) r; stats = enabled (sn_stats snap)
      in [group_topic_cell (sn_endpoints snap) r, row_type r,
          dec (length (row_to_server r)), dec (length (row_to_client r)),
          group_transports (sn_topics snap) r color,
          latency_label (stats \<and> gs_latency_available g) (gs_latency g) (gs_latency g) False,
          [],
          loss_label (stats \<and> gs_reliability_available g) (gs_lost_available g) (gs_lost_packets g) (gs_resent g),
          group_reasons (sn_topics snap) r color])"

definition row_cells :: "snapshot \<Rightarrow> render_options \<Rightarrow> display_row \<Rightarrow> string list" where
  "row_cells snap opt r =
     (let color = ro_color opt;
          row = (case row_topic r of
            Some i \<Rightarrow> topic_cells (enabled (sn_stats snap)) color (sn_topics snap ! i)
          | None \<Rightarrow> group_cells snap color r)
      in case ro_watch opt of
           None \<Rightarrow> row
         | Some w \<Rightarrow> mark_cell (row_mark (sn_endpoints snap) (sn_topics snap) r w) color # row)"

definition orphan_ghosts :: "snapshot \<Rightarrow> render_options \<Rightarrow> ghost_pair list" where
  "orphan_ghosts snap opt = (case ro_watch opt of
     None \<Rightarrow> []
   | Some w \<Rightarrow> filter (\<lambda>g. \<not> list_ex (\<lambda>t. t_display_topic t = pk_topic (gp_key g)) (sn_topics snap)) (wd_ghosts w))"

definition orphan_cells :: "bool \<Rightarrow> ghost_pair \<Rightarrow> string list" where
  "orphan_cells color g =
     [mark_cell (CHR ''-'') color, paint (pk_topic (gp_key g)) DIM color, paint (gp_type g) DIM color,
      ''-'', ''-'', paint (gp_transport_label g) DIM color, paint ''(removed)'' DIM color]"

definition table_rows :: "snapshot \<Rightarrow> render_options \<Rightarrow> string list list" where
  "table_rows snap opt =
     ((if ro_watch opt = None then [] else ['' '']) @ header_cells) #
     map (row_cells snap opt) (display_rows (sn_endpoints snap) (sn_topics snap)) @
     map (orphan_cells (ro_color opt)) (orphan_ghosts snap opt)"

subsection \<open>Pair rows\<close>

definition pair_indent :: string where
  "pair_indent = ''    ''"

definition locator_indent :: "render_options \<Rightarrow> string" where
  "locator_indent opt = (if ro_watch opt = None then [] else ''   '') @ pair_indent @ ''    ''"

definition pair_reasons :: "bool \<Rightarrow> pair \<Rightarrow> string" where
  "pair_reasons color p = join (v_reasons (p_verdict p)) '','' @
     concat (map (\<lambda>w. '','' @ paint (''!'' @ w) RED color) (v_warnings (p_verdict p)))"

definition pair_mark :: "endpoint list \<Rightarrow> topic_summary \<Rightarrow> pair \<Rightarrow> watch_decorations \<Rightarrow> char" where
  "pair_mark eps t p w =
     (case om_get (wd_marks w) (pk_ident (pair_key_of eps t p)) of None \<Rightarrow> CHR '' '' | Some c \<Rightarrow> c)"

definition pair_label :: "snapshot \<Rightarrow> render_options \<Rightarrow> topic_summary \<Rightarrow> pair \<Rightarrow> string" where
  "pair_label snap opt t p =
     pair_indent @ (if member_label t = [] then [] else member_label t @ '' '') @
     endpoint_label snap (sn_endpoints snap ! p_writer p) opt @ '' -> '' @
     endpoint_label snap (sn_endpoints snap ! p_reader p) opt"

definition pair_cells :: "snapshot \<Rightarrow> render_options \<Rightarrow> topic_summary \<times> pair \<Rightarrow> string list" where
  "pair_cells snap opt tp =
     (let t = fst tp; p = snd tp; color = ro_color opt; stats = enabled (sn_stats snap);
          m = p_measured p; rel = m_reliability m
      in (case ro_watch opt of None \<Rightarrow> [] | Some w \<Rightarrow> [mark_cell (pair_mark (sn_endpoints snap) t p w) color]) @
         [pair_label snap opt t p,
          transport_label (p_verdict p) color,
          latency_label (stats \<and> m_latency_available m) (lat_mean (m_latency m)) (lat_max (m_latency m)) True,
          rate_label (stats \<and> m_rate_available m) (m_delivered_per_s m) (m_rate_lower_bound m),
          loss_label (stats \<and> rel_available rel) (rel_lost_available rel) (rel_lost_packets rel) (rel_resent rel)] @
         (if stats then [''measured='' @ measured_label p] else []) @
         [pair_reasons color p])"

definition ghost_cells :: "snapshot \<Rightarrow> render_options \<Rightarrow> ghost_pair \<Rightarrow> string list" where
  "ghost_cells snap opt g =
     (let color = ro_color opt
      in [mark_cell (CHR ''-'') color,
          paint (pair_indent @ gp_writer_label g @ '' -> '' @ gp_reader_label g) DIM color,
          paint (gp_transport_label g) DIM color, ''-'', ''-''] @
         (if enabled (sn_stats snap) then [[]] else []) @
         [paint ''(removed)'' DIM color])"

definition ghosts_of :: "render_options \<Rightarrow> string \<Rightarrow> ghost_pair list" where
  "ghosts_of opt name = (case ro_watch opt of
     None \<Rightarrow> []
   | Some w \<Rightarrow> filter (\<lambda>g. pk_topic (gp_key g) = name) (wd_ghosts w))"

text \<open>A pair row with its locator line and its fix lines.\<close>

type_synonym pair_entry = "string list \<times> string \<times> string list"

definition live_entry :: "snapshot \<Rightarrow> render_options \<Rightarrow> topic_summary \<times> pair \<Rightarrow> pair_entry" where
  "live_entry snap opt tp =
     (pair_cells snap opt tp, if ro_locators opt then locators_line (snd tp) else [],
      if ro_advise opt then fix_lines_for (snd tp) else [])"

definition shown_pairs :: "topic_summary list \<Rightarrow> display_row \<Rightarrow> (topic_summary \<times> pair) list" where
  "shown_pairs topics r = (case row_topic r of
     Some i \<Rightarrow> map (Pair (topics ! i)) (t_pairs (topics ! i))
   | None \<Rightarrow> row_members_of topics (row_to_server r) @ row_members_of topics (row_to_client r))"

definition pair_entries :: "snapshot \<Rightarrow> render_options \<Rightarrow> display_row \<Rightarrow> pair_entry list" where
  "pair_entries snap opt r =
     map (live_entry snap opt) (shown_pairs (sn_topics snap) r) @
     map (\<lambda>g. (ghost_cells snap opt g, [], [])) (ghosts_of opt (row_name r))"

definition emit_entry :: "render_options \<Rightarrow> nat list \<Rightarrow> pair_entry \<Rightarrow> string" where
  "emit_entry opt widths e =
     (case e of (cells, locators, fixes) \<Rightarrow>
        emit_row widths (ro_max_width opt) cells @
        (if locators = [] then [] else emit_line (ro_max_width opt) (locator_indent opt @ locators)) @
        concat (map (\<lambda>f. emit_line (ro_max_width opt) (locator_indent opt @ f)) fixes))"

definition emit_entries :: "render_options \<Rightarrow> pair_entry list \<Rightarrow> string" where
  "emit_entries opt es = concat (map (emit_entry opt (column_widths (map fst es))) es)"

definition verbose_rows :: "snapshot \<Rightarrow> render_options \<Rightarrow> string" where
  "verbose_rows snap opt =
     (let rows = table_rows snap opt; widths = column_widths rows; emit = emit_row widths (ro_max_width opt);
          drows = display_rows (sn_endpoints snap) (sn_topics snap)
      in emit (hd rows) @
         concat (map (\<lambda>(r, cells). emit cells @ emit_entries opt (pair_entries snap opt r)) (zip drows (tl rows))) @
         concat (map emit (drop (length drows) (tl rows))))"

definition table_part :: "snapshot \<Rightarrow> render_options \<Rightarrow> string" where
  "table_part snap opt =
     (if \<not> ro_verbose opt then print_rows (table_rows snap opt) (ro_max_width opt) else verbose_rows snap opt)"

subsection \<open>Changes and statistics\<close>

definition NL :: string where "NL = [CHR 0x0A]"

definition changes_part :: "render_options \<Rightarrow> string" where
  "changes_part opt = (case ro_watch opt of
     None \<Rightarrow> []
   | Some w \<Rightarrow> if wd_summary w = [] then [] else NL @ paint ''changes: '' BOLD (ro_color opt) @ wd_summary w @ NL)"

definition empty_part :: "snapshot \<Rightarrow> string" where
  "empty_part snap =
     (if sn_topics snap = [] then ''(no endpoints discovered in domain '' @ dec_int (sn_domain snap) @ '')'' @ NL else [])"

definition stats_hint :: string where
  "stats_hint = '' - start the observed nodes with FASTDDS_STATISTICS='' @ [CHR 0x22] @
     ''RTPS_SENT_TOPIC;RTPS_LOST_TOPIC;HISTORY_LATENCY_TOPIC;PHYSICAL_DATA_TOPIC;'' @
     ''DATA_COUNT_TOPIC;RESENT_DATAS_TOPIC;'' @
     ''HEARTBEAT_COUNT_TOPIC;ACKNACK_COUNT_TOPIC;NACKFRAG_COUNT_TOPIC;GAP_COUNT_TOPIC'' @ [CHR 0x22]"

definition stats_warning_line :: "bool \<Rightarrow> stats_data \<Rightarrow> string \<Rightarrow> string" where
  "stats_warning_line color s w =
     ''  '' @ paint (''!'' @ w) RED color @
     (if w = ''stats-samples-lost'' then
        (if 0 < pairs_delivered_unmeasured s
         then '': '' @ dec_u64 (pairs_delivered_unmeasured s - pairs_delivered_absent s) @ '' of '' @
           dec_u64 (pairs_delivered s) @ '' pairs with proven deliveries show no measured packet''
         else '': a pair can show no measurement although it carries traffic'')
      else []) @
     (if w = ''rtps-sent-absent''
      then '': '' @ dec_u64 (pairs_delivered_absent s) @ '' of '' @ dec_u64 (pairs_delivered s) @
        '' pairs with proven deliveries show no measured packet and no lost sample '' @ ''explains it''
      else []) @ NL"

definition stats_part :: "bool \<Rightarrow> stats_data \<Rightarrow> string" where
  "stats_part color s =
     (if \<not> enabled s then []
      else
        (let any_lost = statistics_counter_samples_lost s + samples_rejected s
         in NL @ ''statistics: '' @ dec_u64 (samples s) @ '' samples from '' @
            dec (card (participants_with_stats s)) @ '' participant(s)'' @
            (if 0 < any_lost then '', '' @ dec_u64 any_lost @ '' sample(s) lost'' else []) @
            (if 0 < samples_lost_latency s
             then '', '' @ dec_u64 (samples_lost_latency s) @ '' latency sample(s) lost'' else []) @
            (if participants_with_stats s = {} then stats_hint else []) @ NL @
            concat (map (stats_warning_line color s) (stats_warnings s))))"

subsection \<open>Discovery Servers\<close>

definition seen_server :: "participant \<Rightarrow> bool" where
  "seen_server p \<longleftrightarrow> pt_discovery_protocol p = ''SERVER'' \<or> pt_discovery_protocol p = ''BACKUP''"

definition count_served :: "participant \<Rightarrow> (string, nat) omap \<Rightarrow> (string, nat) omap" where
  "count_served p served = (case pt_discovery_server p of
     None \<Rightarrow> served
   | Some s \<Rightarrow> om_upd s 0 (\<lambda>n. n + 1) served)"

definition server_line :: "(string, nat) omap \<Rightarrow> participant \<Rightarrow> string" where
  "server_line served p =
     (if pt_name p = [] then ''Discovery Server'' else pt_name p) @ '' ('' @ pt_guid_prefix p @
     concat (map (\<lambda>l. '', '' @ locator_text l False) (pt_metatraffic_locators p)) @
     '') serving '' @ dec (case om_get served (pt_guid_prefix p) of None \<Rightarrow> 0 | Some n \<Rightarrow> n) @ '' participant(s)''"

definition discovery_part :: "bool \<Rightarrow> snapshot \<Rightarrow> string" where
  "discovery_part color snap =
     (let d = sn_discovery snap; servers = filter seen_server (sn_participants snap);
          served = fold count_served (sn_participants snap) []
      in if servers = [] \<and> ds_observer_protocol d = ''SIMPLE'' then []
         else NL @ paint ''discovery: '' BOLD color @ ds_observer_protocol d @
           (if ds_easy_mode d \<noteq> [] then '' (Easy Mode, ROS2_EASY_MODE='' @ ds_easy_mode d @ '')''
            else if ds_discovery_servers d \<noteq> []
              then '' of '' @ join (map (\<lambda>l. locator_text l False) (ds_discovery_servers d)) '', ''
            else []) @
           (if servers = [] then ''; no server discovered''
            else ''; servers: '' @ join (map (server_line served) servers) '', '') @ NL)"

subsection \<open>Shared memory\<close>

definition bytes_text :: "u64 \<Rightarrow> string" where
  "bytes_text n = human_bytes (d_of_nat (unat n)) ''B''"

definition some_of :: "u64 \<Rightarrow> string \<Rightarrow> string" where
  "some_of n what = (if n \<noteq> 0 then '' ('' @ dec_u64 n @ '' '' @ what @ '')'' else [])"

definition shm_line :: "bool \<Rightarrow> shm_info \<Rightarrow> string" where
  "shm_line color s =
     NL @ paint ''shared memory: '' BOLD color @ shm_path s @ '' '' @
     bytes_text (used_bytes s) @ '' used of '' @ bytes_text (total_bytes s) @ '' ('' @
     bytes_text (free_bytes s) @ '' free)'' @ '' | Fast DDS '' @ bytes_text (fastdds_bytes s) @ '' in '' @
     dec_u64 (segments s) @ '' segment(s)'' @ some_of (stale_segments s) ''stale'' @
     '', '' @ dec_u64 (ports s) @ '' port(s)'' @ some_of (stale_ports s) ''stale'' @
     '', '' @ dec_u64 (datasharing_histories s) @ '' data-sharing histor'' @
     (if datasharing_histories s = 1 then ''y'' else ''ies'') @
     some_of (datasharing_unmatched s) ''unmatched'' @
     (if datasharing_notifications s \<noteq> 0
      then '', '' @ dec_u64 (datasharing_notifications s) @ '' data-sharing notification(s)'' else []) @ NL"

definition shm_warning_line :: "bool \<Rightarrow> shm_info \<Rightarrow> string \<Rightarrow> string" where
  "shm_warning_line color s w =
     ''  '' @ paint (''!'' @ w) RED color @
     (if w = ''shm-stale-files''
      then '': '' @ dec_u64 (stale_segments s + stale_ports s) @
        '' file(s) without a living owner, run '' @ [CHR 0x27] @ ''fastdds shm clean'' @ [CHR 0x27]
      else if w = ''shm-not-visible''
      then '':'' @
        (if missing_ports s \<noteq> []
         then '' '' @ dec (length (missing_ports s)) @ '' of '' @ dec (length (checked_ports s)) @
           '' SHM port(s) of the nodes not open here (other IPC namespace)'' else []) @
        (if other_host_participants s \<noteq> 0
         then (if missing_ports s = [] then '' '' else '', '') @ dec_u64 (other_host_participants s) @
           '' participant(s) on another host id'' else [])
      else if w = ''shm-nearly-full''
      then '': Fast DDS cannot create segments when '' @ shm_path s @ '' is full''
      else []) @ NL"

definition shm_part :: "bool \<Rightarrow> shm_info \<Rightarrow> string" where
  "shm_part color s =
     (if shm_available s then shm_line color s @ concat (map (shm_warning_line color s) (shm_warnings s)) else [])"

subsection \<open>The explanation of the codes\<close>

definition used_codes :: "snapshot \<Rightarrow> string list" where
  "used_codes snap =
     sort (remdups (shm_warnings (sn_shm snap) @ stats_warnings (sn_stats snap) @
       concat (map (\<lambda>t. t_unmatched_reasons t @
         concat (map (\<lambda>p. v_reasons (p_verdict p) @ v_warnings (p_verdict p)) (t_pairs t))) (sn_topics snap))))"

definition code_lines :: "bool \<Rightarrow> string \<Rightarrow> string" where
  "code_lines advise code =
     ''  '' @ code @ NL @ ''      '' @ explain code @ NL @
     (if advise then (case remedy code of None \<Rightarrow> [] | Some r \<Rightarrow> ''      fix: '' @ r @ NL) else [])"

definition explain_part :: "snapshot \<Rightarrow> render_options \<Rightarrow> string" where
  "explain_part snap opt =
     (if \<not> ro_explain opt then []
      else
        (if used_codes snap = [] then []
         else NL @ ''Reason codes:'' @ NL @ concat (map (code_lines (ro_advise opt)) (used_codes snap))) @
        NL @ ''Legend: '' @ [CHR 0x27] @ ''?'' @ [CHR 0x27] @ '' after a transport = confidence '' @
        [CHR 0x27] @ ''likely'' @ [CHR 0x27] @ '' (see reason codes);'' @
        '' '' @ [CHR 0x27] @ ''!'' @ [CHR 0x27] @ '' prefix = warning.'' @ NL)"

subsection \<open>The whole table\<close>

definition table_text :: "snapshot \<Rightarrow> render_options \<Rightarrow> string" where
  "table_text snap opt =
     table_part snap opt @ changes_part opt @ empty_part snap @ stats_part (ro_color opt) (sn_stats snap) @
     (if ro_verbose opt then discovery_part (ro_color opt) snap else []) @
     shm_part (ro_color opt) (sn_shm snap) @ explain_part snap opt"

text \<open>\<open>std::getline\<close> until the end of the text.\<close>

fun getlines :: "string \<Rightarrow> string \<Rightarrow> string list" where
  "getlines line [] = (if line = [] then [] else [line])"
| "getlines line (c # s) = (if c = CHR 0x0A then line # getlines [] s else getlines (line @ [c]) s)"

definition render_table :: "snapshot \<Rightarrow> render_options \<Rightarrow> string" where
  "render_table snap opt =
     (if ro_max_width opt = 0 then table_text snap opt
      else concat (map (emit_line (ro_max_width opt)) (getlines [] (table_text snap opt))))"

end
