(* ===== verification/Table_Props.thy ===== *)
theory Table_Props
  imports Render_Table Rows_Props
begin

text \<open>
  What the table shows: no line is wider than the terminal, every cell begins at its column, every
  pair is in exactly one row of the verbose table, and the labels of a topic count its pairs.
\<close>

subsection \<open>Width\<close>

lemma getlines_line:
  "CHR 0x0A \<notin> set s \<Longrightarrow> getlines line (s @ CHR 0x0A # t) = (line @ s) # getlines [] t"
  by (induction s arbitrary: line) auto

lemma getlines_lines:
  "\<forall>l \<in> set ls. CHR 0x0A \<notin> set l \<Longrightarrow> getlines [] (concat (map (\<lambda>l. l @ [CHR 0x0A]) ls)) = ls"
  by (induction ls) (simp_all add: getlines_line)

lemma getlines_no_newline: "CHR 0x0A \<notin> set line \<Longrightarrow> l \<in> set (getlines line s) \<Longrightarrow> CHR 0x0A \<notin> set l"
  by (induction line s rule: getlines.induct) (auto split: if_splits)

lemma truncate_from_subset: "set (truncate_from width n esc s) \<subseteq> set s"
  by (induction width n esc s rule: truncate_from.induct) auto

lemma truncate_no_newline: "CHR 0x0A \<notin> set s \<Longrightarrow> CHR 0x0A \<notin> set (truncate_visible s width)"
  using truncate_from_subset [of width 0 False s]
  by (auto simp: truncate_visible_def kEllipsis_def ESC_def)

text \<open>
  C31. With a width, the table is the lines of the text without one more cut, each cut to the width and none
  of them wider than that on the terminal, whatever names, codes and warnings they hold.
\<close>

theorem table_lines_fit:
  "ro_max_width opt = 0 \<or>
   (getlines [] (render_table snap opt) =
      map (\<lambda>l. truncate_visible l (ro_max_width opt)) (getlines [] (table_text snap opt)) \<and>
    list_all (\<lambda>l. visible_width l \<le> ro_max_width opt) (getlines [] (render_table snap opt)))"
proof (cases "ro_max_width opt = 0")
  case False
  let ?w = "ro_max_width opt"
  let ?ls = "map (\<lambda>l. truncate_visible l ?w) (getlines [] (table_text snap opt))"
  have "render_table snap opt = concat (map (\<lambda>l. l @ [CHR 0x0A]) ?ls)"
    using False by (simp add: render_table_def emit_line_def [abs_def] comp_def)
  moreover have "\<forall>l \<in> set ?ls. CHR 0x0A \<notin> set l"
    using getlines_no_newline [of "[]" _ "table_text snap opt"] truncate_no_newline by auto
  ultimately have "getlines [] (render_table snap opt) = ?ls" by (simp only: getlines_lines)
  then show ?thesis using False truncated_width by (simp add: list_all_iff)
qed simp

subsection \<open>Columns\<close>

lemma visible_append: "\<not> in_escape False s \<Longrightarrow> visible_width (s @ t) = visible_width s + visible_width t"
  using width_append [of False s t] by (simp add: width_from_def)

lemma blank_width: "visible_width (replicate n (CHR '' '')) = n" "\<not> in_escape False (replicate n (CHR '' ''))"
  by (induction n) (simp_all add: ESC_def is_lead_def of_char_def)

lemma in_escape_append: "in_escape esc (s @ t) = in_escape (in_escape esc s) t"
  by (induction s arbitrary: esc) simp_all

lemma widen_props:
  "length (widen ws r) = length ws"
  "k < length ws \<Longrightarrow> widen ws r ! k = (if k < length r then max (ws ! k) (visible_width (r ! k)) else ws ! k)"
  by (simp_all add: widen_def nth_enumerate_eq)

lemma fold_widen:
  "length (fold (\<lambda>r ws. widen ws r) rows ws) = length ws \<and>
   (k < length ws \<longrightarrow> ws ! k \<le> fold (\<lambda>r ws. widen ws r) rows ws ! k \<and>
     (\<forall>r \<in> set rows. k < length r \<longrightarrow> visible_width (r ! k) \<le> fold (\<lambda>r ws. widen ws r) rows ws ! k))"
proof (induction rows arbitrary: ws)
  case (Cons r rows)
  show ?case
  proof (cases "k < length ws")
    case True
    then show ?thesis
      using Cons [of "widen ws r"] by (auto simp: widen_props split: if_splits)
  qed (use Cons [of "widen ws r"] in \<open>simp add: widen_props\<close>)
qed simp

lemma column_widths_ge:
  assumes "r \<in> set rows" "k < length r" "k < length (hd rows)"
  shows "visible_width (r ! k) \<le> column_widths rows ! k"
  using assms fold_widen [where k = k and rows = rows and ws = "replicate (length (hd rows)) 0"]
  by (auto simp: column_widths_def)

lemma length_column_widths: "rows \<noteq> [] \<Longrightarrow> length (column_widths rows) = length (hd rows)"
  using fold_widen [where rows = rows and ws = "replicate (length (hd rows)) 0"] by (simp add: column_widths_def)

lemma padded_cells_at:
  assumes "i < length cs" "k + i \<le> length ws" "\<forall>j < i. visible_width (cs ! j) \<le> ws ! (k + j)"
    "\<forall>c \<in> set cs. \<not> in_escape False c"
  shows "\<exists>before after. padded_cells ws k cs = before @ cs ! i @ after \<and>
    visible_width before = sum_list (map (\<lambda>w. w + 2) (take i (drop k ws))) \<and> \<not> in_escape False before"
  using assms
proof (induction cs arbitrary: k i)
  case (Cons c cs)
  show ?case
  proof (cases i)
    case 0
    have "\<exists>after. padded_cells ws k (c # cs) = c @ after" by (cases cs) (auto simp: Let_def)
    then show ?thesis using 0 by (auto intro: exI [of _ "[]"])
  next
    case (Suc n)
    then obtain d ds where cs: "cs = d # ds" using Cons.prems(1) by (cases cs) auto
    have k: "k < length ws" using Cons.prems(2) Suc by simp
    have c: "visible_width c \<le> ws ! k" "\<not> in_escape False c" using Cons.prems(3,4) Suc by (fastforce, simp)
    have "\<forall>j < n. visible_width (cs ! j) \<le> ws ! (Suc k + j)" using Cons.prems(3) Suc by fastforce
    with Cons.IH [of n "Suc k"] Cons.prems Suc obtain before after where
      ih: "padded_cells ws (Suc k) cs = before @ cs ! n @ after" "\<not> in_escape False before"
        "visible_width before = sum_list (map (\<lambda>w. w + 2) (take n (drop (Suc k) ws)))" by auto
    define pad where "pad = replicate (ws ! k - visible_width c + 2) (CHR '' '')"
    have pad: "visible_width (c @ pad @ before) = ws ! k + 2 + visible_width before"
      "\<not> in_escape False (c @ pad @ before)"
      using c ih(2) blank_width by (simp_all add: pad_def visible_append in_escape_append del: replicate.simps replicate_Suc)
    have "padded_cells ws k (c # cs) = (c @ pad @ before) @ (c # cs) ! i @ after"
      using ih(1) k c(1) Suc by (simp add: cs pad_def Let_def min_def)
    moreover have "drop k ws = ws ! k # drop (Suc k) ws" using k by (simp add: Cons_nth_drop_Suc)
    ultimately show ?thesis
      using pad ih(3) Suc by (intro exI [of _ "c @ pad @ before"] exI [of _ after]) simp
  qed
qed simp

text \<open>
  A cell of a row begins in its column, whatever the colours and the characters of the cells before it:
  before the line is cut to the terminal, what stands in front of the cell is as wide as the columns
  before it, each as wide as its widest cell, with two blanks between them.
\<close>

theorem cells_in_columns:
  assumes "r \<in> set rows" "i < length r" "i \<le> length (hd rows)" "\<forall>c \<in> set r. \<not> in_escape False c"
  shows "\<exists>before after. padded_cells (column_widths rows) 0 r = before @ r ! i @ after \<and>
    visible_width before = sum_list (map (\<lambda>w. w + 2) (take i (column_widths rows)))"
proof -
  have "rows \<noteq> []" using assms(1) by auto
  moreover have "\<forall>j < i. visible_width (r ! j) \<le> column_widths rows ! j"
    using assms column_widths_ge by fastforce
  ultimately show ?thesis
    using padded_cells_at [of i r 0 "column_widths rows"] assms length_column_widths by fastforce
qed

theorem cells_in_columns_witness:
  "\<exists>before after. padded_cells (column_widths [[''TOPIC'', ''PUBS''], [paint ''a'' DIM True, ''1'']]) 0
     [paint ''a'' DIM True, ''1''] = before @ ''1'' @ after \<and> visible_width before = 7"
proof -
  have w: "column_widths [[''TOPIC'', ''PUBS''], [paint ''a'' DIM True, ''1'']] = [5, 4]" by code_simp
  have "\<not> in_escape False (paint ''a'' DIM True)" "\<not> in_escape False ''1''" by code_simp+
  then show ?thesis
    using cells_in_columns [of "[paint ''a'' DIM True, ''1'']"
        "[[''TOPIC'', ''PUBS''], [paint ''a'' DIM True, ''1'']]" 1] unfolding w by simp
qed

subsection \<open>The pairs of the table\<close>

definition pairs_of_topic :: "topic_summary \<Rightarrow> (topic_summary \<times> pair) list" where
  "pairs_of_topic t = map (Pair t) (t_pairs t)"

lemma row_members_append: "row_members_of topics (xs @ ys) = row_members_of topics xs @ row_members_of topics ys"
  by (simp add: row_members_of_def)

lemma shown_pairs_split:
  assumes "list_all (pair_belongs eps topics) rs"
  shows "mset (concat (map (shown_pairs topics) rs)) =
    mset (row_members_of topics (concat (map row_pairs rs))) +
    mset (concat (map (\<lambda>i. pairs_of_topic (topics ! i)) (List.map_filter row_topic rs)))"
  using assms
proof (induction rs)
  case Nil
  then show ?case by (simp add: row_members_of_def List.map_filter_simps)
next
  case (Cons r rs)
  show ?case
  proof (cases "row_topic r")
    case None
    then show ?thesis using Cons
      by (simp add: shown_pairs_def row_pairs_def row_members_append List.map_filter_simps)
  next
    case (Some i)
    then have "row_pairs r = []" using Cons.prems by (simp add: pair_belongs_def)
    then show ?thesis using Cons Some
      by (simp add: shown_pairs_def pairs_of_topic_def List.map_filter_simps)
  qed
qed

lemma topic_shown:
  assumes "topics ! i = t"
  shows "row_members_of topics (topic_pairs (i, t)) @
    concat (map (\<lambda>i. pairs_of_topic (topics ! i)) (topic_plain (i, t))) = pairs_of_topic t"
proof (cases "is_group t")
  case True
  have "map (\<lambda>j. (t, t_pairs t ! j)) [0..<length (t_pairs t)] = map (Pair t) (t_pairs t)"
    by (rule nth_equalityI) simp_all
  then show ?thesis using True assms
    by (simp add: topic_pairs_def topic_plain_def row_members_of_def pairs_of_topic_def comp_def)
qed (use assms in \<open>simp add: topic_pairs_def topic_plain_def row_members_of_def\<close>)

lemma topics_shown:
  "\<forall>it \<in> set its. topics ! fst it = snd it \<Longrightarrow>
   mset (row_members_of topics (concat (map topic_pairs its))) +
   mset (concat (map (\<lambda>i. pairs_of_topic (topics ! i)) (concat (map topic_plain its)))) =
   mset (concat (map (pairs_of_topic \<circ> snd) its))"
proof (induction its)
  case Nil
  then show ?case by (simp add: row_members_of_def)
next
  case (Cons it its)
  have "mset (row_members_of topics (topic_pairs it)) +
      mset (concat (map (\<lambda>i. pairs_of_topic (topics ! i)) (topic_plain it))) = mset (pairs_of_topic (snd it))"
    using topic_shown [of topics "fst it" "snd it"] Cons.prems by (metis list.set_intros(1) mset_append prod.collapse)
  then show ?case using Cons by (simp add: row_members_append ac_simps)
qed

text \<open>
  C10. Below the rows of the verbose table, every pair of every topic has exactly one pair row: a pair of a
  plain topic below the row of its topic, one of a service or an action below the row of its client and
  its server.
\<close>

theorem table_pairs_once:
  "mset (concat (map (shown_pairs topics) (display_rows eps topics))) =
     mset (concat (map (\<lambda>t. map (Pair t) (t_pairs t)) topics))"
proof -
  let ?rs = "display_rows eps topics"
  have "image_mset f (mset (concat (map row_pairs ?rs))) = image_mset f (mset (concat (map topic_pairs (enumerate 0 topics))))" for f :: "nat \<times> nat \<Rightarrow> topic_summary \<times> pair"
    by (simp only: display_rows_hold(1))
  then have a: "mset (row_members_of topics (concat (map row_pairs ?rs))) =
      mset (row_members_of topics (concat (map topic_pairs (enumerate 0 topics))))"
    unfolding row_members_of_def mset_map .
  have "mset (concat (map (shown_pairs topics) ?rs)) =
      mset (row_members_of topics (concat (map topic_pairs (enumerate 0 topics)))) +
      mset (concat (map (\<lambda>i. pairs_of_topic (topics ! i)) (concat (map topic_plain (enumerate 0 topics)))))"
    using display_rows_grouping [of eps topics]
    by (simp only: shown_pairs_split [of eps] a mset_concat_map_eq [OF display_rows_hold(3)])
  also have "\<dots> = mset (concat (map (pairs_of_topic \<circ> snd) (enumerate 0 topics)))"
    by (rule topics_shown) (auto simp: in_set_enumerate_eq)
  also have "map (pairs_of_topic \<circ> snd) (enumerate 0 topics) = map pairs_of_topic topics"
    by (rule nth_equalityI) (simp_all add: nth_enumerate_eq)
  finally show ?thesis by (simp add: pairs_of_topic_def [abs_def])
qed

subsection \<open>The labels of a topic\<close>

text \<open>The distinct elements of a list in the order they appear first.\<close>

definition first_seen :: "'a list \<Rightarrow> 'a list" where
  "first_seen xs = rev (remdups (rev xs))"

lemma first_seen_simps [simp]:
  "first_seen [] = []"
  "first_seen (xs @ [x]) = (if x \<in> set xs then first_seen xs else first_seen xs @ [x])"
  "set (first_seen xs) = set xs"
  by (simp_all add: first_seen_def)

lemma count_list_sum: "distinct ys \<Longrightarrow> set xs \<subseteq> set ys \<Longrightarrow> sum_list (map (count_list xs) ys) = length xs"
proof -
  assume "distinct ys" "set xs \<subseteq> set ys"
  then have "sum_list (map (count_list xs) ys) = (\<Sum>y \<in> set ys. count_list xs y)"
    by (simp add: sum_list_distinct_conv_sum_set)
  also have "\<dots> = (\<Sum>y \<in> set xs. count_list xs y)"
    using \<open>set xs \<subseteq> set ys\<close> by (intro sum.mono_neutral_right) (auto simp: count_list_0_iff)
  finally show ?thesis by (simp add: sum_count_set)
qed

lemma find_snoc: "find P (xs @ [x]) = (case find P xs of None \<Rightarrow> if P x then Some x else None | y \<Rightarrow> y)"
  by (induction xs) simp_all

abbreviation plain_label :: "pair \<Rightarrow> string" where
  "plain_label p \<equiv> plain_transport_label (p_verdict p)"

definition counts_of :: "bool \<Rightarrow> pair list \<Rightarrow> label_counts \<Rightarrow> bool" where
  "counts_of color ps st \<longleftrightarrow> om_ok (lc_counts st) \<and> om_ok (lc_painted st) \<and>
     lc_order st = first_seen (map plain_label ps) \<and>
     (\<forall>l. om_get (lc_counts st) l = (if l \<in> plain_label ` set ps
        then Some (int (count_list (map plain_label ps) l)) else None)) \<and>
     (\<forall>l. om_get (lc_painted st) l =
        map_option (\<lambda>p. transport_label (p_verdict p) color) (find (\<lambda>p. plain_label p = l) ps))"

lemma plain_of_label: "transport_label v False = plain_transport_label v"
  by (simp add: transport_label_def paint_def)

lemma label_found: "l \<in> plain_label ` set ps \<Longrightarrow> \<exists>q. find (\<lambda>x. plain_label x = l) ps = Some q"
  by (cases "find (\<lambda>x. plain_label x = l) ps") (auto simp: find_None_iff)

lemma label_new: "l \<notin> plain_label ` set ps \<Longrightarrow> find (\<lambda>x. plain_label x = l) ps = None"
  unfolding find_None_iff by blast

lemma count_label_step:
  assumes "counts_of color ps st"
  shows "counts_of color (ps @ [p]) (count_label color p st)"
proof (cases "plain_label p \<in> plain_label ` set ps")
  case True
  then obtain q where q: "find (\<lambda>x. plain_label x = plain_label p) ps = Some q" using label_found by blast
  have found: "find (\<lambda>x. plain_label x = l) (ps @ [p]) = find (\<lambda>x. plain_label x = l) ps" for l
    using q by (cases "l = plain_label p") (simp_all add: find_snoc split: option.split)
  have "om_get (lc_counts st) (plain_label p) = Some (int (count_list (map plain_label ps) (plain_label p)))"
    using assms True by (simp add: counts_of_def)
  then have step: "count_label color p st = st\<lparr>lc_counts :=
      om_put (plain_label p) (int (count_list (map plain_label ps) (plain_label p)) + 1) (lc_counts st)\<rparr>"
    by (simp add: count_label_def plain_of_label Let_def)
  show ?thesis using assms True unfolding counts_of_def step found by auto
next
  case False
  have found: "find (\<lambda>x. plain_label x = l) (ps @ [p]) =
      (if l = plain_label p then Some p else find (\<lambda>x. plain_label x = l) ps)" for l
    using label_new [OF False] by (cases "l = plain_label p") (simp_all add: find_snoc split: option.split)
  have "om_get (lc_counts st) (plain_label p) = None"
    using assms False unfolding counts_of_def by simp
  then have step: "count_label color p st = st\<lparr>lc_order := lc_order st @ [plain_label p],
      lc_painted := om_put (plain_label p) (transport_label (p_verdict p) color) (lc_painted st),
      lc_counts := om_put (plain_label p) 1 (lc_counts st)\<rparr>"
    by (simp add: count_label_def plain_of_label Let_def)
  have "count_list (map plain_label ps) (plain_label p) = 0" using False by (simp add: count_list_0_iff)
  then show ?thesis using assms False unfolding counts_of_def step found by auto
qed

lemma count_labels:
  "counts_of color ps (fold (count_label color) ps \<lparr>lc_counts = [], lc_order = [], lc_painted = []\<rparr>)"
  by (induction ps rule: rev_induct) (simp add: counts_of_def, simp add: count_label_step)

text \<open>
  The TRANSPORT cell of a topic lists every label of its pairs once, in the order of the pairs, with the
  number of the pairs that have it and painted as their verdict; the numbers add up to the pairs of the
  topic.
\<close>

theorem aggregate_transports_counts:
  "(let labels = map plain_label (t_pairs t); order = first_seen labels
    in (if labels = [] then aggregate_transports t color = ''-''
        else aggregate_transports t color = join (map (\<lambda>l.
          transport_label (p_verdict (the (find (\<lambda>p. plain_label p = l) (t_pairs t)))) color @ '' x'' @
          dec (count_list labels l)) order) '', '') \<and>
       distinct order \<and> sum_list (map (count_list labels) order) = length (t_pairs t))"
proof -
  define st where "st = fold (count_label color) (t_pairs t) \<lparr>lc_counts = [], lc_order = [], lc_painted = []\<rparr>"
  note inv = count_labels [of color "t_pairs t", folded st_def, unfolded counts_of_def]
  have part: "label_part st l = transport_label (p_verdict (the (find (\<lambda>p. plain_label p = l) (t_pairs t)))) color @
      '' x'' @ dec (count_list (map plain_label (t_pairs t)) l)"
    if l: "l \<in> set (first_seen (map plain_label (t_pairs t)))" for l
  proof -
    from l have mem: "l \<in> plain_label ` set (t_pairs t)" by simp
    then obtain q where "find (\<lambda>p. plain_label p = l) (t_pairs t) = Some q" using label_found by blast
    with inv mem show ?thesis by (simp add: label_part_def dec_int_def)
  qed
  have "distinct (first_seen (map plain_label (t_pairs t)))" by (simp add: first_seen_def)
  moreover from this have "sum_list (map (count_list (map plain_label (t_pairs t)))
      (first_seen (map plain_label (t_pairs t)))) = length (t_pairs t)"
    by (subst count_list_sum) simp_all
  moreover have "map (label_part st) (first_seen (map plain_label (t_pairs t))) =
      map (\<lambda>l. transport_label (p_verdict (the (find (\<lambda>p. plain_label p = l) (t_pairs t)))) color @
        '' x'' @ dec (count_list (map plain_label (t_pairs t)) l)) (first_seen (map plain_label (t_pairs t)))"
    using part by (intro map_cong) simp_all
  then have "t_pairs t \<noteq> [] \<Longrightarrow> aggregate_transports t color =
      join (map (\<lambda>l. transport_label (p_verdict (the (find (\<lambda>p. plain_label p = l) (t_pairs t)))) color @
        '' x'' @ dec (count_list (map plain_label (t_pairs t)) l)) (first_seen (map plain_label (t_pairs t)))) '', ''"
    using inv unfolding aggregate_transports_def Let_def st_def [symmetric] by (simp del: map_eq_conv)
  moreover have "t_pairs t = [] \<Longrightarrow> aggregate_transports t color = ''-''" by (simp add: aggregate_transports_def)
  ultimately show ?thesis unfolding Let_def by (cases "t_pairs t = []") simp_all
qed

subsection \<open>Ghost rows\<close>

text \<open>
  The row of a pair that is gone has one cell less than the rows of the pairs above it: the cell of the
  HZ column is missing, and \<open>(removed)\<close> is not under their reasons.
\<close>

lemma ghost_row_shifted:
  assumes "ro_watch opt = Some w"
  shows "length (pair_cells snap opt tp) = length (ghost_cells snap opt g) + 1"
    and "last (ghost_cells snap opt g) = paint ''(removed)'' DIM (ro_color opt)"
  using assms by (simp_all add: pair_cells_def ghost_cells_def Let_def)

text \<open>The row of a topic that is gone says so in the LATENCY column.\<close>

lemma orphan_row_shifted:
  assumes "ro_watch opt = Some w"
  shows "hd (table_rows snap opt) ! 6 = ''LATENCY''" and "orphan_cells color g ! 6 = paint ''(removed)'' DIM color"
    and "length (orphan_cells color g) + 3 = length (hd (table_rows snap opt))"
  using assms by (simp_all add: table_rows_def header_cells_def orphan_cells_def)

text \<open>
  A ghost whose topic is a member of a service or an action and still there is shown nowhere: it is no
  orphan, and the rows below which ghosts are printed have the name of the group.
\<close>

definition service_topic :: topic_summary where
  "service_topic = base_class (topic_summary0\<lparr>t_dds_topic := ''rq/addRequest'',
     t_display_topic := ''rq/addRequest'', t_readers := [0]\<rparr>)"

lemma service_topic_sel:
  "t_kind service_topic = TkService" "t_group service_topic = ''/add''" "t_direction service_topic = ToServer"
  "t_display_topic service_topic = ''rq/addRequest''" "t_pairs service_topic = []"
  "t_writers service_topic = []" "t_readers service_topic = [0]"
  by code_simp+

definition service_snapshot :: snapshot where
  "service_snapshot = snapshot0\<lparr>
     sn_endpoints := [endpoint0\<lparr>guid := ''s'', is_writer := False, dds_topic := ''rq/addRequest''\<rparr>],
     sn_topics := [service_topic]\<rparr>"

definition client_gone :: ghost_pair where
  "client_gone = \<lparr>gp_key = \<lparr>pk_topic = ''rq/addRequest'', pk_writer_guid = ''c'', pk_reader_guid = ''s'',
      pk_writer_node = [], pk_reader_node = []\<rparr>, gp_type = [], gp_writer_label = ''c'', gp_reader_label = ''s'',
     gp_transport_label = ''SHM''\<rparr>"

lemma ghost_of_service_hidden:
  "let opt = render_options0\<lparr>ro_watch := Some (watch_decorations0\<lparr>wd_ghosts := [client_gone]\<rparr>)\<rparr>
   in orphan_ghosts service_snapshot opt = [] \<and>
      map (\<lambda>r. (row_name r, ghosts_of opt (row_name r)))
        (display_rows (sn_endpoints service_snapshot) (sn_topics service_snapshot)) = [(''/add'', [])]"
  by (simp add: service_snapshot_def service_topic_sel Let_def orphan_ghosts_def ghosts_of_def render_options0_def
      watch_decorations0_def client_gone_def snapshot0_def endpoint0_def display_rows_def topic_step_def
      is_group_def unpaired_step_def on_row_def row_for_def prefix_of_def display_row0_def put_unpaired_def
      add_member_def set_type_def)

end
