(* ===== verification/Diff_Command.thy ===== *)
theory Diff_Command
  imports Render_Table Render_Json Parse_Props Json_Props Collect
begin

text \<open>
  \<open>transport_viz diff <before> <after>\<close> (\<open>run_diff\<close> of \<open>src/main.cpp\<close>): reading the two documents, the view
  filters, the comparison and what is printed. Parameters are the files, the standard input, whether the
  output is a terminal, and the JSON library with the text of its exceptions. \<open>jt_number\<close> is \<open>dump\<close> on a
  number, which always has a result.
\<close>

record json_text =
  jt_lib :: json_lib
  jt_dump :: "nat option \<Rightarrow> json \<Rightarrow> string option"
  jt_number :: "json \<Rightarrow> string"
  jt_parse :: "string \<Rightarrow> parse_result"
  jt_what :: "failure \<Rightarrow> string" \<comment> \<open>\<open>what()\<close>\<close>

text \<open>
  A file cannot be opened, for a reason (\<open>strerror\<close>), can be opened and not be read (a directory: the stream
  iterator throws), or has a text. The standard input is read to its end, so a second reader finds nothing.
\<close>

datatype opened = CannotOpen string | ReadThrows | Content string

record console =
  co_files :: "string \<Rightarrow> opened"
  co_stdin :: string
  co_isatty :: bool
  co_getenv :: "string \<Rightarrow> string option"
  co_search :: "string \<Rightarrow> string \<Rightarrow> bool" \<comment> \<open>\<open>regex_search(name, pattern)\<close>\<close>

text \<open>How a run ends: with an exit code, its output and its lines on stderr, or in an exception.\<close>

datatype run_end = Ended int string "string list" | Uncaught

definition use_color :: "console \<Rightarrow> options \<Rightarrow> bool" where
  "use_color co ops \<longleftrightarrow> op_color ops = ColorAlways \<or>
     (op_color ops = ColorAuto \<and> co_isatty co \<and> co_getenv co ''NO_COLOR'' = None)"

definition view_options :: "console \<Rightarrow> options \<Rightarrow> render_options" where
  "view_options co ops = render_options0\<lparr>ro_verbose := op_verbose ops, ro_explain := op_explain ops,
     ro_locators := op_locators ops, ro_advise := op_advise ops, ro_color := use_color co ops\<rparr>"

definition apply_view_filters :: "console \<Rightarrow> options \<Rightarrow> snapshot \<Rightarrow> snapshot" where
  "apply_view_filters co ops snap =
     (let eps = sn_endpoints snap;
          topics = filter (\<lambda>t. (op_all ops \<or> in_default_view eps t) \<and>
            (op_topic_regex ops = [] \<or> co_search co (t_display_topic t) (op_topic_regex ops))) (sn_topics snap)
      in snap\<lparr>sn_topics := apply_node_filter (co_search co) ops eps topics\<rparr>)"

text \<open>
  The lambda \<open>load\<close>: the standard input that is left, the lines on stderr, and the document or nothing
  (\<open>Inr None\<close>) when it cannot be opened or understood; \<open>Inl\<close> is an exception that is not a \<open>ParseError\<close>.
\<close>

definition text_of :: "console \<Rightarrow> string \<Rightarrow> opened \<times> console" where
  "text_of co path = (if path = ''-'' then (Content (co_stdin co), co\<lparr>co_stdin := []\<rparr>) else (co_files co path, co))"

definition load :: "json_text \<Rightarrow> string \<Rightarrow> opened \<Rightarrow> unit + (string list \<times> snapshot option)" where
  "load J path text =
     (case text of
        CannotOpen why \<Rightarrow> Inr ([''transport_viz diff: cannot read '' @ path @ '': '' @ why], None)
      | ReadThrows \<Rightarrow> Inl ()
      | Content text \<Rightarrow> (case parse_json (jt_lib J) (jt_dump J) (jt_parse J) text of
          Inl Thrown \<Rightarrow> Inl ()
        | Inl e \<Rightarrow> Inr ([''transport_viz diff: '' @ path @ '': '' @ jt_what J e], None)
        | Inr (snap, documents) \<Rightarrow>
            Inr (if 1 < documents
                 then [''transport_viz diff: '' @ path @ '': '' @ dec documents @
                   '' documents (JSON Lines), comparing the last one'']
                 else [], Some snap)))"

definition domain_warning :: "snapshot \<Rightarrow> snapshot \<Rightarrow> string list" where
  "domain_warning before after =
     (if sn_domain before \<noteq> sn_domain after
      then [''transport_viz diff: warning: the documents are from different domains ('' @
        dec_int (sn_domain before) @ '' and '' @ dec_int (sn_domain after) @ '')''] else [])"

text \<open>The comparison of the two filtered documents: the exit code and the output, if it can be written.\<close>

definition diff_output :: "json_text \<Rightarrow> console \<Rightarrow> options \<Rightarrow> snapshot \<Rightarrow> snapshot \<Rightarrow> int \<times> string option" where
  "diff_output J co ops before after =
     (let ropt = view_options co ops;
          changes = (diff_snapshots before after (op_key ops))
            \<lparr>ch_before := Some \<lparr>sr_observed_at = sn_observed_at before, sr_domain = sn_domain before\<rparr>\<rparr>;
          differ = \<not> ch_empty changes;
          after = after\<lparr>sn_has_changes := True, sn_changes := changes\<rparr>;
          deco = decorations_for changes before ropt;
          after = (if op_changes_only ops then keep_changed_topics after deco else after)
      in (if differ then 1 else 0,
          if op_json ops then render_json (jt_dump J) after ropt
          else Some (render_table after (ropt\<lparr>ro_watch := Some deco\<rparr>))))"

definition run_diff :: "json_text \<Rightarrow> console \<Rightarrow> options \<Rightarrow> run_end" where
  "run_diff J co ops =
     (let (text, co) = text_of co (op_files ops ! 0)
      in case load J (op_files ops ! 0) text of
           Inl _ \<Rightarrow> Uncaught
         | Inr (err, None) \<Rightarrow> Ended 2 [] err
         | Inr (err, Some before) \<Rightarrow>
             (let (text, co) = text_of co (op_files ops ! 1)
              in case load J (op_files ops ! 1) text of
                   Inl _ \<Rightarrow> Uncaught
                 | Inr (err', None) \<Rightarrow> Ended 2 [] (err @ err')
                 | Inr (err', Some after) \<Rightarrow>
                     (let err = err @ err' @ domain_warning before after;
                          (code, out) = diff_output J co ops (apply_view_filters co ops before)
                            (apply_view_filters co ops after)
                      in case out of None \<Rightarrow> Uncaught | Some out \<Rightarrow> Ended code out err)))"

subsection \<open>Properties\<close>

lemma load_uncaught:
  "(\<exists>u. load J path tx = Inl u) \<longleftrightarrow> tx = ReadThrows \<or> (\<exists>s. tx = Content s \<and> number_too_large (jt_parse J) s)"
proof (cases tx)
  case (Content s)
  then show ?thesis using parse_json_thrown [of "jt_lib J" "jt_dump J" "jt_parse J" s]
    by (auto simp: load_def split: sum.splits failure.splits)
qed (simp_all add: load_def)

lemma load_failed: "load J path tx = Inr (err, None) \<Longrightarrow> err \<noteq> []"
  by (auto simp: load_def split: opened.splits sum.splits failure.splits)

lemma diff_code: "fst (diff_output J co ops before after) = (if ch_empty (diff_snapshots before after (op_key ops)) then 0 else 1)"
  by (simp add: diff_output_def ch_empty_def Let_def)

lemma diff_written:
  "snd (diff_output J co ops before after) = None \<Longrightarrow> op_json ops \<and> (\<exists>j. jt_dump J (Some 2) j = None)"
  by (auto simp: diff_output_def render_json_def view_options_def render_options0_def Let_def split: if_splits)

text \<open>A document ends the comparison in an exception: it cannot be read to its end, or a number in it is too large.\<close>

definition document_throws :: "json_text \<Rightarrow> opened \<Rightarrow> bool" where
  "document_throws J tx \<longleftrightarrow> tx = ReadThrows \<or> (\<exists>s. tx = Content s \<and> number_too_large (jt_parse J) s)"

lemma load_cases:
  obtains (thrown) "document_throws J tx" "load J path tx = Inl ()"
  | (failed) err where "\<not> document_throws J tx" "load J path tx = Inr (err, None)" "err \<noteq> []"
  | (loaded) err snap where "\<not> document_throws J tx" "load J path tx = Inr (err, Some snap)"
proof (cases "load J path tx")
  case (Inl u)
  then show ?thesis using that(1) load_uncaught [of J path tx] by (auto simp: document_throws_def)
next
  case (Inr r)
  moreover from this have "\<not> document_throws J tx" using load_uncaught [of J path tx] by (auto simp: document_throws_def)
  moreover obtain err snap where "r = (err, snap)" by (rule prod.exhaust)
  ultimately show ?thesis using that(2,3) load_failed by (cases snap) blast+
qed

text \<open>How a comparison ends.\<close>

lemma run_diff_result:
  fixes J co ops
  defines "first \<equiv> text_of co (op_files ops ! 0)"
  defines "second \<equiv> text_of (snd first) (op_files ops ! 1)"
  shows "case run_diff J co ops of
     Uncaught \<Rightarrow> document_throws J (fst first) \<or> document_throws J (fst second) \<or>
       (op_json ops \<and> (\<exists>j. jt_dump J (Some 2) j = None))
   | Ended code out err \<Rightarrow> \<not> document_throws J (fst first) \<and>
       (if code = 2 then out = [] \<and> err \<noteq> [] else (code = 0 \<or> code = 1) \<and> \<not> document_throws J (fst second))"
proof -
  obtain tx co' where t: "text_of co (op_files ops ! 0) = (tx, co')" by fastforce
  obtain tx2 co2 where t2: "text_of co' (op_files ops ! 1) = (tx2, co2)" by fastforce
  have sides: "fst first = tx" "fst second = tx2" by (simp_all add: first_def second_def t t2 del: One_nat_def)
  show ?thesis
  proof (cases rule: load_cases [of J tx "op_files ops ! 0"])
    case thrown
    then show ?thesis using t sides by (simp add: run_diff_def del: One_nat_def)
  next
    case failed
    then show ?thesis using t sides by (simp add: run_diff_def del: One_nat_def)
  next
    case l: (loaded err before)
    show ?thesis
    proof (cases rule: load_cases [of J tx2 "op_files ops ! 1"])
      case thrown
      then show ?thesis using t l t2 sides by (simp add: run_diff_def del: One_nat_def)
    next
      case failed
      then show ?thesis using t l t2 sides by (simp add: run_diff_def del: One_nat_def)
    next
      case l2: (loaded err2 after)
      obtain code out where d: "diff_output J co2 ops (apply_view_filters co2 ops before)
          (apply_view_filters co2 ops after) = (code, out)" by fastforce
      then have "code = 0 \<or> code = 1" using diff_code by (metis fst_conv)
      moreover have "out = None \<Longrightarrow> op_json ops \<and> (\<exists>j. jt_dump J (Some 2) j = None)"
        using diff_written d by (metis snd_conv)
      ultimately show ?thesis using t l t2 l2 d sides by (auto simp: run_diff_def simp del: One_nat_def split: option.split)
    qed
  qed
qed


text \<open>A directory instead of a document: it can be opened, and nobody catches what reading it throws.\<close>

lemma unreadable_document:
  "op_files ops ! 0 \<noteq> ''-'' \<Longrightarrow> co_files co (op_files ops ! 0) = ReadThrows \<Longrightarrow> run_diff J co ops = Uncaught"
  by (simp add: run_diff_def text_of_def load_def)

lemma whole_view:
  assumes "op_all ops" "op_topic_regex ops = []" "op_node_regex ops = []"
  shows "apply_view_filters co ops snap = snap"
  using assms by (simp add: apply_view_filters_def apply_node_filter_def Let_def)

lemma load_document:
  assumes "json_library (jt_lib J)" "document_ok snap"
    "jt_parse J written = Document (reread (snapshot_json snap opt))"
  shows "load J path (Content written) = Inr ([], Some (kept_snapshot snap))"
  by (simp add: load_def parse_json_def parse_text_def assms(3) json_library.snapshot_back [OF assms(1,2)])


definition sample_text :: json_text where
  "sample_text = \<lparr>jt_lib = plain_lib, jt_dump = sample_dump, jt_number = sample_written, jt_parse = sample_parse, jt_what = (\<lambda>_. [])\<rparr>"

definition sample_console :: console where
  "sample_console = \<lparr>co_files = (\<lambda>f. Content ((if f = ''before'' then ''empty'' else ''pair'') @ [CHR 0x0A])),
     co_stdin = [], co_isatty = False, co_getenv = (\<lambda>_. None), co_search = (\<lambda>_ _. False)\<rparr>"


end
