(* ===== verification/Main_Loop.thy ===== *)
theory Main_Loop
  imports Diff_Command Render_Csv Observer
begin

text \<open>
  \<open>main\<close> of \<open>src/main.cpp\<close>: what happens before the first participant is created, the output of a
  one-shot run, and the loop of \<open>--watch\<close>. One iteration of the loop reads its surroundings once: the
  clock, whether ROS still runs, the frame that \<open>collect\<close> gives for the options of the moment, the size
  of the terminal and the key. Times are nanoseconds.
\<close>

subsection \<open>Before the observation\<close>

record launch =
  la_getenv :: "string \<Rightarrow> string option"
  la_rmw :: "string option" \<comment> \<open>\<open>rmw_get_implementation_identifier\<close>\<close>
  la_rmw_error :: string
  la_regex_error :: "string \<Rightarrow> string option"
  la_has_statistics :: bool \<comment> \<open>\<open>FTV_HAS_STATISTICS\<close>\<close>

record started =
  st_ops :: options
  st_domain :: int
  st_getenv :: "string \<Rightarrow> string option"
  st_err :: "string list"

datatype start = Finished run_end | Started started

definition code_listing :: string where
  "code_listing = concat (map (\<lambda>c. c @ NL @ ''    '' @ explain c @ NL @
     (case remedy c of None \<Rightarrow> [] | Some r \<Rightarrow> ''    fix: '' @ r @ NL)) known_codes)"

definition set_env :: "(string \<Rightarrow> string option) \<Rightarrow> string \<Rightarrow> string option \<Rightarrow> string \<Rightarrow> string option" where
  "set_env env name v = env(name := v)"

definition is_set :: "(string \<Rightarrow> string option) \<Rightarrow> string \<Rightarrow> bool" where
  "is_set env name \<longleftrightarrow> (case env name of None \<Rightarrow> False | Some v \<Rightarrow> v \<noteq> [])"

definition default_timeout :: "options \<Rightarrow> options" where
  "default_timeout ops =
     (if d_lt (op_timeout ops) (Fin 0) then ops\<lparr>op_timeout := (if op_stats ops then Fin 30 else Fin 3)\<rparr> else ops)"

definition domain_of :: "(string \<Rightarrow> string option) \<Rightarrow> options \<Rightarrow> int" where
  "domain_of env ops =
     (if op_domain ops < 0 then (case env ''ROS_DOMAIN_ID'' of None \<Rightarrow> 0 | Some v \<Rightarrow> atoi v) else op_domain ops)"

definition statistics_note :: "launch \<Rightarrow> options \<Rightarrow> string list" where
  "statistics_note la ops =
     (if op_stats ops \<and> \<not> la_has_statistics la
      then [''warning: this Fast DDS was built without the statistics module (ROS 2 Humble'' @ [CHR 0x27] @ ''s '' @
        ''2.6 binary): the observed nodes cannot publish statistics and --stats measures nothing''] else [])"

definition observe_as_super_client :: "(string \<Rightarrow> string option) \<Rightarrow> bool" where
  "observe_as_super_client env \<longleftrightarrow> is_set env ''ROS_DISCOVERY_SERVER'' \<and> env ''ROS_SUPER_CLIENT'' = None"

definition environment_notes :: "(string \<Rightarrow> string option) \<Rightarrow> string list" where
  "environment_notes env =
     (if observe_as_super_client env
      then [''ROS_DISCOVERY_SERVER is set: observing as SUPER_CLIENT (set ROS_SUPER_CLIENT to override)''] else []) @
     (case env ''ROS2_EASY_MODE'' of
        Some easy \<Rightarrow> if easy \<noteq> []
          then [''ROS2_EASY_MODE='' @ easy @ '': observing through this host'' @ [CHR 0x27] @
            ''s Discovery Server (Easy Mode)''] else []
      | None \<Rightarrow> []) @
     (if env ''ROS_AUTOMATIC_DISCOVERY_RANGE'' = Some ''OFF''
      then [''warning: ROS_AUTOMATIC_DISCOVERY_RANGE=OFF disables discovery entirely '' @
        ''(rmw_fastrtps allows a single participant); nothing can be observed in this mode''] else [])"

definition prepare :: "launch \<Rightarrow> options \<Rightarrow> started" where
  "prepare la ops =
     (let env = set_env (la_getenv la) ''FASTDDS_STATISTICS'' None
      in \<lparr>st_ops = default_timeout ops, st_domain = domain_of env ops,
          st_getenv = (if observe_as_super_client env then set_env env ''ROS_SUPER_CLIENT'' (Some ''TRUE'') else env),
          st_err = statistics_note la ops @ environment_notes env\<rparr>)"

definition start_up :: "json_text \<Rightarrow> console \<Rightarrow> launch \<Rightarrow> string list \<Rightarrow> start" where
  "start_up J co la argv =
     (case parse (la_regex_error la) argv of
        Exit code out message \<Rightarrow> Finished (Ended code out (if message = [] then [] else [message]))
      | Parsed ops \<Rightarrow>
          if op_command ops = ''diff'' then Finished (run_diff J co ops)
          else if op_list_codes ops then Finished (Ended 0 code_listing [])
          else case rmw_verdict (la_rmw la) (case la_getenv la ''RMW_IMPLEMENTATION'' of None \<Rightarrow> [] | Some r \<Rightarrow> r)
                 (la_rmw_error la) of
            Inl message \<Rightarrow> Finished (Ended 1 [] [''transport_viz: '' @ message])
          | Inr _ \<Rightarrow> Started (prepare la ops))"

subsection \<open>One shot\<close>

text \<open>A line on stderr is \<open>None\<close> where the conversion of an option to an integer is not defined.\<close>

definition incomplete_line :: "options \<Rightarrow> snapshot \<Rightarrow> string option list" where
  "incomplete_line ops snap =
     (let line = incomplete_discovery_warning (sn_discovery snap) (op_quiet ops) (op_timeout ops) (op_stats ops)
      in if line = Some [] then [] else [line])"

definition loss_lines :: "snapshot \<Rightarrow> string option list" where
  "loss_lines snap =
     (let line = statistics_loss_warning (sn_stats snap); absent = rtps_sent_absent_warning (sn_stats snap)
      in (if line = [] then [] else [Some line]) @ (if absent = [] then [] else [Some absent]))"

definition initial_options :: "console \<Rightarrow> options \<Rightarrow> render_options" where
  "initial_options co ops = (view_options co ops)\<lparr>ro_compact := op_json ops \<and> op_watch ops\<rparr>"

text \<open>The output and the lines on stderr; nothing where the JSON document cannot be written.\<close>

definition one_shot :: "json_text \<Rightarrow> console \<Rightarrow> options \<Rightarrow> snapshot \<Rightarrow> (string \<times> string option list) option" where
  "one_shot J co ops snap =
     (let ropt = initial_options co ops
      in map_option (\<lambda>out. (out, incomplete_line ops snap @ loss_lines snap))
        (if op_json ops then render_json (jt_dump J) snap ropt
         else Some (if op_csv ops then render_csv (jt_number J) snap ropt else render_table snap ropt)))"

subsection \<open>The terminal\<close>

definition csi :: "string \<Rightarrow> string" where
  "csi s = ESC # ''['' @ s"

definition paint_frame :: "string \<Rightarrow> nat \<Rightarrow> string" where
  "paint_frame frame max_rows =
     (let lines = getlines [] frame
      in csi ''H'' @ concat (map (\<lambda>l. l @ csi ''K'' @ NL) (if max_rows = 0 then lines else take max_rows lines)) @ csi ''J'')"

subsection \<open>The loop\<close>

record watch_env =
  we_json :: json_text
  we_domain :: int
  we_terminal :: bool
  we_interval_text :: string \<comment> \<open>\<open>os << o.interval\<close>\<close>

record watch_input =
  wi_ok :: bool \<comment> \<open>\<open>rclcpp::ok()\<close> at the head of the loop\<close>
  wi_now :: int
  wi_drawing :: int \<comment> \<open>the clock when the next frame is planned\<close>
  wi_snapshot :: "options \<Rightarrow> snapshot" \<comment> \<open>\<open>collect\<close>\<close>
  wi_ok_collected :: bool
  wi_size :: "nat \<times> nat" \<comment> \<open>rows and columns, zeros without a terminal\<close>
  wi_key :: "char option"

text \<open>
  \<open>wl_drawn\<close> is what was drawn so far: the render options of \<open>diff\<close> and the snapshot of each frame.
  \<open>wl_thrown\<close> is set when an exception left the loop: the document of a frame could not be written.
\<close>

record watch_loop =
  wl_ops :: options
  wl_ropt :: render_options
  wl_ws :: watch_state
  wl_first :: bool
  wl_paused :: bool
  wl_quit :: bool
  wl_thrown :: bool
  wl_force :: bool
  wl_next :: int
  wl_out :: "string list"
  wl_err :: "string option list"
  wl_drawn :: "(render_options \<times> snapshot) list"

definition watch_loop0 :: "console \<Rightarrow> options \<Rightarrow> int \<Rightarrow> watch_loop" where
  "watch_loop0 co ops now = \<lparr>wl_ops = ops, wl_ropt = initial_options co ops, wl_ws = watch_state0, wl_first = True,
     wl_paused = False, wl_quit = False, wl_thrown = False, wl_force = True, wl_next = now, wl_out = [], wl_err = [], wl_drawn = []\<rparr>"

text \<open>\<open>--interval\<close>, cut to milliseconds.\<close>

definition interval_ns :: "options \<Rightarrow> int" where
  "interval_ns ops = d_cut (d_mul (op_interval ops) (Fin 1000)) * 1000000"

definition frame_header :: "watch_env \<Rightarrow> watch_loop \<Rightarrow> snapshot \<Rightarrow> string" where
  "frame_header env s snap =
     (let ops = wl_ops s
      in ''transport_viz  domain '' @ dec_int (we_domain env) @ ''  '' @ sn_observed_at snap @
         ''  refresh '' @ we_interval_text env @ ''s'' @ (if wl_paused s then ''  [PAUSED]'' else []) @
         (if op_all ops then ''  [all]'' else []) @
         (if op_topic_regex ops = [] then [] else ''  [topic: '' @ op_topic_regex ops @ '']'') @
         (if op_node_regex ops = [] then [] else ''  [node: '' @ op_node_regex ops @ '']''))"

definition key_line :: "watch_loop \<Rightarrow> string" where
  "key_line s = '' q quit   p '' @ (if wl_paused s then ''resume'' else ''pause'') @
     ''   v pairs   e legend   a all   l locators   f fixes''"

definition frame_text :: "watch_env \<Rightarrow> watch_input \<Rightarrow> watch_loop \<Rightarrow> render_options \<Rightarrow> snapshot \<Rightarrow> string" where
  "frame_text env i s ropt snap =
     (let (rows, cols) = wi_size i;
          frame = truncate_visible (frame_header env s snap) cols @ NL @ NL @ render_table snap ropt
      in if we_terminal env
         then paint_frame (frame @ NL @ truncate_visible (key_line s) cols @ NL) rows
         else frame @ NL)"

definition refreshed_options :: "watch_loop \<Rightarrow> render_options" where
  "refreshed_options s = (wl_ropt s)\<lparr>ro_verbose := op_verbose (wl_ops s), ro_explain := op_explain (wl_ops s),
     ro_locators := op_locators (wl_ops s), ro_advise := op_advise (wl_ops s)\<rparr>"

text \<open>The text of a frame, if it can be written, and the render options it leaves behind.\<close>

definition draw :: "watch_env \<Rightarrow> watch_input \<Rightarrow> watch_loop \<Rightarrow> render_options \<Rightarrow> watch_state \<Rightarrow> snapshot \<Rightarrow>
    (string \<times> render_options) option" where
  "draw env i s ropt ws snap =
     (let ops = wl_ops s
      in if op_json ops \<or> op_csv ops
         then map_option (\<lambda>out. (out, ropt\<lparr>ro_csv_no_header := True\<rparr>))
           (if op_json ops then render_json (jt_dump (we_json env)) snap ropt
            else Some (render_csv (jt_number (we_json env)) snap ropt))
         else (let ropt = ropt\<lparr>ro_max_width := snd (wi_size i), ro_watch := Some (wa_deco ws)\<rparr>
               in Some (frame_text env i s ropt snap, ropt)))"

definition frame_due :: "watch_input \<Rightarrow> watch_loop \<Rightarrow> bool" where
  "frame_due i s \<longleftrightarrow> wl_force s \<or> (\<not> wl_paused s \<and> wl_next s \<le> wi_now i)"

text \<open>
  A frame. Where its document cannot be written the exception ends the program: nothing is written, and
  what the loop knew is not used any more.
\<close>

definition watch_frame_step :: "watch_env \<Rightarrow> watch_input \<Rightarrow> watch_loop \<Rightarrow> watch_loop" where
  "watch_frame_step env i s =
     (let ropt = refreshed_options s; collected = wi_snapshot i (wl_ops s);
          (snap, ws) = watch_diff collected ropt (wl_ws s)
      in case draw env i s ropt ws snap of
           None \<Rightarrow> s\<lparr>wl_ropt := ropt, wl_quit := True, wl_thrown := True\<rparr>
         | Some (out, ropt') \<Rightarrow>
             s\<lparr>wl_ropt := ropt', wl_ws := watch_keep snap ws, wl_first := False, wl_out := wl_out s @ [out],
               wl_err := wl_err s @ (if wl_first s \<and> \<not> we_terminal env then incomplete_line (wl_ops s) snap else []),
               wl_drawn := wl_drawn s @ [(ropt, collected)]\<rparr>)"

definition toggle :: "(options \<Rightarrow> options) \<Rightarrow> watch_loop \<Rightarrow> watch_loop" where
  "toggle f s = s\<lparr>wl_ops := f (wl_ops s), wl_force := True\<rparr>"

definition is_key :: "string \<Rightarrow> char option \<Rightarrow> bool" where
  "is_key keys k = (case k of None \<Rightarrow> False | Some c \<Rightarrow> List.member keys c)"

definition handle_key :: "char option \<Rightarrow> watch_loop \<Rightarrow> watch_loop" where
  "handle_key k s =
     (if is_key (CHR 0x03 # ''qQ'') k then s\<lparr>wl_quit := True\<rparr>
      else if is_key ''pP'' k then s\<lparr>wl_paused := \<not> wl_paused s, wl_force := True\<rparr>
      else if is_key ''vV'' k then toggle (\<lambda>ops. ops\<lparr>op_verbose := \<not> op_verbose ops\<rparr>) s
      else if is_key ''eE'' k then toggle (\<lambda>ops. ops\<lparr>op_explain := \<not> op_explain ops\<rparr>) s
      else if is_key ''aA'' k then toggle (\<lambda>ops. ops\<lparr>op_all := \<not> op_all ops\<rparr>) s
      else if is_key ''lL'' k then toggle (\<lambda>ops. ops\<lparr>op_locators := \<not> op_locators ops,
        op_verbose := op_verbose ops \<or> \<not> op_locators ops\<rparr>) s
      else if is_key ''fF'' k then toggle (\<lambda>ops. ops\<lparr>op_advise := \<not> op_advise ops,
        op_verbose := op_verbose ops \<or> \<not> op_advise ops, op_explain := op_explain ops \<or> \<not> op_advise ops\<rparr>) s
      else s)"

text \<open>One iteration. Leaving the loop by \<open>break\<close> is quitting without reading a key.\<close>

definition watch_iteration :: "watch_env \<Rightarrow> watch_input \<Rightarrow> watch_loop \<Rightarrow> watch_loop" where
  "watch_iteration env i s =
     (if frame_due i s
      then
        (let s = s\<lparr>wl_force := False, wl_next := wi_drawing i + interval_ns (wl_ops s)\<rparr>
         in if \<not> wi_ok_collected i then s\<lparr>wl_ropt := refreshed_options s, wl_quit := True\<rparr>
            else let s = watch_frame_step env i s in if wl_thrown s then s else handle_key (wi_key i) s)
      else handle_key (wi_key i) s)"

fun watch_run :: "watch_env \<Rightarrow> watch_input list \<Rightarrow> watch_loop \<Rightarrow> watch_loop" where
  "watch_run env [] s = s"
| "watch_run env (i # is) s =
     (if wi_ok i \<and> \<not> wl_quit s then watch_run env is (watch_iteration env i s) else s)"

text \<open>The same as a relation between states, for what holds in every state of the loop.\<close>

inductive watch_step :: "watch_env \<Rightarrow> watch_loop \<Rightarrow> watch_loop \<Rightarrow> bool" for env where
  iterate: "wi_ok i \<Longrightarrow> \<not> wl_quit s \<Longrightarrow> watch_step env s (watch_iteration env i s)"

inductive_cases watch_stepE: "watch_step env s s'"

inductive watch_reaches :: "watch_env \<Rightarrow> watch_loop \<Rightarrow> watch_loop \<Rightarrow> bool" for env s where
  start: "watch_reaches env s s"
| step: "watch_reaches env s s1 \<Longrightarrow> watch_step env s1 s2 \<Longrightarrow> watch_reaches env s s2"

end
