(* ===== verification/Main_Props.thy ===== *)
theory Main_Props
  imports Main_Loop
begin

text \<open>
  What holds in every state of the loop of \<open>--watch\<close>, by rule induction over its steps: the marks follow
  the frames that were drawn, and the output is one CSV document or one JSON document per line. Frames
  keep coming, and the environment of a run makes the tool a super client.
\<close>

subsection \<open>Keys\<close>

lemma handle_key_keeps:
  "wl_ropt (handle_key k s) = wl_ropt s" "wl_ws (handle_key k s) = wl_ws s" "wl_first (handle_key k s) = wl_first s"
  "wl_out (handle_key k s) = wl_out s" "wl_drawn (handle_key k s) = wl_drawn s" "wl_next (handle_key k s) = wl_next s"
  "wl_err (handle_key k s) = wl_err s" "wl_thrown (handle_key k s) = wl_thrown s"
  "op_quiet (wl_ops (handle_key k s)) = op_quiet (wl_ops s)" "op_timeout (wl_ops (handle_key k s)) = op_timeout (wl_ops s)"
  "op_stats (wl_ops (handle_key k s)) = op_stats (wl_ops s)"
  "op_json (wl_ops (handle_key k s)) = op_json (wl_ops s)" "op_csv (wl_ops (handle_key k s)) = op_csv (wl_ops s)"
  by (simp_all add: handle_key_def toggle_def)

lemma no_key: "handle_key None s = s"
  by (simp add: handle_key_def is_key_def)

subsection \<open>The frames\<close>

definition marks_after :: "(render_options \<times> snapshot) list \<Rightarrow> watch_state" where
  "marks_after frames = fold (\<lambda>(ropt, snap). watch_frame ropt snap) frames watch_state0"

lemma marks_after_snoc: "marks_after (frames @ [(ropt, snap)]) = watch_frame ropt snap (marks_after frames)"
  by (simp add: marks_after_def)

lemma watch_shown: "\<exists>c. fst (watch_diff snap ropt w) = snap\<lparr>sn_has_changes := True, sn_changes := c\<rparr>"
  unfolding watch_diff_def Let_def split_beta fst_conv by (rule exI) (rule refl)

lemma discovery_shown: "sn_discovery (fst (watch_diff snap ropt w)) = sn_discovery snap"
  using watch_shown [of snap ropt w] by auto

text \<open>The text of the frame that a step draws and the render options it leaves, if it can be written.\<close>

definition drawing :: "watch_env \<Rightarrow> watch_input \<Rightarrow> watch_loop \<Rightarrow> (string \<times> render_options) option" where
  "drawing env i s =
     (let (snap, ws) = watch_diff (wi_snapshot i (wl_ops s)) (refreshed_options s) (wl_ws s)
      in draw env i s (refreshed_options s) ws snap)"

lemma draw_none:
  "draw env i s ropt ws snap = None \<Longrightarrow> op_json (wl_ops s) \<and> (\<exists>indent j. jt_dump (we_json env) indent j = None)"
  by (auto simp: draw_def render_json_def Let_def split: if_splits)

lemma drawing_none:
  "drawing env i s = None \<Longrightarrow> op_json (wl_ops s) \<and> (\<exists>indent j. jt_dump (we_json env) indent j = None)"
  by (auto simp: drawing_def split: prod.splits dest: draw_none)

text \<open>What one frame does.\<close>

lemma frame_step_thrown:
  "drawing env i s = None \<Longrightarrow>
   watch_frame_step env i s = s\<lparr>wl_ropt := refreshed_options s, wl_quit := True, wl_thrown := True\<rparr>"
  by (simp add: watch_frame_step_def drawing_def Let_def split_beta)

lemma frame_step_sel:
  assumes "drawing env i s = Some (out, ropt')"
  shows "wl_drawn (watch_frame_step env i s) = wl_drawn s @ [(refreshed_options s, wi_snapshot i (wl_ops s))]"
    "wl_out (watch_frame_step env i s) = wl_out s @ [out]"
    "wl_ropt (watch_frame_step env i s) = ropt'"
    "wl_ws (watch_frame_step env i s) = watch_frame (refreshed_options s) (wi_snapshot i (wl_ops s)) (wl_ws s)"
    "wl_first (watch_frame_step env i s) = False" "wl_ops (watch_frame_step env i s) = wl_ops s"
    "wl_err (watch_frame_step env i s) = wl_err s @
      (if wl_first s \<and> \<not> we_terminal env then incomplete_line (wl_ops s) (wi_snapshot i (wl_ops s)) else [])"
    "wl_thrown (watch_frame_step env i s) = wl_thrown s" "wl_next (watch_frame_step env i s) = wl_next s"
    "wl_paused (watch_frame_step env i s) = wl_paused s" "wl_quit (watch_frame_step env i s) = wl_quit s"
  using assms discovery_shown [of "wi_snapshot i (wl_ops s)" "refreshed_options s" "wl_ws s"]
  by (simp_all add: watch_frame_step_def watch_frame_def drawing_def incomplete_line_def Let_def split_beta)

lemma step_cases:
  "watch_iteration env i s = handle_key (wi_key i) s \<or>
   (\<exists>s0. wl_drawn s0 = wl_drawn s \<and> wl_out s0 = wl_out s \<and> wl_err s0 = wl_err s \<and> wl_ws s0 = wl_ws s \<and>
      wl_first s0 = wl_first s \<and> wl_ops s0 = wl_ops s \<and> wl_ropt s0 = wl_ropt s \<and> wl_thrown s0 = wl_thrown s \<and>
      (watch_iteration env i s = s0\<lparr>wl_ropt := refreshed_options s0, wl_quit := True\<rparr> \<or>
       watch_iteration env i s = (let s1 = watch_frame_step env i s0 in if wl_thrown s1 then s1 else handle_key (wi_key i) s1)))"
proof (cases "frame_due i s")
  case True
  then show ?thesis
    by (intro disjI2 exI [of _ "s\<lparr>wl_force := False, wl_next := wi_drawing i + interval_ns (wl_ops s)\<rparr>"])
      (simp add: watch_iteration_def Let_def)
qed (simp add: watch_iteration_def)

text \<open>A state that knows what \<open>s\<close> knows about the frames that were drawn.\<close>

definition same_frames :: "watch_loop \<Rightarrow> watch_loop \<Rightarrow> bool" where
  "same_frames s s' \<longleftrightarrow> wl_drawn s' = wl_drawn s \<and> wl_out s' = wl_out s \<and> wl_err s' = wl_err s \<and> wl_ws s' = wl_ws s \<and>
     wl_first s' = wl_first s \<and> op_json (wl_ops s') = op_json (wl_ops s) \<and> op_csv (wl_ops s') = op_csv (wl_ops s) \<and>
     op_quiet (wl_ops s') = op_quiet (wl_ops s) \<and> op_timeout (wl_ops s') = op_timeout (wl_ops s) \<and>
     op_stats (wl_ops s') = op_stats (wl_ops s) \<and> (wl_ropt s' = wl_ropt s \<or> wl_ropt s' = refreshed_options s)"

lemma reaches_induct [consumes 1, case_names start left frame]:
  assumes "watch_reaches env (watch_loop0 co ops now) s"
    and "P (watch_loop0 co ops now)"
    and keep: "\<And>s s'. P s \<Longrightarrow> same_frames s s' \<Longrightarrow> P s'"
    and frame: "\<And>s i out ropt'. P s \<Longrightarrow> drawing env i s = Some (out, ropt') \<Longrightarrow> P (watch_frame_step env i s)"
  shows "P s"
  using assms(1)
proof (induction rule: watch_reaches.induct)
  case start
  show ?case by (rule assms(2))
next
  case (step s1 s2)
  from step.hyps(2) obtain i where s2: "s2 = watch_iteration env i s1" by (auto elim: watch_stepE)
  from step_cases [of env i s1] consider
      (key) "s2 = handle_key (wi_key i) s1"
    | (left) s0 where "same_frames s1 s0" "s2 = s0\<lparr>wl_ropt := refreshed_options s0, wl_quit := True\<rparr>"
    | (drawn) s0 where "same_frames s1 s0"
        "s2 = (let s1 = watch_frame_step env i s0 in if wl_thrown s1 then s1 else handle_key (wi_key i) s1)"
    unfolding s2 same_frames_def by metis
  then show ?case
  proof cases
    case key
    then show ?thesis using keep [OF step.IH, of s2] by (simp add: same_frames_def handle_key_keeps)
  next
    case left
    then show ?thesis using keep [OF keep [OF step.IH left(1)], of s2] by (simp add: same_frames_def)
  next
    case drawn
    have P0: "P s0" by (rule keep [OF step.IH drawn(1)])
    show ?thesis
    proof (cases "drawing env i s0")
      case None
      then show ?thesis using keep [OF P0, of s2] drawn(2) by (simp add: frame_step_thrown same_frames_def)
    next
      case (Some d)
      obtain out ropt' where "d = (out, ropt')" by (rule prod.exhaust)
      then have P1: "P (watch_frame_step env i s0)" using frame [OF P0] Some by simp
      then show ?thesis using keep [OF P1, of "handle_key (wi_key i) (watch_frame_step env i s0)"] drawn(2)
        by (simp add: same_frames_def handle_key_keeps Let_def)
    qed
  qed
qed

lemma incomplete_line_same:
  "op_quiet ops = op_quiet ops' \<Longrightarrow> op_timeout ops = op_timeout ops' \<Longrightarrow> op_stats ops = op_stats ops' \<Longrightarrow>
   incomplete_line ops snap = incomplete_line ops' snap"
  by (simp add: incomplete_line_def)

text \<open>
  C7. In every state that the loop of \<open>--watch\<close> reaches, whatever the clock, the keys and the snapshots did,
  the marks and ghosts are those of the frames that were drawn, in their order; every frame was written
  once; and only the first one still warns about an incomplete discovery.
\<close>

theorem watch_loop_state:
  assumes "watch_reaches env (watch_loop0 co ops now) s"
  shows "wl_ws s = fold (\<lambda>(ropt, snap). watch_frame ropt snap) (wl_drawn s) watch_state0 \<and>
    length (wl_out s) = length (wl_drawn s) \<and> (wl_first s \<longleftrightarrow> wl_drawn s = []) \<and>
    wl_err s = (if wl_drawn s = [] \<or> we_terminal env then [] else incomplete_line ops (snd (hd (wl_drawn s))))"
proof -
  have "wl_ws s = fold (\<lambda>(ropt, snap). watch_frame ropt snap) (wl_drawn s) watch_state0 \<and>
    length (wl_out s) = length (wl_drawn s) \<and> (wl_first s \<longleftrightarrow> wl_drawn s = []) \<and>
    wl_err s = (if wl_drawn s = [] \<or> we_terminal env then [] else incomplete_line ops (snd (hd (wl_drawn s)))) \<and>
    op_quiet (wl_ops s) = op_quiet ops \<and> op_timeout (wl_ops s) = op_timeout ops \<and> op_stats (wl_ops s) = op_stats ops"
    using assms
  proof (induction rule: reaches_induct)
    case start
    show ?case by (simp add: watch_loop0_def)
  next
    case (left s s')
    then show ?case by (simp add: same_frames_def)
  next
    case (frame s i out ropt')
    then show ?case using incomplete_line_same [of "wl_ops s" ops] by (simp add: frame_step_sel hd_append)
  qed
  then show ?thesis by simp
qed

subsection \<open>The output as a document\<close>

lemma cells_of_pair_changed:
  "csv_cells number (snap\<lparr>sn_has_changes := b, sn_changes := c\<rparr>) ropt t p = csv_cells number snap ropt t p"
  by (simp add: csv_cells_def host_label_def host_label_of_def Let_def)

lemma cells_of_changed:
  "pair_cells_of number ropt (snap\<lparr>sn_has_changes := b, sn_changes := c\<rparr>) = pair_cells_of number ropt snap"
  by (simp add: pair_cells_of_def cells_of_pair_changed [abs_def])

lemma cells_shown: "pair_cells_of number ropt (fst (watch_diff snap ropt' w)) = pair_cells_of number ropt snap"
  using watch_shown [of snap ropt' w] cells_of_changed by metis

definition csv_stream :: "watch_env \<Rightarrow> watch_loop \<Rightarrow> string list list" where
  "csv_stream env s = (if wl_drawn s = [] then [] else [csv_columns]) @
     concat (map (\<lambda>(ropt, snap). pair_cells_of (jt_number (we_json env)) ropt snap) (wl_drawn s))"

lemma csv_frames:
  assumes "watch_reaches env (watch_loop0 co ops now) s" "op_csv ops" "\<not> op_json ops"
  shows "op_csv (wl_ops s) \<and> \<not> op_json (wl_ops s) \<and> ro_csv_no_header (wl_ropt s) = (wl_drawn s \<noteq> []) \<and>
    concat (wl_out s) = concat (map csv_row (csv_stream env s))"
  using assms(1)
proof (induction rule: reaches_induct)
  case start
  show ?case using assms(2,3)
    by (simp add: watch_loop0_def initial_options_def view_options_def render_options0_def csv_stream_def)
next
  case (left s s')
  then show ?case by (auto simp: refreshed_options_def csv_stream_def same_frames_def)
next
  case (frame s i out ropt')
  let ?shown = "fst (watch_diff (wi_snapshot i (wl_ops s)) (refreshed_options s) (wl_ws s))"
  have "out = render_csv (jt_number (we_json env)) ?shown (refreshed_options s)" "ro_csv_no_header ropt'"
    using frame by (auto simp: drawing_def draw_def Let_def split: prod.splits)
  then show ?case
    using frame
    by (auto simp: frame_step_sel render_csv_rows cells_shown csv_stream_def refreshed_options_def)
qed

lemma csv_stream_nonempty: "list_all (\<lambda>cells. cells \<noteq> []) (csv_stream env s)"
  by (auto simp: csv_stream_def list_all_iff csv_columns_nonempty dest: pair_cells_nonempty)

text \<open>
  C30. \<open>--watch --csv\<close> writes one CSV document: read by RFC 4180 it is the header once, as soon as there is a
  frame, and then the pairs of every frame that was drawn, in their order.
\<close>

theorem watch_csv_stream:
  assumes "watch_reaches env (watch_loop0 co ops now) s" "op_csv ops" "\<not> op_json ops"
  shows "csv_records (concat (wl_out s)) = (if wl_drawn s = [] then [] else [csv_columns]) @
    concat (map (\<lambda>(ropt, snap). concat (map (\<lambda>t. map (csv_cells (jt_number (we_json env)) snap ropt t) (t_pairs t))
      (sn_topics snap))) (wl_drawn s))"
  using csv_frames [OF assms] records_of_rows [OF csv_stream_nonempty, of env s]
  by (simp add: csv_stream_def pair_cells_of_def)

lemma json_frames:
  assumes "watch_reaches env (watch_loop0 co ops now) s" "op_json ops" "op_watch ops"
  shows "op_json (wl_ops s) \<and> ro_compact (wl_ropt s) \<and> wl_ws s = marks_after (wl_drawn s) \<and>
    (\<exists>docs lines. wl_out s = map (\<lambda>l. l @ NL) lines \<and> map (jt_dump (we_json env) None) docs = map Some lines \<and>
      length docs = length (wl_drawn s) \<and>
      (\<forall>before ropt snap. wl_drawn s = before @ [(ropt, snap)] \<longrightarrow>
         last docs = snapshot_json (fst (watch_diff snap ropt (marks_after before))) ropt))"
  using assms(1)
proof (induction rule: reaches_induct)
  case start
  show ?case using assms(2,3) by (simp add: watch_loop0_def initial_options_def marks_after_def)
next
  case (left s s')
  then show ?case by (auto simp: refreshed_options_def same_frames_def)
next
  case (frame s i out ropt')
  then obtain docs lines where docs: "wl_out s = map (\<lambda>l. l @ NL) lines"
    "map (jt_dump (we_json env) None) docs = map Some lines" "length docs = length (wl_drawn s)" by blast
  let ?r = "refreshed_options s" and ?snap = "wi_snapshot i (wl_ops s)"
  let ?doc = "snapshot_json (fst (watch_diff ?snap ?r (marks_after (wl_drawn s)))) ?r"
  have compact: "ro_compact ?r" "op_json (wl_ops s)" "wl_ws s = marks_after (wl_drawn s)"
    using frame by (simp_all add: refreshed_options_def)
  then obtain l where l: "jt_dump (we_json env) None ?doc = Some l" "out = l @ NL" "ro_compact ropt'"
    using frame by (auto simp: drawing_def draw_def render_json_def NL_def Let_def split: prod.splits)
  have "wl_out (watch_frame_step env i s) = map (\<lambda>l. l @ NL) (lines @ [l]) \<and>
      map (jt_dump (we_json env) None) (docs @ [?doc]) = map Some (lines @ [l])"
    using docs l frame by (simp add: frame_step_sel)
  then show ?case
    using docs(3) compact l frame(2)
    by (auto simp: frame_step_sel marks_after_snoc intro!: exI [of _ "docs @ [?doc]"] exI [of _ "lines @ [l]"])
qed

lemma lines_of_line: "CHR 0x0A \<notin> set l \<Longrightarrow> lines_of acc (l @ CHR 0x0A # t) = (rev acc @ l) # lines_of [] t"
  by (induction l arbitrary: acc) auto

lemma lines_of_lines: "\<forall>l \<in> set ls. CHR 0x0A \<notin> set l \<Longrightarrow> lines_of [] (concat (map (\<lambda>l. l @ NL) ls)) = ls"
  by (induction ls) (simp_all add: lines_of_line NL_def)

definition one_line :: "string \<Rightarrow> bool" where
  "one_line l \<longleftrightarrow> CHR 0x0A \<notin> set l \<and> \<not> list_all (\<lambda>c. c \<in> {CHR '' '', CHR 0x09, CHR 0x0D}) l"

lemma document_lines_lines: "\<forall>l \<in> set ls. one_line l \<Longrightarrow> document_lines (concat (map (\<lambda>l. l @ NL) ls)) = ls"
  by (simp add: document_lines_def lines_of_lines one_line_def)

text \<open>
  C8. What \<open>--watch --json\<close> wrote is read back by \<open>transport_viz diff\<close> as its last frame, with the number of
  frames that were drawn: one, whose text is a document, or more, whose text is one only line by line. A
  document on one line has no line end in it.
\<close>

theorem watch_json_lines:
  assumes "watch_reaches env (watch_loop0 co ops now) s" and "op_json ops" and "op_watch ops"
    and "wl_drawn s = before @ [(ropt, snap)]"
    and "json_library L" and "document_ok (fst (watch_diff snap ropt (marks_after before)))"
    and "\<forall>j l. jt_dump (we_json env) None j = Some l \<longrightarrow> one_line l"
    and "jt_dump (we_json env) None (snapshot_json (fst (watch_diff snap ropt (marks_after before))) ropt) = Some l"
    and "parser l = Document (reread (snapshot_json (fst (watch_diff snap ropt (marks_after before))) ropt))"
    and "parser (l @ NL) = parser l"
    and "before \<noteq> [] \<longrightarrow> parser (concat (wl_out s)) = SyntaxError"
  shows "parse_json L dump parser (concat (wl_out s)) =
    Inr (kept_snapshot (fst (watch_diff snap ropt (marks_after before))), length (wl_drawn s))"
proof -
  let ?doc = "snapshot_json (fst (watch_diff snap ropt (marks_after before))) ropt"
  obtain docs lines where docs: "wl_out s = map (\<lambda>l. l @ NL) lines"
    "map (jt_dump (we_json env) None) docs = map Some lines" "length docs = length (wl_drawn s)" "last docs = ?doc"
    using json_frames [OF assms(1-3)] assms(4) by blast
  have ne: "docs \<noteq> []" using docs(3) assms(4) by auto
  have len: "length lines = length (wl_drawn s)" using docs(2,3) by (metis length_map)
  then have "lines \<noteq> []" using assms(4) by auto
  then have "Some (last lines) = Some l"
    using arg_cong [OF docs(2), of last] docs(4) ne assms(8) by (simp add: last_map)
  then have l: "last lines = l" by simp
  have "one_line x" if "x \<in> set lines" for x
  proof -
    have "Some x \<in> set (map (jt_dump (we_json env) None) docs)" unfolding docs(2) using that by simp
    then show ?thesis using assms(7) by auto
  qed
  then have "\<forall>x \<in> set lines. one_line x" by blast
  then have document: "document_lines (concat (wl_out s)) = lines" by (simp only: document_lines_lines docs(1))
  have "parse_text parser (concat (wl_out s)) = Inr (reread ?doc, length (wl_drawn s))"
  proof (cases "before = []")
    case True
    then have "lines = [l]" using l len assms(4) by (cases lines) auto
    then show ?thesis using docs(1) assms(4,9,10) True by (simp add: parse_text_def)
  next
    case False
    then have "2 \<le> length lines" using len assms(4) by (cases before) auto
    then show ?thesis using assms(9,11) False document l len by (simp add: parse_text_def Let_def)
  qed
  then show ?thesis
    by (simp add: parse_json_def json_library.snapshot_back [OF assms(5,6)])
qed

subsection \<open>Frames keep coming\<close>

lemma iteration_drawn: "length (wl_drawn s) \<le> length (wl_drawn (watch_iteration env i s))"
proof -
  let ?s0 = "s\<lparr>wl_force := False, wl_next := wi_drawing i + interval_ns (wl_ops s)\<rparr>"
  have "length (wl_drawn ?s0) \<le> length (wl_drawn (watch_frame_step env i ?s0))"
    by (cases "drawing env i ?s0") (auto simp: frame_step_thrown frame_step_sel)
  then show ?thesis by (simp add: watch_iteration_def handle_key_keeps Let_def)
qed

lemma run_drawn: "length (wl_drawn s) \<le> length (wl_drawn (watch_run env inputs s))"
proof (induction inputs arbitrary: s)
  case (Cons i inputs)
  then show ?case
    using le_trans [OF iteration_drawn [of s env i] Cons [of "watch_iteration env i s"]] by simp
qed simp

lemma run_quit: "wl_quit s \<Longrightarrow> watch_run env inputs s = s"
  by (cases inputs) simp_all

text \<open>A step that is thrown out of the loop ends it, and only a JSON document that cannot be written does it.\<close>

lemma iteration_json: "op_json (wl_ops (watch_iteration env i s)) = op_json (wl_ops s)"
proof -
  let ?s0 = "s\<lparr>wl_force := False, wl_next := wi_drawing i + interval_ns (wl_ops s)\<rparr>"
  have "op_json (wl_ops (watch_frame_step env i ?s0)) = op_json (wl_ops ?s0)"
    by (cases "drawing env i ?s0") (auto simp: frame_step_thrown frame_step_sel)
  then show ?thesis by (simp add: watch_iteration_def handle_key_keeps Let_def)
qed

lemma frame_thrown:
  assumes "\<not> wl_thrown s" "wl_thrown (watch_frame_step env i s)"
  shows "wl_quit (watch_frame_step env i s)" "op_json (wl_ops s) \<and> (\<exists>indent j. jt_dump (we_json env) indent j = None)"
proof -
  have none: "drawing env i s = None" using assms by (cases "drawing env i s") (auto simp: frame_step_sel)
  then show "wl_quit (watch_frame_step env i s)" by (simp add: frame_step_thrown)
  show "op_json (wl_ops s) \<and> (\<exists>indent j. jt_dump (we_json env) indent j = None)" by (rule drawing_none [OF none])
qed

lemma iteration_thrown:
  assumes "\<not> wl_thrown s" "wl_thrown (watch_iteration env i s)"
  shows "wl_quit (watch_iteration env i s) \<and> op_json (wl_ops s) \<and> (\<exists>indent j. jt_dump (we_json env) indent j = None)"
proof -
  let ?s0 = "s\<lparr>wl_force := False, wl_next := wi_drawing i + interval_ns (wl_ops s)\<rparr>"
  have "\<not> wl_thrown ?s0" "watch_iteration env i s = watch_frame_step env i ?s0" "wl_thrown (watch_frame_step env i ?s0)"
    using assms by (simp_all add: watch_iteration_def handle_key_keeps Let_def split: if_splits)
  then show ?thesis using frame_thrown [of ?s0 env i] by simp
qed

lemma run_thrown:
  "\<not> wl_thrown s \<Longrightarrow> wl_thrown (watch_run env inputs s) \<Longrightarrow>
   op_json (wl_ops s) \<and> (\<exists>indent j. jt_dump (we_json env) indent j = None)"
proof (induction inputs arbitrary: s)
  case (Cons i inputs)
  show ?case
  proof (cases "wi_ok i \<and> \<not> wl_quit s")
    case True
    then show ?thesis
      using Cons.IH [of "watch_iteration env i s"] Cons.prems iteration_thrown [of s env i] iteration_json [of env i s]
      by (cases "wl_thrown (watch_iteration env i s)") auto
  qed (use Cons.prems in auto)
qed simp

lemma due_draws:
  assumes "frame_due i s" "wi_ok_collected i" "\<not> wl_thrown s"
  shows "wl_thrown (watch_iteration env i s) \<or> length (wl_drawn (watch_iteration env i s)) = Suc (length (wl_drawn s))"
proof -
  let ?s0 = "s\<lparr>wl_force := False, wl_next := wi_drawing i + interval_ns (wl_ops s)\<rparr>"
  show ?thesis using assms
    by (cases "drawing env i ?s0") (auto simp: watch_iteration_def Let_def frame_step_thrown frame_step_sel handle_key_keeps)
qed


subsection \<open>The environment of a run\<close>

text \<open>
  C36. An observation is only started on a supported middleware, without Fast DDS statistics of its own, and
  with a timeout that is not negative; where \<open>ROS_DISCOVERY_SERVER\<close> names servers and the user says nothing
  else, every frame reports that the tool observes as a super client.
\<close>

theorem start_up_ready:
  "case start_up J co la argv of
     Finished _ \<Rightarrow> True
   | Started st \<Rightarrow>
       (la_rmw la = Some kSupportedRmw \<or> la_rmw la = Some kSupportedRmwDynamic) \<and>
       st_getenv st ''FASTDDS_STATISTICS'' = None \<and> \<not> d_lt (op_timeout (st_ops st)) (Fin 0) \<and>
       (observe_as_super_client (la_getenv la) \<longrightarrow>
          ds_observer_protocol (note_environment (su\<lparr>su_getenv := st_getenv st\<rparr>) d) = ''SUPER_CLIENT'')"
proof (cases "start_up J co la argv")
  case (Started st)
  then obtain ops where ops: "st = prepare la ops" and rmw: "\<exists>r. rmw_verdict (la_rmw la)
      (case la_getenv la ''RMW_IMPLEMENTATION'' of None \<Rightarrow> [] | Some r \<Rightarrow> r) (la_rmw_error la) = Inr r"
    by (auto simp: start_up_def split: outcome.splits if_splits sum.splits)
  have "la_rmw la = Some kSupportedRmw \<or> la_rmw la = Some kSupportedRmwDynamic"
    using rmw by (auto simp: rmw_verdict_def split: option.splits if_splits)
  moreover have "\<not> d_lt (op_timeout (default_timeout ops)) (Fin 0)" by (simp add: default_timeout_def)
  moreover have "env_is_true ''TRUE''" by code_simp
  ultimately show ?thesis
    by (auto simp: Started ops prepare_def set_env_def observe_as_super_client_def is_set_def
        note_environment_def given_env_def Let_def split: option.splits)
qed simp

subsection \<open>A run with two frames\<close>

lemma run_reaches: "watch_reaches env s0 s \<Longrightarrow> watch_reaches env s0 (watch_run env inputs s)"
  by (induction inputs arbitrary: s) (auto intro: watch_reaches.step watch_step.iterate)

lemma due_drawn:
  assumes "frame_due i s" "wi_ok_collected i" "wi_key i = None" and dumps: "\<forall>indent j. jt_dump (we_json env) indent j \<noteq> None"
  shows "wl_drawn (watch_iteration env i s) = wl_drawn s @ [(refreshed_options s, wi_snapshot i (wl_ops s))]"
    "wl_next (watch_iteration env i s) = wi_drawing i + interval_ns (wl_ops s)"
    "wl_paused (watch_iteration env i s) = wl_paused s" "wl_quit (watch_iteration env i s) = wl_quit s"
    "wl_ops (watch_iteration env i s) = wl_ops s"
proof -
  let ?s0 = "s\<lparr>wl_force := False, wl_next := wi_drawing i + interval_ns (wl_ops s)\<rparr>"
  obtain out ropt' where d: "drawing env i ?s0 = Some (out, ropt')"
    using drawing_none [of env i ?s0] dumps by (cases "drawing env i ?s0") auto
  note it = watch_iteration_def no_key Let_def frame_step_sel [OF d] refreshed_options_def
  show "wl_drawn (watch_iteration env i s) = wl_drawn s @ [(refreshed_options s, wi_snapshot i (wl_ops s))]"
    "wl_next (watch_iteration env i s) = wi_drawing i + interval_ns (wl_ops s)"
    "wl_paused (watch_iteration env i s) = wl_paused s" "wl_quit (watch_iteration env i s) = wl_quit s"
    "wl_ops (watch_iteration env i s) = wl_ops s"
    using assms(1-3) by (simp_all add: it)
qed

definition loop_env :: watch_env where
  "loop_env = \<lparr>we_json = sample_text, we_domain = 0, we_terminal = False, we_interval_text = ''2''\<rparr>"

definition loop_input :: "int \<Rightarrow> watch_input" where
  "loop_input now = \<lparr>wi_ok = True, wi_now = now, wi_drawing = now, wi_snapshot = (\<lambda>_. sample_document),
     wi_ok_collected = True, wi_size = (0, 0), wi_key = None\<rparr>"

definition sample_loop :: "options \<Rightarrow> watch_loop" where
  "sample_loop ops = watch_loop0 sample_console ops 0"

definition sample_run :: "options \<Rightarrow> watch_loop" where
  "sample_run ops = watch_run loop_env [loop_input 0, loop_input 3000000000] (sample_loop ops)"

lemma sample_dumps: "\<forall>indent j. jt_dump (we_json loop_env) indent j \<noteq> None"
  by (simp add: loop_env_def sample_text_def sample_dump_def)

lemma sample_run_reached: "watch_reaches loop_env (watch_loop0 sample_console ops 0) (sample_run ops)"
  unfolding sample_run_def sample_loop_def by (rule run_reaches) (rule watch_reaches.start)

lemma sample_drawn:
  assumes "op_interval ops = Fin 2"
  shows "\<exists>r r'. wl_drawn (sample_run ops) = [(r, sample_document), (r', sample_document)]"
proof -
  have interval: "interval_ns ops = 2000000000"
  proof -
    have "rnd 2000 = Fin 2000" using rnd_of_nat [of 2000] by simp
    then show ?thesis using assms by (simp add: interval_ns_def)
  qed
  define s1 where "s1 = watch_iteration loop_env (loop_input 0) (sample_loop ops)"
  have due: "frame_due (loop_input 0) (sample_loop ops)"
    by (simp add: frame_due_def sample_loop_def watch_loop0_def)
  have s1: "\<exists>r. wl_drawn s1 = [(r, sample_document)]" "wl_next s1 = 2000000000" "\<not> wl_paused s1" "\<not> wl_quit s1"
    unfolding s1_def using due_drawn [OF due, of loop_env] interval sample_dumps
    by (simp_all add: loop_input_def sample_loop_def watch_loop0_def)
  have "frame_due (loop_input 3000000000) s1" using s1 by (simp add: frame_due_def loop_input_def)
  from due_drawn(1) [OF this _ _ sample_dumps]
  have "wl_drawn (watch_iteration loop_env (loop_input 3000000000) s1) =
      wl_drawn s1 @ [(refreshed_options s1, sample_document)]" by (simp add: loop_input_def)
  moreover have "sample_run ops = watch_iteration loop_env (loop_input 3000000000) s1"
    using s1 by (simp add: sample_run_def s1_def loop_input_def sample_loop_def watch_loop0_def)
  ultimately show ?thesis using s1(1) by auto
qed

theorem watch_loop_state_witness:
  "length (wl_out (sample_run options0)) = 2 \<and> \<not> wl_first (sample_run options0) \<and> wl_err (sample_run options0) = []"
  using watch_loop_state [OF sample_run_reached, of options0] sample_drawn [of options0]
  by (auto simp: options0_def loop_env_def incomplete_line_def incomplete_discovery_warning_def sample_document_def
      snapshot0_def discovery_status0_def)

theorem watch_csv_stream_witness:
  "length (csv_records (concat (wl_out (sample_run (options0\<lparr>op_csv := True\<rparr>))))) = 3"
  using watch_csv_stream [OF sample_run_reached, of "options0\<lparr>op_csv := True\<rparr>"] sample_drawn [of "options0\<lparr>op_csv := True\<rparr>"]
  by (auto simp: options0_def sample_document_def)


lemma changed_document_ok:
  "document_ok (snap\<lparr>sn_has_changes := b, sn_changes := c\<rparr>) = document_ok snap"
  by (simp add: document_ok_def topic_ok_def [abs_def] topic_written_def [abs_def] measurement_finite_def [abs_def])

lemma shown_document_ok: "document_ok snap \<Longrightarrow> document_ok (fst (watch_diff snap ropt w))"
  using watch_shown [of snap ropt w] changed_document_ok by metis

theorem watch_json_lines_witness:
  "\<exists>parser snap. parse_json plain_lib sample_dump parser
     (concat (wl_out (sample_run (options0\<lparr>op_json := True, op_watch := True\<rparr>)))) = Inr (snap, 2)"
proof -
  let ?ops = "options0\<lparr>op_json := True, op_watch := True\<rparr>"
  obtain r r' where drawn: "wl_drawn (sample_run ?ops) = [(r, sample_document)] @ [(r', sample_document)]"
    using sample_drawn [of ?ops] by (auto simp: options0_def)
  let ?shown = "fst (watch_diff sample_document r' (marks_after [(r, sample_document)]))"
  let ?doc = "snapshot_json ?shown r'"
  define parser where "parser t = (if 2 \<le> length (filter ((=) CHR 0x0A) t) then SyntaxError else Document (reread ?doc))" for t
  have flags: "op_json ?ops" "op_watch ?ops" by simp_all
  have dumps: "jt_dump (we_json loop_env) = sample_dump" by (simp add: loop_env_def sample_text_def)
  have lines: "\<forall>j l. sample_dump None j = Some l \<longrightarrow> one_line l"
    by (simp add: one_line_def sample_dump_def sample_written_def split: option.split json.split list.split)
  have doc: "sample_dump None ?doc = Some ''pair''"
    using watch_shown [of sample_document r' "marks_after [(r, sample_document)]"]
    by (auto simp: sample_dump_def sample_written_def find_snapshot sample_document_def)
  obtain docs ls where "wl_out (sample_run ?ops) = map (\<lambda>l. l @ NL) ls" "length ls = 2"
    using json_frames [OF sample_run_reached flags] drawn by (metis length_map length_append_singleton list.size(3,4) One_nat_def Suc_1 append_Cons append_Nil)
  then have two: "parser (concat (wl_out (sample_run ?ops))) = SyntaxError"
    by (auto simp: parser_def NL_def numeral_2_eq_2 length_Suc_conv)
  have "parser ''pair'' = Document (reread ?doc)" "parser (''pair'' @ NL) = parser ''pair''" by (simp_all add: parser_def NL_def)
  then have "parse_json plain_lib sample_dump parser (concat (wl_out (sample_run ?ops))) =
      Inr (kept_snapshot ?shown, length (wl_drawn (sample_run ?ops)))"
    using watch_json_lines [OF sample_run_reached flags drawn plain.json_library_axioms
        shown_document_ok [OF sample_documents_ok(1)], of "''pair''" parser] lines two doc dumps by simp
  then show ?thesis using drawn by (auto simp: numeral_2_eq_2)
qed

definition sample_launch :: launch where
  "sample_launch = \<lparr>la_getenv = (\<lambda>v. if v = ''ROS_DISCOVERY_SERVER'' then Some ''host:11811'' else None),
     la_rmw = Some kSupportedRmw, la_rmw_error = [], la_regex_error = (\<lambda>_. None), la_has_statistics = True\<rparr>"

theorem start_up_ready_witness:
  "case start_up sample_text sample_console sample_launch [] of
     Finished _ \<Rightarrow> False
   | Started st \<Rightarrow> \<forall>su d. ds_observer_protocol (note_environment (su\<lparr>su_getenv := st_getenv st\<rparr>) d) = ''SUPER_CLIENT''"
proof -
  have "parse (\<lambda>_. None) [] = Parsed options0"
    by (simp add: parse_def check_options_def regex_check_def check_command_def given_of_def options0_def)
  then have "start_up sample_text sample_console sample_launch [] = Started (prepare sample_launch options0)"
    by (simp add: start_up_def sample_launch_def rmw_verdict_def options0_def)
  then show ?thesis
    using start_up_ready [where J = sample_text and co = sample_console and la = sample_launch and argv = "[]"]
    by (simp add: observe_as_super_client_def is_set_def sample_launch_def)
qed

end
