(* ===== verification/Usage_Props.thy ===== *)
theory Usage_Props
  imports Options_Props
begin

text \<open>The help names every option the parser accepts, but for the \<open>--ros-args\<close> it leaves to ROS.\<close>

definition known_flags :: "string list" where
  "known_flags = [''--domain'', ''--timeout'', ''--quiet'', ''--topic'', ''--node'', ''--interval'', ''--color'', ''--key'',
     ''--all'', ''-v'', ''--verbose'', ''--explain'', ''--locators'', ''--advise'', ''--json'', ''--csv'', ''--stats'',
     ''--watch'', ''--list-codes'', ''--changes-only'', ''-h'', ''--help'']"

text \<open>A line of the help begins with the option, or with its short form and the option.\<close>

definition names_flag :: "string \<Rightarrow> string \<Rightarrow> bool" where
  "names_flag f l \<longleftrightarrow> starts_with (drop 2 l) f \<or> starts_with (drop 6 l) f"

lemma known_flags_complete:
  "valued a \<noteq> None \<or> switched a \<noteq> None \<or> is_help a \<longleftrightarrow> a \<in> set known_flags"
  unfolding valued_def switched_def is_help_def known_flags_def by simp

definition help_index :: "nat list" where
  "help_index = [8, 9, 10, 17, 18, 48, 41, 58, 21, 24, 24, 25, 26, 29, 33, 34, 38, 43, 49, 62, 50, 50]"

lemma help_lines_of_options:
  "\<forall>x \<in> set (zip help_index known_flags). fst x < length usage_lines \<and> names_flag (snd x) (usage_lines ! fst x)"
  by code_simp

lemma help_names_options: "\<forall>f \<in> set known_flags. \<exists>l \<in> set usage_lines. names_flag f l"
proof
  fix f assume f: "f \<in> set known_flags"
  have "length help_index = length known_flags" by (simp add: help_index_def known_flags_def)
  then obtain n where "(n, f) \<in> set (zip help_index known_flags)"
    using in_set_impl_in_set_zip2 f by metis
  then show "\<exists>l \<in> set usage_lines. names_flag f l" using help_lines_of_options nth_mem by fastforce
qed

end
