(* ===== verification/Listeners_V2.thy ===== *)
theory Listeners_V2
  imports Observer
begin

text \<open>
  The discovery callbacks of \<open>src/discovery_observer.cpp\<close> as they are built with Fast DDS 2, and the
  small accessors of the observer. The callbacks of both versions do the same with the announcements
  both versions know, so that what is shown of the observer holds for either build.
\<close>

subsection \<open>Small conversions\<close>

definition to_participant_prefix :: "u8 list \<Rightarrow> participant_prefix" where
  "to_participant_prefix prefix = map (\<lambda>i. prefix ! i) [0 ..< 12]"

definition fill_locators :: "ip_locator \<Rightarrow> rtps_locator list \<Rightarrow> rtps_locator list \<Rightarrow> endpoint \<Rightarrow> endpoint" where
  "fill_locators ip us ms e =
     (let e = fold (\<lambda>l e. e\<lparr>unicast := unicast e @ [convert_locator ip l]\<rparr>) us e
      in fold (\<lambda>l e. e\<lparr>multicast := multicast e @ [convert_locator ip l]\<rparr>) ms e)"

definition last_event :: "discovery_observer \<Rightarrow> int" where
  "last_event ob = ob_last_event ob"

definition event_count :: "discovery_observer \<Rightarrow> nat" where
  "event_count ob = ob_event_count ob"

subsection \<open>The callbacks\<close>

datatype participant_status_v2 =
  DISCOVERED_PARTICIPANT | CHANGED_QOS_PARTICIPANT | REMOVED_PARTICIPANT | DROPPED_PARTICIPANT | OtherParticipant

datatype endpoint_status_v2 = DISCOVERED_ENDPOINT | CHANGED_QOS_ENDPOINT | REMOVED_ENDPOINT | OtherEndpoint

definition on_participant_discovery_v2 ::
  "ip_locator \<Rightarrow> int \<Rightarrow> participant_status_v2 \<Rightarrow> participant_proxy \<Rightarrow> discovery_observer \<Rightarrow> discovery_observer" where
  "on_participant_discovery_v2 ip now status info ob =
     (let prefix = to_participant_prefix (pp_prefix info)
      in touch now
           (case status of
              DISCOVERED_PARTICIPANT \<Rightarrow>
                ob\<lparr>ob_participants := om_put prefix (make_participant_data ip info) (ob_participants ob)\<rparr>
            | CHANGED_QOS_PARTICIPANT \<Rightarrow>
                ob\<lparr>ob_participants := om_put prefix (make_participant_data ip info) (ob_participants ob)\<rparr>
            | REMOVED_PARTICIPANT \<Rightarrow> ob\<lparr>ob_participants := om_del prefix (ob_participants ob)\<rparr>
            | DROPPED_PARTICIPANT \<Rightarrow> ob\<lparr>ob_participants := om_del prefix (ob_participants ob)\<rparr>
            | OtherParticipant \<Rightarrow> ob))"

definition on_subscriber_discovery ::
  "build \<Rightarrow> ip_locator \<Rightarrow> int \<Rightarrow> endpoint_status_v2 \<Rightarrow> endpoint_proxy \<Rightarrow> discovery_observer \<Rightarrow> discovery_observer" where
  "on_subscriber_discovery b ip now status info ob =
     (case status of
        DISCOVERED_ENDPOINT \<Rightarrow> upsert now (make_endpoint b ip info False) ob
      | CHANGED_QOS_ENDPOINT \<Rightarrow> upsert now (make_endpoint b ip info False) ob
      | REMOVED_ENDPOINT \<Rightarrow> erase now (guid_to_string (px_guid info)) ob
      | OtherEndpoint \<Rightarrow> ob)"

definition on_publisher_discovery ::
  "build \<Rightarrow> ip_locator \<Rightarrow> int \<Rightarrow> endpoint_status_v2 \<Rightarrow> endpoint_proxy \<Rightarrow> discovery_observer \<Rightarrow> discovery_observer" where
  "on_publisher_discovery b ip now status info ob =
     (case status of
        DISCOVERED_ENDPOINT \<Rightarrow> upsert now (make_endpoint b ip info True) ob
      | CHANGED_QOS_ENDPOINT \<Rightarrow> upsert now (make_endpoint b ip info True) ob
      | REMOVED_ENDPOINT \<Rightarrow> erase now (guid_to_string (px_guid info)) ob
      | OtherEndpoint \<Rightarrow> ob)"

datatype event_v2 =
    ParticipantV2 participant_status_v2 participant_proxy
  | SubscriberV2 endpoint_status_v2 endpoint_proxy
  | PublisherV2 endpoint_status_v2 endpoint_proxy

fun on_event_v2 :: "build \<Rightarrow> ip_locator \<Rightarrow> int \<times> event_v2 \<Rightarrow> discovery_observer \<Rightarrow> discovery_observer" where
  "on_event_v2 b ip (now, ParticipantV2 status info) ob = on_participant_discovery_v2 ip now status info ob"
| "on_event_v2 b ip (now, SubscriberV2 status info) ob = on_subscriber_discovery b ip now status info ob"
| "on_event_v2 b ip (now, PublisherV2 status info) ob = on_publisher_discovery b ip now status info ob"

subsection \<open>The same as with Fast DDS 3\<close>

fun participant_status_of :: "participant_status_v2 \<Rightarrow> discovery_status_kind" where
  "participant_status_of DISCOVERED_PARTICIPANT = Discovered"
| "participant_status_of CHANGED_QOS_PARTICIPANT = ChangedQos"
| "participant_status_of REMOVED_PARTICIPANT = Removed"
| "participant_status_of DROPPED_PARTICIPANT = Dropped"
| "participant_status_of OtherParticipant = OtherStatus"

fun endpoint_status_of :: "endpoint_status_v2 \<Rightarrow> discovery_status_kind" where
  "endpoint_status_of DISCOVERED_ENDPOINT = Discovered"
| "endpoint_status_of CHANGED_QOS_ENDPOINT = ChangedQos"
| "endpoint_status_of REMOVED_ENDPOINT = Removed"
| "endpoint_status_of OtherEndpoint = OtherStatus"

fun event_of_v2 :: "event_v2 \<Rightarrow> discovery_event" where
  "event_of_v2 (ParticipantV2 status info) = ParticipantEvent (participant_status_of status) info"
| "event_of_v2 (SubscriberV2 status info) = EndpointEvent False (endpoint_status_of status) info"
| "event_of_v2 (PublisherV2 status info) = EndpointEvent True (endpoint_status_of status) info"

fun prefix_complete :: "event_v2 \<Rightarrow> bool" where
  "prefix_complete (ParticipantV2 status info) = (length (pp_prefix info) = 12)"
| "prefix_complete e = True"

lemma to_participant_prefix_id: "length p = 12 \<Longrightarrow> to_participant_prefix p = p"
  by (metis map_nth to_participant_prefix_def)

lemma fold_unicast:
  "fold (\<lambda>l e. e\<lparr>unicast := unicast e @ [f l]\<rparr>) us e = e\<lparr>unicast := unicast e @ map f us\<rparr>"
  by (induction us arbitrary: e) simp_all

lemma fold_multicast:
  "fold (\<lambda>l e. e\<lparr>multicast := multicast e @ [f l]\<rparr>) ms e = e\<lparr>multicast := multicast e @ map f ms\<rparr>"
  by (induction ms arbitrary: e) simp_all

lemma fill_locators_fresh:
  "fill_locators ip us ms e = e\<lparr>unicast := unicast e @ map (convert_locator ip) us,
     multicast := multicast e @ map (convert_locator ip) ms\<rparr>"
  by (simp add: fill_locators_def fold_unicast fold_multicast)

lemma on_event_v2_same:
  assumes "\<not> fastdds3 b" "prefix_complete e"
  shows "on_event_v2 b ip (now, e) ob = on_event b ip (now, event_of_v2 e) ob"
proof (cases e)
  case (ParticipantV2 status info)
  then show ?thesis using assms
    by (cases status) (simp_all add: on_participant_discovery_v2_def on_participant_discovery_def to_participant_prefix_id)
next
  case (SubscriberV2 status info)
  then show ?thesis by (cases status) (simp_all add: on_subscriber_discovery_def on_endpoint_discovery_def)
next
  case (PublisherV2 status info)
  then show ?thesis by (cases status) (simp_all add: on_publisher_discovery_def on_endpoint_discovery_def)
qed

text \<open>Any sequence of announcements leaves the observers of both builds in the same state.\<close>

theorem listeners_agree:
  assumes "\<not> fastdds3 b" "\<forall>x \<in> set events. prefix_complete (snd x)"
  shows "fold (on_event_v2 b ip) events ob = fold (on_event b ip) (map (\<lambda>x. (fst x, event_of_v2 (snd x))) events) ob"
  using assms(2)
proof (induction events arbitrary: ob)
  case (Cons x events)
  have "on_event_v2 b ip (fst x, snd x) ob = on_event b ip (fst x, event_of_v2 (snd x)) ob"
    using Cons.prems by (intro on_event_v2_same [OF assms(1)]) simp
  then show ?case using Cons.IH Cons.prems by simp
qed simp

end
