(* ===== verification/Entities.thy ===== *)
theory Entities
  imports Observer
begin

text \<open>
  The entities of Fast DDS the tool creates, uses and deletes: the constructors and destructors of
  \<open>DiscoveryObserver\<close> (\<open>src/discovery_observer.cpp\<close>), \<open>RosDiscoveryInfoObserver\<close>
  (\<open>src/ros_discovery_info_observer.cpp\<close>) and \<open>StatsObserver\<close> (\<open>src/stats_observer.cpp\<close>), and the block
  of \<open>main\<close> that holds the three objects.

  Fast DDS is a parameter: for every call it decides, knowing all calls before, whether an entity is
  created. A run is the log of its calls, the latest first, and an entity is named by the position of
  the call that created it. Which calls Fast DDS allows on which entities is \<open>permitted\<close>: what is used
  has been created and not deleted, what is deleted holds nothing anymore, and no reader is deleted
  while the drain thread may take from it.
\<close>

subsection \<open>Calls\<close>

datatype entity = Made nat | Found string \<comment> \<open>\<open>Found\<close>: a topic Fast DDS made itself\<close>

datatype history_kind = KeepLast | KeepAll

datatype memory_policy = Preallocated | PreallocatedWithRealloc | OtherMemoryPolicy

record reader_qos =
  rq_reliability :: reliability_kind
  rq_durability :: durability_kind
  rq_history :: history_kind
  rq_depth :: int
  rq_max_samples :: int
  rq_max_instances :: int
  rq_max_samples_per_instance :: int
  rq_allocated_samples :: int
  rq_memory :: memory_policy
  rq_data_sharing_off :: bool
  rq_unicast :: "rtps_locator list"

datatype transport_descriptor = ShmDescriptor | Udpv4Descriptor | OtherDescriptor nat

record participant_qos =
  pq_name :: string
  pq_user_transports :: "transport_descriptor list"
  pq_use_builtin_transports :: bool

datatype dds_call =
    CreateParticipant int participant_qos
  | CreateSubscriber entity
  | RegisterType entity string
  | LookupTopic entity string
  | CreateTopic entity string string
  | CreateReader entity entity reader_qos bool \<comment> \<open>of a subscriber and a topic, with a listener\<close>
  | ListeningLocators entity
  | TakeSamples entity
  | DeleteReader entity entity
  | DeleteTopic entity entity
  | DeleteSubscriber entity entity
  | DeleteParticipant entity
  | StartDrain
  | JoinDrain

type_synonym dds_log = "(dds_call \<times> entity option) list"

datatype stats_topic =
    RtpsSent | HistoryLatency | PhysicalData | DataCount | RtpsLost
  | ResentDatas | HeartbeatCount | GapCount | AcknackCount | NackfragCount

record fast_dds =
  fd_creates :: "dds_log \<Rightarrow> dds_call \<Rightarrow> bool"
  fd_lookup :: "dds_log \<Rightarrow> string \<Rightarrow> bool option" \<comment> \<open>\<open>lookup_topicdescription\<close>: null, or whether it is a \<open>Topic\<close>\<close>
  fd_listening :: "dds_log \<Rightarrow> entity \<Rightarrow> rtps_locator list option"
  fd_default_participant :: participant_qos
  fd_participant_qos :: "dds_log \<Rightarrow> entity \<Rightarrow> participant_qos"
  fd_default_reader :: reader_qos
  fd_stats_name :: "stats_topic \<Rightarrow> string"
  fd_stats_type :: "stats_topic \<Rightarrow> string"

definition create :: "fast_dds \<Rightarrow> dds_call \<Rightarrow> dds_log \<Rightarrow> entity option \<times> dds_log" where
  "create fd c lg =
     (let e = (if fd_creates fd lg c then Some (Made (length lg)) else None) in (e, (c, e) # lg))"

definition tell :: "dds_call \<Rightarrow> dds_log \<Rightarrow> dds_log" where
  "tell c lg = (c, None) # lg"

subsection \<open>What is alive\<close>

fun deleted :: "dds_call \<Rightarrow> entity option" where
  "deleted (DeleteReader s r) = Some r"
| "deleted (DeleteTopic p t) = Some t"
| "deleted (DeleteSubscriber p s) = Some s"
| "deleted (DeleteParticipant p) = Some p"
| "deleted c = None"

definition without :: "entity set \<Rightarrow> (entity \<times> dds_call) list \<Rightarrow> (entity \<times> dds_call) list" where
  "without es live = filter (\<lambda>x. fst x \<notin> es) live"

text \<open>The entities that were created and not deleted yet, each with the call that created it.\<close>

fun alive :: "dds_log \<Rightarrow> (entity \<times> dds_call) list" where
  "alive [] = []"
| "alive ((c, Some e) # lg) = (e, c) # alive lg"
| "alive ((c, None) # lg) = (case deleted c of None \<Rightarrow> alive lg | Some e \<Rightarrow> without {e} (alive lg))"

fun draining :: "dds_log \<Rightarrow> bool" where
  "draining [] = False"
| "draining ((c, a) # lg) = (c = StartDrain \<or> (c \<noteq> JoinDrain \<and> draining lg))"

fun owner :: "dds_call \<Rightarrow> entity option" where
  "owner (CreateSubscriber p) = Some p"
| "owner (CreateTopic p n ty) = Some p"
| "owner (CreateReader s t q l) = Some s"
| "owner c = None"

fun reads :: "dds_call \<Rightarrow> entity option" where
  "reads (CreateReader s t q l) = Some t"
| "reads c = None"

fun is_participant :: "dds_call \<Rightarrow> bool" where
  "is_participant (CreateParticipant d q) = True"
| "is_participant c = False"

fun is_topic :: "dds_call \<Rightarrow> bool" where
  "is_topic (CreateTopic p n ty) = True"
| "is_topic c = False"

fun is_subscriber :: "dds_call \<Rightarrow> bool" where
  "is_subscriber (CreateSubscriber p) = True"
| "is_subscriber c = False"

definition lives :: "(entity \<times> dds_call) list \<Rightarrow> entity \<Rightarrow> (dds_call \<Rightarrow> bool) \<Rightarrow> bool" where
  "lives live e is \<longleftrightarrow> (\<exists>x \<in> set live. fst x = e \<and> is (snd x))"

definition holds :: "(entity \<times> dds_call) list \<Rightarrow> entity \<Rightarrow> bool" where
  "holds live e \<longleftrightarrow> (\<exists>x \<in> set live. owner (snd x) = Some e \<or> reads (snd x) = Some e)"

fun permitted :: "(entity \<times> dds_call) list \<Rightarrow> bool \<Rightarrow> dds_call \<Rightarrow> bool" where
  "permitted live run (CreateParticipant d q) = True"
| "permitted live run (CreateSubscriber p) = lives live p is_participant"
| "permitted live run (RegisterType p ty) = lives live p is_participant"
| "permitted live run (LookupTopic p n) = lives live p is_participant"
| "permitted live run (CreateTopic p n ty) = lives live p is_participant"
| "permitted live run (CreateReader s t q l) =
     (lives live s is_subscriber \<and>
      (case t of Made n \<Rightarrow> lives live t is_topic | Found n \<Rightarrow> True))"
| "permitted live run (ListeningLocators r) = lives live r (\<lambda>c. reads c \<noteq> None)"
| "permitted live run (TakeSamples r) = lives live r (\<lambda>c. reads c \<noteq> None)"
| "permitted live run (DeleteReader s r) = (lives live r (\<lambda>c. reads c \<noteq> None \<and> owner c = Some s) \<and> \<not> run)"
| "permitted live run (DeleteTopic p t) =
     (lives live t (\<lambda>c. is_topic c \<and> owner c = Some p) \<and> \<not> holds live t)"
| "permitted live run (DeleteSubscriber p s) = (lives live s (\<lambda>c. c = CreateSubscriber p) \<and> \<not> holds live s)"
| "permitted live run (DeleteParticipant p) = (lives live p is_participant \<and> \<not> holds live p)"
| "permitted live run StartDrain = (\<not> run)"
| "permitted live run JoinDrain = run"

fun creates :: "dds_call \<Rightarrow> bool" where
  "creates (CreateParticipant d q) = True"
| "creates (CreateSubscriber p) = True"
| "creates (CreateTopic p n ty) = True"
| "creates (CreateReader s t q l) = True"
| "creates c = False"

text \<open>A log is legal when every call was permitted and every entity was new.\<close>

fun legal :: "dds_log \<Rightarrow> bool" where
  "legal [] = True"
| "legal ((c, a) # lg) =
     (legal lg \<and> permitted (alive lg) (draining lg) c \<and>
      (\<forall>e \<in> set_option a. creates c \<and> e = Made (length lg)))"

subsection \<open>The participant of the observation\<close>

text \<open>\<open>DiscoveryObserver\<close>; a message is the text of the exception a constructor throws.\<close>

definition discovery_construct :: "fast_dds \<Rightarrow> int \<Rightarrow> dds_log \<Rightarrow> (string + entity) \<times> dds_log" where
  "discovery_construct fd domain lg =
     (let q = (fd_default_participant fd)\<lparr>pq_name := ''fastdds_transport_viz''\<rparr>
      in case create fd (CreateParticipant domain q) lg of
           (None, lg) \<Rightarrow> (Inl ''failed to create Fast DDS DomainParticipant'', lg)
         | (Some p, lg) \<Rightarrow> (Inr p, lg))"

definition discovery_destroy :: "entity \<Rightarrow> dds_log \<Rightarrow> dds_log" where
  "discovery_destroy p lg = tell (DeleteParticipant p) lg"

text \<open>The probe reader, deleted again as soon as it told its locators.\<close>

definition probe_locators ::
  "fast_dds \<Rightarrow> ip_locator \<Rightarrow> entity \<Rightarrow> entity \<Rightarrow> reader_qos \<Rightarrow> dds_log \<Rightarrow> rtps_locator list \<times> dds_log" where
  "probe_locators fd ip s t q lg =
     (case create fd (CreateReader s t q False) lg of
        (None, lg) \<Rightarrow> (probe_non_shm_unicast_locators ip None, lg)
      | (Some r, lg) \<Rightarrow>
          (let lg = tell (ListeningLocators r) lg
           in (probe_non_shm_unicast_locators ip (Some (fd_listening fd lg r)), tell (DeleteReader s r) lg)))"

definition announce :: "rtps_locator list \<Rightarrow> reader_qos \<Rightarrow> reader_qos" where
  "announce ls q = (if ls \<noteq> [] then q\<lparr>rq_unicast := ls\<rparr> else q)"

subsection \<open>The names of the nodes\<close>

record names_observer =
  na_participant :: entity
  na_owned :: "entity option"
  na_subscriber :: "entity option"
  na_topic :: "entity option"
  na_reader :: "entity option"

definition kTopicName :: string where
  "kTopicName = ''ros_discovery_info''"

definition kTypeName :: string where
  "kTypeName = ''rmw_dds_common::msg::dds_::ParticipantEntitiesInfo_''"

definition qos_without_shm :: "participant_qos \<Rightarrow> participant_qos" where
  "qos_without_shm q =
     (let user = filter (\<lambda>t. t \<noteq> ShmDescriptor) (pq_user_transports q)
      in q\<lparr>pq_name := ''fastdds_transport_viz_names'',
           pq_user_transports := (if pq_use_builtin_transports q then user @ [Udpv4Descriptor] else user),
           pq_use_builtin_transports := False\<rparr>)"

definition create_participant_without_shm ::
  "fast_dds \<Rightarrow> int \<Rightarrow> entity \<Rightarrow> dds_log \<Rightarrow> entity option \<times> dds_log" where
  "create_participant_without_shm fd domain like lg =
     (let q = qos_without_shm (fd_participant_qos fd lg like)
      in if pq_user_transports q = [] then (None, lg) else create fd (CreateParticipant domain q) lg)"

definition tell_if :: "dds_call option \<Rightarrow> dds_log \<Rightarrow> dds_log" where
  "tell_if c lg = (case c of None \<Rightarrow> lg | Some c \<Rightarrow> tell c lg)"

definition names_release :: "names_observer \<Rightarrow> dds_log \<Rightarrow> names_observer \<times> dds_log" where
  "names_release na lg =
     (let p = na_participant na;
          lg = tell_if (map_option (DeleteReader (the (na_subscriber na))) (na_reader na)) lg;
          lg = tell_if (map_option (DeleteSubscriber p) (na_subscriber na)) lg;
          lg = tell_if (map_option (DeleteTopic p) (na_topic na)) lg;
          lg = tell_if (map_option DeleteParticipant (na_owned na)) lg
      in (na\<lparr>na_reader := None, na_subscriber := None, na_topic := None, na_owned := None\<rparr>, lg))"

definition names_reader_qos :: "reader_qos \<Rightarrow> reader_qos" where
  "names_reader_qos q = q\<lparr>rq_reliability := Reliable, rq_durability := TransientLocal,
     rq_history := KeepAll, rq_memory := PreallocatedWithRealloc, rq_data_sharing_off := True\<rparr>"

text \<open>The part of the constructor that is the same with an own participant and without.\<close>

definition names_setup ::
  "fast_dds \<Rightarrow> ip_locator \<Rightarrow> entity \<Rightarrow> entity option \<Rightarrow> dds_log \<Rightarrow> (string + names_observer) \<times> dds_log" where
  "names_setup fd ip p owned lg =
     (let (t, lg) = create fd (CreateTopic p kTopicName kTypeName) (tell (RegisterType p kTypeName) lg);
          (s, lg) = create fd (CreateSubscriber p) lg;
          na = \<lparr>na_participant = p, na_owned = owned, na_subscriber = s, na_topic = t, na_reader = None\<rparr>
      in case (t, s) of
           (Some t, Some s) \<Rightarrow>
             (let q = names_reader_qos (fd_default_reader fd);
                  (locators, lg) = probe_locators fd ip s t q lg
              in case create fd (CreateReader s t (announce locators q) False) lg of
                   (None, lg) \<Rightarrow>
                     (Inl ''failed to create the ros_discovery_info reader'', snd (names_release na lg))
                 | (Some r, lg) \<Rightarrow> (Inr (na\<lparr>na_reader := Some r\<rparr>), lg))
         | _ \<Rightarrow> (Inl ''failed to create the ros_discovery_info topic'', snd (names_release na lg)))"

definition names_construct ::
  "fast_dds \<Rightarrow> build \<Rightarrow> ip_locator \<Rightarrow> int \<Rightarrow> entity \<Rightarrow> dds_log \<Rightarrow> (string + names_observer) \<times> dds_log" where
  "names_construct fd b ip domain p lg =
     (if same_host_filtered b
      then (case create_participant_without_shm fd domain p lg of
              (None, lg) \<Rightarrow> (Inl ''failed to create a participant without SHM for ros_discovery_info'', lg)
            | (Some own, lg) \<Rightarrow> names_setup fd ip own (Some own) lg)
      else names_setup fd ip p None lg)"

subsection \<open>The statistics readers\<close>

record stats_reader =
  sr_topic :: "entity option"
  sr_owns_topic :: bool
  sr_reader :: "entity option"

record stats_entities =
  se_participant :: entity
  se_subscriber :: entity \<comment> \<open>not null: the constructor throws otherwise\<close>
  se_locators :: "rtps_locator list"
  se_probed :: bool
  se_event_reader :: "entity option"
  se_readers :: "(stats_topic \<times> stats_reader) list" \<comment> \<open>the readers that were created\<close>

datatype reader_kind = Identity | Counter | Event

definition kStatsLatencyHistoryDepth :: int where
  "kStatsLatencyHistoryDepth = 100"

definition reader_kind_of :: "stats_topic \<Rightarrow> reader_kind" where
  "reader_kind_of m = (case m of HistoryLatency \<Rightarrow> Event | PhysicalData \<Rightarrow> Identity | _ \<Rightarrow> Counter)"

text \<open>The order in which the constructor creates the readers and the destructor deletes them.\<close>

definition stats_topics :: "stats_topic list" where
  "stats_topics = [RtpsSent, HistoryLatency, PhysicalData, DataCount, RtpsLost, ResentDatas,
     HeartbeatCount, GapCount, AcknackCount, NackfragCount]"

definition stats_reader_qos :: "reader_qos \<Rightarrow> reader_kind \<Rightarrow> reader_qos" where
  "stats_reader_qos base kind =
     (let q = base\<lparr>rq_reliability := Reliable, rq_durability := TransientLocal,
                      rq_history := KeepLast, rq_depth := 1\<rparr>;
          q = (if kind = Event
               then q\<lparr>rq_depth := kStatsLatencyHistoryDepth, rq_reliability := BestEffortReliability,
                      rq_durability := Volatile\<rparr>
               else q)
      in q\<lparr>rq_max_samples := 0, rq_max_instances := 0, rq_max_samples_per_instance := rq_depth q,
           rq_allocated_samples := 100, rq_memory := PreallocatedWithRealloc\<rparr>)"

definition stats_topic_entity ::
  "fast_dds \<Rightarrow> entity \<Rightarrow> stats_topic \<Rightarrow> dds_log \<Rightarrow> (entity option \<times> bool) \<times> dds_log" where
  "stats_topic_entity fd p m lg =
     (let name = fd_stats_name fd m; found = fd_lookup fd lg name; lg = tell (LookupTopic p name) lg
      in case found of
           Some is_a_topic \<Rightarrow> ((if is_a_topic then Some (Found name) else None, False), lg)
         | None \<Rightarrow> (let (t, lg) = create fd (CreateTopic p name (fd_stats_type fd m)) lg in ((t, True), lg)))"

definition probe_once ::
  "fast_dds \<Rightarrow> ip_locator \<Rightarrow> entity \<Rightarrow> reader_qos \<Rightarrow> stats_entities \<times> dds_log \<Rightarrow> stats_entities \<times> dds_log" where
  "probe_once fd ip t q st =
     (if se_probed (fst st) then st
      else (let (ls, lg) = probe_locators fd ip (se_subscriber (fst st)) t q (snd st)
            in ((fst st)\<lparr>se_probed := True, se_locators := ls\<rparr>, lg)))"

definition create_stats_reader ::
  "fast_dds \<Rightarrow> ip_locator \<Rightarrow> stats_topic \<Rightarrow> stats_entities \<times> dds_log \<Rightarrow>
   (string + stats_reader) \<times> stats_entities \<times> dds_log" where
  "create_stats_reader fd ip m st =
     (let p = se_participant (fst st); name = fd_stats_name fd m;
          lg = tell (RegisterType p (fd_stats_type fd m)) (snd st);
          ((topic, owns), lg) = stats_topic_entity fd p m lg
      in case topic of
           None \<Rightarrow> (Inl (''failed to create statistics topic '' @ name), fst st, lg)
         | Some t \<Rightarrow>
             (let q = stats_reader_qos (fd_default_reader fd) (reader_kind_of m);
                  (st, lg) = probe_once fd ip t q (fst st, lg)
              in case create fd (CreateReader (se_subscriber st) t (announce (se_locators st) q) True) lg of
                   (None, lg) \<Rightarrow> (Inl (''failed to create statistics reader for '' @ name), st, lg)
                 | (Some r, lg) \<Rightarrow>
                     (Inr \<lparr>sr_topic = Some t, sr_owns_topic = owns, sr_reader = Some r\<rparr>, st, lg)))"

definition keep_reader :: "stats_topic \<Rightarrow> stats_reader \<Rightarrow> stats_entities \<Rightarrow> stats_entities" where
  "keep_reader m r st =
     st\<lparr>se_readers := se_readers st @ [(m, r)],
        se_event_reader := (if m = HistoryLatency then sr_reader r else se_event_reader st)\<rparr>"

fun create_stats_readers ::
  "fast_dds \<Rightarrow> ip_locator \<Rightarrow> stats_topic list \<Rightarrow> stats_entities \<times> dds_log \<Rightarrow>
   string option \<times> stats_entities \<times> dds_log" where
  "create_stats_readers fd ip [] st = (None, st)"
| "create_stats_readers fd ip (m # ms) st =
     (case create_stats_reader fd ip m st of
        (Inl e, st) \<Rightarrow> (Some e, st)
      | (Inr r, st, lg) \<Rightarrow> create_stats_readers fd ip ms (keep_reader m r st, lg))"

text \<open>When the constructor throws, what it created stays: the destructor of \<open>StatsObserver\<close> does not run.\<close>

definition stats_construct ::
  "fast_dds \<Rightarrow> ip_locator \<Rightarrow> entity \<Rightarrow> dds_log \<Rightarrow> (string + stats_entities) \<times> dds_log" where
  "stats_construct fd ip p lg =
     (case create fd (CreateSubscriber p) lg of
        (None, lg) \<Rightarrow> (Inl ''failed to create statistics subscriber'', lg)
      | (Some s, lg) \<Rightarrow>
          (case create_stats_readers fd ip stats_topics
                  (\<lparr>se_participant = p, se_subscriber = s, se_locators = [], se_probed = False,
                    se_event_reader = None, se_readers = []\<rparr>, lg) of
             (Some e, st, lg) \<Rightarrow> (Inl e, lg)
           | (None, st, lg) \<Rightarrow> (Inr st, tell StartDrain lg)))"

definition delete_stats_reader :: "entity \<Rightarrow> entity \<Rightarrow> stats_reader \<Rightarrow> dds_log \<Rightarrow> dds_log" where
  "delete_stats_reader p s r lg =
     (let lg = tell_if (map_option (DeleteReader s) (sr_reader r)) lg
      in if sr_owns_topic r then tell_if (map_option (DeleteTopic p) (sr_topic r)) lg else lg)"

definition stats_destroy :: "stats_entities \<Rightarrow> dds_log \<Rightarrow> dds_log" where
  "stats_destroy st lg =
     (let p = se_participant st; s = se_subscriber st
      in tell (DeleteSubscriber p s) (fold (delete_stats_reader p s) (map snd (se_readers st)) (tell JoinDrain lg)))"

subsection \<open>The block of \<open>main\<close>\<close>

text \<open>
  While the observation runs, the names are polled and the statistics are drained, by the drain thread
  or by the main thread, in any order. A drain takes from every reader.
\<close>

datatype activity = PollNames | DrainStats

definition take_samples :: "entity option \<Rightarrow> dds_log \<Rightarrow> dds_log" where
  "take_samples r lg = tell_if (map_option TakeSamples r) lg"

definition act :: "names_observer option \<Rightarrow> stats_entities option \<Rightarrow> activity \<Rightarrow> dds_log \<Rightarrow> dds_log" where
  "act names stats a lg =
     (case a of
        PollNames \<Rightarrow> (case names of None \<Rightarrow> lg | Some na \<Rightarrow> take_samples (na_reader na) lg)
      | DrainStats \<Rightarrow> (case stats of None \<Rightarrow> lg
          | Some st \<Rightarrow> fold take_samples (map (sr_reader \<circ> snd) (se_readers st)) lg))"

datatype observation_end = Observed "string list" | Aborted string

definition destroy_all ::
  "entity \<Rightarrow> names_observer option \<Rightarrow> stats_entities option \<Rightarrow> dds_log \<Rightarrow> dds_log" where
  "destroy_all p names stats lg =
     (let lg = (case stats of None \<Rightarrow> lg | Some st \<Rightarrow> stats_destroy st lg);
          lg = (case names of None \<Rightarrow> lg | Some na \<Rightarrow> snd (names_release na lg))
      in discovery_destroy p lg)"

definition construct_names ::
  "fast_dds \<Rightarrow> build \<Rightarrow> ip_locator \<Rightarrow> int \<Rightarrow> entity \<Rightarrow> dds_log \<Rightarrow>
   names_observer option \<times> string list \<times> dds_log" where
  "construct_names fd b ip domain p lg =
     (case names_construct fd b ip domain p lg of
        (Inl e, lg) \<Rightarrow> (None, [''warning: '' @ e @ ''; node names come from the ROS graph only''], lg)
      | (Inr na, lg) \<Rightarrow> (Some na, [], lg))"

definition observe ::
  "fast_dds \<Rightarrow> build \<Rightarrow> ip_locator \<Rightarrow> int \<Rightarrow> bool \<Rightarrow> activity list \<Rightarrow> dds_log \<Rightarrow> observation_end \<times> dds_log" where
  "observe fd b ip domain with_stats acts lg =
     (case discovery_construct fd domain lg of
        (Inl e, lg) \<Rightarrow> (Aborted e, lg)
      | (Inr p, lg) \<Rightarrow>
          (let (names, warnings, lg) = construct_names fd b ip domain p lg
           in if with_stats
              then (case stats_construct fd ip p lg of
                      (Inl e, lg) \<Rightarrow> (Aborted e, lg)
                    | (Inr st, lg) \<Rightarrow> (Observed warnings,
                        destroy_all p names (Some st) (fold (act names (Some st)) acts lg)))
              else (Observed warnings, destroy_all p names None (fold (act names None) acts lg))))"

end
