(* ===== verification/Entities_Props.thy ===== *)
theory Entities_Props
  imports Entities
begin

text \<open>
  What Fast DDS decides cannot make the tool use an entity that is gone or delete one that is still
  needed: every log is legal, and what a constructor made is deleted by its destructor, or by the
  constructor itself where it cleans up before it throws.
\<close>

subsection \<open>Logs\<close>

lemma made_new: "legal lg \<Longrightarrow> x \<in> set (alive lg) \<Longrightarrow> \<exists>n < length lg. fst x = Made n"
proof (induction lg arbitrary: x rule: alive.induct)
  case (2 c e lg)
  show ?case
  proof (cases "x = (e, c)")
    case False
    then show ?thesis using 2 less_SucI by fastforce
  qed (use 2 in auto)
next
  case (3 c lg)
  then have "\<exists>n < length lg. fst x = Made n" by (auto simp: without_def split: option.splits)
  then show ?case using less_SucI by auto
qed simp

lemma new_not_alive: "legal lg \<Longrightarrow> x \<in> set (alive lg) \<Longrightarrow> length lg \<le> n \<Longrightarrow> fst x \<noteq> Made n"
  using made_new by fastforce

lemma found_not_alive: "legal lg \<Longrightarrow> x \<in> set (alive lg) \<Longrightarrow> fst x \<noteq> Found n"
  using made_new by fastforce

lemma alive_distinct: "legal lg \<Longrightarrow> distinct (map fst (alive lg))"
proof (induction lg rule: alive.induct)
  case (2 c e lg)
  then show ?case using new_not_alive by fastforce
next
  case (3 c lg)
  then show ?case
    by (auto simp: without_def distinct_map inj_on_def split: option.splits)
qed simp

lemma without_none [simp]: "(\<And>x. x \<in> set L \<Longrightarrow> fst x \<notin> K) \<Longrightarrow> without K L = L"
  by (simp add: without_def)

lemma without_without [simp]: "without K (without K' L) = without (K \<union> K') L"
  by (auto simp: without_def intro: filter_cong)

lemma without_Nil [simp]: "without K [] = []"
  by (simp add: without_def)

lemma without_Cons: "without K (x # L) = (if fst x \<in> K then without K L else x # without K L)"
  by (simp add: without_def)

lemma in_without [simp]: "x \<in> set (without K L) \<longleftrightarrow> x \<in> set L \<and> fst x \<notin> K"
  by (auto simp: without_def)

lemma lives_Nil [simp]: "\<not> lives [] e P"
  by (simp add: lives_def)

lemma lives_Cons [simp]: "lives ((k, c) # L) e P \<longleftrightarrow> (e = k \<and> P c) \<or> lives L e P"
  by (auto simp: lives_def)

lemma lives_without [simp]: "lives (without K L) e P \<longleftrightarrow> e \<notin> K \<and> lives L e P"
  by (auto simp: lives_def)

lemma lives_mono: "lives L e P \<Longrightarrow> (\<And>c. P c \<Longrightarrow> Q c) \<Longrightarrow> lives L e Q"
  by (auto simp: lives_def)

lemma lives_key: "lives L e P \<Longrightarrow> e \<in> fst ` set L"
  by (auto simp: lives_def)

lemma holds_Nil [simp]: "\<not> holds [] e"
  by (simp add: holds_def)

lemma holds_Cons [simp]: "holds ((k, c) # L) e \<longleftrightarrow> owner c = Some e \<or> reads c = Some e \<or> holds L e"
  by (auto simp: holds_def)

lemma holds_without: "holds (without K L) e \<Longrightarrow> holds L e"
  by (auto simp: holds_def)

text \<open>
  A good list of entities: no entity twice, none that Fast DDS made itself, and what an entity needs is
  there too.
\<close>

definition readable :: "entity \<Rightarrow> (entity \<times> dds_call) list \<Rightarrow> bool" where
  "readable t L \<longleftrightarrow> (case t of Made n \<Rightarrow> lives L t is_topic | Found n \<Rightarrow> True)"

definition can_own :: "dds_call \<Rightarrow> bool" where
  "can_own c \<longleftrightarrow> is_participant c \<or> is_subscriber c"

definition needs_met :: "dds_call \<Rightarrow> (entity \<times> dds_call) list \<Rightarrow> bool" where
  "needs_met c L \<longleftrightarrow> (\<forall>e \<in> set_option (owner c). lives L e can_own) \<and> (\<forall>t \<in> set_option (reads c). readable t L)"

definition good :: "(entity \<times> dds_call) list \<Rightarrow> bool" where
  "good L \<longleftrightarrow> distinct (map fst L) \<and> (\<forall>x \<in> set L. (\<exists>n. fst x = Made n) \<and> needs_met (snd x) L)"

definition fresh :: "entity \<Rightarrow> (entity \<times> dds_call) list \<Rightarrow> bool" where
  "fresh e L \<longleftrightarrow> (\<exists>n. e = Made n) \<and> e \<notin> fst ` set L"

lemma readable_Cons: "readable t L \<Longrightarrow> readable t (x # L)"
  by (cases x) (auto simp: readable_def split: entity.splits)

lemma needs_met_Cons: "needs_met c L \<Longrightarrow> needs_met c (x # L)"
  by (cases x) (auto simp: needs_met_def intro: readable_Cons)

lemma fresh_not_held: "good L \<Longrightarrow> fresh e L \<Longrightarrow> \<not> holds L e"
  by (fastforce simp: good_def fresh_def holds_def needs_met_def readable_def dest: lives_key)

lemma good_Cons: "good L \<Longrightarrow> fresh e L \<Longrightarrow> needs_met c L \<Longrightarrow> good ((e, c) # L)"
  by (auto simp: good_def fresh_def intro: needs_met_Cons)

lemma good_unique: "good L \<Longrightarrow> lives L e P \<Longrightarrow> lives L e Q \<Longrightarrow> lives L e (\<lambda>c. P c \<and> Q c)"
  unfolding good_def lives_def by (metis eq_key_imp_eq_value prod.collapse)

lemma can_own_reads: "can_own c \<Longrightarrow> reads c = None \<and> \<not> is_topic c"
  by (cases c) (auto simp: can_own_def)

lemma is_topic_reads: "is_topic c \<Longrightarrow> reads c = None"
  by (cases c) auto

lemma good_without:
  assumes g: "good L" and K: "\<And>e. e \<in> K \<Longrightarrow> \<not> holds L e \<or> lives L e (\<lambda>c. reads c \<noteq> None)"
  shows "good (without K L)"
proof -
  have kept: "e \<notin> K" if "holds L e" "lives L e P" "\<And>c. P c \<Longrightarrow> reads c = None" for e P
    using K [of e] good_unique [OF g, of e P "\<lambda>c. reads c \<noteq> None"] that by (auto simp: lives_def)
  have "needs_met (snd x) (without K L)" if x: "x \<in> set L" for x
  proof -
    have h: "holds L e" if "e \<in> set_option (owner (snd x)) \<union> set_option (reads (snd x))" for e
      using x that by (auto simp: holds_def)
    have "needs_met (snd x) L" using g x by (simp add: good_def)
    then show ?thesis
      using h kept can_own_reads is_topic_reads
      by (fastforce simp: needs_met_def readable_def split: entity.splits)
  qed
  then show ?thesis using g by (auto simp: good_def distinct_map inj_on_def without_def)
qed

lemma topic_owns_nothing:
  assumes "good L" "lives L t is_topic" "x \<in> set L"
  shows "owner (snd x) \<noteq> Some t"
  using assms good_unique [OF assms(1,2), of can_own] can_own_reads
  by (auto simp: good_def needs_met_def lives_def)

lemma permitted_needs: "permitted L run c \<Longrightarrow> creates c \<Longrightarrow> needs_met c L"
  by (cases c) (auto simp: needs_met_def readable_def can_own_def elim: lives_mono)

lemma legal_good: "legal lg \<Longrightarrow> good (alive lg)"
proof (induction lg rule: alive.induct)
  case (2 c e lg)
  then have "fresh e (alive lg)" using new_not_alive [of lg _ "length lg"] by (force simp: fresh_def)
  then show ?case using 2 by (auto intro!: good_Cons permitted_needs)
next
  case (3 c lg)
  then show ?case
    by (cases c) (auto intro!: good_without intro: lives_mono split: option.splits)
qed (simp add: good_def)

text \<open>Where a run stands: the entities alive and whether the drain thread runs.\<close>

definition stands :: "dds_log \<Rightarrow> (entity \<times> dds_call) list \<Rightarrow> bool \<Rightarrow> bool" where
  "stands lg L run \<longleftrightarrow> legal lg \<and> alive lg = L \<and> draining lg = run"

lemma stands_good: "stands lg L run \<Longrightarrow> good L"
  using legal_good by (auto simp: stands_def)

lemma stands_fresh: "stands lg L run \<Longrightarrow> fresh (Made (length lg)) L"
  using new_not_alive [of lg _ "length lg"] by (force simp: stands_def fresh_def)

lemma stands_create:
  assumes "stands lg L run" "permitted L run c" "creates c" "create fd c lg = (a, lg')"
  obtains "a = None" "stands lg' L run"
  | e where "a = Some e" "fresh e L" "stands lg' ((e, c) # L) run"
proof (cases a)
  case None
  then have "stands lg' L run"
    using assms by (cases c) (auto simp: stands_def create_def Let_def split: if_splits)
  then show ?thesis using None that by blast
next
  case (Some e)
  then have "e = Made (length lg)" and "stands lg' ((e, c) # L) run"
    using assms by (cases c; auto simp: stands_def create_def Let_def split: if_splits)+
  then show ?thesis using Some stands_fresh [OF assms(1)] that by blast
qed

lemma stands_created:
  assumes "stands lg L run" "create fd c lg = (a, lg')" "permitted L run c" "creates c"
  shows "a = None \<Longrightarrow> stands lg' L run" and "a = Some e \<Longrightarrow> fresh e L \<and> stands lg' ((e, c) # L) run"
  by (rule stands_create [OF assms(1,3,4,2)]; simp)+

lemma stands_tell:
  assumes "stands lg L run" "permitted L run c" "deleted c = None" "c \<noteq> StartDrain" "c \<noteq> JoinDrain"
  shows "stands (tell c lg) L run"
  using assms by (auto simp: stands_def tell_def)

lemma stands_delete:
  assumes "stands lg L run" "permitted L run c" "deleted c = Some e"
  shows "stands (tell c lg) (without {e} L) run"
  using assms by (cases c) (auto simp: stands_def tell_def)

lemma stands_start: "stands lg L False \<Longrightarrow> stands (tell StartDrain lg) L True"
  and stands_join: "stands lg L True \<Longrightarrow> stands (tell JoinDrain lg) L False"
  by (auto simp: stands_def tell_def)

subsection \<open>Probing\<close>

definition no_shm :: "ip_locator \<Rightarrow> rtps_locator list \<Rightarrow> bool" where
  "no_shm ip ls \<longleftrightarrow> (\<forall>l \<in> set ls. rl_kind l \<noteq> KindSHM \<and> \<not> is_multicast ip l)"

lemma fresh_neq: "fresh e L \<Longrightarrow> x \<in> set L \<Longrightarrow> fst x \<noteq> e"
  unfolding fresh_def by (metis image_eqI)

lemma fresh_lives: "fresh e L \<Longrightarrow> lives L k P \<Longrightarrow> k \<noteq> e"
  unfolding fresh_def using lives_key by blast

lemma without_fresh [simp]: "fresh e L \<Longrightarrow> without {e} L = L"
  by (simp add: fresh_neq)

lemma fresh_Cons: "fresh e ((k, c) # L) \<longleftrightarrow> e \<noteq> k \<and> fresh e L"
  by (auto simp: fresh_def)

lemma probe_no_shm: "no_shm ip (probe_non_shm_unicast_locators ip probe)"
  by (auto simp: no_shm_def probe_non_shm_unicast_locators_def non_shm_unicast_locators_def split: option.splits)

lemma probe_locators_stands:
  assumes "stands lg L False" "lives L s is_subscriber" "readable t L"
    and "probe_locators fd ip s t q lg = (ls, lg')"
  shows "stands lg' L False" and "no_shm ip ls"
proof -
  obtain a lg1 where c: "create fd (CreateReader s t q False) lg = (a, lg1)" by fastforce
  have perm: "permitted L False (CreateReader s t q False)" using assms(2,3) by (simp add: readable_def)
  have "creates (CreateReader s t q False)" by simp
  from stands_create [OF assms(1) perm this c] show "stands lg' L False"
  proof cases
    case 1
    then show ?thesis using assms(4) c by (simp add: probe_locators_def)
  next
    case (2 r)
    have "stands (tell (ListeningLocators r) lg1) ((r, CreateReader s t q False) # L) False"
      using 2 by (auto intro: stands_tell)
    from stands_delete [OF this, of "DeleteReader s r" r]
    show ?thesis using 2 assms(4) c by (auto simp: probe_locators_def Let_def without_Cons)
  qed
  show "no_shm ip ls"
    using assms(4) by (auto simp: probe_locators_def Let_def probe_no_shm split: option.splits prod.splits)
qed

subsection \<open>The names of the nodes\<close>

definition part :: "(entity \<Rightarrow> dds_call) \<Rightarrow> entity option \<Rightarrow> (entity \<times> dds_call) list" where
  "part c e = (case e of None \<Rightarrow> [] | Some e \<Rightarrow> [(e, c e)])"

definition topic_part :: "names_observer \<Rightarrow> (entity \<times> dds_call) list" where
  "topic_part na = part (\<lambda>t. CreateTopic (na_participant na) kTopicName kTypeName) (na_topic na)"

definition subscriber_part :: "names_observer \<Rightarrow> (entity \<times> dds_call) list" where
  "subscriber_part na = part (\<lambda>s. CreateSubscriber (na_participant na)) (na_subscriber na)"

definition reader_part :: "reader_qos \<Rightarrow> names_observer \<Rightarrow> (entity \<times> dds_call) list" where
  "reader_part q na =
     part (\<lambda>r. CreateReader (the (na_subscriber na)) (the (na_topic na)) q False) (na_reader na)"

text \<open>The entities of an observer of the names above \<open>L\<close>, complete or not.\<close>

definition names_hold :: "names_observer \<Rightarrow> (entity \<times> dds_call) list \<Rightarrow> (entity \<times> dds_call) list \<Rightarrow> bool" where
  "names_hold na L L' \<longleftrightarrow>
     (\<exists>q. L' = reader_part q na @ subscriber_part na @ topic_part na @ L) \<and>
     (na_reader na \<noteq> None \<longrightarrow> na_subscriber na \<noteq> None \<and> na_topic na \<noteq> None) \<and>
     (\<forall>r \<in> set_option (na_reader na). fresh r (subscriber_part na @ topic_part na @ L)) \<and>
     (\<forall>s \<in> set_option (na_subscriber na). fresh s (topic_part na @ L)) \<and>
     (\<forall>t \<in> set_option (na_topic na). fresh t L)"

definition participant_ok :: "names_observer \<Rightarrow> (entity \<times> dds_call) list \<Rightarrow> bool" where
  "participant_ok na L \<longleftrightarrow> lives L (na_participant na) is_participant \<and>
     (\<forall>own \<in> set_option (na_owned na). own = na_participant na \<and> \<not> holds L own)"

lemma release_step:
  assumes "stands lg (part c x @ M) False"
    and "\<And>e. x = Some e \<Longrightarrow> fresh e M \<and> deleted (f e) = Some e \<and> permitted ((e, c e) # M) False (f e)"
  shows "stands (tell_if (map_option f x) lg) M False"
proof (cases x)
  case (Some e)
  then have "stands (tell (f e) lg) (without {e} ((e, c e) # M)) False"
    using assms by (auto simp: part_def intro: stands_delete)
  then show ?thesis using Some assms(2) by (simp add: tell_if_def without_Cons)
qed (use assms(1) in \<open>simp add: tell_if_def part_def\<close>)

lemma names_release_stands:
  assumes st: "stands lg L' False" and h: "names_hold na L L'" and g: "good L" and ok: "participant_ok na L"
  shows "stands (snd (names_release na lg)) (without (set_option (na_owned na)) L) False"
proof -
  let ?p = "na_participant na"
  obtain q where L': "L' = reader_part q na @ subscriber_part na @ topic_part na @ L"
    using h by (auto simp: names_hold_def)
  note hold = h [unfolded names_hold_def] and nh = fresh_not_held [OF g]
  have p: "lives L ?p is_participant" using ok by (simp add: participant_ok_def)
  let ?lg1 = "tell_if (map_option (DeleteReader (the (na_subscriber na))) (na_reader na)) lg"
  have "stands ?lg1 (subscriber_part na @ topic_part na @ L) False"
    by (rule release_step [OF st [unfolded L' reader_part_def]]) (use hold in auto)
  then have "stands (tell_if (map_option (DeleteSubscriber ?p) (na_subscriber na)) ?lg1) (topic_part na @ L) False"
    (is "stands ?lg2 _ _")
    unfolding subscriber_part_def
  proof (rule release_step, goal_cases)
    case (1 s)
    then have s: "fresh s (topic_part na @ L)" using hold by simp
    then have "fresh s L" by (auto simp: topic_part_def part_def fresh_Cons split: option.splits)
    have "\<not> holds (topic_part na @ L) s"
      using nh [of s] \<open>fresh s L\<close> fresh_lives [OF _ p] by (auto simp: topic_part_def part_def split: option.splits)
    then show ?case using s fresh_lives [OF \<open>fresh s L\<close> p] by simp
  qed
  then have "stands (tell_if (map_option (DeleteTopic ?p) (na_topic na)) ?lg2) L False"
    (is "stands ?lg3 _ _")
    unfolding topic_part_def
  proof (rule release_step, goal_cases)
    case (1 t)
    then have "fresh t L" using hold by simp
    then show ?case using nh [of t] fresh_lives [OF _ p] by simp
  qed
  moreover have "permitted L False (DeleteParticipant own)" if "na_owned na = Some own" for own
    using ok that by (auto simp: participant_ok_def)
  ultimately have "stands (tell_if (map_option DeleteParticipant (na_owned na)) ?lg3)
      (without (set_option (na_owned na)) L) False"
    by (cases "na_owned na") (auto simp: tell_if_def intro: stands_delete)
  then show ?thesis by (simp add: names_release_def Let_def)
qed

text \<open>What a constructor of names leaves: nothing when it throws, else what its release takes away.\<close>

definition names_at :: "names_observer \<Rightarrow> dds_log \<Rightarrow> (entity \<times> dds_call) list \<Rightarrow> (entity \<times> dds_call) list \<Rightarrow> bool" where
  "names_at na lg M L' \<longleftrightarrow> stands lg L' False \<and> names_hold na M L' \<and> participant_ok na M \<and> good M"

lemma names_setup_stands:
  assumes st: "stands lg L False" and ok: "participant_ok \<lparr>na_participant = p, na_owned = own,
      na_subscriber = None, na_topic = None, na_reader = None\<rparr> L"
    and run: "names_setup fd ip p own lg = (res, lg')"
  shows "case res of Inl e \<Rightarrow> stands lg' (without (set_option own) L) False
         | Inr na \<Rightarrow> (\<exists>L'. names_at na lg' L L') \<and> na_owned na = own"
proof -
  have p: "lives L p is_participant" using ok by (simp add: participant_ok_def)
  note g = stands_good [OF st]
  have st0: "stands (tell (RegisterType p kTypeName) lg) L False" by (rule stands_tell [OF st]) (use p in auto)
  obtain t lg1 where t: "create fd (CreateTopic p kTopicName kTypeName) (tell (RegisterType p kTypeName) lg) = (t, lg1)"
    by fastforce
  define na1 where "na1 = \<lparr>na_participant = p, na_owned = own, na_subscriber = None, na_topic = t, na_reader = None\<rparr>"
  have 1: "stands lg1 (topic_part na1 @ L) False \<and> (\<forall>t' \<in> set_option t. fresh t' L)"
    using p by (auto intro: stands_create [OF st0 _ _ t] simp: na1_def topic_part_def part_def)
  have "lives (topic_part na1 @ L) p is_participant" using p by (auto simp: topic_part_def part_def split: option.splits)
  then have perm: "permitted (topic_part na1 @ L) False (CreateSubscriber p)" by simp
  obtain s lg2 where s: "create fd (CreateSubscriber p) lg1 = (s, lg2)" by fastforce
  define na where "na = na1\<lparr>na_subscriber := s\<rparr>"
  have 2: "stands lg2 (subscriber_part na @ topic_part na @ L) False \<and>
      (\<forall>s' \<in> set_option s. fresh s' (topic_part na @ L))"
    using 1 by (auto intro: stands_create [OF conjunct1 [OF 1] perm _ s]
      simp: na_def na1_def topic_part_def subscriber_part_def part_def)
  let ?L2 = "subscriber_part na @ topic_part na @ L"
  have ok': "participant_ok na L" "na_owned na = own" using ok by (simp_all add: participant_ok_def na_def na1_def)
  have hold: "names_hold na L ?L2"
    using 1 2 by (auto simp: names_hold_def reader_part_def part_def na_def na1_def topic_part_def)
  have gone: "stands (snd (names_release na l)) (without (set_option own) L) False" if "stands l ?L2 False" for l
    using names_release_stands [OF that hold g ok'(1)] ok'(2) by simp
  show ?thesis
  proof (cases "t = None \<or> s = None")
    case True
    then have "res = Inl ''failed to create the ros_discovery_info topic'' \<and> lg' = snd (names_release na lg2)"
      using run t s by (cases t; cases s) (auto simp: names_setup_def na_def na1_def Let_def)
    then show ?thesis using gone 2 by simp
  next
    case False
    then obtain t' s' where ts: "t = Some t'" "s = Some s'" by auto
    define q where "q = names_reader_qos (fd_default_reader fd)"
    obtain ls lg3 where ls: "probe_locators fd ip s' t' q lg2 = (ls, lg3)" by fastforce
    have live: "lives ?L2 s' is_subscriber" "readable t' ?L2"
      using ts by (auto simp: subscriber_part_def topic_part_def part_def readable_def na_def na1_def split: entity.splits)
    have 3: "stands lg3 ?L2 False" using probe_locators_stands(1) [OF _ live ls] 2 by blast
    let ?c = "CreateReader s' t' (announce ls q) False"
    obtain r lg4 where r: "create fd ?c lg3 = (r, lg4)" by fastforce
    have perm: "permitted ?L2 False ?c" using live by (simp add: readable_def)
    have "creates ?c" by simp
    from stands_create [OF 3 perm this r] show ?thesis
    proof cases
      case 1
      then have "res = Inl ''failed to create the ros_discovery_info reader'' \<and> lg' = snd (names_release na lg4)"
        using run t s ts ls r by (auto simp: names_setup_def na_def na1_def q_def)
      then show ?thesis using gone 1 by simp
    next
      case (2 e)
      then have res: "res = Inr (na\<lparr>na_reader := Some e\<rparr>)" "lg' = lg4"
        using run t s ts ls r by (auto simp: names_setup_def na_def na1_def q_def)
      have "names_hold (na\<lparr>na_reader := Some e\<rparr>) L ((e, ?c) # ?L2)"
        using hold 2(2) ts by (auto simp: names_hold_def reader_part_def subscriber_part_def topic_part_def part_def na_def na1_def)
      then show ?thesis using 2(3) res ok' g by (auto simp: names_at_def participant_ok_def)
    qed
  qed
qed

lemma names_construct_stands:
  assumes st: "stands lg L False" and p: "lives L p is_participant"
    and run: "names_construct fd b ip domain p lg = (res, lg')"
  shows "case res of Inl e \<Rightarrow> stands lg' L False
         | Inr na \<Rightarrow> \<exists>M L'. names_at na lg' M L' \<and> without (set_option (na_owned na)) M = L"
proof (cases "same_host_filtered b")
  case False
  have "participant_ok \<lparr>na_participant = p, na_owned = None, na_subscriber = None, na_topic = None, na_reader = None\<rparr> L"
    using p by (simp add: participant_ok_def)
  from names_setup_stands [OF st this] run False show ?thesis
    by (fastforce simp: names_construct_def split: sum.splits)
next
  case True
  define q where "q = qos_without_shm (fd_participant_qos fd lg p)"
  obtain own lg1 where own: "create fd (CreateParticipant domain q) lg = (own, lg1)" by fastforce
  show ?thesis
  proof (cases "pq_user_transports q = [] \<or> own = None")
    case True
    have "stands lg1 L False" if "own = None" using stands_created(1) [OF st own] that by simp
    then show ?thesis using run True \<open>same_host_filtered b\<close> own st
      by (auto simp: names_construct_def create_participant_without_shm_def q_def Let_def split: if_splits)
  next
    case False
    then obtain e where e: "own = Some e" by auto
    have "fresh e L \<and> stands lg1 ((e, CreateParticipant domain q) # L) False"
      using stands_created(2) [OF st own] e by simp
    then have 1: "fresh e L" "stands lg1 ((e, CreateParticipant domain q) # L) False" by auto
    have "participant_ok \<lparr>na_participant = e, na_owned = Some e, na_subscriber = None, na_topic = None,
        na_reader = None\<rparr> ((e, CreateParticipant domain q) # L)"
      using fresh_not_held [OF stands_good [OF st] 1(1)] by (simp add: participant_ok_def)
    moreover have "names_setup fd ip e (Some e) lg1 = (res, lg')"
      using run False \<open>same_host_filtered b\<close> own e
      by (simp add: names_construct_def create_participant_without_shm_def q_def)
    ultimately show ?thesis
      using names_setup_stands [OF 1(2)] 1(1) by (fastforce simp: without_Cons split: sum.splits)
  qed
qed

subsection \<open>The statistics readers\<close>

definition reader_keys :: "stats_reader \<Rightarrow> entity set" where
  "reader_keys r = set_option (sr_reader r) \<union> (if sr_owns_topic r then set_option (sr_topic r) else {})"

definition all_keys :: "stats_reader list \<Rightarrow> entity set" where
  "all_keys rs = (\<Union>r \<in> set rs. reader_keys r)"

text \<open>A reader of the subscriber, alive with its topic; a topic of its own is read by it alone.\<close>

definition reader_alive :: "entity \<Rightarrow> entity \<Rightarrow> (entity \<times> dds_call) list \<Rightarrow> stats_reader \<Rightarrow> bool" where
  "reader_alive p s L r \<longleftrightarrow> (\<exists>rd t. sr_reader r = Some rd \<and> sr_topic r = Some t \<and>
     lives L rd (\<lambda>c. owner c = Some s \<and> reads c = Some t) \<and>
     (sr_owns_topic r \<longrightarrow> rd \<noteq> t \<and> lives L t (\<lambda>c. is_topic c \<and> owner c = Some p) \<and>
        (\<forall>x \<in> set L. reads (snd x) = Some t \<longrightarrow> fst x = rd)))"

fun apart :: "stats_reader list \<Rightarrow> bool" where
  "apart [] = True"
| "apart (r # rs) = (reader_keys r \<inter> all_keys rs = {} \<and> apart rs)"

text \<open>The statistics observer with its readers, above what was alive before it.\<close>

definition stats_hold ::
  "entity \<Rightarrow> entity \<Rightarrow> stats_reader list \<Rightarrow> (entity \<times> dds_call) list \<Rightarrow> (entity \<times> dds_call) list \<Rightarrow> bool" where
  "stats_hold p s rs base L \<longleftrightarrow>
     lives L s (\<lambda>c. c = CreateSubscriber p) \<and> s \<notin> all_keys rs \<and> (\<forall>r \<in> set rs. reader_alive p s L r) \<and> apart rs \<and>
     (\<forall>x \<in> set L. owner (snd x) = Some s \<longrightarrow> fst x \<in> all_keys rs) \<and> without (insert s (all_keys rs)) L = base"

lemma all_keys_simps [simp]: "all_keys [] = {}" "all_keys (r # rs) = reader_keys r \<union> all_keys rs"
  "all_keys (rs @ [r]) = reader_keys r \<union> all_keys rs"
  by (auto simp: all_keys_def)

lemma apart_snoc: "apart (rs @ [r]) \<longleftrightarrow> apart rs \<and> reader_keys r \<inter> all_keys rs = {}"
  by (induction rs) (auto simp: all_keys_def)

lemma reader_alive_without:
  "reader_alive p s L r \<Longrightarrow> reader_keys r \<inter> K = {} \<Longrightarrow> reader_alive p s (without K L) r"
  by (auto simp: reader_alive_def reader_keys_def)

lemma stats_hold_delete:
  assumes "stats_hold p s (r # rs) base L"
  shows "stats_hold p s rs base (without (reader_keys r) L)"
proof -
  have "reader_alive p s (without (reader_keys r) L) r'" if "r' \<in> set rs" for r'
    using assms that by (auto simp: stats_hold_def all_keys_def intro!: reader_alive_without)
  moreover have "insert s (all_keys (r # rs)) = insert s (all_keys rs) \<union> reader_keys r" by auto
  ultimately show ?thesis using assms by (auto simp: stats_hold_def)
qed

lemma delete_stats_reader_stands:
  assumes st: "stands lg L False" and h: "stats_hold p s (r # rs) base L"
  shows "stands (delete_stats_reader p s r lg) (without (reader_keys r) L) False"
proof -
  obtain rd t where r: "sr_reader r = Some rd" "sr_topic r = Some t"
    and l: "lives L rd (\<lambda>c. owner c = Some s \<and> reads c = Some t)"
    and own: "sr_owns_topic r \<Longrightarrow> rd \<noteq> t \<and> lives L t (\<lambda>c. is_topic c \<and> owner c = Some p) \<and>
        (\<forall>x \<in> set L. reads (snd x) = Some t \<longrightarrow> fst x = rd)"
    using h by (auto simp: stats_hold_def reader_alive_def)
  have 1: "stands (tell (DeleteReader s rd) lg) (without {rd} L) False"
    by (rule stands_delete [OF st]) (use l in \<open>auto elim: lives_mono\<close>)
  show ?thesis
  proof (cases "sr_owns_topic r")
    case True
    have "lives L t is_topic" using own True by (auto elim: lives_mono)
    then have "owner (snd x) \<noteq> Some t" if "x \<in> set L" for x
      using topic_owns_nothing [OF stands_good [OF st] _ that] by blast
    then have "\<not> holds (without {rd} L) t" using own True by (auto simp: holds_def)
    then have "stands (tell (DeleteTopic p t) (tell (DeleteReader s rd) lg)) (without {t} (without {rd} L)) False"
      using own True by (intro stands_delete [OF 1]) auto
    then show ?thesis
      using r True by (simp add: delete_stats_reader_def tell_if_def reader_keys_def insert_commute)
  next
    case False
    then show ?thesis using 1 r by (simp add: delete_stats_reader_def tell_if_def reader_keys_def)
  qed
qed

lemma subscriber_not_read:
  assumes "good L" "lives L s is_subscriber" "x \<in> set L"
  shows "reads (snd x) \<noteq> Some s"
proof
  assume r: "reads (snd x) = Some s"
  obtain n where "s = Made n" using assms(1,2) by (auto simp: good_def lives_def)
  then have "lives L s is_topic" using assms(1,3) r by (auto simp: good_def needs_met_def readable_def)
  from good_unique [OF assms(1,2) this] show False by (auto simp: lives_def elim: is_topic.elims)
qed

lemma delete_stats_readers_stands:
  "stands lg L False \<Longrightarrow> stats_hold p s rs base L \<Longrightarrow>
   \<exists>L'. stands (fold (delete_stats_reader p s) rs lg) L' False \<and> stats_hold p s [] base L'"
proof (induction rs arbitrary: lg L)
  case (Cons r rs)
  show ?case
    using Cons.IH [OF delete_stats_reader_stands [OF Cons.prems] stats_hold_delete [OF Cons.prems(2)]] by simp
qed auto

definition readers_of :: "stats_entities \<Rightarrow> stats_reader list" where
  "readers_of st = map snd (se_readers st)"

definition stats_at :: "stats_entities \<Rightarrow> dds_log \<Rightarrow> bool \<Rightarrow> (entity \<times> dds_call) list \<Rightarrow> (entity \<times> dds_call) list \<Rightarrow> bool" where
  "stats_at st lg run base L \<longleftrightarrow> stands lg L run \<and>
     stats_hold (se_participant st) (se_subscriber st) (readers_of st) base L"

lemma stats_destroy_stands:
  assumes "stats_at st lg True base L"
  shows "stands (stats_destroy st lg) base False"
proof -
  let ?p = "se_participant st" and ?s = "se_subscriber st"
  have "stands (tell JoinDrain lg) L False" using assms stands_join by (simp add: stats_at_def)
  from delete_stats_readers_stands [OF this, of ?p ?s "readers_of st" base]
  obtain L' where L': "stands (fold (delete_stats_reader ?p ?s) (readers_of st) (tell JoinDrain lg)) L' False"
      (is "stands ?lg _ _")
    and h: "stats_hold ?p ?s [] base L'"
    using assms by (auto simp: stats_at_def)
  have s: "lives L' ?s (\<lambda>c. c = CreateSubscriber ?p)" using h by (simp add: stats_hold_def)
  then have "lives L' ?s is_subscriber" by (auto elim: lives_mono)
  then have "\<not> holds L' ?s"
    using h subscriber_not_read [OF stands_good [OF L']] by (auto simp: stats_hold_def holds_def)
  then have "stands (tell (DeleteSubscriber ?p ?s) ?lg) (without {?s} L') False"
    using s by (intro stands_delete [OF L']) auto
  then show ?thesis using h by (simp add: stats_destroy_def Let_def readers_of_def stats_hold_def)
qed

text \<open>A new reader joins the others.\<close>

lemma reader_alive_Cons:
  "reader_alive p s L r \<Longrightarrow> (sr_owns_topic r \<Longrightarrow> reads c \<noteq> sr_topic r) \<Longrightarrow> reader_alive p s ((e, c) # L) r"
  by (auto simp: reader_alive_def)

lemma keys_alive: "reader_alive p s L r \<Longrightarrow> reader_keys r \<subseteq> fst ` set L"
  by (auto simp: reader_alive_def reader_keys_def dest: lives_key)

lemma owned_topic_alive:
  "reader_alive p s L r \<Longrightarrow> sr_owns_topic r \<Longrightarrow> \<exists>t. sr_topic r = Some t \<and> t \<in> fst ` set L"
  unfolding reader_alive_def using lives_key by blast

lemma stats_hold_alive: "stats_hold p s rs base L \<Longrightarrow> r \<in> set rs \<Longrightarrow> reader_alive p s L r"
  by (simp add: stats_hold_def)

lemma stats_hold_topic:
  assumes g: "good L" and h: "stats_hold p s rs base L" and p: "lives base p is_participant"
    and t: "fresh t L"
  shows "\<forall>r \<in> set rs. reader_alive p s ((t, CreateTopic p n ty) # L) r"
    and "\<forall>x \<in> set ((t, CreateTopic p n ty) # L). owner (snd x) = Some s \<longrightarrow> fst x \<in> all_keys rs"
proof -
  have "\<not> lives L s is_participant"
  proof
    assume "lives L s is_participant"
    then have "lives L s (\<lambda>c. is_participant c \<and> c = CreateSubscriber p)"
      using h by (intro good_unique [OF g]) (auto simp: stats_hold_def)
    then show False by (auto simp: lives_def)
  qed
  moreover have "lives L p is_participant" using h p by (auto simp: stats_hold_def)
  ultimately have "p \<noteq> s" by blast
  then show "\<forall>x \<in> set ((t, CreateTopic p n ty) # L). owner (snd x) = Some s \<longrightarrow> fst x \<in> all_keys rs"
    using h by (auto simp: stats_hold_def)
  show "\<forall>r \<in> set rs. reader_alive p s ((t, CreateTopic p n ty) # L) r"
    using stats_hold_alive [OF h] owned_topic_alive by (fastforce intro!: reader_alive_Cons)
qed

lemma stats_hold_reader:
  assumes g: "good L" and h: "stats_hold p s rs base L" and p: "lives base p is_participant"
    and T: "(if owns then fresh t L \<and> T = [(t, CreateTopic p n ty)] else T = [] \<and> (\<exists>name. t = Found name))"
    and rd: "fresh rd (T @ L)"
  shows "stats_hold p s (rs @ [\<lparr>sr_topic = Some t, sr_owns_topic = owns, sr_reader = Some rd\<rparr>]) base
           ((rd, CreateReader s t q True) # T @ L)"
proof -
  let ?r = "\<lparr>sr_topic = Some t, sr_owns_topic = owns, sr_reader = Some rd\<rparr>" and ?c = "CreateReader s t q True"
  have keys: "all_keys rs \<subseteq> fst ` set L"
    using h keys_alive by (fastforce simp: stats_hold_def all_keys_def)
  have new: "reader_keys ?r \<inter> fst ` set L = {}"
    using T rd by (auto simp: reader_keys_def fresh_def split: if_splits)
  have s: "s \<in> fst ` set L" using h by (auto simp: stats_hold_def dest: lives_key)
  have old: "\<forall>r \<in> set rs. reader_alive p s (T @ L) r"
    and held: "\<forall>x \<in> set (T @ L). owner (snd x) = Some s \<longrightarrow> fst x \<in> all_keys rs"
    using T stats_hold_topic [OF g h p, of t n ty] h by (auto simp: stats_hold_def split: if_splits)
  have "reads ?c \<noteq> sr_topic r" if r: "r \<in> set rs" "sr_owns_topic r" for r
  proof
    assume "reads ?c = sr_topic r"
    moreover obtain t' where t': "sr_topic r = Some t'" "t' \<in> fst ` set L"
      using owned_topic_alive [OF stats_hold_alive [OF h r(1)] r(2)] by blast
    ultimately show False using T g by (auto simp: fresh_def good_def split: if_splits)
  qed
  then have "\<forall>r \<in> set rs. reader_alive p s ((rd, ?c) # T @ L) r" using old reader_alive_Cons by blast
  moreover have "reader_alive p s ((rd, ?c) # T @ L) ?r"
    using T rd fresh_not_held [OF g] by (auto simp: reader_alive_def fresh_Cons holds_def split: if_splits)
  moreover have "without (insert s (all_keys (rs @ [?r]))) ((rd, ?c) # T @ L) = base"
  proof -
    have "without (insert s (all_keys (rs @ [?r]))) L = without (insert s (all_keys rs)) L"
      using new by (auto simp: without_def intro!: filter_cong)
    moreover have "fst ` set ((rd, ?c) # T) \<subseteq> reader_keys ?r" using T by (auto simp: reader_keys_def split: if_splits)
    ultimately show ?thesis using h T by (auto simp: without_Cons stats_hold_def split: if_splits)
  qed
  moreover have "lives ((rd, ?c) # T @ L) s (\<lambda>c. c = CreateSubscriber p)"
    using h by (auto simp: stats_hold_def lives_def)
  moreover have "apart (rs @ [?r])" and "s \<notin> all_keys (rs @ [?r])"
    using h new keys s by (auto simp: apart_snoc stats_hold_def)
  moreover have "\<forall>x \<in> set ((rd, ?c) # T @ L). owner (snd x) = Some s \<longrightarrow> fst x \<in> all_keys (rs @ [?r])"
    using held by (auto simp: reader_keys_def)
  ultimately show ?thesis by (simp add: stats_hold_def)
qed

definition same_stats :: "stats_entities \<Rightarrow> stats_entities \<Rightarrow> bool" where
  "same_stats st st' \<longleftrightarrow> se_participant st' = se_participant st \<and> se_subscriber st' = se_subscriber st \<and>
     se_readers st' = se_readers st"

lemma stats_topic_entity_stands:
  assumes st: "stands lg L False" and p: "lives L p is_participant"
    and run: "stats_topic_entity fd p m lg = ((topic, owns), lg')"
  shows "topic = None \<Longrightarrow> stands lg' L False"
    and "topic = Some t \<Longrightarrow> \<exists>T n ty. (if owns then fresh t L \<and> T = [(t, CreateTopic p n ty)]
           else T = [] \<and> (\<exists>name. t = Found name)) \<and> stands lg' (T @ L) False"
proof -
  let ?name = "fd_stats_name fd m"
  have 1: "stands (tell (LookupTopic p ?name) lg) L False" by (rule stands_tell [OF st]) (use p in auto)
  have "(topic = None \<longrightarrow> stands lg' L False) \<and> (\<forall>t. topic = Some t \<longrightarrow>
      (\<exists>T n ty. (if owns then fresh t L \<and> T = [(t, CreateTopic p n ty)]
           else T = [] \<and> (\<exists>name. t = Found name)) \<and> stands lg' (T @ L) False))"
  proof (cases "fd_lookup fd lg ?name")
    case None
    let ?c = "CreateTopic p ?name (fd_stats_type fd m)"
    have c: "create fd ?c (tell (LookupTopic p ?name) lg) = (topic, lg')" and o: owns
      using run None by (auto simp: stats_topic_entity_def Let_def split: prod.splits)
    have "permitted L False ?c" "creates ?c" using p by auto
    note stands_created [OF 1 c this]
    then show ?thesis using o by (cases topic) fastforce+
  qed (use run 1 in \<open>auto simp: stats_topic_entity_def Let_def split: if_splits\<close>)
  then show "topic = None \<Longrightarrow> stands lg' L False"
    and "topic = Some t \<Longrightarrow> \<exists>T n ty. (if owns then fresh t L \<and> T = [(t, CreateTopic p n ty)]
           else T = [] \<and> (\<exists>name. t = Found name)) \<and> stands lg' (T @ L) False"
    by blast+
qed

lemma probe_once_stands:
  assumes st: "stands lg L False" and "lives L (se_subscriber st) is_subscriber" "readable t L"
    and run: "probe_once fd ip t q (st, lg) = (st', lg')"
  shows "stands lg' L False" and "same_stats st st'"
    and "no_shm ip (se_locators st) \<Longrightarrow> no_shm ip (se_locators st')"
  using probe_locators_stands [OF st assms(2,3)] st run
  by (auto simp: probe_once_def same_stats_def split: if_splits prod.splits)

lemma create_stats_reader_stands:
  assumes at: "stats_at st lg False base L" and p: "lives base (se_participant st) is_participant"
    and run: "create_stats_reader fd ip m (st, lg) = (res, st', lg')"
  shows "case res of Inl e \<Rightarrow> legal lg'
         | Inr r \<Rightarrow> (\<exists>L'. stats_at (keep_reader m r st') lg' False base L') \<and>
             se_participant st' = se_participant st"
proof -
  let ?p = "se_participant st" and ?s = "se_subscriber st"
  have st: "stands lg L False" and h: "stats_hold ?p ?s (readers_of st) base L"
    using at by (auto simp: stats_at_def)
  note g = stands_good [OF st]
  have pL: "lives L ?p is_participant" using p h by (auto simp: stats_hold_def)
  have 1: "stands (tell (RegisterType ?p (fd_stats_type fd m)) lg) L False"
    by (rule stands_tell [OF st]) (use pL in auto)
  obtain topic owns lg2 where t: "stats_topic_entity fd ?p m (tell (RegisterType ?p (fd_stats_type fd m)) lg) =
      ((topic, owns), lg2)" by (metis prod.collapse)
  note topic = stats_topic_entity_stands [OF 1 pL t]
  show ?thesis
  proof (cases topic)
    case None
    then show ?thesis using run t topic(1) by (auto simp: create_stats_reader_def stands_def)
  next
    case (Some tp)
    obtain T n ty where T: "if owns then fresh tp L \<and> T = [(tp, CreateTopic ?p n ty)]
        else T = [] \<and> (\<exists>name. tp = Found name)" and 2: "stands lg2 (T @ L) False"
      using topic(2) [OF Some] by blast
    have s: "lives (T @ L) ?s is_subscriber"
      using h by (auto simp: stats_hold_def lives_def)
    have rt: "readable tp (T @ L)" using T by (auto simp: readable_def split: entity.splits if_splits)
    define q where "q = stats_reader_qos (fd_default_reader fd) (reader_kind_of m)"
    obtain st3 lg3 where pr: "probe_once fd ip tp q (st, lg2) = (st3, lg3)" by fastforce
    note probe = probe_once_stands [OF 2 s rt pr]
    then have st3: "se_subscriber st3 = ?s" "se_participant st3 = ?p" "readers_of st3 = readers_of st"
      by (auto simp: same_stats_def readers_of_def)
    define q' where "q' = announce (se_locators st3) q"
    let ?c = "CreateReader ?s tp q' True"
    obtain r lg4 where r: "create fd ?c lg3 = (r, lg4)" by fastforce
    have "permitted (T @ L) False ?c" "creates ?c" using s rt by (auto simp: readable_def)
    note made = stands_created [OF probe(1) r this]
    show ?thesis
    proof (cases r)
      case None
      then show ?thesis using run t Some pr r st3 made(1)
        by (auto simp: create_stats_reader_def q_def q'_def Let_def stands_def)
    next
      case (Some rd)
      let ?r = "\<lparr>sr_topic = Some tp, sr_owns_topic = owns, sr_reader = Some rd\<rparr>"
      have res: "res = Inr ?r" "st' = st3" "lg' = lg4"
        using run t \<open>topic = Some tp\<close> pr r st3 Some by (auto simp: create_stats_reader_def q_def q'_def Let_def)
      from stats_hold_reader [OF g h p T, of rd q'] made(2) [OF Some]
      have "stats_at (keep_reader m ?r st3) lg4 False base ((rd, ?c) # T @ L)"
        using st3 by (auto simp: stats_at_def keep_reader_def readers_of_def)
      then show ?thesis using res st3 by auto
    qed
  qed
qed

lemma create_stats_readers_stands:
  "stats_at st lg False base L \<Longrightarrow> lives base (se_participant st) is_participant \<Longrightarrow>
   create_stats_readers fd ip ms (st, lg) = (err, st', lg') \<Longrightarrow>
   case err of Some e \<Rightarrow> legal lg' | None \<Rightarrow> \<exists>L'. stats_at st' lg' False base L'"
proof (induction ms arbitrary: st lg L)
  case (Cons m ms)
  obtain res st1 lg1 where r: "create_stats_reader fd ip m (st, lg) = (res, st1, lg1)" by (metis prod.collapse)
  note step = create_stats_reader_stands [OF Cons.prems(1,2) r]
  show ?case
  proof (cases res)
    case (Inl e)
    then show ?thesis using step Cons.prems(3) r by auto
  next
    case (Inr rd)
    then obtain L' where "stats_at (keep_reader m rd st1) lg1 False base L'" using step by auto
    from Cons.IH [OF this] show ?thesis
      using Inr step Cons.prems(2,3) r by (simp add: keep_reader_def)
  qed
qed auto

lemma stats_start: "stats_at st lg False base L \<Longrightarrow> stats_at st (tell StartDrain lg) True base L"
  by (simp add: stats_at_def stands_start)

lemma stats_construct_stands:
  assumes st: "stands lg L False" and p: "lives L p is_participant"
    and run: "stats_construct fd ip p lg = (res, lg')"
  shows "case res of Inl e \<Rightarrow> legal lg' | Inr st \<Rightarrow> \<exists>L'. stats_at st lg' True L L'"
proof -
  obtain s lg1 where s: "create fd (CreateSubscriber p) lg = (s, lg1)" by fastforce
  have "permitted L False (CreateSubscriber p)" "creates (CreateSubscriber p)" using p by auto
  note made = stands_created [OF st s this]
  show ?thesis
  proof (cases s)
    case None
    then show ?thesis using made(1) run s by (auto simp: stats_construct_def stands_def)
  next
    case (Some se)
    define st0 where "st0 = \<lparr>se_participant = p, se_subscriber = se, se_locators = [], se_probed = False,
      se_event_reader = None, se_readers = []\<rparr>"
    note new = made(2) [OF Some]
    have "\<not> holds L se" using fresh_not_held [OF stands_good [OF st]] new by blast
    moreover have "p \<noteq> se" using new p fresh_lives by blast
    ultimately have "stats_hold p se [] L ((se, CreateSubscriber p) # L)"
      using new by (auto simp: stats_hold_def without_Cons holds_def)
    then have 1: "stats_at st0 lg1 False L ((se, CreateSubscriber p) # L)"
      using new by (simp add: stats_at_def st0_def readers_of_def)
    obtain err st' lg2 where r: "create_stats_readers fd ip stats_topics (st0, lg1) = (err, st', lg2)"
      by (metis prod.collapse)
    have "lives L (se_participant st0) is_participant" using p by (simp add: st0_def)
    from create_stats_readers_stands [OF 1 this r] show ?thesis
      using run s Some r by (auto simp: stats_construct_def st0_def split: option.splits intro!: exI elim!: stats_start)
  qed
qed

subsection \<open>The observation\<close>

lemma take_samples_stands:
  "stands lg L run \<Longrightarrow> (\<And>r. rd = Some r \<Longrightarrow> lives L r (\<lambda>c. \<exists>t. reads c = Some t)) \<Longrightarrow> stands (take_samples rd lg) L run"
  by (cases rd) (auto simp: take_samples_def tell_if_def intro: stands_tell)

lemma take_all_stands:
  "stands lg L run \<Longrightarrow> (\<And>r rd. r \<in> set rs \<Longrightarrow> sr_reader r = Some rd \<Longrightarrow> lives L rd (\<lambda>c. \<exists>t. reads c = Some t)) \<Longrightarrow>
   stands (fold take_samples (map sr_reader rs) lg) L run"
proof (induction rs arbitrary: lg)
  case (Cons r rs)
  have "stands (take_samples (sr_reader r) lg) L run"
    by (rule take_samples_stands [OF Cons.prems(1)]) (rule Cons.prems(2) [of r], auto)
  then have "stands (fold take_samples (map sr_reader rs) (take_samples (sr_reader r) lg)) L run"
    by (rule Cons.IH) (use Cons.prems(2) in auto)
  then show ?case by simp
qed simp

definition names_reader_alive :: "names_observer option \<Rightarrow> (entity \<times> dds_call) list \<Rightarrow> bool" where
  "names_reader_alive names L \<longleftrightarrow>
     (\<forall>na r. names = Some na \<longrightarrow> na_reader na = Some r \<longrightarrow> lives L r (\<lambda>c. \<exists>t. reads c = Some t))"

definition stats_readers_alive :: "stats_entities option \<Rightarrow> (entity \<times> dds_call) list \<Rightarrow> bool" where
  "stats_readers_alive stats L \<longleftrightarrow> (\<forall>st r rd. stats = Some st \<longrightarrow> r \<in> set (readers_of st) \<longrightarrow>
     sr_reader r = Some rd \<longrightarrow> lives L rd (\<lambda>c. \<exists>t. reads c = Some t))"

lemma acts_stand:
  assumes "names_reader_alive names L" "stats_readers_alive stats L"
  shows "stands lg L run \<Longrightarrow> stands (fold (act names stats) acts lg) L run"
proof (induction acts arbitrary: lg)
  case (Cons a acts)
  have "stands (act names stats a lg) L run"
  proof (cases a)
    case PollNames
    then show ?thesis using Cons.prems assms(1)
      by (auto simp: act_def names_reader_alive_def split: option.splits intro: take_samples_stands)
  next
    case DrainStats
    then show ?thesis using Cons.prems assms(2)
      by (auto simp: act_def stats_readers_alive_def readers_of_def comp_def
          split: option.splits intro!: take_all_stands [of _ _ _ "map snd _", unfolded map_map comp_def])
  qed
  then show ?case using Cons.IH by simp
qed simp

lemma names_reader_lives:
  "names_at na lg M L \<Longrightarrow> names_reader_alive (Some na) L"
  by (auto simp: names_at_def names_hold_def names_reader_alive_def reader_part_def part_def)

lemma stats_readers_live:
  "stats_at st lg run base L \<Longrightarrow> stats_readers_alive (Some st) L"
  by (auto simp: stats_at_def stats_hold_def stats_readers_alive_def reader_alive_def elim!: ballE lives_mono)

lemma lives_base: "lives (without K L) e P \<Longrightarrow> lives L e P"
  by simp

text \<open>What \<open>construct_names\<close> leaves, with the names or without them.\<close>

definition names_above :: "names_observer option \<Rightarrow> dds_log \<Rightarrow> (entity \<times> dds_call) list \<Rightarrow> (entity \<times> dds_call) list \<Rightarrow> bool" where
  "names_above names lg L L' \<longleftrightarrow> stands lg L' False \<and> (case names of None \<Rightarrow> L' = L
     | Some na \<Rightarrow> \<exists>M. names_at na lg M L' \<and> without (set_option (na_owned na)) M = L)"

lemma construct_names_above:
  assumes "stands lg L False" "lives L p is_participant"
    and "construct_names fd b ip domain p lg = (names, warnings, lg')"
  shows "\<exists>L'. names_above names lg' L L'"
  using names_construct_stands [OF assms(1,2), of fd b ip domain] assms(3)
  by (fastforce simp: construct_names_def names_above_def names_at_def split: prod.splits sum.splits)

lemma names_above_lives: "names_above names lg L L' \<Longrightarrow> lives L e P \<Longrightarrow> lives L' e P"
  by (auto simp: names_above_def names_at_def names_hold_def lives_def split: option.splits)

lemma destroy_all_stands:
  assumes names: "names_above names lg0 [(p, c)] L" "is_participant c"
    and stats: "case stats of None \<Rightarrow> stands lg L False | Some st \<Rightarrow> \<exists>L'. stats_at st lg True L L'"
  shows "stands (destroy_all p names stats lg) [] False"
proof -
  define lg1 where "lg1 = (case stats of None \<Rightarrow> lg | Some st \<Rightarrow> stats_destroy st lg)"
  have 1: "stands lg1 L False"
    using stats stats_destroy_stands by (auto simp: lg1_def split: option.splits)
  define lg2 where "lg2 = (case names of None \<Rightarrow> lg1 | Some na \<Rightarrow> snd (names_release na lg1))"
  have 2: "stands lg2 [(p, c)] False"
  proof (cases names)
    case (Some na)
    then obtain M where "names_at na lg0 M L" "without (set_option (na_owned na)) M = [(p, c)]"
      using names(1) by (auto simp: names_above_def)
    then show ?thesis using names_release_stands [OF 1, of na M] Some by (simp add: names_at_def lg2_def)
  qed (use 1 names(1) in \<open>simp add: names_above_def lg2_def\<close>)
  have "permitted [(p, c)] False (DeleteParticipant p)" using names(2) by (cases c) auto
  moreover have "destroy_all p names stats lg = tell (DeleteParticipant p) lg2"
    unfolding destroy_all_def discovery_destroy_def Let_def lg1_def lg2_def ..
  ultimately show ?thesis using stands_delete [OF 2, of "DeleteParticipant p" p] by (simp add: without_Cons)
qed

lemma acts_with_stats:
  assumes "names_above names lg0 L L1" "stats_at st lg True L1 L2"
  shows "stats_at st (fold (act names (Some st)) acts lg) True L1 L2"
proof -
  have "names_reader_alive names L1"
    using assms(1) names_reader_lives by (auto simp: names_above_def names_reader_alive_def split: option.splits)
  moreover have "L1 = without (insert (se_subscriber st) (all_keys (readers_of st))) L2"
    using assms(2) by (simp add: stats_at_def stats_hold_def)
  ultimately have "names_reader_alive names L2" by (auto simp: names_reader_alive_def)
  from acts_stand [OF this stats_readers_live [OF assms(2)]] show ?thesis
    using assms(2) by (simp add: stats_at_def)
qed

lemma acts_without_stats:
  assumes "names_above names lg L L1"
  shows "stands (fold (act names None) acts lg) L1 False"
proof -
  have "names_reader_alive names L1"
    using assms names_reader_lives by (auto simp: names_above_def names_reader_alive_def split: option.splits)
  from acts_stand [OF this, of None] show ?thesis using assms by (simp add: stats_readers_alive_def names_above_def)
qed

text \<open>
  C9. Whatever Fast DDS creates and refuses, and however polling and draining are interleaved, every
  call of the tool is permitted: nothing is used or deleted that does not live, nothing is deleted that
  something alive still needs, and no reader goes while the drain thread runs. An observation that comes
  through leaves nothing behind. The constructor of the names never ends it; an exception that does is
  about the participant or, with \<open>--stats\<close>, the statistics.
\<close>

theorem observe_releases:
  "case observe fd b ip domain with_stats acts [] of (outcome, lg) \<Rightarrow> legal lg \<and>
     (case outcome of
        Observed warnings \<Rightarrow> alive lg = [] \<and> \<not> draining lg
      | Aborted e \<Rightarrow> e = ''failed to create Fast DDS DomainParticipant'' \<or> with_stats)"
proof -
  define q where "q = (fd_default_participant fd)\<lparr>pq_name := ''fastdds_transport_viz''\<rparr>"
  let ?c = "CreateParticipant domain q"
  obtain p lg1 where p: "create fd ?c [] = (p, lg1)" by fastforce
  have "stands [] [] False" "permitted [] False ?c" "creates ?c" by (auto simp: stands_def)
  note made = stands_created [OF this(1) p this(2,3)]
  show ?thesis
  proof (cases p)
    case None
    then show ?thesis using p made(1) by (simp add: observe_def discovery_construct_def q_def stands_def)
  next
    case (Some pe)
    have 1: "stands lg1 [(pe, ?c)] False" using made(2) [OF Some] by blast
    have pl: "lives [(pe, ?c)] pe is_participant" by simp
    obtain names warnings lg2 where n: "construct_names fd b ip domain pe lg1 = (names, warnings, lg2)"
      by (metis prod.collapse)
    obtain L2 where L2: "names_above names lg2 [(pe, ?c)] L2" using construct_names_above [OF 1 pl n] by blast
    then have 2: "stands lg2 L2 False" by (simp add: names_above_def)
    have run: "observe fd b ip domain with_stats acts [] =
        (if with_stats
         then (case stats_construct fd ip pe lg2 of
                 (Inl e, lg) \<Rightarrow> (Aborted e, lg)
               | (Inr st, lg) \<Rightarrow> (Observed warnings, destroy_all pe names (Some st) (fold (act names (Some st)) acts lg)))
         else (Observed warnings, destroy_all pe names None (fold (act names None) acts lg2)))"
      using p Some n by (simp add: observe_def discovery_construct_def q_def)
    obtain res lg3 where s: "stats_construct fd ip pe lg2 = (res, lg3)" by fastforce
    note stats = stats_construct_stands [OF 2 names_above_lives [OF L2 pl] s]
    have "stands (destroy_all pe names (Some st) (fold (act names (Some st)) acts lg3)) [] False"
      if res: "res = Inr st" for st
    proof -
      obtain L3 where "stats_at st lg3 True L2 L3" using stats res by auto
      from acts_with_stats [OF L2 this, of acts] show ?thesis by (intro destroy_all_stands [OF L2]) auto
    qed
    moreover have "stands (destroy_all pe names None (fold (act names None) acts lg2)) [] False"
      using acts_without_stats [OF L2] by (intro destroy_all_stands [OF L2]) auto
    ultimately show ?thesis using stats by (auto simp: run s stands_def split: sum.splits)
  qed
qed

subsection \<open>How the statistics are read\<close>

definition stats_call :: "fast_dds \<Rightarrow> stats_entities \<Rightarrow> stats_topic \<Rightarrow> entity \<Rightarrow> dds_call" where
  "stats_call fd st m t = CreateReader (se_subscriber st) t
     (announce (se_locators st) (stats_reader_qos (fd_default_reader fd) (reader_kind_of m))) True"

text \<open>
  The locators are those of a probe: a reader without a listener on one of the topics, which either could not
  be created, or told right after its creation where it listens. SHM and multicast are left out.
\<close>

definition probed_locators :: "fast_dds \<Rightarrow> ip_locator \<Rightarrow> stats_entities \<Rightarrow> dds_log \<Rightarrow> bool" where
  "probed_locators fd ip st lg \<longleftrightarrow>
     (\<exists>m t later before answer.
        let probe = CreateReader (se_subscriber st) t (stats_reader_qos (fd_default_reader fd) (reader_kind_of m)) False
        in case answer of
             None \<Rightarrow> lg = later @ (probe, None) # before \<and> se_locators st = []
           | Some r \<Rightarrow>
               lg = later @ (DeleteReader (se_subscriber st) r, None) # (ListeningLocators r, None) # (probe, Some r) # before \<and>
               se_locators st = (case fd_listening fd ((ListeningLocators r, None) # (probe, Some r) # before) r of
                   None \<Rightarrow> []
                 | Some listening \<Rightarrow> filter (\<lambda>l. rl_kind l \<noteq> KindSHM \<and> \<not> is_multicast ip l) listening))"

lemma probed_later:
  assumes "probed_locators fd ip st lg"
  shows "probed_locators fd ip st (newer @ lg)"
proof -
  from assms obtain m t later before answer where
    "let probe = CreateReader (se_subscriber st) t (stats_reader_qos (fd_default_reader fd) (reader_kind_of m)) False
     in case answer of
          None \<Rightarrow> lg = later @ (probe, None) # before \<and> se_locators st = []
        | Some r \<Rightarrow>
            lg = later @ (DeleteReader (se_subscriber st) r, None) # (ListeningLocators r, None) # (probe, Some r) # before \<and>
            se_locators st = (case fd_listening fd ((ListeningLocators r, None) # (probe, Some r) # before) r of
                None \<Rightarrow> []
              | Some listening \<Rightarrow> filter (\<lambda>l. rl_kind l \<noteq> KindSHM \<and> \<not> is_multicast ip l) listening)"
    unfolding probed_locators_def by blast
  then show ?thesis unfolding probed_locators_def
    by (intro exI [of _ m] exI [of _ t] exI [of _ "newer @ later"] exI [of _ before] exI [of _ answer])
      (auto simp: Let_def split: option.splits)
qed

lemma probed_no_shm: "probed_locators fd ip st lg \<Longrightarrow> no_shm ip (se_locators st)"
  by (auto simp: probed_locators_def no_shm_def Let_def split: option.splits)

lemma keep_reader_sel:
  "se_subscriber (keep_reader m r st) = se_subscriber st" "se_locators (keep_reader m r st) = se_locators st"
  by (simp_all add: keep_reader_def)

lemma keep_reader_probed: "probed_locators fd ip (keep_reader m r st) lg = probed_locators fd ip st lg"
  unfolding probed_locators_def keep_reader_sel by (rule refl)

definition read_alike :: "fast_dds \<Rightarrow> ip_locator \<Rightarrow> stats_entities \<Rightarrow> dds_log \<Rightarrow> bool" where
  "read_alike fd ip st lg \<longleftrightarrow> (se_readers st = [] \<or> se_probed st) \<and> (se_probed st \<longrightarrow> probed_locators fd ip st lg) \<and>
     (\<forall>x \<in> set (se_readers st). \<exists>t rd. sr_topic (snd x) = Some t \<and> sr_reader (snd x) = Some rd \<and>
        (stats_call fd st (fst x) t, Some rd) \<in> set lg)"

definition refused :: "fast_dds \<Rightarrow> dds_log \<Rightarrow> bool" where
  "refused fd lg \<longleftrightarrow> (\<exists>x \<in> set lg. creates (fst x) \<and> snd x = None) \<or> (\<exists>lg n. fd_lookup fd lg n = Some False)"

lemma create_grows: "create fd c lg = (a, lg') \<Longrightarrow> lg' = (c, a) # lg"
  by (auto simp: create_def Let_def)

lemma probe_locators_grows: "probe_locators fd ip s t q lg = (ls, lg') \<Longrightarrow> set lg \<subseteq> set lg'"
  by (auto simp: probe_locators_def create_def tell_def Let_def split: if_splits)

lemma probe_once_alike:
  assumes "probe_once fd ip t (stats_reader_qos (fd_default_reader fd) (reader_kind_of m)) (st, lg) = (st', lg')"
    "read_alike fd ip st lg"
  shows "read_alike fd ip st' lg' \<and> se_probed st' \<and> se_readers st' = se_readers st \<and>
    se_subscriber st' = se_subscriber st \<and> se_event_reader st' = se_event_reader st"
proof (cases "se_probed st")
  case False
  let ?q = "stats_reader_qos (fd_default_reader fd) (reader_kind_of m)"
  obtain ls lg1 where ls: "probe_locators fd ip (se_subscriber st) t ?q lg = (ls, lg1)" by fastforce
  let ?probe = "CreateReader (se_subscriber st) t ?q False"
  have st': "st' = st\<lparr>se_probed := True, se_locators := ls\<rparr>" "lg' = lg1"
    using assms(1) False ls by (simp_all add: probe_once_def)
  have "probed_locators fd ip st' lg1"
    unfolding probed_locators_def using ls
    by (intro exI [of _ m] exI [of _ t] exI [of _ "[]"] exI [of _ lg] exI [of _ "fst (create fd ?probe lg)"])
      (auto simp: st' probe_locators_def create_def tell_def probe_non_shm_unicast_locators_def non_shm_unicast_locators_def
        Let_def split: option.splits if_splits)
  moreover have "se_readers st = []" using assms(2) False by (simp add: read_alike_def)
  ultimately show ?thesis by (simp add: st' read_alike_def)
qed (use assms in \<open>auto simp: probe_once_def\<close>)

lemma stats_topic_entity_grows:
  assumes "stats_topic_entity fd p m lg = ((topic, owns), lg')"
  shows "\<exists>newer. lg' = newer @ lg" and "topic = None \<Longrightarrow> refused fd lg'"
  using assms
  by (force simp: stats_topic_entity_def Let_def tell_def create_def refused_def split: option.splits if_splits)+

lemma read_alike_mono: "read_alike fd ip st lg \<Longrightarrow> read_alike fd ip st (newer @ lg)"
  unfolding read_alike_def using probed_later by fastforce

lemma create_stats_reader_alike:
  assumes run: "create_stats_reader fd ip m (st, lg) = (res, st', lg')" and a: "read_alike fd ip st lg"
  shows "case res of Inl e \<Rightarrow> refused fd lg'
         | Inr r \<Rightarrow> read_alike fd ip (keep_reader m r st') lg' \<and> se_readers st' = se_readers st \<and>
             se_event_reader st' = se_event_reader st"
proof -
  let ?p = "se_participant st"
  define lg1 where "lg1 = tell (RegisterType ?p (fd_stats_type fd m)) lg"
  obtain topic owns lg2 where t: "stats_topic_entity fd ?p m lg1 = ((topic, owns), lg2)" by (metis prod.collapse)
  note topic = stats_topic_entity_grows [OF t]
  show ?thesis
  proof (cases topic)
    case None
    then show ?thesis using run t topic(2) by (auto simp: create_stats_reader_def lg1_def)
  next
    case (Some tp)
    define q where "q = stats_reader_qos (fd_default_reader fd) (reader_kind_of m)"
    have "\<exists>newer. lg2 = newer @ lg" using topic(1) by (auto simp: lg1_def tell_def)
    then have "read_alike fd ip st lg2" using read_alike_mono [OF a] by blast
    moreover obtain st3 lg3 where pr: "probe_once fd ip tp q (st, lg2) = (st3, lg3)" by fastforce
    ultimately have 3: "read_alike fd ip st3 lg3" "se_probed st3" "se_readers st3 = se_readers st"
      "se_event_reader st3 = se_event_reader st"
      using probe_once_alike unfolding q_def by blast+
    obtain r lg4 where r: "create fd (stats_call fd st3 m tp) lg3 = (r, lg4)" by fastforce
    note grown = create_grows [OF r]
    show ?thesis
    proof (cases r)
      case None
      then show ?thesis using run t Some pr r grown
        by (auto simp: create_stats_reader_def lg1_def q_def stats_call_def Let_def refused_def)
    next
      case (Some rd)
      have "res = Inr \<lparr>sr_topic = Some tp, sr_owns_topic = owns, sr_reader = Some rd\<rparr>" "st' = st3" "lg' = lg4"
        using run t \<open>topic = Some tp\<close> pr r Some
        by (auto simp: create_stats_reader_def lg1_def q_def stats_call_def Let_def)
      moreover have "probed_locators fd ip st3 lg4"
        using probed_later [of fd ip st3 lg3 "[(stats_call fd st3 m tp, r)]"] 3(1,2) grown by (simp add: read_alike_def)
      ultimately show ?thesis using 3 grown Some
        by (simp add: read_alike_def keep_reader_probed) (auto simp: keep_reader_def stats_call_def)
    qed
  qed
qed

definition event_told :: "stats_entities \<Rightarrow> bool" where
  "event_told st \<longleftrightarrow> (\<forall>r. (HistoryLatency, r) \<in> set (se_readers st) \<longrightarrow> se_event_reader st = sr_reader r)"

lemma keep_reader_told:
  "event_told st \<Longrightarrow> m \<notin> fst ` set (se_readers st) \<Longrightarrow> event_told (keep_reader m r st)"
  by (force simp: event_told_def keep_reader_def)

lemma create_stats_readers_alike:
  "create_stats_readers fd ip ms (st, lg) = (err, st', lg') \<Longrightarrow> read_alike fd ip st lg \<Longrightarrow> event_told st \<Longrightarrow>
   distinct (map fst (se_readers st) @ ms) \<Longrightarrow>
   case err of Some e \<Rightarrow> refused fd lg'
   | None \<Rightarrow> read_alike fd ip st' lg' \<and> event_told st' \<and> map fst (se_readers st') = map fst (se_readers st) @ ms"
proof (induction ms arbitrary: st lg)
  case (Cons m ms)
  obtain res st1 lg1 where r: "create_stats_reader fd ip m (st, lg) = (res, st1, lg1)" by (metis prod.collapse)
  note step = create_stats_reader_alike [OF r Cons.prems(2)]
  show ?case
  proof (cases res)
    case (Inl e)
    then show ?thesis using step Cons.prems(1) r by auto
  next
    case (Inr rd)
    let ?st = "keep_reader m rd st1"
    have s1: "se_readers st1 = se_readers st" "se_event_reader st1 = se_event_reader st"
      and a: "read_alike fd ip ?st lg1" using step Inr by auto
    have "event_told st1" using Cons.prems(3) s1 by (simp add: event_told_def)
    then have "event_told ?st" using Cons.prems(4) s1 by (intro keep_reader_told) auto
    moreover have "create_stats_readers fd ip ms (?st, lg1) = (err, st', lg')" using Cons.prems(1) r Inr by simp
    moreover have "map fst (se_readers ?st) @ ms = map fst (se_readers st) @ m # ms" using s1 by (simp add: keep_reader_def)
    ultimately show ?thesis using Cons.IH [of ?st lg1] a Cons.prems(4) by metis
  qed
qed auto

text \<open>
  C32. The constructor of the statistics throws only if Fast DDS refused to create something or has
  another kind of topic under one of the names. Otherwise there is a reader for each of the ten topics,
  in the order of \<open>stats_topics\<close>, with the QoS of its kind. All of them announce the same locators: those
  that a probe reader, created, asked and deleted before, said that it listens on, without SHM and multicast,
  and none of their own where it could not be created or did not answer. The listener was told which
  reader has the latencies.
\<close>

theorem statistics_readers:
  "case stats_construct fd ip p lg of
     (Inl e, lg') \<Rightarrow> refused fd lg'
   | (Inr st, lg') \<Rightarrow> map fst (se_readers st) = stats_topics \<and> no_shm ip (se_locators st) \<and> probed_locators fd ip st lg' \<and>
       (\<forall>x \<in> set (se_readers st). \<exists>t rd. sr_topic (snd x) = Some t \<and> sr_reader (snd x) = Some rd \<and>
          (CreateReader (se_subscriber st) t (announce (se_locators st)
             (stats_reader_qos (fd_default_reader fd) (reader_kind_of (fst x)))) True, Some rd) \<in> set lg') \<and>
       (\<forall>r. (HistoryLatency, r) \<in> set (se_readers st) \<longrightarrow> se_event_reader st = sr_reader r)"
proof -
  obtain s lg1 where s: "create fd (CreateSubscriber p) lg = (s, lg1)" by fastforce
  show ?thesis
  proof (cases s)
    case None
    then show ?thesis using s create_grows [OF s] by (auto simp: stats_construct_def refused_def)
  next
    case (Some se)
    define st0 where "st0 = \<lparr>se_participant = p, se_subscriber = se, se_locators = [], se_probed = False,
      se_event_reader = None, se_readers = []\<rparr>"
    obtain err st lg2 where r: "create_stats_readers fd ip stats_topics (st0, lg1) = (err, st, lg2)"
      by (metis prod.collapse)
    have "read_alike fd ip st0 lg1" "event_told st0" "distinct (map fst (se_readers st0) @ stats_topics)"
      by (auto simp: st0_def read_alike_def event_told_def no_shm_def stats_topics_def)
    note alike = create_stats_readers_alike [OF r this]
    show ?thesis
    proof (cases err)
      case (Some e)
      then show ?thesis using alike s \<open>s = Some se\<close> r by (simp add: stats_construct_def st0_def)
    next
      case None
      with alike have all: "read_alike fd ip st lg2" "event_told st" "map fst (se_readers st) = stats_topics"
        by (simp_all add: st0_def)
      then have "probed_locators fd ip st lg2" by (auto simp: read_alike_def stats_topics_def)
      then have "probed_locators fd ip st (tell StartDrain lg2)" "no_shm ip (se_locators st)"
        using probed_later [of fd ip st lg2 "[(StartDrain, None)]"] probed_no_shm by (auto simp: tell_def)
      then show ?thesis using all s \<open>s = Some se\<close> r None
        by (auto simp: stats_construct_def st0_def read_alike_def event_told_def stats_call_def tell_def)
    qed
  qed
qed

definition granting :: fast_dds where
  "granting = \<lparr>fd_creates = (\<lambda>lg c. True), fd_lookup = (\<lambda>lg n. None),
     fd_listening = (\<lambda>lg r. Some [\<lparr>rl_kind = KindSHM, rl_port = 1, rl_address = []\<rparr>,
       \<lparr>rl_kind = KindUDPv4, rl_port = 7413, rl_address = []\<rparr>]),
     fd_default_participant = \<lparr>pq_name = [], pq_user_transports = [], pq_use_builtin_transports = True\<rparr>,
     fd_participant_qos = (\<lambda>lg p. \<lparr>pq_name = [], pq_user_transports = [], pq_use_builtin_transports = True\<rparr>),
     fd_default_reader = \<lparr>rq_reliability = BestEffortReliability, rq_durability = Volatile, rq_history = KeepLast,
       rq_depth = 1, rq_max_samples = 5000, rq_max_instances = 10, rq_max_samples_per_instance = 400,
       rq_allocated_samples = 100, rq_memory = Preallocated, rq_data_sharing_off = False, rq_unicast = []\<rparr>,
     fd_stats_name = (\<lambda>m. ''stats''), fd_stats_type = (\<lambda>m. ''stats'')\<rparr>"

lemma granted: "create granting c lg = (Some (Made (length lg)), (c, Some (Made (length lg))) # lg)"
  by (simp add: create_def granting_def Let_def)

lemma granting_reader:
  "\<exists>r st' lg'. create_stats_reader granting ip m (st, lg) = (Inr r, st', lg')"
  by (simp add: create_stats_reader_def stats_topic_entity_def granted Let_def granting_def [THEN arg_cong [where f = fd_lookup]]
      split: prod.split option.split)

lemma granting_readers: "\<exists>st' lg'. create_stats_readers granting ip ms (st, lg) = (None, st', lg')"
proof (induction ms arbitrary: st lg)
  case (Cons m ms)
  obtain r st1 lg1 where "create_stats_reader granting ip m (st, lg) = (Inr r, st1, lg1)" using granting_reader by blast
  then show ?case using Cons.IH by simp
qed simp

theorem statistics_readers_witness:
  "\<forall>ip. \<exists>st lg'. stats_construct granting ip (Made 0) [] = (Inr st, lg') \<and> length (se_readers st) = 10"
proof
  fix ip
  have "\<exists>st lg'. stats_construct granting ip (Made 0) [] = (Inr st, lg')"
    using granting_readers [of ip stats_topics "\<lparr>se_participant = Made 0, se_subscriber = Made 0, se_locators = [],
      se_probed = False, se_event_reader = None, se_readers = []\<rparr>" "[(CreateSubscriber (Made 0), Some (Made 0))]"]
    by (auto simp: stats_construct_def granted)
  then obtain st lg' where run: "stats_construct granting ip (Made 0) [] = (Inr st, lg')" by blast
  then have "map fst (se_readers st) = stats_topics" using statistics_readers [of granting ip "Made 0" "[]"] by simp
  then have "length (se_readers st) = length stats_topics" by (metis length_map)
  then have "length (se_readers st) = 10" by (simp add: stats_topics_def)
  then show "\<exists>st lg'. stats_construct granting ip (Made 0) [] = (Inr st, lg') \<and> length (se_readers st) = 10"
    using run by blast
qed

text \<open>
  A constructor of the statistics that throws leaves its subscriber behind, and the readers it made: the
  names, in contrast, are released before their constructor throws.
\<close>

definition no_topics :: fast_dds where
  "no_topics = granting\<lparr>fd_creates := (\<lambda>lg c. \<not> is_topic c)\<rparr>"

lemma statistics_left_behind:
  "case stats_construct no_topics ip (Made 0) lg of
     (Inl e, lg') \<Rightarrow> e = ''failed to create statistics topic stats'' \<and>
       alive lg' = (Made (length lg), CreateSubscriber (Made 0)) # alive lg
   | (Inr st, lg') \<Rightarrow> False"
  by (simp add: stats_construct_def create_def stats_topics_def create_stats_reader_def
      stats_topic_entity_def tell_def no_topics_def granting_def Let_def)

end
