(* ===== verification/Process_Io.thy ===== *)
theory Process_Io
  imports Main_Loop
begin

text \<open>
  How \<open>src/main.cpp\<close> borrows the standard output and the terminal and gives them back:
  \<open>StdoutToStderr\<close>, which sends what the participants print while they are created to stderr, and
  \<open>Terminal\<close>, raw input and the alternate screen of \<open>--watch\<close>. What the kernel does with a file
  descriptor is a table from descriptors to open files; \<open>dup\<close> may fail, and takes the lowest free
  descriptor otherwise.
\<close>

subsection \<open>Standard output\<close>

type_synonym 'f fd_table = "nat \<rightharpoonup> 'f"

definition STDOUT :: nat where "STDOUT = 1"
definition STDERR :: nat where "STDERR = 2"

definition lowest_free :: "'f fd_table \<Rightarrow> nat \<Rightarrow> nat option" where
  "lowest_free t limit = find (\<lambda>i. t i = None) [0 ..< limit]"

text \<open>\<open>dup\<close>: \<open>None\<close> is \<open>-1\<close>, because \<open>fd\<close> is not open or all descriptors below the limit are in use.\<close>

definition sys_dup :: "nat \<Rightarrow> nat \<Rightarrow> 'f fd_table \<Rightarrow> nat option \<times> 'f fd_table" where
  "sys_dup limit fd t =
     (case t fd of
        None \<Rightarrow> (None, t)
      | Some f \<Rightarrow> (case lowest_free t limit of None \<Rightarrow> (None, t) | Some i \<Rightarrow> (Some i, t(i \<mapsto> f))))"

definition sys_dup2 :: "nat \<Rightarrow> nat \<Rightarrow> 'f fd_table \<Rightarrow> 'f fd_table" where
  "sys_dup2 old new t = (case t old of None \<Rightarrow> t | Some f \<Rightarrow> t(new \<mapsto> f))"

definition sys_close :: "nat \<Rightarrow> 'f fd_table \<Rightarrow> 'f fd_table" where
  "sys_close fd t = t(fd := None)"

text \<open>The object: \<open>saved_\<close>, with the table and the text that is still buffered for stdout.\<close>

record 'f process_out =
  po_table :: "'f fd_table"
  po_buffer :: string
  po_files :: "'f \<Rightarrow> string"

text \<open>\<open>fflush(stdout)\<close>: what is buffered goes to the file descriptor 1 refers to now.\<close>

definition flush_stdout :: "'f process_out \<Rightarrow> 'f process_out" where
  "flush_stdout po =
     (case po_table po STDOUT of
        None \<Rightarrow> po
      | Some f \<Rightarrow> po\<lparr>po_files := (po_files po)(f := po_files po f @ po_buffer po), po_buffer := []\<rparr>)"

definition print_stdout :: "string \<Rightarrow> 'f process_out \<Rightarrow> 'f process_out" where
  "print_stdout s po = po\<lparr>po_buffer := po_buffer po @ s\<rparr>"

definition redirect :: "nat \<Rightarrow> bool \<Rightarrow> 'f process_out \<Rightarrow> nat option \<times> 'f process_out" where
  "redirect limit enable po =
     (if enable
      then (let po = flush_stdout po; (saved, t) = sys_dup limit STDOUT (po_table po)
            in (saved, po\<lparr>po_table := sys_dup2 STDERR STDOUT t\<rparr>))
      else (None, po))"

definition restore :: "nat option \<times> 'f process_out \<Rightarrow> nat option \<times> 'f process_out" where
  "restore st =
     (case fst st of
        None \<Rightarrow> st
      | Some saved \<Rightarrow>
          (let po = flush_stdout (snd st)
           in (None, po\<lparr>po_table := sys_close saved (sys_dup2 saved STDOUT (po_table po))\<rparr>)))"

subsection \<open>The terminal\<close>

record termios =
  tm_icanon :: bool
  tm_echo :: bool
  tm_isig :: bool
  tm_vmin :: nat
  tm_vtime :: nat
  tm_other :: "nat list" \<comment> \<open>the flags the tool leaves alone\<close>

text \<open>The terminal: its attributes, and what was written to it.\<close>

record tty =
  ty_attr :: termios
  ty_written :: string

record terminal =
  te_enabled :: bool
  te_saved :: termios

definition raw_mode :: "termios \<Rightarrow> termios" where
  "raw_mode a = a\<lparr>tm_icanon := False, tm_echo := False, tm_isig := False, tm_vmin := 0, tm_vtime := 0\<rparr>"

definition ty_write :: "string \<Rightarrow> tty \<Rightarrow> tty" where
  "ty_write s t = t\<lparr>ty_written := ty_written t @ s\<rparr>"

definition terminal_enter :: "bool \<Rightarrow> bool \<Rightarrow> bool \<Rightarrow> termios \<Rightarrow> tty \<Rightarrow> terminal \<times> tty" where
  "terminal_enter enable stdin_tty stdout_tty initial t =
     (if enable \<and> stdin_tty \<and> stdout_tty
      then (\<lparr>te_enabled = True, te_saved = ty_attr t\<rparr>,
            ty_write (csi ''?1049h'' @ csi ''?25l'') (t\<lparr>ty_attr := raw_mode (ty_attr t)\<rparr>))
      else (\<lparr>te_enabled = False, te_saved = initial\<rparr>, t))"

definition terminal_leave :: "terminal \<Rightarrow> tty \<Rightarrow> tty" where
  "terminal_leave te t =
     (if te_enabled te then (ty_write (csi ''?25h'' @ csi ''?1049l'') t)\<lparr>ty_attr := te_saved te\<rparr> else t)"

text \<open>
  \<open>read_key\<close>: \<open>ready\<close> is what \<open>poll\<close> answers, \<open>input\<close> what \<open>read\<close> gives for one byte. A NUL byte is no key.
\<close>

definition read_key :: "terminal \<Rightarrow> bool \<Rightarrow> char option \<Rightarrow> char option" where
  "read_key te ready input =
     (if \<not> te_enabled te \<or> \<not> ready then None
      else case input of Some c \<Rightarrow> if c = CHR 0x00 then None else Some c | None \<Rightarrow> None)"

definition terminal_size :: "terminal \<Rightarrow> (nat \<times> nat) option \<Rightarrow> nat \<times> nat" where
  "terminal_size te winsize =
     (case winsize of
        Some (rows, cols) \<Rightarrow> if te_enabled te \<and> cols > 0 then (rows, cols) else (0, 0)
      | None \<Rightarrow> (0, 0))"

subsection \<open>What comes out in between\<close>

text \<open>
  Between \<open>redirect\<close> and \<open>restore\<close> the tool and its libraries print through the buffer, and the programs
  they start write to the descriptor itself.
\<close>

datatype emission = Buffered string | Direct string

fun emit :: "emission \<Rightarrow> 'f process_out \<Rightarrow> 'f process_out" where
  "emit (Buffered s) po = print_stdout s po"
| "emit (Direct s) po =
     (case po_table po STDOUT of
        None \<Rightarrow> po
      | Some f \<Rightarrow> po\<lparr>po_files := (po_files po)(f := po_files po f @ s)\<rparr>)"

text \<open>Of \<open>main\<close>: stdout is borrowed while the observers are constructed, under Easy Mode only.\<close>

definition cli_noise :: "nat \<Rightarrow> bool \<Rightarrow> emission list \<Rightarrow> 'f process_out \<Rightarrow> nat option \<times> 'f process_out" where
  "cli_noise limit easy_mode_on noise po =
     (let (saved, po) = redirect limit easy_mode_on po in restore (saved, fold emit noise po))"

lemma emit_table [simp]: "po_table (fold emit noise po) = po_table po"
proof (induction noise arbitrary: po)
  case (Cons e noise)
  then show ?case by (cases e) (auto simp: print_stdout_def split: option.splits)
qed simp

lemma emit_other_files:
  "po_table po STDOUT = Some f \<Longrightarrow> g \<noteq> f \<Longrightarrow> po_files (fold emit noise po) g = po_files po g"
proof (induction noise arbitrary: po)
  case (Cons e noise)
  then show ?case by (cases e) (simp_all add: print_stdout_def)
qed simp

lemma lowest_free_Some:
  "lowest_free t limit = Some i \<Longrightarrow> t i = None \<and> i < limit"
  by (auto simp: lowest_free_def find_Some_iff)

lemma restore_again: "restore (restore st) = restore st"
  by (auto simp: restore_def Let_def split: option.splits)

lemma emit_appends: "\<exists>t. po_files (fold emit noise po) f = po_files po f @ t"
proof (induction noise arbitrary: po)
  case (Cons e noise)
  have "\<exists>t. po_files (emit e po) f = po_files po f @ t" by (cases e) (auto simp: print_stdout_def split: option.split)
  then show ?case using Cons [of "emit e po"] by auto
qed simp

lemma flush_appends: "\<exists>t. po_files (flush_stdout po) f = po_files po f @ t"
  by (auto simp: flush_stdout_def split: option.split)

text \<open>
  C34. While a descriptor is free to keep stdout in, whatever is printed while stdout is borrowed, and whoever
  prints it: afterwards every descriptor refers to the file it did before, nothing is left in the buffer, the
  file of stdout has got what was buffered before, and no file but those of stdout and stderr has changed.
  When stderr is another file, the file of stdout has got nothing else.
\<close>

theorem stdout_given_back:
  assumes out: "po_table po STDOUT = Some f" and err: "po_table po STDERR = Some g"
    and free: "lowest_free (po_table po) limit = Some i"
    and run: "cli_noise limit True noise po = (saved, po')"
  shows "po_table po' = po_table po \<and> po_buffer po' = [] \<and> saved = None \<and>
    (\<forall>h. h \<noteq> f \<longrightarrow> h \<noteq> g \<longrightarrow> po_files po' h = po_files po h) \<and>
    (\<exists>t. po_files po' f = po_files po f @ po_buffer po @ t \<and> (g \<noteq> f \<longrightarrow> t = []))"
proof -
  define po1 where "po1 = (flush_stdout po)\<lparr>po_table := (po_table po)(i \<mapsto> f, STDOUT \<mapsto> g)\<rparr>"
  have i: "po_table po i = None" using lowest_free_Some [OF free] by blast
  then have ne: "i \<noteq> STDOUT" "i \<noteq> STDERR" using out err by auto
  have "redirect limit True po = (Some i, po1)"
    using out err free ne by (simp add: redirect_def flush_stdout_def sys_dup_def sys_dup2_def po1_def)
  then have po': "(saved, po') = restore (Some i, fold emit noise po1)" using run by (simp add: cli_noise_def)
  have t1: "po_table po1 STDOUT = Some g" by (simp add: po1_def)
  have "(po_table po)(i \<mapsto> f, STDOUT \<mapsto> g, STDOUT \<mapsto> f, i := None) = po_table po" using i out by auto
  then have "po_table po' = po_table po" "po_buffer po' = []" "saved = None"
    using po' ne by (simp_all add: restore_def flush_stdout_def sys_close_def sys_dup2_def po1_def)
  moreover have files: "po_files po' h = po_files po1 h" if "h \<noteq> g" for h
    using po' t1 that emit_other_files [OF t1] by (simp add: restore_def flush_stdout_def Let_def)
  then have "h \<noteq> f \<Longrightarrow> h \<noteq> g \<Longrightarrow> po_files po' h = po_files po h" for h
    using err out by (simp add: po1_def flush_stdout_def)
  moreover have first: "po_files po1 f = po_files po f @ po_buffer po" using out by (simp add: po1_def flush_stdout_def)
  have "\<exists>t. po_files po' f = po_files po1 f @ t"
    using po' emit_appends [of noise po1 f] flush_appends [of "fold emit noise po1" f] by (auto simp: restore_def Let_def)
  then have "\<exists>t. po_files po' f = po_files po f @ po_buffer po @ t \<and> (g \<noteq> f \<longrightarrow> t = [])"
    using files [of f] first by (cases "g = f") auto
  ultimately show ?thesis by blast
qed

theorem stdout_given_back_witness:
  "\<exists>po' :: nat process_out. cli_noise 16 True [Buffered ''a'', Direct ''b'']
       \<lparr>po_table = [0 \<mapsto> 0, STDOUT \<mapsto> 1, STDERR \<mapsto> 2], po_buffer = ''x'', po_files = (\<lambda>f. [])\<rparr> = (None, po') \<and>
     po_table po' = [0 \<mapsto> 0, STDOUT \<mapsto> 1, STDERR \<mapsto> 2] \<and> po_files po' 1 = ''x''"
proof -
  define po :: "nat process_out" where
    "po = \<lparr>po_table = [0 \<mapsto> 0, STDOUT \<mapsto> 1, STDERR \<mapsto> 2], po_buffer = ''x'', po_files = (\<lambda>f. [])\<rparr>"
  obtain saved po' where run: "cli_noise 16 True [Buffered ''a'', Direct ''b''] po = (saved, po')" by fastforce
  have "lowest_free (po_table po) 16 = Some 3"
    by (simp add: lowest_free_def po_def STDOUT_def STDERR_def upt_conv_Cons)
  from stdout_given_back [OF _ _ this run, of 1 2] show ?thesis
    using run by (auto simp: po_def STDOUT_def STDERR_def)
qed

text \<open>When \<open>dup\<close> fails, \<open>saved_\<close> stays \<open>-1\<close>: stdout is redirected all the same and never given back.\<close>

lemma stdout_lost:
  assumes "po_table po STDOUT = Some f" "po_table po STDERR = Some g" "lowest_free (po_table po) limit = None"
  shows "po_table (snd (cli_noise limit True noise po)) STDOUT = Some g"
  using assms by (simp add: cli_noise_def redirect_def restore_def sys_dup_def sys_dup2_def flush_stdout_def)

text \<open>
  Whatever was written to the terminal while it was raw: leaving it gives it back its attributes, shows the
  cursor and goes back to the main screen, last. A terminal that was not taken is left alone.
\<close>

theorem terminal_given_back:
  "case terminal_enter enable stdin_tty stdout_tty initial t of (te, t1) \<Rightarrow>
     ty_attr (terminal_leave te (fold ty_write out t1)) = ty_attr t \<and>
     ty_written (terminal_leave te (fold ty_write out t1)) =
       (if te_enabled te
        then ty_written t @ csi ''?1049h'' @ csi ''?25l'' @ concat out @ csi ''?25h'' @ csi ''?1049l''
        else ty_written t @ concat out)"
proof -
  have "ty_written (fold ty_write out t1) = ty_written t1 @ concat out \<and> ty_attr (fold ty_write out t1) = ty_attr t1"
    for t1 by (induction out arbitrary: t1) (simp_all add: ty_write_def)
  then show ?thesis by (simp add: terminal_enter_def terminal_leave_def ty_write_def)
qed

text \<open>A key is only read from a terminal that was taken, and the size of none is zero.\<close>

lemma no_terminal_no_key: "\<not> te_enabled te \<Longrightarrow> read_key te ready input = None \<and> terminal_size te w = (0, 0)"
  by (auto simp: read_key_def terminal_size_def split: option.splits)

end
