(* ===== verification/Load_Nodes.thy ===== *)
theory Load_Nodes
  imports Options
begin

text \<open>
  The load generators the tool is measured against: \<open>src/test_nodes/scale_load.cpp\<close>, of which every
  process derives the same topology from the same arguments, and the options of
  \<open>src/test_nodes/rate_load.cpp\<close>. \<open>std::mt19937\<close> is the generator of the C++ standard.
\<close>

subsection \<open>The Mersenne twister\<close>

record mt19937 =
  mt_state :: "u32 list"
  mt_index :: nat

fun mt_fill :: "nat \<Rightarrow> u32 \<Rightarrow> u32 list" where
  "mt_fill 0 x = []"
| "mt_fill (Suc n) x =
     (let i = word_of_nat (624 - Suc n + 1) in x # mt_fill n (1812433253 * (x XOR drop_bit 30 x) + i))"

definition mt_seed :: "u32 \<Rightarrow> mt19937" where
  "mt_seed s = \<lparr>mt_state = mt_fill 624 s, mt_index = 624\<rparr>"

definition mt_twist_step :: "nat \<Rightarrow> u32 list \<Rightarrow> u32 list" where
  "mt_twist_step k xs =
     (let y = (xs ! k AND 0x80000000) OR (xs ! ((k + 1) mod 624) AND 0x7fffffff)
      in xs[k := xs ! ((k + 397) mod 624) XOR drop_bit 1 y XOR (if y AND 1 = 0 then 0 else 0x9908b0df)])"

definition mt_twist :: "u32 list \<Rightarrow> u32 list" where
  "mt_twist xs = fold mt_twist_step [0 ..< 624] xs"

definition mt_temper :: "u32 \<Rightarrow> u32" where
  "mt_temper y =
     (let y = y XOR drop_bit 11 y;
          y = y XOR (push_bit 7 y AND 0x9d2c5680);
          y = y XOR (push_bit 15 y AND 0xefc60000)
      in y XOR drop_bit 18 y)"

definition mt_next :: "mt19937 \<Rightarrow> u32 \<times> mt19937" where
  "mt_next g =
     (let g = (if mt_index g < 624 then g else \<lparr>mt_state = mt_twist (mt_state g), mt_index = 0\<rparr>)
      in (mt_temper (mt_state g ! mt_index g), g\<lparr>mt_index := mt_index g + 1\<rparr>))"

subsection \<open>Arguments of \<open>scale_load\<close>\<close>

record scale_args =
  sa_index :: int
  sa_processes :: int
  sa_nodes :: int
  sa_topics :: int
  sa_readers :: int
  sa_seed :: u32
  sa_rate :: double

definition scale_args0 :: scale_args where
  "scale_args0 = \<lparr>sa_index = -1, sa_processes = 0, sa_nodes = 1, sa_topics = 100, sa_readers = 4,
     sa_seed = 74, sa_rate = Fin 10\<rparr>"

text \<open>\<open>strtoul\<close> of glibc in base 10: a sign negates modulo 2^64, an overflow gives the greatest value.\<close>

definition strtoul :: "string \<Rightarrow> u64" where
  "strtoul s =
     (let (neg, t) = take_sign (dropWhile c_isspace s); n = digits_value 10 (takeWhile (is_digit 10) t)
      in if n \<ge> 2 ^ 64 then - 1 else if neg then - of_nat n else of_nat n)"

definition scale_flag :: "string \<Rightarrow> string \<Rightarrow> scale_args \<Rightarrow> scale_args option" where
  "scale_flag flag v a =
     (if flag = ''--index'' then Some (a\<lparr>sa_index := atoi v\<rparr>)
      else if flag = ''--processes'' then Some (a\<lparr>sa_processes := atoi v\<rparr>)
      else if flag = ''--nodes'' then Some (a\<lparr>sa_nodes := atoi v\<rparr>)
      else if flag = ''--topics'' then Some (a\<lparr>sa_topics := atoi v\<rparr>)
      else if flag = ''--readers'' then Some (a\<lparr>sa_readers := atoi v\<rparr>)
      else if flag = ''--seed'' then Some (a\<lparr>sa_seed := ucast (strtoul v)\<rparr>)
      else if flag = ''--rate'' then Some (a\<lparr>sa_rate := atof v\<rparr>)
      else None)"

definition scale_usage :: string where
  "scale_usage = ''usage: scale_load --index I --processes P [--nodes N] [--topics T] '' @
     ''[--readers R] [--seed S] [--rate HZ]'' @ [CHR 0x0A]"

fun scale_flags :: "string list \<Rightarrow> scale_args \<Rightarrow> string + scale_args" where
  "scale_flags [] a = Inr a"
| "scale_flags [flag] a =
     (if flag = ''--ros-args'' then Inr a else Inl (flag @ '' requires a value'' @ [CHR 0x0A]))"
| "scale_flags (flag # v # rest) a =
     (if flag = ''--ros-args'' then Inr a
      else case scale_flag flag v a of
        None \<Rightarrow> Inl (''unknown option: '' @ flag @ [CHR 0x0A])
      | Some a \<Rightarrow> scale_flags rest a)"

definition scale_valid :: "scale_args \<Rightarrow> bool" where
  "scale_valid a \<longleftrightarrow> \<not> (sa_processes a < 1 \<or> sa_index a < 0 \<or> sa_index a \<ge> sa_processes a \<or> sa_nodes a < 1 \<or>
     sa_topics a < 0 \<or> sa_readers a < 0 \<or> d_le (sa_rate a) (Fin 0))"

definition scale_parse :: "string list \<Rightarrow> string + scale_args" where
  "scale_parse argv =
     (case scale_flags argv scale_args0 of
        Inl e \<Rightarrow> Inl e
      | Inr a \<Rightarrow> if scale_valid a then Inr a else Inl scale_usage)"

subsection \<open>The topology\<close>

record scale_endpoint =
  sp_process :: int
  sp_node :: int

record topic_plan =
  tp_name :: string
  tp_bounded :: bool
  tp_writer :: scale_endpoint
  tp_readers :: "scale_endpoint list"

definition zero_padded :: "nat \<Rightarrow> int \<Rightarrow> string" where
  "zero_padded width n = (let s = dec (nat n) in replicate (width - length s) (CHR ''0'') @ s)"

definition swap_at :: "nat \<Rightarrow> nat \<Rightarrow> 'a list \<Rightarrow> 'a list" where
  "swap_at i j xs = xs[i := xs ! j, j := xs ! i]"

text \<open>One round of the partial Fisher-Yates shuffle.\<close>

definition draw_reader ::
  "int \<Rightarrow> nat \<Rightarrow> mt19937 \<times> int list \<times> scale_endpoint list \<Rightarrow> mt19937 \<times> int list \<times> scale_endpoint list" where
  "draw_reader nodes k st =
     (let (g, others, readers) = st;
          (r, g) = mt_next g;
          others = swap_at k (k + unat r mod (length others - k)) others;
          (r', g) = mt_next g
      in (g, others, readers @ [\<lparr>sp_process = others ! k, sp_node = uint (r' mod word_of_int nodes)\<rparr>]))"

definition other_processes :: "scale_args \<Rightarrow> int \<Rightarrow> int list" where
  "other_processes a w = filter (\<lambda>q. q \<noteq> w) [0 .. sa_processes a - 1]"

definition plan_topic :: "scale_args \<Rightarrow> int \<Rightarrow> topic_plan" where
  "plan_topic a t =
     (let g = mt_seed (sa_seed a * 1000003 + word_of_int t);
          w = t mod sa_processes a;
          others = other_processes a w;
          n = min (length others) (nat (sa_readers a));
          (_, _, readers) = fold (draw_reader (sa_nodes a)) [0 ..< n] (g, others, [])
      in \<lparr>tp_name = ''/scale/t'' @ zero_padded 4 t, tp_bounded = (t mod 10 = 9),
          tp_writer = \<lparr>sp_process = w, sp_node = (t div sa_processes a) mod sa_nodes a\<rparr>,
          tp_readers = readers\<rparr>)"

definition scale_plan :: "scale_args \<Rightarrow> topic_plan list" where
  "scale_plan a = map (plan_topic a) [0 .. sa_topics a - 1]"

text \<open>What a process creates: on a node of its own, a publisher or a subscription of a topic.\<close>

record scale_created =
  cr_writer :: bool
  cr_node :: int
  cr_topic :: string
  cr_bounded :: bool

definition planned :: "topic_plan \<Rightarrow> bool \<Rightarrow> scale_endpoint \<Rightarrow> scale_created" where
  "planned p writer e = \<lparr>cr_writer = writer, cr_node = sp_node e, cr_topic = tp_name p, cr_bounded = tp_bounded p\<rparr>"

definition create_topic_endpoints :: "scale_args \<Rightarrow> topic_plan \<Rightarrow> scale_created list" where
  "create_topic_endpoints a p =
     (if sp_process (tp_writer p) = sa_index a then [planned p True (tp_writer p)] else []) @
     map (planned p False) (filter (\<lambda>r. sp_process r = sa_index a) (tp_readers p))"

definition create_endpoints :: "scale_args \<Rightarrow> scale_created list" where
  "create_endpoints a = concat (map (create_topic_endpoints a) (scale_plan a))"

subsection \<open>Options of \<open>rate_load\<close>\<close>

record rate_options =
  rp_mode :: string
  rp_topic :: string
  rp_hz :: double
  rp_bounded :: bool

definition rate_usage :: string where
  "rate_usage = ''usage: rate_load pub|sub|both --topic NAME [--hz HZ] [--bounded]'' @ [CHR 0x0A]"

fun rate_flags :: "string list \<Rightarrow> rate_options \<Rightarrow> string + rate_options" where
  "rate_flags [] ops = Inr ops"
| "rate_flags (a # rest) ops =
     (case rest of
        v # rest' \<Rightarrow>
          if a = ''--topic'' then rate_flags rest' (ops\<lparr>rp_topic := v\<rparr>)
          else if a = ''--hz'' then rate_flags rest' (ops\<lparr>rp_hz := atof v\<rparr>)
          else if a = ''--bounded'' then rate_flags rest (ops\<lparr>rp_bounded := True\<rparr>)
          else Inl (''rate_load: unknown argument '' @ a @ [CHR 0x0A])
      | [] \<Rightarrow> if a = ''--bounded'' then Inr (ops\<lparr>rp_bounded := True\<rparr>)
          else Inl (''rate_load: unknown argument '' @ a @ [CHR 0x0A]))"

definition rate_valid :: "rate_options \<Rightarrow> bool" where
  "rate_valid ops \<longleftrightarrow> \<not> ((rp_mode ops \<noteq> ''pub'' \<and> rp_mode ops \<noteq> ''sub'' \<and> rp_mode ops \<noteq> ''both'') \<or>
     rp_topic ops = [] \<or> d_le (rp_hz ops) (Fin 0))"

text \<open>\<open>Inl\<close> is what is written to stderr before the program exits with status 2.\<close>

definition rate_parse :: "string list \<Rightarrow> string + rate_options" where
  "rate_parse argv =
     (case argv of
        [] \<Rightarrow> Inl rate_usage
      | mode # rest \<Rightarrow>
          (case rate_flags rest \<lparr>rp_mode = mode, rp_topic = [], rp_hz = Fin 10, rp_bounded = False\<rparr> of
             Inl e \<Rightarrow> Inl e
           | Inr ops \<Rightarrow> if rate_valid ops then Inr ops else Inl rate_usage))"

definition c_isalnum :: "char \<Rightarrow> bool" where
  "c_isalnum c \<longleftrightarrow> (let n = of_char c :: nat in 48 \<le> n \<and> n \<le> 57 \<or> 65 \<le> n \<and> n \<le> 90 \<or> 97 \<le> n \<and> n \<le> 122)"

definition rate_node_name :: "rate_options \<Rightarrow> string" where
  "rate_node_name ops =
     map (\<lambda>c. if c_isalnum c then c else CHR ''_'') (''rate_load_'' @ rp_mode ops @ ''_'' @ rp_topic ops)"

end
