(* ===== verification/Load_Props.thy ===== *)
theory Load_Props
  imports Load_Nodes
begin

text \<open>
  The topology of \<open>scale_load\<close>: every topic has its readers in as many different processes as asked for
  or as there are, and the processes that are started with the same arguments create together each
  planned endpoint exactly once.
\<close>

subsection \<open>Arguments\<close>

lemma atoi_less: "atoi s < 2 ^ 31"
proof -
  have "signed_take_bit 31 k < 2 ^ 31" for k :: int by (rule signed_take_bit_int_less_exp)
  then show ?thesis by (simp add: atoi_def Let_def split: prod.splits)
qed

lemma scale_flag_nodes: "scale_flag flag v a = Some a' \<Longrightarrow> sa_nodes a < 2 ^ 31 \<Longrightarrow> sa_nodes a' < 2 ^ 31"
  using atoi_less [of v] by (auto simp: scale_flag_def split: if_splits)

lemma scale_flags_nodes: "scale_flags argv a = Inr a' \<Longrightarrow> sa_nodes a < 2 ^ 31 \<Longrightarrow> sa_nodes a' < 2 ^ 31"
  by (induction argv a rule: scale_flags.induct)
    (auto split: if_splits option.splits dest: scale_flag_nodes)

lemma scale_parse_valid: "scale_parse argv = Inr a \<Longrightarrow> scale_valid a \<and> sa_nodes a < 2 ^ 31"
  using scale_flags_nodes [of argv scale_args0 a]
  by (auto simp: scale_parse_def scale_args0_def split: sum.splits if_splits)

subsection \<open>Drawing readers\<close>

lemma swap_at_mset: "i < length xs \<Longrightarrow> j < length xs \<Longrightarrow> mset (swap_at i j xs) = mset xs"
  by (simp add: swap_at_def mset_swap)

lemma swap_at_take: "k \<le> j \<Longrightarrow> take k (swap_at k j xs) = take k xs"
  by (simp add: swap_at_def)

lemma node_in_range:
  assumes "1 \<le> nodes" "nodes < 2 ^ 32"
  shows "0 \<le> uint ((r :: u32) mod word_of_int nodes)" and "uint (r mod word_of_int nodes) < nodes"
proof -
  have "uint (word_of_int nodes :: u32) = nodes" using assms by (simp add: uint_word_of_int_eq take_bit_int_eq_self)
  then show "uint (r mod word_of_int nodes) < nodes" using assms by (simp add: uint_mod)
qed simp

definition drawn :: "int \<Rightarrow> int list \<Rightarrow> nat \<Rightarrow> mt19937 \<times> int list \<times> scale_endpoint list \<Rightarrow> bool" where
  "drawn nodes all k st \<longleftrightarrow> mset (fst (snd st)) = mset all \<and> map sp_process (snd (snd st)) = take k (fst (snd st)) \<and>
     (\<forall>r \<in> set (snd (snd st)). 0 \<le> sp_node r \<and> sp_node r < nodes)"

lemma draw_reader_drawn:
  assumes "drawn nodes all k st" "k < length all" "1 \<le> nodes" "nodes < 2 ^ 32"
  shows "drawn nodes all (Suc k) (draw_reader nodes k st)"
proof -
  obtain g others readers where st: "st = (g, others, readers)" by (cases st)
  have m: "mset others = mset all" "map sp_process readers = take k others"
    using assms(1) by (auto simp: drawn_def st)
  then have l: "length others = length all" using mset_eq_length by blast
  obtain r g1 where r: "mt_next g = (r, g1)" by fastforce
  obtain r' g2 where r': "mt_next g1 = (r', g2)" by fastforce
  define j where "j = k + unat r mod (length others - k)"
  have j: "k \<le> j" "j < length others" using assms(2) l by (auto simp: j_def) (metis add.commute less_diff_conv mod_less_divisor zero_less_diff)
  define others' where "others' = swap_at k j others"
  have "mset others' = mset all" using swap_at_mset [of k others j] j assms(2) l m(1) by (simp add: others'_def)
  moreover have "length others' = length all" using calculation mset_eq_length by blast
  moreover have "take k others' = take k others" using j by (simp add: others'_def swap_at_take)
  ultimately show ?thesis
    using assms m node_in_range [OF assms(3,4), of r']
    by (auto simp: draw_reader_def st r r' drawn_def take_Suc_conv_app_nth Let_def
        simp flip: j_def others'_def)
qed

lemma draw_readers_drawn:
  assumes "n \<le> length all" "1 \<le> nodes" "nodes < 2 ^ 32"
  shows "drawn nodes all n (fold (draw_reader nodes) [0 ..< n] (g, all, []))"
  using assms(1)
proof (induction n)
  case (Suc n)
  then show ?case using draw_reader_drawn [of nodes all n] assms(2,3) by simp
qed (simp add: drawn_def)

lemma other_processes_length:
  "0 \<le> w \<Longrightarrow> w < sa_processes a \<Longrightarrow> length (other_processes a w) = nat (sa_processes a - 1)"
proof -
  assume w: "0 \<le> w" "w < sa_processes a"
  have "distinct (other_processes a w)" "set (other_processes a w) = {0 ..< sa_processes a} - {w}"
    by (auto simp: other_processes_def)
  then have "length (other_processes a w) = card ({0 ..< sa_processes a} - {w})" by (metis distinct_card)
  then show ?thesis using w by (simp add: nat_diff_distrib)
qed

text \<open>
  Of every topic of a plan, the writer and the readers run in existing processes on existing nodes, the
  readers in different processes, none of them the writer's, and there are as many as asked for, or one in
  every other process.
\<close>

lemma scale_readers:
  assumes "scale_parse argv = Inr a" and "p \<in> set (scale_plan a)"
  shows "(\<forall>e \<in> set (tp_writer p # tp_readers p). 0 \<le> sp_process e \<and> sp_process e < sa_processes a \<and>
      0 \<le> sp_node e \<and> sp_node e < sa_nodes a) \<and>
    distinct (map sp_process (tp_writer p # tp_readers p)) \<and>
    length (tp_readers p) = nat (min (sa_readers a) (sa_processes a - 1))"
proof -
  have v: "scale_valid a" "sa_nodes a < 2 ^ 31" using scale_parse_valid [OF assms(1)] by auto
  then have pos: "1 \<le> sa_processes a" "1 \<le> sa_nodes a" "0 \<le> sa_readers a" by (auto simp: scale_valid_def)
  obtain t where t: "0 \<le> t" "p = plan_topic a t" using assms(2) by (auto simp: scale_plan_def)
  define w where "w = t mod sa_processes a"
  have w: "0 \<le> w" "w < sa_processes a" using pos by (auto simp: w_def)
  define all where "all = other_processes a w"
  define n where "n = min (length all) (nat (sa_readers a))"
  define g where "g = mt_seed (sa_seed a * 1000003 + word_of_int t)"
  obtain g' others readers where f: "fold (draw_reader (sa_nodes a)) [0 ..< n] (g, all, []) = (g', others, readers)"
    by (metis prod.collapse)
  have "n \<le> length all" by (simp add: n_def)
  then have "drawn (sa_nodes a) all n (g', others, readers)"
    using draw_readers_drawn [of n all "sa_nodes a" g] f pos v by simp
  then have d: "mset others = mset all" "map sp_process readers = take n others"
    "\<forall>r \<in> set readers. 0 \<le> sp_node r \<and> sp_node r < sa_nodes a" by (auto simp: drawn_def)
  have p: "tp_readers p = readers" "tp_writer p = \<lparr>sp_process = w, sp_node = (t div sa_processes a) mod sa_nodes a\<rparr>"
    using f by (simp_all add: t(2) plan_topic_def Let_def w_def all_def n_def g_def)
  have all: "distinct all" "set all = {0 ..< sa_processes a} - {w}" by (auto simp: all_def other_processes_def)
  then have others: "distinct others" "set others = {0 ..< sa_processes a} - {w}"
    using d(1) by (metis mset_eq_imp_distinct_iff, metis set_mset_mset)
  have "set (map sp_process readers) \<subseteq> set others" using d(2) set_take_subset by metis
  then have in_range: "0 \<le> sp_process r \<and> sp_process r < sa_processes a \<and> sp_process r \<noteq> w" if "r \<in> set readers" for r
    using that others(2) by fastforce
  have "length others = length all" using d(1) mset_eq_length by blast
  then have "length readers = n" using d(2) by (metis \<open>n \<le> length all\<close> length_map length_take min.absorb2)
  also have "n = nat (min (sa_readers a) (sa_processes a - 1))"
    using other_processes_length [OF w] pos by (simp add: n_def all_def min_def) arith
  finally have "length readers = nat (min (sa_readers a) (sa_processes a - 1))" .
  moreover have "distinct (map sp_process readers)" using d(2) others(1) by simp
  moreover have "w \<notin> sp_process ` set readers" using in_range by blast
  ultimately show ?thesis using p in_range d(3) w pos by auto
qed

definition sample_scale :: scale_args where
  "sample_scale = scale_args0\<lparr>sa_index := 1, sa_processes := 2, sa_topics := 3\<rparr>"

lemma sample_scale_parse:
  "scale_parse [''--index'', ''1'', ''--processes'', ''2'', ''--topics'', ''3''] = Inr sample_scale"
  by (simp add: scale_parse_def scale_flag_def scale_args0_def sample_scale_def scale_valid_def atoi_def c_isspace_def
      digits_value_def is_digit_def digit_val_def apply_sign_def signed_take_bit_int_eq_self d_le_def)

lemma sample_scale_readers: "\<exists>p. p \<in> set (scale_plan sample_scale) \<and> length (tp_readers p) = 1"
proof -
  have "plan_topic sample_scale 0 \<in> set (scale_plan sample_scale)" by (simp add: scale_plan_def sample_scale_def)
  with scale_readers [OF sample_scale_parse this] show ?thesis by (auto simp: sample_scale_def scale_args0_def)
qed

subsection \<open>The whole system\<close>

lemma plan_index: "scale_plan (a\<lparr>sa_index := i\<rparr>) = scale_plan a"
  by (simp add: scale_plan_def plan_topic_def other_processes_def cong: map_cong)

lemma mset_concat_append:
  "mset (concat (map (\<lambda>i. f i @ g i) is)) = mset (concat (map f is)) + mset (concat (map g is))"
  by (induction "is") auto

lemma mset_concat_swap:
  "mset (concat (map (\<lambda>i. concat (map (f i) ps)) is)) = mset (concat (map (\<lambda>p. concat (map (\<lambda>i. f i p) is)) ps))"
proof (induction ps)
  case (Cons p ps)
  then show ?case by (simp add: mset_concat_append)
qed (induction "is", auto)

lemma mset_concat_cong:
  "(\<And>p. p \<in> set ps \<Longrightarrow> mset (f p) = mset (g p)) \<Longrightarrow> mset (concat (map f ps)) = mset (concat (map g ps))"
  by (induction ps) auto

lemma mset_filter_classes:
  "distinct is \<Longrightarrow> key ` set xs \<subseteq> set is \<Longrightarrow> mset (concat (map (\<lambda>i. filter (\<lambda>x. key x = i) xs) is)) = mset xs"
proof (induction "is" arbitrary: xs)
  case (Cons i "is")
  let ?rest = "filter (\<lambda>x. key x \<noteq> i) xs"
  have "filter (\<lambda>x. key x = i') ?rest = filter (\<lambda>x. key x = i') xs" if "i' \<in> set is" for i'
    using that Cons.prems(1) by (auto intro: filter_cong)
  then have "concat (map (\<lambda>i'. filter (\<lambda>x. key x = i') xs) is) = concat (map (\<lambda>i'. filter (\<lambda>x. key x = i') ?rest) is)"
    by (metis (mono_tags, lifting) map_eq_conv)
  moreover have "mset (concat (map (\<lambda>i'. filter (\<lambda>x. key x = i') ?rest) is)) = mset ?rest"
    using Cons.prems by (intro Cons.IH) auto
  ultimately show ?case by (simp add: multiset_partition [symmetric])
qed auto

definition planned_endpoints :: "topic_plan \<Rightarrow> scale_created list" where
  "planned_endpoints p = planned p True (tp_writer p) # map (planned p False) (tp_readers p)"

text \<open>
  C33. The processes of a system, started with the same arguments and each with its own index, create together
  the writer and the readers of every topic of the plan, each of them once.
\<close>

theorem scale_system_complete:
  assumes "scale_parse argv = Inr a"
  shows "mset (concat (map (\<lambda>i. create_endpoints (a\<lparr>sa_index := i\<rparr>)) [0 .. sa_processes a - 1])) =
    mset (concat (map planned_endpoints (scale_plan a)))"
proof -
  let ?is = "[0 .. sa_processes a - 1]"
  have topic: "mset (concat (map (\<lambda>i. create_topic_endpoints (a\<lparr>sa_index := i\<rparr>) p) ?is)) = mset (planned_endpoints p)"
    if p: "p \<in> set (scale_plan a)" for p
  proof -
    let ?made = "\<lambda>wr es. concat (map (\<lambda>i. map (planned p wr) (filter (\<lambda>e. sp_process e = i) es)) ?is)"
    have made: "mset (?made wr es) = mset (map (planned p wr) es)" if "set es \<subseteq> set (tp_writer p # tp_readers p)" for wr es
    proof -
      have "sp_process ` set es \<subseteq> set ?is" using scale_readers [OF assms p] that by fastforce
      from mset_filter_classes [OF _ this] have
        "mset (concat (map (\<lambda>i. filter (\<lambda>e. sp_process e = i) es) ?is)) = mset es" by simp
      moreover have "?made wr es = map (planned p wr) (concat (map (\<lambda>i. filter (\<lambda>e. sp_process e = i) es) ?is))"
        by (simp add: map_concat comp_def)
      ultimately show ?thesis by (simp only: mset_map)
    qed
    have "mset (?made True [tp_writer p] ) = mset (map (planned p True) [tp_writer p])"
      and "mset (?made False (tp_readers p)) = mset (map (planned p False) (tp_readers p))"
      by (rule made; auto)+
    then have "mset (concat (map (\<lambda>i. map (planned p True) (filter (\<lambda>e. sp_process e = i) [tp_writer p]) @
        map (planned p False) (filter (\<lambda>e. sp_process e = i) (tp_readers p))) ?is)) = mset (planned_endpoints p)"
      unfolding mset_concat_append by (simp only: planned_endpoints_def) simp
    moreover have "create_topic_endpoints (a\<lparr>sa_index := i\<rparr>) p =
        map (planned p True) (filter (\<lambda>e. sp_process e = i) [tp_writer p]) @
        map (planned p False) (filter (\<lambda>e. sp_process e = i) (tp_readers p))" for i
      by (simp add: create_topic_endpoints_def)
    ultimately show ?thesis by simp
  qed
  have "mset (concat (map (\<lambda>i. create_endpoints (a\<lparr>sa_index := i\<rparr>)) ?is)) =
      mset (concat (map (\<lambda>p. concat (map (\<lambda>i. create_topic_endpoints (a\<lparr>sa_index := i\<rparr>) p) ?is)) (scale_plan a)))"
    unfolding create_endpoints_def plan_index by (rule mset_concat_swap)
  also have "\<dots> = mset (concat (map planned_endpoints (scale_plan a)))"
    by (rule mset_concat_cong) (rule topic)
  finally show ?thesis .
qed

theorem scale_system_complete_witness:
  "mset (create_endpoints (sample_scale\<lparr>sa_index := 0\<rparr>)) + mset (create_endpoints sample_scale) =
    mset (concat (map planned_endpoints (scale_plan sample_scale)))"
proof -
  have "[0 .. sa_processes sample_scale - 1] = [0, 1]" "sample_scale\<lparr>sa_index := 1\<rparr> = sample_scale"
    by (simp_all add: sample_scale_def upto.simps)
  then show ?thesis using scale_system_complete [OF sample_scale_parse] by simp
qed

subsection \<open>\<open>rate_load\<close>\<close>

text \<open>What \<open>rate_load\<close> accepts is complete, and its node has a name ROS allows.\<close>

lemma rate_parse_valid:
  "rate_parse argv = Inr ops \<Longrightarrow> rp_mode ops \<in> {''pub'', ''sub'', ''both''} \<and> rp_topic ops \<noteq> [] \<and> \<not> d_le (rp_hz ops) (Fin 0)"
  by (auto simp: rate_parse_def rate_valid_def split: list.splits sum.splits if_splits)

lemma rate_node_name_chars: "\<forall>c \<in> set (rate_node_name ops). c_isalnum c \<or> c = CHR ''_''"
  by (auto simp: rate_node_name_def)

end
