(* ===== verification/Program.thy ===== *)
theory Program
  imports Main_Props Wait_Props Entities_Props Options_Props Process_Io
begin

text \<open>
  \<open>main\<close> of \<open>src/main.cpp\<close> as a whole: the start, the objects of the observation, the wait, and the
  one-shot output or the loop of \<open>--watch\<close>. What a run meets outside is one record; what happens one
  after the other in the code is composed here from the models of the parts.
\<close>

record program_world =
  pw_json :: json_text
  pw_console :: console
  pw_launch :: launch
  pw_init_throws :: bool \<comment> \<open>\<open>rclcpp::init\<close>, with the domain and the environment of the run\<close>
  pw_node_throws :: bool \<comment> \<open>the constructor of \<open>rclcpp::Node\<close>\<close>
  pw_fast_dds :: fast_dds
  pw_build :: build
  pw_ip :: ip_locator
  pw_activities :: "activity list"
  pw_own_prefixes :: "string set"
  pw_statistics_topic :: string
  pw_ticks :: "nat \<Rightarrow> tick"
  pw_measurable_at_end :: nat \<comment> \<open>\<open>refresh_reader_destinations\<close> after the wait\<close>
  pw_settle_at_end :: settle
  pw_timeout_text :: string \<comment> \<open>\<open>os << o.timeout\<close>\<close>
  pw_collect :: "options \<Rightarrow> wait_end \<Rightarrow> snapshot"
  pw_watch_env :: watch_env
  pw_watch_start :: int
  pw_watch_inputs :: "wait_end \<Rightarrow> watch_input list"
  pw_stdin_tty :: bool
  pw_stdout_tty :: bool
  pw_termios :: termios \<comment> \<open>what \<open>saved_\<close> is before it is read\<close>
  pw_attributes :: termios \<comment> \<open>of the terminal\<close>

text \<open>\<open>Hanging\<close>: the wait never ends. \<open>Terminated\<close>: an exception nobody catches.\<close>

datatype program_end = Exited int string "string option list" | Terminated | Hanging

definition wait_lines :: "program_world \<Rightarrow> options \<Rightarrow> string \<Rightarrow> string list" where
  "wait_lines w ops stopped_on =
     (let line = timeout_warning ops stopped_on (pw_timeout_text w) (pw_measurable_at_end w) (pw_settle_at_end w)
      in if line = [] then [] else [line])"

text \<open>What an iteration of the loop reads through the terminal: its size and a key, if it was taken.\<close>

definition through_terminal :: "terminal \<Rightarrow> watch_input \<Rightarrow> watch_input" where
  "through_terminal te i = i\<lparr>wi_size := terminal_size te (Some (wi_size i)), wi_key := read_key te True (wi_key i)\<rparr>"

text \<open>Nothing when an exception leaves the loop: whether the terminal is given back then is not defined.\<close>

definition watch_observation :: "program_world \<Rightarrow> options \<Rightarrow> wait_end \<Rightarrow> (tty \<times> string option list) option" where
  "watch_observation w ops r =
     (let (te, t) = terminal_enter (\<not> op_json ops \<and> \<not> op_csv ops) (pw_stdin_tty w) (pw_stdout_tty w) (pw_termios w)
            \<lparr>ty_attr = pw_attributes w, ty_written = []\<rparr>;
          s = watch_run ((pw_watch_env w)\<lparr>we_json := pw_json w, we_terminal := te_enabled te\<rparr>)
            (map (through_terminal te) (pw_watch_inputs w r)) (watch_loop0 (pw_console w) ops (pw_watch_start w))
      in if wl_thrown s then None else Some (terminal_leave te (fold ty_write (wl_out s) t), wl_err s))"

text \<open>After the wait: the output and the lines on stderr.\<close>

definition show_observation :: "program_world \<Rightarrow> options \<Rightarrow> wait_end \<Rightarrow> (string \<times> string option list) option" where
  "show_observation w ops r =
     (if op_watch ops then map_option (\<lambda>(t, err). (ty_written t, err)) (watch_observation w ops r)
      else one_shot (pw_json w) (pw_console w) ops (pw_collect w ops r))"

definition run_observation :: "program_world \<Rightarrow> started \<Rightarrow> program_end" where
  "run_observation w st =
     (let ops = st_ops st
      in if pw_init_throws w \<or> pw_node_throws w then Terminated
         else case fst (observe (pw_fast_dds w) (pw_build w) (pw_ip w) (st_domain st) (op_stats ops) (pw_activities w) []) of
           Aborted e \<Rightarrow> Terminated
         | Observed warnings \<Rightarrow>
             (case wait_for ops (pw_own_prefixes w) (pw_statistics_topic w) (pw_ticks w) of
                None \<Rightarrow> Hanging
              | Some r \<Rightarrow>
                  (case show_observation w ops r of
                     None \<Rightarrow> Terminated
                   | Some (out, err) \<Rightarrow>
                       Exited 0 out (map Some (st_err st @ warnings @ wait_lines w ops (fst r)) @ err))))"

definition transport_viz :: "program_world \<Rightarrow> string list \<Rightarrow> program_end" where
  "transport_viz w argv =
     (case start_up (pw_json w) (pw_console w) (pw_launch w) argv of
        Finished (Ended code out err) \<Rightarrow> Exited code out (map Some err)
      | Finished Uncaught \<Rightarrow> Terminated
      | Started st \<Rightarrow> run_observation w st)"

subsection \<open>How the program ends\<close>

text \<open>The exceptions of \<open>run_diff\<close>, as \<open>run_diff_ends\<close> names them.\<close>

definition diff_throws :: "json_text \<Rightarrow> console \<Rightarrow> options \<Rightarrow> bool" where
  "diff_throws J co ops \<longleftrightarrow>
     (let (one, co') = text_of co (op_files ops ! 0); (two, _) = text_of co' (op_files ops ! 1)
      in document_throws J one \<or> document_throws J two \<or> (op_json ops \<and> (\<exists>j. jt_dump J (Some 2) j = None)))"

lemma diff_uncaught: "run_diff J co ops = Uncaught \<Longrightarrow> diff_throws J co ops"
  using run_diff_result [of J co ops] by (simp add: diff_throws_def split_beta Let_def)

lemma start_up_finished:
  assumes run: "start_up J co la argv = Finished r"
  shows "(\<exists>code out err. r = Ended code out err \<and> (code = 0 \<or> code = 1 \<or> code = 2) \<and>
      (code = 2 \<longrightarrow> err \<noteq> [] \<and> (out = [] \<or> out = usage_text)))
    \<or> (r = Uncaught \<and> (\<exists>ops. parse (la_regex_error la) argv = Parsed ops \<and> op_command ops = ''diff'' \<and> diff_throws J co ops))"
proof (cases "parse (la_regex_error la) argv")
  case (Exit code out message)
  then show ?thesis
    using run parse_result [of "la_regex_error la" argv] by (auto simp: start_up_def split: if_splits)
next
  case (Parsed ops)
  show ?thesis
  proof (cases "op_command ops = ''diff''")
    case True
    then have "r = run_diff J co ops" using run Parsed by (simp add: start_up_def)
    then show ?thesis using run_diff_result [of J co ops] diff_uncaught [of J co ops] Parsed True
      by (cases "run_diff J co ops") (auto split: if_splits)
  next
    case False
    then show ?thesis using run Parsed by (auto simp: start_up_def split: if_splits sum.splits)
  qed
qed

lemma start_up_started:
  "start_up J co la argv = Started st \<Longrightarrow> \<exists>ops. st_ops st = default_timeout ops"
  by (auto simp: start_up_def prepare_def Let_def split: outcome.splits if_splits sum.splits)

text \<open>An entity is refused, or a name that a topic needs belongs to something that is not a topic.\<close>

definition entities_refused :: "fast_dds \<Rightarrow> bool" where
  "entities_refused fd \<longleftrightarrow> (\<exists>lg c. \<not> fd_creates fd lg c) \<or> (\<exists>lg name. fd_lookup fd lg name = Some False)"

lemma stats_reader_refused: "create_stats_reader fd ip m st = (Inl e, r) \<Longrightarrow> entities_refused fd"
  by (auto simp: create_stats_reader_def stats_topic_entity_def create_def entities_refused_def Let_def
      split: option.splits prod.splits if_splits)

lemma stats_readers_refused: "create_stats_readers fd ip ms st = (Some e, r) \<Longrightarrow> entities_refused fd"
  by (induction ms arbitrary: st) (auto split: prod.splits sum.splits dest: stats_reader_refused)

lemma stats_refused: "stats_construct fd ip p lg = (Inl e, lg') \<Longrightarrow> entities_refused fd"
  by (auto simp: stats_construct_def create_def Let_def split: prod.splits option.splits if_splits dest: stats_readers_refused)
    (auto simp: entities_refused_def)

lemma observe_aborted:
  "fst (observe fd b ip domain with_stats acts lg) = Aborted e \<Longrightarrow>
   (with_stats \<and> entities_refused fd) \<or> (\<exists>lg c. is_participant c \<and> \<not> fd_creates fd lg c)"
  by (auto simp: observe_def discovery_construct_def create_def Let_def intro: exI [of _ "CreateParticipant _ _"]
      dest: stats_refused split: prod.splits sum.splits if_splits)

lemma shown_nothing:
  assumes "show_observation w ops r = None"
  shows "op_json ops \<and> (\<exists>indent j. jt_dump (pw_json w) indent j = None)"
proof (cases "op_watch ops")
  case True
  obtain te t0 where te: "terminal_enter (\<not> op_json ops \<and> \<not> op_csv ops) (pw_stdin_tty w) (pw_stdout_tty w) (pw_termios w)
      \<lparr>ty_attr = pw_attributes w, ty_written = []\<rparr> = (te, t0)" by fastforce
  let ?env = "(pw_watch_env w)\<lparr>we_json := pw_json w, we_terminal := te_enabled te\<rparr>"
  let ?s = "watch_loop0 (pw_console w) ops (pw_watch_start w)"
  have "wl_thrown (watch_run ?env (map (through_terminal te) (pw_watch_inputs w r)) ?s)"
    using assms True te by (simp add: show_observation_def watch_observation_def Let_def split: if_splits)
  moreover have "\<not> wl_thrown ?s" by (simp add: watch_loop0_def)
  ultimately have "op_json (wl_ops ?s) \<and> (\<exists>indent j. jt_dump (we_json ?env) indent j = None)" using run_thrown by blast
  then show ?thesis by (simp add: watch_loop0_def)
next
  case False
  then show ?thesis using assms by (auto simp: show_observation_def one_shot_def render_json_def Let_def split: if_splits)
qed

text \<open>One name that is not UTF-8 is enough to lose the whole document of a run, and the run with it.\<close>

lemma document_not_written:
  "op_json ops \<Longrightarrow> \<not> op_watch ops \<Longrightarrow>
   jt_dump (pw_json w) (Some 2) (snapshot_json (pw_collect w ops r) (initial_options (pw_console w) ops)) = None \<Longrightarrow>
   show_observation w ops r = None"
  by (simp add: show_observation_def one_shot_def render_json_def initial_options_def view_options_def
      render_options0_def Let_def)


subsection \<open>The terminal of \<open>--watch\<close>\<close>

lemma written: "ty_written (fold ty_write out t) = ty_written t @ concat out \<and> ty_attr (fold ty_write out t) = ty_attr t"
  by (induction out arbitrary: t) (simp_all add: ty_write_def)

text \<open>
  However the loop was left, the terminal has its attributes back; what was written is the frames alone with
  \<open>--json\<close> and \<open>--csv\<close>, and what they are wrapped in goes back to the main screen otherwise.
\<close>

lemma watch_terminal_back:
  "watch_observation w ops r = Some (t, err) \<Longrightarrow> ty_attr t = pw_attributes w"
  by (auto simp: watch_observation_def terminal_enter_def terminal_leave_def ty_write_def written Let_def split: if_splits)

lemma watch_documents_alone:
  assumes "op_json ops \<or> op_csv ops" and "watch_observation w ops r = Some (t, err)"
  shows "\<exists>s. ty_written t = concat (wl_out s) \<and>
    watch_reaches ((pw_watch_env w)\<lparr>we_json := pw_json w, we_terminal := False\<rparr>)
      (watch_loop0 (pw_console w) ops (pw_watch_start w)) s"
  using assms run_reaches [OF watch_reaches.start]
  by (auto simp: watch_observation_def terminal_enter_def terminal_leave_def written Let_def split: if_splits)

end
