(* ===== verification/Profile.thy ===== *)
theory Profile
  imports Model Snapshot_Model
begin

text \<open>
  \<open>Profiler\<close> of \<open>src/main.cpp\<close>, its two counters, and \<open>local_ip_addresses\<close>. Times of the steady clock are
  integers of nanoseconds; what \<open>operator <<\<close> makes of the milliseconds, a \<open>double\<close>, and what \<open>getifaddrs\<close>
  and \<open>inet_ntop\<close> give are parameters.
\<close>

record profiler =
  pf_enabled :: bool

definition profiler_of :: "(string \<Rightarrow> string option) \<Rightarrow> profiler" where
  "profiler_of getenv =
     \<lparr>pf_enabled = (case getenv ''FTV_PROFILE'' of None \<Rightarrow> False | Some v \<Rightarrow> v \<noteq> [] \<and> v \<noteq> ''0'')\<rparr>"

definition profiler_now :: "profiler \<Rightarrow> int \<Rightarrow> int" where
  "profiler_now pf clock = (if pf_enabled pf then clock else 0)"

definition profile_field :: "string \<times> u64 \<Rightarrow> string" where
  "profile_field f = '',\"'' @ fst f @ ''\":'' @ dec (unat (snd f))"

definition profiler_emit ::
  "profiler \<Rightarrow> (int \<Rightarrow> string) \<Rightarrow> string \<Rightarrow> int \<Rightarrow> int \<Rightarrow> (string \<times> u64) list \<Rightarrow> string" where
  "profiler_emit pf ms_text phase since clock entries =
     (if \<not> pf_enabled pf then []
      else ''{\"ftv_profile\":\"'' @ phase @ ''\",\"ms\":'' @ ms_text (clock - since) @
        concat (map profile_field entries) @ ''}'' @ [CHR 0x0A])"

definition line_count :: "string \<Rightarrow> u64" where
  "line_count text = word_of_nat (count_list text (CHR 0x0A))"

fun count_pairs :: "topic_summary list \<Rightarrow> u64" where
  "count_pairs [] = 0"
| "count_pairs (t # ts) = word_of_nat (length (t_pairs t)) + count_pairs ts"

subsection \<open>The addresses of this host\<close>

text \<open>The address of an interface: of one of the two families, or of another; an interface may have none.\<close>

datatype 'a sockaddr = AfInet 'a | AfInet6 'a | OtherFamily

definition address_text :: "(bool \<Rightarrow> 'a \<Rightarrow> string option) \<Rightarrow> 'a sockaddr option \<Rightarrow> string option" where
  "address_text inet_ntop ifa_addr =
     (case ifa_addr of
        Some (AfInet a) \<Rightarrow> inet_ntop False a
      | Some (AfInet6 a) \<Rightarrow> inet_ntop True a
      | _ \<Rightarrow> None)"

definition local_ip_addresses ::
  "(bool \<Rightarrow> 'a \<Rightarrow> string option) \<Rightarrow> 'a sockaddr option list option \<Rightarrow> string set" where
  "local_ip_addresses inet_ntop ifs =
     (case ifs of
        None \<Rightarrow> {}
      | Some as \<Rightarrow> fold (\<lambda>a out. case address_text inet_ntop a of None \<Rightarrow> out | Some s \<Rightarrow> insert s out) as {})"

lemma address_fold:
  "fold (\<lambda>a out. case address_text inet_ntop a of None \<Rightarrow> out | Some s \<Rightarrow> insert s out) as out =
     out \<union> {s. \<exists>a \<in> set as. address_text inet_ntop a = Some s}"
proof (induction as arbitrary: out)
  case (Cons a as)
  then show ?case by (cases "address_text inet_ntop a") auto
qed simp

lemma address_text_Some:
  "address_text inet_ntop ifa_addr = Some s \<longleftrightarrow>
     (\<exists>a. ifa_addr = Some (AfInet a) \<and> inet_ntop False a = Some s \<or>
          ifa_addr = Some (AfInet6 a) \<and> inet_ntop True a = Some s)"
  by (auto simp: address_text_def split: option.splits sockaddr.splits)

lemma local_ip_addresses_are:
  "s \<in> local_ip_addresses inet_ntop (Some as) \<longleftrightarrow>
     (\<exists>a. Some (AfInet a) \<in> set as \<and> inet_ntop False a = Some s \<or>
          Some (AfInet6 a) \<in> set as \<and> inet_ntop True a = Some s)"
  by (auto simp: local_ip_addresses_def address_fold address_text_Some)

subsection \<open>One line per phase\<close>

lemma dec_line: "CHR 0x0A \<notin> set (dec n)"
proof (induction n rule: dec.induct)
  case (1 n)
  have no: "CHR 0x0A \<noteq> digit m" if "m < 10" for m
  proof
    assume "CHR 0x0A = digit m"
    then have "(of_char (digit m) :: nat) = of_char (CHR 0x0A)" by simp
    with that show False by (simp add: of_char_digit)
  qed
  with 1 no [of n] no [of "n mod 10"] show ?case by (subst dec.simps) (auto split: if_splits)
qed

lemma profile_field_line: "CHR 0x0A \<notin> set (fst f) \<Longrightarrow> count_list (profile_field f) (CHR 0x0A) = 0"
  by (auto simp: profile_field_def count_list_0_iff dec_line)

lemma profile_fields_line:
  "(\<And>f. f \<in> set entries \<Longrightarrow> CHR 0x0A \<notin> set (fst f)) \<Longrightarrow>
   count_list (concat (map profile_field entries)) (CHR 0x0A) = 0"
  by (induction entries) (simp_all add: profile_field_line)

text \<open>A profiler that is off writes nothing; one that is on writes one line.\<close>

lemma profiler_line:
  assumes "CHR 0x0A \<notin> set phase" "CHR 0x0A \<notin> set (ms_text (clock - since))"
    and "\<And>f. f \<in> set entries \<Longrightarrow> CHR 0x0A \<notin> set (fst f)"
  shows "line_count (profiler_emit pf ms_text phase since clock entries) = (if pf_enabled pf then 1 else 0)"
  using assms profile_fields_line [of entries]
  by (auto simp: profiler_emit_def line_count_def count_list_0_iff)

lemma count_pairs_sum: "count_pairs ts = word_of_nat (\<Sum>t\<leftarrow>ts. length (t_pairs t))"
  by (induction ts) simp_all

end
