(* ===== verification/Type_Support.thy ===== *)
theory Type_Support
  imports Entities
begin

text \<open>
  The type support of \<open>ros_discovery_info\<close> in \<open>src/ros_discovery_info_observer.cpp\<close>: what Fast DDS calls to
  write and read a \<open>ParticipantEntitiesInfo\<close>. Fast CDR and the callbacks that ROS generates for the message
  are the parameter \<open>fast_cdr\<close>, over a buffer and a position in it; an exception is \<open>None\<close>, with the
  buffer as it was left.
\<close>

record cdr =
  cd_buffer :: "u8 list"
  cd_position :: nat

record 'm fast_cdr =
  fc_big_endian :: bool
  fc_serialize_encapsulation :: "cdr \<Rightarrow> unit option \<times> cdr"
  fc_cdr_serialize :: "'m \<Rightarrow> cdr \<Rightarrow> bool option \<times> cdr"
  fc_read_encapsulation :: "cdr \<Rightarrow> cdr option"
  fc_cdr_deserialize :: "cdr \<Rightarrow> 'm \<Rightarrow> bool option \<times> 'm"
  fc_serialized_size :: "'m \<Rightarrow> u32"

record payload =
  pl_data :: "u8 list" \<comment> \<open>\<open>max_size\<close> bytes\<close>
  pl_length :: u32
  pl_big_endian :: bool \<comment> \<open>\<open>encapsulation == CDR_BE\<close>\<close>

definition serialize_message :: "'m fast_cdr \<Rightarrow> 'm \<Rightarrow> payload \<Rightarrow> bool \<times> payload" where
  "serialize_message fc m pl =
     (let pl = pl\<lparr>pl_big_endian := fc_big_endian fc\<rparr>
      in case fc_serialize_encapsulation fc \<lparr>cd_buffer = pl_data pl, cd_position = 0\<rparr> of
           (None, s) \<Rightarrow> (False, pl\<lparr>pl_data := cd_buffer s\<rparr>)
         | (Some _, s) \<Rightarrow>
             (case fc_cdr_serialize fc m s of
                (Some True, s) \<Rightarrow>
                  (True, pl\<lparr>pl_data := cd_buffer s, pl_length := word_of_nat (cd_position s)\<rparr>)
              | (_, s) \<Rightarrow> (False, pl\<lparr>pl_data := cd_buffer s\<rparr>)))"

text \<open>The second component is the message that \<open>data\<close> points to.\<close>

definition deserialize_message :: "'m fast_cdr \<Rightarrow> payload \<Rightarrow> 'm \<Rightarrow> bool \<times> 'm" where
  "deserialize_message fc pl data =
     (case fc_read_encapsulation fc \<lparr>cd_buffer = take (unat (pl_length pl)) (pl_data pl), cd_position = 0\<rparr> of
        None \<Rightarrow> (False, data)
      | Some s \<Rightarrow>
          (case fc_cdr_deserialize fc s data of
             (Some ok, data) \<Rightarrow> (ok, data)
           | (None, data) \<Rightarrow> (False, data)))"

record entities_info_type =
  ei_name :: string
  ei_max_serialized_size :: u32
  ei_has_key :: bool

definition kInitialSize :: u32 where
  "kInitialSize = 1024"

definition participant_entities_info_type :: entities_info_type where
  "participant_entities_info_type =
     \<lparr>ei_name = kTypeName, ei_max_serialized_size = kInitialSize, ei_has_key = False\<rparr>"

definition calculate_serialized_size :: "'m fast_cdr \<Rightarrow> 'm \<Rightarrow> u32" where
  "calculate_serialized_size fc m = 4 + fc_serialized_size fc m"

text \<open>\<open>compute_key\<close>: whether there is a key, and the handle, which is left alone.\<close>

definition compute_key :: "u8 list \<Rightarrow> bool \<times> u8 list" where
  "compute_key handle = (False, handle)"

subsection \<open>What Fast CDR promises\<close>

text \<open>
  \<open>cdr_fits fc m\<close> is the documented behaviour of Fast CDR for a message: the encapsulation takes four
  bytes, the callbacks write as many bytes as they announced, and both throw when the buffer ends before
  that. \<open>cdr_reads fc m\<close>: the callbacks read back what they wrote, from the bytes that were written.
\<close>

definition cdr_fits :: "'m fast_cdr \<Rightarrow> 'm \<Rightarrow> bool" where
  "cdr_fits fc m \<longleftrightarrow>
     (\<forall>buffer r s. fc_serialize_encapsulation fc \<lparr>cd_buffer = buffer, cd_position = 0\<rparr> = (r, s) \<longrightarrow>
        length (cd_buffer s) = length buffer \<and>
        (if 4 \<le> length buffer then r = Some () \<and> cd_position s = 4 else r = None)) \<and>
     (\<forall>s r s'. fc_cdr_serialize fc m s = (r, s') \<longrightarrow> cd_position s = 4 \<longrightarrow>
        length (cd_buffer s') = length (cd_buffer s) \<and>
        (if 4 + unat (fc_serialized_size fc m) \<le> length (cd_buffer s)
         then r = Some True \<and> cd_position s' = 4 + unat (fc_serialized_size fc m)
         else r = None))"

lemma fits_encapsulation:
  assumes "cdr_fits fc m" "fc_serialize_encapsulation fc \<lparr>cd_buffer = buffer, cd_position = 0\<rparr> = (r, s)"
  shows "length (cd_buffer s) = length buffer" "r \<noteq> None \<longleftrightarrow> 4 \<le> length buffer" "r \<noteq> None \<Longrightarrow> cd_position s = 4"
proof -
  have "length (cd_buffer s) = length buffer \<and>
      (if 4 \<le> length buffer then r = Some () \<and> cd_position s = 4 else r = None)"
    using assms unfolding cdr_fits_def by blast
  then show "length (cd_buffer s) = length buffer" "r \<noteq> None \<longleftrightarrow> 4 \<le> length buffer" "r \<noteq> None \<Longrightarrow> cd_position s = 4"
    by (simp_all split: if_splits)
qed

lemma fits_serialize:
  assumes "cdr_fits fc m" "fc_cdr_serialize fc m s = (r, s')" "cd_position s = 4"
  shows "length (cd_buffer s') = length (cd_buffer s)"
    "r = (if 4 + unat (fc_serialized_size fc m) \<le> length (cd_buffer s) then Some True else None)"
    "r = Some True \<Longrightarrow> cd_position s' = 4 + unat (fc_serialized_size fc m)"
proof -
  have "length (cd_buffer s') = length (cd_buffer s) \<and>
      (if 4 + unat (fc_serialized_size fc m) \<le> length (cd_buffer s)
       then r = Some True \<and> cd_position s' = 4 + unat (fc_serialized_size fc m) else r = None)"
    using assms unfolding cdr_fits_def by blast
  then show "length (cd_buffer s') = length (cd_buffer s)"
    "r = (if 4 + unat (fc_serialized_size fc m) \<le> length (cd_buffer s) then Some True else None)"
    "r = Some True \<Longrightarrow> cd_position s' = 4 + unat (fc_serialized_size fc m)"
    by (simp_all split: if_splits)
qed

lemma unat_calculated:
  "4 + unat (fc_serialized_size fc m) < 2 ^ 32 \<Longrightarrow>
   unat (calculate_serialized_size fc m) = 4 + unat (fc_serialized_size fc m)"
  by (simp add: calculate_serialized_size_def unat_word_ariths)

definition cdr_written :: "'m fast_cdr \<Rightarrow> 'm \<Rightarrow> u8 list \<Rightarrow> u8 list" where
  "cdr_written fc m buffer =
     (let s = snd (fc_cdr_serialize fc m (snd (fc_serialize_encapsulation fc \<lparr>cd_buffer = buffer, cd_position = 0\<rparr>)))
      in take (cd_position s) (cd_buffer s))"

definition cdr_reads :: "'m fast_cdr \<Rightarrow> 'm \<Rightarrow> bool" where
  "cdr_reads fc m \<longleftrightarrow>
     (\<forall>buffer data. 4 + unat (fc_serialized_size fc m) \<le> length buffer \<longrightarrow>
        (case fc_read_encapsulation fc \<lparr>cd_buffer = cdr_written fc m buffer, cd_position = 0\<rparr> of
           None \<Rightarrow> False
         | Some s \<Rightarrow> fc_cdr_deserialize fc s data = (Some True, m)))"

text \<open>
  A payload takes a message exactly when it has the calculated size, which is then its length; one that is
  too small is refused, with the length it had. What was written is read back, whatever was there before.
\<close>

lemma serialize_fits:
  assumes "cdr_fits fc m" and size: "4 + unat (fc_serialized_size fc m) < 2 ^ 32"
    and run: "serialize_message fc m pl = (ok, pl')"
  shows "ok \<longleftrightarrow> unat (calculate_serialized_size fc m) \<le> length (pl_data pl)"
    and "pl_length pl' = (if ok then calculate_serialized_size fc m else pl_length pl)"
    and "length (pl_data pl') = length (pl_data pl)"
proof -
  obtain r s where r: "fc_serialize_encapsulation fc \<lparr>cd_buffer = pl_data pl, cd_position = 0\<rparr> = (r, s)" by fastforce
  note enc = fits_encapsulation [OF assms(1) r]
  obtain r' s' where r': "fc_cdr_serialize fc m s = (r', s')" by fastforce
  have calc: "word_of_nat (4 + unat (fc_serialized_size fc m)) = calculate_serialized_size fc m"
    by (simp add: calculate_serialized_size_def)
  have "(ok \<longleftrightarrow> 4 + unat (fc_serialized_size fc m) \<le> length (pl_data pl)) \<and>
      pl_length pl' = (if ok then calculate_serialized_size fc m else pl_length pl) \<and>
      length (pl_data pl') = length (pl_data pl)"
  proof (cases r)
    case None
    then show ?thesis using run enc by (auto simp: serialize_message_def r Let_def)
  next
    case (Some u)
    note ser = fits_serialize [OF assms(1) r']
    show ?thesis using Some run enc ser calc
      by (cases r') (auto simp: serialize_message_def r r' Let_def split: if_splits)
  qed
  then show "ok \<longleftrightarrow> unat (calculate_serialized_size fc m) \<le> length (pl_data pl)"
      "pl_length pl' = (if ok then calculate_serialized_size fc m else pl_length pl)"
      "length (pl_data pl') = length (pl_data pl)"
    using unat_calculated [OF size] by simp_all
qed

lemma message_roundtrip:
  assumes fits: "cdr_fits fc m" and reads: "cdr_reads fc m" and size: "4 + unat (fc_serialized_size fc m) < 2 ^ 32"
    and run: "serialize_message fc m pl = (True, pl')"
  shows "deserialize_message fc pl' data = (True, m)"
proof -
  obtain s s' where r: "fc_serialize_encapsulation fc \<lparr>cd_buffer = pl_data pl, cd_position = 0\<rparr> = (Some (), s)"
      and r': "fc_cdr_serialize fc m s = (Some True, s')"
      and pl': "pl_data pl' = cd_buffer s'" "pl_length pl' = word_of_nat (cd_position s')"
    using run by (auto simp: serialize_message_def Let_def split: prod.splits option.splits bool.splits)
  have room: "4 + unat (fc_serialized_size fc m) \<le> length (pl_data pl)"
    using serialize_fits(1) [OF fits size run] unat_calculated [OF size] by simp
  have "cd_position s = 4" using fits_encapsulation(3) [OF fits r] by simp
  then have "cd_position s' = 4 + unat (fc_serialized_size fc m)"
    using fits_serialize(3) [OF fits r'] by simp
  then have "take (unat (pl_length pl')) (pl_data pl') = cdr_written fc m (pl_data pl)"
    using unat_calculated [OF size] by (simp add: cdr_written_def r r' pl' calculate_serialized_size_def)
  then show ?thesis using reads room by (auto simp: cdr_reads_def deserialize_message_def split: option.splits)
qed

text \<open>A payload that Fast CDR cannot read ends in \<open>false\<close>, whatever it throws.\<close>

lemma deserialize_refuses:
  "fc_read_encapsulation fc \<lparr>cd_buffer = take (unat (pl_length pl)) (pl_data pl), cd_position = 0\<rparr> = None \<or>
   (\<forall>s. fst (fc_cdr_deserialize fc s data) = None) \<Longrightarrow> \<not> fst (deserialize_message fc pl data)"
  by (auto simp: deserialize_message_def split: option.split prod.split) (metis fst_conv option.distinct(1))

text \<open>The laws are satisfiable: a message of one byte after the header of plain CDR.\<close>

definition put_bytes :: "u8 list \<Rightarrow> cdr \<Rightarrow> bool option \<times> cdr" where
  "put_bytes bs s =
     (let i = cd_position s; j = i + length bs
      in if j \<le> length (cd_buffer s)
         then (Some True, \<lparr>cd_buffer = take i (cd_buffer s) @ bs @ drop j (cd_buffer s), cd_position = j\<rparr>)
         else (None, s))"

definition one_byte :: "u8 fast_cdr" where
  "one_byte = \<lparr>fc_big_endian = False,
     fc_serialize_encapsulation = (\<lambda>s. let (r, s) = put_bytes [0, 1, 0, 0] s in (map_option (\<lambda>_. ()) r, s)),
     fc_cdr_serialize = (\<lambda>m. put_bytes [m]),
     fc_read_encapsulation = (\<lambda>s. if 4 \<le> length (cd_buffer s) then Some (s\<lparr>cd_position := 4\<rparr>) else None),
     fc_cdr_deserialize = (\<lambda>s data. if cd_position s < length (cd_buffer s)
        then (Some True, cd_buffer s ! cd_position s) else (None, data)),
     fc_serialized_size = (\<lambda>m. 1)\<rparr>"

lemma one_byte_fits: "cdr_fits one_byte m"
  by (auto simp: cdr_fits_def one_byte_def put_bytes_def Let_def split: if_splits)

lemma one_byte_reads: "cdr_reads one_byte m"
  by (auto simp: cdr_reads_def cdr_written_def one_byte_def put_bytes_def Let_def nth_append min_def)

end
