(* ===== verification/Spec2Isabelle.thy ===== *)
theory Spec2Isabelle
  imports Ros_Names_Props Decide_Props Buffer_Links Topics_Props Rows_Props Measure_Props Judge_Props
    Stats_Rules Discovery_Props Diffing_Props Codes_Props Spelling_Props Shm_Props
    Observer_Props Stats_Observer_Props Rate_Window_Props Listener_Props
    Options_Props Wait_Props Server_Env_Props Collect_Props Watch_Props
    Parse_Props Json_Props Render_Csv Table_Props Main_Props
    Usage_Props Listeners_V2 Entities_Props Process_Io Load_Props
    Program Profile Type_Support
begin

text \<open>
  This development models \<open>transport_viz\<close>, the C++ program under
  \<open>src/src/fastdds_transport_viz\<close> that watches a ROS 2 graph over Fast DDS and says, for every writer
  and reader that match, which transport their data takes and why.

  \<^bold>\<open>The program.\<close> Observers collect what Fast DDS announces: \<open>discovery_observer.cpp\<close> the
  endpoints and participants, \<open>ros_discovery_info_observer.cpp\<close> and \<open>ros_graph_resolver.cpp\<close> the node
  names, \<open>stats_observer.cpp\<close> the samples of the statistics module, \<open>shm_info.cpp\<close> the shared memory
  of the host. \<open>main.cpp\<close> parses the command line, waits until discovery has settled, and for each
  frame \<open>collect\<close> composes the observers' data into a \<open>Snapshot\<close>. \<open>decision.cpp\<close> turns the endpoints of
  a snapshot into topics with a verdict per pair (\<open>summarize\<close>, \<open>decide\<close>), measures the pairs with the
  statistics and judges the verdicts (\<open>apply_stats\<close>), groups services and actions (\<open>display_rows\<close>) and
  compares snapshots (\<open>diff\<close>). The \<open>render_*.cpp\<close> files write a snapshot as a table, as JSON or as
  CSV.

  \<^bold>\<open>Theories and sources.\<close> A component \<open>X\<close> has a theory \<open>X\<close> with its records, datatypes and
  operations in the order of the source, and its theorems there or in \<open>X_Props\<close>.

  \<^item> \<open>Prelude\<close>, \<open>Ordered_Map\<close>, \<open>Double\<close>: strings as byte lists, \<open>std::map\<close> as a strictly
    ascending association list, \<open>double\<close> as an exact rational with infinities and NaN.
  \<^item> \<open>Model\<close>, \<open>Snapshot_Model\<close>: the structs and enums of \<open>model.hpp\<close>. A pointer into
    \<open>Snapshot::endpoints\<close> is the index of the endpoint.
  \<^item> \<open>Ros_Names\<close> (\<open>ros_names.cpp\<close>), \<open>Spelling\<close> (\<open>model.cpp\<close> and the readers of
    \<open>parse_json.cpp\<close>), \<open>Codes\<close> (the table of codes in \<open>decision.cpp\<close>).
  \<^item> \<open>Decide\<close>, \<open>Buffer_Links\<close>, \<open>Topics\<close>, \<open>Rows\<close>, \<open>Measure\<close>, \<open>Stats_Rules\<close>, \<open>Discovery\<close>,
    \<open>Diffing\<close>, \<open>Server_Env\<close>: the parts of \<open>decision.cpp\<close>; \<open>Decide_Spec\<close> is the decision table that
    \<open>decide\<close> is proved to implement.
  \<^item> \<open>Shm\<close> (\<open>shm_info.cpp\<close>), \<open>Observer\<close> (\<open>discovery_observer.cpp\<close>,
    \<open>ros_discovery_info_observer.cpp\<close>, \<open>ros_graph_resolver.cpp\<close>, \<open>rmw_check.cpp\<close>), \<open>Stats_Observer\<close> and
    \<open>Rate_Window\<close> (\<open>stats_observer.cpp\<close>): the observers. The callbacks run under the observer's lock,
    so a run is a list of events or steps and the state is folded over it.
  \<^item> \<open>Options\<close>, \<open>Wait\<close>, \<open>Collect\<close> (\<open>main.cpp\<close>): the command line, the loop that waits for the end of
    discovery over the sequence of what it reads each round, and one frame.
  \<^item> \<open>Text\<close>, \<open>Watch\<close> (\<open>render_table.cpp\<close>, \<open>render.hpp\<close>): text on a terminal and the state that \<open>--watch\<close>
    carries from frame to frame.
  \<^item> \<open>Table_Cells\<close>, \<open>Render_Table\<close> (\<open>render_table.cpp\<close>): the table, its cells, its rows and the lines below it.
  \<^item> \<open>Json\<close>, \<open>Render_Json\<close> (\<open>render_json.cpp\<close>), \<open>Parse_Json\<close> (\<open>parse_json.cpp\<close>), \<open>Render_Csv\<close>
    (\<open>render_csv.cpp\<close>): the documents. A document is the JSON value that the code builds; its text is
    the library's. Every \<open>throw\<close> on the way back is a value of \<open>failure\<close>.
  \<^item> \<open>Diff_Command\<close>, \<open>Main_Loop\<close> (\<open>main.cpp\<close>): \<open>transport_viz diff\<close>, what happens before an observation, a
    one-shot run and the loop of \<open>--watch\<close>: an iteration is a function of the state and of what it reads,
    the loop a step relation. \<open>Usage\<close> is the help, verbatim. \<open>Profile\<close> is the profiler and the addresses of
    the host. \<open>Process_Io\<close> is \<open>StdoutToStderr\<close> over a table of descriptors, and the terminal.
  \<^item> \<open>Entities\<close> (the constructors and destructors in \<open>discovery_observer.cpp\<close>,
    \<open>ros_discovery_info_observer.cpp\<close> and \<open>stats_observer.cpp\<close>, and the block of \<open>main\<close> that owns the
    observers): what the program asks of Fast DDS is a log of calls, newest first, with the entity each
    call gave. \<open>Listeners_V2\<close>: the callbacks of \<open>discovery_observer.cpp\<close> for Fast DDS 2.
    \<open>Type_Support\<close>: how \<open>ros_discovery_info_observer.cpp\<close> writes and reads a sample, over Fast CDR.
  \<^item> \<open>Program\<close> (\<open>main.cpp\<close>): the whole of \<open>main\<close>, composed from the parts above; what a run meets outside
    is the record \<open>program_world\<close>.
  \<^item> \<open>Load_Nodes\<close> (\<open>test_nodes/scale_load.cpp\<close>, \<open>test_nodes/rate_load.cpp\<close>): the load generators, with the
    Mersenne twister of the C++ standard.

  \<^bold>\<open>What is proved.\<close> \<open>Decide_Props\<close>: \<open>decide\<close> refines the table for every pair, and what
  a shared-memory or network verdict rests on. \<open>Topics_Props\<close>, \<open>Rows_Props\<close>: the summary and the table
  rows hold exactly the endpoints and pairs there are. \<open>Measure_Props\<close>, \<open>Judge_Props\<close>: the in-place
  loop measures every pair by itself, totals and losses are counted once, judging only moves a verdict
  on evidence. \<open>Discovery_Props\<close>, \<open>Diffing_Props\<close>, \<open>Codes_Props\<close>, \<open>Spelling_Props\<close>,
  \<open>Ros_Names_Props\<close>, \<open>Shm_Props\<close>, \<open>Server_Env_Props\<close>: functional behaviour and round trips of the rules
  around it. \<open>Observer_Props\<close>, \<open>Stats_Observer_Props\<close>, \<open>Rate_Window_Props\<close>,
  \<open>Listener_Props\<close>: the tables of the observers are what the last announcement or the first and the last
  sample of each key say, for every interleaving. \<open>Options_Props\<close>: the parser is sound and complete
  for the options the program means to accept. \<open>Wait_Props\<close>: the wait ends, and for the reason it gives.
  \<open>Collect_Props\<close>: what a frame holds. \<open>Watch_Props\<close>: marks and ghosts are what the last three
  comparisons say. \<open>Parse_Props\<close>: reading ends in a \<open>ParseError\<close>, in a snapshot whose references are
  valid, or, for a number out of range alone, in an exception of the library. \<open>Json_Props\<close>: what a document keeps of a snapshot, and that a comparison sees nothing else.
  \<open>Render_Csv\<close>: the cells survive the quoting. \<open>Table_Props\<close>: the table holds every pair once, in its
  columns and within the width; ghosts are not where they should be. \<open>Diff_Command\<close>: the exit status of a
  comparison. \<open>Main_Props\<close>: the state and the output of \<open>--watch\<close>, that frames keep coming, and what a
  start leaves behind. \<open>Usage_Props\<close>: the help names the options the parser knows. \<open>Entities_Props\<close>:
  whatever Fast DDS refuses, the calls obey the contract of its entities and an observation that ends
  leaves nothing behind; how the statistics readers are set up, and what a constructor that throws
  leaves. \<open>Listeners_V2\<close>: the callbacks of both generations agree. \<open>Process_Io\<close>: stdout and the terminal
  are given back as they were, stdout unless \<open>dup\<close> fails. \<open>Load_Props\<close>: the processes of a system create every
  planned endpoint once. \<open>Program\<close>: with which codes and for which reasons the program ends.

  \<^bold>\<open>Bounds and parameters.\<close> Counters are words of their C++ width and wrap; \<open>size_t\<close> numbers of
  elements are naturals. Where a counter of samples is shown exact, fewer than \<open>2 ^ 64\<close> samples are
  assumed. Arithmetic on \<open>double\<close> rounds through the parameter-free model of \<open>Double\<close>. The matcher for
  the regular expressions of \<open>ROS_DISCOVERY_SERVER\<close> unfolds a repetition at most as often as the text is
  long, which is enough because every repeated expression there consumes a byte. The loop of \<open>Wait\<close> is a
  \<open>partial_function (option)\<close>: that it returns is a theorem. Parameters stand for what is not in the
  sources: \<open>fnmatch\<close> of the C library, the result of \<open>std::sort\<close> among equals, \<open>IPLocator\<close> of Fast DDS
  (\<open>ip_locator\<close>), the build of Fast DDS (\<open>build\<close>), the file system (\<open>shm_env\<close>), what the process reads of
  its surroundings (\<open>surroundings\<close>), the verdict of \<open>std::regex\<close> about a pattern, and of \<open>nlohmann::json\<close> the functions \<open>dump\<close>
  (without a result where a string is not UTF-8, and \<open>jt_number\<close> for numbers, where it always has one) and \<open>parse\<close>
  (a document, a \<open>parse_error\<close> or an \<open>out_of_range\<close>: \<open>parse_result\<close>) and the conversions of \<open>get<T>\<close> (\<open>json_lib\<close>, with
  the laws of \<open>json_library\<close>, which \<open>plain_lib\<close> satisfies). A file of \<open>diff\<close> cannot be opened, fails while it is
  read, or has a text (\<open>opened\<close>). Whether \<open>rclcpp::init\<close> and \<open>rclcpp::Node\<close> throw are fields of
  \<open>program_world\<close>.

  Of Fast DDS, \<open>fast_dds\<close> says which entities it creates, what it looks up and the defaults of its QoS;
  \<open>legal\<close> is the contract its documentation gives for creating and deleting entities.

  \<^bold>\<open>Not modelled.\<close> Fast CDR itself and the callbacks generated for the message (the parameter \<open>fast_cdr\<close>,
  with the laws \<open>cdr_fits\<close> and \<open>cdr_reads\<close>), what \<open>rclcpp::init\<close>, \<open>rclcpp::Node\<close> and \<open>rclcpp::shutdown\<close> do inside,
  the delivery of signals (an iteration reads whether the program may go on) and where the profiler's
  lines fall between the others on stderr: they have no logic of the program's own. The IDL types under
  \<open>third_party\<close> are generated. Of the load generators, the timers and the executor are calls of \<open>rclcpp\<close>;
  the other test nodes publish or take one message type each. The probes under \<open>tools\<close> are experiments
  kept with the issues they were made for, and the Python and shell tools and the web viewer are not part
  of the program.
\<close>

end
